(* ===== verification/DuerPrelude.thy ===== *)
theory DuerPrelude
  imports Main "HOL-Library.Word"
begin

text \<open>
  Names and lemmas every component shares: the status codes of
  \<^verbatim>\<open>framework/include/lightduer_types.h\<close>, the byte and word types, the outcomes of
  \<^verbatim>\<open>DUER_MALLOC\<close>, and the collections the component proofs simplify with.

  The C code reports errors as negative \<^verbatim>\<open>int\<close>s and byte counts or message ids as positive
  ones, in the same \<^verbatim>\<open>duer_status_t\<close>, so a status is an \<open>int\<close> here.

  A C function that dereferences a pointer which is \<^verbatim>\<open>NULL\<close> or freed has no defined result. Such
  a function returns an \<open>option\<close> in this development and \<open>None\<close> is that fault; a safety theorem
  says that it does not happen.
\<close>

unbundle bit_operations_syntax

section \<open>Types\<close>

type_synonym addr = nat
type_synonym byte = "8 word"
type_synonym u16 = "16 word"
type_synonym u32 = "32 word"
type_synonym status = int

section \<open>Status codes\<close>

abbreviation DUER_OK :: status where "DUER_OK \<equiv> 0"
abbreviation DUER_ERR_FAILED :: status where "DUER_ERR_FAILED \<equiv> - 1"
abbreviation DUER_ERR_CONNECT_TIMEOUT :: status where "DUER_ERR_CONNECT_TIMEOUT \<equiv> - 2"
abbreviation DUER_ERR_INVALID_PARAMETER :: status where "DUER_ERR_INVALID_PARAMETER \<equiv> - 16"
abbreviation DUER_ERR_MEMORY_OVERLOW :: status where "DUER_ERR_MEMORY_OVERLOW \<equiv> - 17"
abbreviation DUER_ERR_PROFILE_INVALID :: status where "DUER_ERR_PROFILE_INVALID \<equiv> - 18"
abbreviation DUER_ERR_TRANS_INTERNAL_ERROR :: status where
  "DUER_ERR_TRANS_INTERNAL_ERROR \<equiv> - 48"
abbreviation DUER_ERR_TRANS_WOULD_BLOCK :: status where "DUER_ERR_TRANS_WOULD_BLOCK \<equiv> - 49"
abbreviation DUER_ERR_TRANS_TIMEOUT :: status where "DUER_ERR_TRANS_TIMEOUT \<equiv> - 50"
abbreviation DUER_ERR_REG_FAIL :: status where "DUER_ERR_REG_FAIL \<equiv> - 51"

section \<open>Allocation outcomes\<close>

text \<open>
  \<^verbatim>\<open>DUER_MALLOC\<close> ends in a function the integrator registers. Where only success or failure of an
  allocation matters, the upcoming outcomes are a list of booleans that the calls consume from
  the left; when the list is used up, every further allocation succeeds.
\<close>

type_synonym mem = "bool list"

fun malloc_ok :: "mem \<Rightarrow> bool \<times> mem" where
  "malloc_ok [] = (True, [])"
| "malloc_ok (b # bs) = (b, bs)"

section \<open>Buffers\<close>

text \<open>
  A buffer is the list of its bytes, or of its characters. Reading or writing past its end is the fault \<open>None\<close>.
\<close>

definition memget :: "nat \<Rightarrow> nat \<Rightarrow> 'a list \<Rightarrow> 'a list option" where
  "memget off n buf = (if off + n \<le> length buf then Some (take n (drop off buf)) else None)"

definition memput :: "nat \<Rightarrow> 'a list \<Rightarrow> 'a list \<Rightarrow> 'a list option" where
  "memput off xs buf =
     (if off + length xs \<le> length buf then Some (take off buf @ xs @ drop (off + length xs) buf)
      else None)"

lemma memput_length: "memput off xs buf = Some buf' \<Longrightarrow> length buf' = length buf"
  by (auto simp: memput_def split: if_splits)

lemma memput_all [simp]: "length xs = length buf \<Longrightarrow> memput 0 xs buf = Some xs"
  by (simp add: memput_def)

lemma memput_0 [simp]: "length xs \<le> length buf \<Longrightarrow> memput 0 xs buf = Some (xs @ drop (length xs) buf)"
  by (simp add: memput_def)

lemma memput_replicate:
  "length xs \<le> n \<Longrightarrow> memput 0 xs (replicate n z) = Some (xs @ replicate (n - length xs) z)"
  by (simp add: memput_def)

lemma memget_all [simp]: "memget 0 (length buf) buf = Some buf"
  by (simp add: memget_def)

lemma u32_of_nat: "n < 2 ^ 32 \<Longrightarrow> unat (of_nat n :: u32) = n"
  by (simp add: unat_of_nat take_bit_nat_eq_self)

section \<open>Collections\<close>

named_theorems duer_defs \<open>definitions the component proofs unfold\<close>
named_theorems duer_frame \<open>which parts of the state an operation leaves alone\<close>

section \<open>Generic lemmas\<close>

lemma last_Some_split: "as \<noteq> [] \<Longrightarrow> \<exists>bs. as = bs @ [last as]"
  by (metis append_butlast_last_id)

lemma map_upd_notin_cong:
  "a \<notin> set as \<Longrightarrow> map (\<lambda>x. f (the ((h(a \<mapsto> v)) x))) as = map (\<lambda>x. f (the (h x))) as"
  by (auto intro!: map_cong)

lemma map_del_notin_cong:
  "a \<notin> set as \<Longrightarrow> map (\<lambda>x. f (the ((h(a := None)) x))) as = map (\<lambda>x. f (the (h x))) as"
  by (auto intro!: map_cong)

lemma length_le_butlast_last: "as \<noteq> [] \<Longrightarrow> length (butlast as) < length as"
  by simp

end
