(* ===== verification/NetUtil.thy ===== *)
theory NetUtil
  imports DuerPrelude
begin

text \<open>
  \<^verbatim>\<open>framework/utils/lightduer_net_util.c\<close>: conversion between host and network byte order. The
  target's byte order is the argument \<open>le\<close> (\<open>True\<close>: little endian); how such a target lays a 16 or
  32 bit word out in memory is \<open>store16\<close> and \<open>store32\<close>. A header field written with \<^verbatim>\<open>duer_htonl\<close>
  and read with \<^verbatim>\<open>duer_ntohl\<close> is the same four bytes on the wire on every target.
\<close>

section \<open>Words in memory\<close>

definition be32 :: "u32 \<Rightarrow> byte list" where
  "be32 v = [ucast (drop_bit 24 v), ucast (drop_bit 16 v), ucast (drop_bit 8 v), ucast v]"

definition store32 :: "bool \<Rightarrow> u32 \<Rightarrow> byte list" where
  "store32 le v = (if le then rev (be32 v) else be32 v)"

definition of_be32 :: "byte list \<Rightarrow> u32" where
  "of_be32 bs = push_bit 24 (ucast (bs ! 0)) OR push_bit 16 (ucast (bs ! 1))
     OR push_bit 8 (ucast (bs ! 2)) OR ucast (bs ! 3)"

definition load32 :: "bool \<Rightarrow> byte list \<Rightarrow> u32" where
  "load32 le bs = of_be32 (if le then rev (take 4 bs) else take 4 bs)"

definition be16 :: "u16 \<Rightarrow> byte list" where
  "be16 v = [ucast (drop_bit 8 v), ucast v]"

definition store16 :: "bool \<Rightarrow> u16 \<Rightarrow> byte list" where
  "store16 le v = (if le then rev (be16 v) else be16 v)"

section \<open>The code\<close>

definition SWAP_S :: "u16 \<Rightarrow> u16" where
  "SWAP_S a = drop_bit 8 (a AND 0xff00) OR push_bit 8 (a AND 0x00ff)"

definition SWAP_L :: "u32 \<Rightarrow> u32" where
  "SWAP_L a = drop_bit 24 (a AND 0xff000000) OR drop_bit 8 (a AND 0x00ff0000)
     OR push_bit 8 (a AND 0x0000ff00) OR push_bit 24 (a AND 0x000000ff)"

text \<open>The first byte of the word 1 in memory.\<close>

definition duer_is_little_endian :: "bool \<Rightarrow> byte" where
  "duer_is_little_endian le = hd (store32 le 1)"

definition duer_htons :: "bool \<Rightarrow> u16 \<Rightarrow> u16" where
  "duer_htons le v = (if duer_is_little_endian le \<noteq> 0 then SWAP_S v else v)"

definition duer_htonl :: "bool \<Rightarrow> u32 \<Rightarrow> u32" where
  "duer_htonl le v = (if duer_is_little_endian le \<noteq> 0 then SWAP_L v else v)"

definition duer_ntohs :: "bool \<Rightarrow> u16 \<Rightarrow> u16" where
  "duer_ntohs le v = (if duer_is_little_endian le \<noteq> 0 then SWAP_S v else v)"

definition duer_ntohl :: "bool \<Rightarrow> u32 \<Rightarrow> u32" where
  "duer_ntohl le v = (if duer_is_little_endian le \<noteq> 0 then SWAP_L v else v)"

section \<open>Bits\<close>

lemma is_little_endian_iff [simp]: "duer_is_little_endian le \<noteq> 0 \<longleftrightarrow> le"
  by (simp add: duer_is_little_endian_def store32_def be32_def)

lemma SWAP_S_masks:
  "SWAP_S a = drop_bit 8 (a AND push_bit 8 (mask 8)) OR push_bit 8 (a AND mask 8)"
  by (simp add: SWAP_S_def mask_eq_exp_minus_1)

lemma SWAP_L_masks:
  "SWAP_L a = drop_bit 24 (a AND push_bit 24 (mask 8)) OR drop_bit 8 (a AND push_bit 16 (mask 8))
     OR push_bit 8 (a AND push_bit 8 (mask 8)) OR push_bit 24 (a AND mask 8)"
  by (simp add: SWAP_L_def mask_eq_exp_minus_1)

lemma bit_SWAP_S:
  "bit (SWAP_S a) n \<longleftrightarrow> (if n < 8 then bit a (8 + n) else n < 16 \<and> bit a (n - 8))"
  by (auto simp: SWAP_S_masks bit_simps add.commute dest: bit_imp_le_length)

lemma bit_SWAP_L:
  "bit (SWAP_L a) n \<longleftrightarrow>
     (if n < 8 then bit a (24 + n) else if n < 16 then bit a (8 + n)
      else if n < 24 then bit a (n - 8) else n < 32 \<and> bit a (n - 24))"
  by (auto simp: SWAP_L_masks bit_simps add.commute dest: bit_imp_le_length)

lemma SWAP_S_invol [simp]: "SWAP_S (SWAP_S a) = a"
  by (rule bit_word_eqI) (auto simp: bit_SWAP_S)

lemma SWAP_L_invol [simp]: "SWAP_L (SWAP_L a) = a"
  by (rule bit_word_eqI) (auto simp: bit_SWAP_L)

lemma be32_SWAP_L: "be32 (SWAP_L v) = rev (be32 v)"
  by (simp add: be32_def) (intro conjI; rule bit_word_eqI; auto simp: bit_simps bit_SWAP_L)

lemma be16_SWAP_S: "be16 (SWAP_S v) = rev (be16 v)"
  by (simp add: be16_def) (intro conjI; rule bit_word_eqI; auto simp: bit_simps bit_SWAP_S)

lemma length_be32 [simp]: "length (be32 v) = 4" "length (be16 w) = 2" "length (store32 le v) = 4"
  by (simp_all add: be32_def be16_def store32_def)

lemma of_be32_be32 [simp]: "of_be32 (be32 v) = v"
proof (rule bit_word_eqI)
  fix n assume "n < LENGTH(32)"
  then consider "n < 8" | "8 \<le> n" "n < 16" | "16 \<le> n" "n < 24" | "24 \<le> n" "n < 32"
    by fastforce
  then show "bit (of_be32 (be32 v)) n \<longleftrightarrow> bit v n"
    by cases (auto simp: of_be32_def be32_def bit_simps)
qed

lemma be32_inj: "be32 v = be32 w \<longleftrightarrow> v = w"
  by (metis of_be32_be32)

lemma load_store32: "load32 le (store32 le v @ bs) = v"
  by (simp add: load32_def store32_def)

lemma store_htonl [simp]: "store32 le (duer_htonl le v) = be32 v"
  by (simp add: store32_def duer_htonl_def be32_SWAP_L)

lemma load_be32: "load32 le (be32 v @ bs) = duer_htonl le v"
proof (cases le)
  case True
  have "load32 True (be32 v @ bs) = of_be32 (be32 (SWAP_L v))"
    by (simp add: load32_def be32_SWAP_L)
  with True show ?thesis by (simp add: duer_htonl_def)
next
  case False
  then show ?thesis by (simp add: load32_def duer_htonl_def)
qed

lemma ntohl_load_be32 [simp]: "duer_ntohl le (load32 le (be32 v @ bs)) = v"
  "duer_htonl le (load32 le (be32 v @ bs)) = v"
  by (simp_all add: load_be32 duer_htonl_def duer_ntohl_def)

lemma ntohl_load_be32_nil [simp]: "duer_ntohl le (load32 le (be32 v)) = v"
  "duer_htonl le (load32 le (be32 v)) = v"
  using ntohl_load_be32 [of le v "[]"] by simp_all

section \<open>Properties\<close>

text \<open>Whatever the byte order of the host, a 32 bit field stored after \<^verbatim>\<open>duer_htonl\<close> is the
  big-endian encoding of the value, a 16 bit field after \<^verbatim>\<open>duer_htons\<close> likewise, and a host of
  either byte order that loads such a field and applies \<^verbatim>\<open>duer_ntohl\<close> gets the value back.\<close>

theorem byte_order_wire_format:
  "store32 le (duer_htonl le v) = be32 v \<and> store16 le (duer_htons le w) = be16 w \<and>
   duer_ntohl le' (load32 le' (store32 le (duer_htonl le v))) = v \<and>
   duer_ntohs le (duer_htons le w) = w"
  using ntohl_load_be32(1) [of le' v "[]"]
  by (simp add: store16_def duer_htons_def duer_ntohs_def be16_SWAP_S)

end
