(* ===== verification/Transport.thy ===== *)
theory Transport
  imports NetUtil
begin

text \<open>
  \<^verbatim>\<open>framework/core/lightduer_net_transport.c\<close> (the integrator's socket functions behind NULL checks),
  \<^verbatim>\<open>lightduer_net_transport_wrapper.c\<close> (the transport handle and the choice between the plain and
  the encrypted functions), \<^verbatim>\<open>lightduer_net_trans_aes_cbc_encrypted.c\<close> (the framing and encryption
  of the build with \<^verbatim>\<open>NET_TRANS_ENCRYPTED_BY_AES_CBC\<close>) and \<^verbatim>\<open>utils/lightduer_aes.c\<close>.

  The integrator's socket functions are outside the SDK. The record \<open>world\<close> holds what they will
  answer, in order: any behaviour of a socket during a run is such a script, and when a script is
  used up the socket would block. A receive delivers bytes of the next chunk, at most as many as
  asked for, and leaves the rest of the chunk for the next call; once the peer has closed the
  connection every receive returns 0. \<^verbatim>\<open>w_trace\<close> is the sequence of
  calls that reached the socket. The fields \<^verbatim>\<open>w_clock\<close> (the readings of \<^verbatim>\<open>duer_timestamp\<close>),
  \<^verbatim>\<open>w_nsdl_map\<close> (a static variable of the CoAP layer) and \<^verbatim>\<open>w_stat\<close> (the longest connect time, the
  number of connects and their total time, static variables of the CA agent) belong to the
  components above.

  The cipher is the argument \<open>cr\<close>: what \<^verbatim>\<open>mbedtls_aes_crypt_cbc\<close> computes from the key, the
  initial vector and the input, and whether it fails.
\<close>

section \<open>Sockets\<close>

record netaddr =
  na_type :: byte
  na_port :: u16
  na_host :: "byte list option"
  na_host_size :: nat

abbreviation (input) PROTO_TCP :: byte where "PROTO_TCP \<equiv> 0"
abbreviation (input) PROTO_UDP :: byte where "PROTO_UDP \<equiv> 1"

text \<open>Which functions the integrator registered with \<^verbatim>\<open>baidu_ca_transport_init\<close>.\<close>

record soc_ops =
  f_create :: bool
  f_connect :: bool
  f_send :: bool
  f_recv :: bool
  f_recv_timeout :: bool
  f_close :: bool
  f_destroy :: bool

datatype recv_out = RecvErr nat | RecvData "byte list" | RecvClosed

datatype net_eff =
    NetCreate
  | NetConnect netaddr
  | NetSend "byte list" status
  | NetRecv nat
  | NetClose
  | NetDestroy

record world =
  w_mem :: mem
  w_soc :: soc_ops
  w_create :: "bool list"
  w_connect :: "status list"
  w_send :: "status list"
  w_recv :: "recv_out list"
  w_close :: "status list"
  w_clock :: "u32 list"
  w_nsdl_map :: "(addr \<times> addr) list"
  w_stat :: "u32 \<times> u32 \<times> u32"
  w_trace :: "net_eff list"

definition w_malloc :: "world \<Rightarrow> bool \<times> world" where
  "w_malloc w = (let (ok, m) = malloc_ok (w_mem w) in (ok, w\<lparr>w_mem := m\<rparr>))"

definition w_log :: "net_eff \<Rightarrow> world \<Rightarrow> world" where
  "w_log e w = w\<lparr>w_trace := w_trace w @ [e]\<rparr>"

definition baidu_ca_transport_init :: "soc_ops \<Rightarrow> world \<Rightarrow> world" where
  "baidu_ca_transport_init ops w = w\<lparr>w_soc := ops\<rparr>"

definition soc_create :: "world \<Rightarrow> bool \<times> world" where
  "soc_create w =
     (case w_create w of
        [] \<Rightarrow> (True, w_log NetCreate w)
      | ok # r \<Rightarrow> (ok, w_log NetCreate (w\<lparr>w_create := r\<rparr>)))"

definition soc_connect :: "netaddr \<Rightarrow> world \<Rightarrow> status \<times> world" where
  "soc_connect a w =
     (case w_connect w of
        [] \<Rightarrow> (DUER_ERR_TRANS_WOULD_BLOCK, w_log (NetConnect a) w)
      | s # r \<Rightarrow> (s, w_log (NetConnect a) (w\<lparr>w_connect := r\<rparr>)))"

definition soc_send :: "byte list \<Rightarrow> world \<Rightarrow> status \<times> world" where
  "soc_send bs w =
     (case w_send w of
        [] \<Rightarrow> (DUER_ERR_TRANS_WOULD_BLOCK, w_log (NetSend bs DUER_ERR_TRANS_WOULD_BLOCK) w)
      | s # r \<Rightarrow> (s, w_log (NetSend bs s) (w\<lparr>w_send := r\<rparr>)))"

definition soc_recv :: "nat \<Rightarrow> world \<Rightarrow> status \<times> byte list \<times> world" where
  "soc_recv n w =
     (case w_recv w of
        [] \<Rightarrow> (DUER_ERR_TRANS_WOULD_BLOCK, [], w_log (NetRecv n) w)
      | RecvClosed # r \<Rightarrow> (0, [], w_log (NetRecv n) w)
      | RecvErr e # r \<Rightarrow> (- int e, [], w_log (NetRecv n) (w\<lparr>w_recv := r\<rparr>))
      | RecvData bs # r \<Rightarrow>
          (int (length (take n bs)), take n bs,
           w_log (NetRecv n)
             (w\<lparr>w_recv := (if length bs \<le> n then r else RecvData (drop n bs) # r)\<rparr>)))"

definition soc_close :: "world \<Rightarrow> status \<times> world" where
  "soc_close w =
     (case w_close w of
        [] \<Rightarrow> (DUER_OK, w_log NetClose w)
      | s # r \<Rightarrow> (s, w_log NetClose (w\<lparr>w_close := r\<rparr>)))"

section \<open>The cipher\<close>

record crypt =
  cr_enc :: "byte list \<Rightarrow> byte list \<Rightarrow> byte list \<Rightarrow> byte list option"
  cr_dec :: "byte list \<Rightarrow> byte list \<Rightarrow> byte list \<Rightarrow> byte list option"

record aes_context =
  ax_key :: "byte list"
  ax_keybits :: nat
  ax_iv :: "byte list"

definition duer_aes_context_init :: "world \<Rightarrow> aes_context option \<times> world" where
  "duer_aes_context_init w =
     (let (ok, w1) = w_malloc w
      in (if ok then Some \<lparr>ax_key = replicate 32 0, ax_keybits = 0, ax_iv = replicate 16 0\<rparr>
          else None, w1))"

text \<open>The key is read from the caller's memory: fewer bytes than \<^verbatim>\<open>keybits / 8\<close> are a fault.\<close>

definition duer_aes_setkey ::
  "aes_context option \<Rightarrow> byte list \<Rightarrow> nat \<Rightarrow> (status \<times> aes_context option) option" where
  "duer_aes_setkey ctx key keybits =
     (case ctx of
        None \<Rightarrow> Some (DUER_ERR_INVALID_PARAMETER, None)
      | Some c \<Rightarrow>
          (if keybits \<noteq> 128 \<and> keybits \<noteq> 192 \<and> keybits \<noteq> 256
           then Some (DUER_ERR_INVALID_PARAMETER, Some c)
           else
             (case memget 0 (keybits div 8) key of
                None \<Rightarrow> None
              | Some k \<Rightarrow>
                  (case memput 0 k (ax_key c) of
                     None \<Rightarrow> None
                   | Some key' \<Rightarrow>
                       Some (DUER_OK, Some (c\<lparr>ax_key := key', ax_keybits := keybits\<rparr>))))))"

definition duer_aes_setiv ::
  "aes_context option \<Rightarrow> byte list \<Rightarrow> (status \<times> aes_context option) option" where
  "duer_aes_setiv ctx iv =
     (case ctx of
        None \<Rightarrow> Some (DUER_ERR_INVALID_PARAMETER, None)
      | Some c \<Rightarrow>
          (case memget 0 (length (ax_iv c)) iv of
             None \<Rightarrow> None
           | Some v \<Rightarrow> Some (DUER_OK, Some (c\<lparr>ax_iv := v\<rparr>))))"

text \<open>
  The input is the memory from the input pointer on. The library refuses a length that is not a
  multiple of the block size before it reads anything.
\<close>

definition aes_cbc ::
  "(byte list \<Rightarrow> byte list \<Rightarrow> byte list \<Rightarrow> byte list option) \<Rightarrow> aes_context option \<Rightarrow> nat
     \<Rightarrow> byte list \<Rightarrow> (status \<times> byte list) option" where
  "aes_cbc f ctx len input =
     (case ctx of
        None \<Rightarrow> Some (DUER_ERR_INVALID_PARAMETER, [])
      | Some c \<Rightarrow>
          (if len mod 16 \<noteq> 0 then Some (DUER_ERR_FAILED, [])
           else
             (case memget 0 len input of
                None \<Rightarrow> None
              | Some inp \<Rightarrow>
                  (case f (take (ax_keybits c div 8) (ax_key c)) (ax_iv c) inp of
                     None \<Rightarrow> Some (DUER_ERR_FAILED, [])
                   | Some out \<Rightarrow> Some (DUER_OK, out)))))"

definition duer_aes_cbc_encrypt ::
  "crypt \<Rightarrow> aes_context option \<Rightarrow> nat \<Rightarrow> byte list \<Rightarrow> (status \<times> byte list) option" where
  "duer_aes_cbc_encrypt cr ctx len input = aes_cbc (cr_enc cr) ctx len input"

definition duer_aes_cbc_decrypt ::
  "crypt \<Rightarrow> aes_context option \<Rightarrow> nat \<Rightarrow> byte list \<Rightarrow> (status \<times> byte list) option" where
  "duer_aes_cbc_decrypt cr ctx len input = aes_cbc (cr_dec cr) ctx len input"

definition duer_aes_context_destroy :: "aes_context option \<Rightarrow> status" where
  "duer_aes_context_destroy ctx =
     (case ctx of None \<Rightarrow> DUER_ERR_INVALID_PARAMETER | Some c \<Rightarrow> DUER_OK)"

section \<open>The transport handle\<close>

definition SIZEOF_TCPHEADER :: nat where "SIZEOF_TCPHEADER = 8"
definition MIN_BODY_SIZE :: nat where "MIN_BODY_SIZE = 16 + 1"
definition MAX_BODY_SIZE :: nat where "MAX_BODY_SIZE = 2048"
definition COAP_TCP_HDR :: u32 where "COAP_TCP_HDR = 0xbeefdead"
definition BDCAEC_MN :: u32 where "BDCAEC_MN = 0xBDCAEC01"
definition READ_FOREVER :: u32 where "READ_FOREVER = - 1"

lemmas body_sizes = SIZEOF_TCPHEADER_def MIN_BODY_SIZE_def MAX_BODY_SIZE_def

text \<open>
  \<open>tr_ctx\<close>: the socket is not \<^verbatim>\<open>NULL\<close>. \<open>tr_hdr\<close> and \<open>tr_body\<close> are the buffers
  \<^verbatim>\<open>received_header\<close> and \<^verbatim>\<open>received_body\<close>, \<open>tr_hdr_n\<close> and \<open>tr_body_n\<close> how much of them is filled.
  The string \<^verbatim>\<open>key_info\<close> points to is kept by value.
\<close>

record trans =
  tr_ctx :: bool
  tr_secure :: "aes_context option"
  tr_cert :: "byte list option"
  tr_cert_len :: nat
  tr_read_timeout :: u32
  tr_addr_type :: byte
  tr_key_info :: "byte list option"
  tr_hdr :: "byte list"
  tr_hdr_n :: nat
  tr_body :: "byte list"
  tr_body_n :: nat

definition trans_zero :: trans where
  "trans_zero =
     \<lparr>tr_ctx = False, tr_secure = None, tr_cert = None, tr_cert_len = 0, tr_read_timeout = 0,
      tr_addr_type = 0, tr_key_info = None, tr_hdr = replicate SIZEOF_TCPHEADER 0, tr_hdr_n = 0,
      tr_body = replicate MAX_BODY_SIZE 0, tr_body_n = 0\<rparr>"

section \<open>The integrator's functions behind their checks\<close>

definition duer_trans_wrapper_create :: "trans option \<Rightarrow> world \<Rightarrow> status \<times> trans option \<times> world" where
  "duer_trans_wrapper_create tr w =
     (case tr of
        None \<Rightarrow> (DUER_ERR_FAILED, None, w)
      | Some t \<Rightarrow>
          (let (t1, w1) =
                 (if f_create (w_soc w) then (let (ok, w1) = soc_create w in (t\<lparr>tr_ctx := ok\<rparr>, w1))
                  else (t, w))
           in (if tr_ctx t1 then DUER_OK else DUER_ERR_FAILED, Some t1, w1)))"

definition duer_trans_wrapper_connect :: "trans option \<Rightarrow> netaddr \<Rightarrow> world \<Rightarrow> status \<times> world" where
  "duer_trans_wrapper_connect tr addr w =
     (if tr \<noteq> None \<and> f_connect (w_soc w) then soc_connect addr w else (DUER_ERR_FAILED, w))"

definition duer_trans_wrapper_send :: "trans option \<Rightarrow> byte list \<Rightarrow> world \<Rightarrow> status \<times> world" where
  "duer_trans_wrapper_send tr bs w =
     (if tr \<noteq> None \<and> f_send (w_soc w) then soc_send bs w else (DUER_ERR_FAILED, w))"

text \<open>The bytes are what the call wrote to the front of the caller's buffer.\<close>

definition duer_trans_wrapper_recv :: "trans option \<Rightarrow> nat \<Rightarrow> world \<Rightarrow> status \<times> byte list \<times> world" where
  "duer_trans_wrapper_recv tr n w =
     (if tr \<noteq> None
      then (if f_recv_timeout (w_soc w) then soc_recv n w
            else if f_recv (w_soc w) then soc_recv n w
            else (DUER_ERR_FAILED, [], w))
      else (DUER_ERR_FAILED, [], w))"

definition duer_trans_wrapper_recv_timeout ::
  "trans option \<Rightarrow> nat \<Rightarrow> u32 \<Rightarrow> world \<Rightarrow> status \<times> byte list \<times> world" where
  "duer_trans_wrapper_recv_timeout tr n timeout w =
     (if tr \<noteq> None \<and> f_recv_timeout (w_soc w) then soc_recv n w else (DUER_ERR_FAILED, [], w))"

definition duer_trans_wrapper_close :: "trans option \<Rightarrow> world \<Rightarrow> status \<times> world" where
  "duer_trans_wrapper_close tr w =
     (if tr \<noteq> None \<and> f_close (w_soc w) then soc_close w else (DUER_ERR_FAILED, w))"

definition duer_trans_wrapper_destroy :: "trans option \<Rightarrow> world \<Rightarrow> status \<times> world" where
  "duer_trans_wrapper_destroy tr w =
     (if tr \<noteq> None \<and> f_destroy (w_soc w) then (DUER_OK, w_log NetDestroy w)
      else (DUER_ERR_FAILED, w))"

section \<open>The AES-CBC transport\<close>

text \<open>
  \<^verbatim>\<open>convert_bindtoken_to_key\<close>: each pair of characters goes through \<^verbatim>\<open>sscanf(str, "%x", &value)\<close>:
  leading white space and a sign are skipped and the conversion stops at the first character that
  is not a hexadecimal digit; no digit at all leaves the zero.
\<close>

definition hex_digit :: "byte \<Rightarrow> nat option" where
  "hex_digit c =
     (let n = unat c
      in if 48 \<le> n \<and> n \<le> 57 then Some (n - 48)
         else if 65 \<le> n \<and> n \<le> 70 then Some (n - 55)
         else if 97 \<le> n \<and> n \<le> 102 then Some (n - 87)
         else None)"

definition is_space :: "byte \<Rightarrow> bool" where
  "is_space c \<longleftrightarrow> c = 32 \<or> (9 \<le> unat c \<and> unat c \<le> 13)"

definition scan_hex2 :: "byte \<Rightarrow> byte \<Rightarrow> byte" where
  "scan_hex2 c d =
     (case hex_digit c of
        Some a \<Rightarrow> (case hex_digit d of Some b \<Rightarrow> of_nat (16 * a + b) | None \<Rightarrow> of_nat a)
      | None \<Rightarrow>
          (case hex_digit d of
             None \<Rightarrow> 0
           | Some b \<Rightarrow>
               (if is_space c \<or> c = 43 then of_nat b else if c = 45 then - of_nat b else 0)))"

fun scan_pairs :: "byte list \<Rightarrow> byte list" where
  "scan_pairs (c # d # cs) = scan_hex2 c d # scan_pairs cs"
| "scan_pairs cs = []"

definition convert_bindtoken_to_key :: "byte list \<Rightarrow> byte list option" where
  "convert_bindtoken_to_key cert =
     (case memget 0 32 cert of None \<Rightarrow> None | Some bs \<Rightarrow> Some (scan_pairs bs))"

text \<open>
  \<^verbatim>\<open>duer_trans_aes_cbc_encrypted_connect\<close>: the context is built anew at every connection; a failure
  destroys it and closes the socket.
\<close>

definition aes_context_setup :: "byte list option \<Rightarrow> world \<Rightarrow> (status \<times> aes_context option \<times> world) option" where
  "aes_context_setup cert w =
     (case duer_aes_context_init w of
        (None, w1) \<Rightarrow> Some (DUER_ERR_TRANS_INTERNAL_ERROR, None, w1)
      | (Some c, w1) \<Rightarrow>
          (case Option.bind cert convert_bindtoken_to_key of
             None \<Rightarrow> None
           | Some key \<Rightarrow>
               (case duer_aes_setkey (Some c) key (length key * 8) of
                  None \<Rightarrow> None
                | Some (rs, c1) \<Rightarrow>
                    (if rs \<noteq> DUER_OK then Some (DUER_ERR_TRANS_INTERNAL_ERROR, c1, w1)
                     else
                       (case duer_aes_setiv c1 (replicate 16 0) of
                          None \<Rightarrow> None
                        | Some (rs2, c2) \<Rightarrow>
                            (if rs2 \<noteq> DUER_OK
                             then Some (DUER_ERR_TRANS_INTERNAL_ERROR, c2, w1)
                             else Some (DUER_OK, c2, w1)))))))"

definition duer_trans_aes_cbc_encrypted_connect ::
  "trans \<Rightarrow> netaddr \<Rightarrow> world \<Rightarrow> (status \<times> trans \<times> world) option" where
  "duer_trans_aes_cbc_encrypted_connect tr addr w =
     (case duer_trans_wrapper_connect (Some tr) addr w of
        (rs, w1) \<Rightarrow>
          (if rs \<noteq> DUER_OK then Some (rs, tr, w1)
           else
             (let tr1 = tr\<lparr>tr_secure := None\<rparr>
              in case aes_context_setup (tr_cert tr1) w1 of
                   None \<Rightarrow> None
                 | Some (rs2, ctx, w2) \<Rightarrow>
                     (if rs2 = DUER_OK then Some (DUER_OK, tr1\<lparr>tr_secure := ctx\<rparr>, w2)
                      else
                        (let (rs3, w3) = duer_trans_wrapper_close (Some tr1) w2
                         in Some (rs2, tr1, w3))))))"

text \<open>
  \<^verbatim>\<open>duer_trans_aes_cbc_encrypted_send\<close>: the data is padded with zeros to whole blocks. The frame is
  the magic number, the length of what follows it, the length of the clear part in one byte, the
  clear part and the encrypted data.
\<close>

definition aes_pad :: "byte list \<Rightarrow> byte list" where
  "aes_pad bs = bs @ replicate (if length bs mod 16 = 0 then 0 else 16 - length bs mod 16) 0"

definition aes_header :: "bool \<Rightarrow> byte list \<Rightarrow> nat \<Rightarrow> byte list" where
  "aes_header le key_info output_len =
     store32 le (duer_htonl le BDCAEC_MN) @ store32 le (duer_htonl le (of_nat (output_len - 8)))
       @ [of_nat (length key_info)] @ key_info"

definition duer_trans_aes_cbc_encrypted_send ::
  "bool \<Rightarrow> crypt \<Rightarrow> trans option \<Rightarrow> byte list \<Rightarrow> world \<Rightarrow> (status \<times> world) option" where
  "duer_trans_aes_cbc_encrypted_send le cr tr bs w =
     (case tr of
        None \<Rightarrow> Some (DUER_ERR_TRANS_INTERNAL_ERROR, w)
      | Some t \<Rightarrow>
          (case tr_secure t of
             None \<Rightarrow> Some (DUER_ERR_TRANS_INTERNAL_ERROR, w)
           | Some ctx \<Rightarrow>
               (let (ok1, w1) = (if length bs mod 16 \<noteq> 0 then w_malloc w else (True, w))
                in if \<not> ok1 then Some (DUER_ERR_MEMORY_OVERLOW, w1)
                   else
                     (case tr_key_info t of
                        None \<Rightarrow> None
                      | Some key_info \<Rightarrow>
                          (let header_len = 4 + 4 + 1 + length key_info;
                               output_len = header_len + length (aes_pad bs);
                               (ok2, w2) = w_malloc w1
                           in if \<not> ok2 then Some (DUER_ERR_MEMORY_OVERLOW, w2)
                              else
                                (case duer_aes_cbc_encrypt cr (Some ctx) (length (aes_pad bs))
                                        (aes_pad bs) of
                                   None \<Rightarrow> None
                                 | Some (rs, out) \<Rightarrow>
                                     (if rs < 0 then Some (rs, w2)
                                      else
                                        Some (duer_trans_wrapper_send tr
                                                (aes_header le key_info output_len @ out) w2))))))))"

definition duer_trans_aes_cbc_encrypted_set_read_timeout :: "trans \<Rightarrow> u32 \<Rightarrow> status" where
  "duer_trans_aes_cbc_encrypted_set_read_timeout tr timeout = DUER_ERR_FAILED"


text \<open>
  \<^verbatim>\<open>duer_trans_aes_cbc_encrypted_recv\<close>: the size of the buffer says what is asked for. A buffer of 8
  bytes is a frame header, which is kept until the body has arrived and whose magic number is
  replaced by the plain CoAP one; any other permitted size is a body, which is decrypted and
  stripped of the inner CoAP header. Partial data is kept for the next call.
\<close>

definition aes_recv_header ::
  "bool \<Rightarrow> trans \<Rightarrow> byte list \<Rightarrow> world \<Rightarrow> (status \<times> byte list \<times> trans \<times> world) option" where
  "aes_recv_header le tr buf w =
     (if tr_hdr_n tr = SIZEOF_TCPHEADER
      then (case memget 0 SIZEOF_TCPHEADER (tr_hdr tr) of
              None \<Rightarrow> None
            | Some h \<Rightarrow> Some (int SIZEOF_TCPHEADER, h, tr, w))
      else if SIZEOF_TCPHEADER < tr_hdr_n tr
      then Some (DUER_ERR_TRANS_INTERNAL_ERROR, buf, tr, w)
      else
        (let need = length buf - tr_hdr_n tr;
             (rs, bs, w1) = duer_trans_wrapper_recv (Some tr) need w
         in (case memput 0 bs buf of
               None \<Rightarrow> None
             | Some buf1 \<Rightarrow>
                 (if rs \<le> 0 then Some (rs, buf1, tr, w1)
                  else
                    (case memput (tr_hdr_n tr) (take (nat rs) buf1) (tr_hdr tr) of
                       None \<Rightarrow> None
                     | Some hdr1 \<Rightarrow>
                         (if nat rs = need then
                            (let hdr2 = (if duer_htonl le (load32 le hdr1) = BDCAEC_MN
                                         then store32 le (duer_htonl le COAP_TCP_HDR) @ drop 4 hdr1
                                         else hdr1)
                             in Some (int SIZEOF_TCPHEADER, hdr2,
                                      tr\<lparr>tr_hdr := hdr2, tr_hdr_n := length buf\<rparr>, w1))
                          else
                            Some (DUER_ERR_TRANS_WOULD_BLOCK, buf1,
                                  tr\<lparr>tr_hdr := hdr1, tr_hdr_n := tr_hdr_n tr + nat rs\<rparr>,
                                  w1)))))))"

text \<open>
  The whole body is in \<open>buf\<close>. \<^verbatim>\<open>encrypted_msg_len\<close> is unsigned and wraps when the length of the
  clear part is too large; the inner length field that decides how much is copied back comes out of
  the decrypted data. The caller's buffer is the one of \<^verbatim>\<open>duer_coap_data_available\<close>, whose 2048
  bytes (\<^verbatim>\<open>DUER_BUFFER_SIZE\<close>) may be more than the size it passes: only \<^verbatim>\<open>size\<close> bytes are cleared,
  and what is returned are the bytes up to the size or to the end of the copy.
\<close>

definition DUER_BUFFER_SIZE :: nat where "DUER_BUFFER_SIZE = 1024 * 2"

definition aes_open_body ::
  "bool \<Rightarrow> crypt \<Rightarrow> aes_context \<Rightarrow> trans \<Rightarrow> byte list \<Rightarrow> (status \<times> byte list \<times> trans) option" where
  "aes_open_body le cr ctx tr buf =
     (let sz = length buf;
          raw_len = unat (buf ! 0);
          enc_len = (of_nat sz - 1 - of_nat raw_len :: u32)
      in (case duer_aes_cbc_decrypt cr (Some ctx) (unat enc_len) (drop (1 + raw_len) buf) of
            None \<Rightarrow> None
          | Some (rs, out) \<Rightarrow>
              (if rs < 0 then Some (DUER_ERR_TRANS_INTERNAL_ERROR, buf, tr)
               else
                 (case memput 0 out (tr_body tr) of
                    None \<Rightarrow> None
                  | Some body \<Rightarrow>
                      (let len = unat (duer_htonl le (load32 le (drop 4 body)))
                       in (case memget 8 len body of
                             None \<Rightarrow> None
                           | Some plain \<Rightarrow>
                               (if DUER_BUFFER_SIZE < len then None
                                else Some (int len, plain @ replicate (sz - len) 0,
                                           tr\<lparr>tr_body := body\<rparr>))))))))"

definition aes_recv_body ::
  "bool \<Rightarrow> crypt \<Rightarrow> trans \<Rightarrow> byte list \<Rightarrow> world \<Rightarrow> (status \<times> byte list \<times> trans \<times> world) option" where
  "aes_recv_body le cr tr buf w =
     (if length buf \<le> tr_body_n tr then Some (DUER_ERR_TRANS_INTERNAL_ERROR, buf, tr, w)
      else
        (let need = length buf - tr_body_n tr;
             (rs, bs, w1) = duer_trans_wrapper_recv (Some tr) need w
         in (case memput 0 bs buf of
               None \<Rightarrow> None
             | Some buf1 \<Rightarrow>
                 (if rs \<le> 0 then Some (rs, buf1, tr, w1)
                  else if nat rs \<noteq> need then
                    (case memput (tr_body_n tr) (take (nat rs) buf1) (tr_body tr) of
                       None \<Rightarrow> None
                     | Some body \<Rightarrow>
                         Some (DUER_ERR_TRANS_WOULD_BLOCK, buf1,
                               tr\<lparr>tr_body := body, tr_body_n := tr_body_n tr + nat rs\<rparr>, w1))
                  else
                    (case tr_secure tr of
                       None \<Rightarrow> Some (DUER_ERR_TRANS_INTERNAL_ERROR, buf1, tr, w1)
                     | Some ctx \<Rightarrow>
                         (case (if need \<noteq> length buf
                                then (case memput (tr_body_n tr) (take need buf1) (tr_body tr) of
                                        None \<Rightarrow> None
                                      | Some body \<Rightarrow> Some (body, take (length buf) body))
                                else Some (tr_body tr, buf1)) of
                            None \<Rightarrow> None
                          | Some (body, buf2) \<Rightarrow>
                              (case aes_open_body le cr ctx
                                      (tr\<lparr>tr_body := body, tr_hdr_n := 0, tr_body_n := 0\<rparr>) buf2 of
                                 None \<Rightarrow> None
                               | Some (rs2, buf3, tr3) \<Rightarrow> Some (rs2, buf3, tr3, w1))))))))"

definition duer_trans_aes_cbc_encrypted_recv ::
  "bool \<Rightarrow> crypt \<Rightarrow> trans \<Rightarrow> byte list \<Rightarrow> world \<Rightarrow> (status \<times> byte list \<times> trans \<times> world) option" where
  "duer_trans_aes_cbc_encrypted_recv le cr tr buf w =
     (if length buf = SIZEOF_TCPHEADER then aes_recv_header le tr buf w
      else if MIN_BODY_SIZE \<le> length buf \<and> length buf \<le> MAX_BODY_SIZE
      then aes_recv_body le cr tr buf w
      else Some (DUER_ERR_TRANS_INTERNAL_ERROR, buf, tr, w))"

definition duer_trans_aes_cbc_encrypted_close :: "trans option \<Rightarrow> world \<Rightarrow> status \<times> trans option \<times> world" where
  "duer_trans_aes_cbc_encrypted_close tr w =
     (let tr1 = map_option (\<lambda>t. t\<lparr>tr_secure := None\<rparr>) tr;
          (rs, w1) = duer_trans_wrapper_close tr1 w
      in (rs, tr1, w1))"

section \<open>The wrapper\<close>

definition duer_trans_is_encrypted :: "trans option \<Rightarrow> bool" where
  "duer_trans_is_encrypted tr =
     (case tr of None \<Rightarrow> False | Some t \<Rightarrow> tr_cert t \<noteq> None \<and> 0 < tr_cert_len t)"

datatype trans_cbs = TransNormal | TransSecure

definition duer_trans_get_callbacks :: "trans option \<Rightarrow> trans_cbs option" where
  "duer_trans_get_callbacks tr =
     (if tr = None then None
      else Some (if duer_trans_is_encrypted tr then TransSecure else TransNormal))"

definition duer_trans_acquire :: "byte list option \<Rightarrow> world \<Rightarrow> trans option \<times> world" where
  "duer_trans_acquire key_info w =
     (let (ok, w1) = w_malloc w
      in if \<not> ok then (None, w1)
         else
           (let (rs, t, w2) = duer_trans_wrapper_create (Some trans_zero) w1
            in (map_option (\<lambda>t. t\<lparr>tr_read_timeout := READ_FOREVER, tr_key_info := key_info\<rparr>) t, w2)))"

definition duer_trans_set_pk :: "trans option \<Rightarrow> byte list \<Rightarrow> world \<Rightarrow> status \<times> trans option \<times> world" where
  "duer_trans_set_pk tr data w =
     (case tr of
        None \<Rightarrow> (DUER_OK, None, w)
      | Some t \<Rightarrow>
          (let (ok, w1) = w_malloc w
           in (DUER_OK,
               Some (if ok then t\<lparr>tr_cert := Some data, tr_cert_len := length data\<rparr>
                     else t\<lparr>tr_cert := None, tr_cert_len := 0\<rparr>), w1)))"

definition duer_trans_set_read_timeout :: "trans option \<Rightarrow> u32 \<Rightarrow> status \<times> trans option" where
  "duer_trans_set_read_timeout tr timeout =
     (case tr of
        None \<Rightarrow> (DUER_ERR_FAILED, None)
      | Some t \<Rightarrow> (DUER_OK, Some (t\<lparr>tr_read_timeout := timeout\<rparr>)))"

definition duer_trans_connect ::
  "trans option \<Rightarrow> netaddr \<Rightarrow> world \<Rightarrow> (status \<times> trans option \<times> world) option" where
  "duer_trans_connect tr addr w =
     (let tr1 = map_option (\<lambda>t. t\<lparr>tr_addr_type := na_type addr\<rparr>) tr
      in case (tr1, duer_trans_get_callbacks tr1) of
           (Some t, Some TransNormal) \<Rightarrow>
             (let (rs, w1) = duer_trans_wrapper_connect (Some t) addr w in Some (rs, tr1, w1))
         | (Some t, Some TransSecure) \<Rightarrow>
             (case duer_trans_aes_cbc_encrypted_connect t addr w of
                None \<Rightarrow> None
              | Some (rs, t1, w1) \<Rightarrow> Some (rs, Some t1, w1))
         | _ \<Rightarrow> Some (DUER_ERR_FAILED, tr1, w))"

definition duer_trans_send ::
  "bool \<Rightarrow> crypt \<Rightarrow> trans option \<Rightarrow> byte list \<Rightarrow> world \<Rightarrow> (status \<times> world) option" where
  "duer_trans_send le cr tr bs w =
     (case duer_trans_get_callbacks tr of
        None \<Rightarrow> Some (DUER_ERR_FAILED, w)
      | Some TransNormal \<Rightarrow> Some (duer_trans_wrapper_send tr bs w)
      | Some TransSecure \<Rightarrow> duer_trans_aes_cbc_encrypted_send le cr tr bs w)"

definition duer_trans_recv ::
  "bool \<Rightarrow> crypt \<Rightarrow> trans option \<Rightarrow> byte list \<Rightarrow> world
     \<Rightarrow> (status \<times> byte list \<times> trans option \<times> world) option" where
  "duer_trans_recv le cr tr buf w =
     (case (tr, duer_trans_get_callbacks tr) of
        (Some t, Some TransNormal) \<Rightarrow>
          (let (rs, bs, w1) = duer_trans_wrapper_recv (Some t) (length buf) w
           in (case memput 0 bs buf of
                 None \<Rightarrow> None
               | Some buf1 \<Rightarrow> Some (rs, buf1, tr, w1)))
      | (Some t, Some TransSecure) \<Rightarrow>
          (case duer_trans_aes_cbc_encrypted_recv le cr t buf w of
             None \<Rightarrow> None
           | Some (rs, buf1, t1, w1) \<Rightarrow> Some (rs, buf1, Some t1, w1))
      | _ \<Rightarrow> Some (DUER_ERR_FAILED, buf, tr, w))"

definition duer_trans_close :: "trans option \<Rightarrow> world \<Rightarrow> status \<times> trans option \<times> world" where
  "duer_trans_close tr w =
     (case duer_trans_get_callbacks tr of
        None \<Rightarrow> (DUER_ERR_FAILED, tr, w)
      | Some TransNormal \<Rightarrow> (let (rs, w1) = duer_trans_wrapper_close tr w in (rs, tr, w1))
      | Some TransSecure \<Rightarrow> duer_trans_aes_cbc_encrypted_close tr w)"

definition duer_trans_release :: "trans option \<Rightarrow> world \<Rightarrow> status \<times> world" where
  "duer_trans_release tr w =
     (if tr = None then (DUER_OK, w)
      else
        (let (rs, tr1, w1) = duer_trans_close tr w;
             tr2 = map_option (\<lambda>t. t\<lparr>tr_cert := None, tr_cert_len := 0\<rparr>) tr1;
             (rs2, w2) = duer_trans_wrapper_destroy tr2 w1
         in (DUER_OK, w2)))"


section \<open>Lemmas\<close>

lemma w_malloc_sel [simp]:
  "w_malloc w = (fst (malloc_ok (w_mem w)), w\<lparr>w_mem := snd (malloc_ok (w_mem w))\<rparr>)"
  by (simp add: w_malloc_def Let_def split: prod.split)

lemma w_log_sel [simp]:
  "w_trace (w_log e w) = w_trace w @ [e]" "w_soc (w_log e w) = w_soc w"
  "w_mem (w_log e w) = w_mem w" "w_nsdl_map (w_log e w) = w_nsdl_map w" "w_clock (w_log e w) = w_clock w" "w_recv (w_log e w) = w_recv w" "w_send (w_log e w) = w_send w"
  by (simp_all add: w_log_def)

lemma soc_send_trace: "w_trace (snd (soc_send bs w)) = w_trace w @ [NetSend bs (fst (soc_send bs w))]"
  by (simp add: soc_send_def split: list.split)

lemma soc_recv_data:
  "w_recv w = [RecvData bs] \<Longrightarrow> n \<le> length bs \<Longrightarrow>
   soc_recv n w = (int n, take n bs,
     w_log (NetRecv n) (w\<lparr>w_recv := (if length bs \<le> n then [] else [RecvData (drop n bs)])\<rparr>))"
  by (simp add: soc_recv_def min_def)

lemma pad_mod_16: "((n::nat) + (16 - n mod 16)) mod 16 = 0"
  by presburger

lemma aes_pad_length: "length (aes_pad bs) mod 16 = 0" "length bs \<le> length (aes_pad bs)"
  using pad_mod_16 [of "length bs"] by (simp_all add: aes_pad_def)

lemma aes_header_length [simp]: "length (aes_header le k n) = 9 + length k"
  by (simp add: aes_header_def)

text \<open>
  What the code relies on in the cipher, for the inputs the library documents: a key of 16, 24 or 32
  bytes, an initialisation vector of 16 bytes and data of whole blocks. \<open>ctx_ok\<close>: a context that
  holds such a key and vector.
\<close>

definition cipher_ok :: "crypt \<Rightarrow> bool" where
  "cipher_ok cr \<longleftrightarrow>
     (\<forall>k iv x. length k \<in> {16, 24, 32} \<longrightarrow> length iv = 16 \<longrightarrow> length x mod 16 = 0 \<longrightarrow>
        (\<exists>c. cr_enc cr k iv x = Some c \<and> length c = length x \<and> cr_dec cr k iv c = Some x))"

definition ctx_ok :: "aes_context \<Rightarrow> bool" where
  "ctx_ok ctx \<longleftrightarrow> ax_keybits ctx \<in> {128, 192, 256} \<and> ax_keybits ctx div 8 \<le> length (ax_key ctx) \<and>
     length (ax_iv ctx) = 16"

text \<open>The context that a successful connect leaves behind is one of these.\<close>

lemma aes_context_setup_ok:
  assumes "aes_context_setup cert w = Some (DUER_OK, Some ctx, w')"
  shows "ctx_ok ctx"
  using assms
  by (auto simp: aes_context_setup_def duer_aes_context_init_def duer_aes_setkey_def duer_aes_setiv_def
        ctx_ok_def memget_def memput_def Let_def
      split: option.splits prod.splits if_splits)

lemma cipher_okD:
  assumes "cipher_ok cr" "ctx_ok ctx" "length x mod 16 = 0"
  shows "\<exists>c. cr_enc cr (take (ax_keybits ctx div 8) (ax_key ctx)) (ax_iv ctx) x = Some c \<and>
     length c = length x \<and> cr_dec cr (take (ax_keybits ctx div 8) (ax_key ctx)) (ax_iv ctx) c = Some x"
proof -
  have "length (take (ax_keybits ctx div 8) (ax_key ctx)) \<in> {16, 24, 32}"
    using assms(2) by (auto simp: ctx_ok_def)
  moreover have "length (ax_iv ctx) = 16" using assms(2) by (simp add: ctx_ok_def)
  ultimately show ?thesis using assms(1,3) unfolding cipher_ok_def by presburger
qed

definition coap_frame :: "byte list \<Rightarrow> byte list" where
  "coap_frame payload = be32 COAP_TCP_HDR @ be32 (of_nat (length payload)) @ payload"

lemma coap_frame_length [simp]: "length (coap_frame p) = 8 + length p"
  by (simp add: coap_frame_def)

lemma aes_cbc_Some:
  assumes "length x mod 16 = 0" "f (take (ax_keybits c div 8) (ax_key c)) (ax_iv c) x = Some y"
  shows "aes_cbc f (Some c) (length x) x = Some (DUER_OK, y)"
  using assms by (simp add: aes_cbc_def)

lemma unat_of_nat_u32: "n < 4294967296 \<Longrightarrow> unat (of_nat n :: u32) = n"
  by (simp add: unat_of_nat take_bit_eq_mod)

lemma aes_open_body_eq:
  assumes "duer_aes_cbc_decrypt cr (Some ctx)
      (unat (of_nat (length buf) - 1 - of_nat (unat (buf ! 0)) :: u32))
      (drop (1 + unat (buf ! 0)) buf) = Some (DUER_OK, out)"
    and "memput 0 out (tr_body tr) = Some body"
    and "unat (duer_htonl le (load32 le (drop 4 body))) = len"
  shows "aes_open_body le cr ctx tr buf =
     (case memget 8 len body of
        None \<Rightarrow> None
      | Some plain \<Rightarrow>
          (if DUER_BUFFER_SIZE < len then None
           else Some (int len, plain @ replicate (length buf - len) 0, tr\<lparr>tr_body := body\<rparr>)))"
  unfolding aes_open_body_def Let_def using assms by (auto split: option.split)

text \<open>Opening the body of a frame that was sealed with the same key.\<close>

lemma aes_open_sealed:
  assumes ok: "cipher_ok cr" and ctx: "ctx_ok ctx" and len: "length k < 256"
    and fit: "9 + length k + length (aes_pad (coap_frame payload)) \<le> 2056"
    and enc: "cr_enc cr (take (ax_keybits ctx div 8) (ax_key ctx)) (ax_iv ctx)
                (aes_pad (coap_frame payload)) = Some c"
    and body: "length (tr_body tr) = MAX_BODY_SIZE"
  shows "\<exists>tr'. aes_open_body le cr ctx tr ([of_nat (length k)] @ k @ c) =
     Some (int (length payload),
           payload @ replicate (1 + length k + length c - length payload) 0, tr')"
proof -
  let ?x = "aes_pad (coap_frame payload)"
  let ?buf = "[of_nat (length k)] @ k @ c"
  from cipher_okD [OF ok ctx aes_pad_length(1) [of "coap_frame payload"]] enc
  have c: "length c = length ?x" "cr_dec cr (take (ax_keybits ctx div 8) (ax_key ctx)) (ax_iv ctx) c = Some ?x"
    by auto
  have p: "length payload + 8 \<le> length ?x" using aes_pad_length(2) [of "coap_frame payload"] by simp
  have u: "unat (of_nat (length k) :: byte) = length k"
    using len by (simp add: unat_of_nat take_bit_eq_mod)
  have e: "(of_nat (length ?buf) - 1 - of_nat (length k) :: u32) = of_nat (length c)"
    by simp
  have "length c < 4294967296" using fit c by simp
  then have ue: "unat (of_nat (length c) :: u32) = length c" by (rule unat_of_nat_u32)
  have d: "duer_aes_cbc_decrypt cr (Some ctx) (length c) c = Some (DUER_OK, ?x)"
    using aes_cbc_Some [of c "cr_dec cr" ctx ?x] c aes_pad_length(1) [of "coap_frame payload"]
    by (simp add: duer_aes_cbc_decrypt_def)
  have fits: "length ?x \<le> length (tr_body tr)" using fit body by (simp add: body_sizes)
  let ?body = "?x @ drop (length ?x) (tr_body tr)"
  have x: "?x = be32 COAP_TCP_HDR @ be32 (of_nat (length payload)) @ payload
      @ drop (8 + length payload) ?x"
    by (simp add: aes_pad_def coap_frame_def)
  have "length payload < 4294967296" using p fit by simp
  then have l: "unat (duer_htonl le (load32 le (drop 4 ?body))) = length payload"
    by (subst x) (simp add: unat_of_nat_u32)
  have g: "memget 8 (length payload) ?body = Some payload"
    using p by (subst x) (simp add: memget_def)
  have q: "\<not> DUER_BUFFER_SIZE < length payload" using p fit by (simp add: DUER_BUFFER_SIZE_def)
  have d': "duer_aes_cbc_decrypt cr (Some ctx)
      (unat (of_nat (length ?buf) - 1 - of_nat (unat (?buf ! 0)) :: u32))
      (drop (1 + unat (?buf ! 0)) ?buf) = Some (DUER_OK, ?x)"
    using d u e ue by simp
  have m: "memput 0 ?x (tr_body tr) = Some ?body" using fits by simp
  show ?thesis unfolding aes_open_body_eq [OF d' m l] using g q by simp
qed


lemma wrapper_recv_data:
  assumes "f_recv (w_soc v)" "w_recv v = [RecvData bs]" "n \<le> length bs"
  shows "\<exists>v'. duer_trans_wrapper_recv (Some t) n v = (int n, take n bs, v') \<and>
     w_recv v' = (if length bs \<le> n then [] else [RecvData (drop n bs)]) \<and> w_soc v' = w_soc v \<and>
     w_nsdl_map v' = w_nsdl_map v"
  using assms by (simp add: duer_trans_wrapper_recv_def soc_recv_data)

lemma aes_recv_header_whole:
  assumes "f_recv (w_soc v)" "w_recv v = [RecvData (be32 BDCAEC_MN @ be32 m @ rest)]" "rest \<noteq> []"
    "tr_hdr_n r = 0" "length (tr_hdr r) = 8" "length buf = 8"
  shows "\<exists>v'. aes_recv_header le r buf v =
      Some (8, be32 COAP_TCP_HDR @ be32 m,
        r\<lparr>tr_hdr := be32 COAP_TCP_HDR @ be32 m, tr_hdr_n := 8\<rparr>, v') \<and>
     w_recv v' = [RecvData rest] \<and> w_soc v' = w_soc v"
proof -
  let ?h = "be32 BDCAEC_MN @ be32 m"
  from wrapper_recv_data [OF assms(1,2), of 8 r] assms(3) obtain v'
    where v': "duer_trans_wrapper_recv (Some r) 8 v = (8, ?h, v')" "w_recv v' = [RecvData rest]"
      "w_soc v' = w_soc v" by auto
  have "duer_htonl le (load32 le ?h) = BDCAEC_MN"
    by simp
  then show ?thesis using v' assms(4-6)
    by (simp add: aes_recv_header_def body_sizes Let_def del: memput_0)
qed

lemma aes_recv_body_whole:
  assumes recv: "f_recv (w_soc v)" "w_recv v = [RecvData bs]"
    and r: "tr_body_n r = 0" "tr_secure r = Some ctx" "length buf = length bs" "bs \<noteq> []"
    and op: "aes_open_body le cr ctx (r\<lparr>tr_hdr_n := 0, tr_body_n := 0\<rparr>) bs = Some (rs, out, r')"
  shows "\<exists>v'. aes_recv_body le cr r buf v = Some (rs, out, r', v') \<and> w_recv v' = []"
proof -
  from wrapper_recv_data [OF recv, of "length bs" r] obtain v'
    where v': "duer_trans_wrapper_recv (Some r) (length bs) v = (int (length bs), bs, v')"
      "w_recv v' = []" by auto
  have eq: "r\<lparr>tr_body := tr_body r, tr_hdr_n := 0, tr_body_n := 0\<rparr> = r\<lparr>tr_hdr_n := 0, tr_body_n := 0\<rparr>"
    by (cases r) simp
  show ?thesis using v' r op
    by (simp add: aes_recv_body_def eq del: memput_0)
qed

lemma aes_open_body_counts:
  "aes_open_body le cr ctx tr buf = Some (rs, buf', tr') \<Longrightarrow>
   tr_hdr_n tr' = tr_hdr_n tr \<and> tr_body_n tr' = tr_body_n tr"
  unfolding aes_open_body_def Let_def by (auto split: option.splits prod.splits if_splits)

lemma aes_send_frame:
  assumes "cr_enc cr (take (ax_keybits ctx div 8) (ax_key ctx)) (ax_iv ctx) (aes_pad bs) = Some c"
    "tr_secure s = Some ctx" "tr_key_info s = Some k" "f_send (w_soc w)" "w_mem w = []"
    "w_send w = [sr]"
  shows "\<exists>w'. duer_trans_aes_cbc_encrypted_send le cr (Some s) bs w = Some (sr, w') \<and>
     w_trace w' = w_trace w
       @ [NetSend (be32 BDCAEC_MN @ be32 (of_nat (1 + length k + length (aes_pad bs)))
            @ [of_nat (length k)] @ k @ c) sr]"
proof -
  let ?n = "length (aes_pad bs)"
  have "4 + 4 + 1 + length k + ?n - 8 = 1 + length k + ?n" by simp
  then have h: "aes_header le k (4 + 4 + 1 + length k + ?n) =
      be32 BDCAEC_MN @ be32 (of_nat (1 + length k + ?n)) @ [of_nat (length k)] @ k"
    unfolding aes_header_def by (simp only: store_htonl)
  have e: "duer_aes_cbc_encrypt cr (Some ctx) ?n (aes_pad bs) = Some (DUER_OK, c)"
    unfolding duer_aes_cbc_encrypt_def using aes_pad_length(1) assms(1) by (rule aes_cbc_Some)
  show ?thesis
    unfolding duer_trans_aes_cbc_encrypted_send_def Let_def
    using assms(2-6)
    by (simp only: h e w_malloc_sel malloc_ok.simps fst_conv snd_conv option.case prod.case
          simp_thms if_cancel if_True if_False)
      (simp add: duer_trans_wrapper_send_def soc_send_def)
qed

lemma aes_send_recv:
  assumes "cipher_ok cr" "ctx_ok ctx" "length k < 256"
    and "9 + length k + length (aes_pad (coap_frame payload)) \<le> 2056"
    and "duer_trans_is_encrypted (Some s)" "tr_secure s = Some ctx" "tr_key_info s = Some k"
    and "f_send (w_soc w)" "w_mem w = []" "w_send w = [sr]"
    and "duer_trans_is_encrypted (Some r)" "tr_secure r = Some ctx" "tr_hdr_n r = 0" "tr_body_n r = 0"
    and "length (tr_hdr r) = 8" "length (tr_body r) = MAX_BODY_SIZE"
  shows "\<exists>wire w'. duer_trans_send le cr (Some s) (coap_frame payload) w = Some (sr, w') \<and>
     w_trace w' = w_trace w @ [NetSend wire sr] \<and>
     (\<forall>v. f_recv (w_soc v) \<and> w_recv v = [RecvData wire] \<longrightarrow>
       (\<exists>n r1 v1 r2 v2.
          duer_trans_recv le' cr (Some r) (replicate 8 0) v =
            Some (8, be32 COAP_TCP_HDR @ be32 (of_nat n), Some r1, v1) \<and>
          duer_trans_recv le' cr (Some r1) (replicate n 0) v1 =
            Some (int (length payload), payload @ replicate (n - length payload) 0, Some r2, v2) \<and>
          n \<le> MAX_BODY_SIZE \<and> tr_hdr_n r2 = 0 \<and> tr_body_n r2 = 0 \<and> w_recv v2 = []))"
proof -
  let ?x = "aes_pad (coap_frame payload)"
  from cipher_okD [OF assms(1,2) aes_pad_length(1) [of "coap_frame payload"]] obtain c
    where c: "cr_enc cr (take (ax_keybits ctx div 8) (ax_key ctx)) (ax_iv ctx) ?x = Some c"
      "length c = length ?x" by meson
  let ?n = "1 + length k + length ?x"
  let ?rest = "[of_nat (length k)] @ k @ c"
  let ?wire = "be32 BDCAEC_MN @ be32 (of_nat ?n) @ ?rest"
  from aes_send_frame [OF c(1) assms(6-10), of le] obtain w'
    where snd: "duer_trans_send le cr (Some s) (coap_frame payload) w = Some (sr, w')"
      "w_trace w' = w_trace w @ [NetSend ?wire sr]"
    using assms(5) by (auto simp: duer_trans_send_def duer_trans_get_callbacks_def)
  moreover have "\<forall>v. f_recv (w_soc v) \<and> w_recv v = [RecvData ?wire] \<longrightarrow>
       (\<exists>n r1 v1 r2 v2.
          duer_trans_recv le' cr (Some r) (replicate 8 0) v =
            Some (8, be32 COAP_TCP_HDR @ be32 (of_nat n), Some r1, v1) \<and>
          duer_trans_recv le' cr (Some r1) (replicate n 0) v1 =
            Some (int (length payload), payload @ replicate (n - length payload) 0, Some r2, v2) \<and>
          n \<le> MAX_BODY_SIZE \<and> tr_hdr_n r2 = 0 \<and> tr_body_n r2 = 0 \<and> w_recv v2 = [])"
  proof (intro allI impI, elim conjE)
    fix v :: world assume fr: "f_recv (w_soc v)" and wr: "w_recv v = [RecvData ?wire]"
    from aes_recv_header_whole [OF fr wr _ assms(13,15), of "replicate 8 0" le'] obtain v1
      where h: "aes_recv_header le' r (replicate 8 0) v = Some (8, be32 COAP_TCP_HDR @ be32 (of_nat ?n),
          r\<lparr>tr_hdr := be32 COAP_TCP_HDR @ be32 (of_nat ?n), tr_hdr_n := 8\<rparr>, v1)"
        "w_recv v1 = [RecvData ?rest]" "w_soc v1 = w_soc v" by auto
    let ?r1 = "r\<lparr>tr_hdr := be32 COAP_TCP_HDR @ be32 (of_nat ?n), tr_hdr_n := 8\<rparr>"
    have r1: "f_recv (w_soc v1)" "tr_body_n ?r1 = 0" "tr_secure ?r1 = Some ctx"
      "duer_trans_is_encrypted (Some ?r1)" "length (replicate ?n (0::byte)) = length ?rest"
      using assms(11,12,14) fr h(3) c(2) by (simp_all add: duer_trans_is_encrypted_def)
    from aes_open_sealed [OF assms(1-4) c(1), of "?r1\<lparr>tr_hdr_n := 0, tr_body_n := 0\<rparr>" le'] assms(16)
    obtain r2 where o: "aes_open_body le' cr ctx (?r1\<lparr>tr_hdr_n := 0, tr_body_n := 0\<rparr>) ?rest =
        Some (int (length payload), payload @ replicate (1 + length k + length c - length payload) 0, r2)"
      by auto
    have z: "tr_hdr_n r2 = 0" "tr_body_n r2 = 0" using aes_open_body_counts [OF o] by simp_all
    from aes_recv_body_whole [OF r1(1) h(2) r1(2,3,5) _ o] obtain v2
      where b: "aes_recv_body le' cr ?r1 (replicate ?n 0) v1 = Some (int (length payload),
          payload @ replicate (1 + length k + length c - length payload) 0, r2, v2)" "w_recv v2 = []"
      by auto
    from aes_pad_length(1) [of "coap_frame payload"] obtain j where "length ?x = 16 * j"
      by (metis mod_0_imp_dvd dvdE)
    with aes_pad_length(2) [of "coap_frame payload"] have "17 \<le> ?n" by (cases j) simp_all
    moreover have "?n \<le> 2048" using assms(4) by simp
    ultimately have n: "?n \<noteq> SIZEOF_TCPHEADER" "MIN_BODY_SIZE \<le> ?n" "?n \<le> MAX_BODY_SIZE"
      by (simp_all add: body_sizes)
    have "duer_trans_recv le' cr (Some r) (replicate 8 0) v =
        Some (8, be32 COAP_TCP_HDR @ be32 (of_nat ?n), Some ?r1, v1)"
      using h(1) assms(11)
      by (simp add: duer_trans_recv_def duer_trans_get_callbacks_def
            duer_trans_aes_cbc_encrypted_recv_def SIZEOF_TCPHEADER_def)
    moreover have "duer_trans_recv le' cr (Some ?r1) (replicate ?n 0) v1 =
        Some (int (length payload), payload @ replicate (?n - length payload) 0, Some r2, v2)"
      using b(1) r1(4) n c(2)
      by (simp add: duer_trans_recv_def duer_trans_get_callbacks_def
            duer_trans_aes_cbc_encrypted_recv_def del: replicate.simps replicate_Suc)
    ultimately show "\<exists>n r1 v1 r2 v2.
          duer_trans_recv le' cr (Some r) (replicate 8 0) v =
            Some (8, be32 COAP_TCP_HDR @ be32 (of_nat n), Some r1, v1) \<and>
          duer_trans_recv le' cr (Some r1) (replicate n 0) v1 =
            Some (int (length payload), payload @ replicate (n - length payload) 0, Some r2, v2) \<and>
          n \<le> MAX_BODY_SIZE \<and> tr_hdr_n r2 = 0 \<and> tr_body_n r2 = 0 \<and> w_recv v2 = []"
      using n(3) z b(2) by blast
  qed
  ultimately show ?thesis by blast
qed


section \<open>Properties\<close>

text \<open>C6: What one device sends over an established AES-CBC transport, another with the same key
  receives, whatever the byte orders of the two hosts, when the sealed frame has at most 2056 bytes,
  the key id fewer than 256, no allocation of the sender fails and the frame arrives as one piece: the
  first receive of the header gives the plain CoAP magic number and the length of the body, and the
  receive of the body gives the CoAP payload of the inner frame. The cipher need only decrypt what it
  encrypted, for keys and vectors of the documented lengths.\<close>

theorem aes_send_recv_roundtrip:
  assumes "cipher_ok cr" "ctx_ok ctx" "length k < 256"
    and "9 + length k + length (aes_pad (coap_frame payload)) \<le> 2056"
    and "duer_trans_is_encrypted (Some s)" "tr_secure s = Some ctx" "tr_key_info s = Some k"
    and "f_send (w_soc w)" "w_mem w = []" "w_send w = [sr]"
    and "duer_trans_is_encrypted (Some r)" "tr_secure r = Some ctx" "tr_hdr_n r = 0" "tr_body_n r = 0"
    and "length (tr_hdr r) = 8" "length (tr_body r) = MAX_BODY_SIZE"
  shows "\<exists>wire w'. duer_trans_send le cr (Some s) (coap_frame payload) w = Some (sr, w') \<and>
     w_trace w' = w_trace w @ [NetSend wire sr] \<and>
     (\<forall>v. f_recv (w_soc v) \<and> w_recv v = [RecvData wire] \<longrightarrow>
       (\<exists>n r1 v1 r2 v2.
          duer_trans_recv le' cr (Some r) (replicate 8 0) v =
            Some (8, be32 COAP_TCP_HDR @ be32 (of_nat n), Some r1, v1) \<and>
          duer_trans_recv le' cr (Some r1) (replicate n 0) v1 =
            Some (int (length payload), payload @ replicate (n - length payload) 0, Some r2, v2) \<and>
          n \<le> MAX_BODY_SIZE \<and> tr_hdr_n r2 = 0 \<and> tr_body_n r2 = 0 \<and> w_recv v2 = []))"
  by (rule aes_send_recv [OF assms])

text \<open>Concrete values: a cipher that masks every byte, an established handle and a host's sockets.\<close>

definition mask_cipher :: crypt where
  "mask_cipher = \<lparr>cr_enc = \<lambda>k iv x. Some (map (\<lambda>b. b XOR 0x5a) x),
                  cr_dec = \<lambda>k iv x. Some (map (\<lambda>b. b XOR 0x5a) x)\<rparr>"

lemma mask_cipher_ok: "cipher_ok mask_cipher"
  by (simp add: cipher_ok_def mask_cipher_def comp_def xor.assoc)

definition all_soc_ops :: soc_ops where
  "all_soc_ops = \<lparr>f_create = True, f_connect = True, f_send = True, f_recv = True,
     f_recv_timeout = False, f_close = True, f_destroy = True\<rparr>"

definition quiet_world :: world where
  "quiet_world = \<lparr>w_mem = [], w_soc = all_soc_ops, w_create = [], w_connect = [], w_send = [],
     w_recv = [], w_close = [], w_clock = [], w_nsdl_map = [],
     w_stat = (0, 0, 0), w_trace = []\<rparr>"

definition sample_ctx :: aes_context where
  "sample_ctx = \<lparr>ax_key = replicate 32 7, ax_keybits = 128, ax_iv = replicate 16 0\<rparr>"

definition sample_trans :: trans where
  "sample_trans = trans_zero\<lparr>tr_ctx := True, tr_secure := Some sample_ctx,
     tr_cert := Some (replicate 32 48), tr_cert_len := 32, tr_key_info := Some [1, 2]\<rparr>"

lemma sample_trans_facts [simp]:
  "duer_trans_is_encrypted (Some sample_trans)" "tr_secure sample_trans = Some sample_ctx"
  "tr_key_info sample_trans = Some [1, 2]" "tr_hdr_n sample_trans = 0" "tr_body_n sample_trans = 0"
  "length (tr_hdr sample_trans) = 8" "length (tr_body sample_trans) = MAX_BODY_SIZE"
  by (simp_all add: sample_trans_def trans_zero_def duer_trans_is_encrypted_def SIZEOF_TCPHEADER_def)

lemma quiet_world_facts [simp]:
  "w_mem quiet_world = []" "w_soc quiet_world = all_soc_ops"
  "f_send all_soc_ops" "f_recv all_soc_ops" "\<not> f_recv_timeout all_soc_ops" "f_connect all_soc_ops"
  "w_trace quiet_world = []" "w_recv quiet_world = []" "w_send quiet_world = []"
  by (simp_all add: quiet_world_def all_soc_ops_def)

lemma sample_ctx_ok: "ctx_ok sample_ctx"
  by (simp add: ctx_ok_def sample_ctx_def)

theorem aes_send_recv_roundtrip_witness:
  "\<exists>wire w' n r1 v1 r2 v2. duer_trans_send True mask_cipher (Some sample_trans) (coap_frame [1, 2, 3])
       (quiet_world\<lparr>w_send := [43]\<rparr>) = Some (43, w') \<and> w_trace w' = [NetSend wire 43] \<and>
     duer_trans_recv False mask_cipher (Some sample_trans) (replicate 8 0)
       (quiet_world\<lparr>w_recv := [RecvData wire]\<rparr>) =
         Some (8, be32 COAP_TCP_HDR @ be32 (of_nat n), Some r1, v1) \<and>
     duer_trans_recv False mask_cipher (Some r1) (replicate n 0) v1 =
       Some (3, [1, 2, 3] @ replicate (n - 3) 0, Some r2, v2)"
proof -
  let ?w = "quiet_world\<lparr>w_send := [43]\<rparr>"
  have "9 + length [1, 2 :: byte] + length (aes_pad (coap_frame [1, 2, 3])) \<le> 2056"
    by (simp add: aes_pad_def)
  from aes_send_recv_roundtrip [OF mask_cipher_ok sample_ctx_ok _ this, of sample_trans ?w 43
      sample_trans True False]
  obtain wire w' where 1: "duer_trans_send True mask_cipher (Some sample_trans) (coap_frame [1, 2, 3]) ?w =
        Some (43, w')" "w_trace w' = [NetSend wire 43]"
      and 2: "\<And>v. f_recv (w_soc v) \<Longrightarrow> w_recv v = [RecvData wire] \<Longrightarrow> \<exists>n r1 v1 r2 v2.
        duer_trans_recv False mask_cipher (Some sample_trans) (replicate 8 0) v =
          Some (8, be32 COAP_TCP_HDR @ be32 (of_nat n), Some r1, v1) \<and>
        duer_trans_recv False mask_cipher (Some r1) (replicate n 0) v1 =
          Some (3, [1, 2, 3] @ replicate (n - 3) 0, Some r2, v2)"
    by fastforce
  have "f_recv (w_soc (quiet_world\<lparr>w_recv := [RecvData wire]\<rparr>))" by simp
  from 2 [OF this] 1 show ?thesis by (simp del: replicate.simps)
qed

text \<open>C22: A transport that holds a certificate never puts data on the wire in the clear: a send
  either reaches the socket with nothing at all, or with one frame whose payload is what the cipher
  made of the padded data.\<close>

theorem secure_send_never_plain:
  assumes "duer_trans_is_encrypted tr" "duer_trans_send le cr tr bs w = Some (rs, w')"
  shows "w_trace w' = w_trace w \<or>
     (\<exists>t ctx k c s. tr = Some t \<and> tr_secure t = Some ctx \<and> tr_key_info t = Some k \<and>
        cr_enc cr (take (ax_keybits ctx div 8) (ax_key ctx)) (ax_iv ctx) (aes_pad bs) = Some c \<and>
        w_trace w' = w_trace w
          @ [NetSend (aes_header le k (9 + length k + length (aes_pad bs)) @ c) s])"
proof -
  from assms(1) obtain t where t: "tr = Some t"
    by (auto simp: duer_trans_is_encrypted_def split: option.splits)
  with assms have "duer_trans_aes_cbc_encrypted_send le cr (Some t) bs w = Some (rs, w')"
    by (simp add: duer_trans_send_def duer_trans_get_callbacks_def)
  then show ?thesis
    unfolding t duer_trans_aes_cbc_encrypted_send_def
    by (auto simp: Let_def duer_aes_cbc_encrypt_def aes_cbc_def duer_trans_wrapper_send_def
          soc_send_def split: option.splits if_splits list.splits)
qed

theorem secure_send_never_plain_witness:
  "w_trace (snd (the (duer_trans_send True mask_cipher (Some (sample_trans\<lparr>tr_secure := None\<rparr>)) [1]
      quiet_world))) = []"
proof -
  let ?t = "Some (sample_trans\<lparr>tr_secure := None\<rparr>)"
  have enc: "duer_trans_is_encrypted ?t"
    by (simp add: sample_trans_def duer_trans_is_encrypted_def)
  then have "duer_trans_send True mask_cipher ?t [1] quiet_world =
      Some (DUER_ERR_TRANS_INTERNAL_ERROR, quiet_world)"
    by (simp add: duer_trans_send_def duer_trans_get_callbacks_def
          duer_trans_aes_cbc_encrypted_send_def)
  with secure_send_never_plain [OF enc this] show ?thesis by simp
qed

text \<open>A frame header that arrives in two pieces is put together: the first receive says that it
  would block and asks for the rest, and the second returns the header that one receive of the whole
  would have returned.\<close>

theorem aes_header_resumed:
  assumes "f_recv (w_soc v)" "tr_hdr_n r = 0" "length (tr_hdr r) = 8" "length buf = 8"
    and "w_recv v = [RecvData xs, RecvData ys]" "length xs + length ys = 8" "xs \<noteq> []" "ys \<noteq> []"
    and "w_recv u = [RecvData (xs @ ys)]" "f_recv (w_soc u)"
  shows "\<exists>buf1 r1 v1 out r2 r3 v2 u1.
     duer_trans_aes_cbc_encrypted_recv le cr r buf v =
       Some (DUER_ERR_TRANS_WOULD_BLOCK, buf1, r1, v1) \<and>
     duer_trans_aes_cbc_encrypted_recv le cr r1 buf v1 = Some (8, out, r2, v2) \<and>
     duer_trans_aes_cbc_encrypted_recv le cr r buf u = Some (8, out, r3, u1) \<and>
     tr_hdr r2 = tr_hdr r3 \<and> tr_hdr_n r2 = 8 \<and> tr_hdr_n r3 = 8 \<and> w_recv v2 = [] \<and> w_recv u1 = []"
proof -
  have len: "length xs < 8" "length ys = 8 - length xs" using assms(6,8) by (auto simp: neq_Nil_conv)
  have r1: "\<exists>v1. duer_trans_wrapper_recv (Some r) 8 v = (int (length xs), xs, v1) \<and>
      w_recv v1 = [RecvData ys] \<and> w_soc v1 = w_soc v"
    using assms(1,5) len by (simp add: duer_trans_wrapper_recv_def soc_recv_def min_def)
  then obtain v1 where v1: "duer_trans_wrapper_recv (Some r) 8 v = (int (length xs), xs, v1)"
    "w_recv v1 = [RecvData ys]" "w_soc v1 = w_soc v" by blast
  let ?hdr1 = "xs @ drop (length xs) (tr_hdr r)"
  let ?r1 = "r\<lparr>tr_hdr := ?hdr1, tr_hdr_n := length xs\<rparr>"
  have s1: "duer_trans_aes_cbc_encrypted_recv le cr r buf v =
      Some (DUER_ERR_TRANS_WOULD_BLOCK, xs @ drop (length xs) buf, ?r1, v1)"
    using assms(2-4,7) len v1(1)
    by (simp add: duer_trans_aes_cbc_encrypted_recv_def aes_recv_header_def SIZEOF_TCPHEADER_def Let_def)
  from wrapper_recv_data [of v1 ys "8 - length xs" ?r1] assms(1) v1 len obtain v2
    where v2: "duer_trans_wrapper_recv (Some ?r1) (8 - length xs) v1 = (int (8 - length xs), ys, v2)"
      "w_recv v2 = []" by auto
  let ?fix = "\<lambda>h. if duer_htonl le (load32 le h) = BDCAEC_MN
       then store32 le (duer_htonl le COAP_TCP_HDR) @ drop 4 h else h"
  have p: "memput (length xs) ys ?hdr1 = Some (xs @ ys)" "take (length ys) (ys @ drop (length ys) buf) = ys"
    using len assms(3) by (simp_all add: memput_def)
  have s2: "duer_trans_aes_cbc_encrypted_recv le cr ?r1 buf v1 =
      Some (8, ?fix (xs @ ys), ?r1\<lparr>tr_hdr := ?fix (xs @ ys), tr_hdr_n := 8\<rparr>, v2)"
    using assms(4,7) len v2(1) p
    by (simp add: duer_trans_aes_cbc_encrypted_recv_def aes_recv_header_def SIZEOF_TCPHEADER_def Let_def
          del: of_nat_diff)
  from wrapper_recv_data [OF assms(10,9), of 8 r] assms(6) obtain u1
    where u1: "duer_trans_wrapper_recv (Some r) 8 u = (8, xs @ ys, u1)" "w_recv u1 = []" by auto
  have s3: "duer_trans_aes_cbc_encrypted_recv le cr r buf u =
      Some (8, ?fix (xs @ ys), r\<lparr>tr_hdr := ?fix (xs @ ys), tr_hdr_n := 8\<rparr>, u1)"
    using assms(2-4,6) u1(1)
    by (simp add: duer_trans_aes_cbc_encrypted_recv_def aes_recv_header_def SIZEOF_TCPHEADER_def Let_def
          del: memput_0)
  show ?thesis using s1 s2 s3 v2(2) u1(2) by simp
qed

theorem aes_header_resumed_witness:
  "\<exists>r2 v2. duer_trans_aes_cbc_encrypted_recv True mask_cipher sample_trans (replicate 8 0)
      (quiet_world\<lparr>w_recv := [RecvData (be32 BDCAEC_MN @ be32 20)]\<rparr>) = Some (8, r2, v2)"
  using aes_header_resumed [of "quiet_world\<lparr>w_recv := [RecvData (be32 BDCAEC_MN), RecvData (be32 20)]\<rparr>"
      sample_trans "replicate 8 0" "be32 BDCAEC_MN" "be32 20"
      "quiet_world\<lparr>w_recv := [RecvData (be32 BDCAEC_MN @ be32 20)]\<rparr>" True mask_cipher]
  by (fastforce simp: be32_def)

text \<open>C37: The inner length field of a decrypted body is trusted. One of more than 2040 makes the code
  read past the end of its own buffer; a smaller one that exceeds the decrypted data hands the caller
  bytes that were never part of the frame, namely what the receive buffer held before, even beyond
  the size that was asked for.\<close>

theorem aes_recv_trusts_inner_length:
  assumes "duer_aes_cbc_decrypt cr (Some ctx)
      (unat (of_nat (length buf) - 1 - of_nat (unat (buf ! 0)) :: u32))
      (drop (1 + unat (buf ! 0)) buf) = Some (DUER_OK, out)"
    and "8 \<le> length out" "length out \<le> MAX_BODY_SIZE" "length (tr_body tr) = MAX_BODY_SIZE"
    and "unat (duer_htonl le (load32 le (drop 4 out))) = n"
  shows "(2040 < n \<longrightarrow> aes_open_body le cr ctx tr buf = None) \<and>
     (n \<le> 2040 \<longrightarrow> (\<exists>msg tr'. aes_open_body le cr ctx tr buf = Some (int n, msg, tr') \<and>
        take n msg = take n (drop 8 out @ drop (length out) (tr_body tr))))"
proof -
  let ?body = "out @ drop (length out) (tr_body tr)"
  have m: "memput 0 out (tr_body tr) = Some ?body" using assms(3,4) by simp
  have "load32 le (drop 4 ?body) = load32 le (drop 4 out)"
    using assms(2) by (simp add: load32_def)
  with assms(5) have l: "unat (duer_htonl le (load32 le (drop 4 ?body))) = n" by simp
  have len: "length ?body = 2048" using assms(3,4) by (simp add: MAX_BODY_SIZE_def)
  have b: "drop 8 out @ drop (length out) (tr_body tr) = drop 8 ?body" using assms(2) by simp
  show ?thesis
    unfolding aes_open_body_eq [OF assms(1) m l] b using len
    by (auto simp: memget_def DUER_BUFFER_SIZE_def min_def simp del: length_append drop_append)
qed

text \<open>A length field of 3000 in a body of 17 bytes, and one of 20 over a buffer that held sevens.\<close>

theorem aes_recv_trusts_inner_length_witness:
  "aes_open_body True mask_cipher sample_ctx sample_trans
     (0 # map (\<lambda>b. b XOR 0x5a) (be32 COAP_TCP_HDR @ be32 3000 @ replicate 8 0)) = None \<and>
   (\<exists>msg tr'. aes_open_body True mask_cipher sample_ctx
       (sample_trans\<lparr>tr_body := replicate MAX_BODY_SIZE 7\<rparr>)
       (0 # map (\<lambda>b. b XOR 0x5a) (be32 COAP_TCP_HDR @ be32 20 @ replicate 8 0)) = Some (20, msg, tr') \<and>
     take 20 msg = replicate 8 0 @ replicate 12 7)"
proof -
  have d: "duer_aes_cbc_decrypt mask_cipher (Some sample_ctx)
      (unat (of_nat (length (0 # map (\<lambda>b. b XOR 0x5a) out)) - 1
        - of_nat (unat ((0 # map (\<lambda>b. b XOR 0x5a) out) ! 0)) :: u32))
      (drop (1 + unat ((0 # map (\<lambda>b. b XOR 0x5a) out) ! 0)) (0 # map (\<lambda>b. b XOR 0x5a) out)) =
      Some (DUER_OK, out)" if "length out = 16" for out
    using that by (simp add: duer_aes_cbc_decrypt_def aes_cbc_def mask_cipher_def memget_def comp_def xor.assoc)
  let ?out = "\<lambda>n. be32 COAP_TCP_HDR @ be32 n @ replicate 8 0"
  have l: "unat (duer_htonl True (load32 True (drop 4 (?out (of_nat n))))) = n" if "n < 4294967296" for n
    using that by (simp add: unat_of_nat_u32)
  have o: "length (?out n) = 16" for n by simp
  have 1: "8 \<le> length (?out n)" "length (?out n) \<le> MAX_BODY_SIZE" for n by (simp_all add: MAX_BODY_SIZE_def)
  note t = aes_recv_trusts_inner_length [OF d [OF o] 1]
  have t1: "aes_open_body True mask_cipher sample_ctx sample_trans
      (0 # map (\<lambda>b. b XOR 0x5a) (?out 3000)) = None"
    using t [of sample_trans True "of_nat 3000" 3000] l [of 3000] by simp
  have t2: "\<exists>msg tr'. aes_open_body True mask_cipher sample_ctx (sample_trans\<lparr>tr_body := replicate MAX_BODY_SIZE 7\<rparr>)
       (0 # map (\<lambda>b. b XOR 0x5a) (?out 20)) = Some (20, msg, tr') \<and>
     take 20 msg = replicate 8 0 @ replicate 12 7"
    using t [of "sample_trans\<lparr>tr_body := replicate MAX_BODY_SIZE 7\<rparr>" True "of_nat 20" 20] l [of 20]
    by (simp add: MAX_BODY_SIZE_def del: replicate.simps)
  show ?thesis using t1 t2 by blast
qed

end
