(* ===== verification/HashCode.thy ===== *)
theory HashCode
  imports DuerPrelude
begin

text \<open>
  \<^verbatim>\<open>framework/utils/lightduer_hashcode.c\<close>: the string hash the CoAP layer keys its dynamic
  resources with. It is Murmurhash2 on short strings; of a long string it hashes the first 4096
  bytes and then samples blocks of 256 bytes.

  The data is the list of bytes that may be read; a read beyond it is the fault \<open>None\<close>. Whether
  plain \<^verbatim>\<open>char\<close> is signed is the argument \<open>sg\<close>: the conversion to \<^verbatim>\<open>duer_u32_t\<close> then extends the
  sign. Sizes are \<open>nat\<close>; the string's end is an address, so \<^verbatim>\<open>off += skip\<close> is taken not to pass
  \<^verbatim>\<open>SIZE_MAX\<close>.
\<close>

section \<open>The code\<close>

definition STRHASH_SHORTSTRING :: nat where "STRHASH_SHORTSTRING = 4096"
definition STRHASH_MEDIUMSTRING :: nat where "STRHASH_MEDIUMSTRING = 256 * 1024"
definition STRHASH_BLOCKSIZE :: nat where "STRHASH_BLOCKSIZE = 256"
definition HASH_SEED :: u32 where "HASH_SEED = 0x738b3f34"
definition MAGIC_M :: u32 where "MAGIC_M = 0x5bd1e995"
definition MAGIC_R :: nat where "MAGIC_R = 24"

lemmas strhash_consts = STRHASH_SHORTSTRING_def STRHASH_MEDIUMSTRING_def STRHASH_BLOCKSIZE_def

definition char_u32 :: "bool \<Rightarrow> byte \<Rightarrow> u32" where
  "char_u32 sg b = (if sg then scast b else ucast b)"

text \<open>The loop over whole words of four bytes, and the one to three bytes that remain.\<close>

fun murmur_words :: "bool \<Rightarrow> u32 \<Rightarrow> byte list \<Rightarrow> nat \<Rightarrow> (u32 \<times> byte list \<times> nat) option" where
  "murmur_words sg hash data len =
     (if 4 \<le> len then
        (case data of
           a # b # c # d # rest \<Rightarrow>
             (let k = char_u32 sg a OR push_bit 8 (char_u32 sg b)
                        OR push_bit 16 (char_u32 sg c) OR push_bit 24 (char_u32 sg d);
                  k1 = k * MAGIC_M;
                  k2 = k1 XOR drop_bit MAGIC_R k1;
                  k3 = k2 * MAGIC_M
              in murmur_words sg ((hash * MAGIC_M) XOR k3) rest (len - 4))
         | _ \<Rightarrow> None)
      else Some (hash, data, len))"

declare murmur_words.simps [simp del]

definition murmur_tail :: "bool \<Rightarrow> u32 \<Rightarrow> byte list \<Rightarrow> nat \<Rightarrow> u32 option" where
  "murmur_tail sg hash data len =
     (if length data < len then None
      else
        (let (hash1, len1) =
               (if len = 3 then (hash XOR push_bit 16 (char_u32 sg (data ! 2)), len - 1)
                else (hash, len));
             (hash2, len2) =
               (if len1 = 2 then (hash1 XOR push_bit 8 (char_u32 sg (data ! 1)), len1 - 1)
                else (hash1, len1))
         in Some (if len2 = 1 then (hash2 XOR char_u32 sg (data ! 0)) * MAGIC_M else hash2)))"

definition duer_hashcode_compute :: "bool \<Rightarrow> byte list \<Rightarrow> nat \<Rightarrow> u32 \<Rightarrow> u32 option" where
  "duer_hashcode_compute sg data len seed =
     (case murmur_words sg (seed XOR of_nat len) data len of
        None \<Rightarrow> None
      | Some (hash, rest, left) \<Rightarrow>
          (case murmur_tail sg hash rest left of
             None \<Rightarrow> None
           | Some h \<Rightarrow>
               (let h1 = (h XOR drop_bit 13 h) * MAGIC_M in Some (h1 XOR drop_bit 15 h1))))"

definition hash_skip :: "nat \<Rightarrow> nat" where
  "hash_skip sz =
     (if sz \<le> STRHASH_MEDIUMSTRING then 16 * STRHASH_BLOCKSIZE + STRHASH_BLOCKSIZE
      else 256 * STRHASH_BLOCKSIZE + STRHASH_BLOCKSIZE)"

lemma hash_skip_pos [simp]: "0 < hash_skip sz"
  by (simp add: hash_skip_def strhash_consts)

text \<open>The sampling loop from offset \<open>off\<close> on.\<close>

function hash_sample :: "bool \<Rightarrow> byte list \<Rightarrow> nat \<Rightarrow> u32 \<Rightarrow> u32 \<Rightarrow> nat \<Rightarrow> u32 option" where
  "hash_sample sg data sz seed hash off =
     (if off < sz then
        (let left = sz - off;
             now = (if left > STRHASH_BLOCKSIZE then STRHASH_BLOCKSIZE else left)
         in (case duer_hashcode_compute sg (drop off data) now seed of
               None \<Rightarrow> None
             | Some h \<Rightarrow> hash_sample sg data sz seed (hash XOR h) (off + hash_skip sz)))
      else Some hash)"
  by auto
termination
  by (relation "measure (\<lambda>(sg, data, sz, seed, hash, off). sz - off)")
     (auto intro: diff_less_mono2)

declare hash_sample.simps [simp del]

definition hash_offset :: "nat \<Rightarrow> u32 \<Rightarrow> nat" where
  "hash_offset sz hash =
     STRHASH_SHORTSTRING + (hash_skip sz * (unat hash mod 256)) div 256"

definition hash_str_seed :: "nat \<Rightarrow> u32 \<Rightarrow> u32" where
  "hash_str_seed sz seed = (if seed \<noteq> 0 then seed else HASH_SEED) XOR of_nat sz"

definition duer_hashcode :: "bool \<Rightarrow> byte list \<Rightarrow> nat \<Rightarrow> u32 \<Rightarrow> u32 option" where
  "duer_hashcode sg data sz seed =
     (let str_seed = hash_str_seed sz seed
      in if sz \<le> STRHASH_SHORTSTRING then duer_hashcode_compute sg data sz str_seed
         else
           (case duer_hashcode_compute sg data STRHASH_SHORTSTRING str_seed of
              None \<Rightarrow> None
            | Some hash \<Rightarrow> hash_sample sg data sz str_seed hash (hash_offset sz hash)))"

section \<open>One block\<close>

lemma length_ge_4D: "4 \<le> length xs \<Longrightarrow> \<exists>a b c d ys. xs = a # b # c # d # ys"
  by (auto simp: Suc_le_length_iff numeral_eq_Suc)

lemma murmur_words_stop [simp]: "len < 4 \<Longrightarrow> murmur_words sg h data len = Some (h, data, len)"
  by (simp add: murmur_words.simps)

text \<open>A block is read within its length, and all of it counts.\<close>

lemma murmur_words_take:
  "len \<le> length data \<Longrightarrow>
   \<exists>h' rest left. murmur_words sg h data len = Some (h', rest, left) \<and> left < 4 \<and>
     left \<le> length rest \<and> murmur_words sg h (take len data) len = Some (h', take left rest, left)"
proof (induction len arbitrary: data h rule: less_induct)
  case (less len)
  show ?case
  proof (cases "4 \<le> len")
    case True
    with less.prems length_ge_4D [of data] obtain a b c d ys
      where data: "data = a # b # c # d # ys" by auto
    define k where "k = len - 4"
    have len: "len = Suc (Suc (Suc (Suc k)))" using True by (simp add: k_def)
    let ?w = "char_u32 sg a OR push_bit 8 (char_u32 sg b)
                OR push_bit 16 (char_u32 sg c) OR push_bit 24 (char_u32 sg d)"
    let ?w1 = "?w * MAGIC_M"
    let ?h = "(h * MAGIC_M) XOR ((?w1 XOR drop_bit MAGIC_R ?w1) * MAGIC_M)"
    have st: "murmur_words sg h (a # b # c # d # zs) len = murmur_words sg ?h zs k" for zs
      using True by (subst murmur_words.simps) (simp add: Let_def k_def)
    have "take len data = a # b # c # d # take k ys" by (simp add: data len)
    moreover have "k < len" "k \<le> length ys" using less.prems by (simp_all add: len data)
    ultimately show ?thesis using less.IH [of k ys ?h] st by (simp only: data)
  next
    case False
    then show ?thesis using less.prems by simp
  qed
qed

lemma hashcode_compute_take:
  assumes "len \<le> length data"
  shows "duer_hashcode_compute sg data len seed = duer_hashcode_compute sg (take len data) len seed"
    and "\<exists>h. duer_hashcode_compute sg data len seed = Some h"
proof -
  from murmur_words_take [OF assms, of sg "seed XOR of_nat len"] obtain h rest left
    where r: "murmur_words sg (seed XOR of_nat len) data len = Some (h, rest, left)"
      and l: "left < 4" "left \<le> length rest"
      and t: "murmur_words sg (seed XOR of_nat len) (take len data) len = Some (h, take left rest, left)"
    by auto
  have "murmur_tail sg h (take left rest) left = murmur_tail sg h rest left"
    using l by (auto simp: murmur_tail_def Let_def)
  moreover have "\<exists>v. murmur_tail sg h rest left = Some v"
    using l by (simp add: murmur_tail_def Let_def split: prod.split)
  ultimately show "duer_hashcode_compute sg data len seed =
      duer_hashcode_compute sg (take len data) len seed"
    and "\<exists>h. duer_hashcode_compute sg data len seed = Some h"
    by (auto simp: duer_hashcode_compute_def r t Let_def)
qed

section \<open>The samples\<close>

function hash_blocks :: "nat \<Rightarrow> nat \<Rightarrow> (nat \<times> nat) list" where
  "hash_blocks sz off =
     (if off < sz then (off, min STRHASH_BLOCKSIZE (sz - off)) # hash_blocks sz (off + hash_skip sz)
      else [])"
  by auto
termination
  by (relation "measure (\<lambda>(sz, off). sz - off)") (auto intro: diff_less_mono2)

declare hash_blocks.simps [simp del]

definition block_hash :: "bool \<Rightarrow> byte list \<Rightarrow> u32 \<Rightarrow> nat \<times> nat \<Rightarrow> u32" where
  "block_hash sg data seed blk =
     the (duer_hashcode_compute sg (take (snd blk) (drop (fst blk) data)) (snd blk) seed)"

lemma hash_sample_blocks:
  "sz \<le> length data \<Longrightarrow>
   hash_sample sg data sz seed hash off =
     Some (foldl (XOR) hash (map (block_hash sg data seed) (hash_blocks sz off)))"
proof (induction sz off arbitrary: hash rule: hash_blocks.induct)
  case (1 sz off)
  show ?case
  proof (cases "off < sz")
    case True
    define now where "now = min STRHASH_BLOCKSIZE (sz - off)"
    have n: "(if sz - off > STRHASH_BLOCKSIZE then STRHASH_BLOCKSIZE else sz - off) = now"
      by (simp add: now_def min_def)
    have "now \<le> length (drop off data)" using "1.prems" by (simp add: now_def)
    from hashcode_compute_take [OF this, of sg seed] obtain h
      where h: "duer_hashcode_compute sg (drop off data) now seed = Some h"
        "duer_hashcode_compute sg (take now (drop off data)) now seed = Some h" by auto
    have "hash_sample sg data sz seed hash off =
        hash_sample sg data sz seed (hash XOR h) (off + hash_skip sz)"
      using True by (subst hash_sample.simps) (simp add: Let_def n h)
    moreover have "hash_blocks sz off = (off, now) # hash_blocks sz (off + hash_skip sz)"
      using True by (subst hash_blocks.simps) (simp add: now_def)
    ultimately show ?thesis
      using "1.IH" [OF True "1.prems", of "hash XOR h"] by (simp add: block_hash_def h)
  next
    case False
    then show ?thesis by (simp add: hash_sample.simps hash_blocks.simps)
  qed
qed

lemma hash_blocks_inside: "(b, n) \<in> set (hash_blocks sz off) \<Longrightarrow> off \<le> b \<and> b + n \<le> sz"
proof (induction sz off rule: hash_blocks.induct)
  case (1 sz off)
  from "1.prems" have "off < sz" by (subst (asm) hash_blocks.simps) (auto split: if_splits)
  with "1.prems" consider "b = off" "n = min STRHASH_BLOCKSIZE (sz - off)"
    | "(b, n) \<in> set (hash_blocks sz (off + hash_skip sz))"
    by (subst (asm) (2) hash_blocks.simps) auto
  then show ?case using "1.IH" \<open>off < sz\<close> by cases auto
qed

lemma hash_blocks_work:
  "off \<le> sz \<Longrightarrow> sum_list (map snd (hash_blocks sz off))
     \<le> STRHASH_BLOCKSIZE * ((sz - off) div hash_skip sz + 1)"
proof (induction sz off rule: hash_blocks.induct)
  case (1 sz off)
  let ?k = "hash_skip sz"
  show ?case
  proof (cases "off < sz")
    case True
    then have u: "hash_blocks sz off =
        (off, min STRHASH_BLOCKSIZE (sz - off)) # hash_blocks sz (off + ?k)"
      by (subst hash_blocks.simps) simp
    show ?thesis
    proof (cases "off + ?k \<le> sz")
      case le: True
      then have "(sz - off) div ?k = (sz - (off + ?k)) div ?k + 1"
        using le_div_geq [of ?k "sz - off"] by simp
      with "1.IH" [OF True le] show ?thesis by (simp add: u)
    next
      case False
      then show ?thesis by (simp add: u hash_blocks.simps [of sz "off + ?k"])
    qed
  qed (simp add: hash_blocks.simps)
qed

lemma hash_offset_ge: "STRHASH_SHORTSTRING \<le> hash_offset sz h"
  by (simp add: hash_offset_def)

section \<open>Bytes below 128\<close>

lemma char_u32_ascii: "b < 128 \<Longrightarrow> char_u32 sg b = char_u32 sg' b"
proof -
  assume "b < 128"
  then have "unat b div 2 ^ 7 = 0" by (simp add: word_less_nat_alt)
  then have "\<not> bit (unat b) 7" by (simp add: bit_iff_odd)
  then have b: "\<not> bit b 7" by (simp add: bit_unsigned_iff)
  have n: "n < 7" if "bit b n" for n
    using bit_imp_le_length [OF that] that b by (cases "n = 7") simp_all
  have "(scast b :: u32) = ucast b"
    using b by (intro bit_word_eqI) (auto simp: bit_simps min_def dest: n)
  then show ?thesis by (simp add: char_u32_def)
qed

definition ascii_bytes :: "byte list \<Rightarrow> bool" where
  "ascii_bytes bs \<longleftrightarrow> list_all (\<lambda>b. b < 128) bs"

lemma murmur_words_ascii:
  "ascii_bytes data \<Longrightarrow> murmur_words sg h data len = murmur_words sg' h data len \<and>
   (\<forall>h' rest left. murmur_words sg h data len = Some (h', rest, left) \<longrightarrow> ascii_bytes rest)"
proof (induction len arbitrary: data h rule: less_induct)
  case (less len)
  show ?case
  proof (cases "4 \<le> len \<and> 4 \<le> length data")
    case True
    with length_ge_4D [of data] obtain a b c d ys where data: "data = a # b # c # d # ys" by auto
    have asc: "a < 128" "b < 128" "c < 128" "d < 128" "ascii_bytes ys"
      using less.prems by (simp_all add: data ascii_bytes_def)
    let ?w = "\<lambda>sg. char_u32 sg a OR push_bit 8 (char_u32 sg b)
                OR push_bit 16 (char_u32 sg c) OR push_bit 24 (char_u32 sg d)"
    let ?h = "\<lambda>sg. (h * MAGIC_M) XOR
                ((?w sg * MAGIC_M XOR drop_bit MAGIC_R (?w sg * MAGIC_M)) * MAGIC_M)"
    have st: "murmur_words s h data len = murmur_words s (?h s) ys (len - 4)" for s
      using True by (subst murmur_words.simps) (simp add: Let_def data)
    have "?w sg = ?w sg'"
      by (simp only: asc(1-4) [THEN char_u32_ascii [where sg' = sg' and sg = sg]])
    then have "?h sg = ?h sg'" by (simp only:)
    with less.IH [of "len - 4" ys "?h sg'"] asc(5) True show ?thesis
      by (simp only: st [of sg] st [of sg']) auto
  next
    case False
    then consider "len < 4" | "4 \<le> len" "length data < 4" by linarith
    then show ?thesis
    proof cases
      case 1 then show ?thesis using less.prems by simp
    next
      case 2
      then have "murmur_words s h data len = None" for s
        by (subst murmur_words.simps) (auto split: list.splits)
      then show ?thesis by simp
    qed
  qed
qed

lemma murmur_tail_ascii:
  "ascii_bytes data \<Longrightarrow> murmur_tail sg h data len = murmur_tail sg' h data len"
proof (cases "length data < len \<or> len = 0 \<or> 3 < len")
  case False
  assume "ascii_bytes data"
  with False have c: "i < len \<Longrightarrow> char_u32 sg (data ! i) = char_u32 sg' (data ! i)" for i
    by (intro char_u32_ascii) (simp add: ascii_bytes_def list_all_length)
  from False consider "len = 1" | "len = 2" | "len = 3" by linarith
  then show ?thesis
    using c [of 0] c [of 1] c [of 2] by cases (simp_all add: murmur_tail_def)
qed (auto simp: murmur_tail_def)

lemma hashcode_compute_ascii:
  assumes "ascii_bytes data"
  shows "duer_hashcode_compute sg data len seed = duer_hashcode_compute sg' data len seed"
  using murmur_words_ascii [OF assms, of sg "seed XOR of_nat len" len sg']
  by (auto simp: duer_hashcode_compute_def murmur_tail_ascii [of _ sg _ _ sg'] split: option.split)

lemma ascii_bytes_drop: "ascii_bytes bs \<Longrightarrow> ascii_bytes (drop n bs)"
  unfolding ascii_bytes_def list_all_iff by (blast dest: in_set_dropD)

lemma hash_sample_ascii:
  "ascii_bytes data \<Longrightarrow>
   hash_sample sg data sz seed hash off = hash_sample sg' data sz seed hash off"
proof (induction sz off arbitrary: hash rule: hash_blocks.induct)
  case (1 sz off)
  note c = hashcode_compute_ascii [OF ascii_bytes_drop [OF "1.prems"], of sg off _ seed sg']
  show ?case
    by (subst (1 2) hash_sample.simps) (auto simp: Let_def c "1.IH" [OF _ "1.prems"] split: option.split)
qed

section \<open>Properties\<close>

text \<open>C36: The hash of a string of more than 4096 bytes is the hash of its first 4096 bytes combined
  by exclusive or with the hashes of blocks that all lie inside the string, so nothing beyond the
  string is read; and the blocks hold at most 256 bytes per started skip (4352 or 65792 bytes) of
  the rest of the string.\<close>

theorem hashcode_sampled:
  assumes "STRHASH_SHORTSTRING < sz" "sz \<le> length data"
  shows "\<exists>h0. duer_hashcode_compute sg (take STRHASH_SHORTSTRING data) STRHASH_SHORTSTRING
            (hash_str_seed sz seed) = Some h0 \<and>
     duer_hashcode sg data sz seed =
       Some (foldl (XOR) h0 (map (block_hash sg data (hash_str_seed sz seed))
         (hash_blocks sz (hash_offset sz h0)))) \<and>
     list_all (\<lambda>(b, n). STRHASH_SHORTSTRING \<le> b \<and> b + n \<le> sz)
       (hash_blocks sz (hash_offset sz h0)) \<and>
     sum_list (map snd (hash_blocks sz (hash_offset sz h0)))
       \<le> STRHASH_BLOCKSIZE * ((sz - STRHASH_SHORTSTRING) div hash_skip sz + 1)"
proof -
  have "STRHASH_SHORTSTRING \<le> length data" using assms by simp
  from hashcode_compute_take [OF this, of sg "hash_str_seed sz seed"] obtain h0
    where h0: "duer_hashcode_compute sg data STRHASH_SHORTSTRING (hash_str_seed sz seed) = Some h0"
      "duer_hashcode_compute sg (take STRHASH_SHORTSTRING data) STRHASH_SHORTSTRING
         (hash_str_seed sz seed) = Some h0" by auto
  let ?off = "hash_offset sz h0"
  have inside: "list_all (\<lambda>(b, n). STRHASH_SHORTSTRING \<le> b \<and> b + n \<le> sz) (hash_blocks sz ?off)"
    by (auto simp: list_all_iff dest!: hash_blocks_inside intro: order_trans [OF hash_offset_ge])
  have "sum_list (map snd (hash_blocks sz ?off))
      \<le> STRHASH_BLOCKSIZE * ((sz - STRHASH_SHORTSTRING) div hash_skip sz + 1)"
  proof (cases "?off \<le> sz")
    case True
    have "(sz - ?off) div hash_skip sz \<le> (sz - STRHASH_SHORTSTRING) div hash_skip sz"
      using hash_offset_ge [of sz h0] by (intro div_le_mono) simp
    then show ?thesis using hash_blocks_work [OF True] by (meson add_le_mono1 mult_le_mono2 order_trans)
  next
    case False
    then show ?thesis by (simp add: hash_blocks.simps)
  qed
  with inside h0 assms show ?thesis
    by (simp add: duer_hashcode_def Let_def hash_sample_blocks)
qed

theorem hashcode_sampled_witness:
  "sum_list (map snd (hash_blocks 1048576 (hash_offset 1048576
     (the (duer_hashcode_compute True (take STRHASH_SHORTSTRING (replicate 1048576 97))
        STRHASH_SHORTSTRING (hash_str_seed 1048576 0)))))) \<le> 4096"
  using hashcode_sampled [of 1048576 "replicate 1048576 97" True 0]
  by (auto simp: strhash_consts hash_skip_def simp del: replicate.simps take_replicate)

text \<open>On a string of bytes below 128, as resource paths are, the hash is the same whether plain
  \<^verbatim>\<open>char\<close> is signed or unsigned on the target, although the code converts \<^verbatim>\<open>char\<close> values to
  32 bits without a mask.\<close>

theorem hashcode_ascii_portable:
  assumes "ascii_bytes data"
  shows "duer_hashcode True data sz seed = duer_hashcode False data sz seed"
  unfolding duer_hashcode_def Let_def
  by (simp add: hashcode_compute_ascii [OF assms, of True _ _ False]
        hash_sample_ascii [OF assms, of True _ _ _ _ False] cong: option.case_cong)

theorem hashcode_ascii_portable_witness:
  "duer_hashcode True [47, 97, 98] 3 0 = duer_hashcode False [47, 97, 98] 3 0 \<and>
   duer_hashcode True [200] 1 0 \<noteq> duer_hashcode False [200] 1 0"
proof
  show "duer_hashcode True [47, 97, 98] 3 0 = duer_hashcode False [47, 97, 98] 3 0"
    by (rule hashcode_ascii_portable) (simp add: ascii_bytes_def)
  show "duer_hashcode True [200] 1 0 \<noteq> duer_hashcode False [200] 1 0"
    by code_simp
qed

end
