(* ===== verification/KeyTable.thy ===== *)
theory KeyTable
  imports DuerPrelude
begin

text \<open>
  The contract of a table that maps keys to values: an insert of a new key is seen by the lookup of
  that key and by no other, a delete removes the key and no other. A run of guarded inserts, whose
  allocations may fail, and deletes then behaves as on a map and reports the same successes. The CoAP
  layer's list of dynamic resources is an interpretation.
\<close>

datatype ('k, 'v) tabop = TIns 'k 'v | TDel 'k

fun map_op ::
  "('k, 'v) tabop \<Rightarrow> ('k \<rightharpoonup> 'v) \<Rightarrow> bool list \<Rightarrow> bool \<times> ('k \<rightharpoonup> 'v) \<times> bool list" where
  "map_op (TIns k v) m mem =
     (if m k \<noteq> None then (False, m, mem)
      else (case malloc_ok mem of (ok, mem') \<Rightarrow> (ok, if ok then m(k \<mapsto> v) else m, mem')))"
| "map_op (TDel k) m mem = (m k \<noteq> None, m(k := None), mem)"

fun table_op ::
  "('t \<Rightarrow> 'k \<Rightarrow> 'v option) \<Rightarrow> ('k \<Rightarrow> 'v \<Rightarrow> 't \<Rightarrow> 't) \<Rightarrow> ('k \<Rightarrow> 't \<Rightarrow> 't)
     \<Rightarrow> ('k, 'v) tabop \<Rightarrow> 't \<Rightarrow> bool list \<Rightarrow> bool \<times> 't \<times> bool list" where
  "table_op lookup ins del (TIns k v) t mem =
     (if lookup t k \<noteq> None then (False, t, mem)
      else (case malloc_ok mem of (ok, mem') \<Rightarrow> (ok, if ok then ins k v t else t, mem')))"
| "table_op lookup ins del (TDel k) t mem = (lookup t k \<noteq> None, del k t, mem)"

text \<open>A run of calls gives their successes and the last state.\<close>

fun op_run ::
  "('o \<Rightarrow> 't \<Rightarrow> bool list \<Rightarrow> bool \<times> 't \<times> bool list) \<Rightarrow> 'o list \<Rightarrow> 't \<Rightarrow> bool list
     \<Rightarrow> bool list \<times> 't \<times> bool list" where
  "op_run f [] t mem = ([], t, mem)"
| "op_run f (c # cs) t mem =
     (case f c t mem of (ok, t1, mem1) \<Rightarrow>
        (case op_run f cs t1 mem1 of (oks, t2, mem2) \<Rightarrow> (ok # oks, t2, mem2)))"

locale key_table =
  fixes inv :: "'t \<Rightarrow> bool"
    and lookup :: "'t \<Rightarrow> 'k \<Rightarrow> 'v option"
    and ins :: "'k \<Rightarrow> 'v \<Rightarrow> 't \<Rightarrow> 't"
    and del :: "'k \<Rightarrow> 't \<Rightarrow> 't"
  assumes ins_inv: "inv t \<Longrightarrow> lookup t k = None \<Longrightarrow> inv (ins k v t)"
    and del_inv: "inv t \<Longrightarrow> inv (del k t)"
    and lookup_ins: "inv t \<Longrightarrow> lookup t k = None \<Longrightarrow>
      lookup (ins k v t) j = (if j = k then Some v else lookup t j)"
    and lookup_del: "inv t \<Longrightarrow> lookup (del k t) j = (if j = k then None else lookup t j)"
begin

lemma op_refines:
  assumes "inv t" "table_op lookup ins del c t mem = (ok, t', mem')"
  shows "inv t' \<and> map_op c (lookup t) mem = (ok, lookup t', mem')"
  using assms
  by (cases c) (auto simp: ins_inv del_inv lookup_ins lookup_del fun_eq_iff split: if_splits prod.splits)

lemma run_refines:
  assumes "inv t" "op_run (table_op lookup ins del) cs t mem = (oks, t', mem')"
  shows "inv t' \<and> op_run map_op cs (lookup t) mem = (oks, lookup t', mem')"
  using assms
proof (induction cs arbitrary: t mem oks)
  case Nil
  then show ?case by simp
next
  case (Cons c cs)
  obtain ok t1 mem1 where 1: "table_op lookup ins del c t mem = (ok, t1, mem1)" by (rule prod_cases3)
  obtain oks' t2 mem2 where 2: "op_run (table_op lookup ins del) cs t1 mem1 = (oks', t2, mem2)"
    by (rule prod_cases3)
  then have "t2 = t'" "mem2 = mem'" using Cons.prems(2) 1 by simp_all
  with op_refines [OF Cons.prems(1) 1] Cons.IH [of t1 mem1 oks'] Cons.prems(2) 1 2 show ?case by auto
qed

end

end
