(* ===== verification/Coap.thy ===== *)
theory Coap
  imports Transport HashCode KeyTable
begin

text \<open>
  \<^verbatim>\<open>modules/coap/lightduer_coap.c\<close> and \<^verbatim>\<open>lightduer_nsdl_adapter.c\<close>: the CoAP layer. It frames
  messages on TCP, dispatches requests for dynamic resources by the hash of their path and hands
  other messages to the CA agent.

  The CoAP library below it (\<^verbatim>\<open>external/mbed-client-c\<close>) is the argument \<open>e_nsdl\<close>: what it makes of
  a message to send, which of the SDK's callbacks it calls while it processes a datagram and in
  which order, and whether it accepts a resource. Its state is a value of type \<open>'n\<close>.

  A callback into the layers above does not call back into this one (a handler that answers posts
  its message to the event queue), so the callbacks of one datagram are collected in the order they
  happen and returned as a list of events.
\<close>

section \<open>Messages and resources\<close>

record coap_msg =
  m_token_len :: u16
  m_type :: byte
  m_code :: byte
  m_id :: u16
  m_path_len :: u16
  m_query_len :: u16
  m_payload_len :: u16
  m_token :: "byte list option"
  m_path :: "byte list option"
  m_query :: "byte list option"
  m_payload :: "byte list option"

definition msg_zero :: coap_msg where
  "msg_zero =
     \<lparr>m_token_len = 0, m_type = 0, m_code = 0, m_id = 0, m_path_len = 0, m_query_len = 0,
      m_payload_len = 0, m_token = None, m_path = None, m_query = None, m_payload = None\<rparr>"

abbreviation (input) MSG_REQ_GET :: byte where "MSG_REQ_GET \<equiv> 1"
abbreviation (input) MSG_REQ_POST :: byte where "MSG_REQ_POST \<equiv> 2"
abbreviation (input) MSG_REQ_PUT :: byte where "MSG_REQ_PUT \<equiv> 3"
abbreviation (input) MSG_REQ_DELETE :: byte where "MSG_REQ_DELETE \<equiv> 4"
abbreviation (input) MSG_RSP_CONTENT :: byte where "MSG_RSP_CONTENT \<equiv> 69"
abbreviation (input) MSG_TYPE_CONFIRMABLE :: byte where "MSG_TYPE_CONFIRMABLE \<equiv> 0x00"
abbreviation (input) MSG_TYPE_NON_CONFIRMABLE :: byte where "MSG_TYPE_NON_CONFIRMABLE \<equiv> 0x10"
abbreviation (input) MSG_TYPE_ACKNOWLEDGEMENT :: byte where "MSG_TYPE_ACKNOWLEDGEMENT \<equiv> 0x20"

definition MESSAGE_IS_RESPONSE :: "byte \<Rightarrow> bool" where
  "MESSAGE_IS_RESPONSE code \<longleftrightarrow> MSG_REQ_DELETE < code"

datatype res_mode = ResStatic | ResDynamic

text \<open>A handler is known by a number.\<close>

record res =
  rs_mode :: res_mode
  rs_allowed :: byte
  rs_path :: "byte list"
  rs_handler :: nat
  rs_data :: "byte list"

section \<open>The library's header\<close>

text \<open>The length of the token has 8 bits here and 16 in the device's message.\<close>

record sn_hdr =
  h_code :: byte
  h_id :: u16
  h_type :: byte
  h_payload_len :: u16
  h_payload :: "byte list option"
  h_token_len :: byte
  h_token :: "byte list option"
  h_path_len :: u16
  h_path :: "byte list option"
  h_options :: "(u16 \<times> byte list option) option"

definition duer_nsdl_header_set :: "coap_msg \<Rightarrow> sn_hdr" where
  "duer_nsdl_header_set m =
     \<lparr>h_code = m_code m, h_id = m_id m, h_type = m_type m,
      h_payload_len = m_payload_len m, h_payload = m_payload m,
      h_token_len = ucast (m_token_len m), h_token = m_token m,
      h_path_len = m_path_len m, h_path = m_path m,
      h_options = (if m_query m \<noteq> None \<and> 0 < m_query_len m
                   then Some (m_query_len m, m_query m) else None)\<rparr>"

definition duer_coap_header_set :: "sn_hdr \<Rightarrow> coap_msg" where
  "duer_coap_header_set h =
     (let m = msg_zero\<lparr>m_code := h_code h, m_id := h_id h, m_type := h_type h,
                m_payload_len := h_payload_len h, m_payload := h_payload h,
                m_token := h_token h, m_token_len := ucast (h_token_len h),
                m_path_len := h_path_len h, m_path := h_path h\<rparr>
      in case h_options h of
           None \<Rightarrow> m
         | Some (len, q) \<Rightarrow>
             (if q \<noteq> None \<and> 0 < len then m\<lparr>m_query_len := len, m_query := q\<rparr> else m))"

text \<open>Addresses: the library's has no protocol type; the way back sets it to \<^verbatim>\<open>(duer_u8_t)-1\<close>.\<close>

record sn_addr =
  sa_len :: nat
  sa_ptr :: "byte list option"
  sa_port :: u16

definition duer_nsdl_address_set :: "netaddr \<Rightarrow> sn_addr" where
  "duer_nsdl_address_set a = \<lparr>sa_len = na_host_size a, sa_ptr = na_host a, sa_port = na_port a\<rparr>"

definition duer_coap_address_set :: "sn_addr \<Rightarrow> netaddr" where
  "duer_coap_address_set s =
     \<lparr>na_type = - 1, na_port = sa_port s, na_host = sa_ptr s, na_host_size = sa_len s\<rparr>"

section \<open>The library\<close>

datatype ns_act = ActTx "byte list" | ActRx sn_hdr | ActDyn sn_hdr

record res_info =
  ri_mode :: res_mode
  ri_access :: byte
  ri_path :: "byte list"
  ri_resource :: "byte list option"
  ri_dyn_callback :: bool

text \<open>
  A call that sends gives the datagram it hands to the transmit callback, if any, and how it goes
  on when that callback has succeeded or failed.
\<close>

record 'n nsdl_ops =
  ns_init :: "(addr \<times> 'n) option"
  ns_send :: "'n \<Rightarrow> sn_addr \<Rightarrow> sn_hdr \<Rightarrow> byte list option \<times> (bool \<Rightarrow> status \<times> 'n)"
  ns_process :: "'n \<Rightarrow> byte list \<Rightarrow> sn_addr \<Rightarrow> ns_act list \<times> status \<times> 'n"
  ns_create_resource :: "'n \<Rightarrow> res_info \<Rightarrow> bool \<times> 'n"
  ns_delete_resource :: "'n \<Rightarrow> byte list \<Rightarrow> bool \<times> 'n"
  ns_exec :: "'n \<Rightarrow> u32 \<Rightarrow> ns_act list \<times> 'n"

record 'n env =
  e_le :: bool
  e_sg :: bool
  e_crypt :: crypt
  e_nsdl :: "'n nsdl_ops"

section \<open>The context\<close>

record dynres =
  dr_key :: u32
  dr_res :: nat

record 'n coap =
  co_self :: addr
  co_retval :: status
  co_trans :: "trans option"
  co_nsdl :: "(addr \<times> 'n) option"
  co_list :: "dynres list"
  co_result :: bool
  co_remote :: netaddr
  co_key_info :: "byte list option"

datatype coap_event = EvResult coap_msg netaddr | EvResource nat coap_msg netaddr

section \<open>The map from library handles to contexts\<close>

text \<open>
  An entry is a context and the handle in its \<^verbatim>\<open>nsdl\<close> field, which is set before the entry is made
  and does not change until the entry is deleted.
\<close>

definition duer_coap_nsdl_add :: "addr \<Rightarrow> addr \<Rightarrow> world \<Rightarrow> world" where
  "duer_coap_nsdl_add coap nsdl w =
     (let (ok, w1) = w_malloc w
      in if ok then w1\<lparr>w_nsdl_map := (coap, nsdl) # w_nsdl_map w1\<rparr> else w1)"

fun nsdl_map_del :: "addr \<Rightarrow> (addr \<times> addr) list \<Rightarrow> (addr \<times> addr) list" where
  "nsdl_map_del coap [] = []"
| "nsdl_map_del coap ((c, n) # r) = (if c = coap then r else (c, n) # nsdl_map_del coap r)"

definition duer_coap_nsdl_del :: "addr \<Rightarrow> world \<Rightarrow> world" where
  "duer_coap_nsdl_del coap w = w\<lparr>w_nsdl_map := nsdl_map_del coap (w_nsdl_map w)\<rparr>"

fun nsdl_map_get :: "addr \<Rightarrow> (addr \<times> addr) list \<Rightarrow> addr option" where
  "nsdl_map_get nsdl [] = None"
| "nsdl_map_get nsdl ((c, n) # r) = (if n = nsdl then Some c else nsdl_map_get nsdl r)"

definition duer_coap_nsdl_get :: "addr \<Rightarrow> world \<Rightarrow> addr option" where
  "duer_coap_nsdl_get nsdl w = nsdl_map_get nsdl (w_nsdl_map w)"

section \<open>Dynamic resources\<close>

definition duer_coap_convert_path :: "byte list \<Rightarrow> byte list" where
  "duer_coap_convert_path path =
     (case path of [] \<Rightarrow> [] | c # cs \<Rightarrow> if c = 47 then cs else path)"

fun duer_coap_dynamic_resource_find :: "dynres list \<Rightarrow> u32 \<Rightarrow> dynres option" where
  "duer_coap_dynamic_resource_find [] key = None"
| "duer_coap_dynamic_resource_find (p # ps) key =
     (if dr_key p \<noteq> key then duer_coap_dynamic_resource_find ps key else Some p)"

definition path_key :: "bool \<Rightarrow> addr \<Rightarrow> byte list \<Rightarrow> u32" where
  "path_key sg self path = the (duer_hashcode sg path (length path) (of_nat self))"

definition duer_coap_dynamic_resource_add ::
  "bool \<Rightarrow> 'n coap \<Rightarrow> res \<Rightarrow> world \<Rightarrow> status \<times> 'n coap \<times> world" where
  "duer_coap_dynamic_resource_add sg co r w =
     (let key = path_key sg (co_self co) (duer_coap_convert_path (rs_path r))
      in if duer_coap_dynamic_resource_find (co_list co) key \<noteq> None then (DUER_ERR_FAILED, co, w)
         else
           (let (ok, w1) = w_malloc w
            in if \<not> ok then (DUER_ERR_FAILED, co, w1)
               else
                 (DUER_OK,
                  co\<lparr>co_list := \<lparr>dr_key = key, dr_res = rs_handler r\<rparr> # co_list co\<rparr>, w1)))"

fun dynres_unlink :: "u32 \<Rightarrow> dynres list \<Rightarrow> dynres list option" where
  "dynres_unlink key [] = None"
| "dynres_unlink key (p # ps) =
     (if dr_key p \<noteq> key then map_option ((#) p) (dynres_unlink key ps) else Some ps)"

definition duer_coap_dynamic_resource_remove ::
  "bool \<Rightarrow> 'n coap \<Rightarrow> byte list \<Rightarrow> status \<times> 'n coap" where
  "duer_coap_dynamic_resource_remove sg co path =
     (case dynres_unlink (path_key sg (co_self co) (duer_coap_convert_path path)) (co_list co) of
        None \<Rightarrow> (DUER_ERR_FAILED, co)
      | Some l \<Rightarrow> (DUER_OK, co\<lparr>co_list := l\<rparr>))"

definition duer_coap_dynamic_resource_free :: "'n coap \<Rightarrow> 'n coap" where
  "duer_coap_dynamic_resource_free co = co\<lparr>co_list := []\<rparr>"

definition duer_coap_resource_add ::
  "'n env \<Rightarrow> 'n coap option \<Rightarrow> res \<Rightarrow> world \<Rightarrow> (status \<times> 'n coap option \<times> world) option" where
  "duer_coap_resource_add e hdlr r w =
     (case hdlr of
        None \<Rightarrow> Some (DUER_ERR_FAILED, None, w)
      | Some co \<Rightarrow>
          (let info = \<lparr>ri_mode = rs_mode r, ri_access = rs_allowed r, ri_path = rs_path r,
                       ri_resource = (if rs_mode r = ResStatic then Some (rs_data r) else None),
                       ri_dyn_callback = (rs_mode r \<noteq> ResStatic)\<rparr>;
               (co1, w1) =
                 (if rs_mode r = ResStatic then (co, w)
                  else (case duer_coap_dynamic_resource_add (e_sg e) co r w of
                          (rs, co1, w1) \<Rightarrow> (co1, w1)))
           in (case co_nsdl co1 of
                 None \<Rightarrow> None
               | Some (h, n) \<Rightarrow>
                   (let (ok, n1) = ns_create_resource (e_nsdl e) n info
                    in Some (if ok then DUER_OK else DUER_ERR_FAILED,
                             Some (co1\<lparr>co_nsdl := Some (h, n1)\<rparr>), w1)))))"

definition duer_coap_resource_remove ::
  "'n env \<Rightarrow> 'n coap option \<Rightarrow> byte list \<Rightarrow> (status \<times> 'n coap option) option" where
  "duer_coap_resource_remove e hdlr path =
     (case hdlr of
        None \<Rightarrow> Some (DUER_ERR_FAILED, None)
      | Some co \<Rightarrow>
          (case co_nsdl co of
             None \<Rightarrow> None
           | Some (h, n) \<Rightarrow>
               (let (ok, n1) = ns_delete_resource (e_nsdl e) n path;
                    co1 = co\<lparr>co_nsdl := Some (h, n1)\<rparr>
                in if ok then Some (DUER_OK, Some (snd (duer_coap_dynamic_resource_remove (e_sg e) co1 path)))
                   else Some (DUER_ERR_FAILED, Some co1))))"


section \<open>The callbacks the library gets\<close>

definition duer_coap_dyn_res_callback ::
  "'n env \<Rightarrow> 'n coap \<Rightarrow> sn_hdr \<Rightarrow> sn_addr \<Rightarrow> world \<Rightarrow> coap_event list" where
  "duer_coap_dyn_res_callback e co h a w =
     (case co_nsdl co of
        None \<Rightarrow> []
      | Some (nsdl, n) \<Rightarrow>
          (if duer_coap_nsdl_get nsdl w \<noteq> Some (co_self co) then []
           else
             (let key = the (duer_hashcode (e_sg e)
                               (take (unat (h_path_len h)) (case h_path h of None \<Rightarrow> [] | Some p \<Rightarrow> p))
                               (unat (h_path_len h)) (of_nat (co_self co)))
              in (case duer_coap_dynamic_resource_find (co_list co) key of
                    None \<Rightarrow> []
                  | Some d \<Rightarrow>
                      [EvResource (dr_res d) (duer_coap_header_set h)
                         ((duer_coap_address_set a)\<lparr>na_type := na_type (co_remote co)\<rparr>)]))))"

text \<open>
  \<^verbatim>\<open>duer_coap_nsdl_tx\<close>: on TCP the datagram gets a header of 8 bytes. Its size is a
  \<^verbatim>\<open>uint16_t\<close>, to which the 8 is added.
\<close>

definition coap_tx_frame :: "bool \<Rightarrow> byte list \<Rightarrow> byte list" where
  "coap_tx_frame le bs =
     (let sz = (of_nat (length bs) :: u16)
      in take (unat (sz + 8))
           (store32 le (duer_htonl le COAP_TCP_HDR) @ store32 le (duer_htonl le (ucast sz)) @ bs))"

definition duer_coap_nsdl_tx ::
  "'n env \<Rightarrow> 'n coap \<Rightarrow> byte list \<Rightarrow> world \<Rightarrow> (bool \<times> 'n coap \<times> world) option" where
  "duer_coap_nsdl_tx e co bs w =
     (case co_nsdl co of
        None \<Rightarrow> Some (False, co, w)
      | Some (nsdl, n) \<Rightarrow>
          (if duer_coap_nsdl_get nsdl w \<noteq> Some (co_self co) then Some (False, co, w)
           else
             (let (ok, w1) = (if na_type (co_remote co) = PROTO_TCP then w_malloc w else (True, w))
              in if \<not> ok then Some (False, co, w1)
                 else
                   (case duer_trans_send (e_le e) (e_crypt e) (co_trans co)
                           (if na_type (co_remote co) = PROTO_TCP then coap_tx_frame (e_le e) bs else bs)
                           w1 of
                      None \<Rightarrow> None
                    | Some (rs, w2) \<Rightarrow> Some (0 \<le> rs, co\<lparr>co_retval := rs\<rparr>, w2)))))"

definition duer_coap_nsdl_rx ::
  "'n coap \<Rightarrow> sn_hdr \<Rightarrow> sn_addr \<Rightarrow> world \<Rightarrow> coap_event list" where
  "duer_coap_nsdl_rx co h a w =
     (case co_nsdl co of
        None \<Rightarrow> []
      | Some (nsdl, n) \<Rightarrow>
          (if duer_coap_nsdl_get nsdl w = Some (co_self co) \<and> co_result co
           then [EvResult (duer_coap_header_set h) (duer_coap_address_set a)] else []))"

fun ns_acts ::
  "'n env \<Rightarrow> ns_act list \<Rightarrow> sn_addr \<Rightarrow> 'n coap \<Rightarrow> world \<Rightarrow> (coap_event list \<times> 'n coap \<times> world) option" where
  "ns_acts e [] a co w = Some ([], co, w)"
| "ns_acts e (ActTx bs # r) a co w =
     (case duer_coap_nsdl_tx e co bs w of
        None \<Rightarrow> None
      | Some (ok, co1, w1) \<Rightarrow> ns_acts e r a co1 w1)"
| "ns_acts e (ActRx h # r) a co w =
     (case ns_acts e r a co w of
        None \<Rightarrow> None
      | Some (evs, co1, w1) \<Rightarrow> Some (duer_coap_nsdl_rx co h a w @ evs, co1, w1))"
| "ns_acts e (ActDyn h # r) a co w =
     (case ns_acts e r a co w of
        None \<Rightarrow> None
      | Some (evs, co1, w1) \<Rightarrow> Some (duer_coap_dyn_res_callback e co h a w @ evs, co1, w1))"

section \<open>Life cycle\<close>

definition remote_zero :: netaddr where
  "remote_zero = \<lparr>na_type = 0, na_port = 0, na_host = None, na_host_size = 0\<rparr>"

definition duer_coap_release :: "'n coap option \<Rightarrow> world \<Rightarrow> status \<times> world" where
  "duer_coap_release hdlr w =
     (case hdlr of
        None \<Rightarrow> (DUER_OK, w)
      | Some co \<Rightarrow>
          (let w1 = duer_coap_nsdl_del (co_self co) w
           in if co_trans co \<noteq> None then (DUER_OK, snd (duer_trans_release (co_trans co) w1))
              else (DUER_OK, w1)))"

text \<open>\<open>self\<close> is the address \<^verbatim>\<open>DUER_MALLOC\<close> returns for the context.\<close>

definition duer_coap_acquire ::
  "'n env \<Rightarrow> addr \<Rightarrow> bool \<Rightarrow> byte list option \<Rightarrow> world \<Rightarrow> 'n coap option \<times> world" where
  "duer_coap_acquire e self f_result key_info w =
     (let (ok, w1) = w_malloc w
      in if \<not> ok then (None, snd (duer_coap_release (None :: 'n coap option) w1))
         else
           (let (t, w2) = duer_trans_acquire key_info w1;
                co = \<lparr>co_self = self, co_retval = 0, co_trans = t, co_nsdl = None, co_list = [],
                      co_result = False, co_remote = remote_zero, co_key_info = None\<rparr>
            in if t = None then (None, snd (duer_coap_release (Some co) w2))
               else
                 (case ns_init (e_nsdl e) of
                    None \<Rightarrow> (None, snd (duer_coap_release (Some co) w2))
                  | Some (h, n) \<Rightarrow>
                      (Some (co\<lparr>co_nsdl := Some (h, n), co_result := f_result,
                               co_key_info := key_info\<rparr>),
                       duer_coap_nsdl_add self h w2))))"

definition duer_coap_connect ::
  "'n coap option \<Rightarrow> netaddr option \<Rightarrow> byte list \<Rightarrow> world \<Rightarrow> (status \<times> 'n coap option \<times> world) option" where
  "duer_coap_connect hdlr addr data w =
     (case (hdlr, addr) of
        (Some co, Some a) \<Rightarrow>
          (let (rs0, t1, w1) = duer_trans_set_pk (co_trans co) data w;
               co1 = co\<lparr>co_trans := t1, co_remote := (co_remote co)\<lparr>na_host := None\<rparr>\<rparr>;
               (ok, w2) = (if na_host a \<noteq> None \<or> 0 < na_host_size a then w_malloc w1 else (True, w1))
           in if \<not> ok then Some (DUER_ERR_FAILED, Some co1, w2)
              else
                (case (if na_host a \<noteq> None \<or> 0 < na_host_size a
                       then (case Option.bind (na_host a) (memget 0 (na_host_size a)) of
                               None \<Rightarrow> None
                             | Some h \<Rightarrow> Some (a\<lparr>na_host := Some h\<rparr>))
                       else Some (co_remote co1)) of
                   None \<Rightarrow> None
                 | Some rem \<Rightarrow>
                     (case duer_trans_connect (co_trans co1) a w2 of
                        None \<Rightarrow> None
                      | Some (rs, t2, w3) \<Rightarrow>
                          Some (rs, Some (co1\<lparr>co_trans := t2, co_remote := rem\<rparr>), w3))))
      | _ \<Rightarrow> Some (DUER_ERR_FAILED, hdlr, w))"

definition duer_coap_disconnect :: "'n coap option \<Rightarrow> world \<Rightarrow> status \<times> 'n coap option \<times> world" where
  "duer_coap_disconnect hdlr w =
     (let (rs, t, w1) = duer_trans_close (Option.bind hdlr co_trans) w
      in (rs, map_option (\<lambda>co. co\<lparr>co_trans := t\<rparr>) hdlr, w1))"

definition duer_coap_send ::
  "'n env \<Rightarrow> 'n coap option \<Rightarrow> coap_msg \<Rightarrow> world \<Rightarrow> (status \<times> 'n coap option \<times> world) option" where
  "duer_coap_send e hdlr msg w =
     (case hdlr of
        None \<Rightarrow> Some (DUER_ERR_FAILED, None, w)
      | Some co \<Rightarrow>
          (case co_nsdl co of
             None \<Rightarrow> Some (DUER_ERR_FAILED, Some co, w)
           | Some (h, n) \<Rightarrow>
               (case ns_send (e_nsdl e) n (duer_nsdl_address_set (co_remote co))
                       (duer_nsdl_header_set msg) of
                  (out, k) \<Rightarrow>
                    (let co0 = co\<lparr>co_retval := DUER_ERR_FAILED\<rparr>
                     in (case (case out of None \<Rightarrow> Some (False, co0, w)
                                         | Some bs \<Rightarrow> duer_coap_nsdl_tx e co0 bs w) of
                           None \<Rightarrow> None
                         | Some (ok, co1, w1) \<Rightarrow>
                             (let (rs, n1) = k ok;
                                  co2 = co1\<lparr>co_nsdl := Some (h, n1)\<rparr>
                              in Some (if co_retval co2 \<le> 0 then co_retval co2 else rs,
                                       Some co2, w1)))))))"

text \<open>
  \<^verbatim>\<open>duer_coap_recv\<close> with the buffer of \<^verbatim>\<open>duer_coap_data_available\<close>. On TCP the header is read
  first; it must have the magic number and announce no more than fits.
\<close>

definition coap_recv_body ::
  "'n env \<Rightarrow> 'n coap \<Rightarrow> byte list \<Rightarrow> world
     \<Rightarrow> (status \<times> coap_event list \<times> 'n coap \<times> world) option" where
  "coap_recv_body e co buf w =
     (case duer_trans_recv (e_le e) (e_crypt e) (co_trans co) buf w of
        None \<Rightarrow> None
      | Some (rs, data, t1, w1) \<Rightarrow>
          (let co1 = co\<lparr>co_trans := t1\<rparr>
           in if rs \<le> 0 then Some (rs, [], co1, w1)
              else
                (case co_nsdl co1 of
                   None \<Rightarrow> None
                 | Some (h, n) \<Rightarrow>
                     (let a = duer_nsdl_address_set (co_remote co1);
                          (acts, st, n1) = ns_process (e_nsdl e) n (take (nat rs) data) a
                      in (case ns_acts e acts a co1 w1 of
                            None \<Rightarrow> None
                          | Some (evs, co2, w2) \<Rightarrow>
                              Some (st, evs, co2\<lparr>co_nsdl := Some (h, n1)\<rparr>, w2))))))"

definition duer_coap_recv ::
  "'n env \<Rightarrow> 'n coap \<Rightarrow> byte list \<Rightarrow> world
     \<Rightarrow> (status \<times> coap_event list \<times> 'n coap \<times> world) option" where
  "duer_coap_recv e co data w =
     (if na_type (co_remote co) = PROTO_TCP then
        (case duer_trans_recv (e_le e) (e_crypt e) (co_trans co) (replicate 8 0) w of
           None \<Rightarrow> None
         | Some (rs, value, t1, w1) \<Rightarrow>
             (let co1 = co\<lparr>co_trans := t1\<rparr>;
                  mask = duer_htonl (e_le e) (load32 (e_le e) value);
                  sz = unat (duer_htonl (e_le e) (load32 (e_le e) (drop 4 value)))
              in if rs \<noteq> 8 \<or> mask \<noteq> COAP_TCP_HDR \<or> length data < sz
                 then Some (rs, [], co1, w1)
                 else coap_recv_body e co1 (take sz data) w1))
      else coap_recv_body e co data w)"

definition duer_coap_data_available ::
  "'n env \<Rightarrow> 'n coap option \<Rightarrow> world \<Rightarrow> (status \<times> coap_event list \<times> 'n coap option \<times> world) option" where
  "duer_coap_data_available e hdlr w =
     (case hdlr of
        None \<Rightarrow> Some (DUER_ERR_FAILED, [], None, w)
      | Some co \<Rightarrow>
          (case duer_coap_recv e co (replicate DUER_BUFFER_SIZE 0) w of
             None \<Rightarrow> None
           | Some (rs, evs, co1, w1) \<Rightarrow> Some (rs, evs, Some co1, w1)))"

definition duer_coap_exec ::
  "'n env \<Rightarrow> 'n coap option \<Rightarrow> u32 \<Rightarrow> world \<Rightarrow> (status \<times> coap_event list \<times> 'n coap option \<times> world) option" where
  "duer_coap_exec e hdlr timestamp w =
     (case hdlr of
        None \<Rightarrow> Some (DUER_ERR_FAILED, [], None, w)
      | Some co \<Rightarrow>
          (case co_nsdl co of
             None \<Rightarrow> None
           | Some (h, n) \<Rightarrow>
               (let (acts, n1) = ns_exec (e_nsdl e) n timestamp
                in (case ns_acts e acts (duer_nsdl_address_set (co_remote co)) co w of
                      None \<Rightarrow> None
                    | Some (evs, co1, w1) \<Rightarrow>
                        Some (DUER_ERR_FAILED, evs, Some (co1\<lparr>co_nsdl := Some (h, n1)\<rparr>), w1)))))"

definition duer_coap_set_read_timeout :: "'n coap option \<Rightarrow> u32 \<Rightarrow> status \<times> 'n coap option" where
  "duer_coap_set_read_timeout hdlr timeout =
     (let (rs, t) = duer_trans_set_read_timeout (Option.bind hdlr co_trans) timeout
      in (rs, map_option (\<lambda>co. co\<lparr>co_trans := t\<rparr>) hdlr))"


section \<open>Dynamic resources as a map\<close>

definition dyn_lookup :: "dynres list \<Rightarrow> u32 \<Rightarrow> nat option" where
  "dyn_lookup l key = map_option dr_res (duer_coap_dynamic_resource_find l key)"

definition dyn_insert :: "u32 \<Rightarrow> nat \<Rightarrow> dynres list \<Rightarrow> dynres list" where
  "dyn_insert key f l = \<lparr>dr_key = key, dr_res = f\<rparr> # l"

definition dyn_delete :: "u32 \<Rightarrow> dynres list \<Rightarrow> dynres list" where
  "dyn_delete key l = (case dynres_unlink key l of None \<Rightarrow> l | Some l' \<Rightarrow> l')"

definition dyn_inv :: "dynres list \<Rightarrow> bool" where
  "dyn_inv l \<longleftrightarrow> distinct (map dr_key l)"

lemma dyn_find_None: "duer_coap_dynamic_resource_find l key = None \<longleftrightarrow> key \<notin> dr_key ` set l"
  by (induction l key rule: duer_coap_dynamic_resource_find.induct) auto

lemma dyn_lookup_simps [simp]:
  "dyn_lookup [] key = None"
  "dyn_lookup (p # ps) key = (if dr_key p = key then Some (dr_res p) else dyn_lookup ps key)"
  by (auto simp: dyn_lookup_def)

lemma dyn_delete_simps [simp]:
  "dyn_delete key [] = []"
  "dyn_delete key (p # ps) = (if dr_key p = key then ps else p # dyn_delete key ps)"
  by (auto simp: dyn_delete_def split: option.split)

lemma dyn_delete_keys: "dr_key ` set (dyn_delete key l) \<subseteq> dr_key ` set l"
  by (induction l) auto

lemma dyn_lookup_notin: "key \<notin> dr_key ` set l \<Longrightarrow> dyn_lookup l key = None"
  by (induction l) auto

lemma dyn_delete_inv: "dyn_inv l \<Longrightarrow> dyn_inv (dyn_delete key l)"
proof (induction l)
  case (Cons p l)
  then show ?case using dyn_delete_keys [of key l] by (auto simp: dyn_inv_def)
qed (simp add: dyn_inv_def)

lemma dyn_lookup_delete:
  "dyn_inv l \<Longrightarrow> dyn_lookup (dyn_delete key l) j = (if j = key then None else dyn_lookup l j)"
  by (induction l) (auto simp: dyn_inv_def dyn_lookup_notin)

interpretation dyn: key_table dyn_inv dyn_lookup dyn_insert dyn_delete
proof unfold_locales
  fix t k v
  assume "dyn_inv t" "dyn_lookup t k = None"
  then show "dyn_inv (dyn_insert k v t)"
    by (simp add: dyn_inv_def dyn_insert_def dyn_lookup_def dyn_find_None)
qed (simp_all add: dyn_delete_inv dyn_lookup_delete dyn_insert_def)

text \<open>A call of the application: add a resource or remove a path.\<close>

definition res_call ::
  "bool \<Rightarrow> res + byte list \<Rightarrow> 'n coap \<Rightarrow> world \<Rightarrow> status \<times> 'n coap \<times> world" where
  "res_call sg c co w =
     (case c of
        Inl r \<Rightarrow> duer_coap_dynamic_resource_add sg co r w
      | Inr p \<Rightarrow> (let (rs, co1) = duer_coap_dynamic_resource_remove sg co p in (rs, co1, w)))"

fun res_calls ::
  "bool \<Rightarrow> (res + byte list) list \<Rightarrow> 'n coap \<Rightarrow> world \<Rightarrow> status list \<times> 'n coap \<times> world" where
  "res_calls sg [] co w = ([], co, w)"
| "res_calls sg (c # cs) co w =
     (case res_call sg c co w of (rs, co1, w1) \<Rightarrow>
        (case res_calls sg cs co1 w1 of (rss, co2, w2) \<Rightarrow> (rs # rss, co2, w2)))"

definition res_table_op :: "bool \<Rightarrow> addr \<Rightarrow> res + byte list \<Rightarrow> (u32, nat) tabop" where
  "res_table_op sg self c =
     (case c of
        Inl r \<Rightarrow> TIns (path_key sg self (duer_coap_convert_path (rs_path r))) (rs_handler r)
      | Inr p \<Rightarrow> TDel (path_key sg self (duer_coap_convert_path p)))"

definition status_of :: "bool \<Rightarrow> status" where
  "status_of ok = (if ok then DUER_OK else DUER_ERR_FAILED)"

lemma dyn_unlink_None: "dynres_unlink key l = None \<longleftrightarrow> dyn_lookup l key = None"
  by (induction l) auto

lemma res_call_table:
  assumes "table_op dyn_lookup dyn_insert dyn_delete (res_table_op sg (co_self co) c) (co_list co)
      (w_mem w) = (ok, l, mem)"
  shows "res_call sg c co w = (status_of ok, co\<lparr>co_list := l\<rparr>, w\<lparr>w_mem := mem\<rparr>)"
proof -
  have same: "co\<lparr>co_list := co_list co\<rparr> = co" "w\<lparr>w_mem := w_mem w\<rparr> = w" by simp_all
  show ?thesis
  proof (cases c)
    case (Inl r)
    then show ?thesis using assms
      by (auto simp: res_call_def res_table_op_def duer_coap_dynamic_resource_add_def Let_def
            dyn_lookup_def dyn_insert_def status_of_def same split: if_splits prod.splits)
  next
    case (Inr p)
    then show ?thesis using assms
      by (auto simp: res_call_def res_table_op_def duer_coap_dynamic_resource_remove_def dyn_delete_def
            status_of_def same dyn_unlink_None [symmetric] split: option.splits)
  qed
qed

lemma res_calls_table:
  assumes "op_run (table_op dyn_lookup dyn_insert dyn_delete) (map (res_table_op sg (co_self co)) cs)
      (co_list co) (w_mem w) = (oks, l, mem)"
  shows "res_calls sg cs co w = (map status_of oks, co\<lparr>co_list := l\<rparr>, w\<lparr>w_mem := mem\<rparr>)"
  using assms
proof (induction cs arbitrary: co w oks)
  case (Cons c cs)
  obtain ok l1 mem1 where 1: "table_op dyn_lookup dyn_insert dyn_delete (res_table_op sg (co_self co) c)
      (co_list co) (w_mem w) = (ok, l1, mem1)" by (rule prod_cases3)
  obtain oks' l2 mem2 where 2: "op_run (table_op dyn_lookup dyn_insert dyn_delete)
      (map (res_table_op sg (co_self co)) cs) l1 mem1 = (oks', l2, mem2)" by (rule prod_cases3)
  from Cons.IH [of "co\<lparr>co_list := l1\<rparr>" "w\<lparr>w_mem := mem1\<rparr>" oks'] 2 res_call_table [OF 1] Cons.prems 1
  show ?case by auto
qed simp

section \<open>Sending and receiving\<close>

lemma coap_tx_frame_small:
  assumes "length bs + 8 < 65536"
  shows "coap_tx_frame le bs = coap_frame bs"
proof -
  let ?sz = "of_nat (length bs) :: u16"
  have u: "unat ?sz = length bs" using assms by (simp add: unat_of_nat take_bit_eq_mod)
  then have "unat (?sz + 8) = length bs + 8" using assms by (simp add: unat_word_ariths)
  moreover have "(ucast ?sz :: u32) = of_nat (length bs)"
    using u by (metis of_nat_unat)
  ultimately show ?thesis by (simp add: coap_tx_frame_def coap_frame_def)
qed

text \<open>What a datagram does once it has been received.\<close>

definition coap_deliver ::
  "'n env \<Rightarrow> 'n coap \<Rightarrow> byte list \<Rightarrow> world
     \<Rightarrow> (status \<times> coap_event list \<times> 'n coap option \<times> world) option" where
  "coap_deliver e co bs w =
     (case co_nsdl co of
        None \<Rightarrow> None
      | Some (h, n) \<Rightarrow>
          (let a = duer_nsdl_address_set (co_remote co);
               (acts, st, n1) = ns_process (e_nsdl e) n bs a
           in (case ns_acts e acts a co w of
                 None \<Rightarrow> None
               | Some (evs, co2, w2) \<Rightarrow> Some (st, evs, Some (co2\<lparr>co_nsdl := Some (h, n1)\<rparr>), w2))))"

lemma data_available_deliver:
  assumes tcp: "na_type (co_remote co) = PROTO_TCP" and n: "n \<le> DUER_BUFFER_SIZE"
    and hdr: "duer_trans_recv (e_le e) (e_crypt e) (co_trans co) (replicate 8 0) v =
      Some (8, be32 COAP_TCP_HDR @ be32 (of_nat n), t1, v1)"
    and body: "duer_trans_recv (e_le e) (e_crypt e) t1 (replicate n 0) v1 =
      Some (int (length bs), bs @ z, t2, v2)"
    and ne: "bs \<noteq> []"
  shows "duer_coap_data_available e (Some co) v = coap_deliver e (co\<lparr>co_trans := t2\<rparr>) bs v2"
proof -
  have sz: "unat (of_nat n :: u32) = n"
    using n by (intro unat_of_nat_u32) (simp add: DUER_BUFFER_SIZE_def)
  have "duer_coap_recv e co (replicate DUER_BUFFER_SIZE 0) v =
      coap_recv_body e (co\<lparr>co_trans := t1\<rparr>) (replicate n 0) v1"
    using n by (simp add: duer_coap_recv_def tcp hdr Let_def sz)
  then show ?thesis
    using ne by (auto simp: duer_coap_data_available_def coap_recv_body_def body coap_deliver_def Let_def
        split: option.split prod.split)
qed

lemma plain_recv:
  assumes "\<not> duer_trans_is_encrypted (Some t)" "f_recv (w_soc v)" "w_recv v = [RecvData bs]"
    "length buf \<le> length bs"
  shows "\<exists>v'. duer_trans_recv le cr (Some t) buf v = Some (int (length buf), take (length buf) bs, Some t, v') \<and>
     w_recv v' = (if length bs \<le> length buf then [] else [RecvData (drop (length buf) bs)]) \<and> w_soc v' = w_soc v \<and>
     w_nsdl_map v' = w_nsdl_map v"
proof -
  from wrapper_recv_data [OF assms(2,3,4), of t] obtain v'
    where "duer_trans_wrapper_recv (Some t) (length buf) v = (int (length buf), take (length buf) bs, v')"
      "w_recv v' = (if length bs \<le> length buf then [] else [RecvData (drop (length buf) bs)])"
      "w_soc v' = w_soc v" "w_nsdl_map v' = w_nsdl_map v" by blast
  then show ?thesis using assms(1,4)
    by (simp add: duer_trans_recv_def duer_trans_get_callbacks_def del: memput_0)
qed


lemma plain_delivery:
  assumes "bs \<noteq> []" "length bs \<le> DUER_BUFFER_SIZE" "na_type (co_remote peer) = PROTO_TCP"
    "co_trans peer = Some u" "\<not> duer_trans_is_encrypted (Some u)" "f_recv (w_soc v)"
    "w_recv v = [RecvData (coap_frame bs)]"
  shows "\<exists>v'. duer_coap_data_available e (Some peer) v = coap_deliver e peer bs v' \<and> w_recv v' = [] \<and>
     w_nsdl_map v' = w_nsdl_map v"
proof -
  from plain_recv [OF assms(5-7), of "replicate 8 0"] assms(1) obtain v1
    where 1: "duer_trans_recv (e_le e) (e_crypt e) (Some u) (replicate 8 0) v =
        Some (8, be32 COAP_TCP_HDR @ be32 (of_nat (length bs)), Some u, v1)"
      "w_recv v1 = [RecvData bs]" "w_soc v1 = w_soc v" "w_nsdl_map v1 = w_nsdl_map v"
    by (auto simp: coap_frame_def)
  from plain_recv [OF assms(5) _ 1(2), of "replicate (length bs) 0"] assms(6) 1(3,4) obtain v2
    where 2: "duer_trans_recv (e_le e) (e_crypt e) (Some u) (replicate (length bs) 0) v1 =
        Some (int (length bs), bs @ [], Some u, v2)" "w_recv v2 = []" "w_nsdl_map v2 = w_nsdl_map v"
    by (auto simp del: replicate.simps)
  have "peer\<lparr>co_trans := Some u\<rparr> = peer" using assms(4) by (cases peer) simp
  with data_available_deliver [of peer "length bs" e v "Some u" v1 bs "[]" "Some u" v2] 1(1) 2 assms
  show ?thesis by auto
qed

lemma tx_plain:
  assumes "duer_coap_nsdl_get h w = Some (co_self co)" "co_nsdl co = Some (h, n)"
    "na_type (co_remote co) = PROTO_TCP" "co_trans co = Some t" "\<not> duer_trans_is_encrypted (Some t)"
    "f_send (w_soc w)" "w_mem w = []" "w_send w = [sr]"
  shows "\<exists>w'. duer_coap_nsdl_tx e co bs w = Some (0 \<le> sr, co\<lparr>co_retval := sr\<rparr>, w') \<and>
     w_trace w' = w_trace w @ [NetSend (coap_tx_frame (e_le e) bs) sr]"
  using assms
  by (simp add: duer_coap_nsdl_tx_def duer_trans_send_def duer_trans_get_callbacks_def
        duer_trans_wrapper_send_def soc_send_def)

lemma tx_secure:
  assumes "duer_coap_nsdl_get h w = Some (co_self co)" "co_nsdl co = Some (h, n)"
    "na_type (co_remote co) = PROTO_TCP" "co_trans co = Some t" "w_mem w = []"
    "duer_trans_send (e_le e) (e_crypt e) (Some t) (coap_tx_frame (e_le e) bs) w = Some (sr, w')"
  shows "duer_coap_nsdl_tx e co bs w = Some (0 \<le> sr, co\<lparr>co_retval := sr\<rparr>, w')"
proof -
  have eq: "w\<lparr>w_mem := []\<rparr> = w" using assms(5) by (cases w) simp
  show ?thesis using assms by (simp add: duer_coap_nsdl_tx_def eq)
qed

section \<open>Properties\<close>

text \<open>C25: What the conversion of a message to the library's header and back leaves of it: everything
  but a token length above 255, of which only the low 8 bits survive, and a query without bytes, which
  is dropped.\<close>

theorem coap_header_roundtrip:
  "duer_coap_header_set (duer_nsdl_header_set m) =
     m\<lparr>m_token_len := of_nat (unat (m_token_len m) mod 256),
       m_query := (if 0 < m_query_len m then m_query m else None),
       m_query_len := (if m_query m = None then 0 else m_query_len m)\<rparr>"
proof -
  have "unat (ucast (ucast (n :: u16) :: byte) :: u16) = unat (of_nat (unat n mod 256) :: u16)" for n
    by (simp add: unat_of_nat unsigned_ucast_eq take_bit_eq_mod unat_mod_distrib)
  then have "(ucast (ucast (n :: u16) :: byte) :: u16) = of_nat (unat n mod 256)" for n
    by (simp only: word_unat_eq_iff)
  then show ?thesis
    by (cases m) (auto simp: duer_coap_header_set_def duer_nsdl_header_set_def msg_zero_def
        word_gt_0)
qed

text \<open>C18: The list of dynamic resources is a map from path keys to handlers: over any sequence of
  additions and removals, whatever allocations fail, the handler found for a key is the one of a map
  in which an addition of a present key or without memory changes nothing, every call succeeds
  exactly when it does on the map, and no key is in the list twice.\<close>

theorem dynamic_resources_map:
  assumes "dyn_inv (co_list co)" "res_calls sg cs co w = (rss, co', w')"
  shows "dyn_inv (co_list co') \<and>
     (\<exists>oks. op_run map_op (map (res_table_op sg (co_self co)) cs) (dyn_lookup (co_list co)) (w_mem w) =
         (oks, dyn_lookup (co_list co'), w_mem w') \<and> rss = map status_of oks)"
proof -
  obtain oks l mem where r: "op_run (table_op dyn_lookup dyn_insert dyn_delete)
      (map (res_table_op sg (co_self co)) cs) (co_list co) (w_mem w) = (oks, l, mem)" by (rule prod_cases3)
  from dyn.run_refines [OF assms(1) r] res_calls_table [OF r] assms(2) show ?thesis by auto
qed

text \<open>Two paths are added, the first twice, without memory for the second, and the first is removed.\<close>

theorem dynamic_resources_map_witness:
  "\<exists>co' w'. res_calls True
     [Inl \<lparr>rs_mode = ResDynamic, rs_allowed = 1, rs_path = [47, 97], rs_handler = 5, rs_data = []\<rparr>,
      Inl \<lparr>rs_mode = ResDynamic, rs_allowed = 1, rs_path = [97], rs_handler = 6, rs_data = []\<rparr>,
      Inl \<lparr>rs_mode = ResDynamic, rs_allowed = 1, rs_path = [98], rs_handler = 7, rs_data = []\<rparr>,
      Inr [97]]
     \<lparr>co_self = 4096, co_retval = 0, co_trans = None, co_nsdl = Some (1, ()), co_list = [],
      co_result = True, co_remote = remote_zero, co_key_info = None\<rparr> (quiet_world\<lparr>w_mem := [True, False]\<rparr>)
       = ([DUER_OK, DUER_ERR_FAILED, DUER_ERR_FAILED, DUER_OK], co', w') \<and> dyn_inv (co_list co')"
proof -
  let ?cs = "[Inl \<lparr>rs_mode = ResDynamic, rs_allowed = 1, rs_path = [47, 97], rs_handler = 5, rs_data = []\<rparr>,
      Inl \<lparr>rs_mode = ResDynamic, rs_allowed = 1, rs_path = [97], rs_handler = 6, rs_data = []\<rparr>,
      Inl \<lparr>rs_mode = ResDynamic, rs_allowed = 1, rs_path = [98], rs_handler = 7, rs_data = []\<rparr>,
      Inr [97]]"
  let ?co = "\<lparr>co_self = 4096, co_retval = 0, co_trans = None, co_nsdl = Some (1, ()), co_list = [],
      co_result = True, co_remote = remote_zero, co_key_info = None\<rparr>"
  obtain rss co' w' where r: "res_calls True ?cs ?co (quiet_world\<lparr>w_mem := [True, False]\<rparr>) = (rss, co', w')"
    by (rule prod_cases3)
  have k: "path_key True 4096 [98] \<noteq> path_key True 4096 [97]"
    by (simp add: path_key_def) (code_simp)
  from dynamic_resources_map [OF _ r] obtain oks
    where "dyn_inv (co_list co')" "rss = map status_of oks"
      "op_run map_op (map (res_table_op True 4096) ?cs) (dyn_lookup []) [True, False] =
         (oks, dyn_lookup (co_list co'), w_mem w')"
    by (auto simp: dyn_inv_def)
  with k r show ?thesis
    by (auto simp: res_table_op_def duer_coap_convert_path_def status_of_def split: if_splits)
qed

text \<open>A request for the path under which a resource was added, with or without the leading
  slash, is handed to that resource's handler with the protocol of the connection.\<close>

theorem dynamic_resource_dispatch:
  assumes "duer_coap_dynamic_resource_add (e_sg e) co r w = (DUER_OK, co', w')"
    and "co_nsdl co = Some (h, n)" "duer_coap_nsdl_get h v = Some (co_self co)"
    and "h_path hdr = Some (duer_coap_convert_path (rs_path r))"
    and "unat (h_path_len hdr) = length (duer_coap_convert_path (rs_path r))"
  shows "duer_coap_dyn_res_callback e co' hdr a v =
     [EvResource (rs_handler r) (duer_coap_header_set hdr)
        ((duer_coap_address_set a)\<lparr>na_type := na_type (co_remote co)\<rparr>)]"
  using assms
  by (auto simp: duer_coap_dynamic_resource_add_def Let_def duer_coap_dyn_res_callback_def path_key_def
        split: if_splits)

theorem dynamic_resource_dispatch_witness:
  "\<exists>co'. duer_coap_dyn_res_callback
     \<lparr>e_le = True, e_sg = True, e_crypt = mask_cipher,
      e_nsdl = \<lparr>ns_init = Some (1, ()), ns_send = \<lambda>n a h. (None, \<lambda>ok. (0, n)),
        ns_process = \<lambda>n bs a. ([], 0, n), ns_create_resource = \<lambda>n i. (True, n),
        ns_delete_resource = \<lambda>n p. (True, n), ns_exec = \<lambda>n t. ([], n)\<rparr>\<rparr> co'
     (duer_nsdl_header_set (msg_zero\<lparr>m_path := Some [97], m_path_len := 1\<rparr>))
     (duer_nsdl_address_set remote_zero) (quiet_world\<lparr>w_nsdl_map := [(4096, 1)]\<rparr>) =
     [EvResource 5 (msg_zero\<lparr>m_path := Some [97], m_path_len := 1\<rparr>)
        ((duer_coap_address_set (duer_nsdl_address_set remote_zero))\<lparr>na_type := 0\<rparr>)]"
proof -
  let ?e = "\<lparr>e_le = True, e_sg = True, e_crypt = mask_cipher,
      e_nsdl = \<lparr>ns_init = Some (1, ()), ns_send = \<lambda>n a h. (None, \<lambda>ok. (0, n)),
        ns_process = \<lambda>n bs a. ([], 0, n), ns_create_resource = \<lambda>n i. (True, n),
        ns_delete_resource = \<lambda>n p. (True, n), ns_exec = \<lambda>n t. ([], n)\<rparr>\<rparr>"
  let ?co = "\<lparr>co_self = 4096, co_retval = 0, co_trans = None, co_nsdl = Some (1, ()), co_list = [],
      co_result = True, co_remote = remote_zero, co_key_info = None\<rparr>"
  let ?r = "\<lparr>rs_mode = ResDynamic, rs_allowed = 1, rs_path = [47, 97], rs_handler = 5, rs_data = []\<rparr>"
  let ?hdr = "duer_nsdl_header_set (msg_zero\<lparr>m_path := Some [97], m_path_len := 1\<rparr>)"
  obtain co' w' where "duer_coap_dynamic_resource_add (e_sg ?e) ?co ?r quiet_world = (DUER_OK, co', w')"
    by (simp add: duer_coap_dynamic_resource_add_def Let_def)
  from dynamic_resource_dispatch [OF this, of 1 "()" "quiet_world\<lparr>w_nsdl_map := [(4096, 1)]\<rparr>" ?hdr
      "duer_nsdl_address_set remote_zero"]
  show ?thesis
    by (auto simp: duer_coap_nsdl_get_def duer_coap_convert_path_def duer_nsdl_header_set_def msg_zero_def
          duer_coap_header_set_def remote_zero_def)
qed

text \<open>On a plain TCP connection a datagram of up to 2048 bytes that one context transmits is
  processed by the peer exactly as it was sent, whatever the byte orders of the two hosts.\<close>

theorem coap_plain_delivery:
  assumes "duer_coap_nsdl_get h w = Some (co_self co)" "co_nsdl co = Some (h, n)"
    and "na_type (co_remote co) = PROTO_TCP" "co_trans co = Some t" "\<not> duer_trans_is_encrypted (Some t)"
    and "f_send (w_soc w)" "w_mem w = []" "w_send w = [sr]"
    and "bs \<noteq> []" "length bs \<le> DUER_BUFFER_SIZE"
    and "na_type (co_remote peer) = PROTO_TCP" "co_trans peer = Some u" "\<not> duer_trans_is_encrypted (Some u)"
    and "f_recv (w_soc v)"
  shows "\<exists>wire w'. duer_coap_nsdl_tx e co bs w = Some (0 \<le> sr, co\<lparr>co_retval := sr\<rparr>, w') \<and>
     w_trace w' = w_trace w @ [NetSend wire sr] \<and>
     (w_recv v = [RecvData wire] \<longrightarrow>
        (\<exists>v'. duer_coap_data_available e' (Some peer) v = coap_deliver e' peer bs v' \<and> w_recv v' = []))"
proof -
  have fr: "coap_tx_frame le bs = coap_frame bs" for le
    using assms(10) by (intro coap_tx_frame_small) (simp add: DUER_BUFFER_SIZE_def)
  have "\<exists>v'. duer_coap_data_available e' (Some peer) v = coap_deliver e' peer bs v' \<and> w_recv v' = []"
    if "w_recv v = [RecvData (coap_frame bs)]"
    using plain_delivery [OF assms(9-14) that, of e'] by blast
  then show ?thesis using tx_plain [OF assms(1-8), of e bs] by (auto simp: fr)
qed

definition null_nsdl :: "unit nsdl_ops" where
  "null_nsdl = \<lparr>ns_init = Some (1, ()), ns_send = \<lambda>n a h. (Some [1, 2], \<lambda>ok. (if ok then 7 else - 2, n)),
     ns_process = \<lambda>n bs a. ([], 0, n), ns_create_resource = \<lambda>n i. (True, n),
     ns_delete_resource = \<lambda>n p. (True, n), ns_exec = \<lambda>n t. ([], n)\<rparr>"

definition null_env :: "unit env" where
  "null_env = \<lparr>e_le = True, e_sg = True, e_crypt = mask_cipher, e_nsdl = null_nsdl\<rparr>"

definition sample_coap :: "unit coap" where
  "sample_coap = \<lparr>co_self = 4096, co_retval = 0, co_trans = Some (trans_zero\<lparr>tr_ctx := True\<rparr>),
      co_nsdl = Some (1, ()), co_list = [], co_result = True, co_remote = remote_zero, co_key_info = None\<rparr>"

theorem coap_plain_delivery_witness:
  "\<exists>wire w'. duer_coap_nsdl_tx null_env sample_coap [1, 2, 3]
       (quiet_world\<lparr>w_nsdl_map := [(4096, 1)], w_send := [11]\<rparr>) =
         Some (True, sample_coap\<lparr>co_retval := 11\<rparr>, w') \<and> w_trace w' = [NetSend wire 11]"
  using coap_plain_delivery [of 1 "quiet_world\<lparr>w_nsdl_map := [(4096, 1)], w_send := [11]\<rparr>" sample_coap "()"
      "trans_zero\<lparr>tr_ctx := True\<rparr>" 11 "[1, 2, 3]" sample_coap "trans_zero\<lparr>tr_ctx := True\<rparr>" quiet_world
      null_env null_env]
  by (auto simp: sample_coap_def remote_zero_def duer_coap_nsdl_get_def DUER_BUFFER_SIZE_def
        duer_trans_is_encrypted_def trans_zero_def)


text \<open>C5: On an AES-CBC connection the same holds end to end: a datagram that one context transmits
  is processed by a peer with the same key, as long as the sealed frame fits the receive buffer (at
  most 2056 bytes with its header), the key id has fewer than 256 bytes, no allocation of the sender
  fails and the frame arrives as one piece.\<close>

theorem coap_secure_delivery:
  assumes "cipher_ok (e_crypt e)" "ctx_ok ctx" "e_crypt e' = e_crypt e" "length k < 256" "bs \<noteq> []"
    and "9 + length k + length (aes_pad (coap_frame bs)) \<le> 2056"
    and "duer_coap_nsdl_get h w = Some (co_self co)" "co_nsdl co = Some (h, n)"
    and "na_type (co_remote co) = PROTO_TCP" "co_trans co = Some s"
    and "duer_trans_is_encrypted (Some s)" "tr_secure s = Some ctx" "tr_key_info s = Some k"
    and "f_send (w_soc w)" "w_mem w = []" "w_send w = [sr]"
    and "na_type (co_remote peer) = PROTO_TCP" "co_trans peer = Some r"
    and "duer_trans_is_encrypted (Some r)" "tr_secure r = Some ctx" "tr_hdr_n r = 0" "tr_body_n r = 0"
    and "length (tr_hdr r) = 8" "length (tr_body r) = MAX_BODY_SIZE"
  shows "\<exists>wire w'. duer_coap_nsdl_tx e co bs w = Some (0 \<le> sr, co\<lparr>co_retval := sr\<rparr>, w') \<and>
     w_trace w' = w_trace w @ [NetSend wire sr] \<and>
     (\<forall>v. f_recv (w_soc v) \<and> w_recv v = [RecvData wire] \<longrightarrow>
        (\<exists>r' v'. duer_coap_data_available e' (Some peer) v =
             coap_deliver e' (peer\<lparr>co_trans := r'\<rparr>) bs v' \<and> w_recv v' = []))"
proof -
  have fr: "coap_tx_frame (e_le e) bs = coap_frame bs"
    using assms(6) aes_pad_length(2) [of "coap_frame bs"] by (intro coap_tx_frame_small) simp
  from aes_send_recv [OF assms(1,2,4,6,11-16,19-24), of "e_le e" "e_le e'"] obtain wire w'
    where snd: "duer_trans_send (e_le e) (e_crypt e) (Some s) (coap_frame bs) w = Some (sr, w')"
      "w_trace w' = w_trace w @ [NetSend wire sr]"
      and rcv: "\<And>v. f_recv (w_soc v) \<and> w_recv v = [RecvData wire] \<Longrightarrow> (\<exists>n r1 v1 r2 v2.
          duer_trans_recv (e_le e') (e_crypt e) (Some r) (replicate 8 0) v =
            Some (8, be32 COAP_TCP_HDR @ be32 (of_nat n), Some r1, v1) \<and>
          duer_trans_recv (e_le e') (e_crypt e) (Some r1) (replicate n 0) v1 =
            Some (int (length bs), bs @ replicate (n - length bs) 0, Some r2, v2) \<and>
          n \<le> MAX_BODY_SIZE \<and> tr_hdr_n r2 = 0 \<and> tr_body_n r2 = 0 \<and> w_recv v2 = [])"
    by blast
  have "duer_coap_nsdl_tx e co bs w = Some (0 \<le> sr, co\<lparr>co_retval := sr\<rparr>, w')"
    using tx_secure [OF assms(7,8,9,10,15)] snd(1) by (simp add: fr)
  moreover have "\<exists>r' v'. duer_coap_data_available e' (Some peer) v =
      coap_deliver e' (peer\<lparr>co_trans := r'\<rparr>) bs v' \<and> w_recv v' = []" if "f_recv (w_soc v) \<and> w_recv v = [RecvData wire]" for v
  proof -
    from rcv [OF that] obtain n r1 v1 r2 v2
      where 1: "duer_trans_recv (e_le e') (e_crypt e') (co_trans peer) (replicate 8 0) v =
          Some (8, be32 COAP_TCP_HDR @ be32 (of_nat n), Some r1, v1)"
        "duer_trans_recv (e_le e') (e_crypt e') (Some r1) (replicate n 0) v1 =
          Some (int (length bs), bs @ replicate (n - length bs) 0, Some r2, v2)"
        "n \<le> MAX_BODY_SIZE" "w_recv v2 = []"
      using assms(3,18) by auto
    have "n \<le> DUER_BUFFER_SIZE" using 1(3) by (simp add: MAX_BODY_SIZE_def DUER_BUFFER_SIZE_def)
    from data_available_deliver [OF assms(17) this 1(1,2) assms(5)] 1(4) show ?thesis by blast
  qed
  ultimately show ?thesis using snd(2) by blast
qed

theorem coap_secure_delivery_witness:
  "\<exists>wire w' r' v'. duer_coap_nsdl_tx null_env (sample_coap\<lparr>co_trans := Some sample_trans\<rparr>) [1, 2, 3]
       (quiet_world\<lparr>w_nsdl_map := [(4096, 1)], w_send := [43]\<rparr>) =
         Some (True, sample_coap\<lparr>co_trans := Some sample_trans, co_retval := 43\<rparr>, w') \<and>
     w_trace w' = [NetSend wire 43] \<and>
     duer_coap_data_available null_env (Some (sample_coap\<lparr>co_trans := Some sample_trans\<rparr>))
         (quiet_world\<lparr>w_recv := [RecvData wire]\<rparr>) =
       coap_deliver null_env (sample_coap\<lparr>co_trans := r'\<rparr>) [1, 2, 3] v'"
proof -
  let ?c = "sample_coap\<lparr>co_trans := Some sample_trans\<rparr>"
  let ?w = "quiet_world\<lparr>w_nsdl_map := [(4096, 1)], w_send := [43]\<rparr>"
  have "\<exists>wire w'. duer_coap_nsdl_tx null_env ?c [1, 2, 3] ?w = Some (0 \<le> (43::int), ?c\<lparr>co_retval := 43\<rparr>, w') \<and>
     w_trace w' = w_trace ?w @ [NetSend wire 43] \<and>
     (\<forall>v. f_recv (w_soc v) \<and> w_recv v = [RecvData wire] \<longrightarrow>
        (\<exists>r' v'. duer_coap_data_available null_env (Some ?c) v =
             coap_deliver null_env (?c\<lparr>co_trans := r'\<rparr>) [1, 2, 3] v' \<and> w_recv v' = []))"
    by (rule coap_secure_delivery [where k = "[1, 2]" and h = 1 and s = sample_trans and ctx = sample_ctx
          and r = sample_trans and n = "()"])
       (simp_all add: sample_coap_def remote_zero_def duer_coap_nsdl_get_def null_env_def mask_cipher_ok
          sample_ctx_ok aes_pad_def)
  then obtain wire w' where 1: "duer_coap_nsdl_tx null_env ?c [1, 2, 3] ?w =
        Some (True, ?c\<lparr>co_retval := 43\<rparr>, w')" "w_trace w' = [NetSend wire 43]"
    and 2: "\<And>v. f_recv (w_soc v) \<and> w_recv v = [RecvData wire] \<Longrightarrow>
        \<exists>r' v'. duer_coap_data_available null_env (Some ?c) v =
             coap_deliver null_env (?c\<lparr>co_trans := r'\<rparr>) [1, 2, 3] v' \<and> w_recv v' = []" by auto
  from 2 [of "quiet_world\<lparr>w_recv := [RecvData wire]\<rparr>"] obtain r' v'
    where "duer_coap_data_available null_env (Some ?c) (quiet_world\<lparr>w_recv := [RecvData wire]\<rparr>) =
       coap_deliver null_env (?c\<lparr>co_trans := r'\<rparr>) [1, 2, 3] v'" by auto
  with 1 show ?thesis by auto
qed

text \<open>Once a frame header that the CoAP layer refuses has been received on an AES-CBC connection,
  every later receive returns the same header again without reading the socket, so the connection
  makes no progress; the status is 8, which the callers take for success.\<close>

theorem coap_bad_header_sticks:
  assumes "na_type (co_remote co) = PROTO_TCP" "co_trans co = Some t" "duer_trans_is_encrypted (Some t)"
    and "tr_hdr_n t = 8" "length (tr_hdr t) = 8"
    and "duer_htonl (e_le e) (load32 (e_le e) (tr_hdr t)) \<noteq> COAP_TCP_HDR \<or>
         DUER_BUFFER_SIZE < unat (duer_htonl (e_le e) (load32 (e_le e) (drop 4 (tr_hdr t))))"
  shows "duer_coap_data_available e (Some co) w = Some (8, [], Some co, w)"
proof -
  have "co\<lparr>co_trans := Some t\<rparr> = co" using assms(2) by (cases co) simp
  moreover have "duer_trans_recv (e_le e) (e_crypt e) (Some t) (replicate 8 0) w =
      Some (8, tr_hdr t, Some t, w)"
    using assms(3-5)
    by (simp add: duer_trans_recv_def duer_trans_get_callbacks_def duer_trans_aes_cbc_encrypted_recv_def
          aes_recv_header_def SIZEOF_TCPHEADER_def memget_def)
  ultimately show ?thesis
    using assms(1,2,6) by (simp add: duer_coap_data_available_def duer_coap_recv_def Let_def)
qed

theorem coap_bad_header_sticks_witness:
  "duer_coap_data_available null_env (Some (sample_coap\<lparr>co_trans := Some (sample_trans\<lparr>tr_hdr :=
       be32 COAP_TCP_HDR @ be32 4000, tr_hdr_n := 8\<rparr>)\<rparr>)) quiet_world =
     Some (8, [], Some (sample_coap\<lparr>co_trans := Some (sample_trans\<lparr>tr_hdr :=
       be32 COAP_TCP_HDR @ be32 4000, tr_hdr_n := 8\<rparr>)\<rparr>), quiet_world)"
  by (rule coap_bad_header_sticks
        [where t = "sample_trans\<lparr>tr_hdr := be32 COAP_TCP_HDR @ be32 4000, tr_hdr_n := 8\<rparr>"])
     (simp_all add: sample_coap_def remote_zero_def duer_trans_is_encrypted_def sample_trans_def
        trans_zero_def null_env_def DUER_BUFFER_SIZE_def)

text \<open>The 8 bytes of the TCP header are added to a 16 bit size: a datagram of 65528 bytes or more
  goes out as fewer than 8 bytes, not even a whole header.\<close>

theorem coap_tx_size_wraps:
  assumes "65528 \<le> length bs" "length bs < 65536"
  shows "length (coap_tx_frame le bs) = length bs - 65528 \<and> length (coap_tx_frame le bs) < 8"
proof -
  have eq: "(of_nat (length bs) + 8 :: u16) = of_nat (length bs - 65528)"
  proof -
    have "(of_nat (length bs) :: u16) = of_nat (length bs - 65528) + of_nat 65528"
      using assms(1) by (metis le_add_diff_inverse2 of_nat_add)
    then show ?thesis by simp
  qed
  have "unat (of_nat (length bs) + 8 :: u16) = length bs - 65528"
    unfolding eq unat_of_nat take_bit_eq_mod using assms by simp
  then show ?thesis using assms by (auto simp: coap_tx_frame_def Let_def min_def)
qed

theorem coap_tx_size_wraps_witness: "length (coap_tx_frame True (replicate 65530 0)) = 2"
  using coap_tx_size_wraps [of "replicate 65530 0" True] by (simp del: replicate.simps)

text \<open>A context that has been acquired is the one the library's callbacks find, and releasing it
  takes exactly its own entry out of the map again.\<close>

theorem coap_acquire_release:
  assumes "duer_coap_acquire e self f_result key_info w = (Some co, w1)" "w_mem w = []"
    and "self \<notin> fst ` set (w_nsdl_map w)"
  shows "co_self co = self \<and>
     (\<exists>h n. co_nsdl co = Some (h, n) \<and> duer_coap_nsdl_get h w1 = Some self) \<and>
     w_nsdl_map (snd (duer_coap_release (Some co) w1)) = w_nsdl_map w"
proof -
  have acq: "w_nsdl_map (snd (duer_trans_acquire k v)) = w_nsdl_map v"
    "w_mem v = [] \<Longrightarrow> w_mem (snd (duer_trans_acquire k v)) = []"
    "w_mem v = [] \<Longrightarrow> fst (duer_trans_acquire k v) \<noteq> None" for k v
    by (auto simp: duer_trans_acquire_def duer_trans_wrapper_create_def soc_create_def Let_def w_log_def
          split: list.splits prod.splits if_splits)
  have rel: "w_nsdl_map (snd (duer_trans_release t v)) = w_nsdl_map v" for t v
    by (auto simp: duer_trans_release_def duer_trans_close_def duer_trans_aes_cbc_encrypted_close_def
          duer_trans_wrapper_close_def duer_trans_wrapper_destroy_def soc_close_def Let_def w_log_def
          split: list.split prod.split option.split trans_cbs.split)
  obtain t w2 where t: "duer_trans_acquire key_info (w\<lparr>w_mem := []\<rparr>) = (t, w2)"
    by (metis surj_pair)
  with acq [where k = key_info and v = "w\<lparr>w_mem := []\<rparr>"]
  have w2: "w_nsdl_map w2 = w_nsdl_map w" "w_mem w2 = []" "t \<noteq> None" by simp_all
  from assms(1,2) w2(2,3) obtain h n where "ns_init (e_nsdl e) = Some (h, n)"
    and co: "co_self co = self" "co_nsdl co = Some (h, n)"
    and w1: "w1 = w2\<lparr>w_mem := [], w_nsdl_map := (self, h) # w_nsdl_map w2\<rparr>"
    by (auto simp: duer_coap_acquire_def t Let_def duer_coap_nsdl_add_def split: option.splits)
  have "w_nsdl_map (snd (duer_coap_release (Some co) w1)) = w_nsdl_map w"
    using rel by (auto simp: duer_coap_release_def Let_def co w1 duer_coap_nsdl_del_def w2)
  then show ?thesis using co w1 by (simp add: duer_coap_nsdl_get_def)
qed

theorem coap_acquire_release_witness:
  "\<exists>co w1. duer_coap_acquire null_env 4096 True None quiet_world = (Some co, w1) \<and>
     w_nsdl_map (snd (duer_coap_release (Some co) w1)) = []"
proof -
  obtain co w1 where a: "duer_coap_acquire null_env 4096 True None quiet_world = (Some co, w1)"
    by (simp add: duer_coap_acquire_def null_env_def null_nsdl_def duer_trans_acquire_def Let_def
          duer_trans_wrapper_create_def soc_create_def quiet_world_def all_soc_ops_def)
  from coap_acquire_release [OF this] a show ?thesis by (auto simp: quiet_world_def)
qed

end
