(* ===== verification/Json.thy ===== *)
theory Json
  imports DuerPrelude
begin

text \<open>
  The part of \<^verbatim>\<open>external/baidu_json/baidu_json.c\<close> the SDK builds and reads its messages with: the
  tree, the constructors, adding to an object and looking up a member. A node has the fields of
  the C structure: its type, \<^verbatim>\<open>valuestring\<close> and \<^verbatim>\<open>valueint\<close>, and its children with their names,
  whatever the type. The numbers the SDK puts into messages are integers, so a node keeps
  \<^verbatim>\<open>valueint\<close> only. The parser and the printer are not modelled here; what uses them takes them as
  an argument.
\<close>

section \<open>The tree\<close>

datatype jtype = JFalse | JTrue | JNULL | JNumber | JString | JArray | JObject

datatype json =
  Json (jtype: jtype) (valuestring: "string option") (valueint: int)
       (children: "(string option \<times> json) list")

section \<open>Strings without case\<close>

definition tolower_code :: "char \<Rightarrow> nat" where
  "tolower_code c =
     (let n = of_char c in if 65 \<le> n \<and> n \<le> 90 then n + 32 else n)"

fun strcasecmp_chars :: "string \<Rightarrow> string \<Rightarrow> int" where
  "strcasecmp_chars [] [] = 0"
| "strcasecmp_chars (c # cs) [] = int (tolower_code c)"
| "strcasecmp_chars [] (d # ds) = - int (tolower_code d)"
| "strcasecmp_chars (c # cs) (d # ds) =
     (if tolower_code c = tolower_code d then strcasecmp_chars cs ds
      else int (tolower_code c) - int (tolower_code d))"

fun baidu_json_strcasecmp :: "string option \<Rightarrow> string option \<Rightarrow> int" where
  "baidu_json_strcasecmp None None = 0"
| "baidu_json_strcasecmp None (Some t) = 1"
| "baidu_json_strcasecmp (Some s) None = 1"
| "baidu_json_strcasecmp (Some s) (Some t) = strcasecmp_chars s t"

section \<open>Constructors\<close>

definition json_strdup :: "string \<Rightarrow> mem \<Rightarrow> string option \<times> mem" where
  "json_strdup s m = (let (ok, m1) = malloc_ok m in (if ok then Some s else None, m1))"

definition json_New_Item :: "jtype \<Rightarrow> int \<Rightarrow> mem \<Rightarrow> json option \<times> mem" where
  "json_New_Item t n m =
     (let (ok, m1) = malloc_ok m in (if ok then Some (Json t None n []) else None, m1))"

definition json_CreateObject :: "mem \<Rightarrow> json option \<times> mem" where
  "json_CreateObject m = json_New_Item JObject 0 m"

definition json_CreateArray :: "mem \<Rightarrow> json option \<times> mem" where
  "json_CreateArray m = json_New_Item JArray 0 m"

definition json_CreateNumber :: "int \<Rightarrow> mem \<Rightarrow> json option \<times> mem" where
  "json_CreateNumber n m = json_New_Item JNumber n m"

definition json_CreateBool :: "bool \<Rightarrow> mem \<Rightarrow> json option \<times> mem" where
  "json_CreateBool b m = json_New_Item (if b then JTrue else JFalse) 0 m"

definition json_CreateString :: "string \<Rightarrow> mem \<Rightarrow> json option \<times> mem" where
  "json_CreateString s m =
     (case json_New_Item JString 0 m of
        (None, m1) \<Rightarrow> (None, m1)
      | (Some it, m1) \<Rightarrow>
          (case json_strdup s m1 of
             (None, m2) \<Rightarrow> (None, m2)
           | (Some v, m2) \<Rightarrow> (Some (Json JString (Some v) 0 []), m2)))"

section \<open>Adding and looking up\<close>

text \<open>The name of a child is \<^verbatim>\<open>NULL\<close> when it could not be copied; the child is added all the same.\<close>

definition json_AddItemToArray :: "json \<Rightarrow> (string option \<times> json) option \<Rightarrow> json" where
  "json_AddItemToArray arr item =
     (case item of
        None \<Rightarrow> arr
      | Some it \<Rightarrow>
          Json (jtype arr) (valuestring arr) (valueint arr) (children arr @ [it]))"

definition json_AddItemToObject :: "json \<Rightarrow> string \<Rightarrow> json option \<Rightarrow> mem \<Rightarrow> json \<times> mem" where
  "json_AddItemToObject obj name item m =
     (case item of
        None \<Rightarrow> (obj, m)
      | Some it \<Rightarrow>
          (let (nm, m1) = json_strdup name m in (json_AddItemToArray obj (Some (nm, it)), m1)))"

definition json_AddItemToObjectCS :: "json \<Rightarrow> string \<Rightarrow> json option \<Rightarrow> json" where
  "json_AddItemToObjectCS obj name item =
     (case item of
        None \<Rightarrow> obj
      | Some it \<Rightarrow> json_AddItemToArray obj (Some (Some name, it)))"

text \<open>The reference is a new node that shares the item's fields and children.\<close>

definition json_AddItemReferenceToObject :: "json \<Rightarrow> string \<Rightarrow> json \<Rightarrow> mem \<Rightarrow> json \<times> mem" where
  "json_AddItemReferenceToObject obj name item m =
     (let (ok, m1) = malloc_ok m
      in json_AddItemToObject obj name (if ok then Some item else None) m1)"

definition json_AddStringToObject :: "json \<Rightarrow> string \<Rightarrow> string \<Rightarrow> mem \<Rightarrow> json \<times> mem" where
  "json_AddStringToObject obj name s m =
     (let (it, m1) = json_CreateString s m in json_AddItemToObject obj name it m1)"

definition json_AddNumberToObject :: "json \<Rightarrow> string \<Rightarrow> int \<Rightarrow> mem \<Rightarrow> json \<times> mem" where
  "json_AddNumberToObject obj name n m =
     (let (it, m1) = json_CreateNumber n m in json_AddItemToObject obj name it m1)"

definition json_AddBoolToObject :: "json \<Rightarrow> string \<Rightarrow> bool \<Rightarrow> mem \<Rightarrow> json \<times> mem" where
  "json_AddBoolToObject obj name b m =
     (let (it, m1) = json_CreateBool b m in json_AddItemToObject obj name it m1)"

fun json_find :: "(string option \<times> json) list \<Rightarrow> string \<Rightarrow> json option" where
  "json_find [] name = None"
| "json_find ((n, c) # cs) name =
     (if baidu_json_strcasecmp n (Some name) \<noteq> 0 then json_find cs name else Some c)"

definition json_GetObjectItem :: "json option \<Rightarrow> string \<Rightarrow> json option" where
  "json_GetObjectItem obj name =
     (case obj of None \<Rightarrow> None | Some j \<Rightarrow> json_find (children j) name)"

definition json_GetArraySize :: "json \<Rightarrow> nat" where
  "json_GetArraySize arr = length (children arr)"

fun json_nth :: "(string option \<times> json) list \<Rightarrow> nat \<Rightarrow> json option" where
  "json_nth [] n = None"
| "json_nth ((k, c) # cs) 0 = Some c"
| "json_nth ((k, c) # cs) (Suc n) = json_nth cs n"

definition json_GetArrayItem :: "json option \<Rightarrow> int \<Rightarrow> json option" where
  "json_GetArrayItem arr item =
     (case arr of None \<Rightarrow> None | Some j \<Rightarrow> json_nth (children j) (nat item))"

section \<open>Lemmas\<close>

text \<open>C strings hold no zero character.\<close>

definition no_nul :: "string \<Rightarrow> bool" where
  "no_nul s \<longleftrightarrow> list_all (\<lambda>c. tolower_code c \<noteq> 0) s"

definition same_name :: "string \<Rightarrow> string \<Rightarrow> bool" where
  "same_name s t \<longleftrightarrow> map tolower_code s = map tolower_code t"

lemma strcasecmp_chars_eq:
  "no_nul s \<Longrightarrow> no_nul t \<Longrightarrow> strcasecmp_chars s t = 0 \<longleftrightarrow> same_name s t"
  by (induction s t rule: strcasecmp_chars.induct) (auto simp: no_nul_def same_name_def)

lemma strcasecmp_chars_refl [simp]: "strcasecmp_chars s s = 0"
  by (induction s) auto

lemma json_find_append:
  "json_find (cs @ ds) name =
     (case json_find cs name of None \<Rightarrow> json_find ds name | Some c \<Rightarrow> Some c)"
  by (induction cs name rule: json_find.induct) auto

lemma json_AddItemToArray_sel [simp]:
  "children (json_AddItemToArray arr (Some it)) = children arr @ [it]"
  "jtype (json_AddItemToArray arr it') = jtype arr"
  "valuestring (json_AddItemToArray arr it') = valuestring arr"
  "json_AddItemToArray arr None = arr"
  by (auto simp: json_AddItemToArray_def split: option.split)

lemma malloc_ok_cases:
  obtains (ok) m' where "malloc_ok m = (True, m')" | (fail) m' where "malloc_ok m = (False, m')"
  by (metis (full_types) surj_pair)

section \<open>Properties\<close>

text \<open>After a member has been added to an object and its name could be copied, looking its name
  up, in any case of letters, gives the first member of that name, which is the new one when there
  was none; every other lookup is unchanged. When the copy of the name fails no lookup by name
  changes.\<close>

theorem json_lookup_after_add:
  assumes "no_nul name" "no_nul key"
  shows "json_GetObjectItem (Some (fst (json_AddItemToObject obj name (Some it) m))) key =
     (case json_GetObjectItem (Some obj) key of
        Some c \<Rightarrow> Some c
      | None \<Rightarrow> if fst (malloc_ok m) \<and> same_name name key then Some it else None)"
  using strcasecmp_chars_eq [OF assms]
  by (cases m rule: malloc_ok_cases)
     (auto simp: json_GetObjectItem_def json_AddItemToObject_def json_strdup_def json_find_append
       split: option.split)

theorem json_lookup_after_add_witness:
  "json_GetObjectItem (Some (fst (json_AddItemToObject (Json JObject None 0 []) ''UUID''
     (Some (Json JNumber None 7 [])) []))) ''uuid'' = Some (Json JNumber None 7 [])"
proof -
  have "no_nul ''UUID''" "no_nul ''uuid''" "same_name ''UUID'' ''uuid''"
    by (simp_all add: no_nul_def same_name_def tolower_code_def)
  with json_lookup_after_add [of "''UUID''" "''uuid''" "Json JObject None 0 []"
      "Json JNumber None 7 []" "[]"]
  show ?thesis by (simp add: json_GetObjectItem_def)
qed

end
