(* ===== verification/CaAgent.thy ===== *)
theory CaAgent
  imports Coap Json
begin

text \<open>
  \<^verbatim>\<open>modules/connagent/lightduer_ca.c\<close> and \<^verbatim>\<open>lightduer_ca_conf.c\<close>: the agent that reads the device's
  profile, walks through the start states until the service router has answered, and builds, sends
  and receives messages. The build is the default one, without \<^verbatim>\<open>DUER_LWM2M_REGISTER\<close> and
  \<^verbatim>\<open>DUER_UDP_REPORTER\<close>, with the AES-CBC transport.

  Printing and parsing JSON are the arguments \<open>sd_print\<close> and \<open>sd_parse\<close>; \<open>sd_coap_addr\<close> is the
  address \<^verbatim>\<open>DUER_MALLOC\<close> gives a CoAP context. \<^verbatim>\<open>uuid\<close>, \<^verbatim>\<open>token\<close>, \<^verbatim>\<open>bindToken\<close> and \<^verbatim>\<open>cert\<close> point
  into the parsed profile: such a pointer is the string with the number of the profile it belongs
  to, and reading it after that profile has been deleted is the fault \<open>None\<close>.

  The functions return the CoAP events in the order the library reported them. Those for the agent
  itself have been handled when they are returned. \<open>ca_response\<close> tells whether the application has
  set its response callback; the messages it was called with are logged in \<open>ca_responses\<close>.

  Two loops may not end: the one over the resources and the one of the start. In their results, and
  in those of the functions that run them, the outer \<open>None\<close> means that the code does not return and
  the inner one that it has no defined result. In the other functions \<open>None\<close> is the latter.
\<close>

section \<open>State\<close>

datatype ca_st =
    ST_STOPED | ST_UNREGISTERED | ST_REGISTER_CONNECTED | ST_REGISTERED | ST_SR_CONNECTING
  | ST_SR_DATA_SENDING | ST_SR_DATA_RECEIVING | ST_SR_INITIALIZED | ST_RPT_CONNECTED
  | ST_RPT_INITIALIZED | ST_STARTED | ST_REPORTING | ST_REPORTED | ST_REGISTER_FAIL

fun st_code :: "ca_st \<Rightarrow> nat" where
  "st_code ST_STOPED = 0"
| "st_code ST_UNREGISTERED = 1"
| "st_code ST_REGISTER_CONNECTED = 2"
| "st_code ST_REGISTERED = 3"
| "st_code ST_SR_CONNECTING = 4"
| "st_code ST_SR_DATA_SENDING = 5"
| "st_code ST_SR_DATA_RECEIVING = 6"
| "st_code ST_SR_INITIALIZED = 7"
| "st_code ST_RPT_CONNECTED = 8"
| "st_code ST_RPT_INITIALIZED = 9"
| "st_code ST_STARTED = 10"
| "st_code ST_REPORTING = 11"
| "st_code ST_REPORTED = 12"
| "st_code ST_REGISTER_FAIL = 13"

type_synonym conf_ptr = "(nat \<times> string) option"

record 'n ca =
  ca_state :: ca_st
  ca_conf :: "json option"
  ca_conf_no :: nat
  ca_uuid :: conf_ptr
  ca_token :: conf_ptr
  ca_bindToken :: conf_ptr
  ca_report_query :: "string option"
  ca_report_query_len :: nat
  ca_cert :: conf_ptr
  ca_cert_length :: nat
  ca_gen_token :: u16
  ca_sr :: "'n coap option"
  ca_res_list :: "res list option"
  ca_res_size :: nat
  ca_res_capa :: nat
  ca_response :: bool
  ca_responses :: "coap_msg list"
  ca_addr_sr :: netaddr
  ca_start_connect_time :: u32

record 'n sdk =
  sd_env :: "'n env"
  sd_print :: "json \<Rightarrow> string option"
  sd_parse :: "string \<Rightarrow> json option"
  sd_coap_addr :: addr

definition bytes_of :: "string \<Rightarrow> byte list" where
  "bytes_of s = map of_char s"

definition conf_deref :: "'n ca \<Rightarrow> conf_ptr \<Rightarrow> string option" where
  "conf_deref ca p =
     (case p of
        None \<Rightarrow> None
      | Some (no, s) \<Rightarrow> if ca_conf ca \<noteq> None \<and> no = ca_conf_no ca then Some s else None)"

definition duer_timestamp :: "world \<Rightarrow> u32 \<times> world" where
  "duer_timestamp w =
     (case w_clock w of [] \<Rightarrow> (0, w) | t # r \<Rightarrow> (t, w\<lparr>w_clock := r\<rparr>))"

section \<open>The profile\<close>

definition duer_conf_create :: "'n sdk \<Rightarrow> string \<Rightarrow> json option" where
  "duer_conf_create d data = sd_parse d data"

definition duer_conf_get_string :: "json option \<Rightarrow> string \<Rightarrow> string option" where
  "duer_conf_get_string conf key = Option.bind (json_GetObjectItem conf key) valuestring"

definition duer_conf_get_ushort :: "json option \<Rightarrow> string \<Rightarrow> u16" where
  "duer_conf_get_ushort conf key =
     (case json_GetObjectItem conf key of None \<Rightarrow> 0 | Some j \<Rightarrow> word_of_int (valueint j mod 65536))"

definition duer_conf_get_uint :: "json option \<Rightarrow> string \<Rightarrow> u32" where
  "duer_conf_get_uint conf key =
     (case json_GetObjectItem conf key of None \<Rightarrow> 0 | Some j \<Rightarrow> word_of_int (valueint j))"

definition ca_conf_get :: "'n ca \<Rightarrow> string \<Rightarrow> conf_ptr" where
  "ca_conf_get ca key = map_option (Pair (ca_conf_no ca)) (duer_conf_get_string (ca_conf ca) key)"

definition report_query_of :: "string \<Rightarrow> string \<Rightarrow> string" where
  "report_query_of uuid token = ''deviceUuid='' @ uuid @ ''&'' @ ''token='' @ token"

text \<open>
  \<^verbatim>\<open>baidu_ca_load_configuration\<close>: the fields are set one after the other, and a missing one ends the
  function with those before it already replaced.
\<close>

definition ca_load_query :: "string \<Rightarrow> string \<Rightarrow> 'n ca \<Rightarrow> world \<Rightarrow> status \<times> 'n ca \<times> world" where
  "ca_load_query uuid token ca w =
     (let q = report_query_of uuid token;
          (ok, w1) = w_malloc w
      in if ok
         then (DUER_OK, ca\<lparr>ca_report_query := Some q, ca_report_query_len := length q\<rparr>, w1)
         else (DUER_ERR_FAILED, ca\<lparr>ca_report_query := None, ca_report_query_len := length q\<rparr>, w1))"

definition ca_load_addr :: "'n ca \<Rightarrow> string \<Rightarrow> 'n ca" where
  "ca_load_addr ca host =
     ca\<lparr>ca_addr_sr := \<lparr>na_type = PROTO_TCP,
          na_port = duer_conf_get_ushort (ca_conf ca) ''coapPort'',
          na_host = Some (bytes_of host), na_host_size = length host\<rparr>\<rparr>"

definition baidu_ca_load_configuration ::
  "'n sdk \<Rightarrow> 'n ca option \<Rightarrow> string \<Rightarrow> world \<Rightarrow> (status \<times> 'n ca option \<times> world) option" where
  "baidu_ca_load_configuration d hdlr data w =
     (case hdlr of
        None \<Rightarrow> Some (DUER_ERR_FAILED, None, w)
      | Some ctx \<Rightarrow>
          (let ca0 = ctx\<lparr>ca_conf := duer_conf_create d data, ca_conf_no := ca_conf_no ctx + 1\<rparr>
           in if ca_conf ca0 = None then Some (DUER_ERR_FAILED, Some ca0, w)
              else
                (let ca1 = ca0\<lparr>ca_uuid := ca_conf_get ca0 ''uuid''\<rparr>
                 in case ca_uuid ca1 of
                      None \<Rightarrow> Some (DUER_ERR_FAILED, Some ca1, w)
                    | Some (no1, uuid) \<Rightarrow>
                        (let ca2 = ca1\<lparr>ca_token := ca_conf_get ca1 ''token''\<rparr>
                         in case ca_token ca2 of
                              None \<Rightarrow> Some (DUER_ERR_FAILED, Some ca2, w)
                            | Some (no2, token) \<Rightarrow>
                                (let ca3 = ca2\<lparr>ca_bindToken := ca_conf_get ca2 ''bindToken''\<rparr>
                                 in case ca_bindToken ca3 of
                                      None \<Rightarrow> Some (DUER_ERR_FAILED, Some ca3, w)
                                    | Some bt \<Rightarrow>
                                        (let ca4 = ca3\<lparr>ca_cert := ca_conf_get ca3 ''rsaCaCrt''\<rparr>
                                         in case ca_cert ca4 of
                                              None \<Rightarrow> Some (DUER_ERR_FAILED, Some ca4, w)
                                            | Some (no4, cert) \<Rightarrow>
                                                (let ca5 = ca4\<lparr>ca_cert_length := length cert + 1\<rparr>
                                                 in case duer_conf_get_string (ca_conf ca5) ''serverAddr'' of
                                                      None \<Rightarrow> Some (DUER_ERR_FAILED, Some ca5, w)
                                                    | Some host \<Rightarrow>
                                                        (case ca_load_query uuid token
                                                                (ca_load_addr ca5 host) w of
                                                           (rs, ca6, w1) \<Rightarrow> Some (rs, Some ca6, w1)))))))))"

section \<open>Resources\<close>

definition RES_INC_COUNT :: nat where "RES_INC_COUNT = 5"

text \<open>
  The loop over the resources counts in a \<^verbatim>\<open>duer_u8_t\<close>: with more than 255 of them it never ends.
  An element beyond the list, or any but the first of a \<^verbatim>\<open>NULL\<close> list, is a fault.
\<close>

definition ca_add_one ::
  "'n env \<Rightarrow> res list option \<Rightarrow> byte \<Rightarrow> 'n coap option \<Rightarrow> world \<Rightarrow> ('n coap option \<times> world) option" where
  "ca_add_one e l i sr w =
     (case l of
        None \<Rightarrow> if i = 0 then Some (sr, w) else None
      | Some rs \<Rightarrow>
          (if unat i < length rs
           then map_option (\<lambda>(st, sr1, w1). (sr1, w1)) (duer_coap_resource_add e sr (rs ! unat i) w)
           else None))"

partial_function (option) ca_add_loop ::
  "'n env \<Rightarrow> res list option \<Rightarrow> nat \<Rightarrow> byte \<Rightarrow> 'n coap option \<Rightarrow> world
     \<Rightarrow> ('n coap option \<times> world) option option" where
  "ca_add_loop e l n i sr w =
     (if unat i < n then
        (case ca_add_one e l i sr w of
           None \<Rightarrow> Some None
         | Some (sr1, w1) \<Rightarrow> ca_add_loop e l n (i + 1) sr1 w1)
      else Some (Some (sr, w)))"

definition baidu_ca_add_resources ::
  "'n sdk \<Rightarrow> 'n ca \<Rightarrow> res list option \<Rightarrow> nat \<Rightarrow> world \<Rightarrow> (status \<times> 'n ca \<times> world) option option" where
  "baidu_ca_add_resources d ctx l n w =
     (if st_code ST_SR_INITIALIZED \<le> st_code (ca_state ctx) then
        (case ca_add_loop (sd_env d) l n 0 (ca_sr ctx) w of
           None \<Rightarrow> None
         | Some None \<Rightarrow> Some None
         | Some (Some (sr1, w1)) \<Rightarrow> Some (Some (DUER_OK, ctx\<lparr>ca_sr := sr1\<rparr>, w1)))
      else
        (let (ctx1, w1) =
               (if ca_res_list ctx = None then
                  (let (ok, w1) = w_malloc w
                   in (ctx\<lparr>ca_res_capa := (n div RES_INC_COUNT + 1) * RES_INC_COUNT,
                           ca_res_list := (if ok then Some [] else None), ca_res_size := 0\<rparr>, w1))
                else if ca_res_capa ctx < ca_res_size ctx + n then
                  (let (ok, w1) = w_malloc w
                   in (ctx\<lparr>ca_res_capa := ((ca_res_size ctx + n) div RES_INC_COUNT + 1) * RES_INC_COUNT,
                           ca_res_list := (if ok then ca_res_list ctx else None)\<rparr>, w1))
                else (ctx, w))
         in case ca_res_list ctx1 of
              None \<Rightarrow> Some (Some (DUER_ERR_FAILED, ctx1, w1))
            | Some old \<Rightarrow>
                (case (if n = 0 then Some [] else Option.bind l (\<lambda>rs. if n \<le> length rs then Some (take n rs) else None)) of
                   None \<Rightarrow> Some None
                 | Some new \<Rightarrow>
                     Some (Some (DUER_OK,
                       ctx1\<lparr>ca_res_list := Some (take (ca_res_size ctx1) old @ new),
                            ca_res_size := ca_res_size ctx1 + n\<rparr>, w1)))))"

section \<open>Starting\<close>

definition duer_engine_coap_handler :: "coap_msg \<Rightarrow> 'n ca \<Rightarrow> 'n ca" where
  "duer_engine_coap_handler msg ca =
     (let ca1 = (if ca_state ca = ST_SR_DATA_RECEIVING
                 then ca\<lparr>ca_state := (if m_code msg = MSG_RSP_CONTENT then ST_SR_INITIALIZED
                                      else ST_REGISTER_FAIL)\<rparr>
                 else ca)
      in if ca_response ca1 then ca1\<lparr>ca_responses := ca_responses ca1 @ [msg]\<rparr> else ca1)"

fun ca_handle :: "coap_event list \<Rightarrow> 'n ca \<Rightarrow> 'n ca" where
  "ca_handle [] ca = ca"
| "ca_handle (EvResult m a # evs) ca = ca_handle evs (duer_engine_coap_handler m ca)"
| "ca_handle (EvResource f m a # evs) ca = ca_handle evs ca"

definition baidu_ca_get_service_router_payload ::
  "'n sdk \<Rightarrow> string \<Rightarrow> string \<Rightarrow> world \<Rightarrow> string option \<times> world" where
  "baidu_ca_get_service_router_payload d uuid token w =
     (case json_CreateObject (w_mem w) of
        (None, m1) \<Rightarrow> (None, w\<lparr>w_mem := m1\<rparr>)
      | (Some item, m1) \<Rightarrow>
          (let (item1, m2) = json_AddStringToObject item ''deviceUUID'' uuid m1;
               (item2, m3) = json_AddStringToObject item1 ''token'' token m2
           in (sd_print d item2, w\<lparr>w_mem := m3\<rparr>)))"

text \<open>The connect statistics, kept in static variables of unsigned type.\<close>

definition ca_record_connect :: "u32 \<Rightarrow> world \<Rightarrow> world" where
  "ca_record_connect cost w =
     (case w_stat w of
        (mx, cnt, tot) \<Rightarrow> w\<lparr>w_stat := (if mx < cost then cost else mx, cnt + 1, tot + cost)\<rparr>)"

definition ca_sr_connect :: "'n ca \<Rightarrow> world \<Rightarrow> (status \<times> 'n ca \<times> world) option" where
  "ca_sr_connect ctx w =
     (let (ctx1, w1) =
            (if ca_start_connect_time ctx = 0
             then (let (t, w1) = duer_timestamp w in (ctx\<lparr>ca_start_connect_time := t\<rparr>, w1))
             else (ctx, w))
      in case conf_deref ctx1 (ca_bindToken ctx1) of
           None \<Rightarrow> None
         | Some bt \<Rightarrow>
             (case duer_coap_connect (ca_sr ctx1) (Some (ca_addr_sr ctx1)) (bytes_of bt) w1 of
                None \<Rightarrow> None
              | Some (rs, sr1, w2) \<Rightarrow>
                  (let ctx2 = ctx1\<lparr>ca_sr := sr1\<rparr>
                   in if rs = DUER_OK
                      then (let (t_end, w3) = duer_timestamp w2
                            in Some (rs, ctx2\<lparr>ca_state := ST_SR_DATA_SENDING, ca_start_connect_time := 0\<rparr>,
                                     ca_record_connect (t_end - ca_start_connect_time ctx2) w3))
                      else Some (rs, ctx2, w2))))"

definition ca_sr_send :: "'n sdk \<Rightarrow> 'n ca \<Rightarrow> world \<Rightarrow> (status \<times> 'n ca \<times> world) option" where
  "ca_sr_send d ctx w =
     (case (conf_deref ctx (ca_uuid ctx), conf_deref ctx (ca_token ctx)) of
        (Some uuid, Some token) \<Rightarrow>
          (case baidu_ca_get_service_router_payload d uuid token w of
             (None, w1) \<Rightarrow> None
           | (Some payload, w1) \<Rightarrow>
               (let msg = msg_zero\<lparr>m_type := MSG_TYPE_CONFIRMABLE, m_code := MSG_REQ_POST,
                            m_path := Some (bytes_of ''reg_for_control''),
                            m_path_len := of_nat (length ''reg_for_control''),
                            m_payload := Some (bytes_of payload), m_payload_len := of_nat (length payload)\<rparr>
                in case duer_coap_send (sd_env d) (ca_sr ctx) msg w1 of
                     None \<Rightarrow> None
                   | Some (rs, sr1, w2) \<Rightarrow>
                       Some (rs, ctx\<lparr>ca_sr := sr1,
                              ca_state := (if rs < DUER_OK then ca_state ctx else ST_SR_DATA_RECEIVING)\<rparr>, w2)))
      | _ \<Rightarrow> None)"

definition ca_sr_receive ::
  "'n sdk \<Rightarrow> 'n ca \<Rightarrow> world \<Rightarrow> (status \<times> coap_event list \<times> 'n ca \<times> world) option" where
  "ca_sr_receive d ctx w =
     (case duer_coap_data_available (sd_env d) (ca_sr ctx) w of
        None \<Rightarrow> None
      | Some (rs, evs, sr1, w1) \<Rightarrow> Some (rs, evs, ca_handle evs (ctx\<lparr>ca_sr := sr1\<rparr>), w1))"

definition ca_sr_finish ::
  "'n sdk \<Rightarrow> status \<Rightarrow> 'n ca \<Rightarrow> world \<Rightarrow> (status \<times> 'n ca \<times> world) option option" where
  "ca_sr_finish d rs ctx w =
     (if ca_state ctx = ST_SR_INITIALIZED then
        (case baidu_ca_add_resources d ctx (ca_res_list ctx) (ca_res_size ctx) w of
           None \<Rightarrow> None
         | Some None \<Rightarrow> Some None
         | Some (Some (rs1, ctx1, w1)) \<Rightarrow>
             Some (Some (rs, (if ca_res_list ctx1 \<noteq> None
                        then ctx1\<lparr>ca_res_list := None, ca_res_size := 0, ca_res_capa := 0\<rparr> else ctx1), w1)))
      else Some (Some (if ca_state ctx = ST_REGISTER_FAIL then DUER_ERR_REG_FAIL else rs, ctx, w)))"

definition ca_sr_acquire :: "'n sdk \<Rightarrow> 'n ca \<Rightarrow> world \<Rightarrow> 'n ca \<times> world" where
  "ca_sr_acquire d ctx w =
     (if ca_sr ctx \<noteq> None then (ctx, w)
      else
        (let (sr, w1) = duer_coap_acquire (sd_env d) (sd_coap_addr d) True
                          (map_option (bytes_of \<circ> snd) (ca_uuid ctx)) w
         in (ctx\<lparr>ca_sr := sr\<rparr>, w1)))"

text \<open>
  \<^verbatim>\<open>baidu_ca_create_service_router\<close>: connect, send the registration, receive the answer, each step if
  the state then calls for it; a failed send or receive ends the function.
\<close>

type_synonym 'n ca_result = "(status \<times> coap_event list \<times> 'n ca \<times> world) option"

definition baidu_ca_create_service_router :: "'n sdk \<Rightarrow> 'n ca \<Rightarrow> world \<Rightarrow> 'n ca_result option" where
  "baidu_ca_create_service_router d ctx w =
     (let (ctx0, w0) = ca_sr_acquire d ctx w
      in if ca_sr ctx0 = None then Some (Some (DUER_ERR_FAILED, [], ctx0, w0))
         else
           (case (if ca_state ctx0 = ST_SR_CONNECTING then ca_sr_connect ctx0 w0
                  else Some (DUER_ERR_FAILED, ctx0, w0)) of
              None \<Rightarrow> Some None
            | Some (rs1, ctx1, w1) \<Rightarrow>
                (case (if ca_state ctx1 = ST_SR_DATA_SENDING then ca_sr_send d ctx1 w1
                       else Some (rs1, ctx1, w1)) of
                   None \<Rightarrow> Some None
                 | Some (rs2, ctx2, w2) \<Rightarrow>
                     (if ca_state ctx1 = ST_SR_DATA_SENDING \<and> rs2 < DUER_OK
                      then Some (Some (rs2, [], ctx2, w2))
                      else
                        (case (if ca_state ctx2 = ST_SR_DATA_RECEIVING then ca_sr_receive d ctx2 w2
                               else Some (rs2, [], ctx2, w2)) of
                           None \<Rightarrow> Some None
                         | Some (rs3, evs, ctx3, w3) \<Rightarrow>
                             (if ca_state ctx2 = ST_SR_DATA_RECEIVING \<and> rs3 < DUER_OK
                              then Some (Some (rs3, evs, ctx3, w3))
                              else
                                (case ca_sr_finish d rs3 ctx3 w3 of
                                   None \<Rightarrow> None
                                 | Some None \<Rightarrow> Some None
                                 | Some (Some (rs4, ctx4, w4)) \<Rightarrow> Some (Some (rs4, evs, ctx4, w4)))))))))"

definition baidu_ca_run :: "'n sdk \<Rightarrow> 'n ca \<Rightarrow> world \<Rightarrow> 'n ca_result option" where
  "baidu_ca_run d ctx w =
     (case ca_state ctx of
        ST_UNREGISTERED \<Rightarrow> Some (Some (DUER_OK, [], ctx\<lparr>ca_state := ST_REGISTER_CONNECTED\<rparr>, w))
      | ST_REGISTER_CONNECTED \<Rightarrow> Some (Some (DUER_OK, [], ctx\<lparr>ca_state := ST_REGISTERED\<rparr>, w))
      | ST_REGISTERED \<Rightarrow> Some (Some (DUER_OK, [], ctx\<lparr>ca_state := ST_SR_CONNECTING\<rparr>, w))
      | ST_SR_CONNECTING \<Rightarrow> baidu_ca_create_service_router d ctx w
      | ST_SR_DATA_SENDING \<Rightarrow> baidu_ca_create_service_router d ctx w
      | ST_SR_DATA_RECEIVING \<Rightarrow> baidu_ca_create_service_router d ctx w
      | ST_SR_INITIALIZED \<Rightarrow> Some (Some (DUER_OK, [], ctx\<lparr>ca_state := ST_STARTED\<rparr>, w))
      | ST_RPT_INITIALIZED \<Rightarrow> Some (Some (DUER_OK, [], ctx\<lparr>ca_state := ST_STARTED\<rparr>, w))
      | ST_STOPED \<Rightarrow> Some (Some (DUER_ERR_FAILED, [], ctx, w))
      | ST_STARTED \<Rightarrow> Some (Some (DUER_OK, [], ctx, w))
      | _ \<Rightarrow> Some (Some (DUER_ERR_FAILED, [], ctx, w)))"


text \<open>The loop of \<^verbatim>\<open>baidu_ca_do_start\<close>.\<close>

partial_function (option) ca_start_loop ::
  "'n sdk \<Rightarrow> status \<Rightarrow> coap_event list \<Rightarrow> 'n ca \<Rightarrow> world \<Rightarrow> 'n ca_result option" where
  "ca_start_loop d rs evs ctx w =
     (if ca_state ctx \<noteq> ST_STARTED \<and> rs = DUER_OK then
        (case baidu_ca_run d ctx w of
           None \<Rightarrow> None
         | Some None \<Rightarrow> Some None
         | Some (Some (rs1, evs1, ctx1, w1)) \<Rightarrow> ca_start_loop d rs1 (evs @ evs1) ctx1 w1)
      else Some (Some (rs, evs, ctx, w)))"

definition baidu_ca_do_start :: "'n sdk \<Rightarrow> 'n ca \<Rightarrow> world \<Rightarrow> 'n ca_result option" where
  "baidu_ca_do_start d ctx w = ca_start_loop d DUER_OK [] ctx w"

definition baidu_ca_start :: "'n sdk \<Rightarrow> 'n ca \<Rightarrow> world \<Rightarrow> 'n ca_result option" where
  "baidu_ca_start d ctx w =
     (let ctx1 = (if ca_state ctx = ST_STOPED then ctx\<lparr>ca_state := ST_UNREGISTERED\<rparr> else ctx)
      in if ca_state ctx1 = ST_REGISTER_FAIL then Some (Some (DUER_ERR_REG_FAIL, [], ctx1, w))
         else baidu_ca_do_start d ctx1 w)"

definition baidu_ca_is_started :: "'n ca option \<Rightarrow> bool" where
  "baidu_ca_is_started hdlr =
     (case hdlr of None \<Rightarrow> False | Some ctx \<Rightarrow> st_code ST_STARTED \<le> st_code (ca_state ctx))"

definition baidu_ca_is_stopped :: "'n ca option \<Rightarrow> bool" where
  "baidu_ca_is_stopped hdlr =
     (case hdlr of None \<Rightarrow> True | Some ctx \<Rightarrow> ca_state ctx = ST_STOPED)"

definition baidu_ca_report_set_response_callback :: "'n ca option \<Rightarrow> bool \<Rightarrow> status \<times> 'n ca option" where
  "baidu_ca_report_set_response_callback hdlr f =
     (case hdlr of None \<Rightarrow> (DUER_ERR_FAILED, None) | Some ctx \<Rightarrow> (DUER_OK, Some (ctx\<lparr>ca_response := f\<rparr>)))"

section \<open>Messages\<close>

text \<open>The token is the two bytes of \<^verbatim>\<open>gen_token\<close> as they lie in memory.\<close>

definition baidu_ca_build_report_message ::
  "bool \<Rightarrow> 'n ca option \<Rightarrow> bool \<Rightarrow> world \<Rightarrow> coap_msg option \<times> 'n ca option \<times> world" where
  "baidu_ca_build_report_message le hdlr confirmable w =
     (let (ok, w1) = w_malloc w
      in case hdlr of
           None \<Rightarrow> (None, None, w1)
         | Some ctx \<Rightarrow>
             (if \<not> ok then (None, Some ctx, w1)
              else
                (let (ok2, w2) = w_malloc w1;
                     msg = msg_zero\<lparr>
                       m_type := (if confirmable then MSG_TYPE_CONFIRMABLE else MSG_TYPE_NON_CONFIRMABLE),
                       m_code := MSG_REQ_POST,
                       m_path := Some (bytes_of ''v1/device/data''),
                       m_path_len := of_nat (length ''v1/device/data''),
                       m_query := map_option bytes_of (ca_report_query ctx),
                       m_query_len := of_nat (ca_report_query_len ctx),
                       m_token_len := 2,
                       m_token := (if ok2 then Some (store16 le (ca_gen_token ctx)) else None)\<rparr>
                 in (Some msg, Some (ctx\<lparr>ca_gen_token := ca_gen_token ctx + 1\<rparr>), w2))))"

definition baidu_ca_build_response_message ::
  "'n ca option \<Rightarrow> coap_msg option \<Rightarrow> byte \<Rightarrow> world \<Rightarrow> (coap_msg option \<times> world) option" where
  "baidu_ca_build_response_message hdlr msg code w =
     (let (ok, w1) = w_malloc w
      in case (hdlr, msg) of
           (Some ctx, Some m) \<Rightarrow>
             (if \<not> ok then Some (None, w1)
              else
                (let rs = (if m_type m = MSG_TYPE_CONFIRMABLE
                           then msg_zero\<lparr>m_type := MSG_TYPE_ACKNOWLEDGEMENT, m_id := m_id m\<rparr>
                           else msg_zero\<lparr>m_type := m_type m\<rparr>)\<lparr>m_code := code\<rparr>
                 in if 0 < m_token_len m \<and> m_token m \<noteq> None
                    then (let (ok2, w2) = w_malloc w1
                          in if \<not> ok2 then Some (None, w2)
                             else
                               (case memget 0 (unat (m_token_len m)) (the (m_token m)) of
                                  None \<Rightarrow> None
                                | Some tok \<Rightarrow>
                                    Some (Some (rs\<lparr>m_token_len := m_token_len m, m_token := Some tok\<rparr>), w2)))
                    else Some (Some rs, w1)))
         | _ \<Rightarrow> Some (None, w1))"

text \<open>
  \<^verbatim>\<open>baidu_ca_release_message\<close> frees a message with its token; messages are values here, so what is
  left of one is nothing.
\<close>

definition baidu_ca_release_message :: "coap_msg option \<Rightarrow> coap_msg option" where
  "baidu_ca_release_message msg = None"

section \<open>Running\<close>

definition baidu_ca_send_data ::
  "'n sdk \<Rightarrow> 'n ca \<Rightarrow> coap_msg \<Rightarrow> world \<Rightarrow> (status \<times> 'n ca \<times> world) option" where
  "baidu_ca_send_data d ctx msg w =
     (case duer_coap_send (sd_env d) (ca_sr ctx) msg w of
        None \<Rightarrow> None
      | Some (rs, sr1, w1) \<Rightarrow> Some (rs, ctx\<lparr>ca_sr := sr1\<rparr>, w1))"

definition baidu_ca_data_available :: "'n sdk \<Rightarrow> 'n ca \<Rightarrow> world \<Rightarrow> 'n ca_result option" where
  "baidu_ca_data_available d ctx w =
     (case (if st_code ST_SR_INITIALIZED \<le> st_code (ca_state ctx) then ca_sr_receive d ctx w
            else Some (DUER_ERR_FAILED, [], ctx, w)) of
        None \<Rightarrow> Some None
      | Some (rs, evs, ctx1, w1) \<Rightarrow>
          (if st_code (ca_state ctx1) < st_code ST_STARTED
           then map_option (map_option (\<lambda>(rs2, evs2, r). (rs2, evs @ evs2, r))) (baidu_ca_do_start d ctx1 w1)
           else Some (Some (rs, evs, ctx1, w1))))"

definition baidu_ca_exec ::
  "'n sdk \<Rightarrow> 'n ca option \<Rightarrow> world \<Rightarrow> (status \<times> coap_event list \<times> 'n ca option \<times> world) option" where
  "baidu_ca_exec d hdlr w =
     (let (t, w1) = duer_timestamp w
      in case hdlr of
           None \<Rightarrow> Some (DUER_OK, [], None, w1)
         | Some ctx \<Rightarrow>
             (case duer_coap_exec (sd_env d) (ca_sr ctx) (t div 1000) w1 of
                None \<Rightarrow> None
              | Some (rs, evs, sr1, w2) \<Rightarrow>
                  Some (DUER_OK, evs, Some (ca_handle evs (ctx\<lparr>ca_sr := sr1\<rparr>)), w2)))"

section \<open>Life cycle\<close>

definition baidu_ca_acquire :: "world \<Rightarrow> 'n ca option \<times> world" where
  "baidu_ca_acquire w =
     (let (ok, w1) = w_malloc w
      in (if ok
          then Some \<lparr>ca_state = ST_STOPED, ca_conf = None, ca_conf_no = 0, ca_uuid = None,
                 ca_token = None, ca_bindToken = None, ca_report_query = None,
                 ca_report_query_len = 0, ca_cert = None, ca_cert_length = 0,
                 ca_gen_token = 0xC000, ca_sr = None, ca_res_list = None, ca_res_size = 0,
                 ca_res_capa = 0, ca_response = False, ca_responses = [], ca_addr_sr = remote_zero,
                 ca_start_connect_time = 0\<rparr>
          else None, w1))"

definition baidu_ca_stop :: "'n ca \<Rightarrow> world \<Rightarrow> status \<times> 'n ca \<times> world" where
  "baidu_ca_stop ctx w =
     (if st_code ST_STOPED < st_code (ca_state ctx)
      then (DUER_OK, ctx\<lparr>ca_state := ST_STOPED, ca_sr := None\<rparr>,
            (if ca_sr ctx \<noteq> None then snd (duer_coap_release (ca_sr ctx) w) else w))
      else (DUER_OK, ctx, w))"

definition baidu_ca_release :: "'n ca option \<Rightarrow> world \<Rightarrow> status \<times> world" where
  "baidu_ca_release hdlr w =
     (case hdlr of
        None \<Rightarrow> (DUER_OK, w)
      | Some ctx \<Rightarrow> (case baidu_ca_stop (ctx\<lparr>ca_conf := None\<rparr>) w of (rs, ctx1, w1) \<Rightarrow> (DUER_OK, w1)))"

end
