(* ===== verification/FifoSpec.thy ===== *)
theory FifoSpec
  imports DuerPrelude
begin

text \<open>
  The contract the SDK's queues share: values leave in the order they entered, none is lost and
  none is invented. An implementation is a type of states with a relation to the list of values
  it holds, a relation for a successful enqueue and one for a successful dequeue. The theorem
  about whole runs is proved once, in the locale, and each queue of the code is an
  interpretation.
\<close>

datatype 'x fifo_op = Enq 'x | Deq 'x

text \<open>A run is a sequence of enqueues and dequeues with the values that went in and came out.\<close>

inductive fifo_run ::
  "('q \<Rightarrow> 'x \<Rightarrow> 'q \<Rightarrow> bool) \<Rightarrow> ('q \<Rightarrow> 'x \<Rightarrow> 'q \<Rightarrow> bool) \<Rightarrow> 'q \<Rightarrow> 'x fifo_op list \<Rightarrow> 'q \<Rightarrow> bool"
  for enq deq where
  run_done: "fifo_run enq deq q [] q"
| run_enq: "enq q x q1 \<Longrightarrow> fifo_run enq deq q1 ops q2 \<Longrightarrow> fifo_run enq deq q (Enq x # ops) q2"
| run_deq: "deq q x q1 \<Longrightarrow> fifo_run enq deq q1 ops q2 \<Longrightarrow> fifo_run enq deq q (Deq x # ops) q2"

inductive_cases fifo_run_NilE: "fifo_run enq deq q [] q'"
inductive_cases fifo_run_EnqE: "fifo_run enq deq q (Enq x # ops) q'"
inductive_cases fifo_run_DeqE: "fifo_run enq deq q (Deq x # ops) q'"

fun fifo_ins :: "'x fifo_op list \<Rightarrow> 'x list" where
  "fifo_ins [] = []"
| "fifo_ins (Enq x # ops) = x # fifo_ins ops"
| "fifo_ins (Deq x # ops) = fifo_ins ops"

fun fifo_outs :: "'x fifo_op list \<Rightarrow> 'x list" where
  "fifo_outs [] = []"
| "fifo_outs (Enq x # ops) = fifo_outs ops"
| "fifo_outs (Deq x # ops) = x # fifo_outs ops"

locale fifo =
  fixes repr :: "'q \<Rightarrow> 'x list \<Rightarrow> bool"
    and enq :: "'q \<Rightarrow> 'x \<Rightarrow> 'q \<Rightarrow> bool"
    and deq :: "'q \<Rightarrow> 'x \<Rightarrow> 'q \<Rightarrow> bool"
  assumes enq_repr: "repr q xs \<Longrightarrow> enq q x q' \<Longrightarrow> repr q' (xs @ [x])"
    and deq_repr: "repr q (y # xs) \<Longrightarrow> deq q x q' \<Longrightarrow> x = y \<and> repr q' xs"
    and deq_empty: "repr q [] \<Longrightarrow> \<not> deq q x q'"
begin

lemma deq_front: "repr q xs \<Longrightarrow> deq q x q' \<Longrightarrow> \<exists>ys. xs = x # ys \<and> repr q' ys"
  by (cases xs) (auto dest: deq_repr simp: deq_empty)

text \<open>What was in the queue, followed by what went in, is what came out, followed by what is left.\<close>

lemma run_fifo:
  "fifo_run enq deq q ops q' \<Longrightarrow> repr q xs \<Longrightarrow>
   \<exists>ys. repr q' ys \<and> xs @ fifo_ins ops = fifo_outs ops @ ys"
proof (induction arbitrary: xs rule: fifo_run.induct)
  case (run_done q)
  then show ?case by auto
next
  case (run_enq q x q1 ops q2)
  from run_enq.IH [OF enq_repr [OF run_enq.prems run_enq.hyps(1)]] show ?case by simp
next
  case (run_deq q x q1 ops q2)
  from deq_front [OF run_deq.prems run_deq.hyps(1)] obtain ys
    where "xs = x # ys" and "repr q1 ys" by blast
  with run_deq.IH [of ys] show ?case by auto
qed

lemma run_no_loss:
  "fifo_run enq deq q ops q' \<Longrightarrow> repr q [] \<Longrightarrow> repr q' [] \<Longrightarrow>
   (\<And>q xs ys. repr q xs \<Longrightarrow> repr q ys \<Longrightarrow> xs = ys) \<Longrightarrow> fifo_outs ops = fifo_ins ops"
  by (metis append_Nil append_Nil2 run_fifo)

end

end
