(* ===== verification/QueueCache.thy ===== *)
theory QueueCache
  imports FifoSpec
begin

text \<open>
  \<^verbatim>\<open>framework/utils/lightduer_queue_cache.c\<close>: the singly linked queue of \<^verbatim>\<open>void *\<close> the engine keeps its
  outgoing messages in and the audio player its play list.

  The first part models the code on a heap of nodes, with the head and tail pointers and the
  length field the code maintains. A handle is \<open>None\<close> when it is \<^verbatim>\<open>NULL\<close>; a stored \<^verbatim>\<open>NULL\<close> is the
  datum \<open>None\<close>. The result of \<^verbatim>\<open>DUER_MALLOC\<close> is the argument \<open>alloc\<close>. The second part is the
  list-level queue the clients of this file are modelled with, and the third relates the two.
\<close>

section \<open>The code on a heap of nodes\<close>

record 'd qcnode =
  qn_data :: "'d option"
  qn_next :: "addr option"

record qcache =
  qc_head :: "addr option"
  qc_tail :: "addr option"
  qc_length :: nat

type_synonym 'd qheap = "addr \<rightharpoonup> 'd qcnode"

definition duer_qcache_node_create ::
  "'d qheap \<Rightarrow> addr option \<Rightarrow> 'd option \<Rightarrow> 'd qheap \<times> addr option" where
  "duer_qcache_node_create h alloc d =
     (case alloc of
        None \<Rightarrow> (h, None)
      | Some a \<Rightarrow> (h(a \<mapsto> \<lparr>qn_data = d, qn_next = None\<rparr>), Some a))"

definition duer_qcache_create :: "bool \<Rightarrow> qcache option" where
  "duer_qcache_create ok =
     (if ok then Some \<lparr>qc_head = None, qc_tail = None, qc_length = 0\<rparr> else None)"

definition duer_qcache_push ::
  "'d qheap \<Rightarrow> qcache option \<Rightarrow> addr option \<Rightarrow> 'd option
     \<Rightarrow> (status \<times> 'd qheap \<times> qcache option) option" where
  "duer_qcache_push h cache alloc d =
     (case cache of
        None \<Rightarrow> Some (DUER_ERR_INVALID_PARAMETER, h, None)
      | Some p \<Rightarrow>
          (case duer_qcache_node_create h alloc d of
             (h1, None) \<Rightarrow> Some (DUER_ERR_MEMORY_OVERLOW, h1, Some p)
           | (h1, Some q) \<Rightarrow>
               (case qc_tail p of
                  Some t \<Rightarrow>
                    (case h1 t of
                       None \<Rightarrow> None
                     | Some n \<Rightarrow>
                         Some (DUER_OK, h1(t \<mapsto> n\<lparr>qn_next := Some q\<rparr>),
                               Some (p\<lparr>qc_tail := Some q, qc_length := qc_length p + 1\<rparr>)))
                | None \<Rightarrow>
                    Some (DUER_OK, h1,
                          Some (p\<lparr>qc_head := Some q, qc_tail := Some q,
                                  qc_length := qc_length p + 1\<rparr>)))))"

definition duer_qcache_length :: "qcache option \<Rightarrow> nat" where
  "duer_qcache_length cache = (case cache of None \<Rightarrow> 0 | Some p \<Rightarrow> qc_length p)"

definition duer_qcache_top :: "'d qheap \<Rightarrow> qcache option \<Rightarrow> 'd option option" where
  "duer_qcache_top h cache =
     (case cache of
        None \<Rightarrow> Some None
      | Some p \<Rightarrow>
          (case qc_head p of
             None \<Rightarrow> Some None
           | Some a \<Rightarrow> (case h a of None \<Rightarrow> None | Some n \<Rightarrow> Some (qn_data n))))"

definition duer_qcache_pop ::
  "'d qheap \<Rightarrow> qcache option \<Rightarrow> ('d option \<times> 'd qheap \<times> qcache option) option" where
  "duer_qcache_pop h cache =
     (case cache of
        None \<Rightarrow> Some (None, h, None)
      | Some p \<Rightarrow>
          (case qc_head p of
             None \<Rightarrow> Some (None, h, Some p)
           | Some q \<Rightarrow>
               (case h q of
                  None \<Rightarrow> None
                | Some n \<Rightarrow>
                    (let p1 = p\<lparr>qc_head := qn_next n, qc_length := qc_length p - 1\<rparr>;
                         p2 = (if qc_length p1 = 0 then p1\<lparr>qc_tail := None\<rparr> else p1)
                     in Some (qn_data n, h(q := None), Some p2)))))"

text \<open>
  The loop of \<^verbatim>\<open>duer_qcache_destroy\<close>. It stops at a \<^verbatim>\<open>NULL\<close> link; on a link to freed memory it
  faults, and a cyclic list would run into its own freed nodes.
\<close>

partial_function (option) qcache_free_nodes :: "'d qheap \<Rightarrow> addr option \<Rightarrow> 'd qheap option" where
  "qcache_free_nodes h q =
     (case q of
        None \<Rightarrow> Some h
      | Some r \<Rightarrow>
          (case h r of
             None \<Rightarrow> None
           | Some n \<Rightarrow> qcache_free_nodes (h(r := None)) (qn_next n)))"

definition duer_qcache_destroy :: "'d qheap \<Rightarrow> qcache option \<Rightarrow> 'd qheap option" where
  "duer_qcache_destroy h cache =
     (case cache of None \<Rightarrow> Some h | Some p \<Rightarrow> qcache_free_nodes h (qc_head p))"

section \<open>The list-level queue\<close>

text \<open>
  What the clients see. \<^verbatim>\<open>duer_qcache_pop\<close> and \<^verbatim>\<open>duer_qcache_top\<close> return \<^verbatim>\<open>NULL\<close> both for an empty
  queue and for a stored \<^verbatim>\<open>NULL\<close>, and a \<^verbatim>\<open>NULL\<close> handle behaves as an empty queue that refuses
  every push.
\<close>

type_synonym 'd lqueue = "'d option list option"

definition lq_push :: "bool \<Rightarrow> 'd option \<Rightarrow> 'd lqueue \<Rightarrow> status \<times> 'd lqueue" where
  "lq_push ok d q =
     (case q of
        None \<Rightarrow> (DUER_ERR_INVALID_PARAMETER, None)
      | Some xs \<Rightarrow> if ok then (DUER_OK, Some (xs @ [d])) else (DUER_ERR_MEMORY_OVERLOW, Some xs))"

definition lq_top :: "'d lqueue \<Rightarrow> 'd option" where
  "lq_top q = (case q of Some (d # xs) \<Rightarrow> d | _ \<Rightarrow> None)"

definition lq_pop :: "'d lqueue \<Rightarrow> 'd option \<times> 'd lqueue" where
  "lq_pop q = (case q of Some (d # xs) \<Rightarrow> (d, Some xs) | _ \<Rightarrow> (None, q))"

definition lq_length :: "'d lqueue \<Rightarrow> nat" where
  "lq_length q = (case q of None \<Rightarrow> 0 | Some xs \<Rightarrow> length xs)"

lemma lq_simps [simp]:
  "lq_push ok d None = (DUER_ERR_INVALID_PARAMETER, None)"
  "lq_push True d (Some xs) = (DUER_OK, Some (xs @ [d]))"
  "lq_push False d (Some xs) = (DUER_ERR_MEMORY_OVERLOW, Some xs)"
  "lq_top None = None" "lq_top (Some []) = None" "lq_top (Some (d # xs)) = d"
  "lq_pop None = (None, None)" "lq_pop (Some []) = (None, Some [])"
  "lq_pop (Some (d # xs)) = (d, Some xs)"
  "lq_length None = 0" "lq_length (Some xs) = length xs"
  by (simp_all add: lq_push_def lq_top_def lq_pop_def lq_length_def)

section \<open>What a heap represents\<close>

primrec qpath :: "'d qheap \<Rightarrow> addr option \<Rightarrow> addr list \<Rightarrow> bool" where
  "qpath h p [] \<longleftrightarrow> p = None"
| "qpath h p (a # as) \<longleftrightarrow> p = Some a \<and> (\<exists>n. h a = Some n \<and> qpath h (qn_next n) as)"

definition qc_wf :: "'d qheap \<Rightarrow> qcache \<Rightarrow> addr list \<Rightarrow> bool" where
  "qc_wf h p as \<longleftrightarrow>
     qpath h (qc_head p) as \<and> distinct as \<and>
     qc_tail p = (if as = [] then None else Some (last as)) \<and> qc_length p = length as"

definition qdata :: "'d qheap \<Rightarrow> addr list \<Rightarrow> 'd option list" where
  "qdata h as = map (\<lambda>a. qn_data (the (h a))) as"

definition qc_repr :: "'d qheap \<Rightarrow> qcache \<Rightarrow> 'd option list \<Rightarrow> bool" where
  "qc_repr h p xs \<longleftrightarrow> (\<exists>as. qc_wf h p as \<and> xs = qdata h as)"

lemma qdata_simps [simp]: "qdata h [] = []" "qdata h (a # as) = qn_data (the (h a)) # qdata h as"
  "qdata h (as @ bs) = qdata h as @ qdata h bs" "length (qdata h as) = length as"
  by (simp_all add: qdata_def)

lemma qpath_in_dom: "qpath h p as \<Longrightarrow> set as \<subseteq> dom h"
  by (induction as arbitrary: p) auto

lemma qpath_frame: "a \<notin> set as \<Longrightarrow> qpath (h(a := v)) p as = qpath h p as"
  by (induction as arbitrary: p) auto

lemma qdata_frame: "a \<notin> set as \<Longrightarrow> qdata (h(a := v)) as = qdata h as"
  by (auto simp: qdata_def intro!: map_cong)

lemma qpath_None [simp]: "qpath h None as \<longleftrightarrow> as = []"
  by (cases as) auto

lemma qpath_Some [simp]:
  "qpath h (Some a) as \<longleftrightarrow> (\<exists>n bs. as = a # bs \<and> h a = Some n \<and> qpath h (qn_next n) bs)"
  by (cases as) auto

text \<open>Linking a fresh node behind the last one.\<close>

lemma qpath_snoc:
  assumes "qpath h p (as @ [t])" and "distinct (as @ [t])" and "a \<notin> set (as @ [t])"
    and "h t = Some n" and "qn_next m = None"
  shows "qpath ((h(a \<mapsto> m))(t \<mapsto> n\<lparr>qn_next := Some a\<rparr>)) p (as @ [t, a])"
  using assms
proof (induction as arbitrary: p)
  case Nil
  then show ?case by auto
next
  case (Cons b as)
  then obtain k where p: "p = Some b" and k: "h b = Some k"
    and rest: "qpath h (qn_next k) (as @ [t])" by auto
  let ?H = "(h(a \<mapsto> m))(t \<mapsto> n\<lparr>qn_next := Some a\<rparr>)"
  have "qpath ?H (qn_next k) (as @ [t, a])"
    by (rule Cons.IH [OF rest]) (use Cons.prems in auto)
  moreover have "?H b = Some k" using Cons.prems k by auto
  ultimately show ?case using p by (simp del: fun_upd_apply)
qed

lemma qdata_snoc:
  assumes "distinct (as @ [t])" and "a \<notin> set (as @ [t])" and "h t = Some n" and "qn_data m = d"
  shows "qdata ((h(a \<mapsto> m))(t \<mapsto> n\<lparr>qn_next := Some a\<rparr>)) (as @ [t, a]) = qdata h (as @ [t]) @ [d]"
  using assms by (auto simp: qdata_frame)

lemma qc_wf_Nil [simp]: "qc_wf h p [] \<longleftrightarrow> qc_head p = None \<and> qc_tail p = None \<and> qc_length p = 0"
  by (auto simp: qc_wf_def)

lemma qc_repr_Nil [simp]:
  "qc_repr h p [] \<longleftrightarrow> qc_head p = None \<and> qc_tail p = None \<and> qc_length p = 0"
  by (auto simp: qc_repr_def qdata_def)

lemma qc_repr_length: "qc_repr h p xs \<Longrightarrow> qc_length p = length xs"
  by (auto simp: qc_repr_def qc_wf_def)

lemma qc_repr_unique: "qc_repr h p xs \<Longrightarrow> qc_repr h p ys \<Longrightarrow> xs = ys"
proof -
  have path_unique: "qpath h q as \<Longrightarrow> qpath h q bs \<Longrightarrow> as = bs" for q as bs
    by (induction as arbitrary: q bs) auto
  assume "qc_repr h p xs" and "qc_repr h p ys"
  then show "xs = ys" by (auto simp: qc_repr_def qc_wf_def dest: path_unique)
qed

section \<open>The operations on represented queues\<close>

lemma qcache_create_repr: "duer_qcache_create True = Some p \<Longrightarrow> qc_repr h p []"
  by (auto simp: duer_qcache_create_def)

lemma qcache_push_repr:
  assumes "qc_repr h p xs" and "a \<notin> dom h"
  obtains h' p' where "duer_qcache_push h (Some p) (Some a) d = Some (DUER_OK, h', Some p')"
    and "qc_repr h' p' (xs @ [d])" and "dom h' = insert a (dom h)"
proof -
  from assms(1) obtain as where wf: "qc_wf h p as" and xs: "xs = qdata h as"
    by (auto simp: qc_repr_def)
  let ?m = "\<lparr>qn_data = d, qn_next = None\<rparr>"
  from wf have notin: "a \<notin> set as"
    using assms(2) by (auto simp: qc_wf_def dest!: qpath_in_dom)
  show thesis
  proof (cases "as = []")
    case True
    let ?p = "p\<lparr>qc_head := Some a, qc_tail := Some a, qc_length := qc_length p + 1\<rparr>"
    from True wf have "duer_qcache_push h (Some p) (Some a) d = Some (DUER_OK, h(a \<mapsto> ?m), Some ?p)"
      by (simp add: duer_qcache_push_def duer_qcache_node_create_def)
    moreover from True wf have "qc_wf (h(a \<mapsto> ?m)) ?p [a]"
      by (simp add: qc_wf_def)
    then have "qc_repr (h(a \<mapsto> ?m)) ?p (xs @ [d])"
      using True xs unfolding qc_repr_def by (intro exI [of _ "[a]"]) simp
    ultimately show thesis by (rule that) auto
  next
    case False
    then obtain bs t where as: "as = bs @ [t]" by (metis append_butlast_last_id)
    with wf have t: "qc_tail p = Some t" and path: "qpath h (qc_head p) (bs @ [t])"
      and dist: "distinct (bs @ [t])" by (auto simp: qc_wf_def)
    from path obtain n where n: "h t = Some n"
      using qpath_in_dom by fastforce
    let ?h = "(h(a \<mapsto> ?m))(t \<mapsto> n\<lparr>qn_next := Some a\<rparr>)"
    let ?p = "p\<lparr>qc_tail := Some a, qc_length := qc_length p + 1\<rparr>"
    from notin as have ta: "t \<noteq> a" by auto
    with t n have "duer_qcache_push h (Some p) (Some a) d = Some (DUER_OK, ?h, Some ?p)"
      by (simp add: duer_qcache_push_def duer_qcache_node_create_def)
    moreover have "qc_wf ?h ?p (bs @ [t, a])"
      using qpath_snoc [OF path dist, of a n ?m] n wf as notin dist by (auto simp: qc_wf_def)
    then have "qc_repr ?h ?p (xs @ [d])"
      unfolding qc_repr_def xs as
      using qdata_snoc [OF dist, of a h n ?m d] n notin as by (intro exI [of _ "bs @ [t, a]"]) simp
    moreover from n have "dom ?h = insert a (dom h)" by auto
    ultimately show thesis by (rule that)
  qed
qed

lemma qcache_pop_repr:
  assumes "qc_repr h p (d # xs)"
  obtains h' p' where "duer_qcache_pop h (Some p) = Some (d, h', Some p')" and "qc_repr h' p' xs"
    and "\<exists>a. qc_head p = Some a \<and> a \<in> dom h \<and> dom h' = dom h - {a}"
proof -
  from assms obtain a as where wf: "qc_wf h p (a # as)" and d: "d = qn_data (the (h a))"
    and xs: "xs = qdata h as" by (auto simp: qc_repr_def qdata_def)
  from wf obtain n where head: "qc_head p = Some a" and n: "h a = Some n"
    and rest: "qpath h (qn_next n) as" and notin: "a \<notin> set as" and dist: "distinct as"
    and len: "qc_length p = Suc (length as)" and tail: "qc_tail p = Some (last (a # as))"
    by (auto simp: qc_wf_def)
  let ?p1 = "p\<lparr>qc_head := qn_next n, qc_length := qc_length p - 1\<rparr>"
  let ?p = "if qc_length ?p1 = 0 then ?p1\<lparr>qc_tail := None\<rparr> else ?p1"
  have "duer_qcache_pop h (Some p) = Some (d, h(a := None), Some ?p)"
    using head n d by (simp add: duer_qcache_pop_def Let_def)
  moreover have "qc_wf (h(a := None)) ?p as"
    using rest notin dist len tail by (auto simp: qc_wf_def qpath_frame)
  then have "qc_repr (h(a := None)) ?p xs"
    unfolding qc_repr_def xs using notin by (intro exI [of _ as]) (simp add: qdata_frame)
  moreover have "\<exists>a'. qc_head p = Some a' \<and> a' \<in> dom h \<and> dom (h(a := None)) = dom h - {a'}"
    using head n by auto
  ultimately show thesis by (rule that)
qed

lemma qcache_pop_empty: "qc_repr h p [] \<Longrightarrow> duer_qcache_pop h (Some p) = Some (None, h, Some p)"
  by (simp add: duer_qcache_pop_def)

lemma qcache_top_repr:
  assumes "qc_repr h p xs" shows "duer_qcache_top h (Some p) = Some (lq_top (Some xs))"
proof -
  from assms obtain as where wf: "qc_wf h p as" and xs: "xs = qdata h as"
    by (auto simp: qc_repr_def)
  from wf show ?thesis
    by (cases as) (auto simp: xs qc_wf_def duer_qcache_top_def)
qed

lemma qcache_free_nodes_path:
  "qpath h q as \<Longrightarrow> distinct as \<Longrightarrow>
   \<exists>h'. qcache_free_nodes h q = Some h' \<and> h' = h |` (- set as)"
proof (induction as arbitrary: h q)
  case Nil
  then show ?case by (simp add: qcache_free_nodes.simps)
next
  case (Cons a as)
  then obtain n where q: "q = Some a" and n: "h a = Some n" and rest: "qpath h (qn_next n) as"
    and notin: "a \<notin> set as" and dist: "distinct as" by auto
  from rest notin have "qpath (h(a := None)) (qn_next n) as" by (simp add: qpath_frame)
  from Cons.IH [OF this dist]
  have "qcache_free_nodes (h(a := None)) (qn_next n) = Some ((h(a := None)) |` (- set as))"
    by (simp del: fun_upd_apply)
  also have "(h(a := None)) |` (- set as) = h |` (- set (a # as))"
    by (rule ext) (simp add: restrict_map_def)
  finally have "qcache_free_nodes (h(a := None)) (qn_next n) = Some (h |` (- set (a # as)))" .
  with q n show ?case
    by (subst qcache_free_nodes.simps) (simp del: fun_upd_apply)
qed

section \<open>Client programs\<close>

text \<open>
  A client drives a queue with a list of calls; the boolean of a push says whether its
  \<^verbatim>\<open>DUER_MALLOC\<close> succeeds. \<open>alloc\<close> is the address the allocator hands out next.
\<close>

datatype 'd qcall = QPush bool "'d option" | QPop | QTop | QLength
datatype 'd qout = OStatus status | OData "'d option" | OLength nat

fun heap_call ::
  "('d qheap \<Rightarrow> addr) \<Rightarrow> 'd qcall \<Rightarrow> 'd qheap \<times> qcache option
     \<Rightarrow> ('d qout \<times> 'd qheap \<times> qcache option) option" where
  "heap_call alloc (QPush ok d) (h, c) =
     map_option (\<lambda>(rs, h', c'). (OStatus rs, h', c'))
       (duer_qcache_push h c (if ok then Some (alloc h) else None) d)"
| "heap_call alloc QPop (h, c) = map_option (\<lambda>(d, h', c'). (OData d, h', c')) (duer_qcache_pop h c)"
| "heap_call alloc QTop (h, c) = map_option (\<lambda>d. (OData d, h, c)) (duer_qcache_top h c)"
| "heap_call alloc QLength (h, c) = Some (OLength (duer_qcache_length c), h, c)"

fun heap_run ::
  "('d qheap \<Rightarrow> addr) \<Rightarrow> 'd qcall list \<Rightarrow> 'd qheap \<times> qcache option
     \<Rightarrow> ('d qout list \<times> 'd qheap \<times> qcache option) option" where
  "heap_run alloc [] s = Some ([], s)"
| "heap_run alloc (c # cs) s =
     (case heap_call alloc c s of
        None \<Rightarrow> None
      | Some (r, s1) \<Rightarrow>
          (case heap_run alloc cs s1 of None \<Rightarrow> None | Some (rs, s2) \<Rightarrow> Some (r # rs, s2)))"

fun list_call :: "'d qcall \<Rightarrow> 'd lqueue \<Rightarrow> 'd qout \<times> 'd lqueue" where
  "list_call (QPush ok d) q = (let (rs, q') = lq_push ok d q in (OStatus rs, q'))"
| "list_call QPop q = (let (d, q') = lq_pop q in (OData d, q'))"
| "list_call QTop q = (OData (lq_top q), q)"
| "list_call QLength q = (OLength (lq_length q), q)"

fun list_run :: "'d qcall list \<Rightarrow> 'd lqueue \<Rightarrow> 'd qout list \<times> 'd lqueue" where
  "list_run [] q = ([], q)"
| "list_run (c # cs) q =
     (let (r, q1) = list_call c q; (rs, q2) = list_run cs q1 in (r # rs, q2))"

text \<open>The abstraction covers the handle: a \<^verbatim>\<open>NULL\<close> handle represents the queue \<open>None\<close>.\<close>

definition qh_repr :: "'d qheap \<times> qcache option \<Rightarrow> 'd lqueue \<Rightarrow> bool" where
  "qh_repr s q \<longleftrightarrow> finite (dom (fst s)) \<and>
     (case (snd s, q) of
        (None, None) \<Rightarrow> True
      | (Some p, Some xs) \<Rightarrow> qc_repr (fst s) p xs
      | _ \<Rightarrow> False)"

lemma qh_repr_simps [simp]:
  "qh_repr (h, Some p) (Some xs) \<longleftrightarrow> finite (dom h) \<and> qc_repr h p xs"
  "qh_repr (h, None) None \<longleftrightarrow> finite (dom h)"
  "\<not> qh_repr (h, Some p) None" "\<not> qh_repr (h, None) (Some xs)"
  by (simp_all add: qh_repr_def)

lemma qh_repr_cases:
  assumes "qh_repr s q"
  obtains (null) h where "s = (h, None)" "q = None" "finite (dom h)"
    | (queue) h p xs where "s = (h, Some p)" "q = Some xs" "finite (dom h)" "qc_repr h p xs"
  using assms by (cases s; cases "snd s"; cases q) auto

lemma heap_call_refines:
  assumes alloc: "\<And>h. finite (dom h) \<Longrightarrow> alloc h \<notin> dom h" and r: "qh_repr s q"
  shows "\<exists>s'. heap_call alloc c s = Some (fst (list_call c q), s') \<and> qh_repr s' (snd (list_call c q))"
  using r
proof (cases rule: qh_repr_cases)
  case (null h)
  then show ?thesis
    by (cases c)
      (simp_all add: duer_qcache_push_def duer_qcache_pop_def duer_qcache_top_def
        duer_qcache_length_def)
next
  case (queue h p xs)
  show ?thesis
  proof (cases c)
    case (QPush ok d)
    show ?thesis
    proof (cases ok)
      case True
      from qcache_push_repr [OF queue(4) alloc [OF queue(3)], of d] queue QPush True
      show ?thesis by fastforce
    next
      case False
      with queue QPush show ?thesis
        by (simp add: duer_qcache_push_def duer_qcache_node_create_def)
    qed
  next
    case QPop
    show ?thesis
    proof (cases xs)
      case Nil
      with queue QPop show ?thesis by (simp add: qcache_pop_empty)
    next
      case (Cons d ys)
      with queue have "qc_repr h p (d # ys)" by simp
      from qcache_pop_repr [OF this] obtain h' p' where
        "duer_qcache_pop h (Some p) = Some (d, h', Some p')" "qc_repr h' p' ys"
        "finite (dom h')" using queue(3) by (metis finite_Diff)
      with queue QPop Cons show ?thesis by simp
    qed
  next
    case QTop
    with queue show ?thesis by (simp add: qcache_top_repr)
  next
    case QLength
    with queue show ?thesis by (simp add: duer_qcache_length_def qc_repr_length)
  qed
qed

section \<open>The FIFO contract\<close>

definition hq_enq :: "'d qheap \<times> qcache \<Rightarrow> 'd option \<Rightarrow> 'd qheap \<times> qcache \<Rightarrow> bool" where
  "hq_enq s d s' \<longleftrightarrow>
     (\<exists>a. a \<notin> dom (fst s) \<and>
       duer_qcache_push (fst s) (Some (snd s)) (Some a) d = Some (DUER_OK, fst s', Some (snd s')))"

definition hq_deq :: "'d qheap \<times> qcache \<Rightarrow> 'd option \<Rightarrow> 'd qheap \<times> qcache \<Rightarrow> bool" where
  "hq_deq s d s' \<longleftrightarrow>
     0 < duer_qcache_length (Some (snd s)) \<and>
     duer_qcache_pop (fst s) (Some (snd s)) = Some (d, fst s', Some (snd s'))"

lemma hq_enq_repr:
  assumes "qc_repr (fst s) (snd s) xs" and "hq_enq s d s'"
  shows "qc_repr (fst s') (snd s') (xs @ [d])"
proof -
  from assms(2) obtain a where "a \<notin> dom (fst s)"
    and "duer_qcache_push (fst s) (Some (snd s)) (Some a) d = Some (DUER_OK, fst s', Some (snd s'))"
    by (auto simp: hq_enq_def)
  moreover from \<open>a \<notin> dom (fst s)\<close> obtain h' p' where
    "duer_qcache_push (fst s) (Some (snd s)) (Some a) d = Some (DUER_OK, h', Some p')"
    and "qc_repr h' p' (xs @ [d])" by (rule qcache_push_repr [OF assms(1)])
  ultimately show ?thesis by simp
qed

lemma hq_deq_repr:
  assumes "qc_repr (fst s) (snd s) (y # xs)" and "hq_deq s d s'"
  shows "d = y \<and> qc_repr (fst s') (snd s') xs"
proof -
  from assms(2) have "duer_qcache_pop (fst s) (Some (snd s)) = Some (d, fst s', Some (snd s'))"
    by (simp add: hq_deq_def)
  moreover obtain h' p' where "duer_qcache_pop (fst s) (Some (snd s)) = Some (y, h', Some p')"
    and "qc_repr h' p' xs" by (rule qcache_pop_repr [OF assms(1)])
  ultimately show ?thesis by simp
qed

interpretation hq: fifo "\<lambda>s. qc_repr (fst s) (snd s)" hq_enq hq_deq
proof unfold_locales
  show "\<not> hq_deq q x q'" if "qc_repr (fst q) (snd q) []" for q q' :: "'d qheap \<times> qcache" and x
    using that by (simp add: hq_deq_def duer_qcache_length_def)
qed (use hq_enq_repr hq_deq_repr in blast)+

definition lq_enq :: "'d lqueue \<Rightarrow> 'd option \<Rightarrow> 'd lqueue \<Rightarrow> bool" where
  "lq_enq q d q' \<longleftrightarrow> lq_push True d q = (DUER_OK, q')"

definition lq_deq :: "'d lqueue \<Rightarrow> 'd option \<Rightarrow> 'd lqueue \<Rightarrow> bool" where
  "lq_deq q d q' \<longleftrightarrow> 0 < lq_length q \<and> lq_pop q = (d, q')"

interpretation lq: fifo "\<lambda>q xs. q = Some xs" lq_enq lq_deq
  by unfold_locales (auto simp: lq_enq_def lq_deq_def)

section \<open>Properties\<close>

text \<open>C16: For every sequence of push, pop, top and length calls, and whichever of the
  allocations fail, the pointer implementation of the queue answers exactly what a list would,
  never touches freed memory, and ends in a heap that represents the list it should hold.\<close>

theorem qcache_refines_list:
  assumes "\<And>h. finite (dom h) \<Longrightarrow> alloc h \<notin> dom h" and "qh_repr s q"
  shows "\<exists>s'. heap_run alloc cs s = Some (fst (list_run cs q), s') \<and> qh_repr s' (snd (list_run cs q))"
  using assms(2)
proof (induction cs arbitrary: s q)
  case Nil
  then show ?case by simp
next
  case (Cons c cs)
  from heap_call_refines [where alloc = alloc and c = c, OF assms(1) Cons.prems] obtain s1 where
    call: "heap_call alloc c s = Some (fst (list_call c q), s1)"
    and "qh_repr s1 (snd (list_call c q))" by blast
  from Cons.IH [OF this(2)] call show ?case by (fastforce simp: split_beta)
qed

theorem qcache_refines_list_witness:
  "\<exists>s'. heap_run (\<lambda>h. Suc (Max (insert 0 (dom h))))
      [QPush True (Some (7::nat)), QPush False (Some 8), QPush True None, QLength, QPop, QTop, QPop, QPop]
      (Map.empty, Some \<lparr>qc_head = None, qc_tail = None, qc_length = 0\<rparr>)
    = Some ([OStatus DUER_OK, OStatus DUER_ERR_MEMORY_OVERLOW, OStatus DUER_OK, OLength 2,
             OData (Some 7), OData None, OData None, OData None], s')
    \<and> qh_repr s' (Some [])"
proof -
  have "Suc (Max (insert 0 (dom h))) \<notin> dom h" if "finite (dom h)" for h :: "nat qheap"
  proof
    assume "Suc (Max (insert 0 (dom h))) \<in> dom h"
    then have "Suc (Max (insert 0 (dom h))) \<le> Max (insert 0 (dom h))"
      using that by (intro Max_ge) auto
    then show False by simp
  qed
  moreover have "qh_repr (Map.empty :: nat qheap, Some \<lparr>qc_head = None, qc_tail = None, qc_length = 0\<rparr>)
    (Some [])" by simp
  ultimately show ?thesis
    using qcache_refines_list [where alloc = "\<lambda>h :: nat qheap. Suc (Max (insert 0 (dom h)))"
      and s = "(Map.empty, Some \<lparr>qc_head = None, qc_tail = None, qc_length = 0\<rparr>)" and q = "Some []"
      and cs = "[QPush True (Some (7::nat)), QPush False (Some 8), QPush True None, QLength, QPop, QTop,
        QPop, QPop]"]
    by (simp add: numeral_2_eq_2 del: heap_run.simps)
qed

text \<open>From a freshly created queue on, the values popped are the values pushed, in order,
  and what has not come out yet is what the queue still holds.\<close>

theorem qcache_fifo:
  assumes "duer_qcache_create True = Some p" and "fifo_run hq_enq hq_deq (h, p) ops s'"
  shows "\<exists>ys. qc_repr (fst s') (snd s') ys \<and> fifo_ins ops = fifo_outs ops @ ys"
  using hq.run_fifo [OF assms(2), of "[]"] qcache_create_repr [OF assms(1)] by auto

theorem qcache_fifo_witness:
  "\<exists>p s'. duer_qcache_create True = Some p \<and>
     fifo_run hq_enq hq_deq (Map.empty, p) [Enq (Some (4::nat)), Enq (Some 5), Deq (Some 4)] s' \<and>
     (\<exists>ys. qc_repr (fst s') (snd s') ys \<and> [Some 4, Some 5] = [Some 4] @ ys)"
proof -
  let ?p = "\<lparr>qc_head = None, qc_tail = None, qc_length = 0\<rparr>"
  let ?n = "\<lambda>d q. \<lparr>qn_data = Some (d::nat), qn_next = q\<rparr>"
  let ?s1 = "([1 \<mapsto> ?n 4 None], \<lparr>qc_head = Some 1, qc_tail = Some 1, qc_length = 1\<rparr>)"
  let ?s2 = "([1 \<mapsto> ?n 4 (Some 2), 2 \<mapsto> ?n 5 None],
    \<lparr>qc_head = Some 1, qc_tail = Some 2, qc_length = 2\<rparr>)"
  let ?s3 = "([2 \<mapsto> ?n 5 None], \<lparr>qc_head = Some 2, qc_tail = Some 2, qc_length = 1\<rparr>)"
  have p: "duer_qcache_create True = Some ?p" by (simp add: duer_qcache_create_def)
  have e1: "hq_enq (Map.empty, ?p) (Some 4) ?s1" unfolding hq_enq_def
    by (rule exI [of _ 1]) (simp add: duer_qcache_push_def duer_qcache_node_create_def)
  have e2: "hq_enq ?s1 (Some 5) ?s2" unfolding hq_enq_def
    by (rule exI [of _ 2]) (simp add: duer_qcache_push_def duer_qcache_node_create_def fun_upd_twist)
  have d: "hq_deq ?s2 (Some 4) ?s3"
    by (auto simp: hq_deq_def duer_qcache_length_def duer_qcache_pop_def)
  have run: "fifo_run hq_enq hq_deq (Map.empty, ?p) [Enq (Some (4::nat)), Enq (Some 5), Deq (Some 4)] ?s3"
    using e1 e2 d by (blast intro: fifo_run.intros)
  from qcache_fifo [OF p run] p run show ?thesis by auto
qed

text \<open>Destroying a queue returns, frees every node of it exactly once, and frees nothing
  else.\<close>

theorem qcache_destroy_frees:
  assumes "qc_wf h p as"
  shows "duer_qcache_destroy h (Some p) = Some (h |` (- set as)) \<and> set as \<subseteq> dom h"
  using assms qcache_free_nodes_path [of h "qc_head p" as] qpath_in_dom [of h "qc_head p" as]
  by (simp add: qc_wf_def duer_qcache_destroy_def)

theorem qcache_destroy_frees_witness:
  "duer_qcache_destroy
     [1 \<mapsto> \<lparr>qn_data = Some (4::nat), qn_next = Some 2\<rparr>, 2 \<mapsto> \<lparr>qn_data = None, qn_next = None\<rparr>,
      3 \<mapsto> \<lparr>qn_data = Some 9, qn_next = None\<rparr>]
     (Some \<lparr>qc_head = Some 1, qc_tail = Some 2, qc_length = 2\<rparr>)
   = Some ([1 \<mapsto> \<lparr>qn_data = Some (4::nat), qn_next = Some 2\<rparr>, 2 \<mapsto> \<lparr>qn_data = None, qn_next = None\<rparr>,
      3 \<mapsto> \<lparr>qn_data = Some 9, qn_next = None\<rparr>] |` (- {1, 2}))"
proof -
  let ?h = "[1 \<mapsto> \<lparr>qn_data = Some (4::nat), qn_next = Some 2\<rparr>,
    2 \<mapsto> \<lparr>qn_data = None, qn_next = None\<rparr>, 3 \<mapsto> \<lparr>qn_data = Some 9, qn_next = None\<rparr>]"
  have "qc_wf ?h \<lparr>qc_head = Some 1, qc_tail = Some 2, qc_length = 2\<rparr> [1, 2]"
    by (simp add: qc_wf_def)
  from qcache_destroy_frees [OF this] show ?thesis by simp
qed

end
