(* ===== verification/EventQueue.thy ===== *)
theory EventQueue
  imports FifoSpec
begin

text \<open>
  \<^verbatim>\<open>platform/source-linux/lightduer_events.c\<close>: the event loop a module hands its work to. Callers
  post a callback with its arguments at the head of a doubly linked list; one task takes messages
  from the tail, following the \<^verbatim>\<open>_pre\<close> links, runs the callback and frees the message;
  \<^verbatim>\<open>duer_events_destroy\<close> stops the task and frees what is left, following the \<^verbatim>\<open>_next\<close> links.

  A message's callback, \<^verbatim>\<open>what\<close> and \<^verbatim>\<open>object\<close> are one value of type \<open>'e\<close>. The mutex makes each
  operation on the list atomic, so an operation is one step here. The task's loop is split where
  it releases the mutex: \<open>events_task_take\<close> up to the callback and \<open>events_task_free\<close> after it, so
  that other threads (and the callback itself) may post in between.
\<close>

section \<open>The code\<close>

record 'e eq_message =
  em_data :: 'e
  em_pre :: "addr option"
  em_next :: "addr option"

type_synonym 'e ev_heap = "addr \<rightharpoonup> 'e eq_message"

record 'e events =
  ev_heap :: "'e ev_heap"
  ev_head :: "addr option"
  ev_tail :: "addr option"
  ev_name :: "string option"
  ev_shutdown :: bool

text \<open>
  \<^verbatim>\<open>duer_events_create\<close>: the first allocation is the structure, the second the name. When the
  structure cannot be allocated the code logs \<^verbatim>\<open>events->_name\<close>, a read through \<^verbatim>\<open>NULL\<close>.
  \<open>thread_ok\<close> is \<^verbatim>\<open>pthread_create\<close> succeeding.
\<close>

definition duer_events_create ::
  "string option \<Rightarrow> mem \<Rightarrow> bool \<Rightarrow> ('e events option \<times> mem) option" where
  "duer_events_create name m thread_ok =
     (let nm = (case name of None \<Rightarrow> ''default'' | Some n \<Rightarrow> n);
          (ok1, m1) = malloc_ok m
      in if \<not> ok1 then None
         else
           (let (ok2, m2) = malloc_ok m1;
                ev = \<lparr>ev_heap = Map.empty, ev_head = None, ev_tail = None,
                      ev_name = (if ok2 then Some nm else None), ev_shutdown = False\<rparr>
            in Some (if thread_ok then Some ev else None, m2)))"

definition duer_events_call ::
  "'e events option \<Rightarrow> addr option \<Rightarrow> 'e \<Rightarrow> (status \<times> 'e events option) option" where
  "duer_events_call handler alloc e =
     (case handler of
        None \<Rightarrow> Some (DUER_ERR_FAILED, None)
      | Some ev \<Rightarrow>
          (case alloc of
             None \<Rightarrow> Some (DUER_ERR_FAILED, Some ev)
           | Some a \<Rightarrow>
               (let msg = \<lparr>em_data = e, em_pre = None, em_next = ev_head ev\<rparr>;
                    link = (case ev_head ev of
                              None \<Rightarrow> Some ((ev_heap ev)(a \<mapsto> msg))
                            | Some b \<Rightarrow>
                                (case ev_heap ev b of
                                   None \<Rightarrow> None
                                 | Some n \<Rightarrow>
                                     Some ((ev_heap ev)(b \<mapsto> n\<lparr>em_pre := Some a\<rparr>, a \<mapsto> msg))))
                in (case link of
                      None \<Rightarrow> None
                    | Some h \<Rightarrow>
                        Some (DUER_OK,
                          Some (ev\<lparr>ev_heap := h, ev_head := Some a,
                            ev_tail := (if ev_tail ev = None then Some a else ev_tail ev)\<rparr>))))))"

datatype 'e task_step = TaskWait | TaskExit | TaskRun addr 'e "'e events"

definition events_task_take :: "'e events \<Rightarrow> 'e task_step option" where
  "events_task_take ev =
     (if ev_shutdown ev then Some TaskExit
      else
        (case ev_tail ev of
           None \<Rightarrow> Some TaskWait
         | Some a \<Rightarrow>
             (case ev_heap ev a of
                None \<Rightarrow> None
              | Some n \<Rightarrow>
                  Some (TaskRun a (em_data n)
                    (ev\<lparr>ev_tail := em_pre n,
                        ev_head := (if em_pre n = None then None else ev_head ev)\<rparr>)))))"

definition events_task_free :: "addr \<Rightarrow> 'e events \<Rightarrow> 'e events" where
  "events_task_free a ev = ev\<lparr>ev_heap := (ev_heap ev)(a := None)\<rparr>"

partial_function (option) events_free_all :: "'e ev_heap \<Rightarrow> addr option \<Rightarrow> 'e ev_heap option" where
  "events_free_all h p =
     (case p of
        None \<Rightarrow> Some h
      | Some a \<Rightarrow>
          (case h a of
             None \<Rightarrow> None
           | Some n \<Rightarrow> events_free_all (h(a := None)) (em_next n)))"

text \<open>
  \<^verbatim>\<open>duer_events_destroy\<close>: the result is the heap of messages that are still allocated; a second
  call on a structure that is shutting down returns early.
\<close>

definition duer_events_destroy :: "'e events option \<Rightarrow> 'e ev_heap option" where
  "duer_events_destroy handler =
     (case handler of
        None \<Rightarrow> Some Map.empty
      | Some ev \<Rightarrow>
          (if ev_shutdown ev then Some (ev_heap ev) else events_free_all (ev_heap ev) (ev_head ev)))"

section \<open>What the list holds\<close>

text \<open>\<open>as\<close> lists the messages from the tail (oldest) to the head (newest).\<close>

primrec pre_path :: "'e ev_heap \<Rightarrow> addr option \<Rightarrow> addr list \<Rightarrow> bool" where
  "pre_path h p [] \<longleftrightarrow> p = None"
| "pre_path h p (a # as) \<longleftrightarrow> p = Some a \<and> (\<exists>n. h a = Some n \<and> pre_path h (em_pre n) as)"

definition next_of :: "'e ev_heap \<Rightarrow> addr \<Rightarrow> addr option" where
  "next_of h a = (case h a of None \<Rightarrow> None | Some n \<Rightarrow> em_next n)"

fun next_links :: "'e ev_heap \<Rightarrow> addr list \<Rightarrow> bool" where
  "next_links h [] = True"
| "next_links h [a] = (a \<in> dom h)"
| "next_links h (a # b # as) = (a \<in> dom h \<and> next_of h b = Some a \<and> next_links h (b # as))"

definition ev_wf :: "'e events \<Rightarrow> addr list \<Rightarrow> bool" where
  "ev_wf ev as \<longleftrightarrow>
     pre_path (ev_heap ev) (ev_tail ev) as \<and> next_links (ev_heap ev) as \<and> distinct as \<and>
     ev_head ev = (if as = [] then None else Some (last as))"

definition ev_data :: "'e ev_heap \<Rightarrow> addr list \<Rightarrow> 'e list" where
  "ev_data h as = map (\<lambda>a. em_data (the (h a))) as"

lemma pre_path_None [simp]: "pre_path h None as \<longleftrightarrow> as = []"
  by (cases as) auto

lemma pre_path_Some [simp]:
  "pre_path h (Some a) as \<longleftrightarrow> (\<exists>n bs. as = a # bs \<and> h a = Some n \<and> pre_path h (em_pre n) bs)"
  by (cases as) auto

lemma pre_path_in_dom: "pre_path h p as \<Longrightarrow> set as \<subseteq> dom h"
  by (induction as arbitrary: p) auto

lemma pre_path_frame: "a \<notin> set as \<Longrightarrow> pre_path (h(a := v)) p as = pre_path h p as"
  by (induction as arbitrary: p) auto

lemma next_of_upd [simp]: "b \<noteq> a \<Longrightarrow> next_of (h(a := v)) b = next_of h b"
  "next_of (h(a \<mapsto> n)) a = em_next n"
  by (simp_all add: next_of_def)

lemma next_links_frame: "a \<notin> set as \<Longrightarrow> next_links (h(a := v)) as = next_links h as"
  by (induction h as rule: next_links.induct) auto

lemma next_links_snoc:
  "next_links h (as @ [b, a]) \<longleftrightarrow> next_links h (as @ [b]) \<and> next_of h a = Some b \<and> a \<in> dom h"
  by (induction h as rule: next_links.induct) auto

lemma ev_data_simps [simp]: "ev_data h [] = []"
  "ev_data h (a # as) = em_data (the (h a)) # ev_data h as"
  "ev_data h (as @ bs) = ev_data h as @ ev_data h bs"
  by (simp_all add: ev_data_def)

lemma ev_data_frame: "a \<notin> set as \<Longrightarrow> ev_data (h(a := v)) as = ev_data h as"
  by (auto simp: ev_data_def intro!: map_cong)

section \<open>Posting\<close>

lemma pre_path_link:
  assumes "pre_path h p (as @ [b])" and "distinct (as @ [b])" and "a \<notin> set (as @ [b])"
    and "h b = Some n" and "em_pre m = None"
  shows "pre_path (h(b \<mapsto> n\<lparr>em_pre := Some a\<rparr>, a \<mapsto> m)) p (as @ [b, a])"
  using assms
proof (induction as arbitrary: p)
  case Nil
  then show ?case by auto
next
  case (Cons c as)
  let ?H = "h(b \<mapsto> n\<lparr>em_pre := Some a\<rparr>, a \<mapsto> m)"
  from Cons.prems obtain k where p: "p = Some c" and k: "h c = Some k"
    and rest: "pre_path h (em_pre k) (as @ [b])" by auto
  have "pre_path ?H (em_pre k) (as @ [b, a])"
    by (rule Cons.IH [OF rest]) (use Cons.prems in auto)
  moreover have "?H c = Some k" using Cons.prems k by auto
  ultimately show ?case using p by (simp del: fun_upd_apply)
qed

lemma next_links_link:
  assumes "next_links h (as @ [b])" and "a \<notin> set (as @ [b])" and "h b = Some n"
    and "em_next m = Some b"
  shows "next_links (h(b \<mapsto> n\<lparr>em_pre := p\<rparr>, a \<mapsto> m)) (as @ [b, a])"
proof -
  have "next_links (h(b \<mapsto> n\<lparr>em_pre := p\<rparr>)) bs = next_links h bs" for bs
    using assms(3) by (induction h bs rule: next_links.induct) (auto simp: next_of_def)
  with assms show ?thesis
    by (simp add: next_links_snoc next_links_frame)
qed

lemma events_call_wf:
  assumes wf: "ev_wf ev as" and "a \<notin> dom (ev_heap ev)"
  obtains ev' where "duer_events_call (Some ev) (Some a) e = Some (DUER_OK, Some ev')"
    and "ev_wf ev' (as @ [a])" and "ev_data (ev_heap ev') (as @ [a]) = ev_data (ev_heap ev) as @ [e]"
    and "ev_shutdown ev' = ev_shutdown ev" and "dom (ev_heap ev') = insert a (dom (ev_heap ev))"
proof -
  have notin: "a \<notin> set as" using wf assms(2) pre_path_in_dom by (fastforce simp: ev_wf_def)
  let ?m = "\<lparr>em_data = e, em_pre = None, em_next = ev_head ev\<rparr>"
  show thesis
  proof (cases as rule: rev_cases)
    case Nil
    let ?ev = "ev\<lparr>ev_heap := (ev_heap ev)(a \<mapsto> ?m), ev_head := Some a, ev_tail := Some a\<rparr>"
    from Nil wf have "duer_events_call (Some ev) (Some a) e = Some (DUER_OK, Some ?ev)"
      by (simp add: duer_events_call_def ev_wf_def)
    then show thesis by (rule that) (use Nil in \<open>simp_all add: ev_wf_def\<close>)
  next
    case (snoc bs b)
    with wf obtain n where head: "ev_head ev = Some b" and n: "ev_heap ev b = Some n"
      using pre_path_in_dom by (fastforce simp: ev_wf_def)
    let ?h = "(ev_heap ev)(b \<mapsto> n\<lparr>em_pre := Some a\<rparr>, a \<mapsto> ?m)"
    let ?ev = "ev\<lparr>ev_heap := ?h, ev_head := Some a\<rparr>"
    from snoc wf have tail: "ev_tail ev \<noteq> None" by (cases "ev_tail ev") (auto simp: ev_wf_def)
    have "duer_events_call (Some ev) (Some a) e = Some (DUER_OK, Some ?ev)"
      using head n tail by (auto simp: duer_events_call_def)
    moreover have "ev_wf ?ev (as @ [a])"
      using wf snoc notin n head pre_path_link [of "ev_heap ev" "ev_tail ev" bs b a n ?m]
        next_links_link [of "ev_heap ev" bs b a n ?m "Some a"]
      by (auto simp: ev_wf_def)
    moreover have "ev_data (ev_heap ?ev) (as @ [a]) = ev_data (ev_heap ev) as @ [e]"
      using wf snoc notin n by (auto simp: ev_wf_def ev_data_frame)
    moreover have "ev_shutdown ?ev = ev_shutdown ev" by simp
    moreover have "dom (ev_heap ?ev) = insert a (dom (ev_heap ev))" using n by auto
    ultimately show thesis by (rule that)
  qed
qed

section \<open>Taking\<close>

lemma next_links_tl: "next_links h (a # as) \<Longrightarrow> next_links h as"
  by (cases as) auto

lemma events_take_wf:
  assumes wf: "ev_wf ev (a # as)" and "\<not> ev_shutdown ev"
  obtains ev' where "events_task_take ev = Some (TaskRun a (em_data (the (ev_heap ev a))) ev')"
    and "ev_wf ev' as" and "ev_heap ev' = ev_heap ev" and "\<not> ev_shutdown ev'"
proof -
  from wf obtain n where tail: "ev_tail ev = Some a" and n: "ev_heap ev a = Some n"
    and rest: "pre_path (ev_heap ev) (em_pre n) as" and notin: "a \<notin> set as" and dist: "distinct as"
    by (auto simp: ev_wf_def)
  let ?ev = "ev\<lparr>ev_tail := em_pre n, ev_head := (if em_pre n = None then None else ev_head ev)\<rparr>"
  have none: "em_pre n = None \<longleftrightarrow> as = []" using rest by (cases "em_pre n") auto
  have links: "next_links (ev_heap ev) as" using wf next_links_tl by (auto simp: ev_wf_def)
  have "events_task_take ev = Some (TaskRun a (em_data (the (ev_heap ev a))) ?ev)"
    using assms(2) tail n by (simp add: events_task_take_def)
  moreover have "ev_wf ?ev as" using wf rest dist links none by (auto simp: ev_wf_def)
  ultimately show thesis by (rule that) (use assms(2) in simp_all)
qed

lemma events_take_empty: "ev_wf ev [] \<Longrightarrow> \<not> ev_shutdown ev \<Longrightarrow> events_task_take ev = Some TaskWait"
  by (simp add: ev_wf_def events_task_take_def)

lemma events_free_wf:
  assumes "ev_wf ev as" "a \<notin> set as"
  shows "ev_wf (events_task_free a ev) as" "ev_data (ev_heap (events_task_free a ev)) as = ev_data (ev_heap ev) as"
  using assms by (auto simp: ev_wf_def events_task_free_def pre_path_frame next_links_frame ev_data_frame)

section \<open>The loop\<close>

text \<open>
  The state of a loop: the structure, and the message whose callback the task is running. A message is posted,
  or could not be allocated; the task takes one; it frees it when the callback has returned. Anything may be posted
  between taking and freeing, by the callback or by another thread.
\<close>

type_synonym 'e loop = "'e events \<times> addr option"

definition loop_post :: "'e loop \<Rightarrow> 'e \<Rightarrow> 'e loop \<Rightarrow> bool" where
  "loop_post l e l' \<longleftrightarrow>
     (\<exists>a. a \<notin> dom (ev_heap (fst l)) \<and> duer_events_call (Some (fst l)) (Some a) e = Some (DUER_OK, Some (fst l')) \<and> snd l' = snd l)"

definition loop_take :: "'e loop \<Rightarrow> 'e \<Rightarrow> 'e loop \<Rightarrow> bool" where
  "loop_take l e l' \<longleftrightarrow> snd l = None \<and> (\<exists>a. events_task_take (fst l) = Some (TaskRun a e (fst l')) \<and> snd l' = Some a)"

datatype 'e loop_op = Post 'e | PostFails 'e | Take 'e | Free

inductive loop_run :: "'e loop \<Rightarrow> 'e loop_op list \<Rightarrow> 'e loop \<Rightarrow> bool" where
  loop_done: "loop_run l [] l"
| loop_posts: "loop_post l e l1 \<Longrightarrow> loop_run l1 ops l2 \<Longrightarrow> loop_run l (Post e # ops) l2"
| loop_post_fails: "duer_events_call (Some ev) None e = Some (rs, Some ev1) \<Longrightarrow> loop_run (ev1, r) ops l2 \<Longrightarrow>
    loop_run (ev, r) (PostFails e # ops) l2"
| loop_takes: "loop_take l e l1 \<Longrightarrow> loop_run l1 ops l2 \<Longrightarrow> loop_run l (Take e # ops) l2"
| loop_frees: "loop_run (events_task_free a ev, None) ops l2 \<Longrightarrow> loop_run (ev, Some a) (Free # ops) l2"

fun posted :: "'e loop_op list \<Rightarrow> 'e list" where
  "posted [] = []"
| "posted (Post e # ops) = e # posted ops"
| "posted (op # ops) = posted ops"

fun ran :: "'e loop_op list \<Rightarrow> 'e list" where
  "ran [] = []"
| "ran (Take e # ops) = e # ran ops"
| "ran (op # ops) = ran ops"

text \<open>The messages that wait are in the list; the one that runs is allocated and not in it.\<close>

definition loop_repr :: "'e loop \<Rightarrow> 'e list \<Rightarrow> bool" where
  "loop_repr l xs \<longleftrightarrow> \<not> ev_shutdown (fst l) \<and> (\<exists>as. ev_wf (fst l) as \<and> xs = ev_data (ev_heap (fst l)) as \<and>
     (case snd l of None \<Rightarrow> True | Some a \<Rightarrow> a \<in> dom (ev_heap (fst l)) \<and> a \<notin> set as))"

lemma loop_post_repr:
  assumes "loop_repr l xs" and "loop_post l e l'" shows "loop_repr l' (xs @ [e])"
proof -
  obtain as where as: "ev_wf (fst l) as" "xs = ev_data (ev_heap (fst l)) as" "\<not> ev_shutdown (fst l)"
    and r: "case snd l of None \<Rightarrow> True | Some a \<Rightarrow> a \<in> dom (ev_heap (fst l)) \<and> a \<notin> set as"
    using assms(1) by (auto simp: loop_repr_def)
  obtain a where a: "a \<notin> dom (ev_heap (fst l))" and snd: "snd l' = snd l"
    and call: "duer_events_call (Some (fst l)) (Some a) e = Some (DUER_OK, Some (fst l'))"
    using assms(2) by (auto simp: loop_post_def)
  obtain ev where "duer_events_call (Some (fst l)) (Some a) e = Some (DUER_OK, Some ev)" "ev_wf ev (as @ [a])"
    "ev_data (ev_heap ev) (as @ [a]) = ev_data (ev_heap (fst l)) as @ [e]" "ev_shutdown ev = ev_shutdown (fst l)"
    "dom (ev_heap ev) = insert a (dom (ev_heap (fst l)))" by (rule events_call_wf [OF as(1) a])
  with call have l': "ev_wf (fst l') (as @ [a])" "ev_data (ev_heap (fst l')) (as @ [a]) = xs @ [e]" "\<not> ev_shutdown (fst l')"
    "dom (ev_heap (fst l')) = insert a (dom (ev_heap (fst l)))" using as by simp_all
  have "case snd l' of None \<Rightarrow> True | Some b \<Rightarrow> b \<in> dom (ev_heap (fst l')) \<and> b \<notin> set (as @ [a])"
    using r a l'(4) by (auto simp: snd split: option.splits)
  then show ?thesis unfolding loop_repr_def using l'(1-3) by (intro conjI exI [of _ "as @ [a]"]) simp_all
qed

lemma loop_take_repr:
  assumes "loop_repr l (y # xs)" and "snd l = None"
  shows "\<exists>l1. loop_take l y l1 \<and> loop_repr l1 xs \<and> (\<forall>e l'. loop_take l e l' \<longrightarrow> e = y \<and> l' = l1)"
proof -
  obtain as0 where as0: "ev_wf (fst l) as0" "y # xs = ev_data (ev_heap (fst l)) as0" "\<not> ev_shutdown (fst l)"
    using assms(1) by (auto simp: loop_repr_def)
  then obtain a as where a: "as0 = a # as" by (cases as0) auto
  then have wf: "ev_wf (fst l) (a # as)" and y: "y = em_data (the (ev_heap (fst l) a))" and xs: "xs = ev_data (ev_heap (fst l)) as"
    using as0 by simp_all
  obtain ev where ev: "events_task_take (fst l) = Some (TaskRun a (em_data (the (ev_heap (fst l) a))) ev)"
    "ev_wf ev as" "ev_heap ev = ev_heap (fst l)" "\<not> ev_shutdown ev" by (rule events_take_wf [OF wf as0(3)])
  have "a \<in> dom (ev_heap (fst l))" "a \<notin> set as" using wf by (auto simp: ev_wf_def)
  then have 1: "loop_repr (ev, Some a) xs" using ev xs by (auto simp: loop_repr_def)
  have 2: "loop_take l y (ev, Some a)" using ev(1) assms(2) by (simp add: loop_take_def y)
  have "e = y \<and> l' = (ev, Some a)" if "loop_take l e l'" for e l'
    using that ev(1) by (cases l') (auto simp: loop_take_def y)
  then show ?thesis using 1 2 by blast
qed

lemma loop_free_repr: "loop_repr (ev, Some a) xs \<Longrightarrow> loop_repr (events_task_free a ev, None) xs"
proof -
  assume "loop_repr (ev, Some a) xs"
  then obtain as where as: "ev_wf ev as" "a \<notin> set as" "xs = ev_data (ev_heap ev) as" "\<not> ev_shutdown ev"
    by (auto simp: loop_repr_def)
  have "\<not> ev_shutdown (events_task_free a ev)" using as(4) by (simp add: events_task_free_def)
  then show ?thesis
    unfolding loop_repr_def using events_free_wf [OF as(1,2)] as(3) by (intro conjI exI [of _ as]) simp_all
qed

lemma loop_take_front:
  assumes "loop_repr l (y # xs)" and "loop_take l e l'" shows "e = y \<and> loop_repr l' xs"
proof -
  have "snd l = None" using assms(2) by (simp add: loop_take_def)
  from loop_take_repr [OF assms(1) this] assms(2) show ?thesis by blast
qed

lemma loop_take_empty:
  assumes "loop_repr l []" shows "\<not> loop_take l e l'"
proof -
  have "events_task_take (fst l) = Some TaskWait"
    using assms events_take_empty [of "fst l"] by (auto simp: loop_repr_def ev_data_def)
  then show ?thesis by (simp add: loop_take_def)
qed

interpretation evq: fifo loop_repr loop_post loop_take
  by unfold_locales (rule loop_post_repr loop_take_front loop_take_empty, assumption+)+

lemma loop_run_repr:
  "loop_run l ops l' \<Longrightarrow> loop_repr l xs \<Longrightarrow> \<exists>ys. loop_repr l' ys \<and> xs @ posted ops = ran ops @ ys"
proof (induction arbitrary: xs rule: loop_run.induct)
  case (loop_posts l e l1 ops l2)
  from loop_posts.IH [OF evq.enq_repr [OF loop_posts.prems loop_posts.hyps(1)]] show ?case by simp
next
  case (loop_post_fails ev e rs ev1 r ops l2)
  then show ?case by (simp add: duer_events_call_def)
next
  case (loop_takes l e l1 ops l2)
  then obtain ys where "xs = e # ys" "loop_repr l1 ys" using evq.deq_front [OF loop_takes.prems loop_takes.hyps(1)] by blast
  with loop_takes.IH show ?case by auto
next
  case (loop_frees a ev ops l2)
  from loop_frees.IH [OF loop_free_repr [OF loop_frees.prems]] show ?case by simp
qed auto

text \<open>Left to itself the task runs everything that waits.\<close>

lemma loop_drains:
  "loop_repr (ev, None) xs \<Longrightarrow> \<exists>ops ev'. loop_run (ev, None) ops (ev', None) \<and> posted ops = [] \<and> ran ops = xs \<and> loop_repr (ev', None) []"
proof (induction xs arbitrary: ev)
  case Nil
  then show ?case by (intro exI [of _ "[]"] exI [of _ ev]) (auto intro: loop_done)
next
  case (Cons x xs)
  from loop_take_repr [OF Cons.prems] obtain l1 where t: "loop_take (ev, None) x l1" and r: "loop_repr l1 xs" by auto
  then obtain ev1 a where l1: "l1 = (ev1, Some a)" by (cases l1) (auto simp: loop_take_def)
  from Cons.IH [OF loop_free_repr [OF r [unfolded l1]]] obtain ops ev' where
    ops: "loop_run (events_task_free a ev1, None) ops (ev', None)" "posted ops = []" "ran ops = xs" "loop_repr (ev', None) []" by blast
  have "loop_run (ev, None) (Take x # Free # ops) (ev', None)"
    by (rule loop_takes [OF t [unfolded l1] loop_frees [OF ops(1)]])
  then show ?case using ops by (intro exI [of _ "Take x # Free # ops"] exI [of _ ev']) simp
qed

section \<open>Destroying\<close>

lemma events_free_all_back:
  "next_links h (as @ [a]) \<Longrightarrow> distinct (as @ [a]) \<Longrightarrow>
   events_free_all h (Some a) =
   events_free_all (h |` (- set (as @ [a]))) (next_of h (hd (as @ [a])))"
proof (induction as arbitrary: h a rule: rev_induct)
  case Nil
  then obtain n where "h a = Some n" by auto
  moreover have "h(a := None) = h |` (- {a})" by (rule ext) (simp add: restrict_map_def)
  ultimately show ?case
    by (subst events_free_all.simps) (simp add: next_of_def del: fun_upd_apply)
next
  case (snoc b as)
  from snoc.prems obtain n where n: "h a = Some n" and nx: "em_next n = Some b"
    and links: "next_links h (as @ [b])" and notin: "a \<notin> set (as @ [b])"
    by (auto simp: next_links_snoc next_of_def split: option.splits)
  have "events_free_all h (Some a) = events_free_all (h(a := None)) (Some b)"
    using n nx by (subst events_free_all.simps) simp
  also have "\<dots> = events_free_all ((h(a := None)) |` (- set (as @ [b])))
    (next_of (h(a := None)) (hd (as @ [b])))"
  proof (rule snoc.IH)
    show "next_links (h(a := None)) (as @ [b])" 
      by (rule next_links_frame [THEN iffD2, OF notin links])
    show "distinct (as @ [b])" using snoc.prems(2) by simp
  qed
  also have "(h(a := None)) |` (- set (as @ [b])) = h |` (- set ((as @ [b]) @ [a]))"
    by (rule ext) (simp add: restrict_map_def)
  also have "next_of (h(a := None)) (hd (as @ [b])) = next_of h (hd ((as @ [b]) @ [a]))"
    using notin by (cases as) auto
  finally show ?case .
qed

lemma events_destroy_wf:
  assumes "ev_wf ev as" and "\<not> ev_shutdown ev"
  shows "duer_events_destroy (Some ev) =
    (if as = [] then Some (ev_heap ev)
     else events_free_all (ev_heap ev |` (- set as)) (next_of (ev_heap ev) (hd as)))"
proof (cases as rule: rev_cases)
  case Nil
  with assms show ?thesis by (simp add: duer_events_destroy_def ev_wf_def events_free_all.simps)
next
  case (snoc bs b)
  with assms events_free_all_back [of "ev_heap ev" bs b] show ?thesis
    by (simp add: duer_events_destroy_def ev_wf_def)
qed

section \<open>Properties\<close>

text \<open>C24: Under any interleaving of posts, allocations that fail, and steps of the task, which takes a message, runs its callback
  and frees it, no access goes wrong and the callbacks that ran are the first of the posted ones, in the order of posting
  and each once; and the task, left to itself, runs all the others.\<close>

theorem events_run_in_order:
  assumes "duer_events_create name [] True = Some (Some ev, m)" and "loop_run (ev, None) ops (ev', r)"
  shows "\<exists>ys. loop_repr (ev', r) ys \<and> posted ops = ran ops @ ys \<and>
    (\<exists>ops2 ev2. loop_run (ev', r) ops2 (ev2, None) \<and> posted ops2 = [] \<and> ran ops2 = ys \<and> loop_repr (ev2, None) [])"
proof -
  have "loop_repr (ev, None) []"
    using assms(1) by (auto simp: duer_events_create_def loop_repr_def ev_wf_def Let_def intro!: exI [of _ "[]"])
  from loop_run_repr [OF assms(2) this] obtain ys where ys: "loop_repr (ev', r) ys" "posted ops = ran ops @ ys" by auto
  have "\<exists>ops2 ev2. loop_run (ev', r) ops2 (ev2, None) \<and> posted ops2 = [] \<and> ran ops2 = ys \<and> loop_repr (ev2, None) []"
  proof (cases r)
    case None
    then show ?thesis using loop_drains ys(1) by blast
  next
    case (Some a)
    from loop_drains [OF loop_free_repr [OF ys(1) [unfolded Some]]] obtain ops2 ev2 where
      "loop_run (events_task_free a ev', None) ops2 (ev2, None)" "posted ops2 = []" "ran ops2 = ys" "loop_repr (ev2, None) []" by blast
    then show ?thesis unfolding Some by (intro exI [of _ "Free # ops2"] exI [of _ ev2]) (simp add: loop_frees)
  qed
  then show ?thesis using ys by blast
qed

theorem events_run_in_order_witness:
  "\<exists>ev ev' r. duer_events_create None [] True = Some (Some ev, []) \<and>
     loop_run (ev, None) [Post (5::nat), Take 5, Post 6, Free] (ev', r) \<and> (\<exists>ys. loop_repr (ev', r) ys \<and> [5, 6] = [5] @ ys)"
proof -
  let ?m = "\<lambda>d p n. \<lparr>em_data = (d::nat), em_pre = p, em_next = n\<rparr>"
  let ?mk = "\<lambda>h hd tl. \<lparr>ev_heap = h, ev_head = hd, ev_tail = tl, ev_name = Some ''default'',
    ev_shutdown = False\<rparr>"
  let ?e0 = "?mk Map.empty None None"
  let ?e1 = "?mk [1 \<mapsto> ?m 5 None None] (Some 1) (Some 1)"
  let ?e2 = "?mk [1 \<mapsto> ?m 5 None None] None None"
  let ?e3 = "?mk [1 \<mapsto> ?m 5 None None, 2 \<mapsto> ?m 6 None None] (Some 2) (Some 2)"
  have c: "duer_events_create None [] True = Some (Some ?e0, [])"
    by (simp add: duer_events_create_def)
  have e1: "loop_post (?e0, None) 5 (?e1, None)" unfolding loop_post_def
    by (rule exI [of _ 1]) (simp add: duer_events_call_def)
  have t: "loop_take (?e1, None) 5 (?e2, Some 1)" by (simp add: loop_take_def events_task_take_def)
  have e2: "loop_post (?e2, Some 1) 6 (?e3, Some 1)" unfolding loop_post_def
    by (rule exI [of _ 2]) (simp add: duer_events_call_def)
  have run: "loop_run (?e0, None) [Post 5, Take 5, Post 6, Free] (events_task_free 1 ?e3, None)"
    using e1 t e2 by (blast intro: loop_run.intros)
  from events_run_in_order [OF c run] c run show ?thesis by fastforce
qed

text \<open>Destroying an event loop whose oldest waiting message has a \<^verbatim>\<open>NULL\<close> \<^verbatim>\<open>_next\<close> link (nothing
  was posted in front of it, or nothing is waiting) returns and frees exactly the waiting messages.\<close>

theorem events_destroy_frees_backlog:
  assumes "ev_wf ev as" and "\<not> ev_shutdown ev" and "as \<noteq> [] \<Longrightarrow> next_of (ev_heap ev) (hd as) = None"
  shows "duer_events_destroy (Some ev) = Some (ev_heap ev |` (- set as))"
  using assms(3)
  by (cases "as = []")
    (simp_all add: events_destroy_wf [OF assms(1,2)] events_free_all.simps restrict_map_def)

theorem events_destroy_frees_backlog_witness:
  "duer_events_destroy (Some \<lparr>ev_heap = [1 \<mapsto> \<lparr>em_data = (5::nat), em_pre = Some 2, em_next = None\<rparr>,
      2 \<mapsto> \<lparr>em_data = 6, em_pre = None, em_next = Some 1\<rparr>],
     ev_head = Some 2, ev_tail = Some 1, ev_name = None, ev_shutdown = False\<rparr>)
   = Some ([1 \<mapsto> \<lparr>em_data = (5::nat), em_pre = Some 2, em_next = None\<rparr>,
      2 \<mapsto> \<lparr>em_data = 6, em_pre = None, em_next = Some 1\<rparr>] |` (- {1, 2}))"
proof -
  let ?ev = "\<lparr>ev_heap = [1 \<mapsto> \<lparr>em_data = (5::nat), em_pre = Some 2, em_next = None\<rparr>,
      2 \<mapsto> \<lparr>em_data = 6, em_pre = None, em_next = Some 1\<rparr>],
     ev_head = Some 2, ev_tail = Some 1, ev_name = None, ev_shutdown = False\<rparr>"
  have "ev_wf ?ev [1, 2]" by (simp add: ev_wf_def next_of_def)
  from events_destroy_frees_backlog [OF this] show ?thesis by (simp add: next_of_def)
qed

text \<open>Once the task has taken a message while another one was waiting behind it, destroying
  the loop before the backlog is empty follows the \<^verbatim>\<open>_next\<close> link of the oldest waiting message
  into the freed one: a use after free.\<close>

theorem events_destroy_use_after_free:
  assumes "ev_wf ev as" and "events_task_take ev = Some (TaskRun a e ev1)" and "ev_tail ev1 \<noteq> None"
  shows "duer_events_destroy (Some (events_task_free a ev1)) = None"
proof -
  from assms obtain n b bs where tail: "ev_tail ev = Some a" and n: "ev_heap ev a = Some n"
    and run: "\<not> ev_shutdown ev" and as: "as = a # b # bs"
    and ev1: "ev1 = ev\<lparr>ev_tail := Some b, ev_head := ev_head ev\<rparr>" and pre: "em_pre n = Some b"
    by (auto simp: ev_wf_def events_task_take_def split: if_splits option.splits)
  let ?ev = "events_task_free a ev1"
  have nxt: "next_of (ev_heap ev) b = Some a" and ne: "b \<noteq> a"
    using assms(1) as by (auto simp: ev_wf_def)
  have "ev_wf ?ev (b # bs)"
    using assms(1) as pre n ev1 next_links_tl
    by (auto simp: ev_wf_def events_task_free_def pre_path_frame next_links_frame)
  moreover have "\<not> ev_shutdown ?ev" using run ev1 by (simp add: events_task_free_def)
  ultimately have "duer_events_destroy (Some ?ev) =
    events_free_all (ev_heap ?ev |` (- set (b # bs))) (next_of (ev_heap ?ev) b)"
    by (simp add: events_destroy_wf)
  also have "next_of (ev_heap ?ev) b = Some a"
    using nxt ne ev1 by (simp add: events_task_free_def)
  also have "events_free_all (ev_heap ?ev |` (- set (b # bs))) (Some a) = None"
    by (subst events_free_all.simps) (simp add: events_task_free_def restrict_map_def)
  finally show ?thesis .
qed

theorem events_destroy_use_after_free_witness:
  "\<exists>ev ev1. ev_wf ev [1, 2] \<and> events_task_take ev = Some (TaskRun 1 (5::nat) ev1) \<and>
     duer_events_destroy (Some (events_task_free 1 ev1)) = None"
proof -
  let ?ev = "\<lparr>ev_heap = [1 \<mapsto> \<lparr>em_data = (5::nat), em_pre = Some 2, em_next = None\<rparr>,
      2 \<mapsto> \<lparr>em_data = 6, em_pre = None, em_next = Some 1\<rparr>],
     ev_head = Some 2, ev_tail = Some 1, ev_name = None, ev_shutdown = False\<rparr>"
  have wf: "ev_wf ?ev [1, 2]" by (simp add: ev_wf_def next_of_def)
  have take: "events_task_take ?ev = Some (TaskRun 1 5 (?ev\<lparr>ev_tail := Some 2\<rparr>))"
    by (simp add: events_task_take_def)
  have "duer_events_destroy (Some (events_task_free 1 (?ev\<lparr>ev_tail := Some 2\<rparr>))) = None"
    by (rule events_destroy_use_after_free [OF wf take]) simp
  with wf take show ?thesis by blast
qed

end
