(* ===== verification/Timers.thy ===== *)
theory Timers
  imports DuerPrelude
begin

text \<open>
  \<^verbatim>\<open>platform/source-linux/lightduer_timers.c\<close> over the POSIX timer functions of the C library:
  \<^verbatim>\<open>timer_settime\<close> refuses a time whose seconds are negative or whose nanoseconds are not in
  0..999999999, disarms the timer when both are 0 and arms it otherwise. Times are pairs of seconds
  and nanoseconds. The outcome of \<^verbatim>\<open>timer_create\<close> is an argument.
\<close>

section \<open>POSIX timers\<close>

type_synonym timespec = "int \<times> int"

record posix_timer =
  pt_value :: "timespec option"
  pt_interval :: timespec

definition valid_timespec :: "timespec \<Rightarrow> bool" where
  "valid_timespec ts \<longleftrightarrow> 0 \<le> fst ts \<and> 0 \<le> snd ts \<and> snd ts < 1000000000"

definition timer_settime :: "posix_timer \<Rightarrow> timespec \<Rightarrow> timespec \<Rightarrow> bool \<times> posix_timer" where
  "timer_settime p v i =
     (if \<not> (valid_timespec v \<and> valid_timespec i) then (False, p)
      else (True, \<lparr>pt_value = (if v = (0, 0) then None else Some v), pt_interval = i\<rparr>))"

section \<open>The handle\<close>

datatype timer_type = TIMER_ONCE | TIMER_PERIODIC

text \<open>\<open>tm_timer\<close> is \<open>None\<close> when \<^verbatim>\<open>_timer\<close> is \<^verbatim>\<open>NULL\<close>.\<close>

record timers =
  tm_timer :: "posix_timer option"
  tm_type :: timer_type
  tm_callback :: bool

text \<open>The callback runs when there is one.\<close>

definition duer_timer_callback_wrapper :: "timers option \<Rightarrow> bool" where
  "duer_timer_callback_wrapper timer = (case timer of None \<Rightarrow> False | Some t \<Rightarrow> tm_callback t)"

text \<open>
  The delay in milliseconds is a \<^verbatim>\<open>size_t\<close>: the product with 1000000 wraps at 64 bits, is read as a
  signed number and is split with C's division.
\<close>

definition delay_timespec :: "64 word \<Rightarrow> timespec" where
  "delay_timespec delay =
     (let ns = sint (delay * 1000000)
      in (sgn ns * (\<bar>ns\<bar> div 1000000000), sgn ns * (\<bar>ns\<bar> mod 1000000000)))"

definition duer_timer_start :: "timers option \<Rightarrow> 64 word \<Rightarrow> status \<times> timers option" where
  "duer_timer_start handle delay =
     (case handle of
        None \<Rightarrow> (DUER_ERR_INVALID_PARAMETER, None)
      | Some t \<Rightarrow>
          (case tm_timer t of
             None \<Rightarrow> (DUER_ERR_INVALID_PARAMETER, Some t)
           | Some p \<Rightarrow>
               (let v = delay_timespec delay;
                    i = (if tm_type t = TIMER_PERIODIC then v else (0, 0));
                    (ok, p1) = timer_settime p v i
                in (DUER_OK, Some (t\<lparr>tm_timer := Some p1\<rparr>)))))"

definition duer_timer_is_valid :: "timers option \<Rightarrow> bool" where
  "duer_timer_is_valid handle = (case handle of None \<Rightarrow> False | Some t \<Rightarrow> tm_timer t \<noteq> None)"

definition duer_timer_stop :: "timers option \<Rightarrow> status \<times> timers option" where
  "duer_timer_stop handle =
     (case handle of
        None \<Rightarrow> (0, None)
      | Some t \<Rightarrow>
          (case tm_timer t of
             None \<Rightarrow> (0, Some t)
           | Some p \<Rightarrow> (0, Some (t\<lparr>tm_timer := Some (snd (timer_settime p (0, 0) (0, 0)))\<rparr>))))"

text \<open>Releasing: the POSIX timer is stopped and deleted, then the handle is freed.\<close>

definition duer_timer_release :: "timers option \<Rightarrow> timers option" where
  "duer_timer_release handle = None"

text \<open>
  When \<^verbatim>\<open>timer_create\<close> fails the handle is released with \<^verbatim>\<open>_timer\<close> uninitialised: the fault \<open>None\<close>.
\<close>

definition duer_timer_acquire ::
  "bool \<Rightarrow> timer_type \<Rightarrow> bool \<Rightarrow> mem \<Rightarrow> (timers option \<times> mem) option" where
  "duer_timer_acquire callback type create_ok m =
     (let (ok, m1) = malloc_ok m
      in if \<not> ok then Some (duer_timer_release None, m1)
         else if \<not> create_ok then None
         else Some (Some \<lparr>tm_timer = Some \<lparr>pt_value = None, pt_interval = (0, 0)\<rparr>,
                          tm_type = type, tm_callback = callback\<rparr>, m1))"

section \<open>Which delays arm the timer\<close>

definition armed_for :: "timers option \<Rightarrow> timespec option" where
  "armed_for handle = Option.bind handle (\<lambda>t. Option.bind (tm_timer t) pt_value)"

lemma sint_delay:
  "ms \<le> 9223372036854 \<Longrightarrow> sint ((of_nat ms :: 64 word) * 1000000) = int ms * 1000000"
proof -
  assume "ms \<le> 9223372036854"
  then have "int ms * 1000000 < 2 ^ 63" by simp
  moreover have "(of_nat ms :: 64 word) * 1000000 = word_of_int (int ms * 1000000)" by simp
  ultimately show ?thesis
    by (simp only: signed_of_int) (simp add: signed_take_bit_int_eq_self)
qed

lemma delay_timespec_ms:
  assumes "ms \<le> 9223372036854"
  shows "delay_timespec (of_nat ms) = (int ms div 1000, int ms mod 1000 * 1000000)"
proof -
  have "int ms * 1000000 mod 1000000000 = int ms mod 1000 * 1000000"
    using mult_mod_left [of "int ms" 1000 1000000] by (simp add: mult.commute)
  moreover have "int ms * 1000000 div 1000000000 = int ms div 1000"
    using zdiv_zmult2_eq [of 1000 "int ms * 1000000" 1000000] by simp
  ultimately show ?thesis
    by (simp add: delay_timespec_def sint_delay [OF assms] sgn_if Let_def)
qed

text \<open>A timer started with a delay between 1 millisecond and 292 years is armed for exactly that
  time, and stopping disarms it.\<close>

theorem timer_start_arms:
  assumes "tm_timer t = Some p" "0 < ms" "ms \<le> 9223372036854"
  shows "armed_for (snd (duer_timer_start (Some t) (of_nat ms))) = Some (int ms div 1000, int ms mod 1000 * 1000000) \<and>
     armed_for (snd (duer_timer_stop (snd (duer_timer_start (Some t) (of_nat ms))))) = None"
proof -
  let ?v = "(int ms div 1000, int ms mod 1000 * 1000000)"
  have "valid_timespec ?v" by (simp add: valid_timespec_def)
  moreover have "?v \<noteq> (0, 0)" using assms(2) by (simp add: prod_eq_iff)
  ultimately show ?thesis
    using assms(1) unfolding duer_timer_start_def delay_timespec_ms [OF assms(3)]
    by (simp add: duer_timer_stop_def timer_settime_def valid_timespec_def armed_for_def Let_def del: Pair_inject)
qed

theorem timer_start_arms_witness:
  "armed_for (snd (duer_timer_start (Some \<lparr>tm_timer = Some \<lparr>pt_value = None, pt_interval = (0, 0)\<rparr>,
     tm_type = TIMER_ONCE, tm_callback = True\<rparr>) 55000)) = Some (55, 0)"
  using timer_start_arms [of "\<lparr>tm_timer = Some \<lparr>pt_value = None, pt_interval = (0, 0)\<rparr>,
     tm_type = TIMER_ONCE, tm_callback = True\<rparr>" _ 55000] by simp

end
