(* ===== verification/Engine.thy ===== *)
theory Engine
  imports CaAgent QueueCache EventQueue Timers
begin

text \<open>
  \<^verbatim>\<open>modules/connagent/lightduer_engine.c\<close> and \<^verbatim>\<open>lightduer_connagent.c\<close>: the engine that owns the agent,
  the queue of outgoing messages and the timer, and the interface the application calls. The
  interface posts calls to the event loop, whose task runs them one after the other; a finished
  call notifies a callback of the interface, which may post again or stop the connection. The two
  files are mutually recursive through that callback, so they are one theory.

  The queue and the event loop are at the list level their theories establish: the queue is an
  \<open>lqueue\<close>, the loop a list of posted calls. Each section under the queue's mutex is one step. The
  global variables are the record \<open>eng\<close>; \<open>e_world\<close> is the state of the libraries below and
  \<open>e_log\<close> the effects the application sees: the calls of its event callback, the start and end of
  the voice module, the CoAP events and the messages taken into the queue, sent and dropped.
  \<open>e_tcreate\<close> are the upcoming outcomes of \<^verbatim>\<open>timer_create\<close>.

  An operation that calls the agent's start loop has the agent's result type: the outer \<open>None\<close>
  means that it does not return and the inner one that it has no defined result.
\<close>

section \<open>State\<close>

datatype ecall =
    CallCreate
  | CallStart int "string option"
  | CallAddResources nat "res list option"
  | CallDataAvailable
  | CallSend
  | CallStop
  | CallDestroy

datatype eng_event =
  EVT_CREATE | EVT_START | EVT_ADD_RESOURCES | EVT_SEND_DATA | EVT_DATA_AVAILABLE | EVT_STOP | EVT_DESTROY

fun evt_code :: "eng_event \<Rightarrow> nat" where
  "evt_code EVT_CREATE = 0"
| "evt_code EVT_START = 1"
| "evt_code EVT_ADD_RESOURCES = 2"
| "evt_code EVT_SEND_DATA = 3"
| "evt_code EVT_DATA_AVAILABLE = 4"
| "evt_code EVT_STOP = 5"
| "evt_code EVT_DESTROY = 6"

datatype eng_eff =
    EffStarted status
  | EffStopped status
  | EffVoiceInit
  | EffVoiceFin
  | EffCoap coap_event
  | EffQueued coap_msg
  | EffSent coap_msg
  | EffDropped coap_msg

record 'n eng =
  g_handler :: "'n ca option"
  g_notify_func :: bool
  g_timer :: "timers option"
  g_qcache_handler :: "coap_msg lqueue"
  g_qcache_mutex :: bool
  g_start_timeout :: u32
  g_event_callback :: bool
  g_events_handler :: "ecall list option"
  e_world :: world
  e_tcreate :: mem
  e_log :: "eng_eff list"

type_synonym 'n eng_result = "'n eng option option"

definition KEEPALIVE_INTERVAL :: nat where "KEEPALIVE_INTERVAL = 55 * 1000"
definition START_TIMEOUT :: u32 where "START_TIMEOUT = 1 * 1000"

definition eng_log :: "eng_eff \<Rightarrow> 'n eng \<Rightarrow> 'n eng" where
  "eng_log x e = e\<lparr>e_log := e_log e @ [x]\<rparr>"

definition eng_malloc :: "'n eng \<Rightarrow> bool \<times> 'n eng" where
  "eng_malloc e = (let (ok, w) = w_malloc (e_world e) in (ok, e\<lparr>e_world := w\<rparr>))"

section \<open>Posting\<close>

definition duer_events_call_internal :: "ecall \<Rightarrow> 'n eng \<Rightarrow> status \<times> 'n eng" where
  "duer_events_call_internal c e =
     (case g_events_handler e of
        None \<Rightarrow> (DUER_ERR_FAILED, e)
      | Some q \<Rightarrow>
          (let (ok, e1) = eng_malloc e
           in if ok then (DUER_OK, e1\<lparr>g_events_handler := Some (q @ [c])\<rparr>)
              else (DUER_ERR_FAILED, e1)))"

definition duer_data_send :: "'n eng \<Rightarrow> status \<times> 'n eng" where
  "duer_data_send e = duer_events_call_internal CallSend e"

definition duer_engine_qcache_length :: "'n eng \<Rightarrow> nat" where
  "duer_engine_qcache_length e = lq_length (g_qcache_handler e)"

definition duer_engine_is_started :: "'n eng \<Rightarrow> bool" where
  "duer_engine_is_started e = baidu_ca_is_started (g_handler e)"

section \<open>Notifications\<close>

definition duer_event_notify :: "eng_eff \<Rightarrow> 'n eng \<Rightarrow> 'n eng" where
  "duer_event_notify x e = (if g_event_callback e then eng_log x e else e)"

text \<open>
  The switch of \<^verbatim>\<open>duer_engine_notify_callback\<close>; what it does with the object is to free it. The tail of
  the callback stops the connection after a failed action; the notification of that stop has no
  tail, so the recursion is unrolled once.
\<close>

definition notify_switch :: "eng_event \<Rightarrow> status \<Rightarrow> 'n eng \<Rightarrow> 'n eng" where
  "notify_switch event status e =
     (case event of
        EVT_CREATE \<Rightarrow> e
      | EVT_START \<Rightarrow>
          (if status = DUER_OK then duer_event_notify (EffStarted status) (eng_log EffVoiceInit e)
           else if status = DUER_ERR_TRANS_WOULD_BLOCK then e
           else if status = DUER_ERR_CONNECT_TIMEOUT
           then snd (duer_events_call_internal (CallStart 0 None) e)
           else e)
      | EVT_ADD_RESOURCES \<Rightarrow> e
      | EVT_SEND_DATA \<Rightarrow>
          (if 0 \<le> status \<and> 0 < duer_engine_qcache_length e then snd (duer_data_send e) else e)
      | EVT_DATA_AVAILABLE \<Rightarrow> e
      | EVT_STOP \<Rightarrow> duer_event_notify (EffStopped status) (eng_log EffVoiceFin e)
      | EVT_DESTROY \<Rightarrow> e\<lparr>g_events_handler := None\<rparr>)"

definition duer_engine_stop :: "status \<Rightarrow> 'n eng \<Rightarrow> 'n eng" where
  "duer_engine_stop what e =
     (let e1 = (case g_handler e of
                  None \<Rightarrow> e
                | Some ctx \<Rightarrow>
                    (if baidu_ca_is_stopped (Some ctx) then e
                     else (case baidu_ca_stop ctx (e_world e) of
                             (rs, ctx1, w1) \<Rightarrow> e\<lparr>g_handler := Some ctx1, e_world := w1\<rparr>)))
      in if g_notify_func e1 then notify_switch EVT_STOP what e1 else e1)"

definition duer_engine_notify_callback :: "eng_event \<Rightarrow> status \<Rightarrow> 'n eng \<Rightarrow> 'n eng" where
  "duer_engine_notify_callback event status e =
     (let e1 = notify_switch event status e
      in if evt_code event < evt_code EVT_STOP \<and> status \<noteq> DUER_OK
            \<and> status \<noteq> DUER_ERR_TRANS_WOULD_BLOCK \<and> status \<noteq> DUER_ERR_CONNECT_TIMEOUT
         then duer_engine_stop status e1 else e1)"

definition duer_engine_notify :: "eng_event \<Rightarrow> status \<Rightarrow> 'n eng \<Rightarrow> 'n eng" where
  "duer_engine_notify event status e =
     (if g_notify_func e then duer_engine_notify_callback event status e else e)"

section \<open>The timer\<close>

definition eng_timer_start :: "64 word \<Rightarrow> 'n eng \<Rightarrow> 'n eng" where
  "eng_timer_start delay e =
     (if g_timer e \<noteq> None then e\<lparr>g_timer := snd (duer_timer_start (g_timer e) delay)\<rparr> else e)"

definition eng_timer_stop :: "'n eng \<Rightarrow> 'n eng" where
  "eng_timer_stop e =
     (if g_timer e \<noteq> None then e\<lparr>g_timer := snd (duer_timer_stop (g_timer e))\<rparr> else e)"

section \<open>Creating and destroying\<close>

definition eng_create_timer :: "'n eng \<Rightarrow> 'n eng option" where
  "eng_create_timer e =
     (if g_timer e \<noteq> None then Some e
      else
        (let (ok, tc) = malloc_ok (e_tcreate e)
         in case duer_timer_acquire True TIMER_ONCE ok (w_mem (e_world e)) of
              None \<Rightarrow> None
            | Some (t, m) \<Rightarrow>
                Some (e\<lparr>g_timer := t, e_world := (e_world e)\<lparr>w_mem := m\<rparr>, e_tcreate := tc\<rparr>)))"

definition eng_create_handler :: "'n eng \<Rightarrow> 'n eng" where
  "eng_create_handler e =
     (if g_handler e = None
      then (let (h, w) = baidu_ca_acquire (e_world e) in e\<lparr>g_handler := h, e_world := w\<rparr>)
      else e)"

definition eng_create_queue :: "'n eng \<Rightarrow> 'n eng" where
  "eng_create_queue e =
     (if g_qcache_handler e = None
      then (let (ok, e1) = eng_malloc e in e1\<lparr>g_qcache_handler := (if ok then Some [] else None)\<rparr>)
      else e)"

definition eng_create_mutex :: "'n eng \<Rightarrow> 'n eng" where
  "eng_create_mutex e =
     (if \<not> g_qcache_mutex e
      then (let (ok, e1) = eng_malloc e in e1\<lparr>g_qcache_mutex := ok\<rparr>)
      else e)"

definition duer_engine_create :: "'n eng \<Rightarrow> 'n eng option" where
  "duer_engine_create e =
     map_option (duer_engine_notify EVT_CREATE DUER_OK)
       (eng_create_timer (eng_create_mutex (eng_create_queue (eng_create_handler e))))"

text \<open>Dropping what is queued, from the front, up to the first \<^verbatim>\<open>NULL\<close> that \<^verbatim>\<open>duer_qcache_pop\<close> returns.\<close>

fun drop_queued :: "coap_msg option list \<Rightarrow> coap_msg option list \<times> eng_eff list" where
  "drop_queued [] = ([], [])"
| "drop_queued (None # xs) = (xs, [])"
| "drop_queued (Some m # xs) = (let (r, l) = drop_queued xs in (r, EffDropped m # l))"

definition duer_engine_clear_data :: "'n eng \<Rightarrow> 'n eng" where
  "duer_engine_clear_data e =
     (case g_qcache_handler e of
        None \<Rightarrow> e
      | Some xs \<Rightarrow>
          (let (r, l) = drop_queued xs in e\<lparr>g_qcache_handler := Some r, e_log := e_log e @ l\<rparr>))"

definition duer_engine_destroy :: "'n eng \<Rightarrow> 'n eng" where
  "duer_engine_destroy e =
     (let e1 = (if g_timer e \<noteq> None then e\<lparr>g_timer := duer_timer_release (g_timer e)\<rparr> else e);
          e2 = (if g_qcache_handler e1 \<noteq> None
                then (duer_engine_clear_data e1)\<lparr>g_qcache_handler := None\<rparr> else e1);
          e3 = e2\<lparr>g_qcache_mutex := False\<rparr>;
          e4 = (if g_handler e3 \<noteq> None
                then e3\<lparr>g_handler := None, e_world := snd (baidu_ca_release (g_handler e3) (e_world e3))\<rparr>
                else e3)
      in duer_engine_notify EVT_DESTROY DUER_OK e4)"

section \<open>Starting\<close>

text \<open>Loading the profile a start call carries: the state and the status it leaves.\<close>

definition eng_load :: "'n sdk \<Rightarrow> int \<Rightarrow> string option \<Rightarrow> 'n eng \<Rightarrow> (status \<times> 'n eng) option" where
  "eng_load d what object e =
     (if 0 < what \<and> object \<noteq> None
      then
        (case duer_engine_create (e\<lparr>g_start_timeout := START_TIMEOUT\<rparr>) of
           None \<Rightarrow> None
         | Some e1 \<Rightarrow>
             (case baidu_ca_load_configuration d (g_handler e1) (the object) (e_world e1) of
                None \<Rightarrow> None
              | Some (rs, h, w) \<Rightarrow>
                  Some (if rs < DUER_OK then DUER_ERR_PROFILE_INVALID else DUER_OK,
                        e1\<lparr>g_handler := h, e_world := w\<rparr>)))
      else Some (DUER_OK, e))"

text \<open>Running the agent's start: its result, with the events it reported in the log.\<close>

definition eng_put_ca :: "(status \<times> coap_event list \<times> 'n ca \<times> world) \<Rightarrow> 'n eng \<Rightarrow> status \<times> 'n eng" where
  "eng_put_ca r e =
     (case r of (rs, evs, ctx, w) \<Rightarrow>
        (rs, e\<lparr>g_handler := Some ctx, e_world := w, e_log := e_log e @ map EffCoap evs\<rparr>))"

definition eng_ca_start :: "'n sdk \<Rightarrow> 'n eng \<Rightarrow> (status \<times> 'n eng) option option" where
  "eng_ca_start d e =
     (case g_handler e of
        None \<Rightarrow> Some (Some (DUER_ERR_FAILED, e))
      | Some ctx \<Rightarrow>
          map_option (map_option (\<lambda>r. eng_put_ca r e)) (baidu_ca_start d ctx (e_world e)))"

definition start_status :: "status \<Rightarrow> status" where
  "start_status rs =
     (if rs = DUER_ERR_TRANS_WOULD_BLOCK then DUER_ERR_TRANS_WOULD_BLOCK
      else if rs \<noteq> DUER_OK then DUER_ERR_FAILED else DUER_OK)"

text \<open>\<^verbatim>\<open>start_timeout\<close> is an \<^verbatim>\<open>int\<close>: it is widened with its sign and doubled at 32 bits.\<close>

definition start_timer :: "status \<Rightarrow> 'n eng \<Rightarrow> 'n eng" where
  "start_timer status e =
     (if g_timer e \<noteq> None then
        (if status = DUER_OK then eng_timer_start (of_nat KEEPALIVE_INTERVAL) e
         else if status = DUER_ERR_TRANS_WOULD_BLOCK
         then (eng_timer_start (scast (g_start_timeout e)) e)\<lparr>g_start_timeout := push_bit 1 (g_start_timeout e)\<rparr>
         else e)
      else e)"

definition start_finish :: "status \<Rightarrow> 'n eng \<Rightarrow> 'n eng" where
  "start_finish status e = duer_engine_notify EVT_START status (start_timer status e)"

definition duer_engine_start :: "'n sdk \<Rightarrow> int \<Rightarrow> string option \<Rightarrow> 'n eng \<Rightarrow> 'n eng_result" where
  "duer_engine_start d what object e =
     (if baidu_ca_is_started (g_handler e) then Some (Some e)
      else
        (case eng_load d what object e of
           None \<Rightarrow> Some None
         | Some (st, e1) \<Rightarrow>
             (if st = DUER_ERR_PROFILE_INVALID then Some (Some (start_finish st e1))
              else
                map_option (map_option (\<lambda>(rs, e2). start_finish (start_status rs) e2))
                  (eng_ca_start d e1))))"

section \<open>Receiving\<close>

definition duer_engine_add_resources :: "'n sdk \<Rightarrow> nat \<Rightarrow> res list option \<Rightarrow> 'n eng \<Rightarrow> 'n eng_result" where
  "duer_engine_add_resources d what object e =
     (case g_handler e of
        None \<Rightarrow> Some None
      | Some ctx \<Rightarrow>
          (case baidu_ca_add_resources d ctx object what (e_world e) of
             None \<Rightarrow> None
           | Some None \<Rightarrow> Some None
           | Some (Some (rs, ctx1, w1)) \<Rightarrow>
               Some (Some (duer_engine_notify EVT_ADD_RESOURCES (if rs < DUER_OK then DUER_ERR_FAILED else DUER_OK)
                             (e\<lparr>g_handler := Some ctx1, e_world := w1\<rparr>)))))"

definition data_status :: "status \<Rightarrow> status" where
  "data_status rs =
     (if rs = DUER_ERR_TRANS_WOULD_BLOCK then DUER_ERR_TRANS_WOULD_BLOCK
      else if rs < DUER_OK then DUER_ERR_FAILED else DUER_OK)"

text \<open>When the agent is stopped the variable \<^verbatim>\<open>is_started\<close> holds that it is stopped.\<close>

definition data_finish :: "bool \<Rightarrow> status \<Rightarrow> 'n eng \<Rightarrow> 'n eng" where
  "data_finish is_started status e =
     (if is_started then duer_engine_notify EVT_DATA_AVAILABLE status e
      else duer_engine_notify EVT_START status
             (if status = DUER_OK then eng_timer_start (of_nat KEEPALIVE_INTERVAL) e else e))"

definition duer_engine_data_available :: "'n sdk \<Rightarrow> 'n eng \<Rightarrow> 'n eng_result" where
  "duer_engine_data_available d e =
     (case g_handler e of
        None \<Rightarrow> Some (Some (data_finish True DUER_OK e))
      | Some ctx \<Rightarrow>
          (if baidu_ca_is_stopped (Some ctx) then Some (Some (data_finish True DUER_OK e))
           else
             map_option (map_option (\<lambda>r. case eng_put_ca r e of (rs, e1) \<Rightarrow>
                data_finish (baidu_ca_is_started (Some ctx)) (data_status rs) e1))
               (baidu_ca_data_available d ctx (e_world e))))"

section \<open>Sending\<close>

text \<open>\<^verbatim>\<open>duer_engine_release_data\<close> frees a message with its payload.\<close>

definition duer_engine_release_data :: "coap_msg option \<Rightarrow> coap_msg option" where
  "duer_engine_release_data msg = baidu_ca_release_message (map_option (\<lambda>m. m\<lparr>m_payload := None\<rparr>) msg)"

definition queue_push :: "coap_msg \<Rightarrow> 'n eng \<Rightarrow> status \<times> 'n eng" where
  "queue_push msg e =
     (case g_qcache_handler e of
        None \<Rightarrow> (DUER_ERR_INVALID_PARAMETER, e)
      | Some xs \<Rightarrow>
          (let (ok, e1) = eng_malloc e;
               (rs, q) = lq_push ok (Some msg) (g_qcache_handler e1);
               e2 = e1\<lparr>g_qcache_handler := q\<rparr>
           in (rs, if rs = DUER_OK then eng_log (EffQueued msg) e2 else e2)))"

definition report_payload :: "'n sdk \<Rightarrow> json \<Rightarrow> 'n eng \<Rightarrow> (string option) option \<times> 'n eng" where
  "report_payload d data e =
     (let (obj, m1) = json_CreateObject (w_mem (e_world e))
      in case obj of
           None \<Rightarrow> (None, e\<lparr>e_world := (e_world e)\<lparr>w_mem := m1\<rparr>\<rparr>)
         | Some p \<Rightarrow>
             (let (p1, m2) = json_AddItemReferenceToObject p ''data'' data m1
              in (Some (sd_print d p1), e\<lparr>e_world := (e_world e)\<lparr>w_mem := m2\<rparr>\<rparr>)))"

text \<open>A report whose payload could not be printed reads the length of a \<^verbatim>\<open>NULL\<close> string: the fault \<open>None\<close>.\<close>

definition duer_engine_enqueue_report_data ::
  "'n sdk \<Rightarrow> bool \<Rightarrow> json option \<Rightarrow> 'n eng \<Rightarrow> (status \<times> 'n eng) option" where
  "duer_engine_enqueue_report_data d le data e =
     (case data of
        None \<Rightarrow> Some (DUER_ERR_INVALID_PARAMETER, e)
      | Some j \<Rightarrow>
          (if g_qcache_handler e = None \<or> g_handler e = None
           then Some (DUER_ERR_INVALID_PARAMETER, e)
           else
             (case report_payload d j e of
                (None, e1) \<Rightarrow> Some (DUER_ERR_MEMORY_OVERLOW, e1)
              | (Some content, e1) \<Rightarrow>
                  (case baidu_ca_build_report_message le (g_handler e1) False (e_world e1) of
                     (msg, h1, w1) \<Rightarrow>
                       (let e2 = e1\<lparr>g_handler := h1, e_world := w1\<rparr>
                        in case msg of
                             None \<Rightarrow> Some (DUER_ERR_MEMORY_OVERLOW, e2)
                           | Some m \<Rightarrow>
                               (case content of
                                  None \<Rightarrow> None
                                | Some s \<Rightarrow>
                                    Some (queue_push (m\<lparr>m_payload := Some (bytes_of s),
                                            m_payload_len := of_nat (length s)\<rparr>) e2)))))))"

text \<open>The size is a \<^verbatim>\<open>duer_size_t\<close>; the message keeps its low 16 bits only.\<close>

definition duer_engine_enqueue_response ::
  "coap_msg option \<Rightarrow> byte \<Rightarrow> byte list \<Rightarrow> nat \<Rightarrow> 'n eng \<Rightarrow> (status \<times> 'n eng) option" where
  "duer_engine_enqueue_response req code data n e =
     (if req = None \<or> g_handler e = None then Some (DUER_ERR_INVALID_PARAMETER, e)
      else
        (case baidu_ca_build_response_message (g_handler e) req code (e_world e) of
           None \<Rightarrow> None
         | Some (msg, w1) \<Rightarrow>
             (let e1 = e\<lparr>e_world := w1\<rparr>
              in case msg of
                   None \<Rightarrow> Some (DUER_ERR_MEMORY_OVERLOW, e1)
                 | Some m \<Rightarrow>
                     (if 0 < n then
                        (let (ok, e2) = eng_malloc e1
                         in if \<not> ok then Some (DUER_ERR_MEMORY_OVERLOW, e2)
                            else
                              (case memget 0 n data of
                                 None \<Rightarrow> None
                               | Some bs \<Rightarrow>
                                   Some (queue_push (m\<lparr>m_payload := Some bs, m_payload_len := of_nat n\<rparr>) e2)))
                      else Some (queue_push (m\<lparr>m_payload := None, m_payload_len := of_nat n\<rparr>) e1)))))"

text \<open>
  \<^verbatim>\<open>duer_engine_send\<close>: up to the call of the agent, what its result does, and the whole. The message is
  released before it is popped; both happen on the event task.
\<close>

definition send_result :: "coap_msg \<Rightarrow> status \<Rightarrow> 'n eng \<Rightarrow> status \<times> 'n eng" where
  "send_result msg rs e =
     (if rs = DUER_ERR_TRANS_WOULD_BLOCK then (DUER_ERR_TRANS_WOULD_BLOCK, e)
      else if rs < DUER_OK then (DUER_ERR_FAILED, e)
      else
        (let e1 = eng_timer_start (of_nat KEEPALIVE_INTERVAL) e;
             (d, q) = lq_pop (g_qcache_handler e1)
         in (DUER_OK, eng_log (EffSent msg) (e1\<lparr>g_qcache_handler := q\<rparr>))))"

definition engine_send_body :: "'n sdk \<Rightarrow> 'n eng \<Rightarrow> (status \<times> 'n eng) option" where
  "engine_send_body d e =
     (case g_handler e of
        None \<Rightarrow> Some (DUER_OK, e)
      | Some ctx \<Rightarrow>
          (if baidu_ca_is_stopped (Some ctx) then Some (DUER_OK, e)
           else
             (let e1 = eng_timer_stop e
              in case lq_top (g_qcache_handler e1) of
                   None \<Rightarrow> Some (DUER_OK, e1)
                 | Some msg \<Rightarrow>
                     (case baidu_ca_send_data d ctx msg (e_world e1) of
                        None \<Rightarrow> None
                      | Some (rs, ctx1, w1) \<Rightarrow>
                          Some (send_result msg rs (e1\<lparr>g_handler := Some ctx1, e_world := w1\<rparr>))))))"

definition duer_engine_send :: "'n sdk \<Rightarrow> 'n eng \<Rightarrow> 'n eng option" where
  "duer_engine_send d e =
     map_option (\<lambda>(status, e1). duer_engine_notify EVT_SEND_DATA status e1) (engine_send_body d e)"

section \<open>The interface\<close>

definition duer_engine_register_notify :: "bool \<Rightarrow> 'n eng \<Rightarrow> 'n eng" where
  "duer_engine_register_notify func e =
     (if g_notify_func e \<noteq> func then e\<lparr>g_notify_func := func\<rparr> else e)"

text \<open>The registration of the socket and memory functions that comes first is the integrator's.\<close>

definition duer_initialize :: "'n eng \<Rightarrow> 'n eng" where
  "duer_initialize e =
     (let e1 = (if g_events_handler e = None
                then (let (ok, e') = eng_malloc e in e'\<lparr>g_events_handler := (if ok then Some [] else None)\<rparr>)
                else e)
      in snd (duer_events_call_internal CallCreate (duer_engine_register_notify True e1)))"

definition duer_set_event_callback :: "bool \<Rightarrow> 'n eng \<Rightarrow> 'n eng" where
  "duer_set_event_callback callback e =
     (if g_event_callback e \<noteq> callback then e\<lparr>g_event_callback := callback\<rparr> else e)"

text \<open>The size of the profile is cast to \<^verbatim>\<open>int\<close>.\<close>

definition duer_start :: "string \<Rightarrow> 'n eng \<Rightarrow> status \<times> 'n eng" where
  "duer_start data e =
     (let (ok, e1) = eng_malloc e
      in if \<not> ok then (DUER_ERR_MEMORY_OVERLOW, e1)
         else duer_events_call_internal
                (CallStart (sint (of_nat (length data) :: u32)) (Some data)) e1)"

text \<open>The copies of the resources: an allocation each, and one for their list.\<close>

fun copy_resources :: "res list \<Rightarrow> 'n eng \<Rightarrow> bool \<times> 'n eng" where
  "copy_resources [] e = (True, e)"
| "copy_resources (r # rs) e =
     (let (ok, e1) = eng_malloc e in if ok then copy_resources rs e1 else (False, e1))"

definition duer_add_resources :: "res list option \<Rightarrow> nat \<Rightarrow> 'n eng \<Rightarrow> (status \<times> 'n eng) option" where
  "duer_add_resources res n e =
     (if \<not> duer_engine_is_started e then Some (DUER_ERR_FAILED, e)
      else
        (case res of
           None \<Rightarrow> Some (DUER_ERR_FAILED, e)
         | Some rs \<Rightarrow>
             (if n = 0 then Some (DUER_ERR_FAILED, e)
              else
                (let (ok, e1) = eng_malloc e
                 in if \<not> ok then Some (DUER_ERR_FAILED, e1)
                    else if length rs < n then None
                    else
                      (let (ok2, e2) = copy_resources (take n rs) e1
                       in if \<not> ok2 then Some (DUER_ERR_FAILED, e2)
                          else
                            (case duer_events_call_internal (CallAddResources n (Some (take n rs))) e2 of
                               (st, e3) \<Rightarrow> Some (if st = DUER_OK then DUER_OK else DUER_ERR_FAILED, e3)))))))"

text \<open>What \<^verbatim>\<open>duer_data_report\<close> does after its message is in the queue: another thread may run in between.\<close>

definition report_check :: "status \<Rightarrow> 'n eng \<Rightarrow> 'n eng" where
  "report_check rs e =
     (if rs = DUER_OK \<and> duer_engine_qcache_length e = 1 then snd (duer_data_send e) else e)"

definition duer_data_report :: "'n sdk \<Rightarrow> bool \<Rightarrow> json option \<Rightarrow> 'n eng \<Rightarrow> (status \<times> 'n eng) option" where
  "duer_data_report d le data e =
     map_option (\<lambda>(rs, e1). (rs, report_check rs e1)) (duer_engine_enqueue_report_data d le data e)"

definition duer_response ::
  "coap_msg option \<Rightarrow> byte \<Rightarrow> byte list \<Rightarrow> nat \<Rightarrow> 'n eng \<Rightarrow> (status \<times> 'n eng) option" where
  "duer_response msg code data n e =
     map_option (\<lambda>(rs, e1). (rs, if rs = DUER_OK then snd (duer_data_send e1) else e1))
       (duer_engine_enqueue_response msg code data n e)"

definition duer_data_available :: "'n eng \<Rightarrow> status \<times> 'n eng" where
  "duer_data_available e = duer_events_call_internal CallDataAvailable e"

definition duer_stop :: "'n eng \<Rightarrow> status \<times> 'n eng" where
  "duer_stop e = duer_events_call_internal CallStop e"

definition duer_finalize :: "'n eng \<Rightarrow> status \<times> 'n eng" where
  "duer_finalize e = duer_events_call_internal CallDestroy e"

section \<open>Callbacks from other threads\<close>

definition duer_timer_expired :: "'n sdk \<Rightarrow> bool \<Rightarrow> 'n eng \<Rightarrow> 'n eng option" where
  "duer_timer_expired d le e =
     (if baidu_ca_is_started (g_handler e) then
        (let (alive, m1) = json_CreateObject (w_mem (e_world e))
         in case alive of
              None \<Rightarrow> Some (e\<lparr>e_world := (e_world e)\<lparr>w_mem := m1\<rparr>\<rparr>)
            | Some a \<Rightarrow>
                (let (a1, m2) = json_AddNumberToObject a ''alive'' 0 m1
                 in map_option snd (duer_data_report d le (Some a1)
                      (e\<lparr>e_world := (e_world e)\<lparr>w_mem := m2\<rparr>\<rparr>))))
      else Some (duer_engine_notify EVT_START DUER_ERR_CONNECT_TIMEOUT e))"

datatype trans_event = TEVT_CONNECT_RDY | TEVT_SEND_RDY | TEVT_RECV_RDY | TEVT_CLOSE_RDY | TEVT_SEND_TIMEOUT

definition duer_transport_notify :: "trans_event \<Rightarrow> 'n eng \<Rightarrow> 'n eng" where
  "duer_transport_notify event e =
     (case event of
        TEVT_RECV_RDY \<Rightarrow> snd (duer_data_available e)
      | TEVT_SEND_RDY \<Rightarrow>
          (if baidu_ca_is_started (g_handler e) then snd (duer_data_send e)
           else duer_engine_notify EVT_START DUER_ERR_CONNECT_TIMEOUT e)
      | TEVT_SEND_TIMEOUT \<Rightarrow>
          duer_engine_clear_data (duer_engine_notify EVT_SEND_DATA DUER_ERR_TRANS_TIMEOUT e)
      | _ \<Rightarrow> e)"

section \<open>The event task\<close>

definition run_call :: "'n sdk \<Rightarrow> ecall \<Rightarrow> 'n eng \<Rightarrow> 'n eng_result" where
  "run_call d c e =
     (case c of
        CallCreate \<Rightarrow> Some (duer_engine_create e)
      | CallStart what object \<Rightarrow> duer_engine_start d what object e
      | CallAddResources n rs \<Rightarrow> duer_engine_add_resources d n rs e
      | CallDataAvailable \<Rightarrow> duer_engine_data_available d e
      | CallSend \<Rightarrow> Some (duer_engine_send d e)
      | CallStop \<Rightarrow> Some (Some (duer_engine_stop 0 e))
      | CallDestroy \<Rightarrow> Some (Some (duer_engine_destroy e)))"

definition task_run :: "'n sdk \<Rightarrow> 'n eng \<Rightarrow> 'n eng_result" where
  "task_run d e =
     (case g_events_handler e of
        Some (c # q) \<Rightarrow> run_call d c (e\<lparr>g_events_handler := Some q\<rparr>)
      | _ \<Rightarrow> Some (Some e))"

end
