(* ===== verification/DcsState.thy ===== *)
theory DcsState
  imports Engine
begin

text \<open>
  The device control service (\<^verbatim>\<open>modules/dcs\<close>): the static variables of its files, the events they
  build and the state they report to the cloud. What the files share is here:
  \<^verbatim>\<open>lightduer_dcs_local.c\<close> and the functions that describe a module's state.

  The service runs on top of the engine, so its state holds the engine's, and the outcomes of its
  allocations are those of the engine's world. The functions the application implements
  (\<^verbatim>\<open>lightduer_dcs_dummy.c\<close> has their empty versions) are effects in \<open>dc_log\<close>; what they return is
  input: \<open>dc_pause_offset\<close>, \<open>dc_speaker\<close> and \<open>dc_alerts\<close>. \<open>dc_ticker\<close> is what the millisecond ticker
  reads. A JSON tree that C code extends through a pointer into it is rebuilt with the changed child
  in place.
\<close>

section \<open>State\<close>

datatype speech_st = SPEECH_PLAYING | SPEECH_FINISHED

datatype play_st = PLAYING | STOPPED | PAUSED | BUFFER_UNDERRUN | FINISHED

record play_item =
  pi_url :: string
  pi_token :: string

datatype dcs_cb =
    CbSpeak | CbPlay | CbStop | CbClearQueue | CbSetVolume | CbAdjustVolume | CbSetMute
  | CbListen | CbStopListen | CbThrowException | CbResetUserInactivity | CbSetAlert | CbDeleteAlert
  | CbApp nat

datatype dcs_eff =
    EffSpeak "string option"
  | EffAudioPlay string
  | EffAudioSeek string int
  | EffAudioStop
  | EffAudioPause
  | EffStopListen
  | EffVolumeSet int
  | EffVolumeAdjust int
  | EffMute bool
  | EffAlertSet "string option" "string option" "string option"
  | EffAlertDelete "string option"
  | EffReport json
  | EffApp nat json

text \<open>
  The list of directives is an allocated array: its slots are \<open>None\<close> until they are written, and the
  whole is \<open>None\<close> when the pointer is \<^verbatim>\<open>NULL\<close>.
\<close>

type_synonym directive_list = "(string \<times> dcs_cb) option list option"

record 'n dcs =
  dc_eng :: "'n eng"
  dc_log :: "dcs_eff list"
  dc_request_id :: u32
  vo_latest_token :: "string option"
  vo_supported :: bool
  vo_state :: speech_st
  ap_queue :: "play_item lqueue"
  ap_latest_token :: "string option"
  ap_supported :: bool
  ap_state :: play_st
  ap_offset :: int
  vi_timer :: "timers option"
  vi_listening :: bool
  vi_multiple :: bool
  sc_supported :: bool
  al_supported :: bool
  sy_timer :: "timers option"
  sy_last_activity :: int
  rt_list :: directive_list
  rt_count :: nat
  dc_first :: "string set"
  dc_pause_offset :: int
  dc_speaker :: "int \<times> bool"
  dc_alerts :: "(string \<times> string \<times> string) list"
  dc_ticker :: int

definition dcs_mem :: "'n dcs \<Rightarrow> mem" where
  "dcs_mem s = w_mem (e_world (dc_eng s))"

definition dcs_set_mem :: "mem \<Rightarrow> 'n dcs \<Rightarrow> 'n dcs" where
  "dcs_set_mem m s =
     s\<lparr>dc_eng := (dc_eng s)\<lparr>e_world := (e_world (dc_eng s))\<lparr>w_mem := m\<rparr>\<rparr>\<rparr>"

definition dcs_do :: "dcs_eff \<Rightarrow> 'n dcs \<Rightarrow> 'n dcs" where
  "dcs_do x s = s\<lparr>dc_log := dc_log s @ [x]\<rparr>"

section \<open>Local functions\<close>

definition duer_get_request_id_internal :: "'n dcs \<Rightarrow> u32 \<times> 'n dcs" where
  "duer_get_request_id_internal s = (dc_request_id s, s\<lparr>dc_request_id := dc_request_id s + 1\<rparr>)"

definition duer_strdup_internal :: "string option \<Rightarrow> mem \<Rightarrow> string option \<times> mem" where
  "duer_strdup_internal str m =
     (case str of None \<Rightarrow> (None, m) | Some t \<Rightarrow> json_strdup t m)"

text \<open>The header has the namespace, the name and, when there is one, the message id.\<close>

definition dcs_header :: "string \<Rightarrow> string \<Rightarrow> string option \<Rightarrow> json \<Rightarrow> mem \<Rightarrow> json \<times> mem" where
  "dcs_header ns name msg_id h0 m0 =
     (let (h1, m1) = json_AddStringToObject h0 ''namespace'' ns m0;
          (h2, m2) = json_AddStringToObject h1 ''name'' name m1
      in case msg_id of
           None \<Rightarrow> (h2, m2)
         | Some i \<Rightarrow> json_AddStringToObject h2 ''messageId'' i m2)"

definition duer_create_dcs_event :: "string \<Rightarrow> string \<Rightarrow> string option \<Rightarrow> mem \<Rightarrow> json option \<times> mem" where
  "duer_create_dcs_event ns name msg_id m =
     (case json_CreateObject m of
        (None, m1) \<Rightarrow> (None, m1)
      | (Some event, m1) \<Rightarrow>
          (case json_CreateObject m1 of
             (None, m2) \<Rightarrow> (None, m2)
           | (Some header, m2) \<Rightarrow>
               (let (header1, m3) = dcs_header ns name msg_id header m2;
                    (event1, m4) = json_AddItemToObject event ''header'' (Some header1) m3
                in case json_CreateObject m4 of
                     (None, m5) \<Rightarrow> (None, m5)
                   | (Some payload, m5) \<Rightarrow>
                       (let (event2, m6) = json_AddItemToObject event1 ''payload'' (Some payload) m5
                        in (Some event2, m6)))))"

section \<open>Trees changed through a pointer\<close>

fun update_child ::
  "(string option \<times> json) list \<Rightarrow> string \<Rightarrow> (json \<Rightarrow> mem \<Rightarrow> json \<times> mem) \<Rightarrow> mem
     \<Rightarrow> ((string option \<times> json) list \<times> mem) option" where
  "update_child [] key f m = None"
| "update_child ((n, c) # cs) key f m =
     (if baidu_json_strcasecmp n (Some key) \<noteq> 0
      then map_option (\<lambda>(cs1, m1). ((n, c) # cs1, m1)) (update_child cs key f m)
      else (let (c1, m1) = f c m in Some ((n, c1) # cs, m1)))"

definition with_item ::
  "string \<Rightarrow> (json \<Rightarrow> mem \<Rightarrow> json \<times> mem) \<Rightarrow> json \<Rightarrow> mem \<Rightarrow> (json \<times> mem) option" where
  "with_item key f obj m =
     map_option (\<lambda>(cs, m1). (Json (jtype obj) (valuestring obj) (valueint obj) cs, m1))
       (update_child (children obj) key f m)"

text \<open>The last child, which the caller still has a pointer to.\<close>

definition put_last :: "json \<Rightarrow> json \<Rightarrow> json" where
  "put_last obj c =
     Json (jtype obj) (valuestring obj) (valueint obj)
       (butlast (children obj) @ [(fst (last (children obj)), c)])"

section \<open>State for the cloud\<close>

text \<open>A state is an event whose payload is filled in; without a payload it is dropped.\<close>

definition dcs_state_event ::
  "string \<Rightarrow> string \<Rightarrow> (json \<Rightarrow> mem \<Rightarrow> json \<times> mem) \<Rightarrow> mem \<Rightarrow> json option \<times> mem" where
  "dcs_state_event ns name fill m =
     (case duer_create_dcs_event ns name None m of
        (None, m1) \<Rightarrow> (None, m1)
      | (Some state, m1) \<Rightarrow>
          (case with_item ''payload'' fill state m1 of
             None \<Rightarrow> (None, m1)
           | Some (state1, m2) \<Rightarrow> (Some state1, m2)))"

fun speech_activity :: "speech_st \<Rightarrow> string" where
  "speech_activity SPEECH_PLAYING = ''PLAYING''"
| "speech_activity SPEECH_FINISHED = ''FINISHED''"

fun player_activity :: "play_st \<Rightarrow> string" where
  "player_activity PLAYING = ''PLAYING''"
| "player_activity STOPPED = ''STOPPED''"
| "player_activity PAUSED = ''PAUSED''"
| "player_activity BUFFER_UNDERRUN = ''BUFFER_UNDERRUN''"
| "player_activity FINISHED = ''FINISHED''"

definition token_or_empty :: "string option \<Rightarrow> string" where
  "token_or_empty t = (case t of None \<Rightarrow> [] | Some s \<Rightarrow> s)"

definition fill_play_state :: "string option \<Rightarrow> string \<Rightarrow> json \<Rightarrow> mem \<Rightarrow> json \<times> mem" where
  "fill_play_state token activity p m =
     (let (p1, m1) = json_AddStringToObject p ''token'' (token_or_empty token) m;
          (p2, m2) = json_AddNumberToObject p1 ''offsetInMilliseconds'' 0 m1
      in json_AddStringToObject p2 ''playerActivity'' activity m2)"

definition duer_get_speech_state_internal :: "'n dcs \<Rightarrow> mem \<Rightarrow> json option \<times> mem" where
  "duer_get_speech_state_internal s m =
     (if \<not> vo_supported s then (None, m)
      else dcs_state_event ''ai.dueros.device_interface.voice_output'' ''SpeechState''
             (fill_play_state (vo_latest_token s) (speech_activity (vo_state s))) m)"

definition duer_get_playback_state_internal :: "'n dcs \<Rightarrow> mem \<Rightarrow> json option \<times> mem" where
  "duer_get_playback_state_internal s m =
     (if \<not> ap_supported s then (None, m)
      else dcs_state_event ''ai.dueros.device_interface.audio_player'' ''PlaybackState''
             (fill_play_state (ap_latest_token s) (player_activity (ap_state s))) m)"

definition duer_get_speak_control_state_internal :: "'n dcs \<Rightarrow> mem \<Rightarrow> json option \<times> mem" where
  "duer_get_speak_control_state_internal s m =
     (if \<not> sc_supported s then (None, m)
      else dcs_state_event ''ai.dueros.device_interface.speaker_controller'' ''VolumeState''
             (\<lambda>p m. let (p1, m1) = json_AddNumberToObject p ''volume'' (fst (dc_speaker s)) m
                    in json_AddBoolToObject p1 ''muted'' (snd (dc_speaker s)) m1) m)"

definition duer_dcs_report_alert ::
  "json \<Rightarrow> string option \<Rightarrow> string option \<Rightarrow> string option \<Rightarrow> mem \<Rightarrow> json \<times> mem" where
  "duer_dcs_report_alert alert_array token type time m =
     (case (token, type, time) of
        (Some tk, Some ty, Some ti) \<Rightarrow>
          (case json_CreateObject m of
             (None, m1) \<Rightarrow> (alert_array, m1)
           | (Some alert, m1) \<Rightarrow>
               (let (a1, m2) = json_AddStringToObject alert ''token'' tk m1;
                    (a2, m3) = json_AddStringToObject a1 ''type'' ty m2;
                    (a3, m4) = json_AddStringToObject a2 ''scheduledTime'' ti m3
                in (json_AddItemToArray alert_array (Some (None, a3)), m4)))
      | _ \<Rightarrow> (alert_array, m))"

text \<open>The application's \<^verbatim>\<open>duer_dcs_get_all_alert\<close> reports each of its alerts.\<close>

fun duer_dcs_get_all_alert :: "(string \<times> string \<times> string) list \<Rightarrow> json \<Rightarrow> mem \<Rightarrow> json \<times> mem" where
  "duer_dcs_get_all_alert [] arr m = (arr, m)"
| "duer_dcs_get_all_alert ((tk, ty, ti) # as) arr m =
     (let (arr1, m1) = duer_dcs_report_alert arr (Some tk) (Some ty) (Some ti) m
      in duer_dcs_get_all_alert as arr1 m1)"

text \<open>The payload must be there before the array is created; the array is an object in the code.\<close>

definition duer_get_alert_state_internal :: "'n dcs \<Rightarrow> mem \<Rightarrow> json option \<times> mem" where
  "duer_get_alert_state_internal s m =
     (if \<not> al_supported s then (None, m)
      else
        (case duer_create_dcs_event ''ai.dueros.device_interface.alerts'' ''AlertsState'' None m of
           (None, m1) \<Rightarrow> (None, m1)
         | (Some state, m1) \<Rightarrow>
             (if json_GetObjectItem (Some state) ''payload'' = None then (None, m1)
              else
                (case json_CreateObject m1 of
                   (None, m2) \<Rightarrow> (None, m2)
                 | (Some arr, m2) \<Rightarrow>
                     (case with_item ''payload''
                             (\<lambda>p m. let (p1, m3) = json_AddItemToObject p ''allAlerts'' (Some arr) m;
                                        (arr1, m4) = duer_dcs_get_all_alert (dc_alerts s) arr m3
                                    in (put_last p1 arr1, m4)) state m2 of
                        None \<Rightarrow> (None, m2)
                      | Some (state1, m3) \<Rightarrow> (Some state1, m3))))))"

definition add_state :: "json option \<Rightarrow> json \<Rightarrow> json" where
  "add_state st ctx = json_AddItemToArray ctx (map_option (Pair None) st)"

definition duer_get_client_context_internal :: "'n dcs \<Rightarrow> mem \<Rightarrow> json option \<times> mem" where
  "duer_get_client_context_internal s m =
     (case json_CreateArray m of
        (None, m1) \<Rightarrow> (None, m1)
      | (Some ctx, m1) \<Rightarrow>
          (let (a, m2) = duer_get_alert_state_internal s m1;
               (p, m3) = duer_get_playback_state_internal s m2;
               (c, m4) = duer_get_speak_control_state_internal s m3;
               (v, m5) = duer_get_speech_state_internal s m4
           in (Some (add_state v (add_state c (add_state p (add_state a ctx)))), m5)))"

section \<open>Reporting\<close>

text \<open>
  The steps the reporting functions share: the data object, the client context for those that send
  it, the event, and what the function puts into the event, which stops the report with \<open>Some None\<close>
  and is the fault \<open>None\<close> where the code writes through \<^verbatim>\<open>NULL\<close>.
\<close>

type_synonym event_fill = "json \<Rightarrow> mem \<Rightarrow> (json option \<times> mem) option"

definition no_fill :: event_fill where
  "no_fill event m = Some (Some event, m)"

definition payload_fill :: "(json \<Rightarrow> mem \<Rightarrow> json \<times> mem) \<Rightarrow> event_fill" where
  "payload_fill f event m =
     (case with_item ''payload'' f event m of
        None \<Rightarrow> Some (None, m)
      | Some (event1, m1) \<Rightarrow> Some (Some event1, m1))"

definition dcs_build ::
  "string \<Rightarrow> string \<Rightarrow> (mem \<Rightarrow> json option \<times> mem) option \<Rightarrow> event_fill \<Rightarrow> mem \<Rightarrow> (json option \<times> mem) option" where
  "dcs_build ns name context fill m =
     (case json_CreateObject m of
        (None, m1) \<Rightarrow> Some (None, m1)
      | (Some data, m1) \<Rightarrow>
          (let (data1, m2) =
                 (case context of
                    None \<Rightarrow> (data, m1)
                  | Some get \<Rightarrow>
                      (let (c, m') = get m1 in json_AddItemToObject data ''clientContext'' c m'))
           in case duer_create_dcs_event ns name None m2 of
                (None, m3) \<Rightarrow> Some (None, m3)
              | (Some event, m3) \<Rightarrow>
                  (let (data2, m4) = json_AddItemToObject data1 ''event'' (Some event) m3
                   in case fill event m4 of
                        None \<Rightarrow> None
                      | Some (None, m5) \<Rightarrow> Some (None, m5)
                      | Some (Some event1, m5) \<Rightarrow> Some (Some (put_last data2 event1), m5))))"

definition dcs_data_report :: "'n sdk \<Rightarrow> bool \<Rightarrow> json \<Rightarrow> 'n dcs \<Rightarrow> (status \<times> 'n dcs) option" where
  "dcs_data_report d le data s =
     (case duer_data_report d le (Some data) (dc_eng s) of
        None \<Rightarrow> None
      | Some (rs, e) \<Rightarrow> Some (rs, dcs_do (EffReport data) (s\<lparr>dc_eng := e\<rparr>)))"

text \<open>\<open>check\<close>: the function returns what \<^verbatim>\<open>duer_data_report\<close> returned; otherwise it ignores it.\<close>

definition dcs_report ::
  "'n sdk \<Rightarrow> bool \<Rightarrow> bool \<Rightarrow> string \<Rightarrow> string \<Rightarrow> (mem \<Rightarrow> json option \<times> mem) option \<Rightarrow> event_fill
     \<Rightarrow> 'n dcs \<Rightarrow> (status \<times> 'n dcs) option" where
  "dcs_report d le check ns name context fill s =
     (case dcs_build ns name context fill (dcs_mem s) of
        None \<Rightarrow> None
      | Some (None, m) \<Rightarrow> Some (DUER_ERR_FAILED, dcs_set_mem m s)
      | Some (Some data, m) \<Rightarrow>
          (case dcs_data_report d le data (dcs_set_mem m s) of
             None \<Rightarrow> None
           | Some (rs, s1) \<Rightarrow> Some (if check then rs else DUER_OK, s1)))"

end
