(* ===== verification/Dcs.thy ===== *)
theory Dcs
  imports DcsState
begin

text \<open>
  The operations of the device control service: speech output, the audio player with its queue, voice
  input, the speaker, alerts, system events, the playback controller, and the router that takes a
  directive from the cloud to the module that handles it (\<^verbatim>\<open>modules/dcs/*.c\<close>, one section per file).

  A directive handler returns the status the router gets; the code mixes status codes with CoAP
  response codes there, and so does the model. Reading a string field that is \<^verbatim>\<open>NULL\<close> is the fault
  \<open>None\<close>. Each section under \<^verbatim>\<open>s_queue_lock\<close>, \<^verbatim>\<open>s_mutex\<close> or \<^verbatim>\<open>s_dcs_router_lock\<close> is one step.
\<close>

abbreviation (input) RSP_BAD_REQUEST :: status where "RSP_BAD_REQUEST \<equiv> 128"
abbreviation (input) RSP_NOT_FOUND :: status where "RSP_NOT_FOUND \<equiv> 132"

section \<open>The list of directives\<close>

text \<open>Writing the entries, as far as their names can be copied; out of the array is a fault.\<close>

fun write_directives ::
  "(string \<times> dcs_cb) list \<Rightarrow> nat \<Rightarrow> (string \<times> dcs_cb) option list \<Rightarrow> mem
     \<Rightarrow> (nat \<times> (string \<times> dcs_cb) option list \<times> mem) option" where
  "write_directives [] k slots m = Some (k, slots, m)"
| "write_directives ((name, cb) # ds) k slots m =
     (if k < length slots then
        (let (nm, m1) = json_strdup name m
         in case nm of
              None \<Rightarrow> Some (k, slots, m1)
            | Some n \<Rightarrow> write_directives ds (k + 1) (slots[k := Some (n, cb)]) m1)
      else None)"

definition duer_add_dcs_directive :: "(string \<times> dcs_cb) list \<Rightarrow> 'n dcs \<Rightarrow> 'n dcs option" where
  "duer_add_dcs_directive ds s =
     (if ds = [] then Some s
      else
        (let (ok, m) = malloc_ok (dcs_mem s);
             slots = (case rt_list s of
                        None \<Rightarrow> replicate (length ds) None
                      | Some old \<Rightarrow>
                          take (length ds + rt_count s) old @ replicate (length ds + rt_count s - length old) None)
         in if \<not> ok then Some ((dcs_set_mem m s)\<lparr>rt_list := None\<rparr>)
            else
              (case write_directives ds (rt_count s) slots m of
                 None \<Rightarrow> None
               | Some (k, slots1, m1) \<Rightarrow>
                   Some ((dcs_set_mem m1 s)\<lparr>rt_list := Some slots1, rt_count := k\<rparr>))))"

text \<open>The module initialisers run once; a static flag keeps the name of those that have run.\<close>

definition first_time :: "string \<Rightarrow> 'n dcs \<Rightarrow> bool" where
  "first_time module s \<longleftrightarrow> module \<notin> dc_first s"

definition set_first :: "string \<Rightarrow> 'n dcs \<Rightarrow> 'n dcs" where
  "set_first module s = s\<lparr>dc_first := insert module (dc_first s)\<rparr>"

section \<open>Audio player: items and reports\<close>

definition duer_create_play_item :: "string option \<Rightarrow> string option \<Rightarrow> mem \<Rightarrow> play_item option \<times> mem" where
  "duer_create_play_item url token m =
     (case (url, token) of
        (Some u, Some t) \<Rightarrow>
          (let (ok, m1) = malloc_ok m
           in if \<not> ok then (None, m1)
              else
                (let (u1, m2) = json_strdup u m1
                 in case u1 of
                      None \<Rightarrow> (None, m2)
                    | Some uu \<Rightarrow>
                        (let (t1, m3) = json_strdup t m2
                         in case t1 of
                              None \<Rightarrow> (None, m3)
                            | Some tt \<Rightarrow> (Some \<lparr>pi_url = uu, pi_token = tt\<rparr>, m3))))
      | _ \<Rightarrow> (None, m))"

text \<open>\<^verbatim>\<open>duer_empty_play_queue\<close> pops until it gets \<^verbatim>\<open>NULL\<close>, which an empty queue returns but also a \<^verbatim>\<open>NULL\<close> item.\<close>

fun empty_items :: "play_item option list \<Rightarrow> play_item option list" where
  "empty_items [] = []"
| "empty_items (None # xs) = xs"
| "empty_items (Some i # xs) = empty_items xs"

definition duer_empty_play_queue :: "'n dcs \<Rightarrow> 'n dcs" where
  "duer_empty_play_queue s = s\<lparr>ap_queue := map_option empty_items (ap_queue s)\<rparr>"

definition ap_push :: "play_item option \<Rightarrow> 'n dcs \<Rightarrow> 'n dcs" where
  "ap_push item s =
     (case ap_queue s of
        None \<Rightarrow> s
      | Some xs \<Rightarrow>
          (let (ok, m) = malloc_ok (dcs_mem s)
           in (dcs_set_mem m s)\<lparr>ap_queue := snd (lq_push ok item (Some xs))\<rparr>))"

definition ap_pop :: "'n dcs \<Rightarrow> play_item option \<times> 'n dcs" where
  "ap_pop s = (let (i, q) = lq_pop (ap_queue s) in (i, s\<lparr>ap_queue := q\<rparr>))"

datatype audio_event =
    PLAY_STARTTED | PLAY_FINISHED | PLAY_NEARLY_FINISHED | PLAY_STOPPED | PLAY_PAUSED | PLAY_RESUMED
  | PLAY_QUEUE_CLEARED

fun audio_event_name :: "audio_event \<Rightarrow> string" where
  "audio_event_name PLAY_STARTTED = ''PlaybackStarted''"
| "audio_event_name PLAY_FINISHED = ''PlaybackFinished''"
| "audio_event_name PLAY_NEARLY_FINISHED = ''PlaybackNearlyFinished''"
| "audio_event_name PLAY_STOPPED = ''PlaybackStopped''"
| "audio_event_name PLAY_PAUSED = ''PlaybackPaused''"
| "audio_event_name PLAY_RESUMED = ''PlaybackResumed''"
| "audio_event_name PLAY_QUEUE_CLEARED = ''PlaybackQueueCleared''"

definition fill_token :: "string \<Rightarrow> json \<Rightarrow> mem \<Rightarrow> json \<times> mem" where
  "fill_token token p m = json_AddStringToObject p ''token'' token m"

definition fill_token_offset :: "string \<Rightarrow> json \<Rightarrow> mem \<Rightarrow> json \<times> mem" where
  "fill_token_offset token p m =
     (let (p1, m1) = fill_token token p m in json_AddNumberToObject p1 ''offsetInMilliseconds'' 0 m1)"

definition duer_dcs_report_play_event ::
  "'n sdk \<Rightarrow> bool \<Rightarrow> audio_event \<Rightarrow> 'n dcs \<Rightarrow> (status \<times> 'n dcs) option" where
  "duer_dcs_report_play_event d le type s =
     (if type \<noteq> PLAY_QUEUE_CLEARED \<and> ap_latest_token s = None then Some (DUER_ERR_FAILED, s)
      else
        dcs_report d le True ''ai.dueros.device_interface.audio_player'' (audio_event_name type) None
          (if type = PLAY_QUEUE_CLEARED then no_fill
           else payload_fill (fill_token_offset (token_or_empty (ap_latest_token s)))) s)"

section \<open>Audio player: playing\<close>

definition duer_speech_need_play_internal :: "'n dcs \<Rightarrow> bool" where
  "duer_speech_need_play_internal s \<longleftrightarrow> vo_state s = SPEECH_PLAYING"

definition duer_start_audio_play :: "'n sdk \<Rightarrow> bool \<Rightarrow> 'n dcs \<Rightarrow> 'n dcs option" where
  "duer_start_audio_play d le s =
     (case lq_top (ap_queue s) of
        None \<Rightarrow> Some (s\<lparr>ap_state := FINISHED\<rparr>)
      | Some first \<Rightarrow>
          (if duer_speech_need_play_internal s
           then Some (s\<lparr>ap_state := PAUSED, ap_offset := 0\<rparr>)
           else
             (let (t, m) = duer_strdup_internal (Some (pi_token first)) (dcs_mem s);
                  s1 = (dcs_set_mem m s)\<lparr>ap_state := PLAYING, ap_latest_token := t\<rparr>
              in case duer_dcs_report_play_event d le PLAY_STARTTED s1 of
                   None \<Rightarrow> None
                 | Some (rs, s2) \<Rightarrow> Some (dcs_do (EffAudioPlay (pi_url first)) s2))))"

definition duer_replace_play_queue ::
  "'n sdk \<Rightarrow> bool \<Rightarrow> string option \<Rightarrow> string option \<Rightarrow> 'n dcs \<Rightarrow> 'n dcs option" where
  "duer_replace_play_queue d le url token s =
     (let s1 = (if ap_state s = PLAYING then dcs_do EffAudioStop s else s);
          s2 = duer_empty_play_queue s1;
          (item, m) = duer_create_play_item url token (dcs_mem s2)
      in duer_start_audio_play d le (ap_push item (dcs_set_mem m s2)))"

definition duer_enqueue_play_item ::
  "'n sdk \<Rightarrow> bool \<Rightarrow> string option \<Rightarrow> string option \<Rightarrow> 'n dcs \<Rightarrow> 'n dcs option" where
  "duer_enqueue_play_item d le url token s =
     (let (item, m) = duer_create_play_item url token (dcs_mem s);
          s1 = ap_push item (dcs_set_mem m s)
      in if ap_state s1 = FINISHED then duer_start_audio_play d le s1 else Some s1)"

definition duer_replace_enqueued_item ::
  "'n sdk \<Rightarrow> bool \<Rightarrow> string option \<Rightarrow> string option \<Rightarrow> 'n dcs \<Rightarrow> 'n dcs option" where
  "duer_replace_enqueued_item d le url token s =
     (let (head, s1) = ap_pop s;
          s2 = ap_push head (duer_empty_play_queue s1);
          (item, m) = duer_create_play_item url token (dcs_mem s2);
          s3 = ap_push item (dcs_set_mem m s2)
      in if ap_state s3 = FINISHED then duer_start_audio_play d le s3 else Some s3)"

text \<open>Stepping down into a directive.\<close>

definition member :: "json option \<Rightarrow> string \<Rightarrow> json option" where
  "member j key = json_GetObjectItem j key"

definition duer_audio_play_cb :: "'n sdk \<Rightarrow> bool \<Rightarrow> json \<Rightarrow> 'n dcs \<Rightarrow> (status \<times> 'n dcs) option" where
  "duer_audio_play_cb d le directive s =
     (let payload = member (Some directive) ''payload'';
          audio_item = member payload ''audioItem'';
          behavior = member payload ''playBehavior'';
          stream = member audio_item ''stream'';
          token = member stream ''token'';
          url = member stream ''url''
      in if payload = None \<or> audio_item = None \<or> behavior = None \<or> stream = None \<or> token = None \<or> url = None
         then Some (RSP_BAD_REQUEST, s)
         else
           (let u = valuestring (the url); t = valuestring (the token)
            in case valuestring (the behavior) of
                 None \<Rightarrow> None
               | Some b \<Rightarrow>
                   (if b = ''REPLACE_ALL'' then map_option (Pair DUER_OK) (duer_replace_play_queue d le u t s)
                    else if b = ''ENQUEUE'' then map_option (Pair DUER_OK) (duer_enqueue_play_item d le u t s)
                    else if b = ''REPLACE_ENQUEUED''
                    then map_option (Pair DUER_OK) (duer_replace_enqueued_item d le u t s)
                    else Some (RSP_BAD_REQUEST, s))))"

definition duer_queue_clear_cb :: "'n sdk \<Rightarrow> bool \<Rightarrow> json \<Rightarrow> 'n dcs \<Rightarrow> (status \<times> 'n dcs) option" where
  "duer_queue_clear_cb d le directive s =
     (let payload = member (Some directive) ''payload'';
          behavior = member payload ''clearBehavior''
      in if payload = None \<or> behavior = None then Some (RSP_BAD_REQUEST, s)
         else
           (case valuestring (the behavior) of
              None \<Rightarrow> None
            | Some b \<Rightarrow>
                (if b = ''CLEAR_ENQUEUED'' then
                   (let (head, s1) = ap_pop s;
                        s2 = ap_push head (duer_empty_play_queue s1)
                    in map_option (\<lambda>(rs, s3). (DUER_OK, s3))
                         (duer_dcs_report_play_event d le PLAY_QUEUE_CLEARED s2))
                 else if b = ''CLEAR_ALL'' then
                   (let s1 = duer_empty_play_queue ((dcs_do EffAudioStop s)\<lparr>ap_state := STOPPED\<rparr>)
                    in map_option (\<lambda>(rs, s2). (DUER_OK, s2))
                         (duer_dcs_report_play_event d le PLAY_QUEUE_CLEARED s1))
                 else Some (RSP_BAD_REQUEST, s))))"

definition duer_audio_stop_cb :: "json \<Rightarrow> 'n dcs \<Rightarrow> (status \<times> 'n dcs) option" where
  "duer_audio_stop_cb directive s = Some (DUER_OK, (dcs_do EffAudioStop s)\<lparr>ap_state := STOPPED\<rparr>)"

definition duer_pause_audio_internal :: "'n sdk \<Rightarrow> bool \<Rightarrow> 'n dcs \<Rightarrow> 'n dcs option" where
  "duer_pause_audio_internal d le s =
     (if ap_state s = PLAYING then
        (let s1 = (dcs_do EffAudioPause (s\<lparr>ap_state := PAUSED\<rparr>))\<lparr>ap_offset := dc_pause_offset s\<rparr>
         in map_option snd (duer_dcs_report_play_event d le PLAY_PAUSED s1))
      else Some s)"

definition duer_resume_audio_internal :: "'n sdk \<Rightarrow> bool \<Rightarrow> 'n dcs \<Rightarrow> 'n dcs option" where
  "duer_resume_audio_internal d le s =
     (if ap_state s \<noteq> PAUSED then Some s
      else
        (let s1 = s\<lparr>ap_state := PLAYING\<rparr>
         in if ap_offset s1 = 0 then duer_start_audio_play d le s1
            else
              (case lq_top (ap_queue s1) of
                 None \<Rightarrow> Some (s1\<lparr>ap_state := FINISHED\<rparr>)
               | Some first \<Rightarrow>
                   map_option snd (duer_dcs_report_play_event d le PLAY_RESUMED
                     (dcs_do (EffAudioSeek (pi_url first) (ap_offset s1)) s1)))))"

definition duer_dcs_audio_on_finished :: "'n sdk \<Rightarrow> bool \<Rightarrow> 'n dcs \<Rightarrow> 'n dcs option" where
  "duer_dcs_audio_on_finished d le s =
     (if ap_state s \<noteq> PLAYING then Some s
      else
        (case duer_dcs_report_play_event d le PLAY_NEARLY_FINISHED s of
           None \<Rightarrow> None
         | Some (rs1, s1) \<Rightarrow>
             (case duer_dcs_report_play_event d le PLAY_FINISHED s1 of
                None \<Rightarrow> None
              | Some (rs2, s2) \<Rightarrow> duer_start_audio_play d le (snd (ap_pop s2)))))"

definition duer_dcs_audio_player_init :: "'n dcs \<Rightarrow> 'n dcs option" where
  "duer_dcs_audio_player_init s =
     (if \<not> first_time ''audio_player'' s then Some s
      else
        (let s1 = set_first ''audio_player'' s;
             s2 = (if ap_queue s1 = None
                   then (let (ok, m) = malloc_ok (dcs_mem s1)
                         in (dcs_set_mem m s1)\<lparr>ap_queue := (if ok then Some [] else None)\<rparr>)
                   else s1);
             s3 = dcs_set_mem (snd (malloc_ok (dcs_mem s2))) s2
         in map_option (\<lambda>s4. s4\<lparr>ap_supported := True\<rparr>)
              (duer_add_dcs_directive [(''Play'', CbPlay), (''Stop'', CbStop), (''ClearQueue'', CbClearQueue)] s3)))"

section \<open>Voice output\<close>

definition duer_report_speech_event :: "'n sdk \<Rightarrow> bool \<Rightarrow> string \<Rightarrow> 'n dcs \<Rightarrow> (status \<times> 'n dcs) option" where
  "duer_report_speech_event d le name s =
     (case vo_latest_token s of
        None \<Rightarrow> Some (DUER_ERR_FAILED, s)
      | Some t \<Rightarrow>
          dcs_report d le False ''ai.dueros.device_interface.voice_output'' name None
            (payload_fill (fill_token t)) s)"

definition duer_is_multiple_round_dialogue :: "'n dcs \<Rightarrow> bool" where
  "duer_is_multiple_round_dialogue s = vi_multiple s"

definition duer_dcs_speech_on_finished :: "'n sdk \<Rightarrow> bool \<Rightarrow> 'n dcs \<Rightarrow> 'n dcs option" where
  "duer_dcs_speech_on_finished d le s =
     (if vo_state s = SPEECH_PLAYING then
        (case duer_report_speech_event d le ''SpeechFinished'' (s\<lparr>vo_state := SPEECH_FINISHED\<rparr>) of
           None \<Rightarrow> None
         | Some (rs, s1) \<Rightarrow>
             (if \<not> duer_is_multiple_round_dialogue s1 then duer_resume_audio_internal d le s1 else Some s1))
      else Some s)"

definition duer_speech_on_stop_internal :: "'n dcs \<Rightarrow> 'n dcs" where
  "duer_speech_on_stop_internal s = s\<lparr>vo_state := SPEECH_FINISHED\<rparr>"

definition duer_speak_cb :: "'n sdk \<Rightarrow> bool \<Rightarrow> json \<Rightarrow> 'n dcs \<Rightarrow> (status \<times> 'n dcs) option" where
  "duer_speak_cb d le directive s =
     (let payload = member (Some directive) ''payload'';
          url = member payload ''url'';
          token = member payload ''token''
      in if payload = None \<or> url = None \<or> token = None then Some (RSP_BAD_REQUEST, s)
         else
           (let (t, m) = duer_strdup_internal (valuestring (the token)) (dcs_mem s);
                s1 = (dcs_set_mem m s)\<lparr>vo_latest_token := t\<rparr>
            in if t = None then Some (DUER_ERR_MEMORY_OVERLOW, s1)
               else
                 (case duer_pause_audio_internal d le (s1\<lparr>vo_state := SPEECH_PLAYING\<rparr>) of
                    None \<Rightarrow> None
                  | Some s2 \<Rightarrow>
                      (case duer_report_speech_event d le ''SpeechStarted'' s2 of
                         None \<Rightarrow> None
                       | Some (rs, s3) \<Rightarrow> Some (DUER_OK, dcs_do (EffSpeak (valuestring (the url))) s3)))))"

definition duer_dcs_voice_output_init :: "'n dcs \<Rightarrow> 'n dcs option" where
  "duer_dcs_voice_output_init s =
     (if \<not> first_time ''voice_output'' s then Some s
      else duer_add_dcs_directive [(''Speak'', CbSpeak)]
             ((set_first ''voice_output'' s)\<lparr>vo_supported := True\<rparr>))"

end
