(* ===== verification/DcsRouter.thy ===== *)
theory DcsRouter
  imports Dcs
begin

text \<open>
  The rest of the device control service: voice input with its timeout, the speaker, alerts, system
  events and the playback controller, and the router (\<^verbatim>\<open>lightduer_dcs_router.c\<close>), which parses a
  message from the cloud, looks its directive up in the list and runs the handler. Directives of the
  application are \<open>CbApp n\<close>; what their handlers return is \<open>dr_app\<close>.
\<close>

section \<open>System\<close>

definition duer_user_activity_internal :: "'n dcs \<Rightarrow> 'n dcs" where
  "duer_user_activity_internal s = s\<lparr>sy_last_activity := sgn (dc_ticker s) * (\<bar>dc_ticker s\<bar> div 1000)\<rparr>"

definition duer_dcs_sync_state :: "'n sdk \<Rightarrow> bool \<Rightarrow> 'n dcs \<Rightarrow> 'n dcs option" where
  "duer_dcs_sync_state d le s =
     map_option snd (dcs_report d le False ''ai.dueros.device_interface.system'' ''SynchronizeState''
       (Some (duer_get_client_context_internal s)) no_fill s)"

text \<open>The error object must be there before the report; the directive has been added by then.\<close>

definition exception_fill :: "string \<Rightarrow> string \<Rightarrow> string \<Rightarrow> event_fill" where
  "exception_fill directive type msg event m =
     (case with_item ''payload'' (\<lambda>p m. json_AddStringToObject p ''unparsedDirective'' directive m) event m of
        None \<Rightarrow> Some (None, m)
      | Some (event1, m1) \<Rightarrow>
          (case json_CreateObject m1 of
             (None, m2) \<Rightarrow> Some (None, m2)
           | (Some error, m2) \<Rightarrow>
               (case with_item ''payload''
                       (\<lambda>p m. let (p1, m3) = json_AddItemToObject p ''error'' (Some error) m;
                                  (e1, m4) = json_AddStringToObject error ''type'' type m3;
                                  (e2, m5) = json_AddStringToObject e1 ''message'' msg m4
                              in (put_last p1 e2, m5)) event1 m2 of
                  None \<Rightarrow> Some (None, m2)
                | Some (event2, m3) \<Rightarrow> Some (Some event2, m3))))"

definition duer_report_exception_internal ::
  "'n sdk \<Rightarrow> bool \<Rightarrow> string option \<Rightarrow> string \<Rightarrow> string \<Rightarrow> 'n dcs \<Rightarrow> 'n dcs option" where
  "duer_report_exception_internal d le directive type msg s =
     (case directive of
        None \<Rightarrow> Some s
      | Some dir \<Rightarrow>
          map_option snd (dcs_report d le False ''ai.dueros.device_interface.system'' ''ExceptionEncountered''
            (Some (duer_get_client_context_internal s)) (exception_fill dir type msg) s))"

definition duer_exception_cb :: "json \<Rightarrow> 'n dcs \<Rightarrow> (status \<times> 'n dcs) option" where
  "duer_exception_cb directive s =
     (let payload = member (Some directive) ''payload''
      in if payload = None \<or> member payload ''code'' = None \<or> member payload ''description'' = None
         then Some (RSP_BAD_REQUEST, s) else Some (DUER_OK, s))"

definition duer_inactivity_report :: "'n sdk \<Rightarrow> bool \<Rightarrow> 'n dcs \<Rightarrow> 'n dcs option" where
  "duer_inactivity_report d le s =
     (let t = sgn (dc_ticker s) * (\<bar>dc_ticker s\<bar> div 1000) - sy_last_activity s
      in map_option snd (dcs_report d le False ''ai.dueros.device_interface.system'' ''SynchronizeState'' None
           (payload_fill (\<lambda>p m. json_AddNumberToObject p ''inactiveTimeInSeconds'' (if 0 < t then t else 0) m)) s))"

definition duer_inactivity_reset_cb :: "json \<Rightarrow> 'n dcs \<Rightarrow> (status \<times> 'n dcs) option" where
  "duer_inactivity_reset_cb directive s = Some (DUER_OK, duer_user_activity_internal s)"

text \<open>Acquiring a timer: its allocation is one of the engine's world.\<close>

definition dcs_timer_acquire :: "timer_type \<Rightarrow> 'n dcs \<Rightarrow> (timers option \<times> 'n dcs) option" where
  "dcs_timer_acquire type s =
     (let (ok, tc) = malloc_ok (e_tcreate (dc_eng s))
      in case duer_timer_acquire True type ok (dcs_mem s) of
           None \<Rightarrow> None
         | Some (t, m) \<Rightarrow>
             Some (t, (dcs_set_mem m s)\<lparr>dc_eng := (dc_eng (dcs_set_mem m s))\<lparr>e_tcreate := tc\<rparr>\<rparr>))"

definition INACTIVIRY_REPORT_PERIOD :: nat where "INACTIVIRY_REPORT_PERIOD = 3600 * 1000"

definition duer_declare_sys_interface_internal :: "'n dcs \<Rightarrow> 'n dcs option" where
  "duer_declare_sys_interface_internal s =
     (if \<not> first_time ''system'' s then Some s
      else
        (case dcs_timer_acquire TIMER_PERIODIC (set_first ''system'' s) of
           None \<Rightarrow> None
         | Some (t, s1) \<Rightarrow>
             duer_add_dcs_directive [(''ThrowException'', CbThrowException), (''ResetUserInactivity'', CbResetUserInactivity)]
               (s1\<lparr>sy_timer := snd (duer_timer_start t (of_nat INACTIVIRY_REPORT_PERIOD))\<rparr>)))"

section \<open>Voice input\<close>

definition MAX_LISTEN_TIME :: nat where "MAX_LISTEN_TIME = 20000"

text \<open>The decimal digits of an \<^verbatim>\<open>int\<close> that is not negative, cut to the nine that fit the buffer.\<close>

fun digits :: "nat \<Rightarrow> string" where
  "digits n = (if n < 10 then [char_of (48 + n)] else digits (n div 10) @ [char_of (48 + n mod 10)])"

declare digits.simps [simp del]

definition int_string :: "int \<Rightarrow> string" where
  "int_string i = (if i < 0 then CHR ''-'' # digits (nat (- i)) else digits (nat i))"

text \<open>
  The header and the payload are used without a test; adding a string that could be created to a
  missing object is a write through \<^verbatim>\<open>NULL\<close>.
\<close>

definition add_string_to_item :: "string \<Rightarrow> string \<Rightarrow> string \<Rightarrow> json \<Rightarrow> mem \<Rightarrow> (json \<times> mem) option" where
  "add_string_to_item key name v event m =
     (case with_item key (\<lambda>p m. json_AddStringToObject p name v m) event m of
        Some r \<Rightarrow> Some r
      | None \<Rightarrow>
          (case json_CreateString v m of
             (None, m1) \<Rightarrow> Some (event, m1)
           | (Some it, m1) \<Rightarrow> None))"

definition listen_fill :: "string \<Rightarrow> event_fill" where
  "listen_fill req_id event m =
     (case add_string_to_item ''header'' ''dialogRequestId'' req_id event m of
        None \<Rightarrow> None
      | Some (event1, m1) \<Rightarrow>
          (case add_string_to_item ''payload'' ''format'' ''AUDIO_L16_RATE_16000_CHANNELS_1'' event1 m1 of
             None \<Rightarrow> None
           | Some (event2, m2) \<Rightarrow> Some (Some event2, m2)))"

definition listen_start_timer :: "'n dcs \<Rightarrow> 'n dcs" where
  "listen_start_timer s =
     (if \<not> vi_listening s
      then s\<lparr>vi_listening := True, vi_timer := snd (duer_timer_start (vi_timer s) (of_nat MAX_LISTEN_TIME))\<rparr>
      else s)"

text \<open>The request id is taken only when the event could be created.\<close>

definition duer_dcs_on_listen_started :: "'n sdk \<Rightarrow> bool \<Rightarrow> 'n dcs \<Rightarrow> (status \<times> 'n dcs) option" where
  "duer_dcs_on_listen_started d le s =
     (case duer_pause_audio_internal d le
             (duer_speech_on_stop_internal ((duer_user_activity_internal s)\<lparr>vi_multiple := False\<rparr>)) of
        None \<Rightarrow> None
      | Some s1 \<Rightarrow>
          (let s2 = listen_start_timer s1;
               (n, s3) = duer_get_request_id_internal s2;
               created = (case dcs_build ''ai.dueros.device_interface.voice_input'' ''ListenStarted''
                                 (Some (duer_get_client_context_internal s2)) no_fill (dcs_mem s2) of
                            Some (Some j, m) \<Rightarrow> True
                          | _ \<Rightarrow> False)
           in dcs_report d le True ''ai.dueros.device_interface.voice_input'' ''ListenStarted''
                (Some (duer_get_client_context_internal s2))
                (listen_fill (take 9 (int_string (sint n))))
                (if created then s3 else s2)))"

definition duer_dcs_report_listen_timeout_event :: "'n sdk \<Rightarrow> bool \<Rightarrow> 'n dcs \<Rightarrow> (status \<times> 'n dcs) option" where
  "duer_dcs_report_listen_timeout_event d le s =
     dcs_report d le False ''ai.dueros.device_interface.voice_input'' ''ListenTimedOut'' None no_fill s"

definition duer_listen_start_cb :: "json \<Rightarrow> 'n dcs \<Rightarrow> (status \<times> 'n dcs) option" where
  "duer_listen_start_cb directive s = Some (DUER_OK, s\<lparr>vi_multiple := True\<rparr>)"

definition duer_listen_stop_cb :: "json \<Rightarrow> 'n dcs \<Rightarrow> (status \<times> 'n dcs) option" where
  "duer_listen_stop_cb directive s =
     (let s1 = (if vi_listening s
                then s\<lparr>vi_listening := False, vi_timer := snd (duer_timer_stop (vi_timer s))\<rparr> else s)
      in Some (DUER_OK, dcs_do EffStopListen s1))"

definition duer_listen_timeout :: "'n sdk \<Rightarrow> bool \<Rightarrow> 'n dcs \<Rightarrow> 'n dcs option" where
  "duer_listen_timeout d le s =
     (if vi_listening s
      then map_option snd (duer_dcs_report_listen_timeout_event d le
             (dcs_do EffStopListen (s\<lparr>vi_listening := False\<rparr>)))
      else Some s)"

definition duer_dcs_voice_input_init :: "'n dcs \<Rightarrow> 'n dcs option" where
  "duer_dcs_voice_input_init s =
     (if \<not> first_time ''voice_input'' s then Some s
      else
        (case dcs_timer_acquire TIMER_ONCE (set_first ''voice_input'' s) of
           None \<Rightarrow> None
         | Some (t, s1) \<Rightarrow>
             (let s2 = dcs_set_mem (snd (malloc_ok (dcs_mem s1))) (s1\<lparr>vi_timer := t\<rparr>)
              in duer_add_dcs_directive [(''Listen'', CbListen), (''StopListen'', CbStopListen)] s2)))"

section \<open>Speaker\<close>

definition duer_report_speaker_event :: "'n sdk \<Rightarrow> bool \<Rightarrow> string \<Rightarrow> 'n dcs \<Rightarrow> (status \<times> 'n dcs) option" where
  "duer_report_speaker_event d le name s =
     dcs_report d le True ''ai.dueros.device_interface.speaker_controller'' name None
       (payload_fill (\<lambda>p m. let (p1, m1) = json_AddNumberToObject p ''volume'' (fst (dc_speaker s)) m
                            in json_AddBoolToObject p1 ''mute'' (snd (dc_speaker s)) m1)) s"

definition duer_dcs_on_volume_changed :: "'n sdk \<Rightarrow> bool \<Rightarrow> 'n dcs \<Rightarrow> (status \<times> 'n dcs) option" where
  "duer_dcs_on_volume_changed d le s = duer_report_speaker_event d le ''VolumeChanged'' s"

definition duer_dcs_on_mute :: "'n sdk \<Rightarrow> bool \<Rightarrow> 'n dcs \<Rightarrow> (status \<times> 'n dcs) option" where
  "duer_dcs_on_mute d le s = duer_report_speaker_event d le ''MuteChanged'' s"

definition duer_parse_volume_directive :: "json \<Rightarrow> json option" where
  "duer_parse_volume_directive directive = member (member (Some directive) ''payload'') ''volume''"

definition duer_volume_set_cb :: "json \<Rightarrow> 'n dcs \<Rightarrow> (status \<times> 'n dcs) option" where
  "duer_volume_set_cb directive s =
     (case duer_parse_volume_directive directive of
        None \<Rightarrow> Some (RSP_BAD_REQUEST, s)
      | Some v \<Rightarrow> Some (DUER_OK, dcs_do (EffVolumeSet (valueint v)) s))"

definition duer_volume_adjust_cb :: "json \<Rightarrow> 'n dcs \<Rightarrow> (status \<times> 'n dcs) option" where
  "duer_volume_adjust_cb directive s =
     (case duer_parse_volume_directive directive of
        None \<Rightarrow> Some (RSP_BAD_REQUEST, s)
      | Some v \<Rightarrow> Some (DUER_OK, dcs_do (EffVolumeAdjust (valueint v)) s))"

definition duer_mute_set_cb :: "json \<Rightarrow> 'n dcs \<Rightarrow> (status \<times> 'n dcs) option" where
  "duer_mute_set_cb directive s =
     (case member (member (Some directive) ''payload'') ''mute'' of
        None \<Rightarrow> Some (RSP_BAD_REQUEST, s)
      | Some v \<Rightarrow> Some (DUER_OK, dcs_do (EffMute (jtype v = JTrue)) s))"

definition duer_dcs_speaker_control_init :: "'n dcs \<Rightarrow> 'n dcs option" where
  "duer_dcs_speaker_control_init s =
     (if \<not> first_time ''speaker_control'' s then Some s
      else map_option (\<lambda>s1. s1\<lparr>sc_supported := True\<rparr>)
             (duer_add_dcs_directive
                [(''SetVolume'', CbSetVolume), (''AdjustVolume'', CbAdjustVolume), (''SetMute'', CbSetMute)]
                (set_first ''speaker_control'' s)))"

section \<open>Alerts\<close>

datatype alert_event =
  SET_ALERT_SUCCESS | SET_ALERT_FAIL | DELETE_ALERT_SUCCESS | DELETE_ALERT_FAIL | ALERT_START | ALERT_STOP

fun alert_event_name :: "alert_event \<Rightarrow> string" where
  "alert_event_name SET_ALERT_SUCCESS = ''SetAlertSucceeded''"
| "alert_event_name SET_ALERT_FAIL = ''SetAlertFailed''"
| "alert_event_name DELETE_ALERT_SUCCESS = ''DeleteAlertSucceeded''"
| "alert_event_name DELETE_ALERT_FAIL = ''DeleteAlertFailed''"
| "alert_event_name ALERT_START = ''AlertStarted''"
| "alert_event_name ALERT_STOP = ''AlertStopped''"

definition duer_dcs_report_alert_event ::
  "'n sdk \<Rightarrow> bool \<Rightarrow> string option \<Rightarrow> alert_event \<Rightarrow> 'n dcs \<Rightarrow> (status \<times> 'n dcs) option" where
  "duer_dcs_report_alert_event d le token type s =
     (case token of
        None \<Rightarrow> Some (DUER_ERR_FAILED, s)
      | Some t \<Rightarrow>
          dcs_report d le False ''ai.dueros.device_interface.alerts'' (alert_event_name type) None
            (payload_fill (fill_token t)) s)"

definition duer_alert_set_cb :: "json \<Rightarrow> 'n dcs \<Rightarrow> (status \<times> 'n dcs) option" where
  "duer_alert_set_cb directive s =
     (let payload = member (Some directive) ''payload'';
          token = member payload ''token'';
          time = member payload ''scheduledTime'';
          type = member payload ''type''
      in if payload = None \<or> token = None \<or> time = None \<or> type = None then Some (RSP_BAD_REQUEST, s)
         else Some (DUER_OK, dcs_do (EffAlertSet (valuestring (the token)) (valuestring (the time))
                               (valuestring (the type))) s))"

definition duer_alert_delete_cb :: "json \<Rightarrow> 'n dcs \<Rightarrow> (status \<times> 'n dcs) option" where
  "duer_alert_delete_cb directive s =
     (let payload = member (Some directive) ''payload'';
          token = member payload ''token''
      in if payload = None \<or> token = None then Some (RSP_BAD_REQUEST, s)
         else Some (DUER_OK, dcs_do (EffAlertDelete (valuestring (the token))) s))"

definition duer_dcs_alert_init :: "'n dcs \<Rightarrow> 'n dcs option" where
  "duer_dcs_alert_init s =
     (if \<not> first_time ''alert'' s then Some s
      else duer_add_dcs_directive [(''SetAlert'', CbSetAlert), (''DeleteAlert'', CbDeleteAlert)]
             ((set_first ''alert'' s)\<lparr>al_supported := True\<rparr>))"

section \<open>Playback controller\<close>

datatype play_cmd = DCS_PLAY_CMD | DCS_PAUSE_CMD | DCS_PREVIOUS_CMD | DCS_NEXT_CMD

fun play_cmd_name :: "play_cmd \<Rightarrow> string" where
  "play_cmd_name DCS_PLAY_CMD = ''PlayCommandIssued''"
| "play_cmd_name DCS_PAUSE_CMD = ''PauseCommandIssued''"
| "play_cmd_name DCS_PREVIOUS_CMD = ''PreviousCommandIssued''"
| "play_cmd_name DCS_NEXT_CMD = ''NextCommandIssued''"

definition duer_dcs_send_play_control_cmd ::
  "'n sdk \<Rightarrow> bool \<Rightarrow> play_cmd \<Rightarrow> 'n dcs \<Rightarrow> (status \<times> 'n dcs) option" where
  "duer_dcs_send_play_control_cmd d le cmd s =
     (let s1 = duer_user_activity_internal s
      in if fst (malloc_ok (dcs_mem s1))
         then dcs_report d le False ''ai.dueros.device_interface.playback_controller'' (play_cmd_name cmd)
                (Some (duer_get_client_context_internal s1)) no_fill s1
         else Some (DUER_ERR_MEMORY_OVERLOW, dcs_set_mem (snd (malloc_ok (dcs_mem s1))) s1))"

section \<open>The router\<close>

definition run_directive ::
  "(nat \<Rightarrow> json \<Rightarrow> status) \<Rightarrow> 'n sdk \<Rightarrow> bool \<Rightarrow> dcs_cb \<Rightarrow> json \<Rightarrow> 'n dcs \<Rightarrow> (status \<times> 'n dcs) option" where
  "run_directive app d le cb directive s =
     (case cb of
        CbSpeak \<Rightarrow> duer_speak_cb d le directive s
      | CbPlay \<Rightarrow> duer_audio_play_cb d le directive s
      | CbStop \<Rightarrow> duer_audio_stop_cb directive s
      | CbClearQueue \<Rightarrow> duer_queue_clear_cb d le directive s
      | CbSetVolume \<Rightarrow> duer_volume_set_cb directive s
      | CbAdjustVolume \<Rightarrow> duer_volume_adjust_cb directive s
      | CbSetMute \<Rightarrow> duer_mute_set_cb directive s
      | CbListen \<Rightarrow> duer_listen_start_cb directive s
      | CbStopListen \<Rightarrow> duer_listen_stop_cb directive s
      | CbThrowException \<Rightarrow> duer_exception_cb directive s
      | CbResetUserInactivity \<Rightarrow> duer_inactivity_reset_cb directive s
      | CbSetAlert \<Rightarrow> duer_alert_set_cb directive s
      | CbDeleteAlert \<Rightarrow> duer_alert_delete_cb directive s
      | CbApp n \<Rightarrow> Some (app n directive, dcs_do (EffApp n directive) s))"

text \<open>
  The loop over the list: the last entry with the name wins. A slot outside the array or never
  written, and a name that is not a string, are faults.
\<close>

fun find_handler ::
  "(string \<times> dcs_cb) option list \<Rightarrow> nat \<Rightarrow> string option \<Rightarrow> dcs_cb option \<Rightarrow> dcs_cb option option" where
  "find_handler slots 0 name found = Some found"
| "find_handler [] (Suc n) name found = None"
| "find_handler (None # slots) (Suc n) name found = None"
| "find_handler (Some (dn, cb) # slots) (Suc n) name found =
     (case name of
        None \<Rightarrow> None
      | Some nm \<Rightarrow> find_handler slots n name (if dn = nm then Some cb else found))"

definition router_lookup :: "string option \<Rightarrow> 'n dcs \<Rightarrow> dcs_cb option option" where
  "router_lookup name s =
     (case rt_list s of
        None \<Rightarrow> if rt_count s = 0 then Some None else None
      | Some slots \<Rightarrow> find_handler slots (rt_count s) name None)"

definition c_string :: "byte list \<Rightarrow> string" where
  "c_string bs = map (\<lambda>b. char_of (unat b)) (takeWhile (\<lambda>b. b \<noteq> 0) bs)"

text \<open>What the router makes of the parsed payload.\<close>

definition route_value ::
  "(nat \<Rightarrow> json \<Rightarrow> status) \<Rightarrow> 'n sdk \<Rightarrow> bool \<Rightarrow> json option \<Rightarrow> 'n dcs \<Rightarrow> (status \<times> 'n dcs) option" where
  "route_value app d le value s =
     (case value of
        None \<Rightarrow> Some (DUER_ERR_FAILED, s)
      | Some v \<Rightarrow>
          (let directive = member (Some v) ''directive'';
               header = member directive ''header'';
               name = member header ''name''
           in if directive = None \<or> header = None \<or> name = None then Some (RSP_BAD_REQUEST, s)
              else
                (case router_lookup (valuestring (the name)) s of
                   None \<Rightarrow> None
                 | Some None \<Rightarrow> Some (RSP_NOT_FOUND, s)
                 | Some (Some cb) \<Rightarrow> run_directive app d le cb (the directive) s)))"

definition route_report ::
  "'n sdk \<Rightarrow> bool \<Rightarrow> string option \<Rightarrow> (status \<times> 'n dcs) \<Rightarrow> (status \<times> 'n dcs) option" where
  "route_report d le payload r =
     (case r of (rs, s) \<Rightarrow>
        (if rs = DUER_OK then Some (rs, s)
         else if rs = RSP_NOT_FOUND
         then map_option (Pair rs) (duer_report_exception_internal d le payload ''UNSUPPORTED_OPERATION'' ''Unknow directive'' s)
         else if rs = RSP_BAD_REQUEST
         then map_option (Pair rs) (duer_report_exception_internal d le payload ''UNEXPECTED_INFORMATION_RECEIVED'' ''Bad directive'' s)
         else map_option (Pair rs) (duer_report_exception_internal d le payload ''INTERNAL_ERROR'' ''Internal error'' s)))"

definition duer_dcs_router ::
  "(nat \<Rightarrow> json \<Rightarrow> status) \<Rightarrow> 'n sdk \<Rightarrow> bool \<Rightarrow> coap_msg option \<Rightarrow> 'n dcs \<Rightarrow> (status \<times> 'n dcs) option" where
  "duer_dcs_router app d le msg s =
     (case msg of
        None \<Rightarrow> route_report d le None (RSP_BAD_REQUEST, s)
      | Some m \<Rightarrow>
          (case m_payload m of
             None \<Rightarrow> route_report d le None (RSP_BAD_REQUEST, s)
           | Some bytes \<Rightarrow>
               (if m_payload_len m = 0 then route_report d le None (RSP_BAD_REQUEST, s)
                else
                  (let (ok, mem) = malloc_ok (dcs_mem s);
                       s1 = dcs_set_mem mem s
                   in if \<not> ok then route_report d le None (DUER_ERR_FAILED, s1)
                      else
                        (case memget 0 (unat (m_payload_len m)) bytes of
                           None \<Rightarrow> None
                         | Some bs \<Rightarrow>
                             Option.bind (route_value app d le (sd_parse d (c_string bs)) s1)
                               (route_report d le (Some (c_string bs))))))))"

definition duer_dcs_framework_init :: "'n dcs \<Rightarrow> 'n dcs option" where
  "duer_dcs_framework_init s =
     (case duer_add_resources
             (Some [\<lparr>rs_mode = ResDynamic, rs_allowed = 2, rs_path = bytes_of ''duer_directive'',
                     rs_handler = 0, rs_data = []\<rparr>]) 1 (dc_eng s) of
        None \<Rightarrow> None
      | Some (rs, e) \<Rightarrow> duer_declare_sys_interface_internal (s\<lparr>dc_eng := e\<rparr>))"

end
