(* ===== verification/CaStart.thy ===== *)
theory CaStart
  imports CaAgent
begin

text \<open>
  What the start of the agent does: the loop of \<^verbatim>\<open>baidu_ca_do_start\<close> ends as long as the peer keeps
  the connection open and does not when the peer has closed it; the started state is entered only
  after the service router has answered; loading a profile; messages and their tokens.
\<close>

section \<open>What the receive script loses\<close>

text \<open>
  The start loop ends because every iteration advances the state or uses up part of the receive
  script. \<open>consumes strict w w'\<close>: as long as the peer has not closed the connection, \<open>w'\<close> has no
  more of the script left than \<open>w\<close>, and strictly less if \<open>strict\<close>.
\<close>

fun recv_weight :: "recv_out \<Rightarrow> nat" where
  "recv_weight (RecvErr e) = 1"
| "recv_weight (RecvData bs) = 1 + length bs"
| "recv_weight RecvClosed = 1"

definition recv_left :: "world \<Rightarrow> nat" where
  "recv_left w = sum_list (map recv_weight (w_recv w))"

definition peer_open :: "world \<Rightarrow> bool" where
  "peer_open w \<longleftrightarrow> RecvClosed \<notin> set (w_recv w)"

definition consumes :: "bool \<Rightarrow> world \<Rightarrow> world \<Rightarrow> bool" where
  "consumes strict w w' \<longleftrightarrow>
     (peer_open w \<longrightarrow> peer_open w' \<and> recv_left w' \<le> recv_left w \<and> (strict \<longrightarrow> recv_left w' < recv_left w))"

lemma consumes_same: "w_recv w' = w_recv w \<Longrightarrow> consumes False w w'"
  by (simp add: consumes_def recv_left_def peer_open_def)

lemma consumes_trans: "consumes a w w' \<Longrightarrow> consumes b w' w'' \<Longrightarrow> consumes (a \<or> b) w w''"
  by (auto simp: consumes_def)

lemma consumes_trans1: "consumes True w w' \<Longrightarrow> consumes b w' w'' \<Longrightarrow> consumes True w w''"
  by (auto simp: consumes_def)

lemma consumes_trans2: "consumes b w w' \<Longrightarrow> consumes True w' w'' \<Longrightarrow> consumes True w w''"
  by (auto simp: consumes_def)

lemma consumes_weaken: "consumes True w w' \<Longrightarrow> consumes b w w'"
  by (auto simp: consumes_def)

lemma consumes_recv_left: "consumes b w w' \<Longrightarrow> w_recv v = w_recv w' \<Longrightarrow> consumes b w v"
  by (simp add: consumes_def recv_left_def peer_open_def)

lemma soc_recv_consumes:
  assumes "soc_recv n w = (rs, bs, w')"
  shows "consumes False w w' \<and> (0 < n \<longrightarrow> 0 \<le> rs \<longrightarrow> consumes True w w')"
proof (cases "w_recv w")
  case Nil
  then show ?thesis using assms by (auto simp: soc_recv_def consumes_def peer_open_def recv_left_def)
next
  case (Cons a r)
  then show ?thesis
    using assms
    by (cases a) (auto simp: soc_recv_def consumes_def peer_open_def recv_left_def split: if_splits)
qed

lemma wrapper_recv_consumes:
  assumes "duer_trans_wrapper_recv tr n w = (rs, bs, w')"
  shows "consumes False w w' \<and> (0 < n \<longrightarrow> 0 \<le> rs \<longrightarrow> consumes True w w')"
  using assms soc_recv_consumes [of n w rs bs w']
  by (auto simp: duer_trans_wrapper_recv_def consumes_same split: if_splits)

lemma aes_recv_header_consumes:
  assumes "aes_recv_header le tr buf w = Some (rs, out, tr', w')" "length buf = 8"
  shows "consumes False w w' \<and>
     (0 \<le> rs \<longrightarrow> consumes True w w' \<or> rs = 8 \<and> tr' = tr \<and> w' = w \<and> tr_hdr_n tr = 8 \<and> length out = 8 \<and>
         out = take 8 (tr_hdr tr))"
proof (cases "tr_hdr_n tr < 8")
  case True
  obtain rs1 bs w1 where r: "duer_trans_wrapper_recv (Some tr) (length buf - tr_hdr_n tr) w = (rs1, bs, w1)"
    using prod_cases3 by blast
  with assms True have "w' = w1" "0 \<le> rs \<longrightarrow> 0 \<le> rs1"
    by (auto simp: aes_recv_header_def SIZEOF_TCPHEADER_def Let_def split: option.splits if_splits)
  with wrapper_recv_consumes [OF r] True assms(2) show ?thesis by auto
next
  case False
  then show ?thesis using assms
    by (auto simp: aes_recv_header_def SIZEOF_TCPHEADER_def consumes_same memget_def split: if_splits)
qed

lemma aes_recv_body_consumes:
  assumes "aes_recv_body le cr tr buf w = Some (rs, out, tr', w')"
  shows "consumes False w w' \<and> (0 \<le> rs \<longrightarrow> consumes True w w')"
proof (cases "tr_body_n tr < length buf")
  case True
  obtain rs1 bs w1 where r: "duer_trans_wrapper_recv (Some tr) (length buf - tr_body_n tr) w = (rs1, bs, w1)"
    using prod_cases3 by blast
  have "w' = w1" using assms True
    by (auto simp: aes_recv_body_def r Let_def split: option.splits if_splits)
  moreover have "0 \<le> rs \<longrightarrow> 0 \<le> rs1" using assms True
    by (auto simp: aes_recv_body_def r Let_def split: option.splits if_splits)
  ultimately show ?thesis using wrapper_recv_consumes [OF r] True by auto
next
  case False
  then show ?thesis using assms
    by (auto simp: aes_recv_body_def consumes_same split: if_splits)
qed

lemma trans_recv_consumes:
  assumes "duer_trans_recv le cr tr buf w = Some (rs, out, tr', w')" "0 < length buf"
  shows "consumes False w w' \<and>
     (0 \<le> rs \<longrightarrow> consumes True w w' \<or>
       rs = 8 \<and> w' = w \<and> tr' = tr \<and> length buf = 8 \<and> length out = 8 \<and>
       (\<exists>t. tr = Some t \<and> duer_trans_is_encrypted tr \<and> tr_hdr_n t = 8 \<and> out = take 8 (tr_hdr t)))"
proof (cases tr)
  case None
  then show ?thesis using assms by (auto simp: duer_trans_recv_def consumes_same)
next
  case (Some t)
  show ?thesis
  proof (cases "duer_trans_is_encrypted tr")
    case False
    obtain rs1 bs w1 where r: "duer_trans_wrapper_recv (Some t) (length buf) w = (rs1, bs, w1)"
      using prod_cases3 by blast
    with assms False Some have "rs = rs1" "w' = w1"
      by (auto simp: duer_trans_recv_def duer_trans_get_callbacks_def split: option.splits)
    with wrapper_recv_consumes [OF r] assms(2) show ?thesis by auto
  next
    case True
    with assms(1) Some obtain t1
      where r: "duer_trans_aes_cbc_encrypted_recv le cr t buf w = Some (rs, out, t1, w')" "tr' = Some t1"
      by (auto simp: duer_trans_recv_def duer_trans_get_callbacks_def split: option.splits)
    show ?thesis
    proof (cases "length buf = 8")
      case True
      with r have "aes_recv_header le t buf w = Some (rs, out, t1, w')"
        by (simp add: duer_trans_aes_cbc_encrypted_recv_def SIZEOF_TCPHEADER_def)
      from aes_recv_header_consumes [OF this True] show ?thesis
        using Some True r(2) \<open>duer_trans_is_encrypted tr\<close> by auto
    next
      case False
      then show ?thesis
        using r(1) aes_recv_body_consumes [of le cr t buf w rs out t1 w']
        by (auto simp: duer_trans_aes_cbc_encrypted_recv_def SIZEOF_TCPHEADER_def consumes_same
            split: if_splits)
    qed
  qed
qed


section \<open>What leaves the script alone\<close>

lemma soc_frame [simp]:
  "w_recv (snd (soc_connect a w)) = w_recv w" "w_recv (snd (soc_send bs w)) = w_recv w"
  "w_recv (snd (soc_close w)) = w_recv w" "w_recv (snd (soc_create w)) = w_recv w"
  by (simp_all add: soc_connect_def soc_send_def soc_close_def soc_create_def split: list.split)

lemma wrapper_frame [simp]:
  "w_recv (snd (duer_trans_wrapper_connect tr a w)) = w_recv w"
  "w_recv (snd (duer_trans_wrapper_send tr bs w)) = w_recv w"
  "w_recv (snd (duer_trans_wrapper_close tr w)) = w_recv w"
  "w_recv (snd (duer_trans_wrapper_destroy tr w)) = w_recv w"
  "w_recv (snd (snd (duer_trans_wrapper_create tr w))) = w_recv w"
  by (auto simp: duer_trans_wrapper_connect_def duer_trans_wrapper_send_def duer_trans_wrapper_close_def
      duer_trans_wrapper_destroy_def duer_trans_wrapper_create_def split: option.split prod.split)
     (metis snd_conv soc_frame(4))

lemma wrapper_frame_eq:
  "duer_trans_wrapper_connect tr a w = (rs, w') \<Longrightarrow> w_recv w' = w_recv w"
  "duer_trans_wrapper_send tr bs w = (rs, w') \<Longrightarrow> w_recv w' = w_recv w"
  "duer_trans_wrapper_close tr w = (rs, w') \<Longrightarrow> w_recv w' = w_recv w"
  "duer_trans_wrapper_create tr w = (rs, t, w') \<Longrightarrow> w_recv w' = w_recv w"
  "duer_trans_wrapper_destroy tr w = (rs, w') \<Longrightarrow> w_recv w' = w_recv w"
  by (metis snd_conv wrapper_frame)+

lemma aes_setup_recv: "aes_context_setup c w = Some (rs, ctx, w') \<Longrightarrow> w_recv w' = w_recv w"
  by (auto simp: aes_context_setup_def duer_aes_context_init_def Let_def split: option.splits if_splits)

lemma aes_connect_recv:
  "duer_trans_aes_cbc_encrypted_connect tr a w = Some (rs, tr', w') \<Longrightarrow> w_recv w' = w_recv w"
  unfolding duer_trans_aes_cbc_encrypted_connect_def Let_def
  by (auto split: prod.splits option.splits if_splits dest!: wrapper_frame_eq aes_setup_recv)

lemma trans_connect_recv: "duer_trans_connect tr a w = Some (rs, tr', w') \<Longrightarrow> w_recv w' = w_recv w"
  unfolding duer_trans_connect_def Let_def
  by (auto split: prod.splits option.splits trans_cbs.splits dest!: wrapper_frame_eq(1) aes_connect_recv)

lemma aes_send_recv_frame:
  "duer_trans_aes_cbc_encrypted_send le cr tr bs w = Some (rs, w') \<Longrightarrow> w_recv w' = w_recv w"
  unfolding duer_trans_aes_cbc_encrypted_send_def Let_def
  by (auto split: prod.splits option.splits if_splits dest!: wrapper_frame_eq(2))

lemma trans_send_recv: "duer_trans_send le cr tr bs w = Some (rs, w') \<Longrightarrow> w_recv w' = w_recv w"
  unfolding duer_trans_send_def
  by (auto split: option.splits trans_cbs.splits dest!: wrapper_frame_eq(2) aes_send_recv_frame)

lemma nsdl_tx_recv: "duer_coap_nsdl_tx e co bs w = Some (ok, co', w') \<Longrightarrow> w_recv w' = w_recv w"
  unfolding duer_coap_nsdl_tx_def Let_def
  by (auto split: prod.splits option.splits if_splits dest!: trans_send_recv)

lemma ns_acts_recv: "ns_acts e acts a co w = Some (evs, co', w') \<Longrightarrow> w_recv w' = w_recv w"
proof (induction acts arbitrary: evs co co' w w')
  case Nil
  then show ?case by simp
next
  case (Cons x acts)
  show ?case
  proof (cases x)
    case (ActTx bs)
    with Cons.prems obtain ok co1 w1 where "duer_coap_nsdl_tx e co bs w = Some (ok, co1, w1)"
      "ns_acts e acts a co1 w1 = Some (evs, co', w')"
      by (auto split: option.splits)
    with Cons.IH nsdl_tx_recv show ?thesis by metis
  next
    case (ActRx h)
    with Cons.prems obtain evs1 where "ns_acts e acts a co w = Some (evs1, co', w')"
      by (auto split: option.splits)
    then show ?thesis by (rule Cons.IH)
  next
    case (ActDyn h)
    with Cons.prems obtain evs1 where "ns_acts e acts a co w = Some (evs1, co', w')"
      by (auto split: option.splits)
    then show ?thesis by (rule Cons.IH)
  qed
qed

lemma coap_send_recv:
  assumes "duer_coap_send e h m w = Some (rs, h', w')"
  shows "w_recv w' = w_recv w"
proof (cases h)
  case None
  then show ?thesis using assms by (simp add: duer_coap_send_def)
next
  case co: (Some co)
  show ?thesis
  proof (cases "co_nsdl co")
    case None
    then show ?thesis using assms co by (simp add: duer_coap_send_def)
  next
    case (Some hn)
    obtain a n where n: "hn = (a, n)" by (rule prod.exhaust)
    obtain out k where o: "ns_send (e_nsdl e) n (duer_nsdl_address_set (co_remote co))
        (duer_nsdl_header_set m) = (out, k)" by (rule prod.exhaust)
    note simps = duer_coap_send_def co Some n o
    show ?thesis
    proof (cases out)
      case None
      obtain rs1 n1 where "k False = (rs1, n1)" by (rule prod.exhaust)
      with assms None show ?thesis by (simp add: simps)
    next
      case bs: (Some bs)
      show ?thesis
      proof (cases "duer_coap_nsdl_tx e (co\<lparr>co_retval := DUER_ERR_FAILED\<rparr>) bs w")
        case None
        then show ?thesis using assms bs by (simp add: simps)
      next
        case tx: (Some r)
        obtain ok co1 w1 where r: "r = (ok, co1, w1)" by (rule prod_cases3)
        obtain rs1 n1 where "k ok = (rs1, n1)" by (rule prod.exhaust)
        with assms bs tx r have "w' = w1" by (simp add: simps Let_def)
        with nsdl_tx_recv [of e _ bs w ok co1 w1] tx r show ?thesis by simp
      qed
    qed
  qed
qed

lemma set_pk_recv: "duer_trans_set_pk t data w = (rs, t', w') \<Longrightarrow> w_recv w' = w_recv w"
  by (auto simp: duer_trans_set_pk_def Let_def split: option.splits if_splits)

lemma coap_connect_recv:
  assumes "duer_coap_connect h a data w = Some (rs, h', w')"
  shows "w_recv w' = w_recv w"
proof (cases "h = None \<or> a = None")
  case False
  then obtain co addr where h: "h = Some co" "a = Some addr" by auto
  obtain rs0 t1 w1 where p: "duer_trans_set_pk (co_trans co) data w = (rs0, t1, w1)"
    using prod_cases3 by blast
  obtain ok w2 where m: "(if na_host addr \<noteq> None \<or> 0 < na_host_size addr then w_malloc w1 else (True, w1)) = (ok, w2)"
    by fastforce
  then have "w_recv w2 = w_recv w1" by (auto split: if_splits)
  with set_pk_recv [OF p] assms show ?thesis
    by (auto simp: duer_coap_connect_def h p m Let_def split: option.splits if_splits dest!: trans_connect_recv)
qed (use assms in \<open>auto simp: duer_coap_connect_def split: option.splits\<close>)

lemma trans_close_recv: "duer_trans_close tr w = (rs, tr', w') \<Longrightarrow> w_recv w' = w_recv w"
  by (auto simp: duer_trans_close_def duer_trans_aes_cbc_encrypted_close_def Let_def
      split: option.splits trans_cbs.splits prod.splits dest!: wrapper_frame_eq(3))

lemma trans_release_recv: "w_recv (snd (duer_trans_release tr w)) = w_recv w"
  unfolding duer_trans_release_def Let_def
  by (auto split: prod.splits dest!: trans_close_recv wrapper_frame_eq(5))

lemma trans_acquire_recv: "duer_trans_acquire k w = (t, w') \<Longrightarrow> w_recv w' = w_recv w"
  unfolding duer_trans_acquire_def Let_def
  by (auto split: prod.splits if_splits dest!: wrapper_frame_eq(4))


section \<open>What a receive uses up\<close>

text \<open>
  The library refuses a datagram that starts with the magic number of the TCP framing: the first
  byte of a CoAP message holds the version, which must be 1, and that of the magic number is 2.
\<close>

definition rejects_frame_header :: "'n env \<Rightarrow> bool" where
  "rejects_frame_header e \<longleftrightarrow>
     (\<forall>n bs a. take 4 bs = be32 COAP_TCP_HDR \<longrightarrow> fst (snd (ns_process (e_nsdl e) n bs a)) < 0)"

lemma be32_of_be32: "length bs = 4 \<Longrightarrow> be32 (of_be32 bs) = bs"
proof -
  assume "length bs = 4"
  then obtain a b c d where bs: "bs = [a, b, c, d]"
    by (auto simp: length_Suc_conv numeral_eq_Suc)
  have f: "8 \<le> k \<Longrightarrow> \<not> bit (x :: byte) (k + n)" for x k n
    using bit_imp_le_length [of x "k + n"] by auto
  have "(ucast (drop_bit 24 (of_be32 bs)) :: byte) = a" "(ucast (drop_bit 16 (of_be32 bs)) :: byte) = b"
    "(ucast (drop_bit 8 (of_be32 bs)) :: byte) = c" "(ucast (of_be32 bs) :: byte) = d"
    by (auto intro!: bit_word_eqI simp: of_be32_def bs bit_simps f)
  then show ?thesis by (simp add: be32_def bs)
qed

lemma load_header_eq:
  assumes "duer_htonl le (load32 le v) = m" "4 \<le> length v"
  shows "take 4 v = be32 m"
proof -
  have l: "length (take 4 v) = 4" using assms(2) by simp
  show ?thesis
  proof (cases le)
    case True
    with assms(1) have "SWAP_L (of_be32 (rev (take 4 v))) = m"
      by (simp add: load32_def duer_htonl_def)
    then have "be32 m = rev (be32 (of_be32 (rev (take 4 v))))" by (metis be32_SWAP_L)
    then show ?thesis using l by (simp add: be32_of_be32)
  next
    case False
    with assms(1) l show ?thesis by (auto simp: load32_def duer_htonl_def be32_of_be32)
  qed
qed

lemma trans_recv_weak:
  assumes "duer_trans_recv le cr tr buf w = Some (rs, out, tr', w')"
  shows "consumes False w w'"
proof (cases "buf = []")
  case True
  show ?thesis
  proof (cases tr)
    case None
    then show ?thesis using assms by (auto simp: duer_trans_recv_def consumes_same)
  next
    case (Some t)
    obtain rs1 bs w1 where r: "duer_trans_wrapper_recv (Some t) 0 w = (rs1, bs, w1)"
      using prod_cases3 by blast
    then show ?thesis using assms True Some wrapper_recv_consumes [OF r]
      by (auto simp: duer_trans_recv_def duer_trans_get_callbacks_def consumes_same
          duer_trans_aes_cbc_encrypted_recv_def body_sizes split: option.splits if_splits)
  qed
next
  case False
  then show ?thesis using trans_recv_consumes [OF assms] by simp
qed

lemma aes_recv_empty:
  "duer_trans_is_encrypted tr \<Longrightarrow> duer_trans_recv le cr tr [] w = Some (rs, out, tr', w') \<Longrightarrow> rs < 0"
  by (cases tr) (auto simp: duer_trans_recv_def duer_trans_get_callbacks_def
      duer_trans_aes_cbc_encrypted_recv_def body_sizes)

lemma coap_recv_body_cases:
  assumes "coap_recv_body e co buf w = Some (rs, evs, co', w')"
  obtains rs1 out t1 w1 where
    "duer_trans_recv (e_le e) (e_crypt e) (co_trans co) buf w = Some (rs1, out, t1, w1)"
    "w_recv w' = w_recv w1"
    "rs1 \<le> 0 \<and> rs = rs1 \<or> 0 < rs1 \<and> (\<exists>n a. rs = fst (snd (ns_process (e_nsdl e) n (take (nat rs1) out) a)))"
proof -
  from assms obtain r where "duer_trans_recv (e_le e) (e_crypt e) (co_trans co) buf w = Some r"
    by (auto simp: coap_recv_body_def split: option.splits)
  moreover obtain rs1 out t1 w1 where r: "r = (rs1, out, t1, w1)" using prod_cases4 by blast
  ultimately have t: "duer_trans_recv (e_le e) (e_crypt e) (co_trans co) buf w = Some (rs1, out, t1, w1)"
    by simp
  show thesis
  proof (cases "rs1 \<le> 0")
    case True
    with assms t have "rs = rs1" "w' = w1" by (simp_all add: coap_recv_body_def Let_def)
    with t True show thesis by (intro that [of rs1 out t1 w1]) auto
  next
    case False
    from assms t False obtain h n where n: "co_nsdl co = Some (h, n)"
      by (auto simp: coap_recv_body_def Let_def split: option.splits)
    let ?a = "duer_nsdl_address_set (co_remote co)"
    obtain acts st n1 where p: "ns_process (e_nsdl e) n (take (nat rs1) out) ?a = (acts, st, n1)"
      using prod_cases3 by blast
    with assms t False n have st: "rs = st" and
      ac: "\<exists>co2. ns_acts e acts ?a (co\<lparr>co_trans := t1\<rparr>) w1 = Some (evs, co2, w')"
      by (auto simp: coap_recv_body_def Let_def split: option.splits)
    from ac ns_acts_recv have "w_recv w' = w_recv w1" by blast
    with t False st p show thesis
      by (intro that [of rs1 out t1 w1]) (auto intro!: exI [of _ n] exI [of _ ?a])
  qed
qed

lemma coap_recv_body_weak:
  assumes "coap_recv_body e co buf w = Some (rs, evs, co', w')"
  shows "consumes False w w'"
  using assms
proof (rule coap_recv_body_cases)
  fix rs1 out t1 w1
  assume "duer_trans_recv (e_le e) (e_crypt e) (co_trans co) buf w = Some (rs1, out, t1, w1)"
    "w_recv w' = w_recv w1"
  then show ?thesis using trans_recv_weak consumes_recv_left by metis
qed


lemma coap_recv_consumes:
  assumes recv: "duer_coap_recv e co data w = Some (0, evs, co', w')"
    and rej: "rejects_frame_header e" and len: "8 < length data"
  shows "consumes True w w'"
proof (cases "na_type (co_remote co) = PROTO_TCP")
  case False
  with recv have "coap_recv_body e co data w = Some (0, evs, co', w')" by (simp add: duer_coap_recv_def)
  then show ?thesis
  proof (rule coap_recv_body_cases)
    fix rs1 out t1 w1
    assume r: "duer_trans_recv (e_le e) (e_crypt e) (co_trans co) data w = Some (rs1, out, t1, w1)"
      "w_recv w' = w_recv w1" "rs1 \<le> 0 \<and> 0 = rs1 \<or> 0 < rs1 \<and>
        (\<exists>n a. 0 = fst (snd (ns_process (e_nsdl e) n (take (nat rs1) out) a)))"
    from len have "0 < length data" by linarith
    then have "consumes True w w1" using trans_recv_consumes [OF r(1)] len r(3) by auto
    then show ?thesis using consumes_recv_left r(2) by blast
  qed
next
  case True
  obtain rs1 val t1 w1
    where h: "duer_trans_recv (e_le e) (e_crypt e) (co_trans co) (replicate 8 0) w = Some (rs1, val, t1, w1)"
    using recv True by (auto simp: duer_coap_recv_def split: option.splits)
  have H: "0 \<le> rs1 \<longrightarrow> consumes True w w1 \<or>
       rs1 = 8 \<and> w1 = w \<and> t1 = co_trans co \<and> length val = 8 \<and>
       (\<exists>t. co_trans co = Some t \<and> duer_trans_is_encrypted (co_trans co) \<and> tr_hdr_n t = 8 \<and>
          val = take 8 (tr_hdr t))"
    using trans_recv_consumes [OF h] by simp
  let ?mask = "duer_htonl (e_le e) (load32 (e_le e) val)"
  let ?sz = "unat (duer_htonl (e_le e) (load32 (e_le e) (drop 4 val)))"
  let ?co = "co\<lparr>co_trans := t1\<rparr>"
  show ?thesis
  proof (cases "rs1 \<noteq> 8 \<or> ?mask \<noteq> COAP_TCP_HDR \<or> length data < ?sz")
    case bad: True
    have "duer_coap_recv e co data w = Some (rs1, [], co\<lparr>co_trans := t1\<rparr>, w1)"
      unfolding duer_coap_recv_def using bad by (simp only: True h option.case prod.case Let_def if_True simp_thms)
    with recv have "rs1 = 0" "w' = w1" by simp_all
    with H show ?thesis by simp
  next
    case False
    have "duer_coap_recv e co data w = coap_recv_body e ?co (take ?sz data) w1"
      unfolding duer_coap_recv_def using False by (simp only: True h option.case prod.case Let_def if_True if_False simp_thms)
    with recv have body: "coap_recv_body e ?co (take ?sz data) w1 = Some (0, evs, co', w')" by simp
    show ?thesis
    proof (cases "consumes True w w1")
      case True
      from this coap_recv_body_weak [OF body] show ?thesis by (rule consumes_trans1)
    next
      case keep: False
      have "rs1 = 8" using False by simp
      with H keep obtain t
        where c: "w1 = w" "t1 = co_trans co" "co_trans co = Some t" "duer_trans_is_encrypted (Some t)"
          "tr_hdr_n t = 8" "val = take 8 (tr_hdr t)" "length val = 8" by auto
      have hdr: "take 4 val = be32 COAP_TCP_HDR"
        using False c(7) by (intro load_header_eq [of "e_le e"]) auto
      from body show ?thesis
      proof (rule coap_recv_body_cases)
        fix rs2 out t2 w2
        assume r: "duer_trans_recv (e_le e) (e_crypt e) (co_trans ?co) (take ?sz data) w1 = Some (rs2, out, t2, w2)"
          "w_recv w' = w_recv w2" "rs2 \<le> 0 \<and> 0 = rs2 \<or> 0 < rs2 \<and>
            (\<exists>n a. 0 = fst (snd (ns_process (e_nsdl e) n (take (nat rs2) out) a)))"
        from r(1) have r1: "duer_trans_recv (e_le e) (e_crypt e) (Some t) (take ?sz data) w = Some (rs2, out, t2, w2)"
          using c by simp
        have ne: "0 < length (take ?sz data)"
        proof (rule ccontr)
          assume "\<not> 0 < length (take ?sz data)"
          then have "take ?sz data = []" by auto
          with r1 have "duer_trans_recv (e_le e) (e_crypt e) (Some t) [] w = Some (rs2, out, t2, w2)" by simp
          from aes_recv_empty [OF c(4) this] r(3) show False by auto
        qed
        from r(3) have "0 \<le> rs2" by linarith
        with trans_recv_consumes [OF r1 ne] consider "consumes True w w2"
          | "rs2 = 8" "out = take 8 (tr_hdr t)" by auto
        then show ?thesis
        proof cases
          case 1
          then show ?thesis using consumes_recv_left r(2) by blast
        next
          case 2
          with c(6) hdr have t4: "take 4 (take (nat rs2) out) = be32 COAP_TCP_HDR" by (simp add: min_def)
          from r(3) 2(1) obtain n a
            where "0 = fst (snd (ns_process (e_nsdl e) n (take (nat rs2) out) a))" by auto
          moreover have "fst (snd (ns_process (e_nsdl e) n (take (nat rs2) out) a)) < 0"
            using rej t4 unfolding rejects_frame_header_def by blast
          ultimately show ?thesis by simp
        qed
      qed
    qed
  qed
qed

lemma data_available_consumes:
  assumes "duer_coap_data_available e sr w = Some (rs, evs, sr', w')" "rejects_frame_header e"
  shows "rs = 0 \<longrightarrow> consumes True w w'"
proof (cases sr)
  case (Some co)
  with assms(1) obtain co1 where "duer_coap_recv e co (replicate DUER_BUFFER_SIZE 0) w = Some (rs, evs, co1, w')"
    by (auto simp: duer_coap_data_available_def split: option.splits)
  with coap_recv_consumes [of e co "replicate DUER_BUFFER_SIZE 0" w evs co1 w'] assms(2) show ?thesis
    by (auto simp: DUER_BUFFER_SIZE_def)
qed (use assms in \<open>simp add: duer_coap_data_available_def\<close>)


section \<open>The steps of a start\<close>

lemma resource_add_recv:
  "duer_coap_resource_add e sr r w = Some (st, sr1, w1) \<Longrightarrow> w_recv w1 = w_recv w"
  by (auto simp: duer_coap_resource_add_def duer_coap_dynamic_resource_add_def Let_def
      split: option.splits prod.splits if_splits)

lemma add_one_recv: "ca_add_one e l i sr w = Some (sr1, w1) \<Longrightarrow> w_recv w1 = w_recv w"
  by (auto simp: ca_add_one_def split: option.splits if_splits dest: resource_add_recv)

lemma add_loop_recv:
  assumes "ca_add_loop e l n i sr w = Some (Some (sr', w'))"
  shows "w_recv w' = w_recv w"
proof -
  have "w_recv (snd (the (Some (sr', w')))) = w_recv w"
  proof (rule ca_add_loop.raw_induct
      [where P = "\<lambda>e l n i sr w y. y \<noteq> None \<longrightarrow> w_recv (snd (the y)) = w_recv w", OF _ assms, THEN mp])
    fix f :: "'a env \<Rightarrow> res list option \<Rightarrow> nat \<Rightarrow> byte \<Rightarrow> 'a coap option \<Rightarrow> world
        \<Rightarrow> ('a coap option \<times> world) option option"
    fix e l n and i :: byte and sr w y
    assume IH: "\<And>e l n i sr w y. f e l n i sr w = Some y \<Longrightarrow> y \<noteq> None \<longrightarrow> w_recv (snd (the y)) = w_recv w"
      and b: "(if unat i < n then (case ca_add_one e l i sr w of None \<Rightarrow> Some None
             | Some (sr1, w1) \<Rightarrow> f e l n (i + 1) sr1 w1)
        else Some (Some (sr, w))) = Some y"
    then show "y \<noteq> None \<longrightarrow> w_recv (snd (the y)) = w_recv w"
      using IH [of e l n "i + 1" _ _ y] add_one_recv [of e l i sr w]
      by (fastforce split: if_splits option.splits)
  qed simp
  then show ?thesis by simp
qed

text \<open>With at most 255 resources the loop over them ends.\<close>

lemma add_loop_ends:
  assumes "n \<le> 255"
  shows "unat i \<le> n \<Longrightarrow> ca_add_loop e l n i sr w \<noteq> None"
proof (induction "n - unat i" arbitrary: i sr w)
  case 0
  then show ?case by (simp add: ca_add_loop.simps)
next
  case (Suc k)
  then have lt: "unat i < n" by simp
  with assms have i1: "unat (i + 1) = unat i + 1" by (simp add: unat_word_ariths)
  then have "ca_add_loop e l n (i + 1) sr1 w1 \<noteq> None" for sr1 w1
    using Suc.hyps(1) [of "i + 1" sr1 w1] Suc.hyps(2) lt by simp
  then show ?case by (subst ca_add_loop.simps) (auto split: option.split)
qed

lemma add_resources_recv:
  assumes "baidu_ca_add_resources d ctx l n w = Some (Some (rs, ctx', w'))"
  shows "w_recv w' = w_recv w \<and> ca_state ctx' = ca_state ctx \<and>
     (ca_state ctx = ST_SR_INITIALIZED \<longrightarrow> ca_res_size ctx' = ca_res_size ctx)"
proof (cases "st_code ST_SR_INITIALIZED \<le> st_code (ca_state ctx)")
  case True
  with assms obtain sr1 where "ca_add_loop (sd_env d) l n 0 (ca_sr ctx) w = Some (Some (sr1, w'))"
    "ctx' = ctx\<lparr>ca_sr := sr1\<rparr>"
    by (auto simp: baidu_ca_add_resources_def split: option.splits)
  then show ?thesis using add_loop_recv by fastforce
next
  case False
  with assms show ?thesis
    by (auto simp: baidu_ca_add_resources_def Let_def split: option.splits if_splits)
qed

lemma add_resources_ends:
  "n \<le> 255 \<Longrightarrow> baidu_ca_add_resources d ctx l n w \<noteq> None"
  using add_loop_ends [of n 0 "sd_env d" l "ca_sr ctx" w]
  by (auto simp: baidu_ca_add_resources_def Let_def split: option.split)

lemma sr_finish_facts:
  assumes "ca_sr_finish d rs ctx w = Some (Some (rs', ctx', w'))"
  shows "w_recv w' = w_recv w \<and> ca_state ctx' = ca_state ctx \<and>
     rs' = (if ca_state ctx = ST_REGISTER_FAIL then DUER_ERR_REG_FAIL else rs) \<and>
     ca_res_size ctx' \<le> ca_res_size ctx"
  using assms
  by (auto simp: ca_sr_finish_def split: option.splits if_splits dest!: add_resources_recv)

lemma sr_connect_facts:
  assumes "ca_sr_connect ctx w = Some (rs, ctx', w')"
  shows "w_recv w' = w_recv w \<and>
     ca_state ctx' = (if rs = DUER_OK then ST_SR_DATA_SENDING else ca_state ctx)"
proof -
  have t: "w_recv (snd (duer_timestamp v)) = w_recv v" for v
    by (simp add: duer_timestamp_def split: list.split)
  have c: "w_recv (ca_record_connect k v) = w_recv v" for k v
    by (simp add: ca_record_connect_def split: prod.split)
  obtain ctx1 w1 where a: "(if ca_start_connect_time ctx = 0
             then (let (t, w1) = duer_timestamp w in (ctx\<lparr>ca_start_connect_time := t\<rparr>, w1))
             else (ctx, w)) = (ctx1, w1)" by (rule prod.exhaust)
  then have a': "w_recv w1 = w_recv w" "ca_state ctx1 = ca_state ctx"
    using t [of w] by (auto split: if_splits prod.splits)
  from assms obtain bt sr1 w2
    where b: "conf_deref ctx1 (ca_bindToken ctx1) = Some bt"
      "duer_coap_connect (ca_sr ctx1) (Some (ca_addr_sr ctx1)) (bytes_of bt) w1 = Some (rs, sr1, w2)"
    by (auto simp: ca_sr_connect_def a Let_def split: option.splits if_splits prod.splits)
  from coap_connect_recv [OF b(2)] assms a' t [of w2] c show ?thesis
    by (auto simp: ca_sr_connect_def a b Let_def split: if_splits prod.splits)
qed

lemma sr_send_facts:
  assumes "ca_sr_send d ctx w = Some (rs, ctx', w')"
  shows "w_recv w' = w_recv w \<and>
     ca_state ctx' = (if rs < DUER_OK then ca_state ctx else ST_SR_DATA_RECEIVING)"
proof -
  have p: "w_recv v' = w_recv v" if "baidu_ca_get_service_router_payload d u tk v = (pl, v')" for u tk v pl v'
    using that by (auto simp: baidu_ca_get_service_router_payload_def Let_def split: prod.splits option.splits)
  show ?thesis using assms p
    by (auto simp: ca_sr_send_def Let_def split: option.splits prod.splits dest!: coap_send_recv)
qed

lemma sr_acquire_facts:
  assumes "ca_sr_acquire d ctx w = (ctx', w')"
  shows "w_recv w' = w_recv w \<and> ca_state ctx' = ca_state ctx"
proof -
  have r: "w_recv (snd (duer_coap_release h v)) = w_recv v" for h :: "'a coap option" and v
    using trans_release_recv
    by (auto simp: duer_coap_release_def duer_coap_nsdl_del_def Let_def split: option.split)
  have "w_recv v' = w_recv v" if "duer_coap_acquire e self f k v = (sr, v')"
    for e :: "'a env" and self f k v v' sr
  proof -
    obtain t v2 where "duer_trans_acquire k (v\<lparr>w_mem := snd (malloc_ok (w_mem v))\<rparr>) = (t, v2)"
      by (rule prod.exhaust)
    with trans_acquire_recv [OF this] that r show ?thesis
      by (auto simp: duer_coap_acquire_def Let_def duer_coap_nsdl_add_def split: if_splits option.splits)
  qed
  then show ?thesis using assms by (auto simp: ca_sr_acquire_def split: if_splits prod.splits)
qed

definition answered :: "coap_event list \<Rightarrow> bool" where
  "answered evs \<longleftrightarrow> (\<exists>m a. EvResult m a \<in> set evs \<and> m_code m = MSG_RSP_CONTENT)"

lemma answered_append: "answered (xs @ ys) \<longleftrightarrow> answered xs \<or> answered ys"
  by (auto simp: answered_def)

lemma ca_handle_other: "ca_state ca \<noteq> ST_SR_DATA_RECEIVING \<Longrightarrow> ca_state (ca_handle evs ca) = ca_state ca"
  by (induction evs ca rule: ca_handle.induct) (auto simp: duer_engine_coap_handler_def Let_def)

lemma ca_handle_size: "ca_res_size (ca_handle evs ca) = ca_res_size ca"
  by (induction evs ca rule: ca_handle.induct) (auto simp: duer_engine_coap_handler_def Let_def)

lemma ca_handle_receiving:
  "ca_state ca = ST_SR_DATA_RECEIVING \<Longrightarrow>
   ca_state (ca_handle evs ca) \<in> {ST_SR_DATA_RECEIVING, ST_SR_INITIALIZED, ST_REGISTER_FAIL} \<and>
   (ca_state (ca_handle evs ca) = ST_SR_INITIALIZED \<longrightarrow> answered evs)"
proof (induction evs ca rule: ca_handle.induct)
  case (2 m a evs ca)
  have "ca_state (duer_engine_coap_handler m ca) =
      (if m_code m = MSG_RSP_CONTENT then ST_SR_INITIALIZED else ST_REGISTER_FAIL)"
    using 2 by (simp add: duer_engine_coap_handler_def Let_def)
  then show ?case by (auto simp: answered_def ca_handle_other)
qed (auto simp: answered_def)

lemma sr_receive_facts:
  assumes "ca_sr_receive d ctx w = Some (rs, evs, ctx', w')"
  shows "(rejects_frame_header (sd_env d) \<longrightarrow> rs = 0 \<longrightarrow> consumes True w w') \<and>
     (\<exists>sr1. ctx' = ca_handle evs (ctx\<lparr>ca_sr := sr1\<rparr>))"
proof -
  from assms obtain sr1 where "duer_coap_data_available (sd_env d) (ca_sr ctx) w = Some (rs, evs, sr1, w')"
    "ctx' = ca_handle evs (ctx\<lparr>ca_sr := sr1\<rparr>)"
    by (auto simp: ca_sr_receive_def split: option.splits)
  then show ?thesis using data_available_consumes by blast
qed

text \<open>A start step from one of the three connecting states.\<close>

lemma service_router_facts:
  assumes run: "baidu_ca_create_service_router d ctx w = Some (Some (rs, evs, ctx', w'))"
    and st: "ca_state ctx \<in> {ST_SR_CONNECTING, ST_SR_DATA_SENDING, ST_SR_DATA_RECEIVING}"
  shows "(rejects_frame_header (sd_env d) \<longrightarrow> rs = DUER_OK \<longrightarrow> consumes True w w') \<and>
     ca_state ctx' \<in> {ST_SR_CONNECTING, ST_SR_DATA_SENDING, ST_SR_DATA_RECEIVING, ST_SR_INITIALIZED,
       ST_REGISTER_FAIL} \<and>
     (ca_state ctx' = ST_SR_INITIALIZED \<longrightarrow> answered evs)"
proof -
  obtain ctx0 w0 where a: "ca_sr_acquire d ctx w = (ctx0, w0)" by (rule prod.exhaust)
  from sr_acquire_facts [OF a] have a': "w_recv w0 = w_recv w" "ca_state ctx0 = ca_state ctx" by simp_all
  show ?thesis
  proof (cases "ca_sr ctx0 = None")
    case True
    with run a a' st show ?thesis by (auto simp: baidu_ca_create_service_router_def)
  next
    case sr: False
    let ?conn = "if ca_state ctx0 = ST_SR_CONNECTING then ca_sr_connect ctx0 w0
                 else Some (DUER_ERR_FAILED, ctx0, w0)"
    from run sr obtain r1 where "?conn = Some r1"
      by (auto simp: baidu_ca_create_service_router_def a split: option.splits)
    then obtain rs1 ctx1 w1 where c: "?conn = Some (rs1, ctx1, w1)" by (cases r1) auto
    have c': "w_recv w1 = w_recv w" "ca_state ctx1 \<in> {ST_SR_CONNECTING, ST_SR_DATA_SENDING, ST_SR_DATA_RECEIVING}"
      "ca_state ctx1 = ST_SR_CONNECTING \<longrightarrow> rs1 \<noteq> 0"
      using c a' st sr_connect_facts [of ctx0 w0 rs1 ctx1 w1] by (auto split: if_splits)
    let ?snd = "if ca_state ctx1 = ST_SR_DATA_SENDING then ca_sr_send d ctx1 w1 else Some (rs1, ctx1, w1)"
    from run sr obtain r2 where "?snd = Some r2"
      by (auto simp: baidu_ca_create_service_router_def a c split: option.splits)
    then obtain rs2 ctx2 w2 where s: "?snd = Some (rs2, ctx2, w2)" by (cases r2) auto
    have s': "w_recv w2 = w_recv w"
      "ca_state ctx2 = (if ca_state ctx1 = ST_SR_DATA_SENDING \<and> 0 \<le> rs2 then ST_SR_DATA_RECEIVING else ca_state ctx1)"
      "ca_state ctx1 \<noteq> ST_SR_DATA_SENDING \<longrightarrow> rs2 = rs1"
      using s c' sr_send_facts [of d ctx1 w1 rs2 ctx2 w2] by (auto split: if_splits)
    show ?thesis
    proof (cases "ca_state ctx1 = ST_SR_DATA_SENDING \<and> rs2 < DUER_OK")
      case True
      with s have "ca_sr_send d ctx1 w1 = Some (rs2, ctx2, w2)" by simp
      with True run sr s' c' show ?thesis by (auto simp: baidu_ca_create_service_router_def a c)
    next
      case snd_ok: False
      let ?rcv = "if ca_state ctx2 = ST_SR_DATA_RECEIVING then ca_sr_receive d ctx2 w2
                  else Some (rs2, [], ctx2, w2)"
      from run sr snd_ok obtain r3 where "?rcv = Some r3"
        by (auto simp: baidu_ca_create_service_router_def a c s split: option.splits)
      then obtain rs3 evs3 ctx3 w3 where r: "?rcv = Some (rs3, evs3, ctx3, w3)" by (cases r3) auto
      show ?thesis
      proof (cases "ca_state ctx2 = ST_SR_DATA_RECEIVING")
        case True
        with r have rc: "ca_sr_receive d ctx2 w2 = Some (rs3, evs3, ctx3, w3)" by simp
        from sr_receive_facts [OF rc] obtain sr1 where h: "ctx3 = ca_handle evs3 (ctx2\<lparr>ca_sr := sr1\<rparr>)"
          and cons: "rejects_frame_header (sd_env d) \<longrightarrow> rs3 = 0 \<longrightarrow> consumes True w2 w3" by auto
        have h': "ca_state ctx3 \<in> {ST_SR_DATA_RECEIVING, ST_SR_INITIALIZED, ST_REGISTER_FAIL}"
          "ca_state ctx3 = ST_SR_INITIALIZED \<longrightarrow> answered evs3"
          using ca_handle_receiving [of "ctx2\<lparr>ca_sr := sr1\<rparr>" evs3] True h by simp_all
        have same: "consumes False w w2" using s'(1) by (rule consumes_same)
        show ?thesis
        proof (cases "rs3 < DUER_OK")
          case rs3: True
          with run sr snd_ok True rc have "rs = rs3" "evs = evs3" "ctx' = ctx3"
            by (auto simp: baidu_ca_create_service_router_def a c s)
          with rs3 h' show ?thesis by auto
        next
          case False
          with run sr snd_ok True rc have f: "ca_sr_finish d rs3 ctx3 w3 = Some (Some (rs, ctx', w'))" "evs = evs3"
            by (auto simp: baidu_ca_create_service_router_def a c s split: option.splits)
          from sr_finish_facts [OF f(1)] have f': "w_recv w' = w_recv w3" "ca_state ctx' = ca_state ctx3"
            "rs = 0 \<longrightarrow> rs3 = 0" by auto
          have "rejects_frame_header (sd_env d) \<longrightarrow> rs = DUER_OK \<longrightarrow> consumes True w w'"
            using cons consumes_trans2 [OF same] consumes_recv_left f'(1,3) by blast
          with f' h' f(2) show ?thesis by auto
        qed
      next
        case False
        with s' snd_ok c' have conn: "ca_state ctx2 = ST_SR_CONNECTING" "rs2 \<noteq> 0" by (auto split: if_splits)
        from False r have "rs3 = rs2" "evs3 = []" "ctx3 = ctx2" "w3 = w2" by auto
        with run sr snd_ok False conn have f: "ca_sr_finish d rs2 ctx2 w2 = Some (Some (rs, ctx', w'))" "evs = []"
          by (auto simp: baidu_ca_create_service_router_def a c s split: option.splits)
        from sr_finish_facts [OF f(1)] conn f(2) show ?thesis by auto
      qed
    qed
  qed
qed

text \<open>The number of resources that wait to be added never grows, so with at most 255 of them every
  step ends.\<close>

lemma sr_sizes:
  "ca_sr_acquire d ctx w = (ctx', w') \<Longrightarrow> ca_res_size ctx' = ca_res_size ctx"
  "ca_sr_connect ctx w = Some (rs, ctx', w') \<Longrightarrow> ca_res_size ctx' = ca_res_size ctx"
  "ca_sr_send d ctx w = Some (rs, ctx', w') \<Longrightarrow> ca_res_size ctx' = ca_res_size ctx"
  "ca_sr_receive d ctx w = Some (rs, evs, ctx', w') \<Longrightarrow> ca_res_size ctx' = ca_res_size ctx"
  by (auto simp: ca_sr_acquire_def ca_sr_connect_def ca_sr_send_def ca_sr_receive_def Let_def ca_handle_size
      split: if_splits prod.splits option.splits)

definition size_ok :: "'n ca_result option \<Rightarrow> bool" where
  "size_ok x \<longleftrightarrow> (\<exists>r. x = Some r \<and> (\<forall>rs evs ctx' w'. r = Some (rs, evs, ctx', w') \<longrightarrow> ca_res_size ctx' \<le> 255))"

lemma size_ok_simps [simp]:
  "size_ok (Some None)" "size_ok (Some (Some (rs, evs, ctx, w))) \<longleftrightarrow> ca_res_size ctx \<le> 255"
  "\<not> size_ok None"
  by (simp_all add: size_ok_def)

lemma sr_finish_ends:
  assumes "ca_res_size ctx \<le> 255"
  shows "size_ok (case ca_sr_finish d rs ctx w of
      None \<Rightarrow> None | Some None \<Rightarrow> Some None
    | Some (Some (rs4, ctx4, w4)) \<Rightarrow> Some (Some (rs4, evs, ctx4, w4)))"
proof -
  have "ca_sr_finish d rs ctx w \<noteq> None"
    using add_resources_ends [OF assms, of d ctx "ca_res_list ctx" w]
    by (auto simp: ca_sr_finish_def split: option.splits)
  then show ?thesis using sr_finish_facts [of d rs ctx w] assms by (fastforce split: option.splits)
qed

lemma service_router_ends:
  assumes size: "ca_res_size ctx \<le> 255"
  shows "size_ok (baidu_ca_create_service_router d ctx w)"
proof -
  obtain ctx0 w0 where a: "ca_sr_acquire d ctx w = (ctx0, w0)" by (rule prod.exhaust)
  from sr_sizes(1) [OF a] size have z0: "ca_res_size ctx0 \<le> 255" by simp
  let ?conn = "if ca_state ctx0 = ST_SR_CONNECTING then ca_sr_connect ctx0 w0
               else Some (DUER_ERR_FAILED, ctx0, w0)"
  consider "ca_sr ctx0 = None \<or> ?conn = None"
    | rs1 ctx1 w1 where "ca_sr ctx0 \<noteq> None" "?conn = Some (rs1, ctx1, w1)"
    by (cases ?conn) fastforce+
  then show ?thesis
  proof cases
    case 1
    then show ?thesis using z0 by (auto simp: baidu_ca_create_service_router_def a)
  next
    case (2 rs1 ctx1 w1)
    have z1: "ca_res_size ctx1 \<le> 255" using 2(2) z0 sr_sizes(2) [of ctx0 w0 rs1 ctx1 w1] by (auto split: if_splits)
    let ?snd = "if ca_state ctx1 = ST_SR_DATA_SENDING then ca_sr_send d ctx1 w1 else Some (rs1, ctx1, w1)"
    show ?thesis
    proof (cases ?snd)
      case None
      then show ?thesis using 2 z0 by (simp add: baidu_ca_create_service_router_def a)
    next
      case (Some r2)
      then obtain rs2 ctx2 w2 where s: "?snd = Some (rs2, ctx2, w2)" by (cases r2) auto
      have z2: "ca_res_size ctx2 \<le> 255" using s z1 sr_sizes(3) [of d ctx1 w1 rs2 ctx2 w2] by (auto split: if_splits)
      let ?rcv = "if ca_state ctx2 = ST_SR_DATA_RECEIVING then ca_sr_receive d ctx2 w2
                  else Some (rs2, [], ctx2, w2)"
      consider "ca_state ctx1 = ST_SR_DATA_SENDING \<and> rs2 < DUER_OK" | "?rcv = None"
        | rs3 evs ctx3 w3 where "?rcv = Some (rs3, evs, ctx3, w3)"
        by (cases ?rcv) fastforce+
      then show ?thesis
      proof cases
        case 1
        then show ?thesis using 2 s z0 z2 by (simp add: baidu_ca_create_service_router_def a)
      next
        case b: 2
        then show ?thesis using 2 s z0 z2 by (simp add: baidu_ca_create_service_router_def a)
      next
        case (3 rs3 evs ctx3 w3)
        have "ca_res_size ctx3 \<le> 255" using 3 z2 sr_sizes(4) [of d ctx2 w2 rs3 evs ctx3 w3] by (auto split: if_splits)
        then show ?thesis using 2 s z0 z2 3 sr_finish_ends [of ctx3 evs d rs3 w3]
          by (simp add: baidu_ca_create_service_router_def a)
      qed
    qed
  qed
qed

lemma ca_run_ends: "ca_res_size ctx \<le> 255 \<Longrightarrow> size_ok (baidu_ca_run d ctx w)"
  by (cases "ca_state ctx") (auto simp: baidu_ca_run_def intro: service_router_ends)

lemma ca_run_facts:
  assumes "baidu_ca_run d ctx w = Some (Some (rs, evs, ctx', w'))" "ca_state ctx \<noteq> ST_STARTED"
  shows "(rejects_frame_header (sd_env d) \<longrightarrow> rs = DUER_OK \<longrightarrow>
            consumes True w w' \<or> w' = w \<and> st_code (ca_state ctx) < st_code (ca_state ctx')) \<and>
     (answered evs \<or> st_code (ca_state ctx') < 7 \<or> ca_state ctx' = ST_REGISTER_FAIL \<or>
      7 \<le> st_code (ca_state ctx))"
proof (cases "ca_state ctx \<in> {ST_SR_CONNECTING, ST_SR_DATA_SENDING, ST_SR_DATA_RECEIVING}")
  case True
  with assms(1) have "baidu_ca_create_service_router d ctx w = Some (Some (rs, evs, ctx', w'))"
    by (auto simp: baidu_ca_run_def)
  from service_router_facts [OF this True] show ?thesis by auto
next
  case False
  then show ?thesis using assms by (cases "ca_state ctx") (auto simp: baidu_ca_run_def)
qed

section \<open>The start loop\<close>

text \<open>The states that the loop gets to, each iteration having succeeded.\<close>

inductive ca_reaches :: "'n sdk \<Rightarrow> 'n ca \<Rightarrow> world \<Rightarrow> 'n ca \<Rightarrow> world \<Rightarrow> bool" for d where
  here: "ca_reaches d ctx w ctx w"
| step: "baidu_ca_run d ctx w = Some (Some (DUER_OK, evs, ctx1, w1)) \<Longrightarrow> ca_state ctx \<noteq> ST_STARTED \<Longrightarrow>
    ca_reaches d ctx1 w1 ctx' w' \<Longrightarrow> ca_reaches d ctx w ctx' w'"

definition ca_faults :: "'n sdk \<Rightarrow> 'n ca \<Rightarrow> world \<Rightarrow> bool" where
  "ca_faults d ctx w \<longleftrightarrow> (\<exists>ctx' w'. ca_reaches d ctx w ctx' w' \<and> baidu_ca_run d ctx' w' = Some None)"

lemma start_loop_returns:
  assumes "rejects_frame_header (sd_env d)"
  shows "peer_open w \<Longrightarrow> ca_res_size ctx \<le> 255 \<Longrightarrow>
    (\<exists>r. ca_start_loop d rs evs ctx w = Some (Some r)) \<or> ca_faults d ctx w"
proof (induction "(recv_left w, 13 - st_code (ca_state ctx))" arbitrary: w rs evs ctx
    rule: wf_induct_rule [OF wf_lex_prod [OF wf_less wf_less]])
  case (1 w ctx rs evs)
  show ?case
  proof (cases "ca_state ctx \<noteq> ST_STARTED \<and> rs = DUER_OK")
    case True
    from ca_run_ends [OF "1.prems"(2), of d w] obtain x where x: "baidu_ca_run d ctx w = Some x"
      "\<And>rs evs ctx' w'. x = Some (rs, evs, ctx', w') \<Longrightarrow> ca_res_size ctx' \<le> 255"
      by (auto simp: size_ok_def)
    show ?thesis
    proof (cases x)
      case None
      with x have "ca_faults d ctx w" unfolding ca_faults_def using ca_reaches.here [of d ctx w] by blast
      then show ?thesis by blast
    next
      case (Some r)
      obtain rs1 evs1 ctx1 w1 where r: "r = (rs1, evs1, ctx1, w1)" by (rule prod_cases4)
      have run: "baidu_ca_run d ctx w = Some (Some (rs1, evs1, ctx1, w1))" using x Some r by simp
      have step: "ca_start_loop d rs evs ctx w = ca_start_loop d rs1 (evs @ evs1) ctx1 w1"
        using True run by (subst ca_start_loop.simps) simp
      show ?thesis
      proof (cases "rs1 = DUER_OK")
        case ok: True
        have "consumes True w w1 \<or> w1 = w \<and> st_code (ca_state ctx) < st_code (ca_state ctx1)"
          using ca_run_facts [OF run] True ok assms by simp
        moreover have "st_code (ca_state ctx1) \<le> 13" by (cases "ca_state ctx1") simp_all
        ultimately have m: "peer_open w1" "recv_left w1 < recv_left w \<or> recv_left w1 = recv_left w \<and>
            13 - st_code (ca_state ctx1) < 13 - st_code (ca_state ctx)"
          using "1.prems"(1) by (auto simp: consumes_def)
        have "ca_res_size ctx1 \<le> 255" using x(2) Some r by blast
        then have "(\<exists>r. ca_start_loop d rs1 (evs @ evs1) ctx1 w1 = Some (Some r)) \<or> ca_faults d ctx1 w1"
          using m by (intro "1.hyps") auto
        then show ?thesis
          using ca_reaches.step [OF run [unfolded ok]] True unfolding step ca_faults_def by blast
      next
        case False
        then show ?thesis unfolding step by (subst ca_start_loop.simps) simp
      qed
    qed
  next
    case False
    then show ?thesis by (subst ca_start_loop.simps) auto
  qed
qed

definition start_ok :: "coap_event list \<Rightarrow> 'n ca \<Rightarrow> bool" where
  "start_ok evs ctx \<longleftrightarrow>
     answered evs \<or> st_code (ca_state ctx) < 7 \<or> ca_state ctx = ST_REGISTER_FAIL"

text \<open>What holds when the loop has returned with a result.\<close>

fun start_post :: "'n ca_result \<Rightarrow> bool" where
  "start_post None = True"
| "start_post (Some (rs, evs, ctx, w)) \<longleftrightarrow>
     start_ok evs ctx \<and> (rs = DUER_OK \<longrightarrow> ca_state ctx = ST_STARTED)"

lemma start_loop_post:
  fixes d :: "'n sdk"
  assumes "ca_start_loop d rs evs ctx w = Some r" "start_ok evs ctx"
  shows "start_post r"
proof -
  have "start_ok evs ctx \<longrightarrow> start_post r"
  proof (rule ca_start_loop.raw_induct [where P = "\<lambda>d rs evs ctx w r. start_ok evs ctx \<longrightarrow> start_post r",
        OF _ assms(1)])
    fix f :: "'n sdk \<Rightarrow> status \<Rightarrow> coap_event list \<Rightarrow> 'n ca \<Rightarrow> world \<Rightarrow> 'n ca_result option"
    fix d rs evs ctx w and r :: "'n ca_result"
    assume IH: "\<And>d rs evs ctx w r. f d rs evs ctx w = Some r \<Longrightarrow> start_ok evs ctx \<longrightarrow> start_post r"
      and b: "(if ca_state ctx \<noteq> ST_STARTED \<and> rs = DUER_OK
      then case baidu_ca_run d ctx w of None \<Rightarrow> None | Some None \<Rightarrow> Some None
           | Some (Some (rs1, evs1, ctx1, w1)) \<Rightarrow> f d rs1 (evs @ evs1) ctx1 w1
      else Some (Some (rs, evs, ctx, w))) = Some r"
    show "start_ok evs ctx \<longrightarrow> start_post r"
    proof (cases "ca_state ctx \<noteq> ST_STARTED \<and> rs = DUER_OK")
      case True
      show ?thesis
      proof (cases "baidu_ca_run d ctx w = None \<or> baidu_ca_run d ctx w = Some None")
        case None: True
        with b True have "r = None" by auto
        then show ?thesis by simp
      next
        case Some: False
        then obtain x where Some: "baidu_ca_run d ctx w = Some (Some x)" by auto
        obtain rs1 evs1 ctx1 w1 where x: "x = (rs1, evs1, ctx1, w1)" by (rule prod_cases4)
        with b True Some have "f d rs1 (evs @ evs1) ctx1 w1 = Some r" by simp
        then have post: "start_ok (evs @ evs1) ctx1 \<longrightarrow> start_post r" by (rule IH)
        from ca_run_facts [of d ctx w rs1 evs1 ctx1 w1] Some x True
        have "answered evs1 \<or> st_code (ca_state ctx1) < 7 \<or> ca_state ctx1 = ST_REGISTER_FAIL \<or>
            7 \<le> st_code (ca_state ctx)" by simp
        moreover have "ca_state ctx = ST_REGISTER_FAIL \<Longrightarrow> ca_state ctx1 = ST_REGISTER_FAIL"
          using Some x by (simp add: baidu_ca_run_def)
        ultimately have "start_ok evs ctx \<longrightarrow> start_ok (evs @ evs1) ctx1"
          by (auto simp: start_ok_def answered_append)
        with post show ?thesis by blast
      qed
    next
      case False
      with b show ?thesis by auto
    qed
  qed
  with assms(2) show ?thesis by blast
qed

text \<open>
  The agent waits for the answer on a connection that the peer has closed: a plain one, or an
  encrypted one on which no whole frame header has been received.
\<close>

definition spinning :: "'n ca \<Rightarrow> world \<Rightarrow> bool" where
  "spinning ctx w \<longleftrightarrow>
     ca_state ctx = ST_SR_DATA_RECEIVING \<and>
     (\<exists>co t. ca_sr ctx = Some co \<and> na_type (co_remote co) = PROTO_TCP \<and> co_trans co = Some t \<and>
        (duer_trans_is_encrypted (Some t) \<longrightarrow> tr_hdr_n t < SIZEOF_TCPHEADER)) \<and>
     (\<exists>r. w_recv w = RecvClosed # r) \<and> (f_recv (w_soc w) \<or> f_recv_timeout (w_soc w))"

lemma spinning_step:
  fixes d :: "'n sdk"
  assumes "spinning ctx w"
  shows "\<exists>evs1 (ctx1 :: 'n ca) w1. baidu_ca_run d ctx w = Some (Some (DUER_OK, evs1, ctx1, w1)) \<and> spinning ctx1 w1"
proof -
  from assms obtain co t r where c: "ca_state ctx = ST_SR_DATA_RECEIVING" "ca_sr ctx = Some co"
    "na_type (co_remote co) = PROTO_TCP" "co_trans co = Some t" "duer_trans_is_encrypted (Some t) \<longrightarrow> tr_hdr_n t < SIZEOF_TCPHEADER"
    "w_recv w = RecvClosed # r" "f_recv (w_soc w) \<or> f_recv_timeout (w_soc w)"
    by (auto simp: spinning_def)
  let ?w = "w_log (NetRecv (if duer_trans_is_encrypted (Some t) then 8 - tr_hdr_n t else 8)) w"
  have "duer_trans_recv (e_le e) (e_crypt e) (Some t) (replicate 8 0) w = Some (0, replicate 8 0, Some t, ?w)"
    for e :: "'n env"
    using c(5-7) by (auto simp: duer_trans_recv_def duer_trans_get_callbacks_def
        duer_trans_aes_cbc_encrypted_recv_def aes_recv_header_def SIZEOF_TCPHEADER_def
        duer_trans_wrapper_recv_def soc_recv_def Let_def)
  then have "duer_coap_data_available (sd_env d) (Some co) w =
      Some (0, [], Some (co\<lparr>co_trans := Some t\<rparr>), ?w)"
    using c(3,4) by (simp add: duer_coap_data_available_def duer_coap_recv_def Let_def)
  then have "baidu_ca_run d ctx w = Some (Some (DUER_OK, [], ctx\<lparr>ca_sr := Some (co\<lparr>co_trans := Some t\<rparr>)\<rparr>, ?w))"
    using c(1,2)
    by (simp add: baidu_ca_run_def baidu_ca_create_service_router_def ca_sr_acquire_def ca_sr_receive_def
        ca_sr_finish_def)
  moreover have "spinning (ctx\<lparr>ca_sr := Some (co\<lparr>co_trans := Some t\<rparr>)\<rparr>) ?w"
    using c by (auto simp: spinning_def)
  ultimately show ?thesis by blast
qed

lemma start_loop_spins:
  fixes d :: "'n sdk"
  assumes "spinning ctx w"
  shows "ca_start_loop d DUER_OK evs ctx w = None"
proof (rule ccontr)
  assume "ca_start_loop d DUER_OK evs ctx w \<noteq> None"
  then obtain r where r: "ca_start_loop d DUER_OK evs ctx w = Some r" by blast
  have "spinning ctx w \<longrightarrow> DUER_OK = (0 :: int) \<longrightarrow> False"
  proof (rule ca_start_loop.raw_induct [where P = "\<lambda>d rs evs ctx w r. spinning ctx w \<longrightarrow> rs = 0 \<longrightarrow> False", OF _ r])
    fix f :: "'n sdk \<Rightarrow> status \<Rightarrow> coap_event list \<Rightarrow> 'n ca \<Rightarrow> world \<Rightarrow> 'n ca_result option"
    fix d rs evs ctx w and r :: "'n ca_result"
    assume IH: "\<And>d rs evs ctx w r. f d rs evs ctx w = Some r \<Longrightarrow> spinning ctx w \<longrightarrow> rs = 0 \<longrightarrow> False"
      and b: "(if ca_state ctx \<noteq> ST_STARTED \<and> rs = DUER_OK
      then case baidu_ca_run d ctx w of None \<Rightarrow> None | Some None \<Rightarrow> Some None
           | Some (Some (rs1, evs1, ctx1, w1)) \<Rightarrow> f d rs1 (evs @ evs1) ctx1 w1
      else Some (Some (rs, evs, ctx, w))) = Some r"
    show "spinning ctx w \<longrightarrow> rs = 0 \<longrightarrow> False"
    proof (intro impI)
      assume s: "spinning ctx w" and rs: "rs = 0"
      from spinning_step [OF s, of d] obtain evs1 ctx1 w1
        where st: "baidu_ca_run d ctx w = Some (Some (DUER_OK, evs1, ctx1, w1))" "spinning ctx1 w1" by blast
      from s have "ca_state ctx \<noteq> ST_STARTED" by (simp add: spinning_def)
      with b st(1) rs have "f d DUER_OK (evs @ evs1) ctx1 w1 = Some r" by simp
      with IH st(2) show False by blast
    qed
  qed
  with assms show False by simp
qed

section \<open>Properties\<close>

text \<open>C4: As long as the service router does not close the connection, sends no more than a finite
  amount of data, and no more than 255 resources wait to be added, the start of the agent returns a
  status, unless it gets to a step that has no defined result. The library is taken to reject a
  datagram that is a frame header.\<close>

theorem ca_start_terminates:
  assumes "rejects_frame_header (sd_env d)" "peer_open w" "ca_res_size ctx \<le> 255"
  shows "(\<exists>r. baidu_ca_start d ctx w = Some (Some r)) \<or>
     ca_faults d (if ca_state ctx = ST_STOPED then ctx\<lparr>ca_state := ST_UNREGISTERED\<rparr> else ctx) w"
  using start_loop_returns [OF assms(1,2), of ctx] start_loop_returns [OF assms(1,2), of "ctx\<lparr>ca_state := ST_UNREGISTERED\<rparr>"]
    assms(3) by (simp add: baidu_ca_start_def baidu_ca_do_start_def Let_def)

definition strict_nsdl :: "unit nsdl_ops" where
  "strict_nsdl = null_nsdl\<lparr>ns_process := \<lambda>n bs a.
     if take 4 bs = be32 COAP_TCP_HDR then ([], - 1, n)
     else ([ActRx (duer_nsdl_header_set (msg_zero\<lparr>m_code := MSG_RSP_CONTENT\<rparr>))], 0, n)\<rparr>"

definition strict_sdk :: "unit sdk" where
  "strict_sdk = \<lparr>sd_env = null_env\<lparr>e_nsdl := strict_nsdl\<rparr>, sd_print = \<lambda>j. Some ''p'',
     sd_parse = \<lambda>s. None, sd_coap_addr = 4096\<rparr>"

lemma strict_rejects: "rejects_frame_header (sd_env strict_sdk)"
  by (simp add: rejects_frame_header_def strict_sdk_def strict_nsdl_def null_env_def)

definition fresh_ca :: "unit ca" where
  "fresh_ca = the (fst (baidu_ca_acquire quiet_world))"

text \<open>The agent waits for its answer and nothing arrives.\<close>

theorem ca_start_terminates_witness:
  "\<exists>r. baidu_ca_start strict_sdk (fresh_ca\<lparr>ca_state := ST_SR_DATA_RECEIVING, ca_sr := Some sample_coap\<rparr>)
     quiet_world = Some (Some r)"
proof -
  let ?ctx = "fresh_ca\<lparr>ca_state := ST_SR_DATA_RECEIVING, ca_sr := Some sample_coap\<rparr>"
  have "duer_coap_data_available (sd_env strict_sdk) (Some sample_coap) quiet_world =
      Some (DUER_ERR_TRANS_WOULD_BLOCK, [], Some sample_coap, w_log (NetRecv 8) quiet_world)"
    by (simp add: duer_coap_data_available_def duer_coap_recv_def duer_trans_recv_def
        duer_trans_is_encrypted_def duer_trans_get_callbacks_def duer_trans_wrapper_recv_def soc_recv_def
        sample_coap_def remote_zero_def trans_zero_def Let_def quiet_world_def all_soc_ops_def)
  then have r: "baidu_ca_run strict_sdk ?ctx quiet_world =
      Some (Some (DUER_ERR_TRANS_WOULD_BLOCK, [], ?ctx, w_log (NetRecv 8) quiet_world))"
    by (simp add: baidu_ca_run_def baidu_ca_create_service_router_def ca_sr_acquire_def ca_sr_receive_def)
  have "ctx' = ?ctx \<and> w' = quiet_world" if "ca_reaches strict_sdk ?ctx quiet_world ctx' w'" for ctx' w'
    using that by cases (use r in simp_all)
  then have "\<not> ca_faults strict_sdk ?ctx quiet_world" unfolding ca_faults_def using r by fastforce
  moreover have "ca_res_size ?ctx \<le> 255" by (simp add: fresh_ca_def baidu_ca_acquire_def quiet_world_def)
  ultimately show ?thesis
    using ca_start_terminates [OF strict_rejects, of quiet_world ?ctx] by (simp add: peer_open_def)
qed

text \<open>C38: When the service router closes the connection while the agent waits for the answer to its
  registration, on a plain connection or on an encrypted one before a whole frame header has come, the
  receive returns 0, which the agent takes for success, and the start loop never returns.\<close>

theorem ca_start_hangs_on_close:
  assumes "ca_state ctx = ST_SR_DATA_RECEIVING" "ca_sr ctx = Some co" "na_type (co_remote co) = PROTO_TCP"
    and "co_trans co = Some t" "duer_trans_is_encrypted (Some t) \<longrightarrow> tr_hdr_n t < SIZEOF_TCPHEADER"
    and "w_recv w = RecvClosed # r" "f_recv (w_soc w) \<or> f_recv_timeout (w_soc w)"
  shows "baidu_ca_start d ctx w = None"
proof -
  have "spinning ctx w" using assms unfolding spinning_def by blast
  then show ?thesis
    using start_loop_spins [of ctx w d] assms(1) by (simp add: baidu_ca_start_def baidu_ca_do_start_def Let_def)
qed

theorem ca_start_hangs_on_close_witness:
  "baidu_ca_start strict_sdk
     (fresh_ca\<lparr>ca_state := ST_SR_DATA_RECEIVING, ca_sr := Some (sample_coap\<lparr>co_trans := Some sample_trans\<rparr>)\<rparr>)
     (quiet_world\<lparr>w_recv := [RecvClosed]\<rparr>) = None"
  by (rule ca_start_hangs_on_close [where co = "sample_coap\<lparr>co_trans := Some sample_trans\<rparr>" and t = sample_trans
        and r = "[]"])
     (simp_all add: sample_coap_def remote_zero_def SIZEOF_TCPHEADER_def)

text \<open>C3: A start that succeeds has reached the started state, and the started state is entered only
  after the service router has answered with the code 2.05.\<close>

theorem ca_started_means_answered:
  assumes "baidu_ca_start d ctx w = Some (Some (rs, evs, ctx', w'))"
    and "st_code (ca_state ctx) \<le> st_code ST_SR_DATA_RECEIVING"
  shows "(rs = DUER_OK \<longrightarrow> ca_state ctx' = ST_STARTED) \<and> (ca_state ctx' = ST_STARTED \<longrightarrow> answered evs)"
proof -
  let ?ctx = "if ca_state ctx = ST_STOPED then ctx\<lparr>ca_state := ST_UNREGISTERED\<rparr> else ctx"
  have ok: "start_ok [] ?ctx" using assms(2) by (simp add: start_ok_def)
  from assms have "ca_start_loop d DUER_OK [] ?ctx w = Some (Some (rs, evs, ctx', w'))"
    by (auto simp: baidu_ca_start_def baidu_ca_do_start_def Let_def split: if_splits)
  from start_loop_post [OF this ok] show ?thesis by (auto simp: start_ok_def)
qed


lemma run_answered:
  "\<exists>evs ctx1 w1. baidu_ca_run strict_sdk
       (fresh_ca\<lparr>ca_state := ST_SR_DATA_RECEIVING, ca_sr := Some sample_coap\<rparr>)
       (quiet_world\<lparr>w_nsdl_map := [(4096, 1)], w_recv := [RecvData (coap_frame [1])]\<rparr>) =
     Some (Some (DUER_OK, evs, ctx1, w1)) \<and> ca_state ctx1 = ST_SR_INITIALIZED"
proof -
  let ?ctx = "fresh_ca\<lparr>ca_state := ST_SR_DATA_RECEIVING, ca_sr := Some sample_coap\<rparr>"
  let ?w = "quiet_world\<lparr>w_nsdl_map := [(4096, 1)], w_recv := [RecvData (coap_frame [1])]\<rparr>"
  have f: "ca_res_list fresh_ca = None" "ca_res_size fresh_ca = 0" "\<not> ca_response fresh_ca"
    by (simp_all add: fresh_ca_def baidu_ca_acquire_def)
  from plain_delivery [of "[1]" sample_coap "trans_zero\<lparr>tr_ctx := True\<rparr>" ?w "sd_env strict_sdk"]
  obtain v' where v': "duer_coap_data_available (sd_env strict_sdk) (Some sample_coap) ?w =
      coap_deliver (sd_env strict_sdk) sample_coap [1] v'" "w_nsdl_map v' = [(4096, 1)]"
    by (auto simp: sample_coap_def remote_zero_def duer_trans_is_encrypted_def trans_zero_def DUER_BUFFER_SIZE_def)
  let ?m = "duer_coap_header_set (duer_nsdl_header_set (msg_zero\<lparr>m_code := MSG_RSP_CONTENT\<rparr>))"
  have "coap_deliver (sd_env strict_sdk) sample_coap [1] v' = Some (0,
      [EvResult ?m (duer_coap_address_set (duer_nsdl_address_set remote_zero))], Some sample_coap, v')"
    using v'(2) by (simp add: coap_deliver_def sample_coap_def strict_sdk_def strict_nsdl_def null_env_def
        be32_def duer_coap_nsdl_rx_def duer_coap_nsdl_get_def Let_def)
  with v' have r: "ca_sr_receive strict_sdk ?ctx ?w =
      Some (0, [EvResult ?m (duer_coap_address_set (duer_nsdl_address_set remote_zero))],
        ?ctx\<lparr>ca_state := ST_SR_INITIALIZED\<rparr>, v')"
    by (simp add: ca_sr_receive_def duer_engine_coap_handler_def duer_coap_header_set_def
        duer_nsdl_header_set_def msg_zero_def f)
  then show ?thesis
    by (simp add: baidu_ca_run_def baidu_ca_create_service_router_def ca_sr_acquire_def ca_sr_finish_def
        baidu_ca_add_resources_def ca_add_loop.simps f)
qed

theorem ca_started_means_answered_witness:
  "\<exists>evs ctx' w'. baidu_ca_start strict_sdk
       (fresh_ca\<lparr>ca_state := ST_SR_DATA_RECEIVING, ca_sr := Some sample_coap\<rparr>)
       (quiet_world\<lparr>w_nsdl_map := [(4096, 1)], w_recv := [RecvData (coap_frame [1])]\<rparr>) =
         Some (Some (DUER_OK, evs, ctx', w')) \<and> ca_state ctx' = ST_STARTED \<and> answered evs"
proof -
  let ?ctx = "fresh_ca\<lparr>ca_state := ST_SR_DATA_RECEIVING, ca_sr := Some sample_coap\<rparr>"
  let ?w = "quiet_world\<lparr>w_nsdl_map := [(4096, 1)], w_recv := [RecvData (coap_frame [1])]\<rparr>"
  from run_answered obtain evs ctx1 w1 where r: "baidu_ca_run strict_sdk ?ctx ?w = Some (Some (DUER_OK, evs, ctx1, w1))"
    and s: "ca_state ctx1 = ST_SR_INITIALIZED" by blast
  have l1: "ca_start_loop strict_sdk DUER_OK [] ?ctx ?w = ca_start_loop strict_sdk DUER_OK evs ctx1 w1"
    by (subst ca_start_loop.simps) (use r in simp)
  have l2: "ca_start_loop strict_sdk DUER_OK evs ctx1 w1 =
      ca_start_loop strict_sdk DUER_OK evs (ctx1\<lparr>ca_state := ST_STARTED\<rparr>) w1"
    by (subst ca_start_loop.simps) (simp add: baidu_ca_run_def s)
  have l3: "ca_start_loop strict_sdk DUER_OK [] ?ctx ?w =
      Some (Some (DUER_OK, evs, ctx1\<lparr>ca_state := ST_STARTED\<rparr>, w1))"
    unfolding l1 l2 by (subst ca_start_loop.simps) simp
  have "baidu_ca_start strict_sdk ?ctx ?w = Some (Some (DUER_OK, evs, ctx1\<lparr>ca_state := ST_STARTED\<rparr>, w1))"
    using l3 by (simp add: baidu_ca_start_def baidu_ca_do_start_def)
  with ca_started_means_answered [OF this] show ?thesis by simp
qed

definition profile_strings :: "json option \<Rightarrow> bool" where
  "profile_strings j \<longleftrightarrow>
     j \<noteq> None \<and> list_all (\<lambda>k. duer_conf_get_string j k \<noteq> None)
       [''uuid'', ''token'', ''bindToken'', ''rsaCaCrt'', ''serverAddr'']"

text \<open>C35: Loading a profile always returns, and succeeds exactly when the profile parses, has the
  five strings and the query can be allocated; then the identity, the certificate and the host are the
  strings of the new profile, the port is its number reduced to 16 bits (0 when it has none) on TCP,
  and reports go under a query with its uuid and token. The state and the connection are not touched.\<close>

theorem ca_load_configuration:
  "\<exists>rs ctx' w'. baidu_ca_load_configuration d (Some ctx) data w = Some (rs, Some ctx', w') \<and>
     (rs = DUER_OK \<longleftrightarrow> profile_strings (sd_parse d data) \<and> fst (malloc_ok (w_mem w))) \<and>
     (rs = DUER_OK \<longrightarrow>
        conf_deref ctx' (ca_uuid ctx') = duer_conf_get_string (sd_parse d data) ''uuid'' \<and>
        conf_deref ctx' (ca_token ctx') = duer_conf_get_string (sd_parse d data) ''token'' \<and>
        conf_deref ctx' (ca_bindToken ctx') = duer_conf_get_string (sd_parse d data) ''bindToken'' \<and>
        conf_deref ctx' (ca_cert ctx') = duer_conf_get_string (sd_parse d data) ''rsaCaCrt'' \<and>
        ca_cert_length ctx' = length (the (duer_conf_get_string (sd_parse d data) ''rsaCaCrt'')) + 1 \<and>
        na_host (ca_addr_sr ctx') = map_option bytes_of (duer_conf_get_string (sd_parse d data) ''serverAddr'') \<and>
        na_host_size (ca_addr_sr ctx') = length (the (na_host (ca_addr_sr ctx'))) \<and>
        na_port (ca_addr_sr ctx') = (case json_GetObjectItem (sd_parse d data) ''coapPort'' of
           None \<Rightarrow> 0 | Some j \<Rightarrow> word_of_int (valueint j mod 65536)) \<and>
        na_type (ca_addr_sr ctx') = PROTO_TCP \<and>
        ca_report_query ctx' = Some (report_query_of (the (conf_deref ctx' (ca_uuid ctx')))
          (the (conf_deref ctx' (ca_token ctx')))) \<and>
        ca_report_query_len ctx' = length (the (ca_report_query ctx'))) \<and>
     ca_state ctx' = ca_state ctx \<and> ca_sr ctx' = ca_sr ctx"
  by (cases "sd_parse d data"; cases "duer_conf_get_string (sd_parse d data) ''uuid''";
      cases "duer_conf_get_string (sd_parse d data) ''token''";
      cases "duer_conf_get_string (sd_parse d data) ''bindToken''";
      cases "duer_conf_get_string (sd_parse d data) ''rsaCaCrt''";
      cases "duer_conf_get_string (sd_parse d data) ''serverAddr''";
      cases "fst (malloc_ok (w_mem w))")
     (simp_all add: baidu_ca_load_configuration_def duer_conf_create_def ca_conf_get_def Let_def
        profile_strings_def ca_load_query_def ca_load_addr_def conf_deref_def duer_conf_get_ushort_def
        bytes_of_def)

text \<open>A profile with the five strings and the port 65537, whose low 16 bits are 1.\<close>

definition sample_profile :: json where
  "sample_profile = Json JObject None 0
     [(Some ''uuid'', Json JString (Some ''u1'') 0 []), (Some ''token'', Json JString (Some ''t1'') 0 []),
      (Some ''bindToken'', Json JString (Some ''b1'') 0 []), (Some ''rsaCaCrt'', Json JString (Some ''c1'') 0 []),
      (Some ''serverAddr'', Json JString (Some ''h1'') 0 []), (Some ''coapPort'', Json JNumber None 65537 [])]"

theorem ca_load_configuration_witness:
  "\<exists>ctx' w'. baidu_ca_load_configuration (strict_sdk\<lparr>sd_parse := \<lambda>s. Some sample_profile\<rparr>) (Some fresh_ca) ''x''
       quiet_world = Some (DUER_OK, Some ctx', w') \<and>
     conf_deref ctx' (ca_cert ctx') = Some ''c1'' \<and> na_port (ca_addr_sr ctx') = 1 \<and>
     ca_report_query ctx' = Some ''deviceUuid=u1&token=t1''"
proof -
  let ?d = "strict_sdk\<lparr>sd_parse := \<lambda>s. Some sample_profile\<rparr>"
  have k: "duer_conf_get_string (sd_parse ?d ''x'') ''uuid'' = Some ''u1''"
    "duer_conf_get_string (sd_parse ?d ''x'') ''token'' = Some ''t1''"
    "duer_conf_get_string (sd_parse ?d ''x'') ''bindToken'' = Some ''b1''"
    "duer_conf_get_string (sd_parse ?d ''x'') ''rsaCaCrt'' = Some ''c1''"
    "duer_conf_get_string (sd_parse ?d ''x'') ''serverAddr'' = Some ''h1''"
    "json_GetObjectItem (sd_parse ?d ''x'') ''coapPort'' = Some (Json JNumber None 65537 [])"
    by (simp; code_simp)+
  then have "profile_strings (sd_parse ?d ''x'')" by (simp add: profile_strings_def)
  with ca_load_configuration [of ?d fresh_ca "''x''" quiet_world] k show ?thesis
    by (fastforce simp: report_query_of_def)
qed

text \<open>A profile that does not parse leaves the agent with pointers into the deleted one: a
  connection attempt after the failed load reads freed memory.\<close>

theorem ca_failed_reload_dangles:
  assumes "sd_parse d data = None" "ca_state ctx = ST_SR_CONNECTING" "ca_sr ctx \<noteq> None"
  shows "\<exists>ctx'. baidu_ca_load_configuration d (Some ctx) data w = Some (DUER_ERR_FAILED, Some ctx', w) \<and>
     ca_bindToken ctx' = ca_bindToken ctx \<and> baidu_ca_start d ctx' w = Some None"
proof -
  let ?ctx = "ctx\<lparr>ca_conf := None, ca_conf_no := ca_conf_no ctx + 1\<rparr>"
  have "baidu_ca_load_configuration d (Some ctx) data w = Some (DUER_ERR_FAILED, Some ?ctx, w)"
    using assms(1) by (simp add: baidu_ca_load_configuration_def duer_conf_create_def Let_def)
  moreover have "baidu_ca_run d ?ctx w = Some None"
    using assms(2,3)
    by (simp add: baidu_ca_run_def baidu_ca_create_service_router_def ca_sr_acquire_def ca_sr_connect_def
        conf_deref_def Let_def split: prod.split option.split)
  then have "baidu_ca_start d ?ctx w = Some None"
    using assms(2) by (simp add: baidu_ca_start_def baidu_ca_do_start_def ca_start_loop.simps)
  ultimately show ?thesis by auto
qed

theorem ca_failed_reload_dangles_witness:
  "\<exists>ctx'. baidu_ca_start strict_sdk ctx' quiet_world = Some None \<and> ca_bindToken ctx' = Some (0, ''key'')"
  using ca_failed_reload_dangles [of strict_sdk "''x''"
      "fresh_ca\<lparr>ca_state := ST_SR_CONNECTING, ca_sr := Some sample_coap, ca_bindToken := Some (0, ''key''),
         ca_conf := Some (Json JObject None 0 [])\<rparr>" quiet_world]
  by (auto simp: strict_sdk_def)

primrec report_messages :: "bool \<Rightarrow> bool \<Rightarrow> nat \<Rightarrow> 'n ca option \<Rightarrow> world \<Rightarrow> coap_msg option list" where
  "report_messages le c 0 h w = []"
| "report_messages le c (Suc n) h w =
     (case baidu_ca_build_report_message le h c w of
        (msg, h1, w1) \<Rightarrow> msg # report_messages le c n h1 w1)"

lemma report_messages_tokens:
  "w_mem w = [] \<Longrightarrow>
   map (\<lambda>m. m_token (the m)) (report_messages le c n (Some ctx) w) =
     map (\<lambda>i. Some (store16 le (ca_gen_token ctx + of_nat i))) [0..<n] \<and>
   list_all (\<lambda>m. m \<noteq> None) (report_messages le c n (Some ctx) w)"
proof (induction n arbitrary: ctx w)
  case (Suc n)
  have "[0..<Suc n] = 0 # map Suc [0..<n]" by (simp add: map_Suc_upt upt_conv_Cons del: upt_Suc)
  then show ?case
    using Suc.IH [of "w\<lparr>w_mem := []\<rparr>" "ctx\<lparr>ca_gen_token := ca_gen_token ctx + 1\<rparr>"] Suc.prems
    by (simp add: baidu_ca_build_report_message_def Let_def comp_def add.assoc del: upt_Suc)
qed simp

lemma store16_inj: "store16 le v = store16 le w \<longleftrightarrow> v = w"
proof
  assume "store16 le v = store16 le w"
  then have h: "(ucast (drop_bit 8 v) :: byte) = ucast (drop_bit 8 w)" "(ucast v :: byte) = ucast w"
    by (auto simp: store16_def be16_def split: if_splits)
  show "v = w"
  proof (rule bit_word_eqI)
    fix n assume n: "n < LENGTH(16)"
    show "bit v n = bit w n"
    proof (cases "n < 8")
      case True
      then show ?thesis using arg_cong [OF h(2), of "\<lambda>x. bit x n"] by (simp add: bit_simps)
    next
      case False
      from n have "n < 16" by simp
      with False have "n - 8 < 8" by linarith
      then show ?thesis using False n arg_cong [OF h(1), of "\<lambda>x. bit x (n - 8)"] by (simp add: bit_simps)
    qed
  qed
qed simp

text \<open>Report messages carry a fresh token: any 65536 consecutive ones have different tokens.\<close>

theorem report_tokens_distinct:
  assumes "w_mem w = []" "n \<le> 65536"
  shows "list_all (\<lambda>m. m \<noteq> None) (report_messages le c n (Some ctx) w) \<and>
     distinct (map (\<lambda>m. m_token (the m)) (report_messages le c n (Some ctx) w))"
proof -
  have "inj_on (\<lambda>i. Some (store16 le (ca_gen_token ctx + of_nat i))) (set [0..<n])"
  proof (rule inj_onI)
    fix i j assume "i \<in> set [0..<n]" "j \<in> set [0..<n]"
      and eq: "Some (store16 le (ca_gen_token ctx + of_nat i)) = Some (store16 le (ca_gen_token ctx + of_nat j))"
    then have "i < 65536" "j < 65536" using assms(2) by auto
    moreover from eq have "(of_nat i :: u16) = of_nat j" by (simp add: store16_inj)
    moreover from this have "take_bit 16 i = take_bit 16 j" by (simp add: word_of_nat_eq_iff)
    ultimately show "i = j" by (simp add: take_bit_eq_mod)
  qed
  with report_messages_tokens [OF assms(1), of le c n ctx] show ?thesis by (simp add: distinct_map)
qed

theorem report_tokens_distinct_witness:
  "distinct (map (\<lambda>m. m_token (the m)) (report_messages True False 3 (Some fresh_ca) quiet_world))"
  using report_tokens_distinct [of quiet_world 3 True False fresh_ca] by simp

text \<open>A response answers its request: it carries the request's token, and to a confirmable
  request it is an acknowledgement with the request's message id.\<close>

theorem response_echoes_request:
  assumes "baidu_ca_build_response_message (Some ctx) (Some req) code w = Some (Some rsp, w')"
    and "m_token req \<noteq> None \<longrightarrow> unat (m_token_len req) = length (the (m_token req))"
  shows "m_code rsp = code \<and>
     (0 < m_token_len req \<longrightarrow> m_token rsp = m_token req) \<and>
     (m_type req = MSG_TYPE_CONFIRMABLE \<longrightarrow> m_type rsp = MSG_TYPE_ACKNOWLEDGEMENT \<and> m_id rsp = m_id req) \<and>
     (m_type req \<noteq> MSG_TYPE_CONFIRMABLE \<longrightarrow> m_type rsp = m_type req)"
  using assms
  by (auto simp: baidu_ca_build_response_message_def Let_def msg_zero_def split: if_splits option.splits)

theorem response_echoes_request_witness:
  "\<exists>rsp w'. baidu_ca_build_response_message (Some fresh_ca)
       (Some (msg_zero\<lparr>m_id := 7, m_token := Some [1, 2], m_token_len := 2\<rparr>)) 69 quiet_world = Some (Some rsp, w') \<and>
     m_token rsp = Some [1, 2] \<and> m_id rsp = 7"
proof -
  let ?req = "msg_zero\<lparr>m_id := 7, m_token := Some [1, 2], m_token_len := 2\<rparr>"
  obtain rsp w' where "baidu_ca_build_response_message (Some fresh_ca) (Some ?req) 69 quiet_world = Some (Some rsp, w')"
    by (simp add: baidu_ca_build_response_message_def msg_zero_def memget_def Let_def)
  with response_echoes_request [OF this] show ?thesis by (simp add: msg_zero_def)
qed

text \<open>The two facts of the loop that adds resources: it runs over a list of up to 255, and beyond that
  its 8-bit index never reaches the count.\<close>

lemma coap_resource_add_usable:
  assumes "co_nsdl co \<noteq> None"
  obtains st co' w' where "duer_coap_resource_add e (Some co) r w = Some (st, Some co', w')" "co_nsdl co' \<noteq> None"
proof -
  obtain h n where n: "co_nsdl co = Some (h, n)" using assms by auto
  obtain co1 w1 where d: "(if rs_mode r = ResStatic then (co, w)
      else (case duer_coap_dynamic_resource_add (e_sg e) co r w of (rs, co1, w1) \<Rightarrow> (co1, w1))) = (co1, w1)"
    by (rule prod.exhaust)
  then have "co_nsdl co1 = Some (h, n)"
    using n by (auto simp: duer_coap_dynamic_resource_add_def Let_def split: if_splits prod.splits)
  moreover obtain ok n1 where "ns_create_resource (e_nsdl e) n
      \<lparr>ri_mode = rs_mode r, ri_access = rs_allowed r, ri_path = rs_path r,
        ri_resource = (if rs_mode r = ResStatic then Some (rs_data r) else None),
        ri_dyn_callback = (rs_mode r \<noteq> ResStatic)\<rparr> = (ok, n1)"
    by (rule prod.exhaust)
  ultimately show thesis
    using d by (intro that [of "if ok then DUER_OK else DUER_ERR_FAILED" "co1\<lparr>co_nsdl := Some (h, n1)\<rparr>" w1])
      (simp_all add: duer_coap_resource_add_def Let_def del: if_split)
qed

lemma ca_add_loop_short:
  "\<lbrakk>n \<le> 255; n \<le> length rs; unat i \<le> n; co_nsdl co \<noteq> None\<rbrakk> \<Longrightarrow>
   \<exists>co' w'. ca_add_loop e (Some rs) n i (Some co) w = Some (Some (Some co', w'))"
proof (induction "n - unat i" arbitrary: i co w)
  case 0
  then show ?case by (simp add: ca_add_loop.simps)
next
  case (Suc k)
  then have lt: "unat i < n" by simp
  obtain st co1 w1 where add: "duer_coap_resource_add e (Some co) (rs ! unat i) w = Some (st, Some co1, w1)"
    "co_nsdl co1 \<noteq> None"
    using coap_resource_add_usable [OF Suc.prems(4)] .
  from lt Suc.prems(1) have i1: "unat (i + 1) = unat i + 1"
    by (simp add: unat_word_ariths)
  have "k = n - unat (i + 1)" "unat (i + 1) \<le> n" using Suc.hyps(2) i1 lt by simp_all
  then have "\<exists>co' w'. ca_add_loop e (Some rs) n (i + 1) (Some co1) w1 = Some (Some (Some co', w'))"
    using Suc.hyps(1) Suc.prems(1,2) add(2) by blast
  then show ?case
    using lt Suc.prems(2) add(1) by (subst ca_add_loop.simps) (simp add: ca_add_one_def)
qed

lemma ca_add_loop_long:
  assumes "255 < n" "n \<le> length rs" "co_nsdl co \<noteq> None"
  shows "ca_add_loop e (Some rs) n i (Some co) w = None"
proof (rule ccontr)
  assume "ca_add_loop e (Some rs) n i (Some co) w \<noteq> None"
  then obtain y where y: "ca_add_loop e (Some rs) n i (Some co) w = Some y" by blast
  have "Some rs = Some rs \<longrightarrow> 255 < n \<longrightarrow> n \<le> length rs \<longrightarrow>
      (\<exists>co'. Some co = Some co' \<and> co_nsdl co' \<noteq> None) \<longrightarrow> False"
  proof (rule ca_add_loop.raw_induct [where P = "\<lambda>e l n i sr w y. l = Some rs \<longrightarrow> 255 < n \<longrightarrow> n \<le> length rs \<longrightarrow>
        (\<exists>co. sr = Some co \<and> co_nsdl co \<noteq> None) \<longrightarrow> False", OF _ y])
    fix f :: "'a env \<Rightarrow> res list option \<Rightarrow> nat \<Rightarrow> byte \<Rightarrow> 'a coap option \<Rightarrow> world
        \<Rightarrow> ('a coap option \<times> world) option option"
    fix e l n and i :: byte and sr w r
    assume IH: "\<And>e l n i sr w r. f e l n i sr w = Some r \<Longrightarrow> l = Some rs \<longrightarrow> 255 < n \<longrightarrow> n \<le> length rs \<longrightarrow>
        (\<exists>co. sr = Some co \<and> co_nsdl co \<noteq> None) \<longrightarrow> False"
      and b: "(if unat i < n then (case ca_add_one e l i sr w of None \<Rightarrow> Some None
               | Some (sr1, w1) \<Rightarrow> f e l n (i + 1) sr1 w1) else Some (Some (sr, w))) = Some r"
    show "l = Some rs \<longrightarrow> 255 < n \<longrightarrow> n \<le> length rs \<longrightarrow> (\<exists>co. sr = Some co \<and> co_nsdl co \<noteq> None) \<longrightarrow> False"
    proof (intro impI)
    assume l: "l = Some rs" "255 < n" "n \<le> length rs" and sr: "\<exists>co. sr = Some co \<and> co_nsdl co \<noteq> None"
    from sr obtain co where co: "sr = Some co" "co_nsdl co \<noteq> None" by blast
    obtain st co1 w1 where add: "duer_coap_resource_add e (Some co) (rs ! unat i) w = Some (st, Some co1, w1)"
      "co_nsdl co1 \<noteq> None"
      using coap_resource_add_usable [OF co(2)] .
    have "unat i < 2 ^ LENGTH(8)" by (rule unsigned_less)
    with l have "unat i < n" "unat i < length rs" by simp_all
    with add l co have "ca_add_one e l i sr w = Some (Some co1, w1)" by (simp add: ca_add_one_def)
    with b \<open>unat i < n\<close> have "f e l n (i + 1) (Some co1) w1 = Some r" by simp
    from IH [OF this] l add(2) show False by blast
    qed
  qed
  with assms show False by blast
qed

text \<open>The loop that adds resources counts in 8 bits: on an established connection it visits every
  resource of a list of up to 255 and reports success, and it never returns for a longer list.\<close>

theorem ca_add_resources_count:
  assumes "7 \<le> st_code (ca_state ctx)" "ca_sr ctx = Some co" "co_nsdl co \<noteq> None" "n \<le> length rs"
  shows "(n \<le> 255 \<longrightarrow>
       (\<exists>co' w'. baidu_ca_add_resources d ctx (Some rs) n w = Some (Some (DUER_OK, ctx\<lparr>ca_sr := Some co'\<rparr>, w')))) \<and>
     (255 < n \<longrightarrow> baidu_ca_add_resources d ctx (Some rs) n w = None)"
proof (intro conjI impI)
  assume "n \<le> 255"
  then obtain co' w' where "ca_add_loop (sd_env d) (Some rs) n 0 (Some co) w = Some (Some (Some co', w'))"
    using ca_add_loop_short [of n rs 0 co "sd_env d" w] assms(3,4) by auto
  then show "\<exists>co' w'. baidu_ca_add_resources d ctx (Some rs) n w = Some (Some (DUER_OK, ctx\<lparr>ca_sr := Some co'\<rparr>, w'))"
    using assms by (auto simp: baidu_ca_add_resources_def)
next
  assume "255 < n"
  then show "baidu_ca_add_resources d ctx (Some rs) n w = None"
    using assms ca_add_loop_long [of n rs co "sd_env d" 0 w] by (simp add: baidu_ca_add_resources_def)
qed

theorem ca_add_resources_count_witness:
  "baidu_ca_add_resources strict_sdk (fresh_ca\<lparr>ca_state := ST_SR_INITIALIZED, ca_sr := Some sample_coap\<rparr>)
     (Some (replicate 300 \<lparr>rs_mode = ResStatic, rs_allowed = 1, rs_path = [97], rs_handler = 0, rs_data = []\<rparr>))
     300 quiet_world = None"
  using ca_add_resources_count [of "fresh_ca\<lparr>ca_state := ST_SR_INITIALIZED, ca_sr := Some sample_coap\<rparr>"
      sample_coap 300
      "replicate 300 \<lparr>rs_mode = ResStatic, rs_allowed = 1, rs_path = [97], rs_handler = 0, rs_data = []\<rparr>"
      strict_sdk quiet_world]
  by (simp add: sample_coap_def del: replicate.simps)

end
