(* ===== verification/EngineFlow.thy ===== *)
theory EngineFlow
  imports Engine CaStart
begin

text \<open>
  What holds over sequences of the engine's operations: messages leave the queue in the order in
  which they entered it, when a queued message is sure to be sent, when it is not, and what a
  failure does to the connection.

  An action is one operation of the interface, a callback of another thread or the next call of the
  event task. \<open>APush\<close> and \<open>ACheck\<close> are the two halves of \<^verbatim>\<open>duer_data_report\<close>, between which other
  threads can run.
\<close>

section \<open>Actions\<close>

datatype eact =
    AInitialize
  | AReport "json option"
  | APush "json option"
  | ACheck status
  | AResponse "coap_msg option" byte "byte list" nat
  | AStart string
  | AAddResources "res list option" nat
  | AStop
  | AFinalize
  | ATimer
  | ATransport trans_event
  | ATask

fun do_act :: "'n sdk \<Rightarrow> bool \<Rightarrow> eact \<Rightarrow> 'n eng \<Rightarrow> 'n eng_result" where
  "do_act d le AInitialize e = Some (Some (duer_initialize e))"
| "do_act d le (AReport j) e = Some (map_option snd (duer_data_report d le j e))"
| "do_act d le (APush j) e = Some (map_option snd (duer_engine_enqueue_report_data d le j e))"
| "do_act d le (ACheck rs) e = Some (Some (report_check rs e))"
| "do_act d le (AResponse m code bs n) e = Some (map_option snd (duer_response m code bs n e))"
| "do_act d le (AStart s) e = Some (Some (snd (duer_start s e)))"
| "do_act d le (AAddResources rs n) e = Some (map_option snd (duer_add_resources rs n e))"
| "do_act d le AStop e = Some (Some (snd (duer_stop e)))"
| "do_act d le AFinalize e = Some (Some (snd (duer_finalize e)))"
| "do_act d le ATimer e = Some (duer_timer_expired d le e)"
| "do_act d le (ATransport t) e = Some (Some (duer_transport_notify t e))"
| "do_act d le ATask e = task_run d e"

fun run_acts :: "'n sdk \<Rightarrow> bool \<Rightarrow> eact list \<Rightarrow> 'n eng \<Rightarrow> 'n eng_result" where
  "run_acts d le [] e = Some (Some e)"
| "run_acts d le (a # as) e =
     (case do_act d le a e of
        Some (Some e1) \<Rightarrow> run_acts d le as e1
      | r \<Rightarrow> r)"

section \<open>What the operations do to the queue\<close>

fun is_msg_eff :: "eng_eff \<Rightarrow> bool" where
  "is_msg_eff (EffQueued m) = True"
| "is_msg_eff (EffSent m) = True"
| "is_msg_eff (EffDropped m) = True"
| "is_msg_eff x = False"

definition qview :: "'n eng \<Rightarrow> coap_msg lqueue \<times> eng_eff list" where
  "qview e = (g_qcache_handler e, filter is_msg_eff (e_log e))"

lemma qview_update [simp]:
  "qview (e\<lparr>g_handler := h\<rparr>) = qview e" "qview (e\<lparr>e_world := w\<rparr>) = qview e"
  "qview (e\<lparr>g_timer := t\<rparr>) = qview e" "qview (e\<lparr>g_start_timeout := n\<rparr>) = qview e"
  "qview (e\<lparr>g_events_handler := q\<rparr>) = qview e" "qview (e\<lparr>g_notify_func := b\<rparr>) = qview e"
  "qview (e\<lparr>g_qcache_mutex := b\<rparr>) = qview e" "qview (e\<lparr>e_tcreate := tc\<rparr>) = qview e"
  "\<not> is_msg_eff x \<Longrightarrow> qview (eng_log x e) = qview e"
  "qview (snd (eng_malloc e)) = qview e"
  by (simp_all add: qview_def eng_log_def eng_malloc_def Let_def)

lemma eng_malloc_sel [simp]:
  "eng_malloc e = (fst (malloc_ok (w_mem (e_world e))),
     e\<lparr>e_world := (e_world e)\<lparr>w_mem := snd (malloc_ok (w_mem (e_world e)))\<rparr>\<rparr>)"
  by (simp add: eng_malloc_def Let_def)

lemma qview_call [simp]: "qview (snd (duer_events_call_internal c e)) = qview e"
  by (auto simp: duer_events_call_internal_def Let_def split: option.split)

lemma qview_data_send [simp]: "qview (snd (duer_data_send e)) = qview e"
  by (simp add: duer_data_send_def)

lemma qview_switch [simp]: "qview (notify_switch event status e) = qview e"
  by (cases event) (auto simp: notify_switch_def duer_event_notify_def)

lemma qview_stop [simp]: "qview (duer_engine_stop what e) = qview e"
  by (auto simp: duer_engine_stop_def Let_def split: option.split prod.split)

lemma qview_notify [simp]: "qview (duer_engine_notify event status e) = qview e"
  by (simp add: duer_engine_notify_def duer_engine_notify_callback_def Let_def)

lemma qview_timer [simp]: "qview (eng_timer_start n e) = qview e" "qview (eng_timer_stop e) = qview e"
  by (simp_all add: eng_timer_start_def eng_timer_stop_def)

lemma qview_put_ca [simp]: "qview (snd (eng_put_ca r e)) = qview e"
proof -
  obtain rs evs ctx w where "r = (rs, evs, ctx, w)" by (rule prod_cases4)
  moreover have "filter is_msg_eff (map EffCoap evs) = []" by (induction evs) auto
  ultimately show ?thesis by (simp add: eng_put_ca_def qview_def)
qed

lemma qview_start_finish [simp]: "qview (start_finish st e) = qview e"
  by (simp add: start_finish_def start_timer_def)

lemma qview_data_finish [simp]: "qview (data_finish b st e) = qview e"
  by (simp add: data_finish_def)

text \<open>Everything that entered the queue is what left it followed by what is in it.\<close>

fun queued_msgs :: "eng_eff list \<Rightarrow> coap_msg list" where
  "queued_msgs [] = []"
| "queued_msgs (EffQueued m # l) = m # queued_msgs l"
| "queued_msgs (x # l) = queued_msgs l"

fun sent_msgs :: "eng_eff list \<Rightarrow> coap_msg list" where
  "sent_msgs [] = []"
| "sent_msgs (EffSent m # l) = m # sent_msgs l"
| "sent_msgs (x # l) = sent_msgs l"

fun left_msgs :: "eng_eff list \<Rightarrow> coap_msg list" where
  "left_msgs [] = []"
| "left_msgs (EffSent m # l) = m # left_msgs l"
| "left_msgs (EffDropped m # l) = m # left_msgs l"
| "left_msgs (x # l) = left_msgs l"

lemma msgs_append [simp]:
  "queued_msgs (l @ k) = queued_msgs l @ queued_msgs k"
  "sent_msgs (l @ k) = sent_msgs l @ sent_msgs k"
  "left_msgs (l @ k) = left_msgs l @ left_msgs k"
  by (induction l rule: queued_msgs.induct) simp_all

lemma msgs_filter [simp]:
  "queued_msgs (filter is_msg_eff l) = queued_msgs l"
  "left_msgs (filter is_msg_eff l) = left_msgs l"
  by (induction l rule: queued_msgs.induct) simp_all

definition queue_account :: "'n eng \<Rightarrow> bool" where
  "queue_account e \<longleftrightarrow>
     map Some (queued_msgs (e_log e)) =
       map Some (left_msgs (e_log e)) @ (case g_qcache_handler e of None \<Rightarrow> [] | Some xs \<Rightarrow> xs)"

lemma queue_account_qview: "qview e' = qview e \<Longrightarrow> queue_account e' = queue_account e"
  unfolding queue_account_def qview_def by (metis (no_types, lifting) msgs_filter prod.inject)

section \<open>First in, first out\<close>

lemma account_create:
  assumes "queue_account e" "duer_engine_create e = Some e'"
  shows "queue_account e'"
proof -
  let ?e2 = "eng_create_queue (eng_create_handler e)"
  have "qview (eng_create_handler e) = qview e"
    by (simp add: eng_create_handler_def split: prod.split)
  with assms(1) have "queue_account (eng_create_handler e)" using queue_account_qview by blast
  then have acc: "queue_account ?e2" by (simp add: eng_create_queue_def queue_account_def)
  obtain e4 where t: "eng_create_timer (eng_create_mutex ?e2) = Some e4"
    and e': "e' = duer_engine_notify EVT_CREATE DUER_OK e4"
    using assms(2) by (auto simp: duer_engine_create_def)
  have "qview e4 = qview (eng_create_mutex ?e2)"
    using t by (auto simp: eng_create_timer_def split: if_splits prod.splits option.splits)
  moreover have "qview (eng_create_mutex ?e2) = qview ?e2" by (simp add: eng_create_mutex_def)
  ultimately have "qview e' = qview ?e2" using e' by simp
  with acc queue_account_qview show ?thesis by blast
qed

lemma drop_queued_account:
  "drop_queued xs = (r, l) \<Longrightarrow> queued_msgs l = [] \<and> (None \<notin> set xs \<longrightarrow> r = [] \<and> xs = map Some (left_msgs l))"
  by (induction xs arbitrary: r l rule: drop_queued.induct) (auto split: prod.splits)

lemma account_no_null:
  "queue_account e \<Longrightarrow> g_qcache_handler e = Some xs \<Longrightarrow> None \<notin> set xs"
proof -
  assume "queue_account e" "g_qcache_handler e = Some xs"
  then have "set xs \<subseteq> set (map Some (queued_msgs (e_log e)))"
    by (simp add: queue_account_def)
  then show ?thesis by auto
qed

lemma account_clear: "queue_account e \<Longrightarrow> queue_account (duer_engine_clear_data e)"
proof (cases "g_qcache_handler e")
  case (Some xs)
  assume acc: "queue_account e"
  obtain r l where d: "drop_queued xs = (r, l)" by (rule prod.exhaust)
  with drop_queued_account [OF d] account_no_null [OF acc Some]
  have "queued_msgs l = []" "r = []" "xs = map Some (left_msgs l)" by auto
  with acc Some d show ?thesis by (simp add: queue_account_def duer_engine_clear_data_def)
qed (simp add: duer_engine_clear_data_def)

lemma account_clear_empty:
  assumes "queue_account e" "g_qcache_handler e \<noteq> None"
  shows "g_qcache_handler (duer_engine_clear_data e) = Some []"
proof -
  obtain xs where Some: "g_qcache_handler e = Some xs" using assms(2) by auto
  obtain r l where d: "drop_queued xs = (r, l)" by (rule prod.exhaust)
  with drop_queued_account [OF d] account_no_null [OF assms(1) Some] Some show ?thesis
    by (simp add: duer_engine_clear_data_def)
qed

lemma account_destroy: "queue_account e \<Longrightarrow> queue_account (duer_engine_destroy e)"
proof -
  assume acc: "queue_account e"
  let ?e1 = "if g_timer e \<noteq> None then e\<lparr>g_timer := duer_timer_release (g_timer e)\<rparr> else e"
  let ?e2 = "if g_qcache_handler ?e1 \<noteq> None
             then (duer_engine_clear_data ?e1)\<lparr>g_qcache_handler := None\<rparr> else ?e1"
  have acc1: "queue_account ?e1" using acc by (simp add: queue_account_def)
  have "queue_account ?e2"
  proof (cases "g_qcache_handler ?e1")
    case None
    with acc1 show ?thesis by simp
  next
    case Some
    with account_clear [OF acc1] account_clear_empty [OF acc1] show ?thesis
      by (simp add: queue_account_def)
  qed
  moreover have "qview (duer_engine_destroy e) = qview ?e2"
    by (simp add: duer_engine_destroy_def Let_def)
  ultimately show ?thesis using queue_account_qview by blast
qed

lemma account_load:
  "queue_account e \<Longrightarrow> eng_load d what obj e = Some (st, e') \<Longrightarrow> queue_account e'"
  using account_create [of "e\<lparr>g_start_timeout := START_TIMEOUT\<rparr>"]
  by (auto simp: eng_load_def queue_account_def split: if_splits option.splits prod.splits)

lemma account_start:
  assumes "queue_account e" "duer_engine_start d what obj e = Some (Some e')"
  shows "queue_account e'"
proof (cases "baidu_ca_is_started (g_handler e)")
  case True
  with assms show ?thesis by (simp add: duer_engine_start_def)
next
  case False
  with assms(2) obtain st e1 where l: "eng_load d what obj e = Some (st, e1)"
    by (auto simp: duer_engine_start_def split: option.splits)
  have acc1: "queue_account e1" by (rule account_load [OF assms(1) l])
  show ?thesis
  proof (cases "st = DUER_ERR_PROFILE_INVALID")
    case True
    with assms(2) False l have "e' = start_finish DUER_ERR_PROFILE_INVALID e1" by (simp add: duer_engine_start_def)
    with acc1 queue_account_qview qview_start_finish show ?thesis by metis
  next
    case ok: False
    with assms(2) False l obtain rs e2 where s: "eng_ca_start d e1 = Some (Some (rs, e2))"
      and e': "e' = start_finish (start_status rs) e2"
      by (auto simp: duer_engine_start_def)
    have "qview e2 = qview e1"
    proof (cases "g_handler e1")
      case None
      with s show ?thesis by (simp add: eng_ca_start_def)
    next
      case (Some ctx)
      with s obtain r where "eng_put_ca r e1 = (rs, e2)" by (auto simp: eng_ca_start_def)
      then show ?thesis using qview_put_ca [of r e1] by simp
    qed
    with acc1 e' queue_account_qview qview_start_finish show ?thesis by metis
  qed
qed

lemma account_data_available:
  assumes "queue_account e" "duer_engine_data_available d e = Some (Some e')"
  shows "queue_account e'"
proof -
  have "qview e' = qview e"
  proof (cases "g_handler e")
    case None
    with assms(2) show ?thesis by (auto simp: duer_engine_data_available_def)
  next
    case (Some ctx)
    show ?thesis
    proof (cases "baidu_ca_is_stopped (Some ctx)")
      case True
      with Some assms(2) show ?thesis by (auto simp: duer_engine_data_available_def)
    next
      case False
      with Some assms(2) obtain r where
        e': "e' = (case eng_put_ca r e of (rs, e1) \<Rightarrow>
                data_finish (baidu_ca_is_started (Some ctx)) (data_status rs) e1)"
        by (auto simp: duer_engine_data_available_def)
      obtain rs e1 where r: "eng_put_ca r e = (rs, e1)" by (rule prod.exhaust)
      with qview_put_ca [of r e] e' show ?thesis by simp
    qed
  qed
  with assms(1) queue_account_qview show ?thesis by blast
qed

lemma account_push: "queue_account e \<Longrightarrow> queue_account (snd (queue_push m e))"
  by (cases "g_qcache_handler e") (auto simp: queue_push_def queue_account_def eng_log_def lq_push_def)

lemma qview_report_payload: "qview (snd (report_payload d j e)) = qview e"
  by (simp add: report_payload_def split: prod.split option.split)

lemma account_enqueue_report:
  assumes "queue_account e" "duer_engine_enqueue_report_data d le j e = Some (rs, e')"
  shows "queue_account e'"
proof (cases "j = None \<or> g_qcache_handler e = None \<or> g_handler e = None")
  case True
  with assms show ?thesis by (auto simp: duer_engine_enqueue_report_data_def split: option.splits)
next
  case False
  then obtain jj where j: "j = Some jj" by auto
  obtain c e1 where p: "report_payload d jj e = (c, e1)" by (rule prod.exhaust)
  have "qview e1 = qview e" using qview_report_payload [of d jj e] p by simp
  then have acc1: "queue_account e1" using assms(1) queue_account_qview by blast
  obtain msg h1 w1 where b: "baidu_ca_build_report_message le (g_handler e1) False (e_world e1) = (msg, h1, w1)"
    by (rule prod_cases3)
  have "queue_account (e1\<lparr>g_handler := h1, e_world := w1\<rparr>)"
    using acc1 by (simp add: queue_account_def)
  note acc2 = this account_push [OF this]
  show ?thesis
  proof (cases "c = None \<or> msg = None \<or> the c = None")
    case True
    with assms(2) False j p b acc1 acc2 show ?thesis
      by (auto simp: duer_engine_enqueue_report_data_def Let_def split: option.splits)
  next
    case push: False
    with assms(2) False j p b have "\<exists>m. queue_push m (e1\<lparr>g_handler := h1, e_world := w1\<rparr>) = (rs, e')"
      by (auto simp: duer_engine_enqueue_report_data_def)
    with acc2(2) show ?thesis by (metis snd_conv)
  qed
qed

lemma account_enqueue_response:
  assumes "queue_account e" "duer_engine_enqueue_response req code bs n e = Some (rs, e')"
  shows "queue_account e'"
proof (cases "req = None \<or> g_handler e = None")
  case True
  with assms show ?thesis by (simp add: duer_engine_enqueue_response_def)
next
  case False
  then obtain msg w1 where b: "baidu_ca_build_response_message (g_handler e) req code (e_world e) = Some (msg, w1)"
    using assms(2) by (auto simp: duer_engine_enqueue_response_def split: option.splits)
  have acc: "queue_account (e\<lparr>e_world := w\<rparr>)" for w using assms(1) by (simp add: queue_account_def)
  show ?thesis
  proof (cases msg)
    case None
    with False b assms(2) acc show ?thesis by (auto simp: duer_engine_enqueue_response_def)
  next
    case (Some m)
    with False b assms(2) have "rs = DUER_ERR_MEMORY_OVERLOW \<and> (\<exists>w. e' = e\<lparr>e_world := w\<rparr>) \<or>
        (\<exists>m' w. (rs, e') = queue_push m' (e\<lparr>e_world := w\<rparr>))"
      by (auto simp: duer_engine_enqueue_response_def Let_def split: if_splits option.splits) metis+
    with acc account_push show ?thesis by (metis snd_conv)
  qed
qed

lemma account_check: "queue_account e \<Longrightarrow> queue_account (report_check rs e)"
  unfolding report_check_def using queue_account_qview qview_data_send by (metis (full_types))

lemma account_report:
  "queue_account e \<Longrightarrow> duer_data_report d le j e = Some (rs, e') \<Longrightarrow> queue_account e'"
  using account_enqueue_report account_check by (fastforce simp: duer_data_report_def)

text \<open>Sending takes the message at the front, whatever the agent did with it.\<close>

lemma account_send_result:
  assumes "queue_account e" "lq_top (g_qcache_handler e) = Some m"
  shows "queue_account (snd (send_result m rs e))"
proof -
  obtain xs where q: "g_qcache_handler e = Some (Some m # xs)"
    using assms(2) by (auto simp: lq_top_def split: option.splits list.splits)
  with assms(1) show ?thesis
    by (simp add: send_result_def queue_account_def eng_log_def eng_timer_start_def)
qed

lemma send_body_cases:
  assumes "engine_send_body d e = Some (st, e')"
  obtains (idle) "st = DUER_OK" "qview e' = qview e" "g_events_handler e' = g_events_handler e"
      "g_handler e' = g_handler e" "e_world e' = e_world e"
      "baidu_ca_is_stopped (g_handler e) \<or> lq_top (g_qcache_handler e) = None"
  | (sent) ctx m rs ctx1 w1 where "g_handler e = Some ctx" "lq_top (g_qcache_handler e) = Some m"
      "baidu_ca_send_data d ctx m (e_world e) = Some (rs, ctx1, w1)"
      "(st, e') = send_result m rs ((eng_timer_stop e)\<lparr>g_handler := Some ctx1, e_world := w1\<rparr>)"
proof (cases "baidu_ca_is_stopped (g_handler e)")
  case True
  with assms have "st = DUER_OK" "e' = e"
    by (auto simp: engine_send_body_def baidu_ca_is_stopped_def split: option.splits)
  with True idle show thesis by simp
next
  case False
  then obtain ctx where h: "g_handler e = Some ctx" by (auto simp: baidu_ca_is_stopped_def split: option.splits)
  have t: "g_qcache_handler (eng_timer_stop e) = g_qcache_handler e" "e_world (eng_timer_stop e) = e_world e"
    "g_events_handler (eng_timer_stop e) = g_events_handler e" "g_handler (eng_timer_stop e) = g_handler e"
    by (simp_all add: eng_timer_stop_def)
  show thesis
  proof (cases "lq_top (g_qcache_handler e)")
    case None
    with assms False h t have "st = DUER_OK" "e' = eng_timer_stop e" by (auto simp: engine_send_body_def)
    with None idle t show thesis by simp
  next
    case (Some m)
    with assms False h t obtain rs ctx1 w1 where "baidu_ca_send_data d ctx m (e_world e) = Some (rs, ctx1, w1)"
      "(st, e') = send_result m rs ((eng_timer_stop e)\<lparr>g_handler := Some ctx1, e_world := w1\<rparr>)"
      by (auto simp: engine_send_body_def split: option.splits prod.splits)
    with h Some sent show thesis by blast
  qed
qed

lemma account_send:
  assumes "queue_account e" "duer_engine_send d e = Some e'"
  shows "queue_account e'"
proof -
  obtain st e1 where b: "engine_send_body d e = Some (st, e1)" and e': "e' = duer_engine_notify EVT_SEND_DATA st e1"
    using assms(2) by (auto simp: duer_engine_send_def)
  from b have "queue_account e1"
  proof (cases rule: send_body_cases)
    case idle
    with assms(1) queue_account_qview show ?thesis by blast
  next
    case (sent ctx m rs ctx1 w1)
    let ?e = "(eng_timer_stop e)\<lparr>g_handler := Some ctx1, e_world := w1\<rparr>"
    have "queue_account ?e" "lq_top (g_qcache_handler ?e) = Some m"
      using assms(1) sent(2) by (simp_all add: queue_account_def eng_timer_stop_def)
    from account_send_result [OF this, of rs] show ?thesis using sent(4) by (metis snd_conv)
  qed
  with e' queue_account_qview qview_notify show ?thesis by metis
qed

lemma account_task:
  assumes "queue_account e" "task_run d e = Some (Some e')"
  shows "queue_account e'"
proof (cases "\<exists>c q. g_events_handler e = Some (c # q)")
  case False
  with assms show ?thesis by (auto simp: task_run_def split: option.splits list.splits)
next
  case True
  then obtain c q where q: "g_events_handler e = Some (c # q)" by blast
  let ?e = "e\<lparr>g_events_handler := Some q\<rparr>"
  have acc: "queue_account ?e" using assms(1) by (simp add: queue_account_def)
  have run: "run_call d c ?e = Some (Some e')" using assms(2) q by (simp add: task_run_def)
  show ?thesis
  proof (cases c)
    case CallCreate
    with run acc show ?thesis by (auto simp: run_call_def intro: account_create)
  next
    case (CallStart what object)
    with run acc show ?thesis by (auto simp: run_call_def intro: account_start)
  next
    case (CallAddResources n rs)
    with run have "duer_engine_add_resources d n rs ?e = Some (Some e')" by (simp add: run_call_def)
    then have "qview e' = qview ?e"
      by (auto simp: duer_engine_add_resources_def split: option.splits prod.splits)
    with acc queue_account_qview show ?thesis by blast
  next
    case CallDataAvailable
    with run acc show ?thesis by (auto simp: run_call_def intro: account_data_available)
  next
    case CallSend
    with run acc show ?thesis by (auto simp: run_call_def intro: account_send)
  next
    case CallStop
    with run have "e' = duer_engine_stop DUER_OK ?e" by (simp add: run_call_def)
    with acc show ?thesis by (simp add: queue_account_qview [OF qview_stop])
  next
    case CallDestroy
    with run acc show ?thesis by (auto simp: run_call_def intro: account_destroy)
  qed
qed

lemma account_act:
  assumes "queue_account e" "do_act d le a e = Some (Some e')"
  shows "queue_account e'"
proof (cases a)
  case AInitialize
  have "qview (duer_initialize e) = qview e"
    by (simp add: duer_initialize_def duer_engine_register_notify_def)
  with AInitialize assms queue_account_qview show ?thesis by (metis do_act.simps(1) option.inject)
next
  case (AReport j)
  with assms show ?thesis by (auto intro: account_report)
next
  case (APush j)
  with assms show ?thesis by (auto intro: account_enqueue_report)
next
  case (ACheck rs)
  with assms show ?thesis by (auto intro: account_check)
next
  case (AResponse m code bs n)
  with assms(2) obtain rs e1 where r: "duer_engine_enqueue_response m code bs n e = Some (rs, e1)"
    and e': "e' = (if rs = DUER_OK then snd (duer_data_send e1) else e1)"
    by (auto simp: duer_response_def)
  have "qview e' = qview e1" using e' by simp
  with account_enqueue_response [OF assms(1) r] queue_account_qview show ?thesis by blast
next
  case (AStart s)
  have "qview (snd (duer_start s e)) = qview e" by (simp add: duer_start_def)
  with AStart assms queue_account_qview show ?thesis by (metis do_act.simps(6) option.inject)
next
  case (AAddResources rs n)
  have "qview (snd (copy_resources l v)) = qview v" for l and v :: "'a eng"
    by (induction l v rule: copy_resources.induct) simp_all
  then have "qview v' = qview v" if "copy_resources l v = (b, v')" for l b and v v' :: "'a eng"
    using that by (metis snd_conv)
  moreover have "qview v' = qview v" if "duer_events_call_internal c v = (b, v')" for c b and v v' :: "'a eng"
    using that qview_call by (metis snd_conv)
  ultimately have "qview e' = qview e"
    using AAddResources assms(2)
    by (auto simp: duer_add_resources_def Let_def split: if_splits option.splits prod.splits)
  with assms(1) queue_account_qview show ?thesis by blast
next
  case AStop
  with assms show ?thesis by (auto simp: duer_stop_def queue_account_qview [OF qview_call])
next
  case AFinalize
  with assms show ?thesis by (auto simp: duer_finalize_def queue_account_qview [OF qview_call])
next
  case ATimer
  have acc: "queue_account (e\<lparr>e_world := w\<rparr>)" for w using assms(1) by (simp add: queue_account_def)
  show ?thesis
  proof (cases "baidu_ca_is_started (g_handler e)")
    case True
    then have "(\<exists>w. e' = e\<lparr>e_world := w\<rparr>) \<or>
        (\<exists>j w rs. duer_data_report d le j (e\<lparr>e_world := w\<rparr>) = Some (rs, e'))"
      using ATimer assms(2) by (auto simp: duer_timer_expired_def split: option.splits prod.splits)
    with acc account_report show ?thesis by blast
  next
    case False
    with ATimer assms(2) have "e' = duer_engine_notify EVT_START DUER_ERR_CONNECT_TIMEOUT e"
      by (simp add: duer_timer_expired_def)
    with assms(1) show ?thesis by (simp add: queue_account_qview [OF qview_notify])
  qed
next
  case (ATransport t)
  with assms show ?thesis
    by (cases t) (auto simp: duer_transport_notify_def duer_data_available_def duer_data_send_def
        queue_account_qview [OF qview_call] queue_account_qview [OF qview_notify] account_clear)
next
  case ATask
  with assms show ?thesis by (auto intro: account_task)
qed

lemma account_run:
  "queue_account e \<Longrightarrow> run_acts d le as e = Some (Some e') \<Longrightarrow> queue_account e'"
proof (induction as arbitrary: e)
  case (Cons a as)
  from Cons.prems(2) obtain e1 where a: "do_act d le a e = Some (Some e1)"
    and r: "run_acts d le as e1 = Some (Some e')"
    by (auto split: option.splits)
  from Cons.IH [OF account_act [OF Cons.prems(1) a] r] show ?case .
qed simp

definition fresh_eng :: "world \<Rightarrow> mem \<Rightarrow> 'n eng" where
  "fresh_eng w tc =
     \<lparr>g_handler = None, g_notify_func = False, g_timer = None, g_qcache_handler = None,
      g_qcache_mutex = False, g_start_timeout = 0, g_event_callback = False, g_events_handler = None,
      e_world = w, e_tcreate = tc, e_log = []\<rparr>"

lemma sent_left: "(\<forall>m. EffDropped m \<notin> set l) \<Longrightarrow> sent_msgs l = left_msgs l"
  by (induction l rule: left_msgs.induct) auto

text \<open>C1: Over any sequence of operations, callbacks and task steps from the initial state, the messages
  that entered the queue are, in order, those that left it followed by those in it; as long as no
  send timeout or shutdown drops any, those that left it have been sent.\<close>

theorem engine_messages_fifo:
  assumes "run_acts d le as (fresh_eng w tc) = Some (Some e)"
  shows "\<exists>q. queued_msgs (e_log e) = left_msgs (e_log e) @ q \<and>
       (g_qcache_handler e = Some (map Some q) \<or> g_qcache_handler e = None \<and> q = []) \<and>
       ((\<forall>m. EffDropped m \<notin> set (e_log e)) \<longrightarrow> queued_msgs (e_log e) = sent_msgs (e_log e) @ q)"
proof -
  have "queue_account (fresh_eng w tc)" by (simp add: queue_account_def fresh_eng_def)
  then have acc: "queue_account e" using assms by (rule account_run)
  then obtain us q where q: "queued_msgs (e_log e) = us @ q" "map Some us = map Some (left_msgs (e_log e))"
    "map Some q = (case g_qcache_handler e of None \<Rightarrow> [] | Some xs \<Rightarrow> xs)"
    by (auto simp: queue_account_def map_eq_append_conv)
  from q(2) have "us = left_msgs (e_log e)" by (simp add: inj_map_eq_map)
  with q(1,3) sent_left [of "e_log e"] show ?thesis by (intro exI [of _ q]) (auto split: option.splits)
qed

section \<open>No lost wake-up\<close>

text \<open>A queued message is due to be sent: a send call is waiting for the event task.\<close>

definition has_send :: "'n eng \<Rightarrow> bool" where
  "has_send e = (case g_events_handler e of None \<Rightarrow> True | Some q \<Rightarrow> CallSend \<in> set q)"

definition send_due :: "'n eng \<Rightarrow> bool" where
  "send_due e \<longleftrightarrow> lq_length (g_qcache_handler e) = 0 \<or> has_send e"

lemma has_send_update [simp]:
  "has_send (e\<lparr>g_handler := h\<rparr>) = has_send e" "has_send (e\<lparr>e_world := w\<rparr>) = has_send e"
  "has_send (e\<lparr>g_timer := t\<rparr>) = has_send e" "has_send (e\<lparr>g_start_timeout := n\<rparr>) = has_send e"
  "has_send (e\<lparr>g_qcache_handler := q\<rparr>) = has_send e" "has_send (e\<lparr>g_notify_func := b\<rparr>) = has_send e"
  "has_send (e\<lparr>g_qcache_mutex := b\<rparr>) = has_send e" "has_send (e\<lparr>e_tcreate := tc\<rparr>) = has_send e"
  "has_send (e\<lparr>e_log := l\<rparr>) = has_send e" "has_send (eng_log x e) = has_send e"
  "has_send (eng_timer_start dl e) = has_send e" "has_send (eng_timer_stop e) = has_send e"
  "has_send (e\<lparr>g_events_handler := None\<rparr>)"
  by (simp_all add: has_send_def eng_log_def eng_timer_start_def eng_timer_stop_def)

lemma has_send_call: "has_send e \<Longrightarrow> has_send (snd (duer_events_call_internal c e))"
  by (auto simp: has_send_def duer_events_call_internal_def split: option.splits)

lemma has_send_post:
  "w_mem (e_world e) = [] \<Longrightarrow> has_send (snd (duer_data_send e))"
  by (auto simp: has_send_def duer_data_send_def duer_events_call_internal_def split: option.splits)

lemma has_send_switch: "has_send e \<Longrightarrow> has_send (notify_switch event st e)"
  by (cases event) (auto simp: notify_switch_def duer_event_notify_def duer_data_send_def intro!: has_send_call)

lemma has_send_stop: "has_send e \<Longrightarrow> has_send (duer_engine_stop what e)"
  by (cases "g_handler e") (auto simp: duer_engine_stop_def Let_def intro!: has_send_switch split: prod.split)

lemma has_send_notify: "has_send e \<Longrightarrow> has_send (duer_engine_notify event st e)"
  by (auto simp: duer_engine_notify_def duer_engine_notify_callback_def Let_def intro!: has_send_switch has_send_stop)

lemma has_send_put_ca [simp]: "has_send (snd (eng_put_ca r e)) = has_send e"
  by (cases r) (simp add: eng_put_ca_def has_send_def)

lemma has_send_create: "has_send e \<Longrightarrow> duer_engine_create e = Some e' \<Longrightarrow> has_send e'"
  by (auto simp: duer_engine_create_def eng_create_timer_def eng_create_handler_def eng_create_queue_def
      eng_create_mutex_def intro!: has_send_notify split: if_splits prod.splits option.splits)

lemma has_send_load: "has_send e \<Longrightarrow> eng_load d what obj e = Some (st, e') \<Longrightarrow> has_send e'"
  using has_send_create [of "e\<lparr>g_start_timeout := START_TIMEOUT\<rparr>"]
  by (auto simp: eng_load_def split: if_splits option.splits prod.splits)

lemma has_send_ca_start: "has_send e \<Longrightarrow> eng_ca_start d e = Some (Some (rs, e')) \<Longrightarrow> has_send e'"
proof (cases "g_handler e")
  case (Some ctx)
  assume "has_send e" "eng_ca_start d e = Some (Some (rs, e'))"
  with Some obtain r where "eng_put_ca r e = (rs, e')" by (auto simp: eng_ca_start_def)
  with \<open>has_send e\<close> has_send_put_ca [of r e] show ?thesis by simp
qed (simp add: eng_ca_start_def)

lemma has_send_finish: "has_send e \<Longrightarrow> has_send (start_finish st e)"
  by (auto simp: start_finish_def start_timer_def intro!: has_send_notify)

lemma has_send_start:
  assumes "has_send e" "duer_engine_start d what obj e = Some (Some e')"
  shows "has_send e'"
proof (cases "baidu_ca_is_started (g_handler e)")
  case True
  with assms show ?thesis by (simp add: duer_engine_start_def)
next
  case False
  with assms(2) obtain st e1 where l: "eng_load d what obj e = Some (st, e1)"
    by (auto simp: duer_engine_start_def split: option.splits)
  have s1: "has_send e1" by (rule has_send_load [OF assms(1) l])
  show ?thesis
  proof (cases "st = DUER_ERR_PROFILE_INVALID")
    case True
    with assms(2) False l have "e' = start_finish DUER_ERR_PROFILE_INVALID e1" by (simp add: duer_engine_start_def)
    with has_send_finish [OF s1] show ?thesis by simp
  next
    case ok: False
    with assms(2) False l obtain rs e2 where s: "eng_ca_start d e1 = Some (Some (rs, e2))"
      and e': "e' = start_finish (start_status rs) e2"
      by (auto simp: duer_engine_start_def)
    with has_send_finish [OF has_send_ca_start [OF s1 s]] show ?thesis by simp
  qed
qed

lemma has_send_data: "has_send e \<Longrightarrow> duer_engine_data_available d e = Some (Some e') \<Longrightarrow> has_send e'"
proof -
  assume s: "has_send e" and d: "duer_engine_data_available d e = Some (Some e')"
  have fin: "has_send (data_finish b st v)" if "has_send v" for b st and v :: "'a eng"
    using that by (simp add: data_finish_def has_send_notify)
  show ?thesis
  proof (cases "g_handler e")
    case None
    with s d fin show ?thesis by (auto simp: duer_engine_data_available_def)
  next
    case (Some ctx)
    show ?thesis
    proof (cases "baidu_ca_is_stopped (Some ctx)")
      case True
      with Some s d fin show ?thesis by (auto simp: duer_engine_data_available_def)
    next
      case False
      with Some d obtain r where
        e': "e' = (case eng_put_ca r e of (rs, e1) \<Rightarrow>
                data_finish (baidu_ca_is_started (Some ctx)) (data_status rs) e1)"
        by (auto simp: duer_engine_data_available_def)
      obtain rs e1 where r: "eng_put_ca r e = (rs, e1)" by (rule prod.exhaust)
      with has_send_put_ca [of r e] s e' fin show ?thesis by simp
    qed
  qed
qed

lemma has_send_destroy: "has_send e \<Longrightarrow> has_send (duer_engine_destroy e)"
  by (auto simp: duer_engine_destroy_def duer_engine_clear_data_def Let_def intro!: has_send_notify
      split: option.split prod.split)

text \<open>The send call itself: with nothing failed, the notification posts again while messages wait.\<close>

definition mem_spare :: "'n eng \<Rightarrow> bool" where
  "mem_spare e \<longleftrightarrow> w_mem (e_world e) = []"

lemma wrapper_send_mem: "duer_trans_wrapper_send tr bs w = (rs, w') \<Longrightarrow> w_mem w' = w_mem w"
  by (auto simp: duer_trans_wrapper_send_def soc_send_def split: list.splits if_splits)

lemma aes_send_mem:
  "duer_trans_aes_cbc_encrypted_send le cr tr bs w = Some (rs, w') \<Longrightarrow> w_mem w = [] \<Longrightarrow> w_mem w' = []"
  unfolding duer_trans_aes_cbc_encrypted_send_def Let_def
  by (auto split: prod.splits option.splits if_splits dest!: wrapper_send_mem)

lemma trans_send_mem: "duer_trans_send le cr tr bs w = Some (rs, w') \<Longrightarrow> w_mem w = [] \<Longrightarrow> w_mem w' = []"
  unfolding duer_trans_send_def
  by (auto split: option.splits trans_cbs.splits dest!: wrapper_send_mem aes_send_mem)

lemma nsdl_tx_mem: "duer_coap_nsdl_tx e co bs w = Some (ok, co', w') \<Longrightarrow> w_mem w = [] \<Longrightarrow> w_mem w' = []"
  unfolding duer_coap_nsdl_tx_def Let_def
  by (auto split: prod.splits option.splits if_splits dest!: trans_send_mem)

lemma coap_send_mem:
  assumes "duer_coap_send e h m w = Some (rs, h', w')" "w_mem w = []"
  shows "w_mem w' = []"
proof (cases "h = None \<or> co_nsdl (the h) = None")
  case True
  then show ?thesis using assms by (cases h) (auto simp: duer_coap_send_def)
next
  case False
  then obtain co a n where co: "h = Some co" "co_nsdl co = Some (a, n)" by auto
  obtain out k where o: "ns_send (e_nsdl e) n (duer_nsdl_address_set (co_remote co))
      (duer_nsdl_header_set m) = (out, k)" by (rule prod.exhaust)
  obtain r1 n1 where kf: "k False = (r1, n1)" by (rule prod.exhaust)
  show ?thesis
  proof (cases out)
    case None
    with assms co o kf show ?thesis by (simp add: duer_coap_send_def Let_def)
  next
    case (Some bs)
    with assms(1) co o obtain ok co1 where
      "duer_coap_nsdl_tx e (co\<lparr>co_retval := DUER_ERR_FAILED\<rparr>) bs w = Some (ok, co1, w')"
      by (auto simp: duer_coap_send_def Let_def split: option.splits prod.splits)
    with assms(2) nsdl_tx_mem show ?thesis by blast
  qed
qed

lemma send_body_mem:
  assumes "engine_send_body d e = Some (st, e')" "mem_spare e"
  shows "mem_spare e'"
  using assms(1)
proof (cases rule: send_body_cases)
  case idle
  with assms(2) show ?thesis by (simp add: mem_spare_def)
next
  case (sent ctx m rs ctx1 w1)
  have "w_mem w1 = []"
    using sent(3) assms(2) coap_send_mem
    by (auto simp: baidu_ca_send_data_def mem_spare_def split: option.splits)
  with sent(4) show ?thesis
    by (auto simp: send_result_def mem_spare_def eng_timer_start_def eng_log_def Let_def split: if_splits prod.splits)
qed

lemma notify_sent:
  assumes "0 \<le> st" "g_notify_func e" "mem_spare e"
  shows "send_due (duer_engine_notify EVT_SEND_DATA st e)"
proof -
  let ?e = "notify_switch EVT_SEND_DATA st e"
  have "qview ?e = qview e" by simp
  then have q: "g_qcache_handler ?e = g_qcache_handler e" by (simp add: qview_def)
  have "send_due ?e"
    using assms has_send_post [of e]
    by (auto simp: send_due_def notify_switch_def duer_engine_qcache_length_def mem_spare_def)
  then have "send_due (duer_engine_stop st ?e)"
    using has_send_stop [of ?e st] qview_stop [of st ?e] by (auto simp: send_due_def qview_def)
  with \<open>send_due ?e\<close> show ?thesis
    using assms(2) by (simp add: duer_engine_notify_def duer_engine_notify_callback_def Let_def)
qed

lemma due_send:
  assumes "duer_engine_send d e = Some e'" "g_notify_func e" "mem_spare e"
    and "\<And>st e1. engine_send_body d e = Some (st, e1) \<Longrightarrow> st = DUER_OK"
  shows "send_due e'"
proof -
  obtain st e1 where b: "engine_send_body d e = Some (st, e1)" and e': "e' = duer_engine_notify EVT_SEND_DATA st e1"
    using assms(1) by (auto simp: duer_engine_send_def)
  from b have "g_notify_func e1 = g_notify_func e"
  proof (cases rule: send_body_cases)
    case idle
    from b idle(6) show ?thesis
      by (auto simp: engine_send_body_def eng_timer_stop_def Let_def baidu_ca_is_stopped_def split: option.splits if_splits)
  next
    case (sent ctx m rs ctx1 w1)
    then show ?thesis
      by (auto simp: send_result_def eng_timer_start_def eng_timer_stop_def eng_log_def Let_def split: if_splits prod.splits)
  qed
  with assms(2) have "g_notify_func e1" by simp
  from notify_sent [OF _ this send_body_mem [OF b assms(3)]] assms(4) [OF b] e' show ?thesis by simp
qed

text \<open>Enqueueing leaves the posted calls alone and needs no more memory than there is.\<close>

definition enq_frame :: "'n eng \<Rightarrow> 'n eng \<Rightarrow> bool" where
  "enq_frame e e' \<longleftrightarrow>
     g_events_handler e' = g_events_handler e \<and> g_notify_func e' = g_notify_func e \<and>
     (mem_spare e \<longrightarrow> mem_spare e') \<and>
     baidu_ca_is_stopped (g_handler e') = baidu_ca_is_stopped (g_handler e)"

lemma enq_frame_refl [simp]: "enq_frame e e" by (simp add: enq_frame_def)

lemma enq_frame_trans: "enq_frame e e1 \<Longrightarrow> enq_frame e1 e2 \<Longrightarrow> enq_frame e e2"
  by (simp add: enq_frame_def)

lemma frame_push: "enq_frame e (snd (queue_push m e))"
  by (cases "g_qcache_handler e") (auto simp: queue_push_def enq_frame_def mem_spare_def eng_log_def lq_push_def)

lemma push_status:
  "queue_push m e = (rs, e') \<Longrightarrow>
   (if rs = DUER_OK then \<exists>xs. g_qcache_handler e = Some xs \<and> g_qcache_handler e' = Some (xs @ [Some m])
    else rs < 0 \<and> g_qcache_handler e' = g_qcache_handler e)"
  by (cases "g_qcache_handler e") (auto simp: queue_push_def eng_log_def lq_push_def split: if_splits)

lemma enqueue_report_frame:
  assumes "duer_engine_enqueue_report_data d le j e = Some (rs, e')"
  shows "enq_frame e e' \<and>
    (if rs = DUER_OK then lq_length (g_qcache_handler e') = lq_length (g_qcache_handler e) + 1
     else lq_length (g_qcache_handler e') = lq_length (g_qcache_handler e))"
proof (cases "j = None \<or> g_qcache_handler e = None \<or> g_handler e = None")
  case True
  with assms show ?thesis by (auto simp: duer_engine_enqueue_report_data_def split: option.splits)
next
  case False
  then obtain jj ctx where j: "j = Some jj" and h: "g_handler e = Some ctx" by auto
  obtain c e1 where p: "report_payload d jj e = (c, e1)" by (rule prod.exhaust)
  have f1: "enq_frame e e1" "g_qcache_handler e1 = g_qcache_handler e" "g_handler e1 = g_handler e"
    using p by (auto simp: report_payload_def enq_frame_def mem_spare_def json_CreateObject_def json_New_Item_def
        json_AddItemReferenceToObject_def json_AddItemToObject_def json_strdup_def Let_def
        split: prod.splits option.splits if_splits)
  have h1: "g_handler e1 = Some ctx" using f1(3) h by simp
  obtain msg h1 w1 where b: "baidu_ca_build_report_message le (g_handler e1) False (e_world e1) = (msg, h1, w1)"
    by (rule prod_cases3)
  let ?e2 = "e1\<lparr>g_handler := h1, e_world := w1\<rparr>"
  have f2: "enq_frame e1 ?e2" "g_qcache_handler ?e2 = g_qcache_handler e1"
    using b [unfolded h1] by (auto simp: h1 baidu_ca_build_report_message_def enq_frame_def mem_spare_def Let_def
        baidu_ca_is_stopped_def split: if_splits)
  note f = enq_frame_trans [OF f1(1) f2(1)]
  show ?thesis
  proof (cases "c = None \<or> msg = None \<or> the c = None")
    case True
    with assms False j p b f f1 f2 show ?thesis
      by (auto simp: duer_engine_enqueue_report_data_def Let_def split: option.splits)
  next
    case push: False
    with assms False j p b have "\<exists>m. queue_push m ?e2 = (rs, e')"
      by (auto simp: duer_engine_enqueue_report_data_def)
    then obtain m where m: "queue_push m ?e2 = (rs, e')" by blast
    from push_status [OF m] frame_push [of ?e2 m] m f f1(2) f2(2) enq_frame_trans [OF f] show ?thesis
      by (auto split: if_splits)
  qed
qed

lemma enqueue_response_frame:
  assumes "duer_engine_enqueue_response req code bs n e = Some (rs, e')"
  shows "enq_frame e e' \<and> (rs \<noteq> DUER_OK \<longrightarrow> lq_length (g_qcache_handler e') = lq_length (g_qcache_handler e))"
proof (cases "req = None \<or> g_handler e = None")
  case True
  with assms show ?thesis by (auto simp: duer_engine_enqueue_response_def)
next
  case False
  then obtain rq ctx where rq: "req = Some rq" "g_handler e = Some ctx" by auto
  then obtain msg w1 where b: "baidu_ca_build_response_message (g_handler e) req code (e_world e) = Some (msg, w1)"
    using assms by (auto simp: duer_engine_enqueue_response_def split: option.splits)
  have "w_mem (e_world e) = [] \<longrightarrow> w_mem w1 = []"
    using b rq by (auto simp: baidu_ca_build_response_message_def Let_def split: if_splits option.splits)
  then have f1: "enq_frame e (e\<lparr>e_world := w1\<rparr>)" by (simp add: enq_frame_def mem_spare_def)
  have f2: "enq_frame e (snd (eng_malloc (e\<lparr>e_world := w1\<rparr>)))"
    using f1 by (simp add: enq_frame_def mem_spare_def)
  show ?thesis
  proof (cases msg)
    case None
    with rq b assms f1 show ?thesis by (auto simp: duer_engine_enqueue_response_def)
  next
    case (Some m)
    with rq b assms have "rs = DUER_ERR_MEMORY_OVERLOW \<and> e' = snd (eng_malloc (e\<lparr>e_world := w1\<rparr>)) \<or>
        (\<exists>m' e1. (e1 = e\<lparr>e_world := w1\<rparr> \<or> e1 = snd (eng_malloc (e\<lparr>e_world := w1\<rparr>))) \<and> queue_push m' e1 = (rs, e'))"
      by (auto simp: duer_engine_enqueue_response_def Let_def split: if_splits option.splits)
    then show ?thesis
    proof
      assume "rs = DUER_ERR_MEMORY_OVERLOW \<and> e' = snd (eng_malloc (e\<lparr>e_world := w1\<rparr>))"
      with f2 show ?thesis by simp
    next
      assume "\<exists>m' e1. (e1 = e\<lparr>e_world := w1\<rparr> \<or> e1 = snd (eng_malloc (e\<lparr>e_world := w1\<rparr>))) \<and> queue_push m' e1 = (rs, e')"
      then obtain m' e1 where e1: "e1 = e\<lparr>e_world := w1\<rparr> \<or> e1 = snd (eng_malloc (e\<lparr>e_world := w1\<rparr>))"
        and m: "queue_push m' e1 = (rs, e')" by blast
      have "enq_frame e e1" "g_qcache_handler e1 = g_qcache_handler e" using e1 f1 f2 by auto
      with push_status [OF m] frame_push [of e1 m'] m enq_frame_trans show ?thesis by (auto split: if_splits)
    qed
  qed
qed

lemma frame_due:
  assumes "enq_frame e e'" shows "has_send e' = has_send e" "mem_spare e \<Longrightarrow> mem_spare e'"
  using assms by (simp_all add: enq_frame_def has_send_def)

lemma due_report:
  assumes "send_due e" "mem_spare e" "duer_data_report d le j e = Some (rs, e')"
  shows "send_due e'"
proof -
  obtain e1 where q: "duer_engine_enqueue_report_data d le j e = Some (rs, e1)" and e': "e' = report_check rs e1"
    using assms(3) by (auto simp: duer_data_report_def)
  note f = enqueue_report_frame [OF q]
  then have fr: "has_send e1 = has_send e" "mem_spare e1" using frame_due assms(2) by auto
  have lq: "g_qcache_handler (snd (duer_data_send e1)) = g_qcache_handler e1"
    using qview_data_send [of e1] by (simp add: qview_def)
  show ?thesis
  proof (cases "rs = DUER_OK \<and> lq_length (g_qcache_handler e1) = 1")
    case True
    with e' has_send_post [of e1] fr(2) show ?thesis
      by (simp add: report_check_def duer_engine_qcache_length_def send_due_def mem_spare_def)
  next
    case False
    with f assms(1) fr(1) e' show ?thesis
      by (auto simp: report_check_def duer_engine_qcache_length_def send_due_def split: if_splits)
  qed
qed

lemma due_response:
  assumes "send_due e" "mem_spare e" "duer_response req code bs n e = Some (rs, e')"
  shows "send_due e'"
proof -
  obtain e1 where q: "duer_engine_enqueue_response req code bs n e = Some (rs, e1)"
    and e': "e' = (if rs = DUER_OK then snd (duer_data_send e1) else e1)"
    using assms(3) by (auto simp: duer_response_def)
  note f = enqueue_response_frame [OF q]
  then have fr: "has_send e1 = has_send e" "mem_spare e1" using frame_due assms(2) by auto
  with e' f assms(1) has_send_post [of e1] show ?thesis by (auto simp: send_due_def mem_spare_def)
qed

lemma due_same:
  "send_due e \<Longrightarrow> qview e' = qview e \<Longrightarrow> (has_send e \<Longrightarrow> has_send e') \<Longrightarrow> send_due e'"
  by (auto simp: send_due_def qview_def)

lemma copy_resources_frame:
  "copy_resources rs e = (b, e') \<Longrightarrow> qview e' = qview e \<and> has_send e' = has_send e"
  by (induction rs e arbitrary: b e' rule: copy_resources.induct) (auto split: if_splits)

lemma due_add_resources:
  assumes "send_due e" "duer_add_resources rs n e = Some (st, e')"
  shows "send_due e'"
proof -
  have call: "qview v' = qview v \<and> (has_send v \<longrightarrow> has_send v')"
    if "duer_events_call_internal c v = (b, v')" for b c and v v' :: "'a eng"
    using that qview_call [of c v] has_send_call [of v c] by simp
  have "qview e' = qview e \<and> (has_send e \<longrightarrow> has_send e')"
    using assms(2) by (auto simp: duer_add_resources_def Let_def dest!: copy_resources_frame call
        split: if_splits option.splits prod.splits)
  with assms(1) due_same show ?thesis by blast
qed

text \<open>The task's calls other than sending.\<close>

lemma due_create: "send_due e \<Longrightarrow> duer_engine_create e = Some e' \<Longrightarrow> send_due e'"
proof -
  assume due: "send_due e" and c: "duer_engine_create e = Some e'"
  then obtain e4 where t: "eng_create_timer (eng_create_mutex (eng_create_queue (eng_create_handler e))) = Some e4"
    and e': "e' = duer_engine_notify EVT_CREATE DUER_OK e4"
    by (auto simp: duer_engine_create_def)
  have "g_qcache_handler e' = g_qcache_handler e4"
    using e' qview_notify [of EVT_CREATE DUER_OK e4] by (simp add: qview_def)
  moreover have "g_qcache_handler e4 = g_qcache_handler (eng_create_queue (eng_create_handler e))"
    using t by (auto simp: eng_create_timer_def eng_create_mutex_def split: if_splits prod.splits option.splits)
  moreover have "g_qcache_handler (eng_create_handler e) = g_qcache_handler e"
    by (simp add: eng_create_handler_def split: prod.split)
  ultimately have "lq_length (g_qcache_handler e') = lq_length (g_qcache_handler e)"
    by (simp add: eng_create_queue_def)
  with due has_send_create [OF _ c] show ?thesis by (auto simp: send_due_def)
qed

lemma due_load: "send_due e \<Longrightarrow> eng_load d what obj e = Some (st, e') \<Longrightarrow> send_due e'"
proof (cases "0 < what \<and> obj \<noteq> None")
  case True
  assume due: "send_due e" and l: "eng_load d what obj e = Some (st, e')"
  from l True obtain e1 rs h w where c: "duer_engine_create (e\<lparr>g_start_timeout := START_TIMEOUT\<rparr>) = Some e1"
    and e': "e' = e1\<lparr>g_handler := h, e_world := w\<rparr>"
    by (auto simp: eng_load_def split: option.splits prod.splits)
  have "send_due e1" using due_create [OF _ c] due by (simp add: send_due_def)
  with e' show ?thesis by (simp add: send_due_def)
qed (auto simp: eng_load_def split: if_splits)

lemma due_finish: "send_due e \<Longrightarrow> send_due (start_finish st e)"
  using due_same qview_start_finish has_send_finish by blast

lemma due_put_ca: "eng_put_ca r e = (rs, e') \<Longrightarrow> send_due e \<Longrightarrow> send_due e'"
  using due_same [of e e'] qview_put_ca [of r e] has_send_put_ca [of r e] by simp

lemma due_start:
  assumes "send_due e" "duer_engine_start d what obj e = Some (Some e')"
  shows "send_due e'"
proof (cases "baidu_ca_is_started (g_handler e)")
  case True
  with assms show ?thesis by (simp add: duer_engine_start_def)
next
  case False
  with assms(2) obtain st e1 where l: "eng_load d what obj e = Some (st, e1)"
    by (auto simp: duer_engine_start_def split: option.splits)
  have s1: "send_due e1" by (rule due_load [OF assms(1) l])
  show ?thesis
  proof (cases "st = DUER_ERR_PROFILE_INVALID")
    case True
    with assms(2) False l have "e' = start_finish DUER_ERR_PROFILE_INVALID e1" by (simp add: duer_engine_start_def)
    with due_finish [OF s1] show ?thesis by simp
  next
    case ok: False
    with assms(2) False l obtain rs e2 where s: "eng_ca_start d e1 = Some (Some (rs, e2))"
      and e': "e' = start_finish (start_status rs) e2"
      by (auto simp: duer_engine_start_def)
    have "send_due e2"
    proof (cases "g_handler e1")
      case None
      with s s1 show ?thesis by (simp add: eng_ca_start_def)
    next
      case (Some ctx)
      with s obtain r where "eng_put_ca r e1 = (rs, e2)" by (auto simp: eng_ca_start_def)
      with s1 due_put_ca show ?thesis by blast
    qed
    with due_finish e' show ?thesis by blast
  qed
qed

lemma due_data:
  assumes "send_due e" "duer_engine_data_available d e = Some (Some e')"
  shows "send_due e'"
proof -
  have fin: "send_due (data_finish b st v)" if "send_due v" for b st and v :: "'a eng"
    using due_same [OF that qview_data_finish] by (simp add: data_finish_def has_send_notify)
  show ?thesis
  proof (cases "baidu_ca_is_stopped (g_handler e)")
    case True
    with assms(2) have "e' = data_finish True DUER_OK e"
      by (auto simp: duer_engine_data_available_def baidu_ca_is_stopped_def split: option.splits)
    with fin [OF assms(1)] show ?thesis by simp
  next
    case False
    then obtain ctx where h: "g_handler e = Some ctx" by (auto simp: baidu_ca_is_stopped_def split: option.splits)
    with False assms(2) obtain r where
      e': "e' = (case eng_put_ca r e of (rs, e1) \<Rightarrow>
              data_finish (baidu_ca_is_started (Some ctx)) (data_status rs) e1)"
      by (auto simp: duer_engine_data_available_def)
    obtain rs e1 where r: "eng_put_ca r e = (rs, e1)" by (rule prod.exhaust)
    with due_put_ca [OF r assms(1)] e' fin show ?thesis by simp
  qed
qed

lemma due_stop: "send_due e \<Longrightarrow> send_due (duer_engine_stop what e)"
  using due_same qview_stop has_send_stop by blast

lemma due_notify: "send_due e \<Longrightarrow> send_due (duer_engine_notify event st e)"
  using due_same qview_notify has_send_notify by blast

lemma due_destroy: "g_notify_func e \<Longrightarrow> send_due (duer_engine_destroy e)"
proof -
  let ?e1 = "if g_timer e \<noteq> None then e\<lparr>g_timer := duer_timer_release (g_timer e)\<rparr> else e"
  let ?e2 = "if g_qcache_handler ?e1 \<noteq> None
             then (duer_engine_clear_data ?e1)\<lparr>g_qcache_handler := None\<rparr> else ?e1"
  have "qview (duer_engine_destroy e) = qview ?e2"
    by (simp add: duer_engine_destroy_def Let_def)
  then have "g_qcache_handler (duer_engine_destroy e) = None" by (simp add: qview_def split: if_splits)
  then show ?thesis by (simp add: send_due_def)
qed

text \<open>The next call of the task is a send and it fails or would block.\<close>

definition send_fails :: "'n sdk \<Rightarrow> 'n eng \<Rightarrow> bool" where
  "send_fails d e =
     (case g_events_handler e of
        Some (CallSend # q) \<Rightarrow>
          (case engine_send_body d (e\<lparr>g_events_handler := Some q\<rparr>) of
             Some (st, e1) \<Rightarrow> st \<noteq> DUER_OK
           | None \<Rightarrow> False)
      | _ \<Rightarrow> False)"

lemma due_call:
  assumes "send_due e" "g_notify_func e" "c \<noteq> CallSend" "run_call d c e = Some (Some e')"
  shows "send_due e'"
proof (cases c)
  case CallCreate
  with assms show ?thesis by (simp add: run_call_def due_create)
next
  case (CallStart what object)
  with assms show ?thesis by (simp add: run_call_def due_start)
next
  case (CallAddResources n rs)
  with assms(4) have "duer_engine_add_resources d n rs e = Some (Some e')" by (simp add: run_call_def)
  then obtain st ctx w where "e' = duer_engine_notify EVT_ADD_RESOURCES st (e\<lparr>g_handler := Some ctx, e_world := w\<rparr>)"
    by (auto simp: duer_engine_add_resources_def split: option.splits prod.splits)
  with due_notify [of "e\<lparr>g_handler := Some ctx, e_world := w\<rparr>"] assms(1) show ?thesis by (simp add: send_due_def)
next
  case CallDataAvailable
  with assms show ?thesis by (simp add: run_call_def due_data)
next
  case CallStop
  with assms(4) have "e' = duer_engine_stop DUER_OK e" by (simp add: run_call_def)
  with due_stop [OF assms(1)] show ?thesis by simp
next
  case CallDestroy
  with assms(4) have "e' = duer_engine_destroy e" by (simp add: run_call_def)
  with due_destroy [OF assms(2)] show ?thesis by simp
qed (use assms in simp)

lemma due_task:
  assumes "send_due e" "mem_spare e" "g_notify_func e" "task_run d e = Some (Some e')" "\<not> send_fails d e"
  shows "send_due e'"
proof (cases "\<exists>c q. g_events_handler e = Some (c # q)")
  case False
  with assms(1,4) show ?thesis by (auto simp: task_run_def split: option.splits list.splits)
next
  case True
  then obtain c q where q: "g_events_handler e = Some (c # q)" by blast
  let ?e = "e\<lparr>g_events_handler := Some q\<rparr>"
  have run: "run_call d c ?e = Some (Some e')" using assms(4) q by (simp add: task_run_def)
  show ?thesis
  proof (cases "c = CallSend")
    case True
    with run have "duer_engine_send d ?e = Some e'" by (simp add: run_call_def)
    moreover have "st = DUER_OK" if "engine_send_body d ?e = Some (st, e1)" for st e1
      using assms(5) q True that by (simp add: send_fails_def)
    ultimately show ?thesis using due_send [of d ?e e'] assms(2,3) by (simp add: mem_spare_def)
  next
    case False
    then have "send_due ?e" using assms(1) q by (auto simp: send_due_def has_send_def)
    from due_call [OF this _ False run] assms(3) show ?thesis by simp
  qed
qed

text \<open>C2: While allocations succeed, every operation and every callback keeps a queued message due to be
  sent, and so does the event task unless the send it runs fails or would block: reports and
  responses that are not interleaved lose no wake-up.\<close>

theorem engine_no_lost_wakeup:
  assumes "send_due e" "queue_account e" "w_mem (e_world e) = []"
    and "g_notify_func e \<and> g_events_handler e \<noteq> None"
    and "\<forall>j. a \<noteq> APush j" "a = ATask \<longrightarrow> \<not> send_fails d e"
    and "do_act d le a e = Some (Some e')"
  shows "send_due e'"
proof -
  have spare: "mem_spare e" using assms(3) by (simp add: mem_spare_def)
  show ?thesis
  proof (cases a)
    case AInitialize
    have "qview (duer_initialize e) = qview e"
      by (simp add: duer_initialize_def duer_engine_register_notify_def)
    moreover have "has_send e \<Longrightarrow> has_send (duer_initialize e)"
      using assms(4) by (auto simp: duer_initialize_def duer_engine_register_notify_def intro!: has_send_call)
    ultimately show ?thesis using AInitialize assms(1,7) due_same [of e e'] by simp
  next
    case (AReport j)
    with assms(1,7) spare show ?thesis by (auto intro: due_report)
  next
    case (ACheck rs)
    then have "qview e' = qview e" "has_send e \<Longrightarrow> has_send e'"
      using assms(7) by (auto simp: report_check_def duer_data_send_def has_send_call)
    with assms(1) due_same show ?thesis by blast
  next
    case (AResponse m code bs n)
    with assms(1,7) spare show ?thesis by (auto intro: due_response)
  next
    case (AStart s)
    have "has_send (e\<lparr>e_world := w\<rparr>) = has_send e" "qview (e\<lparr>e_world := w\<rparr>) = qview e" for w by simp_all
    then have "qview e' = qview e" "has_send e \<Longrightarrow> has_send e'"
      using assms(7) AStart by (auto simp: duer_start_def has_send_call)
    with assms(1) due_same show ?thesis by blast
  next
    case (AAddResources rs n)
    with assms(1,7) show ?thesis by (auto intro: due_add_resources)
  next
    case AStop
    with assms(7) have "e' = snd (duer_events_call_internal CallStop e)" by (simp add: duer_stop_def)
    with due_same [OF assms(1) qview_call has_send_call] show ?thesis by simp
  next
    case AFinalize
    with assms(7) have "e' = snd (duer_events_call_internal CallDestroy e)" by (simp add: duer_finalize_def)
    with due_same [OF assms(1) qview_call has_send_call] show ?thesis by simp
  next
    case ATimer
    show ?thesis
    proof (cases "baidu_ca_is_started (g_handler e)")
      case True
      have mem: "w_mem (e_world e) = []" by (rule assms(3))
      from True ATimer assms(7) mem obtain j rs where
        "duer_data_report d le j (e\<lparr>e_world := (e_world e)\<lparr>w_mem := []\<rparr>\<rparr>) = Some (rs, e')"
        by (auto simp: duer_timer_expired_def json_CreateObject_def json_New_Item_def json_AddNumberToObject_def
            json_CreateNumber_def json_AddItemToObject_def json_strdup_def)
      then show ?thesis by (rule due_report [rotated 2]) (use assms(1) in \<open>simp_all add: send_due_def mem_spare_def\<close>)
    next
      case False
      with ATimer assms(7) have "e' = duer_engine_notify EVT_START DUER_ERR_CONNECT_TIMEOUT e"
        by (simp add: duer_timer_expired_def)
      with due_notify [OF assms(1)] show ?thesis by simp
    qed
  next
    case (ATransport t)
    show ?thesis
    proof (cases "t = TEVT_SEND_TIMEOUT")
      case True
      let ?e = "duer_engine_notify EVT_SEND_DATA DUER_ERR_TRANS_TIMEOUT e"
      have "queue_account ?e" using assms(2) by (simp add: queue_account_qview [OF qview_notify])
      from account_clear_empty [OF this] have "lq_length (g_qcache_handler (duer_engine_clear_data ?e)) = 0"
        by (cases "g_qcache_handler ?e") (auto simp: duer_engine_clear_data_def)
      with True ATransport assms(7) show ?thesis by (simp add: duer_transport_notify_def send_due_def)
    next
      case False
      have "send_due (snd (duer_events_call_internal c e))" for c
        by (rule due_same [OF assms(1) qview_call has_send_call])
      with False ATransport assms(1,7) due_notify [OF assms(1)] show ?thesis
        by (cases t) (auto simp: duer_transport_notify_def duer_data_available_def duer_data_send_def)
    qed
  next
    case ATask
    with assms spare show ?thesis by (auto intro: due_task)
  qed (use assms(5) in simp)
qed

definition ready_eng :: "unit eng" where
  "ready_eng = (fresh_eng quiet_world [])\<lparr>g_handler := Some (fresh_ca\<lparr>ca_state := ST_STARTED\<rparr>),
     g_notify_func := True, g_qcache_handler := Some [], g_events_handler := Some []\<rparr>"

theorem engine_no_lost_wakeup_witness:
  "\<exists>e'. do_act strict_sdk True (AReport (Some (Json JObject None 0 []))) ready_eng = Some (Some e') \<and>
     lq_length (g_qcache_handler e') = 1 \<and> send_due e'"
proof -
  have "\<exists>e'. do_act strict_sdk True (AReport (Some (Json JObject None 0 []))) ready_eng = Some (Some e') \<and>
     lq_length (g_qcache_handler e') = 1"
    by (simp add: ready_eng_def fresh_eng_def duer_data_report_def duer_engine_enqueue_report_data_def
        report_payload_def json_CreateObject_def json_New_Item_def json_AddItemReferenceToObject_def
        json_AddItemToObject_def json_strdup_def strict_sdk_def baidu_ca_build_report_message_def
        queue_push_def report_check_def duer_engine_qcache_length_def duer_data_send_def
        duer_events_call_internal_def eng_log_def quiet_world_def Let_def)
  then obtain e' where e': "do_act strict_sdk True (AReport (Some (Json JObject None 0 []))) ready_eng = Some (Some e')"
    "lq_length (g_qcache_handler e') = 1" by blast
  have "send_due e'"
    by (rule engine_no_lost_wakeup [OF _ _ _ _ _ _ e'(1)])
      (simp_all add: send_due_def queue_account_def ready_eng_def fresh_eng_def quiet_world_def)
  with e' show ?thesis by blast
qed

theorem engine_messages_fifo_witness:
  "\<exists>e m. run_acts strict_sdk True [AInitialize, ATask, AReport (Some (Json JObject None 0 []))]
       (fresh_eng quiet_world []) = Some (Some (e :: unit eng)) \<and>
     g_qcache_handler e = Some [Some m] \<and> queued_msgs (e_log e) = left_msgs (e_log e) @ [m]"
proof -
  have "\<exists>e m. run_acts strict_sdk True [AInitialize, ATask, AReport (Some (Json JObject None 0 []))]
       (fresh_eng quiet_world []) = Some (Some (e :: unit eng)) \<and> g_qcache_handler e = Some [Some m]"
    by (simp add: fresh_eng_def duer_initialize_def duer_engine_register_notify_def duer_events_call_internal_def
        task_run_def run_call_def duer_engine_create_def eng_create_handler_def eng_create_queue_def
        eng_create_mutex_def eng_create_timer_def duer_timer_acquire_def baidu_ca_acquire_def
        duer_engine_notify_def duer_engine_notify_callback_def notify_switch_def
        duer_data_report_def duer_engine_enqueue_report_data_def
        report_payload_def json_CreateObject_def json_New_Item_def json_AddItemReferenceToObject_def
        json_AddItemToObject_def json_strdup_def strict_sdk_def baidu_ca_build_report_message_def
        queue_push_def report_check_def duer_engine_qcache_length_def duer_data_send_def
        eng_log_def quiet_world_def Let_def)
  then obtain e :: "unit eng" and m where e: "run_acts strict_sdk True [AInitialize, ATask, AReport (Some (Json JObject None 0 []))]
       (fresh_eng quiet_world []) = Some (Some e)" "g_qcache_handler e = Some [Some m]" by blast
  from engine_messages_fifo [OF e(1)] e(2) have "queued_msgs (e_log e) = left_msgs (e_log e) @ [m]" by auto
  with e show ?thesis by blast
qed

end
