(* ===== verification/DcsMedia.thy ===== *)
theory DcsMedia
  imports DcsRouter EngineFlow
begin

text \<open>
  What holds of speech and audio over sequences of the service's operations: they never play at the
  same time, the player plays the head of its queue, and a playlist is played in its order. The
  operations are the steps of a relation; between them the engine and the application's state can
  change in any way.
\<close>

section \<open>What the operations leave alone\<close>

fun is_play :: "dcs_eff \<Rightarrow> bool" where
  "is_play (EffAudioPlay u) = True"
| "is_play (EffAudioSeek u n) = True"
| "is_play x = False"

definition mview ::
  "'n dcs \<Rightarrow> speech_st \<times> play_item lqueue \<times> string option \<times> play_st \<times> int \<times> dcs_eff list" where
  "mview s = (vo_state s, ap_queue s, ap_latest_token s, ap_state s, ap_offset s, filter is_play (dc_log s))"

lemma mview_set_mem [simp]: "mview (dcs_set_mem m s) = mview s"
  by (simp add: dcs_set_mem_def mview_def)

lemma set_mem_sel [simp]:
  "ap_queue (dcs_set_mem m s) = ap_queue s" "ap_state (dcs_set_mem m s) = ap_state s"
  "ap_offset (dcs_set_mem m s) = ap_offset s" "ap_latest_token (dcs_set_mem m s) = ap_latest_token s"
  "vo_state (dcs_set_mem m s) = vo_state s" "dc_log (dcs_set_mem m s) = dc_log s"
  "vi_multiple (dcs_set_mem m s) = vi_multiple s" "dcs_mem (dcs_set_mem m s) = m"
  "vo_latest_token (dcs_set_mem m s) = vo_latest_token s" "rt_list (dcs_set_mem m s) = rt_list s"
  "rt_count (dcs_set_mem m s) = rt_count s" "dc_pause_offset (dcs_set_mem m s) = dc_pause_offset s"
  by (simp_all add: dcs_set_mem_def dcs_mem_def)

lemma dcs_do_sel [simp]:
  "ap_queue (dcs_do x s) = ap_queue s" "ap_state (dcs_do x s) = ap_state s"
  "ap_offset (dcs_do x s) = ap_offset s" "ap_latest_token (dcs_do x s) = ap_latest_token s"
  "vo_state (dcs_do x s) = vo_state s" "dc_log (dcs_do x s) = dc_log s @ [x]"
  "vi_multiple (dcs_do x s) = vi_multiple s" "dcs_mem (dcs_do x s) = dcs_mem s"
  "vo_latest_token (dcs_do x s) = vo_latest_token s" "dc_pause_offset (dcs_do x s) = dc_pause_offset s"
  by (simp_all add: dcs_do_def dcs_mem_def)

lemma dcs_mem_update [simp]:
  "dcs_mem (s\<lparr>ap_state := a\<rparr>) = dcs_mem s" "dcs_mem (s\<lparr>vo_state := v\<rparr>) = dcs_mem s"
  "dcs_mem (s\<lparr>ap_offset := n\<rparr>) = dcs_mem s" "dcs_mem (s\<lparr>ap_latest_token := t\<rparr>) = dcs_mem s"
  "dcs_mem (s\<lparr>vo_latest_token := t\<rparr>) = dcs_mem s" "dcs_mem (s\<lparr>vi_multiple := b\<rparr>) = dcs_mem s"
  "dcs_mem (s\<lparr>vi_listening := b\<rparr>) = dcs_mem s" "dcs_mem (s\<lparr>vi_timer := x\<rparr>) = dcs_mem s"
  "dcs_mem (s\<lparr>dc_request_id := r\<rparr>) = dcs_mem s" "dcs_mem (s\<lparr>sy_last_activity := n\<rparr>) = dcs_mem s"
  "dcs_mem (s\<lparr>sy_timer := x\<rparr>) = dcs_mem s"
  by (simp_all add: dcs_mem_def)

text \<open>\<open>same_media\<close>: an operation that only reports or registers.\<close>

definition same_media :: "'n dcs \<Rightarrow> 'n dcs \<Rightarrow> bool" where
  "same_media s s' \<longleftrightarrow> mview s' = mview s \<and> (dcs_mem s = [] \<longrightarrow> dcs_mem s' = [])"

lemma same_media_refl [simp]: "same_media s s"
  by (simp add: same_media_def)

lemma same_media_trans: "same_media s s1 \<Longrightarrow> same_media s1 s2 \<Longrightarrow> same_media s s2"
  by (simp add: same_media_def)

lemma report_mem:
  assumes "duer_data_report d le j e = Some (rs, e')" "w_mem (e_world e) = []"
  shows "w_mem (e_world e') = []"
proof -
  obtain e1 where q: "duer_engine_enqueue_report_data d le j e = Some (rs, e1)" and e': "e' = report_check rs e1"
    using assms(1) by (auto simp: duer_data_report_def)
  have "mem_spare e1" using enqueue_report_frame [OF q] frame_due(2) assms(2) by (auto simp: mem_spare_def)
  with e' show ?thesis
    by (auto simp: report_check_def duer_data_send_def duer_events_call_internal_def mem_spare_def split: option.split)
qed

lemma data_report_media:
  assumes "dcs_data_report d le data s = Some (rs, s')"
  shows "same_media s s'"
proof -
  obtain e where e: "duer_data_report d le (Some data) (dc_eng s) = Some (rs, e)"
    "s' = dcs_do (EffReport data) (s\<lparr>dc_eng := e\<rparr>)"
    using assms by (auto simp: dcs_data_report_def split: option.splits)
  with report_mem [OF e(1)] show ?thesis
    by (simp add: same_media_def mview_def dcs_do_def dcs_mem_def)
qed

text \<open>Allocations use nothing up when there is enough memory.\<close>

lemma json_mem:
  "snd (json_AddStringToObject o1 k v []) = []" "snd (json_AddNumberToObject o1 k n []) = []"
  "snd (json_AddBoolToObject o1 k b []) = []" "snd (json_AddItemToObject o1 k it []) = []"
  "snd (json_CreateObject []) = []" "snd (json_CreateArray []) = []" "snd (json_strdup v []) = []"
  by (auto simp: json_AddStringToObject_def json_AddNumberToObject_def json_AddBoolToObject_def
      json_AddItemToObject_def json_CreateString_def json_CreateNumber_def json_CreateBool_def
      json_CreateObject_def json_CreateArray_def json_New_Item_def json_strdup_def split: option.split)

lemma json_mem_eq:
  "json_AddStringToObject o1 k v [] = (x, m) \<Longrightarrow> m = []" "json_AddNumberToObject o1 k n [] = (x, m) \<Longrightarrow> m = []"
  "json_AddBoolToObject o1 k b [] = (x, m) \<Longrightarrow> m = []" "json_AddItemToObject o1 k it [] = (x, m) \<Longrightarrow> m = []"
  "json_CreateObject [] = (y, m) \<Longrightarrow> m = []" "json_CreateArray [] = (y, m) \<Longrightarrow> m = []"
  "json_strdup v [] = (z, m) \<Longrightarrow> m = []"
  by (metis json_mem snd_conv)+

definition keeps_mem :: "(json \<Rightarrow> mem \<Rightarrow> json \<times> mem) \<Rightarrow> bool" where
  "keeps_mem f \<longleftrightarrow> (\<forall>p. snd (f p []) = [])"

lemma update_child_mem: "keeps_mem f \<Longrightarrow> update_child cs key f [] = Some (cs', m) \<Longrightarrow> m = []"
proof (induction cs arbitrary: cs')
  case (Cons c cs)
  obtain n j where c: "c = (n, j)" by (rule prod.exhaust)
  obtain j1 m1 where f: "f j [] = (j1, m1)" by (rule prod.exhaust)
  have "m1 = []" using Cons.prems(1) f by (metis keeps_mem_def snd_conv)
  with Cons f c show ?case by (auto split: if_splits)
qed simp

lemma with_item_mem: "keeps_mem f \<Longrightarrow> with_item key f obj [] = Some (j, m) \<Longrightarrow> m = []"
  by (auto simp: with_item_def dest: update_child_mem)

lemma create_event_mem: "duer_create_dcs_event ns name i [] = (x, m) \<Longrightarrow> m = []"
proof -
  have h: "snd (dcs_header ns name i h []) = []" for h
    by (auto simp: dcs_header_def split: prod.split option.split dest!: json_mem_eq)
       (metis json_mem(1) snd_conv)
  assume "duer_create_dcs_event ns name i [] = (x, m)"
  then show ?thesis
    using h by (auto simp: duer_create_dcs_event_def Let_def split: prod.splits option.splits dest!: json_mem_eq)
      (metis json_mem snd_conv)+
qed

lemma keeps_mem_fills:
  "keeps_mem (fill_token t)" "keeps_mem (fill_token_offset t)" "keeps_mem (fill_play_state tk a)"
  "keeps_mem (\<lambda>p m. json_AddNumberToObject p k n m)" "keeps_mem (\<lambda>p m. json_AddStringToObject p k v m)"
  by (simp_all add: keeps_mem_def fill_token_def fill_token_offset_def fill_play_state_def json_mem
      split: prod.split) (auto dest!: json_mem_eq simp: json_mem)

lemma keeps_mem_volume: "keeps_mem (\<lambda>p m. let (p1, m1) = json_AddNumberToObject p k n m in json_AddBoolToObject p1 l b m1)"
  by (auto simp: keeps_mem_def json_mem split: prod.split dest!: json_mem_eq)

lemma state_event_mem: "keeps_mem f \<Longrightarrow> snd (dcs_state_event ns name f []) = []"
  by (auto simp: dcs_state_event_def split: prod.split option.split dest!: create_event_mem dest: with_item_mem)

lemma all_alert_mem: "snd (duer_dcs_get_all_alert as arr []) = []"
proof (induction as arbitrary: arr)
  case (Cons a as)
  obtain tk ty ti where a: "a = (tk, ty, ti)" by (rule prod_cases3)
  obtain arr1 m1 where r: "duer_dcs_report_alert arr (Some tk) (Some ty) (Some ti) [] = (arr1, m1)" by (rule prod.exhaust)
  then have "m1 = []"
    by (auto simp: duer_dcs_report_alert_def Let_def split: prod.splits option.splits dest!: json_mem_eq)
  with Cons r a show ?case by simp
qed simp

lemma alert_state_mem: "snd (duer_get_alert_state_internal s []) = []"
proof -
  let ?f = "\<lambda>arr p m. let (p1, m3) = json_AddItemToObject p ''allAlerts'' (Some arr) m;
                     (arr1, m4) = duer_dcs_get_all_alert (dc_alerts s) arr m3 in (put_last p1 arr1, m4)"
  have "keeps_mem (?f arr)" for arr
    unfolding keeps_mem_def
  proof
    fix p
    obtain p1 m3 where a: "json_AddItemToObject p ''allAlerts'' (Some arr) [] = (p1, m3)" by (rule prod.exhaust)
    then have "m3 = []" by (rule json_mem_eq)
    obtain arr1 m4 where b: "duer_dcs_get_all_alert (dc_alerts s) arr [] = (arr1, m4)" by (rule prod.exhaust)
    then have "m4 = []" by (metis all_alert_mem snd_conv)
    with a b \<open>m3 = []\<close> show "snd (?f arr p []) = []" by simp
  qed
  then show ?thesis
    by (auto simp: duer_get_alert_state_internal_def split: prod.split option.split
        dest!: create_event_mem json_mem_eq dest: with_item_mem)
qed

lemma states_mem:
  "snd (duer_get_playback_state_internal s []) = []" "snd (duer_get_speech_state_internal s []) = []"
  "snd (duer_get_speak_control_state_internal s []) = []"
  using state_event_mem [OF keeps_mem_volume]
  by (simp_all add: duer_get_playback_state_internal_def duer_get_speech_state_internal_def
      duer_get_speak_control_state_internal_def state_event_mem keeps_mem_fills)

lemma context_mem: "snd (duer_get_client_context_internal s []) = []"
proof -
  obtain c m1 where c: "json_CreateArray [] = (c, m1)" by (rule prod.exhaust)
  then have m1: "m1 = []" by (rule json_mem_eq)
  obtain a m2 where a: "duer_get_alert_state_internal s [] = (a, m2)" by (rule prod.exhaust)
  then have m2: "m2 = []" by (metis alert_state_mem snd_conv)
  obtain p m3 where p: "duer_get_playback_state_internal s [] = (p, m3)" by (rule prod.exhaust)
  then have m3: "m3 = []" by (metis states_mem(1) snd_conv)
  obtain v m4 where v: "duer_get_speak_control_state_internal s [] = (v, m4)" by (rule prod.exhaust)
  then have m4: "m4 = []" by (metis states_mem(3) snd_conv)
  obtain w m5 where w: "duer_get_speech_state_internal s [] = (w, m5)" by (rule prod.exhaust)
  then have m5: "m5 = []" by (metis states_mem(2) snd_conv)
  show ?thesis
    using c a p v w m1 m2 m3 m4 m5 by (cases c) (simp_all add: duer_get_client_context_internal_def)
qed

definition fill_keeps :: "event_fill \<Rightarrow> bool" where
  "fill_keeps fill \<longleftrightarrow> (\<forall>ev r m. fill ev [] = Some (r, m) \<longrightarrow> m = [])"

lemma fill_keeps_intros:
  "fill_keeps no_fill" "keeps_mem f \<Longrightarrow> fill_keeps (payload_fill f)"
  by (auto simp: fill_keeps_def no_fill_def payload_fill_def split: option.splits dest: with_item_mem)

lemma build_mem:
  assumes "dcs_build ns name ctx fill [] = Some (r, m)" "fill_keeps fill"
    and "\<And>get. ctx = Some get \<Longrightarrow> snd (get []) = []"
  shows "m = []"
proof -
  obtain data m1 where d: "json_CreateObject [] = (data, m1)" by (rule prod.exhaust)
  then have m1: "m1 = []" by (rule json_mem_eq)
  show ?thesis
  proof (cases data)
    case None
    with assms(1) d m1 show ?thesis by (simp add: dcs_build_def)
  next
    case (Some dt)
    obtain data1 m2 where c: "(case ctx of None \<Rightarrow> (dt, []) | Some get \<Rightarrow>
        (let (c, m') = get [] in json_AddItemToObject dt ''clientContext'' c m')) = (data1, m2)" by (rule prod.exhaust)
    have m2: "m2 = []"
    proof (cases ctx)
      case None
      with c m1 show ?thesis by simp
    next
      case (Some get)
      obtain cc m' where g: "get [] = (cc, m')" by (rule prod.exhaust)
      then have "m' = []" using assms(3) [OF Some] by simp
      with c Some g m1 show ?thesis by (auto dest: json_mem_eq)
    qed
    obtain ev m3 where e: "duer_create_dcs_event ns name None [] = (ev, m3)" by (rule prod.exhaust)
    then have m3: "m3 = []" by (rule create_event_mem)
    show ?thesis
    proof (cases ev)
      case None
      with assms(1) d Some m1 c m2 e m3 show ?thesis by (simp add: dcs_build_def)
    next
      case ev: (Some event)
      obtain data2 m4 where a: "json_AddItemToObject data1 ''event'' (Some event) [] = (data2, m4)" by (rule prod.exhaust)
      then have m4: "m4 = []" by (rule json_mem_eq)
      have "\<exists>q. fill event [] = Some (q, m)"
        using assms(1) d Some m1 c m2 e m3 ev a m4 by (auto simp: dcs_build_def split: option.splits prod.splits)
      with assms(2) show ?thesis by (auto simp: fill_keeps_def)
    qed
  qed
qed

lemma report_media:
  assumes "dcs_report d le check ns name ctx fill s = Some (rs, s')" "fill_keeps fill"
    and "\<And>get. ctx = Some get \<Longrightarrow> snd (get []) = []"
  shows "same_media s s'"
proof -
  obtain r m where b: "dcs_build ns name ctx fill (dcs_mem s) = Some (r, m)"
    using assms(1) by (auto simp: dcs_report_def split: option.splits)
  have keep: "same_media s (dcs_set_mem m s)"
  proof (cases "dcs_mem s = []")
    case True
    with b have "dcs_build ns name ctx fill [] = Some (r, m)" by simp
    then have "m = []" by (rule build_mem) (use assms(2,3) in auto)
    then show ?thesis by (simp add: same_media_def)
  qed (simp add: same_media_def)
  show ?thesis
  proof (cases r)
    case None
    with assms(1) b keep show ?thesis by (simp add: dcs_report_def)
  next
    case (Some data)
    with assms(1) b obtain rs1 where "dcs_data_report d le data (dcs_set_mem m s) = Some (rs1, s')"
      by (auto simp: dcs_report_def split: option.splits)
    with keep data_report_media same_media_trans show ?thesis by blast
  qed
qed

section \<open>Speech and audio\<close>

text \<open>What the player's own operations keep: no audio under speech.\<close>

definition exclusive :: "'n dcs \<Rightarrow> bool" where
  "exclusive s \<longleftrightarrow> (vo_state s = SPEECH_PLAYING \<longrightarrow> ap_state s \<noteq> PLAYING)"

definition played_url :: "dcs_eff list \<Rightarrow> string option" where
  "played_url log =
     (case rev (filter is_play log) of
        EffAudioPlay u # xs \<Rightarrow> Some u
      | EffAudioSeek u n # xs \<Rightarrow> Some u
      | _ \<Rightarrow> None)"

definition on_head :: "'n dcs \<Rightarrow> bool" where
  "on_head s \<longleftrightarrow>
     (case lq_top (ap_queue s) of
        None \<Rightarrow> False
      | Some i \<Rightarrow> ap_latest_token s = Some (pi_token i) \<and> played_url (dc_log s) = Some (pi_url i))"

text \<open>
  A player that is playing plays the head of its queue, under the head's token; one that is paused
  has a head to resume, and one that was paused in the middle of an item has that item as its head.
\<close>

definition plays_head :: "'n dcs \<Rightarrow> bool" where
  "plays_head s \<longleftrightarrow>
     (case ap_state s of
        PLAYING \<Rightarrow> on_head s
      | PAUSED \<Rightarrow> lq_top (ap_queue s) \<noteq> None \<and> (ap_offset s = 0 \<or> on_head s)
      | _ \<Rightarrow> True)"

lemma same_media_keeps:
  assumes "same_media s s'"
  shows "exclusive s' = exclusive s" "on_head s' = on_head s" "plays_head s' = plays_head s"
    "ap_queue s' = ap_queue s" "ap_state s' = ap_state s" "vo_state s' = vo_state s"
    "ap_offset s' = ap_offset s" "ap_latest_token s' = ap_latest_token s"
    "filter is_play (dc_log s') = filter is_play (dc_log s)" "dcs_mem s = [] \<Longrightarrow> dcs_mem s' = []"
  using assms
  by (simp_all add: same_media_def mview_def exclusive_def on_head_def plays_head_def played_url_def
      split: option.split play_st.split)

lemma play_event_media:
  assumes "duer_dcs_report_play_event d le type s = Some (rs, s')" shows "same_media s s'"
proof (cases "type \<noteq> PLAY_QUEUE_CLEARED \<and> ap_latest_token s = None")
  case True
  with assms show ?thesis by (simp add: duer_dcs_report_play_event_def)
next
  case False
  with assms have "dcs_report d le True ''ai.dueros.device_interface.audio_player'' (audio_event_name type) None
      (if type = PLAY_QUEUE_CLEARED then no_fill
       else payload_fill (fill_token_offset (token_or_empty (ap_latest_token s)))) s = Some (rs, s')"
    by (simp add: duer_dcs_report_play_event_def)
  then show ?thesis
    by (rule report_media) (auto simp: fill_keeps_intros keeps_mem_fills)
qed

lemma speech_event_media:
  assumes "duer_report_speech_event d le name s = Some (rs, s')" shows "same_media s s'"
proof (cases "vo_latest_token s")
  case None
  with assms show ?thesis by (simp add: duer_report_speech_event_def)
next
  case (Some t)
  with assms have "dcs_report d le False ''ai.dueros.device_interface.voice_output'' name None
      (payload_fill (fill_token t)) s = Some (rs, s')"
    by (simp add: duer_report_speech_event_def)
  then show ?thesis
    by (rule report_media) (auto simp: fill_keeps_intros keeps_mem_fills)
qed

lemma strdup_mem [simp]: "duer_strdup_internal (Some t) [] = (Some t, [])"
  by (simp add: duer_strdup_internal_def json_strdup_def)

lemma played_url_snoc [simp]:
  "played_url (l @ [EffAudioPlay u]) = Some u" "played_url (l @ [EffAudioSeek u n]) = Some u"
  by (simp_all add: played_url_def)

text \<open>Starting to play brings both about, whatever the state was.\<close>

lemma start_play:
  assumes "duer_start_audio_play d le s = Some s'"
  shows "exclusive s'" "ap_queue s' = ap_queue s" "vo_state s' = vo_state s"
    "dcs_mem s = [] \<Longrightarrow> dcs_mem s' = []" "dcs_mem s = [] \<Longrightarrow> plays_head s'"
proof -
  have "exclusive s' \<and> ap_queue s' = ap_queue s \<and> vo_state s' = vo_state s \<and>
    (dcs_mem s = [] \<longrightarrow> dcs_mem s' = [] \<and> plays_head s')"
  proof (cases "lq_top (ap_queue s)")
    case None
    with assms show ?thesis
      by (auto simp: duer_start_audio_play_def exclusive_def plays_head_def dcs_mem_def)
  next
    case (Some i)
    show ?thesis
    proof (cases "vo_state s = SPEECH_PLAYING")
      case True
      with assms Some show ?thesis
        by (auto simp: duer_start_audio_play_def exclusive_def plays_head_def dcs_mem_def
            duer_speech_need_play_internal_def)
    next
      case False
      obtain t m where t: "duer_strdup_internal (Some (pi_token i)) (dcs_mem s) = (t, m)" by (rule prod.exhaust)
      let ?s1 = "(dcs_set_mem m s)\<lparr>ap_state := PLAYING, ap_latest_token := t\<rparr>"
      obtain rs s2 where r: "duer_dcs_report_play_event d le PLAY_STARTTED ?s1 = Some (rs, s2)"
        and s': "s' = dcs_do (EffAudioPlay (pi_url i)) s2"
        using assms Some False t
        by (auto simp: duer_start_audio_play_def duer_speech_need_play_internal_def split: option.splits)
      note k = same_media_keeps [OF play_event_media [OF r]]
      have m: "dcs_mem ?s1 = m" by (simp add: dcs_mem_def dcs_set_mem_def)
      show ?thesis
        using k m t Some False unfolding s'
        by (auto simp: exclusive_def plays_head_def on_head_def)
    qed
  qed
  then show "exclusive s'" "ap_queue s' = ap_queue s" "vo_state s' = vo_state s"
    "dcs_mem s = [] \<Longrightarrow> dcs_mem s' = []" "dcs_mem s = [] \<Longrightarrow> plays_head s'" by auto
qed

section \<open>The media operations\<close>

text \<open>Enough memory, and no \<^verbatim>\<open>NULL\<close> item in the queue.\<close>

definition clean :: "'n dcs \<Rightarrow> bool" where
  "clean s \<longleftrightarrow> dcs_mem s = [] \<and> (case ap_queue s of None \<Rightarrow> True | Some xs \<Rightarrow> None \<notin> set xs)"

definition media_step :: "'n dcs \<Rightarrow> 'n dcs \<Rightarrow> bool" where
  "media_step s s' \<longleftrightarrow>
     (exclusive s \<longrightarrow> exclusive s') \<and> (clean s \<longrightarrow> dcs_mem s' = [] \<and> (plays_head s \<longrightarrow> plays_head s'))"

lemma media_step_refl [simp]: "media_step s s"
  by (simp add: media_step_def clean_def)

lemma same_media_clean: "same_media s s' \<Longrightarrow> clean s \<Longrightarrow> clean s'"
  using same_media_keeps [of s s'] by (simp add: clean_def)

lemma same_media_step: "same_media s s' \<Longrightarrow> media_step s s'"
  using same_media_keeps [of s s'] by (simp add: media_step_def clean_def)

lemma media_step_after: "same_media s s1 \<Longrightarrow> media_step s1 s' \<Longrightarrow> media_step s s'"
  using same_media_keeps [of s s1] same_media_clean by (auto simp: media_step_def)

lemma media_step_before: "media_step s s1 \<Longrightarrow> same_media s1 s' \<Longrightarrow> media_step s s'"
  using same_media_keeps [of s1 s'] by (auto simp: media_step_def)

lemma media_step_trans: "media_step s s1 \<Longrightarrow> (clean s \<Longrightarrow> clean s1) \<Longrightarrow> media_step s1 s' \<Longrightarrow> media_step s s'"
  by (auto simp: media_step_def)

lemma start_play_step: "duer_start_audio_play d le s = Some s' \<Longrightarrow> (clean s0 \<Longrightarrow> dcs_mem s = []) \<Longrightarrow> media_step s0 s'"
  using start_play [of d le s s'] by (auto simp: media_step_def)

lemma play_item_mem: "duer_create_play_item url token [] = (i, m) \<Longrightarrow> m = []"
  by (auto simp: duer_create_play_item_def json_strdup_def split: option.splits)

lemma empty_items_no_null: "None \<notin> set xs \<Longrightarrow> empty_items xs = []"
  by (induction xs rule: empty_items.induct) auto

lemma ap_push_keeps:
  "ap_state (ap_push i s) = ap_state s" "vo_state (ap_push i s) = vo_state s" "ap_offset (ap_push i s) = ap_offset s"
  "ap_latest_token (ap_push i s) = ap_latest_token s" "dc_log (ap_push i s) = dc_log s"
  "dcs_mem s = [] \<Longrightarrow> dcs_mem (ap_push i s) = []"
  "dcs_mem s = [] \<Longrightarrow> ap_queue (ap_push i s) = map_option (\<lambda>xs. xs @ [i]) (ap_queue s)"
  by (auto simp: ap_push_def dcs_mem_def dcs_set_mem_def split: option.split prod.split)

lemma ap_pop_keeps:
  "ap_state (snd (ap_pop s)) = ap_state s" "vo_state (snd (ap_pop s)) = vo_state s"
  "ap_offset (snd (ap_pop s)) = ap_offset s" "ap_latest_token (snd (ap_pop s)) = ap_latest_token s"
  "dc_log (snd (ap_pop s)) = dc_log s" "dcs_mem (snd (ap_pop s)) = dcs_mem s"
  "ap_queue (snd (ap_pop s)) = map_option tl (ap_queue s)" "fst (ap_pop s) = lq_top (ap_queue s)"
  by (auto simp: ap_pop_def dcs_mem_def lq_pop_def lq_top_def split: option.split prod.split list.split)

lemma empty_queue_keeps [simp]:
  "ap_state (duer_empty_play_queue s) = ap_state s" "vo_state (duer_empty_play_queue s) = vo_state s"
  "ap_offset (duer_empty_play_queue s) = ap_offset s" "ap_latest_token (duer_empty_play_queue s) = ap_latest_token s"
  "dc_log (duer_empty_play_queue s) = dc_log s" "dcs_mem (duer_empty_play_queue s) = dcs_mem s"
  "ap_queue (duer_empty_play_queue s) = map_option empty_items (ap_queue s)"
  by (simp_all add: duer_empty_play_queue_def dcs_mem_def)

lemma in_tl: "None \<notin> set xs \<Longrightarrow> None \<notin> set (tl xs)"
  by (cases xs) auto

text \<open>Two states with the same player: the queues have the same head.\<close>

lemma plays_head_cong:
  assumes "ap_state s' = ap_state s" "ap_offset s' = ap_offset s" "ap_latest_token s' = ap_latest_token s"
    "played_url (dc_log s') = played_url (dc_log s)"
    "lq_top (ap_queue s) \<noteq> None \<Longrightarrow> lq_top (ap_queue s') = lq_top (ap_queue s)" "plays_head s"
  shows "plays_head s'"
  using assms by (cases "lq_top (ap_queue s)") (auto simp: plays_head_def on_head_def split: play_st.splits)

lemma keep_head_step:
  assumes "ap_state s' = ap_state s" "ap_offset s' = ap_offset s" "ap_latest_token s' = ap_latest_token s"
    "played_url (dc_log s') = played_url (dc_log s)" "vo_state s' = vo_state s"
    "clean s \<Longrightarrow> dcs_mem s' = []"
    "clean s \<Longrightarrow> lq_top (ap_queue s) \<noteq> None \<Longrightarrow> lq_top (ap_queue s') = lq_top (ap_queue s)"
  shows "media_step s s'"
  unfolding media_step_def
  using assms plays_head_cong [OF assms(1-4)] by (auto simp: exclusive_def)

text \<open>Emptying the queue behind the head.\<close>

definition keep_only_head :: "'n dcs \<Rightarrow> 'n dcs" where
  "keep_only_head s = (let (head, s1) = ap_pop s in ap_push head (duer_empty_play_queue s1))"

lemma keep_only_head:
  "ap_state (keep_only_head s) = ap_state s" "ap_offset (keep_only_head s) = ap_offset s"
  "ap_latest_token (keep_only_head s) = ap_latest_token s" "dc_log (keep_only_head s) = dc_log s"
  "vo_state (keep_only_head s) = vo_state s"
  "dcs_mem s = [] \<Longrightarrow> dcs_mem (keep_only_head s) = []"
  "clean s \<Longrightarrow> ap_queue (keep_only_head s) = map_option (\<lambda>xs. [lq_top (Some xs)]) (ap_queue s)"
proof -
  have k: "keep_only_head s = ap_push (fst (ap_pop s)) (duer_empty_play_queue (snd (ap_pop s)))"
    by (simp add: keep_only_head_def case_prod_beta)
  show "ap_state (keep_only_head s) = ap_state s" "ap_offset (keep_only_head s) = ap_offset s"
    "ap_latest_token (keep_only_head s) = ap_latest_token s" "dc_log (keep_only_head s) = dc_log s"
    "vo_state (keep_only_head s) = vo_state s" "dcs_mem s = [] \<Longrightarrow> dcs_mem (keep_only_head s) = []"
    by (simp_all add: k ap_push_keeps ap_pop_keeps)
  show "clean s \<Longrightarrow> ap_queue (keep_only_head s) = map_option (\<lambda>xs. [lq_top (Some xs)]) (ap_queue s)"
    using empty_items_no_null [OF in_tl]
    by (cases "ap_queue s") (auto simp: k ap_push_keeps ap_pop_keeps clean_def)
qed

lemma replace_play_queue_step:
  assumes "duer_replace_play_queue d le url token s = Some s'" shows "media_step s s'"
proof -
  let ?s2 = "duer_empty_play_queue (if ap_state s = PLAYING then dcs_do EffAudioStop s else s)"
  obtain i m where i: "duer_create_play_item url token (dcs_mem ?s2) = (i, m)" by (rule prod.exhaust)
  with assms have "duer_start_audio_play d le (ap_push i (dcs_set_mem m ?s2)) = Some s'"
    by (simp add: duer_replace_play_queue_def Let_def)
  then show ?thesis
    by (rule start_play_step) (use i play_item_mem [of url token i m] in \<open>auto simp: clean_def ap_push_keeps split: if_splits\<close>)
qed

text \<open>Appending an item and starting to play when nothing is left to play.\<close>

lemma append_item_step:
  assumes "(if ap_state s2 = FINISHED then duer_start_audio_play d le s2 else Some s2) = Some s'"
    and "s2 = ap_push i (dcs_set_mem m s1)"
    and "duer_create_play_item url token (dcs_mem s1) = (i, m)"
  shows "media_step s1 s'"
proof -
  have m: "clean s1 \<Longrightarrow> m = []" using assms(3) play_item_mem [of url token i m] by (simp add: clean_def)
  show ?thesis
  proof (cases "ap_state s2 = FINISHED")
    case True
    with assms(1) have "duer_start_audio_play d le s2 = Some s'" by simp
    then show ?thesis
      by (rule start_play_step) (use m assms(2) in \<open>simp add: ap_push_keeps\<close>)
  next
    case False
    with assms(1) have "s' = s2" by simp
    then show ?thesis
      using m unfolding assms(2)
      by (intro keep_head_step) (auto simp: ap_push_keeps lq_top_def split: option.splits list.splits)
  qed
qed

lemma enqueue_step:
  assumes "duer_enqueue_play_item d le url token s = Some s'" shows "media_step s s'"
proof -
  obtain i m where i: "duer_create_play_item url token (dcs_mem s) = (i, m)" by (rule prod.exhaust)
  with assms show ?thesis
    by (intro append_item_step [OF _ refl i]) (simp add: duer_enqueue_play_item_def Let_def)
qed

lemma keep_only_head_top:
  "clean s \<Longrightarrow> lq_top (ap_queue s) \<noteq> None \<Longrightarrow> lq_top (ap_queue (keep_only_head s)) = lq_top (ap_queue s)"
  by (cases "ap_queue s") (auto simp: keep_only_head)

lemma keep_only_head_mem: "clean s \<Longrightarrow> dcs_mem (keep_only_head s) = []"
  by (simp add: clean_def keep_only_head)

lemma keep_only_head_step: "media_step s (keep_only_head s)"
  by (rule keep_head_step) (simp_all add: keep_only_head(1-5) keep_only_head_top keep_only_head_mem)

lemma replace_enqueued_step:
  assumes "duer_replace_enqueued_item d le url token s = Some s'" shows "media_step s s'"
proof -
  let ?s2 = "keep_only_head s"
  obtain i m where i: "duer_create_play_item url token (dcs_mem ?s2) = (i, m)" by (rule prod.exhaust)
  let ?s3 = "ap_push i (dcs_set_mem m ?s2)"
  have e: "(if ap_state ?s3 = FINISHED then duer_start_audio_play d le ?s3 else Some ?s3) = Some s'"
  proof -
    have "duer_replace_enqueued_item d le url token s =
      (let s2 = keep_only_head s; (item, m) = duer_create_play_item url token (dcs_mem s2);
           s3 = ap_push item (dcs_set_mem m s2)
       in if ap_state s3 = FINISHED then duer_start_audio_play d le s3 else Some s3)"
      by (simp add: duer_replace_enqueued_item_def keep_only_head_def Let_def case_prod_beta)
    with assms i show ?thesis by (simp add: Let_def split: if_splits)
  qed
  have m: "clean s \<Longrightarrow> m = []"
    using i play_item_mem [of url token i m] by (simp add: clean_def keep_only_head)
  show ?thesis
  proof (cases "ap_state ?s3 = FINISHED")
    case True
    with e have "duer_start_audio_play d le ?s3 = Some s'" by simp
    then show ?thesis by (rule start_play_step) (use m in \<open>simp add: ap_push_keeps\<close>)
  next
    case False
    with e have s': "s' = ?s3" by simp
    show ?thesis
      using m unfolding s'
      by (intro keep_head_step) (auto simp: ap_push_keeps keep_only_head lq_top_def split: option.splits list.splits)
  qed
qed

lemma play_cb_step:
  assumes "duer_audio_play_cb d le directive s = Some (rs, s')" shows "media_step s s'"
  using assms replace_play_queue_step enqueue_step replace_enqueued_step
  by (auto simp: duer_audio_play_cb_def Let_def split: if_splits option.splits)

lemma queue_clear_step:
  assumes "duer_queue_clear_cb d le directive s = Some (rs, s')" shows "media_step s s'"
proof -
  let ?all = "duer_empty_play_queue ((dcs_do EffAudioStop s)\<lparr>ap_state := STOPPED\<rparr>)"
  consider (bad) "s' = s"
    | (enq) rs1 where "duer_dcs_report_play_event d le PLAY_QUEUE_CLEARED (keep_only_head s) = Some (rs1, s')"
    | (all) rs1 where "duer_dcs_report_play_event d le PLAY_QUEUE_CLEARED ?all = Some (rs1, s')"
    using assms
    by (auto simp: duer_queue_clear_cb_def keep_only_head_def Let_def case_prod_beta split: if_splits option.splits)
  then show ?thesis
  proof cases
    case bad
    then show ?thesis by simp
  next
    case enq
    then show ?thesis using media_step_before [OF keep_only_head_step] play_event_media by blast
  next
    case all
    have "media_step s ?all"
      by (auto simp: media_step_def clean_def exclusive_def plays_head_def)
    then show ?thesis using media_step_before all play_event_media by blast
  qed
qed

lemma audio_stop_step: "duer_audio_stop_cb directive s = Some (rs, s') \<Longrightarrow> media_step s s'"
  by (auto simp: duer_audio_stop_cb_def media_step_def clean_def exclusive_def plays_head_def dcs_mem_def dcs_do_def)

lemma played_url_skip [simp]: "\<not> is_play x \<Longrightarrow> played_url (l @ [x]) = played_url l"
  by (simp add: played_url_def)

text \<open>Pausing leaves nothing playing.\<close>

lemma pause_step:
  assumes "duer_pause_audio_internal d le s = Some s'"
  shows "ap_state s' \<noteq> PLAYING" "vo_state s' = vo_state s" "ap_queue s' = ap_queue s" "media_step s s'"
proof -
  have "ap_state s' \<noteq> PLAYING \<and> vo_state s' = vo_state s \<and> ap_queue s' = ap_queue s \<and> media_step s s'"
  proof (cases "ap_state s = PLAYING")
    case False
    with assms show ?thesis by (simp add: duer_pause_audio_internal_def)
  next
    case True
    let ?s1 = "(dcs_do EffAudioPause (s\<lparr>ap_state := PAUSED\<rparr>))\<lparr>ap_offset := dc_pause_offset s\<rparr>"
    obtain rs where "duer_dcs_report_play_event d le PLAY_PAUSED ?s1 = Some (rs, s')"
      using assms True by (auto simp: duer_pause_audio_internal_def Let_def)
    note r = play_event_media [OF this]
    have "media_step s ?s1"
      using True
      by (auto simp: media_step_def clean_def exclusive_def plays_head_def on_head_def dcs_mem_def dcs_do_def
          split: option.splits)
    with r same_media_keeps [OF r] media_step_before show ?thesis by (auto simp: dcs_do_def)
  qed
  then show "ap_state s' \<noteq> PLAYING" "vo_state s' = vo_state s" "ap_queue s' = ap_queue s" "media_step s s'" by auto
qed

lemma resume_step:
  assumes "duer_resume_audio_internal d le s = Some s'" "vo_state s = SPEECH_FINISHED" shows "media_step s s'"
proof (cases "ap_state s = PAUSED")
  case False
  with assms show ?thesis by (simp add: duer_resume_audio_internal_def)
next
  case paused: True
  let ?s1 = "s\<lparr>ap_state := PLAYING\<rparr>"
  show ?thesis
  proof (cases "ap_offset s = 0")
    case True
    with assms paused have "duer_start_audio_play d le ?s1 = Some s'" by (simp add: duer_resume_audio_internal_def)
    then show ?thesis by (rule start_play_step) (simp add: clean_def dcs_mem_def)
  next
    case False
    show ?thesis
    proof (cases "lq_top (ap_queue s)")
      case None
      with assms paused False have "s' = ?s1\<lparr>ap_state := FINISHED\<rparr>" by (simp add: duer_resume_audio_internal_def)
      then show ?thesis by (auto simp: media_step_def clean_def exclusive_def plays_head_def dcs_mem_def)
    next
      case (Some i)
      let ?s2 = "dcs_do (EffAudioSeek (pi_url i) (ap_offset s)) ?s1"
      obtain rs where "duer_dcs_report_play_event d le PLAY_RESUMED ?s2 = Some (rs, s')"
        using assms paused False Some by (auto simp: duer_resume_audio_internal_def Let_def)
      note r = play_event_media [OF this]
      have "media_step s ?s2"
        using False Some paused assms(2)
        by (auto simp: media_step_def clean_def exclusive_def plays_head_def on_head_def dcs_mem_def)
          (simp_all add: dcs_do_def)
      with r media_step_before show ?thesis by blast
    qed
  qed
qed

lemma plays_head_update [simp]:
  "plays_head (s\<lparr>vo_state := v\<rparr>) = plays_head s" "plays_head (s\<lparr>vo_latest_token := t\<rparr>) = plays_head s"
  "plays_head (dcs_set_mem m s) = plays_head s"
  by (simp_all add: plays_head_def on_head_def split: play_st.split option.split)

lemma audio_finished_step:
  assumes "duer_dcs_audio_on_finished d le s = Some s'" shows "media_step s s'"
proof (cases "ap_state s = PLAYING")
  case False
  with assms show ?thesis by (simp add: duer_dcs_audio_on_finished_def)
next
  case True
  with assms obtain r1 s1 r2 s2
    where 1: "duer_dcs_report_play_event d le PLAY_NEARLY_FINISHED s = Some (r1, s1)"
      and 2: "duer_dcs_report_play_event d le PLAY_FINISHED s1 = Some (r2, s2)"
      and 3: "duer_start_audio_play d le (snd (ap_pop s2)) = Some s'"
    by (auto simp: duer_dcs_audio_on_finished_def split: option.splits)
  have "same_media s s2" using play_event_media [OF 1] play_event_media [OF 2] same_media_trans by blast
  then have "clean s \<Longrightarrow> dcs_mem (snd (ap_pop s2)) = []"
    using same_media_keeps(10) by (auto simp: clean_def ap_pop_keeps)
  then show ?thesis by (rule start_play_step [OF 3])
qed

lemma speech_finished_step:
  assumes "duer_dcs_speech_on_finished d le s = Some s'" shows "media_step s s'"
proof (cases "vo_state s = SPEECH_PLAYING")
  case False
  with assms show ?thesis by (simp add: duer_dcs_speech_on_finished_def)
next
  case True
  let ?s0 = "s\<lparr>vo_state := SPEECH_FINISHED\<rparr>"
  have 0: "media_step s ?s0" "clean s \<Longrightarrow> clean ?s0"
    by (auto simp: media_step_def clean_def exclusive_def)
  from assms True obtain rs s1 where r: "duer_report_speech_event d le ''SpeechFinished'' ?s0 = Some (rs, s1)"
    and s': "(if \<not> duer_is_multiple_round_dialogue s1 then duer_resume_audio_internal d le s1 else Some s1) = Some s'"
    by (auto simp: duer_dcs_speech_on_finished_def split: option.splits)
  note k = speech_event_media [OF r]
  have 1: "media_step s s1" by (rule media_step_before [OF 0(1) k])
  have c: "clean s \<Longrightarrow> clean s1" by (rule same_media_clean [OF k 0(2)])
  have "vo_state s1 = SPEECH_FINISHED" using same_media_keeps(6) [OF k] by simp
  with s' have "media_step s1 s'" by (auto intro: resume_step split: if_splits)
  with 1 c show ?thesis by (rule media_step_trans)
qed

lemma speak_step:
  assumes "duer_speak_cb d le directive s = Some (rs, s')" shows "media_step s s'"
proof -
  let ?t = "valuestring (the (member (member (Some directive) ''payload'') ''token''))"
  obtain t m where t: "duer_strdup_internal ?t (dcs_mem s) = (t, m)" by (rule prod.exhaust)
  have m: "clean s \<Longrightarrow> m = []"
    using t by (auto simp: clean_def duer_strdup_internal_def dest: json_mem_eq split: option.splits)
  let ?s1 = "(dcs_set_mem m s)\<lparr>vo_latest_token := t\<rparr>"
  have same: "media_step s ?s1"
    using m by (auto simp: media_step_def clean_def exclusive_def)
  consider (bad) "s' = s" | (low) "s' = ?s1"
    | (speak) s2 rs2 s3 u where "duer_pause_audio_internal d le (?s1\<lparr>vo_state := SPEECH_PLAYING\<rparr>) = Some s2"
      "duer_report_speech_event d le ''SpeechStarted'' s2 = Some (rs2, s3)" "s' = dcs_do (EffSpeak u) s3"
    using assms t by (auto simp: duer_speak_cb_def Let_def split: if_splits option.splits)
  then show ?thesis
  proof cases
    case bad
    then show ?thesis by simp
  next
    case low
    with same show ?thesis by simp
  next
    case speak
    note p = pause_step [OF speak(1)]
    note r = same_media_keeps [OF speech_event_media [OF speak(2)]]
    have "clean s \<Longrightarrow> dcs_mem s2 = [] \<and> (plays_head s \<longrightarrow> plays_head s2)"
      using p(4) m by (auto simp: media_step_def clean_def)
    then show ?thesis
      using p r speak(3)
      by (auto simp: media_step_def exclusive_def)
        (auto simp: plays_head_def on_head_def played_url_def split: play_st.splits option.splits)
  qed
qed

lemma user_activity_keeps [simp]:
  "mview (duer_user_activity_internal s) = mview s" "dcs_mem (duer_user_activity_internal s) = dcs_mem s"
  by (simp_all add: duer_user_activity_internal_def mview_def)

lemma listen_fill_keeps: "fill_keeps (listen_fill r)"
proof -
  have a: "add_string_to_item key nm v ev [] = Some (e1, m) \<Longrightarrow> m = []" for key nm v ev e1 m
    by (auto simp: add_string_to_item_def json_CreateString_def json_New_Item_def
        dest!: json_mem_eq dest: with_item_mem [OF keeps_mem_fills(5)] split: option.splits prod.splits)
  show ?thesis
    by (auto simp: fill_keeps_def listen_fill_def split: option.splits dest!: a)
qed

section \<open>The operations that only report or register\<close>

lemma mview_update [simp]:
  "mview (s\<lparr>dc_eng := e\<rparr>) = mview s" "mview (s\<lparr>rt_list := l\<rparr>) = mview s" "mview (s\<lparr>rt_count := n\<rparr>) = mview s"
  "mview (s\<lparr>vi_timer := x\<rparr>) = mview s" "mview (s\<lparr>vi_listening := b\<rparr>) = mview s"
  "mview (s\<lparr>vi_multiple := b\<rparr>) = mview s" "mview (s\<lparr>dc_request_id := r\<rparr>) = mview s"
  "mview (s\<lparr>sy_timer := x\<rparr>) = mview s" "mview (s\<lparr>sy_last_activity := z\<rparr>) = mview s"
  "mview (s\<lparr>vo_supported := b\<rparr>) = mview s" "mview (s\<lparr>ap_supported := b\<rparr>) = mview s"
  "mview (s\<lparr>sc_supported := b\<rparr>) = mview s" "mview (s\<lparr>al_supported := b\<rparr>) = mview s"
  "mview (s\<lparr>dc_first := f\<rparr>) = mview s"
  "\<not> is_play ef \<Longrightarrow> mview (dcs_do ef s) = mview s"
  by (simp_all add: mview_def dcs_do_def)

lemma dcs_mem_update2 [simp]:
  "dcs_mem (s\<lparr>rt_list := l\<rparr>) = dcs_mem s" "dcs_mem (s\<lparr>rt_count := n\<rparr>) = dcs_mem s"
  "dcs_mem (s\<lparr>vo_supported := b\<rparr>) = dcs_mem s" "dcs_mem (s\<lparr>ap_supported := b\<rparr>) = dcs_mem s"
  "dcs_mem (s\<lparr>sc_supported := b\<rparr>) = dcs_mem s" "dcs_mem (s\<lparr>al_supported := b\<rparr>) = dcs_mem s"
  "dcs_mem (s\<lparr>dc_first := f\<rparr>) = dcs_mem s" "dcs_mem (s\<lparr>ap_queue := q\<rparr>) = dcs_mem s"
  by (simp_all add: dcs_mem_def)

lemma same_media_iff: "same_media s s' \<longleftrightarrow> mview s' = mview s \<and> (dcs_mem s = [] \<longrightarrow> dcs_mem s' = [])"
  by (simp add: same_media_def)

lemma same_media_do: "\<not> is_play x \<Longrightarrow> same_media s (dcs_do x s)"
  by (simp add: same_media_iff)

lemma user_activity_media: "same_media s (duer_user_activity_internal s)"
  by (simp add: same_media_iff)

lemma sync_state_media: "duer_dcs_sync_state d le s = Some s' \<Longrightarrow> same_media s s'"
  by (auto simp: duer_dcs_sync_state_def fill_keeps_intros context_mem intro: report_media)

lemma exception_fill_keeps: "fill_keeps (exception_fill dir type msg)"
  unfolding fill_keeps_def
proof (intro allI impI)
  fix ev r m
  assume e: "exception_fill dir type msg ev [] = Some (r, m)"
  have k: "keeps_mem (\<lambda>p m. case json_AddItemToObject p ''error'' (Some error) m of
      (p1, m3) \<Rightarrow> (case json_AddStringToObject error ''type'' type m3 of
      (e1, m4) \<Rightarrow> (case json_AddStringToObject e1 ''message'' msg m4 of
      (e2, m5) \<Rightarrow> (put_last p1 e2, m5))))" for error
    by (auto simp: keeps_mem_def split: prod.split dest!: json_mem_eq)
  show "m = []"
    using e by (auto simp: exception_fill_def split: option.splits prod.splits
        dest!: with_item_mem [OF keeps_mem_fills(5)] with_item_mem [OF k] json_mem_eq)
qed

lemma exception_media:
  "duer_report_exception_internal d le directive type msg s = Some s' \<Longrightarrow> same_media s s'"
  by (auto simp: duer_report_exception_internal_def exception_fill_keeps context_mem split: option.splits
      intro: report_media)

lemma inactivity_media: "duer_inactivity_report d le s = Some s' \<Longrightarrow> same_media s s'"
  by (auto simp: duer_inactivity_report_def Let_def intro!: report_media fill_keeps_intros keeps_mem_fills)

lemma listen_timeout_media: "duer_listen_timeout d le s = Some s' \<Longrightarrow> same_media s s'"
proof -
  assume a: "duer_listen_timeout d le s = Some s'"
  let ?s1 = "dcs_do EffStopListen (s\<lparr>vi_listening := False\<rparr>)"
  have "same_media s ?s1" by (simp add: same_media_iff)
  moreover have "same_media ?s1 t" if "duer_dcs_report_listen_timeout_event d le ?s1 = Some (rs, t)" for rs t
    using that unfolding duer_dcs_report_listen_timeout_event_def
    by (rule report_media) (simp_all add: fill_keeps_intros)
  ultimately show ?thesis
    using a same_media_trans by (auto simp: duer_listen_timeout_def split: if_splits)
qed

lemma speaker_event_media: "duer_report_speaker_event d le name s = Some (rs, s') \<Longrightarrow> same_media s s'"
  unfolding duer_report_speaker_event_def
  by (rule report_media) (use keeps_mem_volume in \<open>auto intro!: fill_keeps_intros\<close>)

lemma alert_event_media: "duer_dcs_report_alert_event d le token type s = Some (rs, s') \<Longrightarrow> same_media s s'"
  by (auto simp: duer_dcs_report_alert_event_def split: option.splits
      intro: report_media [OF _ fill_keeps_intros(2) [OF keeps_mem_fills(1)]])

lemma play_cmd_media: "duer_dcs_send_play_control_cmd d le cmd s = Some (rs, s') \<Longrightarrow> same_media s s'"
proof -
  assume a: "duer_dcs_send_play_control_cmd d le cmd s = Some (rs, s')"
  let ?s1 = "duer_user_activity_internal s"
  have "same_media ?s1 s'"
  proof (cases "fst (malloc_ok (dcs_mem ?s1))")
    case True
    with a have "dcs_report d le False ''ai.dueros.device_interface.playback_controller'' (play_cmd_name cmd)
        (Some (duer_get_client_context_internal ?s1)) no_fill ?s1 = Some (rs, s')"
      by (simp add: duer_dcs_send_play_control_cmd_def Let_def)
    then show ?thesis by (rule report_media) (auto simp: fill_keeps_intros context_mem)
  next
    case False
    with a have "s' = dcs_set_mem (snd (malloc_ok (dcs_mem ?s1))) ?s1"
      by (simp add: duer_dcs_send_play_control_cmd_def Let_def)
    then show ?thesis by (simp add: same_media_iff)
  qed
  then show ?thesis using same_media_trans user_activity_media by blast
qed

lemma write_directives_mem: "write_directives ds k slots [] = Some (k', slots', m) \<Longrightarrow> m = []"
  by (induction ds arbitrary: k slots) (auto simp: json_strdup_def split: if_splits)

lemma add_directive_media: "duer_add_dcs_directive ds s = Some s' \<Longrightarrow> same_media s s'"
  by (cases "dcs_mem s = []")
    (auto simp: duer_add_dcs_directive_def Let_def same_media_iff split: if_splits option.splits prod.splits
      dest: write_directives_mem)

lemma timer_acquire_media: "dcs_timer_acquire type s = Some (t, s') \<Longrightarrow> same_media s s'"
  by (cases "dcs_mem s = []")
    (auto simp: dcs_timer_acquire_def Let_def same_media_iff duer_timer_acquire_def dcs_mem_def dcs_set_mem_def mview_def
      split: option.splits prod.splits if_splits)

lemma add_resources_media:
  assumes "duer_add_resources r n e = Some (rs, e')" "w_mem (e_world e) = []"
  shows "w_mem (e_world e') = []"
proof -
  have copy: "w_mem (e_world v') = []"
    if "copy_resources l v = (b, v')" "w_mem (e_world v) = []" for l b and v v' :: "'a eng"
    using that by (induction l v arbitrary: b v' rule: copy_resources.induct)
      (auto simp: eng_malloc_def w_malloc_def Let_def split: if_splits prod.splits)
  have call: "w_mem (e_world v') = []"
    if "duer_events_call_internal c v = (b, v')" "w_mem (e_world v) = []" for b c and v v' :: "'a eng"
    using that by (auto simp: duer_events_call_internal_def eng_malloc_def w_malloc_def split: option.splits prod.splits)
  have malloc: "w_mem (e_world v') = []" if "eng_malloc v = (b, v')" "w_mem (e_world v) = []" for b and v v' :: "'a eng"
    using that by (auto simp: eng_malloc_def w_malloc_def split: prod.splits)
  show ?thesis
    using assms by (auto simp: duer_add_resources_def Let_def split: if_splits option.splits prod.splits
        simp del: eng_malloc_sel dest!: call dest: copy malloc)
qed

text \<open>A module's initialiser: some fields that only it and its reports use, and its directives.\<close>

lemma init_media:
  "duer_dcs_voice_output_init s = Some s' \<Longrightarrow> same_media s s'"
  "duer_dcs_speaker_control_init s = Some s' \<Longrightarrow> same_media s s'"
  "duer_dcs_alert_init s = Some s' \<Longrightarrow> same_media s s'"
  by (auto simp: duer_dcs_voice_output_init_def duer_dcs_speaker_control_init_def duer_dcs_alert_init_def set_first_def
      same_media_iff split: if_splits dest!: add_directive_media)

lemma sys_interface_media: "duer_declare_sys_interface_internal s = Some s' \<Longrightarrow> same_media s s'"
  by (auto simp: duer_declare_sys_interface_internal_def set_first_def same_media_iff split: if_splits option.splits
      dest!: add_directive_media timer_acquire_media)

lemma voice_input_init_media: "duer_dcs_voice_input_init s = Some s' \<Longrightarrow> same_media s s'"
  by (auto simp: duer_dcs_voice_input_init_def set_first_def same_media_iff Let_def split: if_splits option.splits
      dest!: add_directive_media timer_acquire_media)

lemma framework_init_media:
  assumes "duer_dcs_framework_init s = Some s'" shows "same_media s s'"
proof -
  obtain r n rs e where a: "duer_add_resources r n (dc_eng s) = Some (rs, e)"
    and i: "duer_declare_sys_interface_internal (s\<lparr>dc_eng := e\<rparr>) = Some s'"
    using assms by (auto simp: duer_dcs_framework_init_def split: option.splits)
  have "same_media s (s\<lparr>dc_eng := e\<rparr>)"
    using add_resources_media [OF a] by (simp add: same_media_iff dcs_mem_def)
  then show ?thesis using sys_interface_media [OF i] by (rule same_media_trans)
qed

text \<open>The player's initialiser creates its queue when there is none.\<close>

lemma player_init_step:
  assumes "duer_dcs_audio_player_init s = Some s'" shows "media_step s s'"
proof (cases "first_time ''audio_player'' s")
  case False
  with assms show ?thesis by (simp add: duer_dcs_audio_player_init_def)
next
  case True
  let ?s1 = "set_first ''audio_player'' s"
  let ?s2 = "if ap_queue ?s1 = None
    then (let (ok, m) = malloc_ok (dcs_mem ?s1)
          in (dcs_set_mem m ?s1)\<lparr>ap_queue := (if ok then Some [] else None)\<rparr>) else ?s1"
  let ?s3 = "dcs_set_mem (snd (malloc_ok (dcs_mem ?s2))) ?s2"
  obtain s4 where a: "duer_add_dcs_directive [(''Play'', CbPlay), (''Stop'', CbStop), (''ClearQueue'', CbClearQueue)] ?s3 = Some s4"
    and s': "s' = s4\<lparr>ap_supported := True\<rparr>"
    using assms True by (auto simp: duer_dcs_audio_player_init_def Let_def)
  have "media_step s ?s3"
    by (rule keep_head_step) (auto simp: set_first_def clean_def lq_top_def case_prod_beta)
  then have "media_step s s4" using media_step_before add_directive_media [OF a] by blast
  moreover have "same_media s4 s'" by (simp add: s' same_media_iff)
  ultimately show ?thesis by (rule media_step_before)
qed

lemma listen_started_step:
  assumes "duer_dcs_on_listen_started d le s = Some (rs, s')" shows "media_step s s'"
proof -
  let ?s0 = "duer_speech_on_stop_internal ((duer_user_activity_internal s)\<lparr>vi_multiple := False\<rparr>)"
  have act: "same_media s ((duer_user_activity_internal s)\<lparr>vi_multiple := False\<rparr>)" by (simp add: same_media_iff)
  have stop: "media_step x (duer_speech_on_stop_internal x)" "clean x \<Longrightarrow> clean (duer_speech_on_stop_internal x)"
    for x :: "'a dcs"
    by (auto simp: duer_speech_on_stop_internal_def media_step_def exclusive_def clean_def)
  have 0: "media_step s ?s0" "clean s \<Longrightarrow> clean ?s0"
    using media_step_after [OF act stop(1)] stop(2) [OF same_media_clean [OF act]] by auto
  obtain s1 where p: "duer_pause_audio_internal d le ?s0 = Some s1"
    using assms by (auto simp: duer_dcs_on_listen_started_def split: option.splits)
  have 1: "media_step s s1" by (rule media_step_trans [OF 0 pause_step(4) [OF p]])
  define s2 where "s2 = listen_start_timer s1"
  define s3 where "s3 = snd (duer_get_request_id_internal s2)"
  have 2: "same_media s1 s2" by (simp add: s2_def listen_start_timer_def same_media_iff)
  have 3: "same_media s1 s3" using 2 by (simp add: s3_def duer_get_request_id_internal_def same_media_iff)
  have r: "\<exists>x \<in> {s2, s3}. \<exists>ri. dcs_report d le True ''ai.dueros.device_interface.voice_input'' ''ListenStarted''
      (Some (duer_get_client_context_internal s2)) (listen_fill ri) x = Some (rs, s')"
    using assms p by (fastforce simp: duer_dcs_on_listen_started_def s2_def s3_def Let_def case_prod_beta split: if_splits)
  then obtain x ri where x: "x \<in> {s2, s3}" and rx: "dcs_report d le True ''ai.dueros.device_interface.voice_input''
      ''ListenStarted'' (Some (duer_get_client_context_internal s2)) (listen_fill ri) x = Some (rs, s')" by blast
  from rx have "same_media x s'" by (rule report_media) (auto simp: listen_fill_keeps context_mem)
  with x 2 3 have "same_media s1 s'" using same_media_trans by blast
  with 1 show ?thesis by (rule media_step_before)
qed

end
