(* ===== verification/DcsFlow.thy ===== *)
theory DcsFlow
  imports DcsMedia
begin

text \<open>
  The device control service over time. \<open>dcs_step\<close> has a rule for every entry point of
  \<^verbatim>\<open>modules/dcs\<close>: the router, what the application calls when playing or speaking ended or the user
  speaks, the timers' handlers, the reports and the initialisers. Its last rule lets the engine, the
  ticker and the application's answers change in any way between two operations. The properties are
  about every state that can be reached.
\<close>

section \<open>Steps\<close>

lemma run_directive_step:
  assumes "run_directive app d le cb directive s = Some (rs, s')" shows "media_step s s'"
proof (cases "cb \<in> {CbSpeak, CbPlay, CbStop, CbClearQueue}")
  case True
  with assms show ?thesis
    by (auto simp: run_directive_def intro: speak_step play_cb_step audio_stop_step queue_clear_step)
next
  case False
  with assms show ?thesis
    by (cases cb)
      (auto simp: run_directive_def duer_volume_set_cb_def duer_volume_adjust_cb_def duer_mute_set_cb_def
        duer_listen_start_cb_def duer_listen_stop_cb_def duer_exception_cb_def duer_inactivity_reset_cb_def
        duer_alert_set_cb_def duer_alert_delete_cb_def Let_def same_media_iff
        split: if_splits option.splits intro!: same_media_step)
qed

lemma route_report_media:
  "route_report d le payload (rs, s) = Some (rs', s') \<Longrightarrow> same_media s s'"
  by (auto simp: route_report_def split: if_splits intro: exception_media)

lemma router_step:
  assumes "duer_dcs_router app d le msg s = Some (rs, s')" shows "media_step s s'"
proof -
  define m1 where "m1 = snd (malloc_ok (dcs_mem s))"
  have pre: "same_media s (dcs_set_mem m1 s)" by (simp add: same_media_iff m1_def)
  consider (report) p rs1 x where "x \<in> {s, dcs_set_mem m1 s}" "route_report d le p (rs1, x) = Some (rs, s')"
    | (run) bs r where "Option.bind (route_value app d le (sd_parse d (c_string bs)) (dcs_set_mem m1 s))
          (route_report d le (Some (c_string bs))) = Some r" "r = (rs, s')"
    using assms
    by (fastforce simp: duer_dcs_router_def Let_def case_prod_beta m1_def split: option.splits if_splits)
  then show ?thesis
  proof cases
    case report
    then show ?thesis
      using pre route_report_media same_media_step media_step_after by blast
  next
    case run
    then obtain rs1 s1 where v: "route_value app d le (sd_parse d (c_string bs)) (dcs_set_mem m1 s) = Some (rs1, s1)"
      and r: "route_report d le (Some (c_string bs)) (rs1, s1) = Some (rs, s')"
      by (auto simp: Option.bind_eq_Some_conv)
    have "media_step (dcs_set_mem m1 s) s1"
      using v run_directive_step by (auto simp: route_value_def Let_def split: option.splits if_splits)
    with pre have "media_step s s1" by (rule media_step_after)
    then show ?thesis using route_report_media [OF r] by (rule media_step_before)
  qed
qed

text \<open>
  \<open>step_register\<close> is also how an application registers directives of its own; what the world does
  between two operations leaves the variables of the service alone.
\<close>

inductive dcs_step :: "(nat \<Rightarrow> json \<Rightarrow> status) \<Rightarrow> 'n sdk \<Rightarrow> bool \<Rightarrow> 'n dcs \<Rightarrow> 'n dcs \<Rightarrow> bool"
  for app d le where
  step_router: "duer_dcs_router app d le msg s = Some (rs, s') \<Longrightarrow> dcs_step app d le s s'"
| step_audio_finished: "duer_dcs_audio_on_finished d le s = Some s' \<Longrightarrow> dcs_step app d le s s'"
| step_speech_finished: "duer_dcs_speech_on_finished d le s = Some s' \<Longrightarrow> dcs_step app d le s s'"
| step_listen_started: "duer_dcs_on_listen_started d le s = Some (rs, s') \<Longrightarrow> dcs_step app d le s s'"
| step_listen_timeout: "duer_listen_timeout d le s = Some s' \<Longrightarrow> dcs_step app d le s s'"
| step_play_event: "duer_dcs_report_play_event d le type s = Some (rs, s') \<Longrightarrow> dcs_step app d le s s'"
| step_volume: "duer_dcs_on_volume_changed d le s = Some (rs, s') \<Longrightarrow> dcs_step app d le s s'"
| step_mute: "duer_dcs_on_mute d le s = Some (rs, s') \<Longrightarrow> dcs_step app d le s s'"
| step_alert: "duer_dcs_report_alert_event d le token ev s = Some (rs, s') \<Longrightarrow> dcs_step app d le s s'"
| step_play_cmd: "duer_dcs_send_play_control_cmd d le cmd s = Some (rs, s') \<Longrightarrow> dcs_step app d le s s'"
| step_sync: "duer_dcs_sync_state d le s = Some s' \<Longrightarrow> dcs_step app d le s s'"
| step_inactivity: "duer_inactivity_report d le s = Some s' \<Longrightarrow> dcs_step app d le s s'"
| step_activity: "dcs_step app d le s (duer_user_activity_internal s)"
| step_framework_init: "duer_dcs_framework_init s = Some s' \<Longrightarrow> dcs_step app d le s s'"
| step_player_init: "duer_dcs_audio_player_init s = Some s' \<Longrightarrow> dcs_step app d le s s'"
| step_output_init: "duer_dcs_voice_output_init s = Some s' \<Longrightarrow> dcs_step app d le s s'"
| step_input_init: "duer_dcs_voice_input_init s = Some s' \<Longrightarrow> dcs_step app d le s s'"
| step_speaker_init: "duer_dcs_speaker_control_init s = Some s' \<Longrightarrow> dcs_step app d le s s'"
| step_alert_init: "duer_dcs_alert_init s = Some s' \<Longrightarrow> dcs_step app d le s s'"
| step_register: "duer_add_dcs_directive ds s = Some s' \<Longrightarrow> dcs_step app d le s s'"
| step_world: "dcs_step app d le s
    (s\<lparr>dc_eng := e, dc_pause_offset := n, dc_speaker := v, dc_alerts := as, dc_ticker := t\<rparr>)"

text \<open>States the service goes through, as long as \<open>P\<close> holds where an operation starts.\<close>

inductive dcs_reach ::
  "(nat \<Rightarrow> json \<Rightarrow> status) \<Rightarrow> 'n sdk \<Rightarrow> bool \<Rightarrow> ('n dcs \<Rightarrow> bool) \<Rightarrow> 'n dcs \<Rightarrow> 'n dcs \<Rightarrow> bool"
  for app d le P s0 where
  reach_start: "dcs_reach app d le P s0 s0"
| reach_step: "dcs_reach app d le P s0 s \<Longrightarrow> P s \<Longrightarrow> dcs_step app d le s s' \<Longrightarrow> dcs_reach app d le P s0 s'"

text \<open>The static variables as the program starts.\<close>

definition dcs_boot :: "'n dcs \<Rightarrow> bool" where
  "dcs_boot s \<longleftrightarrow> vo_state s = SPEECH_FINISHED \<and> ap_state s = FINISHED \<and> ap_queue s = None \<and>
     ap_latest_token s = None \<and> vo_latest_token s = None \<and> ap_offset s = 0 \<and>
     rt_list s = None \<and> rt_count s = 0 \<and> dc_first s = {} \<and> dc_log s = []"

lemmas media_reports =
  listen_timeout_media play_event_media alert_event_media play_cmd_media sync_state_media inactivity_media
  framework_init_media init_media voice_input_init_media add_directive_media

text \<open>Every step but the last keeps what \<open>media_step\<close> says; the last changes neither speech nor player.\<close>

lemma step_keeps:
  assumes "dcs_step app d le s s'"
  shows "exclusive s \<longrightarrow> exclusive s'" "clean s \<and> plays_head s \<longrightarrow> plays_head s'"
proof -
  have "(exclusive s \<longrightarrow> exclusive s') \<and> (clean s \<and> plays_head s \<longrightarrow> plays_head s')"
  proof (cases "media_step s s'")
    case True
    then show ?thesis by (auto simp: media_step_def)
  next
    case False
    from assms have "\<exists>e n v as t. s' = s\<lparr>dc_eng := e, dc_pause_offset := n, dc_speaker := v, dc_alerts := as, dc_ticker := t\<rparr>"
    proof cases
      case (step_world e n v as t)
      then show ?thesis by blast
    qed (use False in \<open>auto simp: duer_dcs_on_volume_changed_def duer_dcs_on_mute_def
      dest!: media_reports [THEN same_media_step] speaker_event_media [THEN same_media_step]
        router_step audio_finished_step speech_finished_step listen_started_step player_init_step
      intro: user_activity_media [THEN same_media_step]\<close>)
    then show ?thesis
      by (auto simp: exclusive_def plays_head_def on_head_def split: play_st.split option.split)
  qed
  then show "exclusive s \<longrightarrow> exclusive s'" "clean s \<and> plays_head s \<longrightarrow> plays_head s'" by auto
qed

section \<open>Reports cannot fail\<close>

text \<open>A report is a fault only when the printer returns \<^verbatim>\<open>NULL\<close>.\<close>

definition prints :: "'n sdk \<Rightarrow> bool" where
  "prints d \<longleftrightarrow> (\<forall>j. sd_print d j \<noteq> None)"

lemma data_report_total:
  assumes "prints d" shows "\<exists>rs s'. dcs_data_report d le data s = Some (rs, s')"
proof -
  obtain c e1 where p: "report_payload d data (dc_eng s) = (c, e1)" by (rule prod.exhaust)
  have no: "sd_print d x \<noteq> None" for x using assms by (simp only: prints_def not_False_eq_True)
  have "c \<noteq> Some None"
    using p by (auto simp: report_payload_def no split: prod.splits option.splits)
  then have "duer_engine_enqueue_report_data d le (Some data) (dc_eng s) \<noteq> None"
    using p by (auto simp: duer_engine_enqueue_report_data_def Let_def split: option.splits prod.splits)
  then obtain r where "duer_engine_enqueue_report_data d le (Some data) (dc_eng s) = Some r" by blast
  then show ?thesis by (cases r) (simp add: dcs_data_report_def duer_data_report_def)
qed

definition fill_total :: "event_fill \<Rightarrow> bool" where
  "fill_total fill \<longleftrightarrow> (\<forall>ev m. fill ev m \<noteq> None)"

lemma fill_total_intros: "fill_total no_fill" "fill_total (payload_fill f)"
  by (auto simp: fill_total_def no_fill_def payload_fill_def split: option.split)

lemma report_total:
  assumes "prints d" "fill_total fill"
  shows "\<exists>rs s'. dcs_report d le check ns name ctx fill s = Some (rs, s')"
proof -
  have no: "fill x m \<noteq> None" for x m using assms(2) by (simp only: fill_total_def not_False_eq_True)
  have "dcs_build ns name ctx fill (dcs_mem s) \<noteq> None"
    by (auto simp: dcs_build_def Let_def no split: option.splits prod.splits)
  then obtain r m where b: "dcs_build ns name ctx fill (dcs_mem s) = Some (r, m)" by auto
  show ?thesis
  proof (cases r)
    case None
    with b show ?thesis by (simp add: dcs_report_def)
  next
    case (Some data)
    obtain rs s' where "dcs_data_report d le data (dcs_set_mem m s) = Some (rs, s')"
      using data_report_total [OF assms(1)] by blast
    with b Some show ?thesis by (simp add: dcs_report_def)
  qed
qed

lemma play_event_total: "prints d \<Longrightarrow> \<exists>rs s'. duer_dcs_report_play_event d le type s = Some (rs, s')"
  by (auto simp: duer_dcs_report_play_event_def fill_total_intros intro: report_total)

section \<open>The player with enough memory\<close>

text \<open>What a run of the player is about: its queue, its state and what it has played.\<close>

definition plays :: "'n dcs \<Rightarrow> dcs_eff list" where
  "plays s = filter is_play (dc_log s)"

definition player :: "'n dcs \<Rightarrow> play_item option list \<Rightarrow> play_st \<Rightarrow> dcs_eff list \<Rightarrow> bool" where
  "player s xs st ps \<longleftrightarrow>
     vo_state s = SPEECH_FINISHED \<and> dcs_mem s = [] \<and> ap_queue s = Some xs \<and> ap_state s = st \<and> plays s = ps"

lemma player_same: "same_media s s' \<Longrightarrow> player s xs st ps \<Longrightarrow> player s' xs st ps"
  using same_media_keeps [of s s'] by (auto simp: player_def plays_def)

lemma player_start_empty:
  "player s xs st ps \<Longrightarrow> lq_top (Some xs) = None \<Longrightarrow>
   \<exists>s'. duer_start_audio_play d le s = Some s' \<and> player s' xs FINISHED ps"
  by (auto simp: duer_start_audio_play_def player_def plays_def)

lemma player_start_head:
  assumes "player s (Some i # xs) st ps" "prints d"
  shows "\<exists>s'. duer_start_audio_play d le s = Some s' \<and>
    player s' (Some i # xs) PLAYING (ps @ [EffAudioPlay (pi_url i)])"
proof -
  let ?s1 = "(dcs_set_mem [] s)\<lparr>ap_state := PLAYING, ap_latest_token := Some (pi_token i)\<rparr>"
  obtain rs s2 where r: "duer_dcs_report_play_event d le PLAY_STARTTED ?s1 = Some (rs, s2)"
    using play_event_total [OF assms(2)] by blast
  have "player ?s1 (Some i # xs) PLAYING ps" using assms(1) by (simp add: player_def plays_def)
  then have "player s2 (Some i # xs) PLAYING ps" using play_event_media [OF r] player_same by blast
  then have "player (dcs_do (EffAudioPlay (pi_url i)) s2) (Some i # xs) PLAYING (ps @ [EffAudioPlay (pi_url i)])"
    by (simp add: player_def plays_def)
  moreover have "duer_start_audio_play d le s = Some (dcs_do (EffAudioPlay (pi_url i)) s2)"
    using assms(1) r by (simp add: duer_start_audio_play_def player_def duer_speech_need_play_internal_def)
  ultimately show ?thesis by blast
qed

lemma create_item: "duer_create_play_item (Some u) (Some t) [] = (Some \<lparr>pi_url = u, pi_token = t\<rparr>, [])"
  by (simp add: duer_create_play_item_def json_strdup_def)

lemma player_push:
  "player s xs st ps \<Longrightarrow> player (ap_push i (dcs_set_mem [] s)) (xs @ [i]) st ps"
  by (simp add: player_def ap_push_keeps plays_def)

abbreviation (input) item :: "string \<times> string \<Rightarrow> play_item" where
  "item x \<equiv> \<lparr>pi_url = fst x, pi_token = snd x\<rparr>"

lemma player_enqueue_waits:
  assumes "player s xs st ps" "st \<noteq> FINISHED"
  shows "\<exists>s'. duer_enqueue_play_item d le (Some (fst x)) (Some (snd x)) s = Some s' \<and> player s' (xs @ [Some (item x)]) st ps"
proof -
  note p = player_push [OF assms(1)]
  have "dcs_mem s = []" using assms(1) by (simp add: player_def)
  moreover have "ap_state (ap_push (Some (item x)) (dcs_set_mem [] s)) = st"
    using p by (simp add: player_def)
  ultimately have "duer_enqueue_play_item d le (Some (fst x)) (Some (snd x)) s = Some (ap_push (Some (item x)) (dcs_set_mem [] s))"
    using assms(2) by (simp add: duer_enqueue_play_item_def create_item)
  with p show ?thesis by blast
qed

lemma player_enqueue_starts:
  assumes "player s [] FINISHED ps" "prints d"
  shows "\<exists>s'. duer_enqueue_play_item d le (Some (fst x)) (Some (snd x)) s = Some s' \<and>
    player s' [Some (item x)] PLAYING (ps @ [EffAudioPlay (fst x)])"
proof -
  note p = player_push [OF assms(1), of "Some (item x)"]
  have "dcs_mem s = []" using assms(1) by (simp add: player_def)
  moreover have "ap_state (ap_push (Some (item x)) (dcs_set_mem [] s)) = FINISHED"
    using p by (simp add: player_def)
  ultimately have "duer_enqueue_play_item d le (Some (fst x)) (Some (snd x)) s =
      duer_start_audio_play d le (ap_push (Some (item x)) (dcs_set_mem [] s))"
    by (simp add: duer_enqueue_play_item_def create_item)
  with player_start_head [of _ "item x" "[]"] p assms(2) show ?thesis by fastforce
qed

lemma player_finished:
  assumes "player s (x # xs) PLAYING ps" "prints d"
  shows "\<exists>s2. player s2 xs PLAYING ps \<and> duer_dcs_audio_on_finished d le s = duer_start_audio_play d le s2"
proof -
  obtain r1 s1 where 1: "duer_dcs_report_play_event d le PLAY_NEARLY_FINISHED s = Some (r1, s1)"
    using play_event_total [OF assms(2)] by blast
  obtain r2 s2 where 2: "duer_dcs_report_play_event d le PLAY_FINISHED s1 = Some (r2, s2)"
    using play_event_total [OF assms(2)] by blast
  have "player s2 (x # xs) PLAYING ps"
    using assms(1) play_event_media [OF 1] play_event_media [OF 2] player_same by blast
  then have "player (snd (ap_pop s2)) xs PLAYING ps" by (simp add: player_def ap_pop_keeps plays_def)
  moreover have "duer_dcs_audio_on_finished d le s = duer_start_audio_play d le (snd (ap_pop s2))"
    using assms(1) 1 2 by (simp add: duer_dcs_audio_on_finished_def player_def)
  ultimately show ?thesis by blast
qed

section \<open>Playlists\<close>

fun enqueue_all :: "'n sdk \<Rightarrow> bool \<Rightarrow> (string \<times> string) list \<Rightarrow> 'n dcs \<Rightarrow> 'n dcs option" where
  "enqueue_all d le [] s = Some s"
| "enqueue_all d le ((u, t) # xs) s =
     Option.bind (duer_enqueue_play_item d le (Some u) (Some t) s) (enqueue_all d le xs)"

fun finish_times :: "'n sdk \<Rightarrow> bool \<Rightarrow> nat \<Rightarrow> 'n dcs \<Rightarrow> 'n dcs option" where
  "finish_times d le 0 s = Some s"
| "finish_times d le (Suc n) s = Option.bind (duer_dcs_audio_on_finished d le s) (finish_times d le n)"

abbreviation (input) items_of :: "(string \<times> string) list \<Rightarrow> play_item option list" where
  "items_of xs \<equiv> map (\<lambda>x. Some (item x)) xs"

lemma enqueue_all_waits:
  "player s ys st ps \<Longrightarrow> st \<noteq> FINISHED \<Longrightarrow> \<exists>s'. enqueue_all d le xs s = Some s' \<and> player s' (ys @ items_of xs) st ps"
proof (induction xs arbitrary: s ys)
  case (Cons x xs)
  obtain s1 where "duer_enqueue_play_item d le (Some (fst x)) (Some (snd x)) s = Some s1" "player s1 (ys @ [Some (item x)]) st ps"
    using player_enqueue_waits [OF Cons.prems] by blast
  with Cons.IH [OF this(2) Cons.prems(2)] show ?case by (cases x) auto
qed auto

lemma finish_all:
  "player s (items_of (x # xs)) PLAYING ps \<Longrightarrow> prints d \<Longrightarrow>
   \<exists>s'. finish_times d le (Suc (length xs)) s = Some s' \<and> player s' [] FINISHED (ps @ map (\<lambda>x. EffAudioPlay (fst x)) xs)"
proof (induction xs arbitrary: s x ps)
  case Nil
  obtain s2 where "player s2 [] PLAYING ps" "duer_dcs_audio_on_finished d le s = duer_start_audio_play d le s2"
    using player_finished [of s _ _ ps d le] Nil by fastforce
  with player_start_empty [of s2 "[]" PLAYING ps d le] show ?case by auto
next
  case (Cons y ys)
  obtain s2 where 2: "player s2 (items_of (y # ys)) PLAYING ps"
    "duer_dcs_audio_on_finished d le s = duer_start_audio_play d le s2"
    using player_finished [of s _ _ ps d le] Cons.prems by fastforce
  obtain s3 where 3: "duer_start_audio_play d le s2 = Some s3"
    "player s3 (items_of (y # ys)) PLAYING (ps @ [EffAudioPlay (fst y)])"
    using player_start_head [of s2 "item y" "items_of ys" PLAYING ps d le] 2(1) Cons.prems(2) by auto
  from Cons.IH [OF 3(2) Cons.prems(2)] 2(2) 3(1) show ?case by auto
qed


lemma player_empty: "player s xs st ps \<Longrightarrow> player (duer_empty_play_queue s) (empty_items xs) st ps"
  by (simp add: player_def plays_def)


section \<open>Properties of speech and audio\<close>

text \<open>C12: Speech and audio never play at the same time, whatever the cloud sends, the application reports and the
  allocations do, in any order of the entry points; each of them is taken to run without interruption by
  another, for which the code has no common lock.\<close>

theorem speech_audio_exclusive:
  assumes "dcs_reach app d le (\<lambda>s. True) s0 s" "dcs_boot s0"
  shows "\<not> (vo_state s = SPEECH_PLAYING \<and> ap_state s = PLAYING)"
proof -
  from assms(1) have "exclusive s"
  proof induction
    case reach_start
    with assms(2) show ?case by (simp add: dcs_boot_def exclusive_def)
  next
    case (reach_step s s')
    then show ?case using step_keeps(1) by blast
  qed
  then show ?thesis by (simp add: exclusive_def)
qed

text \<open>C13: As long as memory lasts and no \<^verbatim>\<open>NULL\<close> item gets into the queue, a player that is playing
  plays the head of its queue and reports the head's token, and a paused one has a head to resume:
  the item it was paused in, if it had begun.\<close>

theorem player_plays_head:
  assumes "dcs_reach app d le clean s0 s" "dcs_boot s0"
  shows "(ap_state s = PLAYING \<longrightarrow>
      (\<exists>i. lq_top (ap_queue s) = Some i \<and> ap_latest_token s = Some (pi_token i) \<and>
           played_url (dc_log s) = Some (pi_url i))) \<and>
    (ap_state s = PAUSED \<longrightarrow>
      (\<exists>i. lq_top (ap_queue s) = Some i \<and> (ap_offset s \<noteq> 0 \<longrightarrow> ap_latest_token s = Some (pi_token i) \<and>
           played_url (dc_log s) = Some (pi_url i))))"
proof -
  from assms(1) have "plays_head s"
  proof induction
    case reach_start
    with assms(2) show ?case by (simp add: dcs_boot_def plays_head_def)
  next
    case (reach_step s s')
    then show ?case using step_keeps(2) by blast
  qed
  then show ?thesis by (auto simp: plays_head_def on_head_def split: option.splits)
qed

text \<open>C23: Items that are enqueued while the player is idle and no speech plays, with memory enough for all of it,
  are played in the order of the playlist, each once, one whenever the one before has finished; then the
  queue is empty and the player is idle.\<close>

theorem playlist_in_order:
  assumes "player s [] FINISHED ps" "prints d" "xs \<noteq> []"
  shows "\<exists>s1 s2. enqueue_all d le xs s = Some s1 \<and> finish_times d le (length xs) s1 = Some s2 \<and>
    player s2 [] FINISHED (ps @ map (\<lambda>x. EffAudioPlay (fst x)) xs)"
proof -
  obtain x ys where xs: "xs = x # ys" using assms(3) by (cases xs) auto
  obtain s1 where 1: "duer_enqueue_play_item d le (Some (fst x)) (Some (snd x)) s = Some s1"
    "player s1 [Some (item x)] PLAYING (ps @ [EffAudioPlay (fst x)])"
    using player_enqueue_starts [OF assms(1,2)] by blast
  obtain s2 where 2: "enqueue_all d le ys s1 = Some s2"
    "player s2 ([Some (item x)] @ items_of ys) PLAYING (ps @ [EffAudioPlay (fst x)])"
    using enqueue_all_waits [OF 1(2)] by blast
  obtain s3 where "finish_times d le (Suc (length ys)) s2 = Some s3"
    "player s3 [] FINISHED ((ps @ [EffAudioPlay (fst x)]) @ map (\<lambda>x. EffAudioPlay (fst x)) ys)"
    using finish_all [of s2 x ys "ps @ [EffAudioPlay (fst x)]" d le] assms(2) 2(2) by auto
  with 1 2 show ?thesis unfolding xs by (cases x) auto
qed


text \<open>With a \<^verbatim>\<open>NULL\<close> item at the head of the queue, a directive that replaces the whole queue
  empties it only up to that item, and plays the item behind it instead of the one it was sent for.\<close>

theorem replace_all_plays_stale:
  assumes "player s (None # Some i # xs) st ps" "prints d"
  shows "\<exists>s'. duer_replace_play_queue d le (Some u) (Some t) s = Some s' \<and>
    player s' (Some i # xs @ [Some \<lparr>pi_url = u, pi_token = t\<rparr>]) PLAYING (ps @ [EffAudioPlay (pi_url i)])"
proof -
  let ?s1 = "if ap_state s = PLAYING then dcs_do EffAudioStop s else s"
  have "player ?s1 (None # Some i # xs) st ps" using assms(1) by (simp add: player_def plays_def)
  then have "player (duer_empty_play_queue ?s1) (Some i # xs) st ps" using player_empty by fastforce
  note p = player_push [OF this, of "Some \<lparr>pi_url = u, pi_token = t\<rparr>"]
  have "dcs_mem (duer_empty_play_queue ?s1) = []" using assms(1) by (simp add: player_def)
  then have "duer_replace_play_queue d le (Some u) (Some t) s =
    duer_start_audio_play d le (ap_push (Some \<lparr>pi_url = u, pi_token = t\<rparr>) (dcs_set_mem [] (duer_empty_play_queue ?s1)))"
    by (simp add: duer_replace_play_queue_def create_item Let_def)
  with player_start_head [of _ i "xs @ [Some \<lparr>pi_url = u, pi_token = t\<rparr>]" st ps d le] p assms(2) show ?thesis by simp
qed

section \<open>A device that plays\<close>

text \<open>Examples: the service as it starts, on a running engine, and a cloud that sends one directive.\<close>

definition boot_dcs :: "unit dcs" where
  "boot_dcs = \<lparr>dc_eng = ready_eng, dc_log = [], dc_request_id = 0, vo_latest_token = None, vo_supported = False,
     vo_state = SPEECH_FINISHED, ap_queue = None, ap_latest_token = None, ap_supported = False, ap_state = FINISHED,
     ap_offset = 0, vi_timer = None, vi_listening = False, vi_multiple = False, sc_supported = False,
     al_supported = False, sy_timer = None, sy_last_activity = 0, rt_list = None, rt_count = 0, dc_first = {},
     dc_pause_offset = 0, dc_speaker = (0, False), dc_alerts = [], dc_ticker = 0\<rparr>"

definition jobj :: "(string \<times> json) list \<Rightarrow> json" where
  "jobj xs = Json JObject None 0 (map (\<lambda>(k, j). (Some k, j)) xs)"

definition jstr :: "string \<Rightarrow> json" where
  "jstr s = Json JString (Some s) 0 []"

definition play_json :: json where
  "play_json = jobj [(''directive'', jobj [(''header'', jobj [(''name'', jstr ''Play'')]),
     (''payload'', jobj [(''audioItem'', jobj [(''stream'', jobj [(''token'', jstr ''t''), (''url'', jstr ''u'')])]),
       (''playBehavior'', jstr ''REPLACE_ALL'')])])]"


definition play_sdk :: "unit sdk" where
  "play_sdk = strict_sdk\<lparr>sd_parse := \<lambda>s. Some play_json\<rparr>"

lemma strict_prints: "prints strict_sdk" "prints play_sdk"
  by (simp_all add: prints_def strict_sdk_def play_sdk_def)

lemma boot_ok: "dcs_boot boot_dcs" "clean boot_dcs" "player (boot_dcs\<lparr>ap_queue := Some xs\<rparr>) xs FINISHED []"
  by (simp_all add: dcs_boot_def boot_dcs_def clean_def dcs_mem_def player_def plays_def ready_eng_def
      fresh_eng_def quiet_world_def)

lemma boot_player_init:
  "\<exists>s. duer_dcs_audio_player_init boot_dcs = Some s \<and> player s [] FINISHED [] \<and>
     rt_list s = Some [Some (''Play'', CbPlay), Some (''Stop'', CbStop), Some (''ClearQueue'', CbClearQueue)] \<and> rt_count s = 3"
  by (simp add: duer_dcs_audio_player_init_def first_time_def set_first_def boot_dcs_def dcs_mem_def dcs_set_mem_def
      ready_eng_def fresh_eng_def quiet_world_def duer_add_dcs_directive_def json_strdup_def player_def plays_def Let_def
      numeral_3_eq_3)

lemma play_json_members:
  "member (Some play_json) ''directive'' = Some (jobj [(''header'', jobj [(''name'', jstr ''Play'')]),
     (''payload'', jobj [(''audioItem'', jobj [(''stream'', jobj [(''token'', jstr ''t''), (''url'', jstr ''u'')])]),
       (''playBehavior'', jstr ''REPLACE_ALL'')])])"
  by code_simp

lemma play_cb_members:
  assumes "dj = jobj [(''header'', jobj [(''name'', jstr ''Play'')]),
     (''payload'', jobj [(''audioItem'', jobj [(''stream'', jobj [(''token'', jstr ''t''), (''url'', jstr ''u'')])]),
       (''playBehavior'', jstr ''REPLACE_ALL'')])]"
  shows "duer_audio_play_cb d le dj s = map_option (Pair DUER_OK) (duer_replace_play_queue d le (Some ''u'') (Some ''t'') s)"
    "member (member (Some dj) ''header'') ''name'' = Some (jstr ''Play'')" "member (Some dj) ''header'' \<noteq> None"
  unfolding assms by (simp_all add: duer_audio_play_cb_def member_def json_GetObjectItem_def jobj_def jstr_def
      tolower_code_def Let_def)

text \<open>The service starts, the player registers and the cloud has it play.\<close>

lemma boot_plays:
  "\<exists>s. dcs_reach (\<lambda>n j. 0) play_sdk True clean boot_dcs s \<and> dcs_reach (\<lambda>n j. 0) play_sdk True (\<lambda>s. True) boot_dcs s \<and>
     ap_state s = PLAYING"
proof -
  obtain s1 where s1: "duer_dcs_audio_player_init boot_dcs = Some s1" "player s1 [] FINISHED []"
    "rt_list s1 = Some [Some (''Play'', CbPlay), Some (''Stop'', CbStop), Some (''ClearQueue'', CbClearQueue)]" "rt_count s1 = 3"
    using boot_player_init by blast
  let ?msg = "msg_zero\<lparr>m_payload := Some [112], m_payload_len := 1\<rparr>"
  define dj where "dj = jobj [(''header'', jobj [(''name'', jstr ''Play'')]),
     (''payload'', jobj [(''audioItem'', jobj [(''stream'', jobj [(''token'', jstr ''t''), (''url'', jstr ''u'')])]),
       (''playBehavior'', jstr ''REPLACE_ALL'')])]"
  note m = play_cb_members [OF dj_def]
  have j: "member (Some play_json) ''directive'' = Some dj" by (simp only: play_json_members dj_def)
  have name: "valuestring (jstr ''Play'') = Some ''Play''" by (simp add: jstr_def)
  have mem: "dcs_mem s1 = []" and p0: "player (dcs_set_mem [] s1) [] FINISHED []"
    using s1(2) by (auto simp: player_def plays_def)
  have "player (ap_push (Some (item (''u'', ''t''))) (dcs_set_mem [] (dcs_set_mem [] s1))) ([] @ [Some (item (''u'', ''t''))]) FINISHED []"
    by (rule player_push [OF p0])
  then obtain s2 where s2: "duer_start_audio_play play_sdk True (ap_push (Some (item (''u'', ''t''))) (dcs_set_mem [] (dcs_set_mem [] s1))) = Some s2"
    "player s2 [Some (item (''u'', ''t''))] PLAYING [EffAudioPlay ''u'']"
    using player_start_head [of _ _ "[]"] strict_prints(2) by fastforce
  have e: "duer_empty_play_queue (dcs_set_mem [] s1) = dcs_set_mem [] s1"
    using s1(2) by (simp add: player_def duer_empty_play_queue_def dcs_set_mem_def)
  have "duer_replace_play_queue play_sdk True (Some ''u'') (Some ''t'') (dcs_set_mem [] s1) = Some s2"
    using s2(1) e p0 by (simp add: duer_replace_play_queue_def create_item player_def)
  moreover have "router_lookup (Some ''Play'') (dcs_set_mem [] s1) = Some (Some CbPlay)"
    using s1(3,4) by (simp add: router_lookup_def numeral_3_eq_3)
  ultimately have "route_value (\<lambda>n j. 0) play_sdk True (Some play_json) (dcs_set_mem [] s1) = Some (DUER_OK, s2)"
    using m(2,3) j name by (simp add: route_value_def Let_def run_directive_def m(1))
  moreover have "memget 0 1 [112] = Some [112 :: byte]" by (simp add: memget_def)
  ultimately have "duer_dcs_router (\<lambda>n j. 0) play_sdk True (Some ?msg) s1 = Some (DUER_OK, s2)"
    using mem by (simp add: duer_dcs_router_def Let_def route_report_def play_sdk_def)
  then have 2: "dcs_step (\<lambda>n j. 0) play_sdk True s1 s2" by (rule step_router)
  have 1: "dcs_step (\<lambda>n j. 0) play_sdk True boot_dcs s1" using s1(1) by (rule step_player_init)
  have "clean s1" using s1(2) by (simp add: clean_def player_def)
  have r: "dcs_reach (\<lambda>n j. 0) play_sdk True P boot_dcs s2" if "P boot_dcs" "P s1" for P
  proof -
    have "dcs_reach (\<lambda>n j. 0) play_sdk True P boot_dcs s1" by (rule reach_step [where P=P, OF reach_start that(1) 1])
    then show ?thesis by (rule reach_step [where P=P, OF _ that(2) 2])
  qed
  have "ap_state s2 = PLAYING" using s2(2) by (simp add: player_def)
  with r [of clean] r [of "\<lambda>s. True"] boot_ok(2) \<open>clean s1\<close> show ?thesis by blast
qed

theorem speech_audio_exclusive_witness:
  "\<exists>s. dcs_reach (\<lambda>n j. 0) play_sdk True (\<lambda>s. True) boot_dcs s \<and> ap_state s = PLAYING \<and> vo_state s \<noteq> SPEECH_PLAYING"
proof -
  obtain s where s: "dcs_reach (\<lambda>n j. 0) play_sdk True (\<lambda>s. True) boot_dcs s" "ap_state s = PLAYING"
    using boot_plays by blast
  with speech_audio_exclusive [OF s(1) boot_ok(1)] show ?thesis by blast
qed

theorem player_plays_head_witness:
  "\<exists>s (i :: play_item). dcs_reach (\<lambda>n j. 0) play_sdk True clean boot_dcs s \<and> ap_state s = PLAYING \<and>
     ap_latest_token s = Some (pi_token i) \<and> played_url (dc_log s) = Some (pi_url i)"
proof -
  obtain s where s: "dcs_reach (\<lambda>n j. 0) play_sdk True clean boot_dcs s" "ap_state s = PLAYING"
    using boot_plays by blast
  with player_plays_head [OF s(1) boot_ok(1)]
  obtain i where "lq_top (ap_queue s) = Some i" "ap_latest_token s = Some (pi_token i)" "played_url (dc_log s) = Some (pi_url i)" by auto
  with s show ?thesis by blast
qed

theorem playlist_in_order_witness:
  "\<exists>s1 s2. enqueue_all strict_sdk True [(''a'', ''1''), (''b'', ''2'')] (boot_dcs\<lparr>ap_queue := Some []\<rparr>) = Some s1 \<and>
     finish_times strict_sdk True 2 s1 = Some s2 \<and> player s2 [] FINISHED [EffAudioPlay ''a'', EffAudioPlay ''b'']"
  using playlist_in_order [OF boot_ok(3) [of "[]"] strict_prints(1), of "[(''a'', ''1''), (''b'', ''2'')]" True]
  by (simp add: eval_nat_numeral)


theorem replace_all_plays_stale_witness:
  "\<exists>s'. duer_replace_play_queue strict_sdk True (Some ''new'') (Some ''2'')
       (boot_dcs\<lparr>ap_queue := Some [None, Some \<lparr>pi_url = ''old'', pi_token = ''1''\<rparr>]\<rparr>) = Some s' \<and>
     plays s' = [EffAudioPlay ''old'']"
  using replace_all_plays_stale [OF boot_ok(3) [of "[None, Some \<lparr>pi_url = ''old'', pi_token = ''1''\<rparr>]"] strict_prints(1),
      of True "''new''" "''2''"]
  by (auto simp: player_def)

end
