(* ===== verification/DcsRoute.thy ===== *)
theory DcsRoute
  imports DcsFlow
begin

text \<open>
  The router of the device control service: the array of directives is a map in which the last
  registration of a name wins, and a directive the router or its handler refuses is reported to the
  cloud once. A registration that fails for lack of memory loses the array but not its length.
\<close>

section \<open>The list of directives as a map\<close>

definition router_table :: "'n dcs \<Rightarrow> (string \<times> dcs_cb) list \<Rightarrow> bool" where
  "router_table s es \<longleftrightarrow>
     (case rt_list s of
        None \<Rightarrow> es = [] \<and> rt_count s = 0
      | Some slots \<Rightarrow> rt_count s = length es \<and> take (length es) slots = map Some es)"

lemma find_handler_map:
  "find_handler (map Some es @ rest) (length es) (Some nm) f =
   Some (case map_of (rev es) nm of None \<Rightarrow> f | Some cb \<Rightarrow> Some cb)"
  by (induction es arbitrary: f) (auto simp: map_add_def split: option.split)

lemma router_lookup_table:
  assumes "router_table s es" shows "router_lookup (Some nm) s = Some (map_of (rev es) nm)"
proof (cases "rt_list s")
  case None
  with assms show ?thesis by (simp add: router_table_def router_lookup_def)
next
  case (Some slots)
  then have "slots = map Some es @ drop (length es) slots" "rt_count s = length es"
    using assms by (auto simp: router_table_def) (metis append_take_drop_id)
  with Some find_handler_map [of es "drop (length es) slots" nm None] show ?thesis
    by (simp add: router_lookup_def split: option.split)
qed

lemma write_directives_all:
  "k + length ds \<le> length slots \<Longrightarrow>
   write_directives ds k slots [] = Some (k + length ds, take k slots @ map Some ds @ drop (k + length ds) slots, [])"
proof (induction ds arbitrary: k slots)
  case (Cons d ds)
  obtain nm cb where d: "d = (nm, cb)" by (rule prod.exhaust)
  have "write_directives ds (k + 1) (slots[k := Some (nm, cb)]) [] =
    Some (k + 1 + length ds, take (k + 1) (slots[k := Some (nm, cb)]) @ map Some ds
            @ drop (k + 1 + length ds) (slots[k := Some (nm, cb)]), [])"
    using Cons by simp
  moreover have "take (k + 1) (slots[k := Some (nm, cb)]) = take k slots @ [Some (nm, cb)]"
    using Cons.prems by (simp add: take_Suc_conv_app_nth)
  ultimately show ?case using Cons.prems d by (simp add: json_strdup_def)
qed simp

lemma table_register:
  assumes "router_table s es" "dcs_mem s = []"
  shows "\<exists>s'. duer_add_dcs_directive ds s = Some s' \<and> router_table s' (es @ ds) \<and> dcs_mem s' = []"
proof (cases "ds = []")
  case True
  with assms show ?thesis by (simp add: duer_add_dcs_directive_def)
next
  case False
  let ?slots = "case rt_list s of None \<Rightarrow> replicate (length ds) None
    | Some old \<Rightarrow> take (length ds + rt_count s) old @ replicate (length ds + rt_count s - length old) None"
  have c: "rt_count s = length es" using assms(1) by (auto simp: router_table_def split: option.splits)
  have len: "length es + length ds \<le> length ?slots"
    using assms(1) c by (auto simp: router_table_def split: option.split)
  have tk: "take (length es) ?slots = map Some es"
    using assms(1) c by (auto simp: router_table_def min_def split: option.splits)
      (metis length_map length_take min_def nle_le take_all)
  have "length (map Some es @ map Some ds) = length (es @ ds)" by simp
  with write_directives_all [OF len] assms(2) False c tk show ?thesis
    by (auto simp: duer_add_dcs_directive_def Let_def router_table_def split: option.splits)
qed

section \<open>Exception reports\<close>

definition jpath :: "json \<Rightarrow> string list \<Rightarrow> json option" where
  "jpath j ks = foldl json_GetObjectItem (Some j) ks"

fun error_type :: "status \<Rightarrow> string" where
  "error_type rs =
     (if rs = RSP_NOT_FOUND then ''UNSUPPORTED_OPERATION''
      else if rs = RSP_BAD_REQUEST then ''UNEXPECTED_INFORMATION_RECEIVED'' else ''INTERNAL_ERROR'')"

lemmas json_ops =
  json_AddStringToObject_def json_AddItemToObject_def json_AddItemToArray_def json_CreateString_def
  json_CreateObject_def json_New_Item_def json_strdup_def

lemma create_event_json:
  "duer_create_dcs_event ns name None [] =
     (Some (jobj [(''header'', jobj [(''namespace'', jstr ns), (''name'', jstr name)]), (''payload'', jobj [])]), [])"
  by (simp add: duer_create_dcs_event_def dcs_header_def json_ops jobj_def jstr_def Let_def)

lemma exception_fill_json:
  "exception_fill dir type msg
     (jobj [(''header'', h), (''payload'', jobj [])]) [] =
   Some (Some (jobj [(''header'', h), (''payload'', jobj [(''unparsedDirective'', jstr dir),
     (''error'', jobj [(''type'', jstr type), (''message'', jstr msg)])])]), [])"
  by (simp add: exception_fill_def with_item_def json_ops jobj_def jstr_def put_last_def tolower_code_def Let_def)

lemma jobj_ops:
  "json_CreateObject [] = (Some (jobj []), [])"
  "json_AddItemToObject (jobj xs) k (Some it) [] = (jobj (xs @ [(k, it)]), [])"
  "put_last (jobj (xs @ [(k, it)])) c = jobj (xs @ [(k, c)])"
  by (simp_all add: json_ops jobj_def put_last_def)

text \<open>The report has the event next to the client context.\<close>

lemma exception_build:
  assumes "snd (get []) = []"
  shows "\<exists>j. dcs_build ns name (Some get) (exception_fill dir type msg) [] = Some (Some j, []) \<and>
    jpath j [''event'', ''header'', ''name''] = Some (jstr name) \<and>
    jpath j [''event'', ''payload'', ''unparsedDirective''] = Some (jstr dir) \<and>
    jpath j [''event'', ''payload'', ''error'', ''type''] = Some (jstr type)"
proof -
  obtain c where c: "get [] = (c, [])" using assms by (metis prod.collapse)
  define ev where "ev = jobj [(''header'', jobj [(''namespace'', jstr ns), (''name'', jstr name)]),
    (''payload'', jobj [(''unparsedDirective'', jstr dir), (''error'', jobj [(''type'', jstr type), (''message'', jstr msg)])])]"
  define ctx where "ctx = (case c of None \<Rightarrow> [] | Some cc \<Rightarrow> [(''clientContext'', cc)])"
  have "(let (c', m') = get [] in json_AddItemToObject (jobj []) ''clientContext'' c' m') = (jobj ctx, [])"
    using jobj_ops(2) [of "[]"] by (simp add: c ctx_def split: option.split) (simp add: json_AddItemToObject_def)
  then have "dcs_build ns name (Some get) (exception_fill dir type msg) [] = Some (Some (jobj (ctx @ [(''event'', ev)])), [])"
    by (simp add: dcs_build_def jobj_ops create_event_json exception_fill_json ev_def Let_def)
  moreover have "json_GetObjectItem (Some (jobj (ctx @ [(''event'', ev)]))) ''event'' = Some ev"
    by (simp add: json_GetObjectItem_def jobj_def ctx_def tolower_code_def split: option.split)
  ultimately show ?thesis
    by (simp add: jpath_def ev_def) (simp add: json_GetObjectItem_def jobj_def tolower_code_def)
qed

lemma exception_reported:
  assumes "prints d" "dcs_mem s = []"
  shows "\<exists>s' j. duer_report_exception_internal d le (Some dir) type msg s = Some s' \<and>
    dc_log s' = dc_log s @ [EffReport j] \<and>
    jpath j [''event'', ''header'', ''name''] = Some (jstr ''ExceptionEncountered'') \<and>
    jpath j [''event'', ''payload'', ''unparsedDirective''] = Some (jstr dir) \<and>
    jpath j [''event'', ''payload'', ''error'', ''type''] = Some (jstr type)"
proof -
  let ?ns = "''ai.dueros.device_interface.system''" and ?n = "''ExceptionEncountered''"
  obtain j where j: "dcs_build ?ns ?n (Some (duer_get_client_context_internal s)) (exception_fill dir type msg) [] = Some (Some j, [])"
    "jpath j [''event'', ''header'', ''name''] = Some (jstr ?n)"
    "jpath j [''event'', ''payload'', ''unparsedDirective''] = Some (jstr dir)"
    "jpath j [''event'', ''payload'', ''error'', ''type''] = Some (jstr type)"
    using exception_build [of "duer_get_client_context_internal s"] context_mem by blast
  obtain rs s' where r: "dcs_data_report d le j (dcs_set_mem [] s) = Some (rs, s')"
    using data_report_total [OF assms(1)] by blast
  then have "dc_log s' = dc_log s @ [EffReport j]"
    by (auto simp: dcs_data_report_def dcs_set_mem_def split: option.splits)
  with j r assms(2) show ?thesis by (auto simp: duer_report_exception_internal_def dcs_report_def)
qed

lemma set_mem_same: "dcs_mem s = [] \<Longrightarrow> dcs_set_mem [] s = s"
  by (simp add: dcs_set_mem_def dcs_mem_def)

section \<open>Properties of the router\<close>

text \<open>C17: While memory lasts, the list of directives is a map: registering directives overrides the
  handlers of their names, the last registration of a name winning, and changes no other lookup.\<close>

theorem router_refines_map:
  assumes "router_table s es" "dcs_mem s = []"
  shows "\<exists>s'. duer_add_dcs_directive ds s = Some s' \<and> router_table s' (es @ ds) \<and>
    (\<forall>nm. router_lookup (Some nm) s' =
       Some (case map_of (rev ds) nm of Some cb \<Rightarrow> Some cb | None \<Rightarrow> map_of (rev es) nm))"
proof -
  obtain s' where s': "duer_add_dcs_directive ds s = Some s'" "router_table s' (es @ ds)"
    using table_register [OF assms] by blast
  have "router_lookup (Some nm) s' = Some (case map_of (rev ds) nm of Some cb \<Rightarrow> Some cb | None \<Rightarrow> map_of (rev es) nm)" for nm
    using router_lookup_table [OF s'(2)] by (simp add: map_add_def)
  with s' show ?thesis by blast
qed

text \<open>When the array cannot grow, the pointer is lost while the number of directives is kept: every
  later directive from the cloud makes the router read through \<^verbatim>\<open>NULL\<close>, and registering again, with
  memory back, writes past the end of the new array.\<close>

theorem router_realloc_fails:
  assumes "router_table s es" "es \<noteq> []" "ds \<noteq> []" "dcs_mem s = False # m"
  shows "\<exists>s'. duer_add_dcs_directive ds s = Some s' \<and> router_lookup nm s' = None \<and>
    (\<forall>ds2. ds2 \<noteq> [] \<and> length ds2 \<le> length es \<longrightarrow> duer_add_dcs_directive ds2 (dcs_set_mem [] s') = None)"
proof -
  let ?s' = "(dcs_set_mem m s)\<lparr>rt_list := None\<rparr>"
  have a: "duer_add_dcs_directive ds s = Some ?s'" using assms(3,4) by (simp add: duer_add_dcs_directive_def)
  have c: "rt_count ?s' = length es" using assms(1) by (auto simp: router_table_def split: option.splits)
  with assms(2) have "router_lookup nm ?s' = None" by (simp add: router_lookup_def)
  moreover have "duer_add_dcs_directive ds2 (dcs_set_mem [] ?s') = None" if nonempty: "ds2 \<noteq> []" and fits: "length ds2 \<le> length es" for ds2
  proof -
    obtain n cb r where d: "ds2 = (n, cb) # r" using nonempty by (cases ds2) auto
    have "\<not> length es < length ds2" using fits by simp
    then have "write_directives ds2 (length es) (replicate (length ds2) None) [] = None" by (simp add: d)
    moreover have "rt_list (dcs_set_mem [] ?s') = None" "rt_count (dcs_set_mem [] ?s') = length es" using c by simp_all
    ultimately show ?thesis using nonempty by (simp add: duer_add_dcs_directive_def)
  qed
  ultimately show ?thesis using a by blast
qed

text \<open>C26: While memory lasts, a message with a payload that the router or the handler refuses is answered with
  exactly one report, an ExceptionEncountered event with the text of the message and the type that fits
  the refusal, and the router returns the refusing status.\<close>

theorem router_reports_refused:
  assumes "prints d" "dcs_mem s = []"
    and "m_payload msg = Some bytes" "unat (m_payload_len msg) = length bytes" "bytes \<noteq> []"
    and "route_value app d le (sd_parse d (c_string bytes)) s = Some (rs, s1)" "rs \<noteq> DUER_OK" "dcs_mem s1 = []"
  shows "\<exists>s' j. duer_dcs_router app d le (Some msg) s = Some (rs, s') \<and> dc_log s' = dc_log s1 @ [EffReport j] \<and>
    jpath j [''event'', ''header'', ''name''] = Some (jstr ''ExceptionEncountered'') \<and>
    jpath j [''event'', ''payload'', ''unparsedDirective''] = Some (jstr (c_string bytes)) \<and>
    jpath j [''event'', ''payload'', ''error'', ''type''] = Some (jstr (error_type rs))"
proof -
  have ne: "m_payload_len msg \<noteq> 0" using assms(4,5) by auto
  define m where "m = (if rs = 132 then ''Unknow directive'' else if rs = 128 then ''Bad directive'' else ''Internal error'')"
  have m: "route_report d le (Some (c_string bytes)) (rs, s1) =
    map_option (Pair rs) (duer_report_exception_internal d le (Some (c_string bytes)) (error_type rs) m s1)"
    using assms(7) by (simp add: route_report_def m_def)
  obtain s' j where j: "duer_report_exception_internal d le (Some (c_string bytes)) (error_type rs) m s1 = Some s'"
    "dc_log s' = dc_log s1 @ [EffReport j]"
    "jpath j [''event'', ''header'', ''name''] = Some (jstr ''ExceptionEncountered'')"
    "jpath j [''event'', ''payload'', ''unparsedDirective''] = Some (jstr (c_string bytes))"
    "jpath j [''event'', ''payload'', ''error'', ''type''] = Some (jstr (error_type rs))"
    using exception_reported [OF assms(1,8)] by blast
  have "duer_dcs_router app d le (Some msg) s = Some (rs, s')"
    using assms(2,3,4,6) ne m j(1) by (simp add: duer_dcs_router_def set_mem_same Let_def)
  with j show ?thesis by blast
qed

theorem router_refines_map_witness:
  "\<exists>s'. duer_add_dcs_directive [(''Stop'', CbStop), (''Play'', CbApp 1)]
       (boot_dcs\<lparr>rt_list := Some [Some (''Play'', CbPlay)], rt_count := 1\<rparr>) = Some s' \<and>
     router_lookup (Some ''Play'') s' = Some (Some (CbApp 1)) \<and> router_lookup (Some ''Speak'') s' = Some None"
proof -
  let ?s = "boot_dcs\<lparr>rt_list := Some [Some (''Play'', CbPlay)], rt_count := 1\<rparr>"
  have "router_table ?s [(''Play'', CbPlay)]" "dcs_mem ?s = []"
    using boot_ok(2) by (simp_all add: router_table_def clean_def)
  from router_refines_map [OF this, of "[(''Stop'', CbStop), (''Play'', CbApp 1)]"] show ?thesis by force
qed

theorem router_realloc_fails_witness:
  "\<exists>s'. duer_add_dcs_directive [(''Stop'', CbStop)]
       (dcs_set_mem [False] (boot_dcs\<lparr>rt_list := Some [Some (''Play'', CbPlay)], rt_count := 1\<rparr>)) = Some s' \<and>
     router_lookup (Some ''Play'') s' = None \<and> duer_add_dcs_directive [(''Stop'', CbStop)] (dcs_set_mem [] s') = None"
proof -
  let ?s = "dcs_set_mem [False] (boot_dcs\<lparr>rt_list := Some [Some (''Play'', CbPlay)], rt_count := 1\<rparr>)"
  have "router_table ?s [(''Play'', CbPlay)]" "dcs_mem ?s = False # []" by (simp_all add: router_table_def)
  from router_realloc_fails [OF this(1) _ _ this(2), of "[(''Stop'', CbStop)]" "Some ''Play''"] show ?thesis by force
qed

theorem router_reports_refused_witness:
  "\<exists>s' j. duer_dcs_router (\<lambda>n j. 0) play_sdk True (Some (msg_zero\<lparr>m_payload := Some [112], m_payload_len := 1\<rparr>)) boot_dcs =
       Some (132, s') \<and>
     dc_log s' = [EffReport j] \<and> jpath j [''event'', ''payload'', ''error'', ''type''] = Some (jstr ''UNSUPPORTED_OPERATION'')"
proof -
  let ?msg = "msg_zero\<lparr>m_payload := Some [112], m_payload_len := 1\<rparr>"
  define dj where "dj = jobj [(''header'', jobj [(''name'', jstr ''Play'')]),
     (''payload'', jobj [(''audioItem'', jobj [(''stream'', jobj [(''token'', jstr ''t''), (''url'', jstr ''u'')])]),
       (''playBehavior'', jstr ''REPLACE_ALL'')])]"
  note m = play_cb_members [OF dj_def]
  have j: "member (Some play_json) ''directive'' = Some dj" by (simp only: play_json_members dj_def)
  have name: "valuestring (jstr ''Play'') = Some ''Play''" by (simp add: jstr_def)
  have "router_lookup (Some ''Play'') boot_dcs = Some None" by (simp add: router_lookup_def boot_dcs_def)
  then have "route_value (\<lambda>n j. 0) play_sdk True (Some play_json) boot_dcs = Some (132, boot_dcs)"
    using m(2,3) j name by (simp add: route_value_def Let_def)
  then have "route_value (\<lambda>n j. 0) play_sdk True (sd_parse play_sdk (c_string [112])) boot_dcs = Some (132, boot_dcs)"
    by (simp add: play_sdk_def)
  from router_reports_refused [OF strict_prints(2) _ _ _ _ this, of ?msg] boot_ok(1,2)
  show ?thesis by (auto simp: clean_def dcs_boot_def)
qed

end
