(* ===== verification/EngineStall.thy ===== *)
theory EngineStall
  imports EngineFlow
begin

text \<open>
  Where the engine's wake-up scheme fails. \<^verbatim>\<open>duer_data_report\<close> posts a send only when its message is
  the only one in the queue, and the event task posts the next one only after a send that worked.
  When a message is left in the queue with no send posted, reports and keep-alives never cause
  another send. Two interleaved reports, or a failed send, lead there.
\<close>

section \<open>No send is posted\<close>

definition quiet :: "'n eng \<Rightarrow> bool" where
  "quiet e \<longleftrightarrow> (\<exists>q. g_events_handler e = Some q \<and> CallSend \<notin> set q \<and> CallDestroy \<notin> set q)"

lemma quiet_update [simp]:
  "quiet (e\<lparr>g_handler := h\<rparr>) = quiet e" "quiet (e\<lparr>e_world := w\<rparr>) = quiet e"
  "quiet (e\<lparr>g_timer := t\<rparr>) = quiet e" "quiet (e\<lparr>g_start_timeout := n\<rparr>) = quiet e"
  "quiet (e\<lparr>g_qcache_handler := q\<rparr>) = quiet e" "quiet (e\<lparr>g_notify_func := b\<rparr>) = quiet e"
  "quiet (e\<lparr>g_qcache_mutex := b\<rparr>) = quiet e" "quiet (e\<lparr>e_tcreate := tc\<rparr>) = quiet e"
  "quiet (eng_log x e) = quiet e"
  "quiet (eng_timer_start dl e) = quiet e" "quiet (eng_timer_stop e) = quiet e"
  by (simp_all add: quiet_def eng_log_def eng_timer_start_def eng_timer_stop_def)

lemma quiet_call:
  "quiet e \<Longrightarrow> c \<noteq> CallSend \<Longrightarrow> c \<noteq> CallDestroy \<Longrightarrow> quiet (snd (duer_events_call_internal c e))"
  by (auto simp: quiet_def duer_events_call_internal_def)

lemma quiet_switch:
  "quiet e \<Longrightarrow> ev \<noteq> EVT_DESTROY \<Longrightarrow> ev = EVT_SEND_DATA \<longrightarrow> st < 0 \<Longrightarrow> quiet (notify_switch ev st e)"
  by (cases ev) (auto simp: notify_switch_def duer_event_notify_def intro!: quiet_call)

lemma quiet_stop: "quiet e \<Longrightarrow> quiet (duer_engine_stop what e)"
  by (cases "g_handler e") (auto simp: duer_engine_stop_def Let_def intro!: quiet_switch split: prod.split)

lemma quiet_notify:
  "quiet e \<Longrightarrow> ev \<noteq> EVT_DESTROY \<Longrightarrow> ev = EVT_SEND_DATA \<longrightarrow> st < 0 \<Longrightarrow> quiet (duer_engine_notify ev st e)"
  by (simp add: duer_engine_notify_def duer_engine_notify_callback_def Let_def quiet_switch quiet_stop)

lemma quiet_put_ca: "eng_put_ca r e = (rs, e') \<Longrightarrow> quiet e' = quiet e"
  by (cases r) (auto simp: eng_put_ca_def quiet_def)

lemma quiet_enq_frame: "enq_frame e e' \<Longrightarrow> quiet e' = quiet e"
  by (simp add: enq_frame_def quiet_def)

text \<open>A message waits and nothing will send it.\<close>

definition stuck :: "'n eng \<Rightarrow> bool" where
  "stuck e \<longleftrightarrow> 1 \<le> lq_length (g_qcache_handler e) \<and> quiet e"

definition stays_stuck :: "'n eng \<Rightarrow> 'n eng \<Rightarrow> bool" where
  "stays_stuck e e' \<longleftrightarrow> stuck e' \<and> lq_length (g_qcache_handler e) \<le> lq_length (g_qcache_handler e') \<and>
     sent_msgs (e_log e') = sent_msgs (e_log e)"

lemma sent_filter [simp]: "sent_msgs (filter is_msg_eff l) = sent_msgs l"
  by (induction l rule: sent_msgs.induct) simp_all

lemma stays_same: "stuck e \<Longrightarrow> qview e' = qview e \<Longrightarrow> quiet e' \<Longrightarrow> stays_stuck e e'"
  unfolding stays_stuck_def stuck_def qview_def by (metis order_refl prod.inject sent_filter)

lemma stays_trans: "stays_stuck e e1 \<Longrightarrow> stays_stuck e1 e2 \<Longrightarrow> stays_stuck e e2"
  by (auto simp: stays_stuck_def)

lemma stuck_quiet: "stuck e \<Longrightarrow> quiet e"
  by (simp add: stuck_def)

lemma stuck_notify:
  "stuck e \<Longrightarrow> ev \<noteq> EVT_DESTROY \<Longrightarrow> ev = EVT_SEND_DATA \<longrightarrow> st < 0 \<Longrightarrow> stays_stuck e (duer_engine_notify ev st e)"
  by (rule stays_same [OF _ qview_notify]) (auto intro: quiet_notify stuck_quiet)

lemma stuck_call:
  "stuck e \<Longrightarrow> c \<noteq> CallSend \<Longrightarrow> c \<noteq> CallDestroy \<Longrightarrow> stays_stuck e (snd (duer_events_call_internal c e))"
  by (rule stays_same [OF _ qview_call]) (auto intro: quiet_call stuck_quiet)

lemma stuck_finish: "stuck e \<Longrightarrow> stays_stuck e (start_finish st e)"
  by (rule stays_same [OF _ qview_start_finish])
    (auto simp: start_finish_def start_timer_def intro!: quiet_notify dest: stuck_quiet)

lemma stuck_create: "stuck e \<Longrightarrow> duer_engine_create e = Some e' \<Longrightarrow> stays_stuck e e'"
proof -
  assume s: "stuck e" and c: "duer_engine_create e = Some e'"
  then obtain e4 where t: "eng_create_timer (eng_create_mutex (eng_create_queue (eng_create_handler e))) = Some e4"
    and e': "e' = duer_engine_notify EVT_CREATE DUER_OK e4"
    by (auto simp: duer_engine_create_def)
  have h: "qview (eng_create_handler e) = qview e" "quiet (eng_create_handler e) = quiet e"
    by (simp_all add: eng_create_handler_def split: prod.split)
  then have "g_qcache_handler (eng_create_handler e) \<noteq> None"
    using s by (cases "g_qcache_handler e") (auto simp: qview_def stuck_def)
  then have q: "eng_create_queue (eng_create_handler e) = eng_create_handler e"
    by (auto simp: eng_create_queue_def)
  have m: "qview (eng_create_mutex v) = qview v" "quiet (eng_create_mutex v) = quiet v" for v :: "'a eng"
    by (simp_all add: eng_create_mutex_def)
  have "qview e4 = qview e" "quiet e4 = quiet e"
    using t h m q by (auto simp: eng_create_timer_def split: if_splits prod.splits option.splits)
  then have "stays_stuck e e4" using s by (auto intro: stays_same dest: stuck_quiet)
  then show ?thesis
    using e' stuck_notify [of e4 EVT_CREATE DUER_OK] stays_trans by (auto simp: stays_stuck_def)
qed

lemma stuck_load: "stuck e \<Longrightarrow> eng_load d what obj e = Some (st, e') \<Longrightarrow> stays_stuck e e'"
proof (cases "0 < what \<and> obj \<noteq> None")
  case True
  assume s: "stuck e" and l: "eng_load d what obj e = Some (st, e')"
  from l True obtain e1 rs h w where c: "duer_engine_create (e\<lparr>g_start_timeout := START_TIMEOUT\<rparr>) = Some e1"
    and e': "e' = e1\<lparr>g_handler := h, e_world := w\<rparr>"
    by (auto simp: eng_load_def split: option.splits prod.splits)
  have "stays_stuck (e\<lparr>g_start_timeout := START_TIMEOUT\<rparr>) e1"
    by (rule stuck_create [OF _ c]) (use s in \<open>simp add: stuck_def\<close>)
  with e' show ?thesis by (simp add: stays_stuck_def stuck_def)
qed (auto simp: eng_load_def split: if_splits intro: stays_same dest: stuck_quiet)

lemma stuck_put_ca: "eng_put_ca r e = (rs, e') \<Longrightarrow> stuck e \<Longrightarrow> stays_stuck e e'"
  using stays_same [of e e'] qview_put_ca [of r e] quiet_put_ca [of r e rs e'] stuck_quiet [of e] by simp

lemma stuck_start:
  assumes "stuck e" "duer_engine_start d what obj e = Some (Some e')"
  shows "stays_stuck e e'"
proof (cases "baidu_ca_is_started (g_handler e)")
  case True
  with assms show ?thesis by (simp add: duer_engine_start_def stays_stuck_def)
next
  case False
  with assms(2) obtain st e1 where l: "eng_load d what obj e = Some (st, e1)"
    by (auto simp: duer_engine_start_def split: option.splits)
  have s1: "stays_stuck e e1" by (rule stuck_load [OF assms(1) l])
  then have k1: "stuck e1" by (simp add: stays_stuck_def)
  show ?thesis
  proof (cases "st = DUER_ERR_PROFILE_INVALID")
    case True
    with assms(2) False l have "e' = start_finish DUER_ERR_PROFILE_INVALID e1" by (simp add: duer_engine_start_def)
    with stays_trans [OF s1 stuck_finish [OF k1]] show ?thesis by simp
  next
    case ok: False
    with assms(2) False l obtain rs e2 where s: "eng_ca_start d e1 = Some (Some (rs, e2))"
      and e': "e' = start_finish (start_status rs) e2"
      by (auto simp: duer_engine_start_def)
    have "stays_stuck e1 e2"
    proof (cases "g_handler e1")
      case None
      with s k1 show ?thesis by (simp add: eng_ca_start_def stays_stuck_def)
    next
      case (Some ctx)
      with s obtain r where "eng_put_ca r e1 = (rs, e2)" by (auto simp: eng_ca_start_def)
      with k1 stuck_put_ca show ?thesis by blast
    qed
    then have "stays_stuck e e2" "stuck e2" using stays_trans [OF s1] by (simp_all add: stays_stuck_def)
    with stays_trans stuck_finish e' show ?thesis by blast
  qed
qed

lemma stuck_data:
  assumes "stuck e" "duer_engine_data_available d e = Some (Some e')"
  shows "stays_stuck e e'"
proof -
  have fin: "stays_stuck v (data_finish b st v)" if "stuck v" for b st and v :: "'a eng"
    by (rule stays_same [OF that qview_data_finish])
      (use stuck_quiet [OF that] in \<open>auto simp: data_finish_def intro!: quiet_notify\<close>)
  show ?thesis
  proof (cases "baidu_ca_is_stopped (g_handler e)")
    case True
    with assms(2) have "e' = data_finish True DUER_OK e"
      by (auto simp: duer_engine_data_available_def baidu_ca_is_stopped_def split: option.splits)
    with fin [OF assms(1)] show ?thesis by simp
  next
    case False
    then obtain ctx where h: "g_handler e = Some ctx" by (auto simp: baidu_ca_is_stopped_def split: option.splits)
    with False assms(2) obtain r where
      e': "e' = (case eng_put_ca r e of (rs, e1) \<Rightarrow>
              data_finish (baidu_ca_is_started (Some ctx)) (data_status rs) e1)"
      by (auto simp: duer_engine_data_available_def)
    obtain rs e1 where r: "eng_put_ca r e = (rs, e1)" by (rule prod.exhaust)
    have s1: "stays_stuck e e1" by (rule stuck_put_ca [OF r assms(1)])
    then have "stuck e1" by (simp add: stays_stuck_def)
    from stays_trans [OF s1 fin [OF this]] e' r show ?thesis by simp
  qed
qed

lemma stuck_task:
  assumes "stuck e" "task_run d e = Some (Some e')"
  shows "stays_stuck e e'"
proof -
  obtain q where q: "g_events_handler e = Some q" "CallSend \<notin> set q" "CallDestroy \<notin> set q"
    using assms(1) by (auto simp: stuck_def quiet_def)
  show ?thesis
  proof (cases q)
    case Nil
    with assms q show ?thesis by (simp add: task_run_def stays_stuck_def)
  next
    case (Cons c qs)
    let ?e = "e\<lparr>g_events_handler := Some qs\<rparr>"
    have quiet: "quiet ?e" using q Cons by (simp add: quiet_def)
    have s: "stays_stuck e ?e" by (rule stays_same [OF assms(1) _ quiet]) simp
    then have k: "stuck ?e" by (simp add: stays_stuck_def)
    have run: "run_call d c ?e = Some (Some e')" using assms(2) q Cons by (simp add: task_run_def)
    have "stays_stuck ?e e'"
    proof (cases c)
      case CallCreate
      with run k show ?thesis by (simp add: run_call_def stuck_create)
    next
      case (CallStart what object)
      with run k show ?thesis by (simp add: run_call_def stuck_start)
    next
      case (CallAddResources n rs)
      with run have "duer_engine_add_resources d n rs ?e = Some (Some e')" by (simp add: run_call_def)
      then obtain st ctx w where "e' = duer_engine_notify EVT_ADD_RESOURCES st (?e\<lparr>g_handler := Some ctx, e_world := w\<rparr>)"
        by (auto simp: duer_engine_add_resources_def split: option.splits prod.splits)
      with stuck_notify [of "?e\<lparr>g_handler := Some ctx, e_world := w\<rparr>" EVT_ADD_RESOURCES st] k
      show ?thesis by (simp add: stuck_def stays_stuck_def)
    next
      case CallDataAvailable
      with run k show ?thesis by (simp add: run_call_def stuck_data)
    next
      case CallStop
      with run have "e' = duer_engine_stop DUER_OK ?e" by (simp add: run_call_def)
      with stays_same [OF k qview_stop quiet_stop [OF quiet]] show ?thesis by simp
    qed (use q Cons in auto)
    with stays_trans [OF s] show ?thesis by blast
  qed
qed

lemma queue_push_sent: "sent_msgs (e_log (snd (queue_push m e))) = sent_msgs (e_log e)"
  by (cases "g_qcache_handler e") (auto simp: queue_push_def eng_log_def lq_push_def)

lemma enqueue_report_sent:
  assumes "duer_engine_enqueue_report_data d le j e = Some (rs, e')"
  shows "sent_msgs (e_log e') = sent_msgs (e_log e)"
proof (cases "j = None \<or> g_qcache_handler e = None \<or> g_handler e = None")
  case True
  with assms show ?thesis by (auto simp: duer_engine_enqueue_report_data_def split: option.splits)
next
  case False
  then obtain jj where j: "j = Some jj" by auto
  obtain c e1 where p: "report_payload d jj e = (c, e1)" by (rule prod.exhaust)
  then have l: "e_log e1 = e_log e"
    by (auto simp: report_payload_def Let_def split: prod.splits option.splits)
  obtain msg h1 w1 where b: "baidu_ca_build_report_message le (g_handler e1) False (e_world e1) = (msg, h1, w1)"
    by (rule prod_cases3)
  show ?thesis
  proof (cases "c = None \<or> msg = None \<or> the c = None")
    case True
    with assms False j p b l show ?thesis
      by (auto simp: duer_engine_enqueue_report_data_def Let_def split: option.splits)
  next
    case push: False
    with assms False j p b obtain m where "queue_push m (e1\<lparr>g_handler := h1, e_world := w1\<rparr>) = (rs, e')"
      by (auto simp: duer_engine_enqueue_report_data_def)
    with queue_push_sent [of m "e1\<lparr>g_handler := h1, e_world := w1\<rparr>"] l show ?thesis by simp
  qed
qed

lemma stuck_report:
  assumes "stuck e" "duer_data_report d le j e = Some (rs, e')"
  shows "stays_stuck e e'"
proof -
  obtain e1 where q: "duer_engine_enqueue_report_data d le j e = Some (rs, e1)" and e': "e' = report_check rs e1"
    using assms(2) by (auto simp: duer_data_report_def)
  have f: "enq_frame e e1" and len: "if rs = DUER_OK
      then lq_length (g_qcache_handler e1) = lq_length (g_qcache_handler e) + 1
      else lq_length (g_qcache_handler e1) = lq_length (g_qcache_handler e)"
    using enqueue_report_frame [OF q] by blast+
  have "\<not> (rs = DUER_OK \<and> lq_length (g_qcache_handler e1) = 1)"
    using len assms(1) by (auto simp: stuck_def)
  then have "e' = e1" using e' by (auto simp: report_check_def duer_engine_qcache_length_def)
  with len assms(1) quiet_enq_frame [OF f] enqueue_report_sent [OF q] show ?thesis
    by (auto simp: stays_stuck_def stuck_def split: if_splits)
qed

text \<open>The operations that cannot end the stall: all but responses, the transport's send events and the
  shutdown.\<close>

fun no_send_act :: "eact \<Rightarrow> bool" where
  "no_send_act (AReport j) = True"
| "no_send_act (AStart s) = True"
| "no_send_act (AAddResources rs n) = True"
| "no_send_act AStop = True"
| "no_send_act ATimer = True"
| "no_send_act (ATransport t) = (t \<noteq> TEVT_SEND_RDY \<and> t \<noteq> TEVT_SEND_TIMEOUT)"
| "no_send_act ATask = True"
| "no_send_act AInitialize = True"
| "no_send_act a = False"

lemma copy_resources_quiet:
  "copy_resources rs e = (b, e') \<Longrightarrow> quiet e' = quiet e"
  by (induction rs e arbitrary: b e' rule: copy_resources.induct) (auto split: if_splits)

lemma stuck_duer_start: "stuck e \<Longrightarrow> stays_stuck e (snd (duer_start s e))"
proof -
  assume k: "stuck e"
  obtain ok e1 where m: "eng_malloc e = (ok, e1)" by (rule prod.exhaust)
  then have "qview e1 = qview e" "quiet e1" using k by (auto simp: stuck_def)
  then have s1: "stays_stuck e e1" by (rule stays_same [OF k])
  then have "stuck e1" by (simp add: stays_stuck_def)
  from stays_trans [OF s1 stuck_call [OF this]] s1 m show ?thesis
    by (simp add: duer_start_def del: eng_malloc_sel)
qed

lemma stuck_add_resources:
  assumes "stuck e" "duer_add_resources rs n e = Some (st, e')"
  shows "stays_stuck e e'"
proof -
  have call: "qview v' = qview v \<and> (quiet v \<longrightarrow> quiet v')"
    if "duer_events_call_internal (CallAddResources k l) v = (b, v')" for b k l and v v' :: "'a eng"
    using that qview_call [of "CallAddResources k l" v] quiet_call [of v "CallAddResources k l"] by simp
  have cp: "qview v' = qview v \<and> quiet v' = quiet v" if "copy_resources l v = (b, v')" for b l and v v' :: "'a eng"
    using copy_resources_frame [OF that] copy_resources_quiet [OF that] by simp
  have "qview e' = qview e \<and> (quiet e \<longrightarrow> quiet e')"
    using assms(2) by (auto simp: duer_add_resources_def Let_def dest!: cp call
        split: if_splits option.splits prod.splits)
  with stays_same [OF assms(1)] stuck_quiet [OF assms(1)] show ?thesis by blast
qed

lemma stuck_initialize: "stuck e \<Longrightarrow> stays_stuck e (duer_initialize e)"
proof -
  assume k: "stuck e"
  then obtain q where q: "g_events_handler e = Some q" by (auto simp: stuck_def quiet_def)
  let ?e = "duer_engine_register_notify True e"
  have i: "duer_initialize e = snd (duer_events_call_internal CallCreate ?e)"
    using q by (simp add: duer_initialize_def del: eng_malloc_sel)
  have "qview ?e = qview e" "quiet ?e" using k by (auto simp: duer_engine_register_notify_def stuck_def)
  then have s1: "stays_stuck e ?e" by (rule stays_same [OF k])
  then have "stuck ?e" by (simp add: stays_stuck_def)
  then have "stays_stuck ?e (snd (duer_events_call_internal CallCreate ?e))" by (rule stuck_call) simp_all
  with stays_trans [OF s1] i show ?thesis by simp
qed

lemma stuck_timer:
  assumes "stuck e" "duer_timer_expired d le e = Some e'"
  shows "stays_stuck e e'"
proof (cases "baidu_ca_is_started (g_handler e)")
  case True
  obtain alive m1 where c: "json_CreateObject (w_mem (e_world e)) = (alive, m1)" by (rule prod.exhaust)
  have world: "stuck (e\<lparr>e_world := w\<rparr>)" "stays_stuck (e\<lparr>e_world := w\<rparr>) v \<Longrightarrow> stays_stuck e v" for w v
    using assms(1) by (simp_all add: stuck_def stays_stuck_def)
  show ?thesis
  proof (cases alive)
    case None
    with True c assms have "e' = e\<lparr>e_world := (e_world e)\<lparr>w_mem := m1\<rparr>\<rparr>" by (simp add: duer_timer_expired_def)
    with assms(1) show ?thesis by (simp add: stays_stuck_def stuck_def)
  next
    case (Some a)
    obtain a1 m2 where n: "json_AddNumberToObject a ''alive'' 0 m1 = (a1, m2)" by (rule prod.exhaust)
    let ?e = "e\<lparr>e_world := (e_world e)\<lparr>w_mem := m2\<rparr>\<rparr>"
    from True c Some n assms(2) have "map_option snd (duer_data_report d le (Some a1) ?e) = Some e'"
      by (simp add: duer_timer_expired_def)
    then obtain rs where "duer_data_report d le (Some a1) ?e = Some (rs, e')" by auto
    from world(2) [OF stuck_report [OF world(1) this]] show ?thesis .
  qed
next
  case False
  with assms(2) have "e' = duer_engine_notify EVT_START DUER_ERR_CONNECT_TIMEOUT e"
    by (simp add: duer_timer_expired_def)
  with stuck_notify [OF assms(1), of EVT_START] show ?thesis by simp
qed

lemma st_code_0 [simp]: "st_code s = 0 \<longleftrightarrow> s = ST_STOPED"
  by (cases s) simp_all

lemma stuck_act:
  assumes "stuck e" "no_send_act a" "do_act d le a e = Some (Some e')"
  shows "stays_stuck e e'"
proof (cases a)
  case AInitialize
  with assms(3) have "e' = duer_initialize e" by simp
  with stuck_initialize [OF assms(1)] show ?thesis by simp
next
  case (AReport j)
  with assms(3) have "map_option snd (duer_data_report d le j e) = Some e'" by simp
  then obtain rs where "duer_data_report d le j e = Some (rs, e')" by auto
  then show ?thesis by (rule stuck_report [OF assms(1)])
next
  case (AStart s)
  with assms(3) stuck_duer_start [OF assms(1), of s] show ?thesis by simp
next
  case (AAddResources rs n)
  with assms(3) have "map_option snd (duer_add_resources rs n e) = Some e'" by simp
  then obtain st where "duer_add_resources rs n e = Some (st, e')" by auto
  with stuck_add_resources [OF assms(1)] show ?thesis by blast
next
  case AStop
  with assms(3) stuck_call [OF assms(1), of CallStop] show ?thesis by (simp add: duer_stop_def)
next
  case ATimer
  with assms(3) have "duer_timer_expired d le e = Some e'" by simp
  then show ?thesis by (rule stuck_timer [OF assms(1)])
next
  case (ATransport t)
  have same: "stays_stuck e e" using assms(1) by (simp add: stays_stuck_def)
  have recv: "stays_stuck e (snd (duer_events_call_internal CallDataAvailable e))"
    by (rule stuck_call [OF assms(1)]) simp_all
  from ATransport assms(3) have e': "e' = duer_transport_notify t e" by simp
  show ?thesis
  proof (cases t)
    case TEVT_RECV_RDY
    with recv e' show ?thesis by (simp add: duer_transport_notify_def duer_data_available_def)
  qed (use ATransport assms(2) e' same in \<open>simp_all add: duer_transport_notify_def\<close>)
next
  case ATask
  with assms(3) have "task_run d e = Some (Some e')" by simp
  then show ?thesis by (rule stuck_task [OF assms(1)])
qed (use assms(2) in simp_all)

section \<open>The stall\<close>

text \<open>C39: When a message waits and no send is posted, no sequence of reports, keep-alives, starts, stops,
  added resources, receive events and task steps sends it or any other message.\<close>

theorem engine_stall_forever:
  assumes "stuck e" "list_all no_send_act as" "run_acts d le as e = Some (Some e')"
  shows "stuck e' \<and> sent_msgs (e_log e') = sent_msgs (e_log e) \<and>
     lq_length (g_qcache_handler e) \<le> lq_length (g_qcache_handler e')"
  using assms
proof (induction as arbitrary: e)
  case (Cons a as)
  from Cons.prems(3) obtain e1 where a: "do_act d le a e = Some (Some e1)"
    and r: "run_acts d le as e1 = Some (Some e')"
    by (auto split: option.splits)
  have s: "stays_stuck e e1" using stuck_act [OF Cons.prems(1) _ a] Cons.prems(2) by simp
  then have "stuck e1" by (simp add: stays_stuck_def)
  from Cons.IH [OF this _ r] Cons.prems(2) s show ?case by (simp add: stays_stuck_def)
qed simp

theorem engine_stall_forever_witness:
  "\<exists>e'. run_acts strict_sdk True [AReport (Some (Json JObject None 0 [])), AReport (Some (Json JObject None 0 []))]
       (ready_eng\<lparr>g_qcache_handler := Some [Some msg_zero]\<rparr>) = Some (Some e') \<and>
     lq_length (g_qcache_handler e') = 3 \<and> sent_msgs (e_log e') = []"
proof -
  let ?e = "ready_eng\<lparr>g_qcache_handler := Some [Some msg_zero]\<rparr>"
  have "\<exists>e'. run_acts strict_sdk True [AReport (Some (Json JObject None 0 [])), AReport (Some (Json JObject None 0 []))]
       ?e = Some (Some e') \<and> lq_length (g_qcache_handler e') = 3"
    by (simp add: ready_eng_def fresh_eng_def duer_data_report_def duer_engine_enqueue_report_data_def
        report_payload_def json_CreateObject_def json_New_Item_def json_AddItemReferenceToObject_def
        json_AddItemToObject_def json_strdup_def strict_sdk_def baidu_ca_build_report_message_def
        queue_push_def report_check_def duer_engine_qcache_length_def eng_log_def quiet_world_def Let_def)
  then obtain e' where e': "run_acts strict_sdk True [AReport (Some (Json JObject None 0 [])),
      AReport (Some (Json JObject None 0 []))] ?e = Some (Some e')" "lq_length (g_qcache_handler e') = 3" by blast
  have "stuck ?e" by (simp add: stuck_def quiet_def ready_eng_def fresh_eng_def)
  from engine_stall_forever [OF this _ e'(1)] e' show ?thesis by (simp add: ready_eng_def fresh_eng_def)
qed

section \<open>How it comes about\<close>

lemma enqueue_report_ok:
  assumes "g_qcache_handler e = Some xs" "g_handler e = Some ctx" "mem_spare e"
    and "\<forall>p. sd_print d p \<noteq> None"
  obtains e1 m ctx1 where "duer_engine_enqueue_report_data d le (Some j) e = Some (DUER_OK, e1)"
    "g_qcache_handler e1 = Some (xs @ [Some m])" "g_handler e1 = Some ctx1"
    "g_events_handler e1 = g_events_handler e" "mem_spare e1"
proof -
  have "w_mem (e_world e) = []" using assms(3) by (simp add: mem_spare_def)
  moreover obtain s where "sd_print d (Json JObject None 0 [(Some ''data'', j)]) = Some s"
    using assms(4) by blast
  ultimately show thesis
    using assms(1,2) that
    by (simp add: duer_engine_enqueue_report_data_def
        report_payload_def json_CreateObject_def json_New_Item_def json_AddItemReferenceToObject_def
        json_AddItemToObject_def json_AddItemToArray_def json_strdup_def baidu_ca_build_report_message_def
        queue_push_def eng_log_def Let_def mem_spare_def)
qed

text \<open>Two reports made one after the other are sent; when each enters the queue before the other has
  looked at its length, neither posts a send and both messages are stuck.\<close>

theorem report_race_stalls:
  assumes "g_qcache_handler e = Some []" "g_handler e = Some ctx" "w_mem (e_world e) = []"
    and "\<forall>p. sd_print d p \<noteq> None" "quiet e"
  shows "\<exists>e1 e2.
     run_acts d le [AReport (Some j1), AReport (Some j2)] e = Some (Some e1) \<and>
     lq_length (g_qcache_handler e1) = 2 \<and> send_due e1 \<and>
     run_acts d le [APush (Some j1), APush (Some j2), ACheck DUER_OK, ACheck DUER_OK] e = Some (Some e2) \<and>
     lq_length (g_qcache_handler e2) = 2 \<and> stuck e2"
proof -
  have mem: "mem_spare e" using assms(3) by (simp add: mem_spare_def)
  obtain v1 m1 c1 where v1: "duer_engine_enqueue_report_data d le (Some j1) e = Some (DUER_OK, v1)"
    "g_qcache_handler v1 = Some [Some m1]" "g_handler v1 = Some c1" "g_events_handler v1 = g_events_handler e" "mem_spare v1"
    using enqueue_report_ok [OF assms(1,2) mem assms(4), of le j1] by auto
  obtain v2 m2 c2 where v2: "duer_engine_enqueue_report_data d le (Some j2) v1 = Some (DUER_OK, v2)"
    "g_qcache_handler v2 = Some ([Some m1] @ [Some m2])" "g_handler v2 = Some c2"
    "g_events_handler v2 = g_events_handler v1" "mem_spare v2"
    by (rule enqueue_report_ok [OF v1(2,3,5) assms(4), of le j2])
  have race: "run_acts d le [APush (Some j1), APush (Some j2), ACheck DUER_OK, ACheck DUER_OK] e = Some (Some v2)"
    using v1(1) v2(1,2) by (simp add: report_check_def duer_engine_qcache_length_def)
  have stuck: "stuck v2" using v1(4) v2(2,4) assms(5) by (simp add: stuck_def quiet_def)
  obtain q where q: "g_events_handler v1 = Some q" using v1(4) assms(5) by (auto simp: quiet_def)
  let ?u = "v1\<lparr>e_world := (e_world v1)\<lparr>w_mem := []\<rparr>, g_events_handler := Some (q @ [CallSend])\<rparr>"
  have check1: "report_check DUER_OK v1 = ?u"
    using v1(2,5) q by (simp add: report_check_def duer_engine_qcache_length_def duer_data_send_def
        duer_events_call_internal_def mem_spare_def)
  have u: "g_qcache_handler ?u = Some [Some m1]" "g_handler ?u = Some c1" "mem_spare ?u"
    using v1(2,3) by (simp_all add: mem_spare_def)
  obtain u2 m c where u2: "duer_engine_enqueue_report_data d le (Some j2) ?u = Some (DUER_OK, u2)"
    "g_qcache_handler u2 = Some ([Some m1] @ [Some m])" "g_handler u2 = Some c"
    "g_events_handler u2 = g_events_handler ?u" "mem_spare u2"
    by (rule enqueue_report_ok [OF u assms(4), of le j2])
  have "run_acts d le [AReport (Some j1), AReport (Some j2)] e = Some (Some u2)"
    using v1(1) check1 u2(1,2) by (simp add: duer_data_report_def report_check_def duer_engine_qcache_length_def)
  moreover have "send_due u2" using u2(4) by (simp add: send_due_def has_send_def)
  ultimately show ?thesis using race stuck u2(2) v2(2) by auto
qed

theorem report_race_stalls_witness:
  "\<exists>e2. run_acts strict_sdk True [APush (Some (Json JNULL None 0 [])), APush (Some (Json JNULL None 0 [])),
     ACheck DUER_OK, ACheck DUER_OK] ready_eng = Some (Some e2) \<and> stuck e2"
proof -
  have "g_qcache_handler ready_eng = Some []" "g_handler ready_eng = Some (fresh_ca\<lparr>ca_state := ST_STARTED\<rparr>)"
    "w_mem (e_world ready_eng) = []" "\<forall>p. sd_print strict_sdk p \<noteq> None" "quiet ready_eng"
    by (simp_all add: ready_eng_def fresh_eng_def quiet_world_def strict_sdk_def quiet_def)
  from report_race_stalls [OF this, of True "Json JNULL None 0 []" "Json JNULL None 0 []"] show ?thesis by blast
qed

text \<open>When the send the event task runs fails for another reason than that it would block, the
  connection is stopped and the message is stuck in the queue, unless another send was posted.\<close>

theorem failed_send_stalls:
  assumes "engine_send_body d e = Some (DUER_ERR_FAILED, e1)" "quiet e" "g_notify_func e"
    and "duer_engine_send d e = Some e'"
  shows "stuck e' \<and> baidu_ca_is_stopped (g_handler e') \<and> g_qcache_handler e' = g_qcache_handler e"
  using assms(1)
proof (cases rule: send_body_cases)
  case idle
  then show ?thesis by simp
next
  case (sent ctx m rs ctx1 w1)
  let ?v = "(eng_timer_stop e)\<lparr>g_handler := Some ctx1, e_world := w1\<rparr>"
  have e1: "e1 = ?v"
    using sent(4) by (auto simp: send_result_def Let_def split: if_splits prod.splits)
  then have v: "g_qcache_handler e1 = g_qcache_handler e" "quiet e1" "g_notify_func e1" "g_handler e1 = Some ctx1"
    using assms(2,3) by (simp_all add: eng_timer_stop_def quiet_def)
  have e': "e' = duer_engine_notify EVT_SEND_DATA DUER_ERR_FAILED e1"
    using assms(1,4) by (simp add: duer_engine_send_def)
  have q: "g_qcache_handler e' = g_qcache_handler e"
    using qview_notify [of EVT_SEND_DATA DUER_ERR_FAILED e1] v(1) e' by (simp add: qview_def)
  have "quiet e'" using e' quiet_notify [OF v(2), of EVT_SEND_DATA DUER_ERR_FAILED] by simp
  moreover have "1 \<le> lq_length (g_qcache_handler e)"
    using sent(2) by (auto simp: lq_top_def lq_length_def split: option.splits list.splits)
  moreover have "baidu_ca_is_stopped (g_handler e')"
    using e' v(3,4)
    by (auto simp: duer_engine_notify_def duer_engine_notify_callback_def notify_switch_def duer_engine_stop_def
        baidu_ca_is_stopped_def baidu_ca_stop_def duer_event_notify_def eng_log_def Let_def)
  ultimately show ?thesis using q by (simp add: stuck_def)
qed

theorem failed_send_stalls_witness:
  "\<exists>e'. duer_engine_send strict_sdk (ready_eng\<lparr>g_qcache_handler := Some [Some msg_zero]\<rparr>) = Some e' \<and> stuck e'"
proof -
  let ?e = "ready_eng\<lparr>g_qcache_handler := Some [Some msg_zero]\<rparr>"
  have "ca_sr fresh_ca = None" by (simp add: fresh_ca_def baidu_ca_acquire_def quiet_world_def)
  then obtain e1 where b: "engine_send_body strict_sdk ?e = Some (DUER_ERR_FAILED, e1)"
    by (simp add: engine_send_body_def ready_eng_def fresh_eng_def baidu_ca_is_stopped_def eng_timer_stop_def
        baidu_ca_send_data_def duer_coap_send_def send_result_def)
  then obtain e' where s: "duer_engine_send strict_sdk ?e = Some e'" by (simp add: duer_engine_send_def)
  have "quiet ?e" "g_notify_func ?e" by (simp_all add: ready_eng_def fresh_eng_def quiet_def)
  from failed_send_stalls [OF b this s] s show ?thesis by blast
qed

section \<open>Spinning\<close>

lemma mem_spare_id: "w_mem (e_world e) = [] \<Longrightarrow> e\<lparr>e_world := (e_world e)\<lparr>w_mem := []\<rparr>\<rparr> = e"
proof -
  assume h: "w_mem (e_world e) = []"
  have "(e_world e)\<lparr>w_mem := w_mem (e_world e)\<rparr> = e_world e" by simp
  then show ?thesis using h by simp
qed

text \<open>When a send is run while the connection is stopped and messages are queued, the event task
  posts it again and is back in the same state: it runs without end and without sending.\<close>

theorem stopped_engine_spins:
  assumes "baidu_ca_is_stopped (g_handler e)" "1 \<le> lq_length (g_qcache_handler e)"
    and "g_events_handler e = Some [CallSend]" "g_notify_func e" "w_mem (e_world e) = []"
  shows "run_acts d le (replicate n ATask) e = Some (Some e)"
proof -
  let ?e = "e\<lparr>g_events_handler := Some []\<rparr>"
  have "engine_send_body d ?e = Some (DUER_OK, ?e)"
    using assms(1) by (cases "g_handler e") (simp_all add: engine_send_body_def)
  then have "task_run d e = Some (Some (duer_engine_notify EVT_SEND_DATA DUER_OK ?e))"
    using assms(3) by (simp add: task_run_def run_call_def duer_engine_send_def)
  also have "duer_engine_notify EVT_SEND_DATA DUER_OK ?e =
      (e\<lparr>e_world := (e_world e)\<lparr>w_mem := []\<rparr>\<rparr>)\<lparr>g_events_handler := Some [CallSend]\<rparr>"
    using assms(2,4,5)
    by (simp add: duer_engine_notify_def duer_engine_notify_callback_def notify_switch_def
        duer_engine_qcache_length_def duer_data_send_def duer_events_call_internal_def)
  also have "\<dots> = e\<lparr>g_events_handler := g_events_handler e\<rparr>"
    using mem_spare_id [OF assms(5)] assms(3) by simp
  finally have "do_act d le ATask e = Some (Some e)" by simp
  then show ?thesis by (induction n) simp_all
qed

theorem stopped_engine_spins_witness:
  "run_acts strict_sdk True (replicate 1000 ATask)
     (ready_eng\<lparr>g_handler := None, g_qcache_handler := Some [Some msg_zero], g_events_handler := Some [CallSend]\<rparr>) =
   Some (Some (ready_eng\<lparr>g_handler := None, g_qcache_handler := Some [Some msg_zero],
     g_events_handler := Some [CallSend]\<rparr>))"
  by (rule stopped_engine_spins)
    (simp_all add: ready_eng_def fresh_eng_def baidu_ca_is_stopped_def quiet_world_def)

end
