(* ===== verification/EngineStart.thy ===== *)
theory EngineStart
  imports EngineStall
begin

text \<open>
  How the engine reports and retries a start: the delays between attempts, and what the application is
  told.
\<close>

section \<open>Reconnecting\<close>

lemma backoff_sint:
  assumes "n \<le> 21" shows "sint (1000 * 2 ^ n :: u32) = 1000 * 2 ^ n"
proof -
  have "(2::int) ^ n \<le> 2 ^ 21" using assms by (rule power_increasing) simp
  then have "(1000 * 2 ^ n :: int) < 2 ^ 31" by simp
  moreover have "- (2 ^ 31) \<le> (1000 * 2 ^ n :: int)" by (rule order_trans [of _ 0]) simp_all
  ultimately have "signed_take_bit 31 (1000 * 2 ^ n :: int) = 1000 * 2 ^ n"
    by (intro signed_take_bit_int_eq_self)
  moreover have "(1000 * 2 ^ n :: u32) = word_of_int (1000 * 2 ^ n)" by simp
  ultimately show ?thesis
    by (simp only: signed_of_int) simp
qed

lemma backoff_delay:
  assumes "n \<le> 21" shows "delay_timespec (scast (1000 * 2 ^ n :: u32)) = (2 ^ n, 0)"
proof -
  have le: "(1000 * 2 ^ n :: nat) \<le> 9223372036854"
    using power_increasing [OF assms, of "2::nat"] by simp
  have "scast (1000 * 2 ^ n :: u32) = (word_of_int (sint (1000 * 2 ^ n :: u32)) :: 64 word)" by simp
  also have "\<dots> = of_nat (1000 * 2 ^ n)" by (simp add: backoff_sint [OF assms])
  finally show ?thesis using delay_timespec_ms [OF le] by simp
qed

text \<open>While a start would block, the engine retries after 1, 2, 4, ... seconds; the 23rd such delay
  overflows to a negative one, which the timer refuses, and the engine does not retry again.\<close>

theorem start_backoff:
  assumes "g_handler e = Some ctx" "\<not> baidu_ca_is_started (Some ctx)"
    and "baidu_ca_start d ctx (e_world e) = Some (Some (DUER_ERR_TRANS_WOULD_BLOCK, evs, ctx1, w1))"
    and "g_timer e = Some t" "tm_timer t = Some p" "pt_value p = None" "tm_type t = TIMER_ONCE"
    and "g_start_timeout e = START_TIMEOUT * 2 ^ n" "n \<le> 22"
  shows "\<exists>e'. duer_engine_start d 0 None e = Some (Some e') \<and>
     g_start_timeout e' = START_TIMEOUT * 2 ^ (n + 1) \<and>
     armed_for (g_timer e') = (if n \<le> 21 then Some (2 ^ n, 0) else None)"
proof -
  let ?e = "e\<lparr>g_handler := Some ctx1, e_world := w1, e_log := e_log e @ map EffCoap evs\<rparr>"
  have same: "g_timer (duer_engine_notify EVT_START DUER_ERR_TRANS_WOULD_BLOCK v) = g_timer v"
    "g_start_timeout (duer_engine_notify EVT_START DUER_ERR_TRANS_WOULD_BLOCK v) = g_start_timeout v" for v :: "'a eng"
    by (simp_all add: duer_engine_notify_def duer_engine_notify_callback_def notify_switch_def)
  have run: "duer_engine_start d 0 None e = Some (Some (start_finish DUER_ERR_TRANS_WOULD_BLOCK ?e))"
    using assms(1-3) by (simp add: duer_engine_start_def eng_load_def eng_ca_start_def eng_put_ca_def start_status_def)
  have dbl: "push_bit (Suc 0) (START_TIMEOUT * 2 ^ n) = START_TIMEOUT * 2 ^ (n + 1)" by (simp add: push_bit_eq_mult)
  have timer: "armed_for (snd (duer_timer_start (Some t) (scast (START_TIMEOUT * 2 ^ n)))) =
      (if n \<le> 21 then Some (2 ^ n, 0) else None)"
  proof (cases "n \<le> 21")
    case True
    then show ?thesis
      using assms(5,7) by (simp add: duer_timer_start_def START_TIMEOUT_def backoff_delay timer_settime_def
          valid_timespec_def armed_for_def)
  next
    case False
    with assms(9) have n: "n = 22" by simp
    have "\<not> valid_timespec (delay_timespec (scast (START_TIMEOUT * 2 ^ 22)))"
      by (simp add: START_TIMEOUT_def delay_timespec_def valid_timespec_def Let_def)
    with n show ?thesis
      using assms(5-7) by (simp add: duer_timer_start_def timer_settime_def armed_for_def)
  qed
  show ?thesis
    using run assms(4,8) timer dbl
    by (simp add: start_finish_def start_timer_def same eng_timer_start_def)
qed

lemma blocked_start:
  "\<exists>evs ctx1 w1. baidu_ca_start strict_sdk (fresh_ca\<lparr>ca_state := ST_SR_DATA_RECEIVING, ca_sr := Some sample_coap\<rparr>)
     (quiet_world\<lparr>w_recv := [RecvErr 49]\<rparr>) = Some (Some (DUER_ERR_TRANS_WOULD_BLOCK, evs, ctx1, w1))"
proof -
  let ?ctx = "fresh_ca\<lparr>ca_state := ST_SR_DATA_RECEIVING, ca_sr := Some sample_coap\<rparr>"
  let ?w = "quiet_world\<lparr>w_recv := [RecvErr 49]\<rparr>"
  obtain v where v: "duer_trans_recv (e_le null_env) (e_crypt null_env) (Some (trans_zero\<lparr>tr_ctx := True\<rparr>)) (replicate 8 0) ?w =
      Some (DUER_ERR_TRANS_WOULD_BLOCK, replicate 8 0, Some (trans_zero\<lparr>tr_ctx := True\<rparr>), v)"
    by (simp add: duer_trans_recv_def duer_trans_is_encrypted_def duer_trans_get_callbacks_def
        duer_trans_wrapper_recv_def soc_recv_def trans_zero_def all_soc_ops_def quiet_world_def)
  have "duer_coap_data_available (sd_env strict_sdk) (Some sample_coap) ?w =
      Some (DUER_ERR_TRANS_WOULD_BLOCK, [], Some sample_coap, v)"
    using v by (simp add: duer_coap_data_available_def duer_coap_recv_def sample_coap_def remote_zero_def
        strict_sdk_def null_env_def)
  then have "ca_sr_receive strict_sdk ?ctx ?w = Some (DUER_ERR_TRANS_WOULD_BLOCK, [], ?ctx, v)"
    by (simp add: ca_sr_receive_def)
  then have "baidu_ca_run strict_sdk ?ctx ?w = Some (Some (DUER_ERR_TRANS_WOULD_BLOCK, [], ?ctx, v))"
    by (simp add: baidu_ca_run_def baidu_ca_create_service_router_def ca_sr_acquire_def)
  then have "baidu_ca_start strict_sdk ?ctx ?w = Some (Some (DUER_ERR_TRANS_WOULD_BLOCK, [], ?ctx, v))"
    by (simp add: baidu_ca_start_def baidu_ca_do_start_def ca_start_loop.simps)
  then show ?thesis by blast
qed

theorem start_backoff_witness:
  "\<exists>e'. duer_engine_start strict_sdk 0 None
      (ready_eng\<lparr>g_handler := Some (fresh_ca\<lparr>ca_state := ST_SR_DATA_RECEIVING, ca_sr := Some sample_coap\<rparr>),
        e_world := quiet_world\<lparr>w_recv := [RecvErr 49]\<rparr>, g_start_timeout := START_TIMEOUT * 2 ^ 22,
        g_timer := Some \<lparr>tm_timer = Some \<lparr>pt_value = None, pt_interval = (0, 0)\<rparr>,
          tm_type = TIMER_ONCE, tm_callback = True\<rparr>\<rparr>) = Some (Some e') \<and> armed_for (g_timer e') = None"
proof -
  let ?t = "\<lparr>tm_timer = Some \<lparr>pt_value = None, pt_interval = (0, 0)\<rparr>, tm_type = TIMER_ONCE, tm_callback = True\<rparr>"
  let ?ctx = "fresh_ca\<lparr>ca_state := ST_SR_DATA_RECEIVING, ca_sr := Some sample_coap\<rparr>"
  let ?e = "ready_eng\<lparr>g_handler := Some ?ctx, e_world := quiet_world\<lparr>w_recv := [RecvErr 49]\<rparr>,
     g_start_timeout := START_TIMEOUT * 2 ^ 22, g_timer := Some ?t\<rparr>"
  obtain evs ctx1 w1 where b: "baidu_ca_start strict_sdk ?ctx (e_world ?e) =
      Some (Some (DUER_ERR_TRANS_WOULD_BLOCK, evs, ctx1, w1))"
    using blocked_start by auto
  have "g_handler ?e = Some ?ctx" "\<not> baidu_ca_is_started (Some ?ctx)" by (simp_all add: baidu_ca_is_started_def)
  from start_backoff [OF this b, of ?t "\<lparr>pt_value = None, pt_interval = (0, 0)\<rparr>" 22]
  show ?thesis by auto
qed

section \<open>What the application is told\<close>

text \<open>While the agent is starting, a receive event whose processing returns a byte count instead of a
  status, as after a frame with a foreign header, makes the engine tell the application that it
  has started, though the agent has not.\<close>

theorem started_event_unearned:
  assumes "g_handler e = Some ctx" "\<not> baidu_ca_is_started (Some ctx)" "\<not> baidu_ca_is_stopped (Some ctx)"
    and "baidu_ca_data_available d ctx (e_world e) = Some (Some (rs, [], ctx1, w1))" "0 < rs"
    and "\<not> baidu_ca_is_started (Some ctx1)" "g_notify_func e" "g_event_callback e"
  shows "\<exists>e'. duer_engine_data_available d e = Some (Some e') \<and>
     e_log e' = e_log e @ [EffVoiceInit, EffStarted DUER_OK] \<and> \<not> duer_engine_is_started e'"
  using assms
  by (simp add: duer_engine_data_available_def eng_put_ca_def data_finish_def data_status_def
      duer_engine_notify_def duer_engine_notify_callback_def notify_switch_def duer_event_notify_def
      eng_timer_start_def eng_log_def duer_engine_is_started_def)

lemma foreign_frame:
  "\<exists>ctx1 w1. baidu_ca_data_available strict_sdk (fresh_ca\<lparr>ca_state := ST_SR_DATA_RECEIVING, ca_sr := Some sample_coap\<rparr>)
     (quiet_world\<lparr>w_recv := [RecvData (replicate 8 0)]\<rparr>) = Some (Some (8, [], ctx1, w1)) \<and>
     \<not> baidu_ca_is_started (Some ctx1)"
proof -
  let ?ctx = "fresh_ca\<lparr>ca_state := ST_SR_DATA_RECEIVING, ca_sr := Some sample_coap\<rparr>"
  let ?w = "quiet_world\<lparr>w_recv := [RecvData (replicate 8 0)]\<rparr>"
  obtain v where v: "duer_trans_recv (e_le null_env) (e_crypt null_env) (Some (trans_zero\<lparr>tr_ctx := True\<rparr>)) (replicate 8 0) ?w =
      Some (8, replicate 8 0, Some (trans_zero\<lparr>tr_ctx := True\<rparr>), v)"
    by (simp add: duer_trans_recv_def duer_trans_is_encrypted_def duer_trans_get_callbacks_def
        duer_trans_wrapper_recv_def soc_recv_def trans_zero_def all_soc_ops_def quiet_world_def)
  have "duer_htonl True (load32 True (replicate 8 0)) \<noteq> COAP_TCP_HDR" by code_simp
  then have "duer_coap_data_available (sd_env strict_sdk) (Some sample_coap) ?w = Some (8, [], Some sample_coap, v)"
    using v by (simp add: duer_coap_data_available_def duer_coap_recv_def sample_coap_def remote_zero_def
        strict_sdk_def null_env_def)
  then have "ca_sr_receive strict_sdk ?ctx ?w = Some (8, [], ?ctx, v)"
    by (simp add: ca_sr_receive_def)
  then have "baidu_ca_run strict_sdk ?ctx ?w = Some (Some (8, [], ?ctx, v))"
    by (simp add: baidu_ca_run_def baidu_ca_create_service_router_def ca_sr_acquire_def ca_sr_finish_def)
  then have "baidu_ca_data_available strict_sdk ?ctx ?w = Some (Some (8, [], ?ctx, v))"
    by (simp add: baidu_ca_data_available_def baidu_ca_do_start_def ca_start_loop.simps)
  then show ?thesis by (simp add: baidu_ca_is_started_def)
qed

theorem started_event_unearned_witness:
  "\<exists>e'. duer_engine_data_available strict_sdk
      (ready_eng\<lparr>g_handler := Some (fresh_ca\<lparr>ca_state := ST_SR_DATA_RECEIVING, ca_sr := Some sample_coap\<rparr>),
        e_world := quiet_world\<lparr>w_recv := [RecvData (replicate 8 0)]\<rparr>, g_event_callback := True\<rparr>) = Some (Some e') \<and>
     EffStarted DUER_OK \<in> set (e_log e')"
proof -
  let ?ctx = "fresh_ca\<lparr>ca_state := ST_SR_DATA_RECEIVING, ca_sr := Some sample_coap\<rparr>"
  let ?e = "ready_eng\<lparr>g_handler := Some ?ctx, e_world := quiet_world\<lparr>w_recv := [RecvData (replicate 8 0)]\<rparr>,
     g_event_callback := True\<rparr>"
  obtain ctx1 w1 where b: "baidu_ca_data_available strict_sdk ?ctx (e_world ?e) = Some (Some (8, [], ctx1, w1))"
    "\<not> baidu_ca_is_started (Some ctx1)"
    using foreign_frame by auto
  have "g_handler ?e = Some ?ctx" "\<not> baidu_ca_is_started (Some ?ctx)" "\<not> baidu_ca_is_stopped (Some ?ctx)"
    "g_notify_func ?e" "g_event_callback ?e"
    by (simp_all add: baidu_ca_is_started_def baidu_ca_is_stopped_def ready_eng_def)
  from started_event_unearned [OF this(1-3) b(1) _ b(2) this(4,5)] show ?thesis by auto
qed

end
