(* ===== verification/OtaVerify.thy ===== *)
theory OtaVerify
  imports NetUtil
begin

text \<open>
  \<^verbatim>\<open>modules/OTA/Unpacker/verification.c\<close>: the signature check of an update package. The package comes
  in pieces of any size; the first 280 bytes are its header (\<^verbatim>\<open>package_header_t\<close> in
  \<^verbatim>\<open>pack_include.h\<close>), which carries the signature, and everything behind them is hashed.

  The SHA-1 context of the library is the list of bytes it has been fed; the digest and the RSA check
  are the argument \<open>rsa_verify\<close>, which gets the hashed bytes and the signature.
\<close>

section \<open>The package header\<close>

definition KEY_LEN :: nat where "KEY_LEN = 128"
definition PCK_HEADER_SZ :: nat where "PCK_HEADER_SZ = 280"

text \<open>Offsets of the fields; all are aligned, so the structure has no padding.\<close>

definition HDR_PACKAGE_SIG :: nat where "HDR_PACKAGE_SIG = 4 + 4 + 4"
definition HDR_META_SIZE :: nat where "HDR_META_SIZE = 4 + 4 + 4 + 128 + 4 + 128"

definition hdr_meta_size :: "bool \<Rightarrow> byte list \<Rightarrow> u32 option" where
  "hdr_meta_size le hdr = map_option (load32 le) (memget HDR_META_SIZE 4 hdr)"

section \<open>The context\<close>

record verify_ctx =
  vf_recieved :: u32
  vf_processed :: u32
  vf_sig_stored :: u32
  vf_header :: "byte list option"
  vf_sha1 :: "byte list option"

text \<open>The header buffer is cleared without a test.\<close>

definition mbed_hash_init :: "mem \<Rightarrow> (verify_ctx option \<times> mem) option" where
  "mbed_hash_init m =
     (let (ok, m1) = malloc_ok m
      in if \<not> ok then Some (None, m1)
         else
           (let (ok2, m2) = malloc_ok m1; (ok3, m3) = malloc_ok m2
            in if \<not> ok2 then None
               else if \<not> ok3 then Some (None, m3)
               else Some (Some \<lparr>vf_recieved = 0, vf_processed = 0, vf_sig_stored = 0,
                                vf_header = Some (replicate PCK_HEADER_SZ 0), vf_sha1 = Some []\<rparr>, m3)))"

text \<open>Copying into the header buffer at the position reached.\<close>

definition store_header :: "verify_ctx \<Rightarrow> byte list \<Rightarrow> verify_ctx option" where
  "store_header v bs =
     (case vf_header v of
        None \<Rightarrow> None
      | Some h \<Rightarrow>
          map_option (\<lambda>h1. v\<lparr>vf_header := Some h1\<rparr>) (memput (unat (vf_sig_stored v)) bs h))"

definition sha1_update :: "verify_ctx \<Rightarrow> byte list \<Rightarrow> verify_ctx option" where
  "sha1_update v bs =
     (case vf_sha1 v of
        None \<Rightarrow> None
      | Some x \<Rightarrow> Some (v\<lparr>vf_sha1 := Some (x @ bs), vf_processed := vf_processed v + of_nat (length bs)\<rparr>))"

definition mbed_hash_update_key :: "verify_ctx option \<Rightarrow> byte list \<Rightarrow> u32 \<Rightarrow> verify_ctx option option" where
  "mbed_hash_update_key ctx buffer buffer_size =
     (case ctx of
        None \<Rightarrow> Some None
      | Some v0 \<Rightarrow>
          (let v = v0\<lparr>vf_recieved := vf_recieved v0 + buffer_size\<rparr>
           in if vf_sig_stored v < of_nat PCK_HEADER_SZ then
                (if vf_recieved v \<le> of_nat PCK_HEADER_SZ
                 then Option.bind (memget 0 (unat buffer_size) buffer)
                        (\<lambda>bs. map_option (\<lambda>v1. Some (v1\<lparr>vf_sig_stored := vf_sig_stored v1 + buffer_size\<rparr>))
                                (store_header v bs))
                 else
                   (let n = of_nat PCK_HEADER_SZ - vf_sig_stored v
                    in Option.bind (memget 0 (unat n) buffer)
                         (\<lambda>bs. Option.bind (store_header v bs)
                           (\<lambda>v1. Option.bind (memget (unat n) (unat (buffer_size - n)) buffer)
                             (\<lambda>rest. map_option Some
                               (sha1_update (v1\<lparr>vf_sig_stored := of_nat PCK_HEADER_SZ\<rparr>) rest))))))
              else Option.bind (memget 0 (unat buffer_size) buffer)
                     (\<lambda>bs. map_option Some (sha1_update v bs))))"

definition mbed_rsa_ca_pkcs1_verify ::
  "(byte list \<Rightarrow> byte list \<Rightarrow> bool) \<Rightarrow> verify_ctx \<Rightarrow> int option" where
  "mbed_rsa_ca_pkcs1_verify rsa_verify v =
     (case (vf_header v, vf_sha1 v) of
        (Some h, Some x) \<Rightarrow>
          map_option (\<lambda>sig. if rsa_verify x sig then 0 else - 1) (memget HDR_PACKAGE_SIG KEY_LEN h)
      | _ \<Rightarrow> None)"

text \<open>\<^verbatim>\<open>mbed_verification\<close> (\<^verbatim>\<open>package_api.c\<close>) frees the context in every case; \<open>key_ok\<close>: the key is set up.\<close>

definition mbed_verification ::
  "bool \<Rightarrow> (byte list \<Rightarrow> byte list \<Rightarrow> bool) \<Rightarrow> verify_ctx option \<Rightarrow> int option" where
  "mbed_verification key_ok rsa_verify ctx =
     (if \<not> key_ok then Some (- 1) else Option.bind ctx (mbed_rsa_ca_pkcs1_verify rsa_verify))"

section \<open>Chunks\<close>

fun update_all :: "verify_ctx option \<Rightarrow> byte list list \<Rightarrow> verify_ctx option option" where
  "update_all ctx [] = Some ctx"
| "update_all ctx (c # cs) =
     Option.bind (mbed_hash_update_key ctx c (of_nat (length c))) (\<lambda>ctx1. update_all ctx1 cs)"

text \<open>
  What a context has seen: the stream \<open>xs\<close>, of any length. The counter of received bytes may have
  wrapped; it is only read while the header is incomplete.
\<close>

definition seen :: "verify_ctx \<Rightarrow> byte list \<Rightarrow> bool" where
  "seen v xs \<longleftrightarrow>
     vf_recieved v = of_nat (length xs) \<and>
     vf_sig_stored v = of_nat (min PCK_HEADER_SZ (length xs)) \<and>
     vf_header v = Some (take PCK_HEADER_SZ xs @ replicate (PCK_HEADER_SZ - length xs) 0) \<and>
     vf_sha1 v = Some (drop PCK_HEADER_SZ xs)"

lemma u32_le: "m < 2 ^ 32 \<Longrightarrow> n < 2 ^ 32 \<Longrightarrow> (of_nat m :: u32) \<le> of_nat n \<longleftrightarrow> m \<le> n"
  by (simp add: word_le_nat_alt u32_of_nat)

lemma u32_less: "m < 2 ^ 32 \<Longrightarrow> n < 2 ^ 32 \<Longrightarrow> (of_nat m :: u32) < of_nat n \<longleftrightarrow> m < n"
  by (simp add: word_less_nat_alt u32_of_nat)

lemma u32_diff: "m \<le> n \<Longrightarrow> (of_nat n :: u32) - of_nat m = of_nat (n - m)"
  by (simp add: of_nat_diff)

lemma u32_add: "(of_nat m :: u32) + of_nat n = of_nat (m + n)"
  by simp

text \<open>A piece that fits into what is missing of the header.\<close>

lemma store_header_seen:
  assumes "vf_header v = Some (take PCK_HEADER_SZ xs @ replicate (PCK_HEADER_SZ - length xs) 0)"
    and "unat (vf_sig_stored v) = length xs" and "length xs + length bs \<le> PCK_HEADER_SZ"
  shows "store_header v bs =
     Some (v\<lparr>vf_header := Some (take PCK_HEADER_SZ (xs @ bs) @ replicate (PCK_HEADER_SZ - length (xs @ bs)) 0)\<rparr>)"
  using assms by (simp add: store_header_def memput_def)

lemma update_after_header:
  assumes v: "seen v xs" and n: "PCK_HEADER_SZ \<le> length xs" and c: "length c < 2 ^ 32 - PCK_HEADER_SZ"
  shows "\<exists>v'. mbed_hash_update_key (Some v) c (of_nat (length c)) = Some (Some v') \<and> seen v' (xs @ c)"
proof -
  have st: "\<not> vf_sig_stored v < of_nat PCK_HEADER_SZ"
    using v n by (simp add: seen_def min_def)
  have len: "unat (of_nat (length c) :: u32) = length c" using c by (simp add: u32_of_nat)
  show ?thesis
    using v n by (simp add: mbed_hash_update_key_def Let_def st len seen_def sha1_update_def)
qed

lemma update_within_header:
  assumes v: "seen v xs" and n: "length xs < PCK_HEADER_SZ" and k: "length xs + length c \<le> PCK_HEADER_SZ"
  shows "\<exists>v'. mbed_hash_update_key (Some v) c (of_nat (length c)) = Some (Some v') \<and> seen v' (xs @ c)"
proof -
  let ?v = "v\<lparr>vf_recieved := vf_recieved v + of_nat (length c)\<rparr>"
  have P: "PCK_HEADER_SZ < 2 ^ 32" by (simp add: PCK_HEADER_SZ_def)
  have st: "vf_sig_stored v = of_nat (length xs)" using v n by (simp add: seen_def min_def)
  have lt: "vf_sig_stored v < of_nat PCK_HEADER_SZ" unfolding st using n P by (subst u32_less) auto
  have le: "vf_recieved v + of_nat (length c) \<le> of_nat PCK_HEADER_SZ"
    using v k P by (simp only: seen_def u32_add) (subst u32_le; simp)
  have len: "unat (of_nat (length c) :: u32) = length c" using k P by (intro u32_of_nat) linarith
  have stn: "unat (vf_sig_stored ?v) = length xs" unfolding st using n P by (simp add: st u32_of_nat)
  have sh: "store_header ?v c =
     Some (?v\<lparr>vf_header := Some (take PCK_HEADER_SZ (xs @ c) @ replicate (PCK_HEADER_SZ - length (xs @ c)) 0)\<rparr>)"
    by (rule store_header_seen[OF _ stn k]) (use v in \<open>simp add: seen_def\<close>)
  have eq: "mbed_hash_update_key (Some v) c (of_nat (length c)) =
      Some (Some (?v\<lparr>vf_header := Some (take PCK_HEADER_SZ (xs @ c) @ replicate (PCK_HEADER_SZ - length (xs @ c)) 0),
                       vf_sig_stored := vf_sig_stored v + of_nat (length c)\<rparr>))"
    by (simp add: mbed_hash_update_key_def lt le len sh del: take_append)
  have "seen (?v\<lparr>vf_header := Some (take PCK_HEADER_SZ (xs @ c) @ replicate (PCK_HEADER_SZ - length (xs @ c)) 0),
                  vf_sig_stored := vf_sig_stored v + of_nat (length c)\<rparr>) (xs @ c)"
    using v n k by (simp add: seen_def min_def) (metis of_nat_add)
  then show ?thesis unfolding eq by blast
qed

lemma update_over_header:
  assumes v: "seen v xs" and n: "length xs + length a = PCK_HEADER_SZ" and a: "a \<noteq> []" and b: "b \<noteq> []"
    and c: "length (a @ b) < 2 ^ 32 - PCK_HEADER_SZ"
  shows "\<exists>v'. mbed_hash_update_key (Some v) (a @ b) (of_nat (length (a @ b))) = Some (Some v') \<and>
     seen v' (xs @ a @ b)"
proof -
  let ?v = "v\<lparr>vf_recieved := vf_recieved v + of_nat (length (a @ b))\<rparr>"
  have P: "PCK_HEADER_SZ < 2 ^ 32" by (simp add: PCK_HEADER_SZ_def)
  have n1: "length xs < PCK_HEADER_SZ" using n a by (cases a) auto
  have s32: "length (xs @ a @ b) < 2 ^ 32" using n1 c by simp
  have st: "vf_sig_stored v = of_nat (length xs)" using v n1 by (simp add: seen_def min_def)
  have lt: "vf_sig_stored v < of_nat PCK_HEADER_SZ" unfolding st using n1 P by (subst u32_less) auto
  have rc: "vf_recieved v + of_nat (length (a @ b)) = of_nat (length (xs @ a @ b))"
    using v by (simp add: seen_def)
  have gt: "\<not> vf_recieved v + of_nat (length (a @ b)) \<le> of_nat PCK_HEADER_SZ"
    unfolding rc using P s32 n b by (subst u32_le) (auto simp: neq_Nil_conv)
  have m: "of_nat PCK_HEADER_SZ - vf_sig_stored v = of_nat (length a)" unfolding st n[symmetric] by simp
  have mn: "unat (of_nat (length a) :: u32) = length a" using c by (intro u32_of_nat) simp
  have r: "(of_nat (length (a @ b)) :: u32) - of_nat (length a) = of_nat (length b)" by simp
  have rn: "unat (of_nat (length b) :: u32) = length b" using c by (intro u32_of_nat) simp
  have g1: "memget 0 (length a) (a @ b) = Some a" by (simp add: memget_def)
  have g2: "memget (length a) (length b) (a @ b) = Some b" by (simp add: memget_def)
  have stn: "unat (vf_sig_stored ?v) = length xs" using n1 P by (simp add: st u32_of_nat)
  have hd: "vf_header ?v = Some (take PCK_HEADER_SZ xs @ replicate (PCK_HEADER_SZ - length xs) 0)"
    and sha: "vf_sha1 v = Some []" using v n1 by (simp_all add: seen_def)
  have sh: "store_header ?v a = Some (?v\<lparr>vf_header := Some (xs @ a)\<rparr>)"
    using store_header_seen[OF hd stn] n by simp
  have eq: "mbed_hash_update_key (Some v) (a @ b) (of_nat (length (a @ b))) =
      Some (Some (?v\<lparr>vf_header := Some (xs @ a), vf_sig_stored := of_nat PCK_HEADER_SZ, vf_sha1 := Some b,
                       vf_processed := vf_processed v + of_nat (length b)\<rparr>))"
    unfolding mbed_hash_update_key_def
    by (simp add: lt gt m mn r rn g1 g2 sh sha1_update_def sha del: length_append of_nat_add)
  have "seen (?v\<lparr>vf_header := Some (xs @ a), vf_sig_stored := of_nat PCK_HEADER_SZ, vf_sha1 := Some b,
                       vf_processed := vf_processed v + of_nat (length b)\<rparr>) (xs @ a @ b)"
    using n rc by (simp add: seen_def n[symmetric])
  then show ?thesis unfolding eq by blast
qed

lemma update_seen:
  assumes "seen v xs" "length c < 2 ^ 32 - PCK_HEADER_SZ"
  shows "\<exists>v'. mbed_hash_update_key (Some v) c (of_nat (length c)) = Some (Some v') \<and> seen v' (xs @ c)"
proof (cases "length xs < PCK_HEADER_SZ \<and> PCK_HEADER_SZ < length xs + length c")
  case True
  let ?m = "PCK_HEADER_SZ - length xs"
  have c: "c \<noteq> []" "\<not> length c \<le> ?m" using True by auto
  show ?thesis
    using update_over_header[OF assms(1), of "take ?m c" "drop ?m c"] c True assms(2) by simp
next
  case False
  then show ?thesis
    using update_after_header[OF assms(1) _ assms(2)] update_within_header[OF assms(1)]
    by (cases "PCK_HEADER_SZ \<le> length xs") auto
qed

lemma update_all_seen:
  assumes "seen v xs" "\<forall>c \<in> set cs. length c < 2 ^ 32 - PCK_HEADER_SZ"
  shows "\<exists>v'. update_all (Some v) cs = Some (Some v') \<and> seen v' (xs @ concat cs)"
  using assms
proof (induction cs arbitrary: v xs)
  case (Cons c cs)
  obtain v1 where v1: "mbed_hash_update_key (Some v) c (of_nat (length c)) = Some (Some v1)" "seen v1 (xs @ c)"
    using update_seen[OF Cons.prems(1)] Cons.prems(2) by auto
  show ?case using Cons.IH[OF v1(2)] Cons.prems(2) by (simp add: v1(1))
qed simp

lemma hash_init_seen:
  assumes "mbed_hash_init m = Some (Some v, m')"
  shows "seen v []"
  using assms by (auto simp: mbed_hash_init_def seen_def Let_def split: prod.splits if_splits)

section \<open>What is checked\<close>

lemma header_signature:
  assumes "seen v xs" "PCK_HEADER_SZ \<le> length xs"
  shows "mbed_rsa_ca_pkcs1_verify rsa v =
     Some (if rsa (drop PCK_HEADER_SZ xs) (take KEY_LEN (drop HDR_PACKAGE_SIG xs)) then 0 else - 1)"
proof -
  have "memget HDR_PACKAGE_SIG KEY_LEN (take PCK_HEADER_SZ xs) = Some (take KEY_LEN (drop HDR_PACKAGE_SIG xs))"
    using assms(2) by (simp add: memget_def KEY_LEN_def HDR_PACKAGE_SIG_def PCK_HEADER_SZ_def drop_take)
  then show ?thesis using assms by (simp add: mbed_rsa_ca_pkcs1_verify_def seen_def)
qed

text \<open>C10: However the network cuts a package into pieces, the verdict on it is that of the RSA check on
  the bytes behind the header and the signature in the header; the pieces may be of any sizes below
  \<open>2 ^ 32 - 280\<close> bytes and any number, also when the counters wrap.\<close>

theorem verification_chunk_independent:
  assumes "mbed_hash_init m = Some (Some v, m')" and "\<forall>c \<in> set cs. length c < 2 ^ 32 - PCK_HEADER_SZ"
    and "PCK_HEADER_SZ \<le> length (concat cs)"
  shows "Option.bind (update_all (Some v) cs) (mbed_verification True rsa) =
     Some (if rsa (drop PCK_HEADER_SZ (concat cs)) (take KEY_LEN (drop HDR_PACKAGE_SIG (concat cs)))
           then 0 else - 1)"
proof -
  obtain v' where v': "update_all (Some v) cs = Some (Some v')" "seen v' (concat cs)"
    using update_all_seen[OF hash_init_seen[OF assms(1)] assms(2)] by auto
  then show ?thesis using header_signature[OF v'(2) assms(3)] by (simp add: mbed_verification_def)
qed

theorem verification_chunk_independent_witness:
  "Option.bind (update_all (Some \<lparr>vf_recieved = 0, vf_processed = 0, vf_sig_stored = 0,
        vf_header = Some (replicate PCK_HEADER_SZ 0), vf_sha1 = Some []\<rparr>)
      [replicate 100 0, replicate 180 7, [1, 2], [3]])
     (mbed_verification True (\<lambda>h sig. h = [1, 2, 3] \<and> hd sig = 0)) = Some 0"
  by (subst verification_chunk_independent[where m = "[]" and m' = "[]"])
    (simp_all add: mbed_hash_init_def PCK_HEADER_SZ_def HDR_PACKAGE_SIG_def KEY_LEN_def)

end
