(* ===== verification/CText.thy ===== *)
theory CText
  imports DuerPrelude "HOL-Library.Sublist"
begin

text \<open>
  The functions of the C library for strings that the code uses: printing and reading numbers,
  \<^verbatim>\<open>strchr\<close>, \<^verbatim>\<open>strstr\<close>, \<^verbatim>\<open>strncmp\<close> and the conversions of \<^verbatim>\<open>sscanf\<close>. A string is the characters
  before its terminating zero; a position stands for a pointer into it.

  \<^verbatim>\<open>sscanf\<close> and \<^verbatim>\<open>atoi\<close> give the number that was written, of any size. Storing a number that its
  type cannot hold has no defined result, and the users of these functions say so.
\<close>

section \<open>Numbers as text\<close>

definition digit :: "nat \<Rightarrow> char" where "digit n = char_of (48 + n)"

fun dec :: "nat \<Rightarrow> string" where
  "dec n = (if n < 10 then [digit n] else dec (n div 10) @ [digit (n mod 10)])"

declare dec.simps [simp del]

definition sprintf_d :: "int \<Rightarrow> string" where
  "sprintf_d n = (if n < 0 then CHR ''-'' # dec (nat (- n)) else dec (nat n))"

definition is_digit :: "char \<Rightarrow> bool" where
  "is_digit c = (48 \<le> (of_char c :: nat) \<and> (of_char c :: nat) \<le> 57)"

definition atoi_space :: "char \<Rightarrow> bool" where
  "atoi_space c = ((of_char c :: nat) = 32 \<or> 9 \<le> (of_char c :: nat) \<and> (of_char c :: nat) \<le> 13)"

definition digits_val :: "string \<Rightarrow> nat" where
  "digits_val s = foldl (\<lambda>n c. 10 * n + (of_char c - 48)) 0 (takeWhile is_digit s)"

definition atoi :: "string \<Rightarrow> int" where
  "atoi s =
     (case dropWhile atoi_space s of
        [] \<Rightarrow> 0
      | c # t \<Rightarrow>
          if c = CHR ''-'' then - int (digits_val t)
          else if c = CHR ''+'' then int (digits_val t)
          else int (digits_val (c # t)))"

section \<open>Printing and reading numbers\<close>

lemma of_char_digit: "k < 10 \<Longrightarrow> of_char (digit k) = 48 + k"
  by (simp add: digit_def)

lemma is_digit_digit [simp]: "k < 10 \<Longrightarrow> is_digit (digit k)"
  by (simp add: is_digit_def of_char_digit)

lemma dec_all_digits: "list_all is_digit (dec n)"
  by (induction n rule: dec.induct) (subst dec.simps, simp)

lemma dec_neq_Nil [simp]: "dec n \<noteq> []"
  by (subst dec.simps) simp

lemma takeWhile_dec [simp]: "takeWhile is_digit (dec n) = dec n"
  using dec_all_digits[of n] by (simp add: list_all_iff)

lemma digits_val_dec [simp]: "digits_val (dec n) = n"
proof -
  have "foldl (\<lambda>n c. 10 * n + (of_char c - 48)) 0 (dec n) = n"
  proof (induction n rule: dec.induct)
    case (1 n)
    then show ?case
      by (subst dec.simps) (simp add: of_char_digit)
  qed
  then show ?thesis by (simp add: digits_val_def)
qed

lemma digit_not_special: "is_digit c \<Longrightarrow> \<not> atoi_space c \<and> c \<noteq> CHR ''-'' \<and> c \<noteq> CHR ''+''"
  by (auto simp: is_digit_def atoi_space_def)

lemma atoi_dec [simp]: "atoi (dec n) = int n"
proof -
  obtain c t where ct: "dec n = c # t" using dec_neq_Nil by (meson list.exhaust)
  have "is_digit c" using dec_all_digits[of n] by (simp add: ct)
  then have "dropWhile atoi_space (dec n) = c # t" "c \<noteq> CHR ''-''" "c \<noteq> CHR ''+''"
    using digit_not_special by (auto simp: ct)
  then have "atoi (dec n) = int (digits_val (c # t))" by (simp add: atoi_def)
  then show ?thesis by (simp add: ct[symmetric])
qed

lemma length_dec: "0 < k \<Longrightarrow> length (dec n) \<le> k \<longleftrightarrow> n < 10 ^ k"
proof (induction n arbitrary: k rule: dec.induct)
  case (1 n)
  obtain j where k: "k = Suc j" using 1(2) by (cases k) auto
  show ?case
  proof (cases "n < 10")
    case True
    have "(10::nat) \<le> 10 ^ k" using 1(2) by (simp add: k)
    then show ?thesis using True 1(2) by (subst dec.simps) simp
  next
    case False
    show ?thesis
    proof (cases j)
      case 0
      then show ?thesis using False by (subst dec.simps) (simp add: k)
    next
      case (Suc i)
      have "length (dec (n div 10)) \<le> j \<longleftrightarrow> n div 10 < 10 ^ j" using 1(1)[OF False, of j] Suc by simp
      also have "\<dots> \<longleftrightarrow> n < 10 ^ k" by (simp add: k div_less_iff_less_mult mult.commute)
      finally show ?thesis using False by (subst dec.simps) (simp add: k)
    qed
  qed
qed


section \<open>Strings in memory\<close>

abbreviation NUL :: char where "NUL \<equiv> CHR 0x00"
abbreviation CR :: char where "CR \<equiv> CHR 0x0D"
abbreviation LF :: char where "LF \<equiv> CHR 0x0A"
abbreviation CRLF :: string where "CRLF \<equiv> [CR, LF]"

text \<open>The string at the start of a buffer.\<close>

definition cstr :: "string \<Rightarrow> string" where
  "cstr b = takeWhile (\<lambda>c. c \<noteq> NUL) b"

fun strchr :: "char \<Rightarrow> string \<Rightarrow> nat option" where
  "strchr c [] = None"
| "strchr c (d # s) = (if d = c then Some 0 else map_option Suc (strchr c s))"

fun strstr :: "string \<Rightarrow> string \<Rightarrow> nat option" where
  "strstr p [] = (if p = [] then Some 0 else None)"
| "strstr p (c # s) = (if prefix p (c # s) then Some 0 else map_option Suc (strstr p s))"

definition strncmp_eq :: "nat \<Rightarrow> string \<Rightarrow> string \<Rightarrow> bool" where
  "strncmp_eq n a b = (take n (a @ [NUL]) = take n (b @ [NUL]))"

section \<open>Scanning numbers\<close>

text \<open>White space, a sign and digits: the number and what follows it.\<close>

fun scan_sign :: "string \<Rightarrow> bool \<times> string" where
  "scan_sign [] = (False, [])"
| "scan_sign (c # s) =
     (if c = CHR ''-'' then (True, s) else if c = CHR ''+'' then (False, s) else (False, c # s))"

definition scan_d :: "string \<Rightarrow> (int \<times> string) option" where
  "scan_d s =
     (let (neg, t) = scan_sign (dropWhile atoi_space s)
      in if takeWhile is_digit t = [] then None
         else Some (if neg then - int (digits_val t) else int (digits_val t), dropWhile is_digit t))"

definition hex_digit :: "char \<Rightarrow> bool" where
  "hex_digit c = (is_digit c \<or> (let n = of_char c :: nat in 65 \<le> n \<and> n \<le> 70 \<or> 97 \<le> n \<and> n \<le> 102))"

definition hex_val :: "char \<Rightarrow> nat" where
  "hex_val c = (let n = of_char c in if n < 58 then n - 48 else if n < 71 then n - 55 else n - 87)"

definition skip_0x :: "string \<Rightarrow> string" where
  "skip_0x s = (if take 2 s = ''0x'' \<or> take 2 s = ''0X'' then drop 2 s else s)"

definition scan_x :: "string \<Rightarrow> int option" where
  "scan_x s =
     (let (neg, t) = scan_sign (dropWhile atoi_space s); ds = takeWhile hex_digit (skip_0x t);
          v = int (foldl (\<lambda>n c. 16 * n + hex_val c) 0 ds)
      in if ds = [] then None else Some (if neg then - v else v))"

text \<open>What an \<^verbatim>\<open>int\<close> and an unsigned type of \<open>w\<close> bits can hold.\<close>

definition fits_int :: "int \<Rightarrow> bool" where
  "fits_int v = (- (2 ^ 31) \<le> v \<and> v < 2 ^ 31)"

definition fits_unsigned :: "nat \<Rightarrow> int \<Rightarrow> bool" where
  "fits_unsigned w v = (- (2 ^ w) < v \<and> v < 2 ^ w)"

text \<open>Hexadecimal numbers as they are sent.\<close>

definition hex_char :: "nat \<Rightarrow> char" where
  "hex_char n = (if n < 10 then digit n else char_of (87 + n))"

fun hex :: "nat \<Rightarrow> string" where
  "hex n = (if n < 16 then [hex_char n] else hex (n div 16) @ [hex_char (n mod 16)])"

declare hex.simps [simp del]

section \<open>Lemmas\<close>

lemma cstr_append: "NUL \<notin> set s \<Longrightarrow> cstr (s @ t) = s @ cstr t"
  unfolding cstr_def by (induction s) auto

lemma set_cstr: "set (cstr s) \<subseteq> set s"
  by (auto simp: cstr_def dest: set_takeWhileD)

lemma cstr_Cons [simp]: "d \<noteq> NUL \<Longrightarrow> cstr (d # s) = d # cstr s"
  by (simp add: cstr_def)

lemma cstr_NUL [simp]: "cstr (NUL # t) = []"
  by (simp add: cstr_def)

lemma strchr_append: "c \<notin> set s \<Longrightarrow> strchr c (s @ t) = map_option (\<lambda>i. length s + i) (strchr c t)"
  by (induction s) (auto split: option.splits simp: map_option_case)

lemma strchr_None: "strchr c s = None \<longleftrightarrow> c \<notin> set s"
  by (induction s) auto

lemma strchr_Some: "strchr c s = Some i \<longleftrightarrow> i < length s \<and> s ! i = c \<and> c \<notin> set (take i s)"
proof (induction s arbitrary: i)
  case (Cons d s)
  then show ?case by (cases i) auto
qed simp

lemma strstr_Some_split: "strstr p s = Some i \<Longrightarrow> s = take i s @ p @ drop (i + length p) s \<and> i + length p \<le> length s"
proof (induction s arbitrary: i)
  case (Cons c s)
  show ?case
  proof (cases "prefix p (c # s)")
    case True
    then show ?thesis using Cons.prems by (auto simp: prefix_def dest: arg_cong[of _ _ length])
  next
    case False
    then obtain j where "i = Suc j" "strstr p s = Some j" using Cons.prems by auto
    then show ?thesis using Cons.IH by auto
  qed
qed (auto split: if_splits)

lemma prefix_LF: "LF \<notin> set s \<Longrightarrow> prefix [LF] (s @ t) \<Longrightarrow> s = []"
  by (cases s) auto

lemma prefix_LF_iff: "prefix [LF] s \<longleftrightarrow> (\<exists>t. s = LF # t)"
  by (auto simp: prefix_def)

lemma strstr_CRLF: "LF \<notin> set s \<Longrightarrow> strstr CRLF (s @ CR # LF # t) = Some (length s)"
  by (induction s) (auto dest: prefix_LF)

lemma strstr_CRLF_None: "LF \<notin> set s \<Longrightarrow> strstr CRLF s = None"
  by (induction s) (auto simp: prefix_LF_iff)

lemma strchr_hit: "c \<notin> set s \<Longrightarrow> strchr c (s @ c # t) = Some (length s)"
  by (simp add: strchr_append)

lemma digit_not_sign: "is_digit c \<Longrightarrow> scan_sign (c # s) = (False, c # s)"
  using digit_not_special[of c] by simp

lemma takeWhile_dec_append: "takeWhile is_digit t = [] \<Longrightarrow> takeWhile is_digit (dec n @ t) = dec n"
  using dec_all_digits[of n] by (simp add: list_all_iff takeWhile_append2)

lemma dropWhile_dec_append: "takeWhile is_digit t = [] \<Longrightarrow> dropWhile is_digit (dec n @ t) = t"
  using dec_all_digits[of n]
  by (metis append_Nil append_same_eq same_append_eq takeWhile_dec_append takeWhile_dropWhile_id)

lemma dec_Cons: "\<exists>c t. dec n = c # t \<and> is_digit c"
  using dec_all_digits[of n] dec_neq_Nil[of n] by (cases "dec n") auto

lemma digits_val_dec_append: "takeWhile is_digit t = [] \<Longrightarrow> digits_val (dec n @ t) = n"
  using digits_val_dec[of n] by (simp add: digits_val_def takeWhile_dec_append)

lemma scan_d_dec: "takeWhile is_digit t = [] \<Longrightarrow> scan_d (dec n @ t) = Some (int n, t)"
proof -
  assume t: "takeWhile is_digit t = []"
  obtain c u where c: "dec n = c # u" "is_digit c" using dec_Cons by blast
  then have "dropWhile atoi_space (dec n @ t) = dec n @ t" using digit_not_special[of c] by simp
  moreover have "scan_sign (dec n @ t) = (False, dec n @ t)" using c digit_not_sign by simp
  ultimately show ?thesis
    by (simp add: scan_d_def takeWhile_dec_append[OF t] digits_val_dec_append[OF t] dropWhile_dec_append[OF t])
qed

lemma is_digit_colon [simp]: "\<not> is_digit (CHR '':'')" "\<not> is_digit (CHR ''/'')" "\<not> is_digit NUL" "\<not> is_digit CR"
  by (simp_all add: is_digit_def)

lemma notin_dec: "\<not> is_digit c \<Longrightarrow> c \<notin> set (dec n)"
  using dec_all_digits[of n] by (auto simp: list_all_iff)

lemma strstr_skip: "set s \<inter> set p = {} \<or> s = [] \<Longrightarrow> p \<noteq> [] \<Longrightarrow> strstr p (s @ t) = map_option (\<lambda>i. length s + i) (strstr p t)"
  by (induction s) (auto simp: prefix_Cons map_option_case neq_Nil_conv split: option.splits)

lemma strstr_hit: "p \<noteq> [] \<Longrightarrow> hd p \<notin> set s \<Longrightarrow> strstr p (s @ p @ t) = Some (length s)"
proof (induction s)
  case Nil
  have "prefix p (p @ t)" by simp
  then show ?case using Nil by (cases "p @ t") auto
next
  case (Cons c s)
  then show ?case by (auto simp: neq_Nil_conv)
qed

end
