(* ===== verification/OtaMeta.thy ===== *)
theory OtaMeta
  imports Json CText Complex_Main
begin

text \<open>
  The description of an update package (\<^verbatim>\<open>parse_meta_data\<close> in \<^verbatim>\<open>modules/OTA/Unpacker/decompress.c\<close>):
  the JSON text at the start of the decompressed package is parsed and the names, sizes and versions
  of the modules are read out of the tree. The parser is an argument; what it returns is a tree whose
  nodes hold their own name, as in \<^verbatim>\<open>cJSON.h\<close>. A floating point value is the rational number it stands for.

  Strings are the characters before the terminating zero. An allocation that fails and is not
  tested, a comparison with the name of a nameless child and a write behind the 20 bytes of the
  number buffer are the fault \<open>None\<close>.
\<close>

section \<open>The tree of the package description\<close>

datatype cjson =
  CJ (cj_type: jtype) (cj_string: "string option") (cj_valuestring: "string option")
     (cj_valueint: int) (cj_valuedouble: rat) (cj_child: "cjson list")

text \<open>The allocations of a deep copy, until one fails.\<close>

fun mallocs :: "nat \<Rightarrow> mem \<Rightarrow> bool \<times> mem" where
  "mallocs 0 m = (True, m)"
| "mallocs (Suc n) m = (let (ok, m1) = malloc_ok m in if ok then mallocs n m1 else (False, m1))"

fun dup_allocs :: "cjson \<Rightarrow> nat" where
  "dup_allocs (CJ t s v i d cs) =
     1 + (if v = None then 0 else 1) + (if s = None then 0 else 1) + sum_list (map dup_allocs cs)"

definition cJSON_Duplicate :: "cjson \<Rightarrow> mem \<Rightarrow> cjson option \<times> mem" where
  "cJSON_Duplicate item m =
     (let (ok, m1) = mallocs (dup_allocs item) m in (if ok then Some item else None, m1))"

section \<open>Looking up a member\<close>

text \<open>The loop both functions share; \<^verbatim>\<open>strcmp\<close> reads the child's name.\<close>

fun find_child :: "cjson list \<Rightarrow> string \<Rightarrow> cjson option option" where
  "find_child [] key = Some None"
| "find_child (c # cs) key =
     (case cj_string c of None \<Rightarrow> None
      | Some s \<Rightarrow> if s = key then Some (Some c) else find_child cs key)"

text \<open>
  The result is \<open>None\<close> for "not found" and otherwise the copy, which is \<^verbatim>\<open>NULL\<close> when the copying failed.
\<close>

definition get_json_value :: "cjson option \<Rightarrow> string \<Rightarrow> mem \<Rightarrow> (cjson option option \<times> mem) option" where
  "get_json_value obj key m =
     (case obj of
        None \<Rightarrow> Some (None, m)
      | Some j \<Rightarrow>
          (case find_child (cj_child j) key of
             None \<Rightarrow> None
           | Some None \<Rightarrow> Some (None, m)
           | Some (Some c) \<Rightarrow>
               if cj_type c = JObject \<or> cj_type c = JArray
               then (let (d, m1) = cJSON_Duplicate c m in Some (Some d, m1))
               else Some (None, m)))"

section \<open>Numbers as text\<close>

text \<open>Six digits behind the point, rounded to the nearest, a tie to the even one.\<close>

definition round_even :: "rat \<Rightarrow> nat" where
  "round_even x =
     (let k = \<lfloor>x\<rfloor>; f = x - of_int k
      in nat (if f < 1 / 2 \<or> f = 1 / 2 \<and> even k then k else k + 1))"

definition sprintf_f :: "rat \<Rightarrow> string" where
  "sprintf_f q =
     (let k = round_even (\<bar>q\<bar> * 1000000); frac = dec (k mod 1000000)
      in (if q < 0 then [CHR ''-''] else []) @ dec (k div 1000000) @ CHR ''.'' #
         replicate (6 - length frac) (CHR ''0'') @ frac)"

section \<open>Plain values\<close>

definition NUMBER_BUFFER :: nat where "NUMBER_BUFFER = 20"

definition number_text :: "cjson \<Rightarrow> string option" where
  "number_text c =
     (let s = (if of_int (cj_valueint c) = cj_valuedouble c then sprintf_d (cj_valueint c)
               else sprintf_f (cj_valuedouble c))
      in if length s + 1 \<le> NUMBER_BUFFER then Some s else None)"

text \<open>The copy of the text is not tested.\<close>

definition get_plain_value :: "cjson option \<Rightarrow> string \<Rightarrow> mem \<Rightarrow> (string option \<times> mem) option" where
  "get_plain_value obj key m =
     (case obj of
        None \<Rightarrow> Some (None, m)
      | Some j \<Rightarrow>
          (case find_child (cj_child j) key of
             None \<Rightarrow> None
           | Some None \<Rightarrow> Some (None, m)
           | Some (Some c) \<Rightarrow>
               if cj_type c \<noteq> JNumber \<and> cj_type c \<noteq> JString then Some (None, m)
               else
                 (case (if cj_type c = JNumber then number_text c else cj_valuestring c) of
                    None \<Rightarrow> None
                  | Some s \<Rightarrow> (let (ok, m1) = malloc_ok m in if ok then Some (Some s, m1) else None))))"

section \<open>The package description\<close>

text \<open>
  A field of a module's entry is \<open>None\<close> while the memory allocated for it has not been written.
\<close>

record module_info =
  mi_name :: "string option"
  mi_size :: "u32 option"
  mi_version :: "string option"

record package_meta =
  pm_name :: string
  pm_module_count :: u32
  pm_module_list :: "module_info list option"

definition PACKAGE_NAME_LENGTH_MAX :: nat where "PACKAGE_NAME_LENGTH_MAX = 15"
definition MODULE_NAME_LENGTH_MAX :: nat where "MODULE_NAME_LENGTH_MAX = PACKAGE_NAME_LENGTH_MAX"
definition MODULE_VERSION_LENGTH_MAX :: nat where "MODULE_VERSION_LENGTH_MAX = 15"

definition empty_meta :: package_meta where
  "empty_meta = \<lparr>pm_name = [], pm_module_count = 0, pm_module_list = None\<rparr>"

definition fits :: "nat \<Rightarrow> string option \<Rightarrow> string option \<Rightarrow> string option" where
  "fits n v old = (case v of None \<Rightarrow> old | Some s \<Rightarrow> if length s \<le> n then Some s else old)"

definition parse_module :: "cjson \<Rightarrow> mem \<Rightarrow> (module_info \<times> mem) option" where
  "parse_module item m =
     Option.bind (get_plain_value (Some item) ''name'' m) (\<lambda>(nm, m1).
     Option.bind (get_plain_value (Some item) ''size'' m1) (\<lambda>(sz, m2).
     map_option (\<lambda>(vs, m3).
         (\<lparr>mi_name = fits MODULE_NAME_LENGTH_MAX nm None,
           mi_size = map_option (\<lambda>s. word_of_int (atoi s)) sz,
           mi_version = fits MODULE_VERSION_LENGTH_MAX vs None\<rparr>, m3))
       (get_plain_value (Some item) ''version'' m2)))"

fun parse_modules :: "cjson list \<Rightarrow> mem \<Rightarrow> (module_info list \<times> mem) option" where
  "parse_modules [] m = Some ([], m)"
| "parse_modules (c # cs) m =
     Option.bind (parse_module c m) (\<lambda>(mi, m1).
       map_option (\<lambda>(ms, m2). (mi # ms, m2)) (parse_modules cs m1))"

text \<open>
  When the array of entries cannot be allocated, the list stays \<^verbatim>\<open>NULL\<close> with a positive count; an entry
  that has one of the members is then written through it.
\<close>

definition parse_module_list :: "cjson \<Rightarrow> package_meta \<Rightarrow> mem \<Rightarrow> (package_meta \<times> mem) option" where
  "parse_module_list ml meta m =
     (if cj_child ml = [] then Some (meta, m)
      else
        (let (ok, m1) = malloc_ok m; meta1 = meta\<lparr>pm_module_count := of_nat (length (cj_child ml))\<rparr>
         in case parse_modules (cj_child ml) m1 of
              None \<Rightarrow> None
            | Some (ms, m2) \<Rightarrow>
                if ok then Some (meta1\<lparr>pm_module_list := Some ms\<rparr>, m2)
                else if \<forall>mi \<in> set ms. mi = \<lparr>mi_name = None, mi_size = None, mi_version = None\<rparr>
                then Some (meta1, m2) else None))"

definition parse_install_info :: "cjson option \<Rightarrow> package_meta \<Rightarrow> mem \<Rightarrow> (package_meta \<times> mem) option" where
  "parse_install_info inst meta m =
     (case get_json_value inst ''module_list'' m of
        None \<Rightarrow> None
      | Some (None, m1) \<Rightarrow> Some (meta, m1)
      | Some (Some None, m1) \<Rightarrow> None
      | Some (Some (Some ml), m1) \<Rightarrow> parse_module_list ml meta m1)"

definition parse_meta_data ::
  "(byte list \<Rightarrow> mem \<Rightarrow> cjson option \<times> mem) \<Rightarrow> byte list \<Rightarrow> mem \<Rightarrow> (package_meta \<times> mem) option" where
  "parse_meta_data cjson_parse meta_data m =
     (case cjson_parse meta_data m of
        (None, m1) \<Rightarrow> Some (empty_meta, m1)
      | (Some obj, m1) \<Rightarrow>
          Option.bind (get_json_value (Some obj) ''basic_info'' m1) (\<lambda>(bi, m2).
          Option.bind (case bi of None \<Rightarrow> Some (None, m2) | Some b \<Rightarrow> get_plain_value b ''app_name'' m2) (\<lambda>(nm, m3).
          let meta = empty_meta\<lparr>pm_name := the (fits PACKAGE_NAME_LENGTH_MAX nm (Some []))\<rparr>
          in Option.bind (get_json_value (Some obj) ''inst_and_uninst_info'' m3) (\<lambda>(ii, m4).
               case ii of None \<Rightarrow> Some (meta, m4) | Some inst \<Rightarrow> parse_install_info inst meta m4))))"

section \<open>Descriptions that are read back\<close>

text \<open>
  A description, with whatever further members it has and in whatever order: \<open>member j key c\<close> says that
  \<open>c\<close> is the first member of \<open>j\<close> with that name and that those before it have names.
\<close>

definition member :: "cjson \<Rightarrow> string \<Rightarrow> cjson \<Rightarrow> bool" where
  "member j key c \<longleftrightarrow> (\<exists>xs ys. cj_child j = xs @ c # ys \<and> cj_string c = Some key \<and>
     (\<forall>x \<in> set xs. cj_string x \<noteq> None \<and> cj_string x \<noteq> Some key))"

definition text_member :: "cjson \<Rightarrow> string \<Rightarrow> string \<Rightarrow> bool" where
  "text_member j key s \<longleftrightarrow> (\<exists>c. member j key c \<and> cj_type c = JString \<and> cj_valuestring c = Some s)"

definition int_member :: "cjson \<Rightarrow> string \<Rightarrow> nat \<Rightarrow> bool" where
  "int_member j key n \<longleftrightarrow>
     (\<exists>c. member j key c \<and> cj_type c = JNumber \<and> cj_valueint c = int n \<and> cj_valuedouble c = of_nat n)"

definition describes_module :: "cjson \<Rightarrow> string \<times> nat \<times> string \<Rightarrow> bool" where
  "describes_module j = (\<lambda>(nm, sz, vs). text_member j ''name'' nm \<and> int_member j ''size'' sz \<and> text_member j ''version'' vs)"

definition describes :: "cjson \<Rightarrow> string \<Rightarrow> (string \<times> nat \<times> string) list \<Rightarrow> bool" where
  "describes t app ms \<longleftrightarrow> (\<exists>bi ii ml. member t ''basic_info'' bi \<and> cj_type bi = JObject \<and> text_member bi ''app_name'' app \<and>
     member t ''inst_and_uninst_info'' ii \<and> cj_type ii = JObject \<and>
     member ii ''module_list'' ml \<and> cj_type ml = JArray \<and> list_all2 describes_module (cj_child ml) ms)"

lemma member_find:
  assumes "member j key c" shows "find_child (cj_child j) key = Some (Some c)"
proof -
  obtain xs ys where c: "cj_child j = xs @ c # ys" "cj_string c = Some key"
    "\<forall>x \<in> set xs. cj_string x \<noteq> None \<and> cj_string x \<noteq> Some key"
    using assms by (auto simp: member_def)
  have "find_child (xs @ c # ys) key = Some (Some c)" using c(2,3) by (induction xs) auto
  then show ?thesis using c(1) by simp
qed

lemma mallocs_Nil [simp]: "mallocs n [] = (True, [])"
  by (induction n) (simp_all add: Let_def)

lemma dup_Nil [simp]: "cJSON_Duplicate c [] = (Some c, [])"
  by (simp add: cJSON_Duplicate_def)

lemma get_json_member:
  "member j key c \<Longrightarrow> cj_type c = JObject \<or> cj_type c = JArray \<Longrightarrow> get_json_value (Some j) key [] = Some (Some (Some c), [])"
  by (auto simp: get_json_value_def member_find)

lemma get_text_member: "text_member j key s \<Longrightarrow> get_plain_value (Some j) key [] = Some (Some s, [])"
  by (auto simp: get_plain_value_def text_member_def member_find)

lemma get_int_member:
  assumes "int_member j key n" "n < 10 ^ 19"
  shows "get_plain_value (Some j) key [] = Some (Some (dec n), [])"
proof -
  obtain c where c: "member j key c" "cj_type c = JNumber" "cj_valueint c = int n" "cj_valuedouble c = of_nat n"
    using assms(1) by (auto simp: int_member_def)
  then have "number_text c = Some (dec n)"
    using length_dec[of 19 n] assms(2) by (simp add: number_text_def sprintf_d_def NUMBER_BUFFER_def)
  then show ?thesis using c by (simp add: get_plain_value_def member_find)
qed

definition good_module :: "string \<times> nat \<times> string \<Rightarrow> bool" where
  "good_module = (\<lambda>(nm, sz, vs). length nm \<le> MODULE_NAME_LENGTH_MAX \<and> sz < 2 ^ 31 \<and>
     length vs \<le> MODULE_VERSION_LENGTH_MAX)"

definition module_of :: "string \<times> nat \<times> string \<Rightarrow> module_info" where
  "module_of = (\<lambda>(nm, sz, vs). \<lparr>mi_name = Some nm, mi_size = Some (of_nat sz), mi_version = Some vs\<rparr>)"

lemma parse_described_module:
  assumes "describes_module j x" "good_module x" shows "parse_module j [] = Some (module_of x, [])"
proof -
  obtain nm sz vs where x: "x = (nm, sz, vs)" by (cases x)
  have b: "length nm \<le> MODULE_NAME_LENGTH_MAX" "sz < 2 ^ 31" "length vs \<le> MODULE_VERSION_LENGTH_MAX"
    using assms(2) by (simp_all add: good_module_def x)
  have "get_plain_value (Some j) ''name'' [] = Some (Some nm, [])" "get_plain_value (Some j) ''size'' [] = Some (Some (dec sz), [])"
    "get_plain_value (Some j) ''version'' [] = Some (Some vs, [])"
    using assms(1) b(2) by (simp_all add: describes_module_def x get_text_member get_int_member)
  then show ?thesis using b by (simp add: parse_module_def x fits_def module_of_def)
qed

lemma parse_described_modules:
  "list_all2 describes_module js ms \<Longrightarrow> list_all good_module ms \<Longrightarrow> parse_modules js [] = Some (map module_of ms, [])"
  by (induction rule: list_all2_induct) (simp_all add: parse_described_module)

text \<open>C27: The description of a package is read back, whatever further members it has: with memory, a
  package name, module names and versions of at most 15 characters and sizes that fit an \<^verbatim>\<open>int\<close>, the
  name and the modules with their sizes and versions are those of the description, in order.\<close>

theorem package_description_roundtrip:
  assumes "cjson_parse md m = (Some t, [])" "describes t app ms" "length app \<le> PACKAGE_NAME_LENGTH_MAX"
    and "list_all good_module ms"
  shows "parse_meta_data cjson_parse md m =
     Some (\<lparr>pm_name = app, pm_module_count = of_nat (length ms),
            pm_module_list = (if ms = [] then None else Some (map module_of ms))\<rparr>, [])"
proof -
  obtain bi ii ml where t: "member t ''basic_info'' bi" "cj_type bi = JObject" "text_member bi ''app_name'' app"
    "member t ''inst_and_uninst_info'' ii" "cj_type ii = JObject" "member ii ''module_list'' ml" "cj_type ml = JArray"
    "list_all2 describes_module (cj_child ml) ms"
    using assms(2) by (auto simp: describes_def)
  have l: "length (cj_child ml) = length ms" using t(8) by (rule list_all2_lengthD)
  then have e: "cj_child ml = [] \<longleftrightarrow> ms = []" by (metis length_0_conv)
  show ?thesis
    using assms(1,3) t(2,5,7)
    by (simp add: parse_meta_data_def get_json_member[OF t(1)] get_json_member[OF t(4)] get_json_member[OF t(6)]
        get_text_member[OF t(3)] fits_def parse_install_info_def parse_module_list_def e l
        parse_described_modules[OF t(8) assms(4)] empty_meta_def)
qed

text \<open>A description as the packaging tool writes it.\<close>

definition str_node :: "string \<Rightarrow> string \<Rightarrow> cjson" where
  "str_node k s = CJ JString (Some k) (Some s) 0 0 []"

definition int_node :: "string \<Rightarrow> nat \<Rightarrow> cjson" where
  "int_node k n = CJ JNumber (Some k) None (int n) (of_nat n) []"

definition module_node :: "string \<times> nat \<times> string \<Rightarrow> cjson" where
  "module_node = (\<lambda>(nm, sz, vs).
     CJ JObject None None 0 0
       [str_node ''name'' nm, str_node ''type'' ''img'', int_node ''size'' sz, CJ JTrue (Some ''update'') None 1 0 [],
        str_node ''signature'' [], str_node ''version'' vs, str_node ''hw_version'' ''1''])"

definition package_node :: "string \<Rightarrow> (string \<times> nat \<times> string) list \<Rightarrow> cjson" where
  "package_node app ms =
     CJ JObject None None 0 0
       [CJ JObject (Some ''basic_info'') None 0 0
          [str_node ''app_name'' app, CJ JFalse (Some ''update'') None 0 0 [], str_node ''package_type'' ''App''],
        CJ JObject (Some ''inst_and_uninst_info'') None 0 0
          [str_node ''package_install_path'' [], CJ JArray (Some ''module_list'') None 0 0 (map module_node ms)],
        CJ JObject (Some ''update_info'') None 0 0 []]"

lemma member_later:
  assumes "member (CJ t n v i d cs) key c" "cj_string x \<noteq> None" "cj_string x \<noteq> Some key"
  shows "member (CJ t n v i d (x # cs)) key c"
proof -
  obtain xs ys where "cs = xs @ c # ys" "cj_string c = Some key" "\<forall>x \<in> set xs. cj_string x \<noteq> None \<and> cj_string x \<noteq> Some key"
    using assms(1) by (auto simp: member_def)
  then show ?thesis unfolding member_def using assms(2,3) by (intro exI[of _ "x # xs"] exI[of _ ys]) simp
qed

lemma member_CJ [simp]:
  "\<not> member (CJ t n v i d []) key c"
  "member (CJ t n v i d (x # cs)) key c \<longleftrightarrow>
     (if cj_string x = Some key then c = x else cj_string x \<noteq> None \<and> member (CJ t n v i d cs) key c)"
proof -
  show "\<not> member (CJ t n v i d []) key c" by (simp add: member_def)
  have "member (CJ t n v i d (x # cs)) key c \<Longrightarrow> cj_string x = Some key \<and> c = x \<or>
      cj_string x \<noteq> None \<and> cj_string x \<noteq> Some key \<and> member (CJ t n v i d cs) key c"
    by (fastforce simp: member_def Cons_eq_append_conv)
  moreover have "member (CJ t n v i d (x # cs)) key x" if "cj_string x = Some key"
    unfolding member_def by (rule exI[of _ "[]"]) (simp add: that)
  ultimately show "member (CJ t n v i d (x # cs)) key c \<longleftrightarrow>
     (if cj_string x = Some key then c = x else cj_string x \<noteq> None \<and> member (CJ t n v i d cs) key c)"
    using member_later[of t n v i d cs key c x] by auto
qed

lemma module_node_describes: "describes_module (module_node x) x"
  by (simp add: describes_module_def module_node_def text_member_def int_member_def str_node_def int_node_def
      split: prod.split)

lemma package_node_describes: "describes (package_node app ms) app ms"
proof -
  have "list_all2 describes_module (map module_node ms) ms"
    by (simp add: list_all2_map1 list.rel_refl module_node_describes)
  then show ?thesis by (simp add: describes_def package_node_def text_member_def str_node_def)
qed

theorem package_description_roundtrip_witness:
  "parse_meta_data (\<lambda>md m. (Some (package_node ''ota'' [(''a.img'', 46160, ''1.0'')]), m)) [] [] =
     Some (\<lparr>pm_name = ''ota'', pm_module_count = 1,
            pm_module_list = Some [\<lparr>mi_name = Some ''a.img'', mi_size = Some 46160, mi_version = Some ''1.0''\<rparr>]\<rparr>, [])"
  by (subst package_description_roundtrip[OF _ package_node_describes[of "''ota''" "[(''a.img'', 46160, ''1.0'')]"]])
    (simp_all add: PACKAGE_NAME_LENGTH_MAX_def MODULE_NAME_LENGTH_MAX_def MODULE_VERSION_LENGTH_MAX_def
      good_module_def module_of_def)

section \<open>Numbers that do not fit the buffer\<close>

lemma round_even_of_nat [simp]: "round_even (of_nat n) = n"
  by (simp add: round_even_def Let_def)

lemma sprintf_f_length: "length (sprintf_f (of_nat n)) = length (dec n) + 7"
proof -
  have "round_even (\<bar>of_nat n\<bar> * 1000000) = n * 1000000"
    using round_even_of_nat[of "n * 1000000"] by simp
  then show ?thesis by (simp add: sprintf_f_def dec.simps[of 0] Let_def)
qed

text \<open>A size of a million million or more, which does not fit an \<^verbatim>\<open>int\<close>, is printed behind the end of
  the buffer on the stack.\<close>

theorem huge_size_overflows:
  assumes "10 ^ 12 \<le> n" "int n \<noteq> i"
  shows "get_plain_value (Some (CJ JObject nm None 0 0 [CJ JNumber (Some ''size'') None i (of_nat n) []])) ''size'' m = None"
proof -
  have "rat_of_int i \<noteq> rat_of_nat n" using assms(2) by (metis of_int_eq_iff of_int_of_nat_eq)
  moreover have "\<not> length (dec n) \<le> 12" using assms(1) by (simp add: length_dec)
  ultimately show ?thesis
    by (simp add: get_plain_value_def number_text_def sprintf_f_length NUMBER_BUFFER_def Let_def)
qed

theorem huge_size_overflows_witness:
  "get_plain_value (Some (CJ JObject None None 0 0 [CJ JNumber (Some ''size'') None 2147483647 (of_nat (10 ^ 12)) []]))
     ''size'' [] = None"
  by (rule huge_size_overflows) simp_all

end
