(* ===== verification/OtaUnpack.thy ===== *)
theory OtaUnpack
  imports OtaVerify OtaMeta
begin

text \<open>
  \<^verbatim>\<open>modules/OTA/Unpacker/decompress.c\<close> and \<^verbatim>\<open>lightduer_ota_unpack.c\<close>: a package is decompressed as it
  arrives. Behind the header the stream is zlib data; of what comes out, the first \<^verbatim>\<open>meta_size\<close> bytes
  (a field of the header) are the package description, which is parsed and handed to the integrator,
  and the rest is the module data, handed on in pieces of at most 128 bytes with their offset.

  \<open>inflate\<close> is zlib: from its state and the input it returns its code, the new state, the input that
  is left and at most \<open>CHUNK\<close> bytes of output; \<open>inflateEnd\<close> ends the stream. The integrator's callbacks
  answer from a list of status codes (\<open>DUER_OK\<close> when it is used up); what they were given is kept.
\<close>

section \<open>State\<close>

definition CHUNK :: nat where "CHUNK = 128"

abbreviation Z_STREAM_ERROR :: int where "Z_STREAM_ERROR \<equiv> - 2"
abbreviation Z_DATA_ERROR :: int where "Z_DATA_ERROR \<equiv> - 3"
abbreviation Z_MEM_ERROR :: int where "Z_MEM_ERROR \<equiv> - 4"
abbreviation Z_NEED_DICT :: int where "Z_NEED_DICT \<equiv> 2"

record 'z zlib =
  zl_inflate :: "'z \<Rightarrow> byte list \<Rightarrow> int \<times> 'z \<times> byte list \<times> byte list"
  zl_inflateEnd :: "'z \<Rightarrow> 'z"
  zl_inflateInit :: "'z \<times> int"
  zl_parse :: "byte list \<Rightarrow> mem \<Rightarrow> cjson option \<times> mem"

record 'z decompress_ctx =
  dz_recieved :: u32
  dz_processed :: u32
  dz_meta_size :: u32
  dz_meta_stored :: u32
  dz_meta_data :: "byte list option"
  dz_write_offset :: u32
  dz_strm :: 'z

text \<open>\<open>up_set\<close>: an updater is registered; \<open>up_cxt\<close>: the private data is not \<^verbatim>\<open>NULL\<close>.\<close>

datatype up_call = DataBegin | DataEnd | ImgBegin | Img | ImgEnd

record updater_env =
  up_set :: bool
  up_cxt :: bool
  up_answers :: "status list"
  up_calls :: "up_call list"
  up_metas :: "package_meta list"
  up_modules :: "(u32 \<times> byte list) list"
  up_mem :: mem

definition up_answer :: "updater_env \<Rightarrow> status \<times> updater_env" where
  "up_answer e =
     (case up_answers e of [] \<Rightarrow> (DUER_OK, e) | a # as \<Rightarrow> (a, e\<lparr>up_answers := as\<rparr>))"

definition notify_meta_data :: "package_meta \<Rightarrow> updater_env \<Rightarrow> status \<times> updater_env" where
  "notify_meta_data meta e = up_answer (e\<lparr>up_metas := up_metas e @ [meta]\<rparr>)"

definition notify_module_data :: "u32 \<Rightarrow> byte list \<Rightarrow> updater_env \<Rightarrow> status \<times> updater_env" where
  "notify_module_data off bs e = up_answer (e\<lparr>up_modules := up_modules e @ [(off, bs)]\<rparr>)"

section \<open>Starting\<close>

definition mbed_zlibstream_decompress_init ::
  "'z zlib \<Rightarrow> mem \<Rightarrow> 'z decompress_ctx option \<times> mem" where
  "mbed_zlibstream_decompress_init zl m =
     (let (ok, m1) = malloc_ok m
      in if \<not> ok then (None, m1)
         else
           (let (ok2, m2) = malloc_ok m1; (z, ret) = zl_inflateInit zl
            in if \<not> ok2 then (None, m2)
               else if ret \<noteq> 0 then (None, m2)
               else (Some \<lparr>dz_recieved = 0, dz_processed = 0, dz_meta_size = 0, dz_meta_stored = 0,
                           dz_meta_data = None, dz_write_offset = 0, dz_strm = z\<rparr>, m2)))"

section \<open>One buffer of output\<close>

text \<open>
  The description is complete. The line that logs it reads the first entry of the module list.
\<close>

definition meta_complete ::
  "'z zlib \<Rightarrow> byte list \<Rightarrow> updater_env \<Rightarrow> (status \<times> updater_env) option" where
  "meta_complete zl md e =
     (case parse_meta_data (zl_parse zl) md (up_mem e) of
        None \<Rightarrow> None
      | Some (meta, m1) \<Rightarrow>
          (let e1 = e\<lparr>up_mem := m1\<rparr>
           in if pm_module_list meta = None then None
              else if up_set e1 \<and> up_cxt e1 then Some (notify_meta_data meta e1)
              else Some (0, e1)))"

text \<open>How much of the output belongs to the description, storing it, and the answer.\<close>

definition copy_byte :: "'z decompress_ctx \<Rightarrow> byte list \<Rightarrow> u32" where
  "copy_byte ctx out =
     (let room = dz_meta_size ctx - dz_meta_stored ctx
      in if of_nat (length out) > room then room else of_nat (length out))"

definition store_meta :: "'z decompress_ctx \<Rightarrow> byte list \<Rightarrow> 'z decompress_ctx option" where
  "store_meta ctx bs =
     (case dz_meta_data ctx of
        None \<Rightarrow> None
      | Some md \<Rightarrow>
          map_option (\<lambda>md1. ctx\<lparr>dz_meta_data := Some md1, dz_meta_stored := dz_meta_stored ctx + of_nat (length bs)\<rparr>)
            (memput (unat (dz_meta_stored ctx)) bs md))"

definition take_meta ::
  "'z zlib \<Rightarrow> 'z decompress_ctx \<Rightarrow> byte list \<Rightarrow> updater_env
     \<Rightarrow> (nat \<times> status \<times> 'z decompress_ctx \<times> updater_env) option" where
  "take_meta zl ctx out e =
     (if dz_meta_stored ctx < dz_meta_size ctx then
        (let n = unat (copy_byte ctx out)
         in case store_meta ctx (take n out) of
              None \<Rightarrow> None
            | Some ctx1 \<Rightarrow>
                if dz_meta_stored ctx1 = dz_meta_size ctx1
                then map_option (\<lambda>(r, e1). (n, r, ctx1, e1)) (meta_complete zl (the (dz_meta_data ctx1)) e)
                else Some (n, 0, ctx1, e))
      else Some (0, 0, ctx, e))"

definition put_module ::
  "'z decompress_ctx \<Rightarrow> byte list \<Rightarrow> updater_env \<Rightarrow> status \<times> 'z decompress_ctx \<times> updater_env" where
  "put_module ctx bs e =
     (if bs \<noteq> [] \<and> up_set e \<and> up_cxt e
      then (let (r, e1) = notify_module_data (dz_write_offset ctx) bs e
            in (r, ctx\<lparr>dz_write_offset := dz_write_offset ctx + of_nat (length bs)\<rparr>, e1))
      else (0, ctx, e))"

definition handle_output ::
  "'z zlib \<Rightarrow> 'z decompress_ctx \<Rightarrow> byte list \<Rightarrow> updater_env
     \<Rightarrow> (status \<times> 'z decompress_ctx \<times> updater_env) option" where
  "handle_output zl ctx out e =
     (case take_meta zl ctx out e of
        None \<Rightarrow> None
      | Some (n, r, ctx1, e1) \<Rightarrow>
          if r \<noteq> 0 then Some (r, ctx1, e1) else Some (put_module ctx1 (drop n out) e1))"

section \<open>One piece of the package\<close>

type_synonym 'z unpack_result = "(status \<times> 'z decompress_ctx \<times> updater_env) option"

text \<open>
  The loop goes on while the output buffer was filled. The outer \<open>None\<close> is a loop that does not end.
\<close>

partial_function (option) inflate_loop ::
  "'z zlib \<Rightarrow> u32 \<Rightarrow> byte list \<Rightarrow> 'z decompress_ctx \<Rightarrow> updater_env \<Rightarrow> 'z unpack_result option" where
  "inflate_loop zl sz input ctx e =
     (case zl_inflate zl (dz_strm ctx) input of
        (ret, z1, rest, out) \<Rightarrow>
          (let ctx1 = ctx\<lparr>dz_strm := z1\<rparr>
           in if ret = Z_NEED_DICT \<or> ret = Z_DATA_ERROR \<or> ret = Z_MEM_ERROR
              then Some (Some (if ret = Z_NEED_DICT then Z_DATA_ERROR else ret,
                           ctx1\<lparr>dz_strm := zl_inflateEnd zl z1, dz_processed := dz_processed ctx1 + sz\<rparr>, e))
              else
                (case handle_output zl ctx1 out e of
                   None \<Rightarrow> Some None
                 | Some (r, ctx2, e2) \<Rightarrow>
                     if r \<noteq> 0 then Some (Some (r, ctx2, e2))
                     else if length out = CHUNK then inflate_loop zl sz rest ctx2 e2
                     else Some (Some (0, ctx2\<lparr>dz_processed := dz_processed ctx2 + sz\<rparr>, e2)))))"

text \<open>The size of the description is taken from the header while it is 0.\<close>

definition read_meta_size ::
  "bool \<Rightarrow> verify_ctx \<Rightarrow> 'z decompress_ctx \<Rightarrow> updater_env \<Rightarrow> ('z decompress_ctx \<times> updater_env) option" where
  "read_meta_size le v ctx e =
     (if dz_meta_size ctx = 0 then
        (case Option.bind (vf_header v) (hdr_meta_size le) of
           None \<Rightarrow> None
         | Some ms \<Rightarrow>
             if ms > 0 then
               (let (ok, m1) = malloc_ok (up_mem e); e1 = e\<lparr>up_mem := m1\<rparr>
                in if ok
                   then Some (ctx\<lparr>dz_meta_data := Some (replicate (unat ms) 0), dz_meta_size := ms,
                                  dz_meta_stored := 0\<rparr>, e1)
                   else Some (ctx\<lparr>dz_meta_data := None\<rparr>, e1))
             else Some (ctx, e))
      else Some (ctx, e))"

text \<open>
  \<^verbatim>\<open>buffer + (bufferSZ - (stream_recieved_sz - pck_header_sz))\<close>: the offset is computed on 32 bits.
\<close>

definition mbed_zlibstream_decompress_process ::
  "'z zlib \<Rightarrow> bool \<Rightarrow> verify_ctx option \<Rightarrow> 'z decompress_ctx option \<Rightarrow> byte list option \<Rightarrow> u32 \<Rightarrow> updater_env
     \<Rightarrow> (status \<times> 'z decompress_ctx option \<times> updater_env) option option" where
  "mbed_zlibstream_decompress_process zl le verify ctx buffer bufferSZ e =
     (case (ctx, buffer) of
        (Some c0, Some buf) \<Rightarrow>
          if bufferSZ = 0 then Some (Some (- 7, ctx, e))
          else
            (let c = c0\<lparr>dz_recieved := dz_recieved c0 + bufferSZ\<rparr>; hdr = of_nat PCK_HEADER_SZ
             in if dz_recieved c \<le> hdr then Some (Some (0, Some c, e))
                else
                  (let body = dz_recieved c - hdr;
                       (off, sz) = (if dz_processed c = 0 then (bufferSZ - body, body) else (0, bufferSZ))
                   in case (verify, memget (unat off) (unat sz) buf) of
                        (Some v, Some input) \<Rightarrow>
                          (case read_meta_size le v c e of
                             None \<Rightarrow> Some None
                           | Some (c1, e1) \<Rightarrow>
                               map_option (map_option (\<lambda>(r, c2, e2). (r, Some c2, e2)))
                                 (inflate_loop zl sz input c1 e1))
                      | _ \<Rightarrow> Some None))
      | _ \<Rightarrow> Some (Some (- 7, ctx, e)))"

section \<open>The unpacker\<close>

record 'z unpacker =
  un_verification :: "verify_ctx option"
  un_decompress :: "'z decompress_ctx option"
  un_env :: updater_env

text \<open>A decompressor that cannot be set up leaves the verification context allocated.\<close>

definition duer_ota_unpack_create_unpacker :: "'z zlib \<Rightarrow> updater_env \<Rightarrow> ('z unpacker option \<times> updater_env) option" where
  "duer_ota_unpack_create_unpacker zl e =
     (let (ok, m1) = malloc_ok (up_mem e)
      in if \<not> ok then Some (None, e\<lparr>up_mem := m1\<rparr>)
         else
           (let (ok2, m2) = malloc_ok m1
            in if \<not> ok2 then Some (None, e\<lparr>up_mem := m2\<rparr>)
               else
                 (case mbed_hash_init m2 of
                    None \<Rightarrow> None
                  | Some (None, m3) \<Rightarrow> Some (None, e\<lparr>up_mem := m3\<rparr>)
                  | Some (Some v, m3) \<Rightarrow>
                      (case mbed_zlibstream_decompress_init zl m3 of
                         (None, m4) \<Rightarrow> Some (None, e\<lparr>up_mem := m4\<rparr>)
                       | (Some d, m4) \<Rightarrow>
                           (let e1 = e\<lparr>up_mem := m4, up_set := False, up_cxt := False\<rparr>
                            in Some (Some \<lparr>un_verification = Some v, un_decompress = Some d, un_env = e1\<rparr>, e1))))))"

definition duer_ota_unpack_register_updater :: "'z unpacker \<Rightarrow> bool \<Rightarrow> status \<times> 'z unpacker" where
  "duer_ota_unpack_register_updater u all_ops =
     (if \<not> all_ops then (DUER_ERR_INVALID_PARAMETER, u)
      else (DUER_OK, u\<lparr>un_env := (un_env u)\<lparr>up_set := True\<rparr>\<rparr>))"

definition duer_ota_unpack_set_private_data :: "'z unpacker \<Rightarrow> bool \<Rightarrow> status \<times> 'z unpacker" where
  "duer_ota_unpack_set_private_data u not_null =
     (if \<not> not_null then (DUER_ERR_INVALID_PARAMETER, u)
      else (DUER_OK, u\<lparr>un_env := (un_env u)\<lparr>up_cxt := True\<rparr>\<rparr>))"

definition unpack_call :: "up_call \<Rightarrow> 'z unpacker \<Rightarrow> status \<times> 'z unpacker" where
  "unpack_call c u =
     (let e = un_env u
      in if \<not> up_set e then (DUER_ERR_INVALID_PARAMETER, u)
         else (let (r, e1) = up_answer (e\<lparr>up_calls := up_calls e @ [c]\<rparr>) in (r, u\<lparr>un_env := e1\<rparr>)))"

definition duer_ota_unpack_decompress_data_begin :: "'z unpacker \<Rightarrow> status \<times> 'z unpacker" where
  "duer_ota_unpack_decompress_data_begin = unpack_call DataBegin"

definition duer_ota_unpack_decompress_data_end :: "'z unpacker \<Rightarrow> status \<times> 'z unpacker" where
  "duer_ota_unpack_decompress_data_end = unpack_call DataEnd"

definition duer_ota_unpack_update_image_begin :: "'z unpacker \<Rightarrow> status \<times> 'z unpacker" where
  "duer_ota_unpack_update_image_begin = unpack_call ImgBegin"

definition duer_ota_unpack_update_image :: "'z unpacker \<Rightarrow> status \<times> 'z unpacker" where
  "duer_ota_unpack_update_image = unpack_call Img"

definition duer_ota_unpack_update_image_end :: "'z unpacker \<Rightarrow> status \<times> 'z unpacker" where
  "duer_ota_unpack_update_image_end = unpack_call ImgEnd"

definition duer_ota_unpack_decompress_data ::
  "'z zlib \<Rightarrow> bool \<Rightarrow> 'z unpacker \<Rightarrow> byte list \<Rightarrow> u32 \<Rightarrow> (status \<times> 'z unpacker) option option" where
  "duer_ota_unpack_decompress_data zl le u data sz =
     (case mbed_hash_update_key (un_verification u) data sz of
        None \<Rightarrow> Some None
      | Some v \<Rightarrow>
          map_option (map_option (\<lambda>(r, d, e).
              (if r \<noteq> 0 then DUER_ERR_FAILED else DUER_OK,
               u\<lparr>un_verification := v, un_decompress := d, un_env := e\<rparr>)))
            (mbed_zlibstream_decompress_process zl le v (un_decompress u) (Some data) sz (un_env u)))"

end
