(* ===== verification/OtaStream.thy ===== *)
theory OtaStream
  imports OtaUnpack
begin

text \<open>
  What the unpacker of \<open>OtaUnpack\<close> makes of a whole package, whatever the pieces it arrives in.
\<close>

section \<open>What zlib produces\<close>

text \<open>zlib fills at most the buffer it is given.\<close>

definition zlib_ok :: "'z zlib \<Rightarrow> bool" where
  "zlib_ok zl \<longleftrightarrow> (\<forall>z i. length (snd (snd (snd (zl_inflate zl z i)))) \<le> CHUNK)"

text \<open>All that comes out of one piece, of several pieces.\<close>

partial_function (option) inflated :: "'z zlib \<Rightarrow> 'z \<Rightarrow> byte list \<Rightarrow> ('z \<times> byte list) option" where
  "inflated zl z input =
     (case zl_inflate zl z input of
        (ret, z1, rest, out) \<Rightarrow>
          (if ret = Z_NEED_DICT \<or> ret = Z_DATA_ERROR \<or> ret = Z_MEM_ERROR then None
           else if length out = CHUNK
           then Option.bind (inflated zl z1 rest) (\<lambda>(z2, os). Some (z2, out @ os))
           else Some (z1, out)))"

fun inflate_pieces :: "'z zlib \<Rightarrow> 'z \<Rightarrow> byte list list \<Rightarrow> ('z \<times> byte list) option" where
  "inflate_pieces zl z [] = Some (z, [])"
| "inflate_pieces zl z (c # cs) =
     Option.bind (inflated zl z c) (\<lambda>(z1, o1).
       map_option (\<lambda>(z2, o2). (z2, o1 @ o2)) (inflate_pieces zl z1 cs))"

text \<open>The pieces without the header, when \<open>n\<close> bytes came before.\<close>

fun bodies :: "nat \<Rightarrow> byte list list \<Rightarrow> byte list list" where
  "bodies n [] = []"
| "bodies n (c # cs) =
     (if n + length c \<le> PCK_HEADER_SZ then bodies (n + length c) cs
      else drop (PCK_HEADER_SZ - n) c # bodies (n + length c) cs)"

section \<open>What has been handed on\<close>

fun placed :: "nat \<Rightarrow> (u32 \<times> byte list) list \<Rightarrow> bool" where
  "placed n [] \<longleftrightarrow> True"
| "placed n ((off, bs) # ps) \<longleftrightarrow> off = of_nat n \<and> bs \<noteq> [] \<and> length bs \<le> CHUNK \<and> placed (n + length bs) ps"

lemma placed_append:
  "placed n (ps @ qs) \<longleftrightarrow> placed n ps \<and> placed (n + length (concat (map snd ps))) qs"
  by (induction ps arbitrary: n) (auto simp: add.assoc)

definition described :: "'z zlib \<Rightarrow> nat \<Rightarrow> byte list \<Rightarrow> package_meta list \<Rightarrow> bool" where
  "described zl ms os metas \<longleftrightarrow>
     (if length os < ms then metas = []
      else \<exists>meta m m'. parse_meta_data (zl_parse zl) (take ms os) m = Some (meta, m') \<and> metas = [meta])"

definition unpacked :: "'z zlib \<Rightarrow> nat \<Rightarrow> byte list \<Rightarrow> 'z decompress_ctx \<Rightarrow> updater_env \<Rightarrow> bool" where
  "unpacked zl ms os ctx e \<longleftrightarrow>
     0 < ms \<and> ms < 2 ^ 32 \<and> up_set e \<and> up_cxt e \<and>
     dz_meta_size ctx = of_nat ms \<and> dz_meta_stored ctx = of_nat (min ms (length os)) \<and>
     dz_meta_data ctx = Some (take ms os @ replicate (ms - length os) 0) \<and>
     described zl ms os (up_metas e) \<and>
     concat (map snd (up_modules e)) = drop ms os \<and> placed 0 (up_modules e) \<and>
     dz_write_offset ctx = of_nat (length (drop ms os))"

lemma unpacked_cong:
  "unpacked zl ms os (ctx\<lparr>dz_strm := z\<rparr>) e = unpacked zl ms os ctx e"
  "unpacked zl ms os (ctx\<lparr>dz_processed := p\<rparr>) e = unpacked zl ms os ctx e"
  by (simp_all add: unpacked_def)

section \<open>One buffer of output\<close>

lemma described_more: "described zl ms os metas \<Longrightarrow> ms \<le> length os \<Longrightarrow> described zl ms (os @ bs) metas"
  by (simp add: described_def)

lemma put_module_unpacked:
  assumes "unpacked zl ms os ctx e" "ms \<le> length os" "length bs \<le> CHUNK"
    and "put_module ctx bs e = (r, ctx', e')"
  shows "unpacked zl ms (os @ bs) ctx' e' \<and> dz_strm ctx' = dz_strm ctx \<and> dz_recieved ctx' = dz_recieved ctx \<and>
     dz_processed ctx' = dz_processed ctx"
  using assms
  by (auto simp: unpacked_def put_module_def notify_module_data_def up_answer_def placed_append
      intro: described_more split: if_splits list.splits prod.splits)

lemma meta_complete_frame:
  "meta_complete zl md e = Some (r, e') \<Longrightarrow> up_set e \<Longrightarrow> up_cxt e \<Longrightarrow>
     (\<exists>meta m'. parse_meta_data (zl_parse zl) md (up_mem e) = Some (meta, m') \<and> up_metas e' = up_metas e @ [meta]) \<and>
     up_set e' \<and> up_cxt e' \<and> up_modules e' = up_modules e"
  by (auto simp: meta_complete_def notify_meta_data_def up_answer_def Let_def
      split: option.splits if_splits list.splits)

lemma take_meta_done:
  assumes "unpacked zl ms os ctx e" "ms \<le> length os"
  shows "take_meta zl ctx out e = Some (0, 0, ctx, e)"
  using assms by (simp add: take_meta_def unpacked_def min_def)

lemma copy_byte_unpacked:
  assumes u: "unpacked zl ms os ctx e" and lt: "length os < ms" and out: "length out \<le> CHUNK"
  shows "unat (copy_byte ctx out) = min (length out) (ms - length os)"
proof -
  have ms: "ms < 2 ^ 32" using u by (simp add: unpacked_def)
  have c32: "length out < 2 ^ 32" using out by (simp add: CHUNK_def)
  have "dz_meta_size ctx - dz_meta_stored ctx = of_nat (ms - length os)"
    using u lt by (simp add: unpacked_def min_def of_nat_diff)
  moreover have "(of_nat (ms - length os) :: u32) < of_nat (length out) \<longleftrightarrow> ms - length os < length out"
    using c32 ms by (subst u32_less) auto
  ultimately show ?thesis
    using c32 ms by (simp add: copy_byte_def u32_of_nat min_def)
qed

lemma store_meta_unpacked:
  assumes u: "unpacked zl ms os ctx e" and lt: "length os < ms" and len: "length (os @ bs) \<le> ms"
  shows "store_meta ctx bs = Some (ctx\<lparr>dz_meta_data := Some ((os @ bs) @ replicate (ms - length (os @ bs)) 0),
           dz_meta_stored := of_nat (length (os @ bs))\<rparr>)"
proof -
  have st: "dz_meta_stored ctx = of_nat (length os)"
    and md: "dz_meta_data ctx = Some (os @ replicate (ms - length os) 0)"
    using u lt by (simp_all add: unpacked_def min_def)
  have "length os < 2 ^ 32" using u lt by (simp add: unpacked_def)
  then have n: "unat (dz_meta_stored ctx) = length os" unfolding st by (rule u32_of_nat)
  have p: "memput (length os) bs (os @ replicate (ms - length os) 0) =
      Some ((os @ bs) @ replicate (ms - length (os @ bs)) 0)"
    using len by (simp add: memput_def)
  have a: "dz_meta_stored ctx + of_nat (length bs) = of_nat (length (os @ bs))" unfolding st by simp
  show ?thesis unfolding store_meta_def md option.case n p a option.map by (rule refl)
qed

lemma take_meta_unpacked:
  assumes u: "unpacked zl ms os ctx e" and lt: "length os < ms" and out: "length out \<le> CHUNK"
    and t: "take_meta zl ctx out e = Some (n, r, ctx', e')"
  shows "n = min (length out) (ms - length os) \<and> unpacked zl ms (os @ take n out) ctx' e' \<and>
     dz_strm ctx' = dz_strm ctx \<and> dz_recieved ctx' = dz_recieved ctx \<and> dz_processed ctx' = dz_processed ctx"
proof -
  define k where "k = min (length out) (ms - length os)"
  define os1 where "os1 = os @ take k out"
  define md where "md = os1 @ replicate (ms - length os1) 0"
  define c where "c = ctx\<lparr>dz_meta_data := Some md, dz_meta_stored := of_nat (length os1)\<rparr>"
  have ms: "ms < 2 ^ 32" and sz: "dz_meta_size ctx = of_nat ms" and st: "dz_meta_stored ctx = of_nat (length os)"
    using u lt by (simp_all add: unpacked_def min_def)
  have less: "dz_meta_stored ctx < dz_meta_size ctx" unfolding st sz using lt ms by (subst u32_less) auto
  have len: "length os1 \<le> ms" using lt by (simp add: os1_def k_def)
  have full: "(of_nat (length os1) :: u32) = of_nat ms \<longleftrightarrow> length os1 = ms"
    using u32_of_nat[of "length os1"] u32_of_nat[of ms] ms len by fastforce
  have s: "store_meta ctx (take k out) = Some c"
    unfolding c_def md_def os1_def by (rule store_meta_unpacked[OF u lt]) (use len in \<open>simp only: os1_def\<close>)
  have c: "dz_meta_stored c = of_nat (length os1)" "dz_meta_size c = of_nat ms" "dz_meta_data c = Some md"
    "dz_strm c = dz_strm ctx" "dz_recieved c = dz_recieved ctx" "dz_processed c = dz_processed ctx"
    "dz_write_offset c = dz_write_offset ctx"
    by (simp_all add: c_def sz)
  have cb: "unat (copy_byte ctx out) = k" unfolding k_def by (rule copy_byte_unpacked[OF u lt out])
  have os1: "min ms (length os1) = length os1" "take ms os1 = os1" "drop ms os1 = []" using len by auto
  have base: "unpacked zl ms os1 c e'"
    if "described zl ms os1 (up_metas e')" "up_set e'" "up_cxt e'" "up_modules e' = up_modules e"
    using u lt that unfolding unpacked_def c os1 md_def by auto
  have t1: "(if length os1 = ms then map_option (\<lambda>(r, e1). (k, r, c, e1)) (meta_complete zl md e)
      else Some (k, 0, c, e)) = Some (n, r, ctx', e')"
    using t unfolding take_meta_def if_P[OF less] Let_def cb s option.case option.sel c full .
  have nk: "n = k" and ctx': "ctx' = c" using t1 by (auto split: if_splits)
  have "unpacked zl ms os1 c e'"
  proof (cases "length os1 = ms")
    case True
    then have "meta_complete zl os1 e = Some (r, e')" using t1 by (auto simp: md_def)
    note f = meta_complete_frame[OF this]
    have m: "up_set e" "up_cxt e" "up_metas e = []" using u lt by (auto simp: unpacked_def described_def)
    have "described zl ms os1 (up_metas e')" using f m True unfolding described_def os1 by auto
    then show ?thesis using base f m by blast
  next
    case False
    then have e': "e' = e" using t1 by simp
    have "described zl ms os1 (up_metas e)" using u lt False len by (simp add: unpacked_def described_def)
    then show ?thesis using base u unfolding e' by (simp add: unpacked_def)
  qed
  then show ?thesis using c unfolding nk ctx' os1_def[symmetric] k_def[symmetric] by simp
qed

lemma handle_output_unpacked:
  assumes u: "unpacked zl ms os ctx e" and out: "length out \<le> CHUNK"
    and h: "handle_output zl ctx out e = Some (0, ctx', e')"
  shows "unpacked zl ms (os @ out) ctx' e' \<and> dz_strm ctx' = dz_strm ctx \<and>
     dz_recieved ctx' = dz_recieved ctx \<and> dz_processed ctx' = dz_processed ctx"
proof (cases "length os < ms")
  case False
  then have "put_module ctx out e = (0, ctx', e')"
    using h take_meta_done[OF u, of out] by (simp add: handle_output_def)
  then show ?thesis using put_module_unpacked[OF u _ out] False by auto
next
  case True
  obtain n r c1 e1 where t: "take_meta zl ctx out e = Some (n, r, c1, e1)"
    and p: "put_module c1 (drop n out) e1 = (0, ctx', e')"
    using h by (auto simp: handle_output_def split: option.splits if_splits prod.splits)
  note u1 = take_meta_unpacked[OF u True out t]
  show ?thesis
  proof (cases "drop n out = []")
    case True
    then show ?thesis using p u1 by (auto simp: put_module_def)
  next
    case False
    then have "ms \<le> length (os @ take n out)" using u1 True by auto
    from put_module_unpacked[OF _ this _ p] u1 out show ?thesis by auto
  qed
qed

section \<open>One piece\<close>

definition fed ::
  "'z zlib \<Rightarrow> nat \<Rightarrow> u32 \<Rightarrow> byte list \<Rightarrow> byte list \<Rightarrow> 'z decompress_ctx \<Rightarrow> 'z decompress_ctx \<Rightarrow> updater_env \<Rightarrow> bool" where
  "fed zl ms sz input os ctx ctx' e' \<longleftrightarrow>
     (\<exists>o1. inflated zl (dz_strm ctx) input = Some (dz_strm ctx', o1) \<and> unpacked zl ms (os @ o1) ctx' e' \<and>
       dz_recieved ctx' = dz_recieved ctx \<and> dz_processed ctx' = dz_processed ctx + sz)"

lemma fed_last:
  assumes "zl_inflate zl (dz_strm ctx) input = (ret, z1, rest, out)"
    and "ret \<noteq> Z_NEED_DICT" "ret \<noteq> Z_DATA_ERROR" "ret \<noteq> Z_MEM_ERROR" "length out \<noteq> CHUNK" "length out \<le> CHUNK"
    and "unpacked zl ms os ctx e" "handle_output zl (ctx\<lparr>dz_strm := z1\<rparr>) out e = Some (0, c2, e2)"
  shows "fed zl ms sz input os ctx (c2\<lparr>dz_processed := dz_processed c2 + sz\<rparr>) e2"
  using handle_output_unpacked[OF _ assms(6,8), of ms os] assms(1-7)
  by (simp add: fed_def unpacked_cong inflated.simps)

lemma fed_more:
  assumes "zl_inflate zl (dz_strm ctx) input = (ret, z1, rest, out)"
    and "ret \<noteq> Z_NEED_DICT" "ret \<noteq> Z_DATA_ERROR" "ret \<noteq> Z_MEM_ERROR" "length out = CHUNK"
    and "unpacked zl ms os ctx e" "handle_output zl (ctx\<lparr>dz_strm := z1\<rparr>) out e = Some (0, c2, e2)"
    and "unpacked zl ms (os @ out) c2 e2 \<Longrightarrow> fed zl ms sz rest (os @ out) c2 ctx' e'"
  shows "fed zl ms sz input os ctx ctx' e'"
proof -
  have h: "unpacked zl ms (os @ out) c2 e2 \<and> dz_strm c2 = z1 \<and> dz_recieved c2 = dz_recieved ctx \<and>
      dz_processed c2 = dz_processed ctx"
    using handle_output_unpacked[OF _ _ assms(7), of ms os] assms(5,6) by (simp add: unpacked_cong)
  then obtain o1 where "inflated zl z1 rest = Some (dz_strm ctx', o1)" "unpacked zl ms ((os @ out) @ o1) ctx' e'"
    "dz_recieved ctx' = dz_recieved ctx" "dz_processed ctx' = dz_processed ctx + sz"
    using assms(8) by (auto simp: fed_def)
  then show ?thesis using assms(1-5) by (simp add: fed_def inflated.simps[of zl "dz_strm ctx"])
qed

lemma inflate_loop_fed_aux:
  fixes zl :: "'z zlib"
  assumes l: "inflate_loop zl sz input ctx e = Some res"
  shows "zlib_ok zl \<longrightarrow> (\<forall>os. unpacked zl ms os ctx e \<longrightarrow> res = Some (0, ctx', e') \<longrightarrow> fed zl ms sz input os ctx ctx' e')"
proof (rule inflate_loop.raw_induct [where P = "\<lambda>zl sz input ctx e res. zlib_ok zl \<longrightarrow>
      (\<forall>os. unpacked zl ms os ctx e \<longrightarrow> res = Some (0, ctx', e') \<longrightarrow> fed zl ms sz input os ctx ctx' e')", OF _ l])
    fix f :: "'z zlib \<Rightarrow> u32 \<Rightarrow> byte list \<Rightarrow> 'z decompress_ctx \<Rightarrow> updater_env \<Rightarrow> 'z unpack_result option"
    fix zl :: "'z zlib" and sz input ctx e and res :: "'z unpack_result"
    assume IH: "\<And>zl sz input ctx e res. f zl sz input ctx e = Some res \<Longrightarrow> zlib_ok zl \<longrightarrow>
        (\<forall>os. unpacked zl ms os ctx e \<longrightarrow> res = Some (0, ctx', e') \<longrightarrow> fed zl ms sz input os ctx ctx' e')"
      and b: "(case zl_inflate zl (dz_strm ctx) input of
        (ret, z1, rest, out) \<Rightarrow>
          (let ctx1 = ctx\<lparr>dz_strm := z1\<rparr>
           in if ret = Z_NEED_DICT \<or> ret = Z_DATA_ERROR \<or> ret = Z_MEM_ERROR
              then Some (Some (if ret = Z_NEED_DICT then Z_DATA_ERROR else ret,
                           ctx1\<lparr>dz_strm := zl_inflateEnd zl z1, dz_processed := dz_processed ctx1 + sz\<rparr>, e))
              else
                (case handle_output zl ctx1 out e of
                   None \<Rightarrow> Some None
                 | Some (r, ctx2, e2) \<Rightarrow>
                     if r \<noteq> 0 then Some (Some (r, ctx2, e2))
                     else if length out = CHUNK then f zl sz rest ctx2 e2
                     else Some (Some (0, ctx2\<lparr>dz_processed := dz_processed ctx2 + sz\<rparr>, e2))))) = Some res"
    show "zlib_ok zl \<longrightarrow> (\<forall>os. unpacked zl ms os ctx e \<longrightarrow> res = Some (0, ctx', e') \<longrightarrow>
        fed zl ms sz input os ctx ctx' e')"
    proof (intro impI allI)
      fix os
      assume ok: "zlib_ok zl" and u: "unpacked zl ms os ctx e" and res: "res = Some (0, ctx', e')"
      obtain ret z1 rest out where z: "zl_inflate zl (dz_strm ctx) input = (ret, z1, rest, out)" by (rule prod_cases4)
      have out: "length out \<le> CHUNK" using ok z unfolding zlib_ok_def by (metis snd_conv)
      have good: "ret \<noteq> Z_NEED_DICT" "ret \<noteq> Z_DATA_ERROR" "ret \<noteq> Z_MEM_ERROR" using b res z by auto
      obtain c2 e2 where h: "handle_output zl (ctx\<lparr>dz_strm := z1\<rparr>) out e = Some (0, c2, e2)"
        and r: "(if length out = CHUNK then f zl sz rest c2 e2
            else Some (Some (0, c2\<lparr>dz_processed := dz_processed c2 + sz\<rparr>, e2))) = Some res"
        using b res z good by (auto simp: Let_def split: option.splits if_splits prod.splits)
      show "fed zl ms sz input os ctx ctx' e'"
      proof (cases "length out = CHUNK")
        case True
        have fr: "f zl sz rest c2 e2 = Some res" using r True by simp
        show ?thesis by (rule fed_more[OF z good True u h]) (use IH[OF fr] ok res in blast)
      next
        case False
        then have "ctx' = c2\<lparr>dz_processed := dz_processed c2 + sz\<rparr>" "e' = e2" using r res by auto
        then show ?thesis using fed_last[OF z good False out u h] by simp
      qed
    qed
qed

lemma inflate_loop_fed:
  assumes "zlib_ok zl" "inflate_loop zl sz input ctx e = Some (Some (0, ctx', e'))" "unpacked zl ms os ctx e"
  shows "fed zl ms sz input os ctx ctx' e'"
  using inflate_loop_fed_aux[OF assms(2)] assms(1,3) by blast

section \<open>The pieces of a package\<close>

lemma bodies_snoc:
  "bodies n (cs @ [c]) = bodies n cs @
     (if n + length (concat cs) + length c \<le> PCK_HEADER_SZ then []
      else [drop (PCK_HEADER_SZ - (n + length (concat cs))) c])"
  by (induction cs arbitrary: n) (auto simp: add.assoc)

lemma bodies_header: "n + length (concat cs) \<le> PCK_HEADER_SZ \<Longrightarrow> bodies n cs = []"
  by (induction cs arbitrary: n) auto

lemma inflate_pieces_snoc:
  "inflate_pieces zl z cs = Some (z1, o1) \<Longrightarrow> inflated zl z1 c = Some (z2, o2) \<Longrightarrow>
     inflate_pieces zl z (cs @ [c]) = Some (z2, o1 @ o2)"
  by (induction cs arbitrary: z o1) (auto simp: bind_eq_Some_conv)

text \<open>What the contexts hold after the pieces \<open>cs\<close>, when \<open>z0\<close> is the state zlib started in.\<close>

definition fresh_state :: "'z zlib \<Rightarrow> 'z \<Rightarrow> 'z decompress_ctx \<Rightarrow> updater_env \<Rightarrow> bool" where
  "fresh_state zl z0 d e \<longleftrightarrow>
     dz_processed d = 0 \<and> dz_meta_size d = 0 \<and> dz_strm d = z0 \<and> dz_write_offset d = 0 \<and>
     up_set e \<and> up_cxt e \<and> up_metas e = [] \<and> up_modules e = [] \<and> up_mem e = []"

definition received ::
  "'z zlib \<Rightarrow> nat \<Rightarrow> 'z \<Rightarrow> byte list list \<Rightarrow> verify_ctx \<Rightarrow> 'z decompress_ctx \<Rightarrow> updater_env \<Rightarrow> bool" where
  "received zl ms z0 cs v d e \<longleftrightarrow>
     seen v (concat cs) \<and> dz_recieved d = of_nat (length (concat cs)) \<and>
     (if length (concat cs) \<le> PCK_HEADER_SZ then fresh_state zl z0 d e
      else dz_processed d = of_nat (length (concat cs) - PCK_HEADER_SZ) \<and>
        (\<exists>os. inflate_pieces zl z0 (bodies 0 cs) = Some (dz_strm d, os) \<and> unpacked zl ms os d e))"

lemma fresh_unpacked:
  assumes "fresh_state zl z0 d e" "hdr_meta_size le h = Some (of_nat ms)" "vf_header v = Some h" "0 < ms" "ms < 2 ^ 32"
    and "read_meta_size le v d e = Some (d1, e1)"
  shows "unpacked zl ms [] d1 e1 \<and> dz_strm d1 = z0 \<and> dz_recieved d1 = dz_recieved d \<and> dz_processed d1 = 0"
proof -
  have ms: "(of_nat ms :: u32) > 0" "unat (of_nat ms :: u32) = ms"
    using assms(4,5) u32_less[of 0 ms] u32_of_nat[of ms] by auto
  then show ?thesis
    using assms by (auto simp: fresh_state_def read_meta_size_def unpacked_def described_def)
qed

lemma seen_header: "seen v xs \<Longrightarrow> PCK_HEADER_SZ \<le> length xs \<Longrightarrow> vf_header v = Some (take PCK_HEADER_SZ xs)"
  by (simp add: seen_def)

text \<open>The part of a piece the decompressor reads: the offset is computed from the counters.\<close>

lemma piece_input:
  assumes "length xs + length c < 2 ^ 32" "PCK_HEADER_SZ < length xs + length c"
    and "(off, sz) = (if length xs \<le> PCK_HEADER_SZ
        then (of_nat (length c) - (of_nat (length xs + length c) - of_nat PCK_HEADER_SZ),
              of_nat (length xs + length c) - of_nat PCK_HEADER_SZ)
        else (0 :: u32, of_nat (length c) :: u32))"
  shows "memget (unat off) (unat sz) c = Some (drop (PCK_HEADER_SZ - length xs) c) \<and>
     (if length xs \<le> PCK_HEADER_SZ then sz = of_nat (length xs + length c - PCK_HEADER_SZ) else sz = of_nat (length c))"
proof (cases "length xs \<le> PCK_HEADER_SZ")
  case True
  define k where "k = PCK_HEADER_SZ - length xs"
  have k: "k < length c" "length xs + length c - PCK_HEADER_SZ = length c - k"
    using assms(2) True by (simp_all add: k_def)
  have d: "(of_nat (length xs + length c) :: u32) - of_nat PCK_HEADER_SZ = of_nat (length c - k)"
    unfolding k(2)[symmetric] using assms(2) by (intro u32_diff) linarith
  have e: "(of_nat (length c) :: u32) - of_nat (length c - k) = of_nat k"
    using u32_diff[of "length c - k" "length c"] k(1) by simp
  have os: "off = of_nat k" "sz = of_nat (length c - k)" using assms(3) True unfolding d e by auto
  have "unat off = k" unfolding os by (rule u32_of_nat) (use k(1) assms(1) in linarith)
  moreover have "unat sz = length c - k" unfolding os by (rule u32_of_nat) (use k(1) assms(1) in linarith)
  moreover have "memget k (length c - k) c = Some (drop k c)" using k(1) by (simp add: memget_def)
  ultimately show ?thesis using True os(2) k(2) by (simp add: k_def[symmetric])
next
  case False
  then have sz: "sz = of_nat (length c)" "off = 0" using assms(3) by auto
  have "unat sz = length c" unfolding sz using assms(1) by (intro u32_of_nat) simp
  then show ?thesis using False sz by (simp add: memget_def)
qed

lemma piece_counters:
  assumes "received zl ms z0 cs v d e" "length (concat cs) + length c < 2 ^ 32 - PCK_HEADER_SZ" "c \<noteq> []"
  shows "dz_recieved d + of_nat (length c) = of_nat (length (concat cs) + length c)"
    and "(of_nat (length (concat cs) + length c) :: u32) \<le> of_nat PCK_HEADER_SZ \<longleftrightarrow>
      length (concat cs) + length c \<le> PCK_HEADER_SZ"
    and "dz_processed d = 0 \<longleftrightarrow> length (concat cs) \<le> PCK_HEADER_SZ"
    and "(of_nat (length c) :: u32) \<noteq> 0"
proof -
  show "dz_recieved d + of_nat (length c) = of_nat (length (concat cs) + length c)"
    using assms(1) by (simp add: received_def)
  show "(of_nat (length (concat cs) + length c) :: u32) \<le> of_nat PCK_HEADER_SZ \<longleftrightarrow>
      length (concat cs) + length c \<le> PCK_HEADER_SZ"
    by (rule u32_le) (use assms(2) in \<open>auto simp: PCK_HEADER_SZ_def\<close>)
  show "dz_processed d = 0 \<longleftrightarrow> length (concat cs) \<le> PCK_HEADER_SZ"
  proof (cases "length (concat cs) \<le> PCK_HEADER_SZ")
    case False
    define n where "n = length (concat cs) - PCK_HEADER_SZ"
    have n: "dz_processed d = of_nat n" "n < 2 ^ 32" "0 < n" using assms(1,2) False by (auto simp: received_def n_def)
    then show ?thesis using u32_of_nat[OF n(2)] False by auto
  qed (use assms(1) in \<open>simp add: received_def fresh_state_def\<close>)
  have "length c < 2 ^ 32" using assms(2) by linarith
  then show "(of_nat (length c) :: u32) \<noteq> 0" using u32_of_nat[of "length c"] assms(3) by auto
qed

lemma process_header_piece:
  assumes r: "received zl ms z0 cs v d e" and len: "length (concat cs) + length c < 2 ^ 32 - PCK_HEADER_SZ" "c \<noteq> []"
    and small: "length (concat cs) + length c \<le> PCK_HEADER_SZ" and seen: "seen v' (concat (cs @ [c]))"
    and p: "mbed_zlibstream_decompress_process zl le vo (Some d) (Some c) (of_nat (length c)) e = Some (Some (0, d', e'))"
  shows "\<exists>d1. d' = Some d1 \<and> received zl ms z0 (cs @ [c]) v' d1 e'"
proof -
  note pc = piece_counters[OF r len]
  have "d' = Some (d\<lparr>dz_recieved := of_nat (length (concat cs) + length c)\<rparr>)" "e' = e"
    using p small unfolding mbed_zlibstream_decompress_process_def by (auto simp: Let_def pc simp del: of_nat_add)
  then show ?thesis using r small seen by (simp add: received_def fresh_state_def)
qed

lemma process_body_piece:
  assumes ok: "zlib_ok zl" and r: "received zl ms z0 cs v d e"
    and len: "length (concat cs) + length c < 2 ^ 32 - PCK_HEADER_SZ" "c \<noteq> []"
    and big: "PCK_HEADER_SZ < length (concat cs) + length c" and seen: "seen v' (concat (cs @ [c]))"
    and hdr: "hdr_meta_size le (take PCK_HEADER_SZ (concat (cs @ [c]))) = Some (of_nat ms)" "0 < ms" "ms < 2 ^ 32"
    and p: "mbed_zlibstream_decompress_process zl le (Some v') (Some d) (Some c) (of_nat (length c)) e =
      Some (Some (0, d', e'))"
  shows "\<exists>d1. d' = Some d1 \<and> received zl ms z0 (cs @ [c]) v' d1 e'"
proof -
  note pc = piece_counters[OF r len]
  define rx where "rx = (of_nat (length (concat cs) + length c) :: u32)"
  define d0 where "d0 = d\<lparr>dz_recieved := rx\<rparr>"
  have d0: "dz_recieved d0 = rx" "dz_processed d0 = dz_processed d" by (simp_all add: d0_def)
  obtain off sz where os: "(off, sz) = (if dz_processed d = 0
        then (of_nat (length c) - (rx - of_nat PCK_HEADER_SZ), rx - of_nat PCK_HEADER_SZ)
        else (0 :: u32, of_nat (length c) :: u32))" by (metis surj_pair)
  note pi = piece_input[OF _ big os[unfolded rx_def pc(3)]]
  have inp: "memget (unat off) (unat sz) c = Some (drop (PCK_HEADER_SZ - length (concat cs)) c)"
    using pi len by simp
  have "\<not> rx \<le> of_nat PCK_HEADER_SZ" unfolding rx_def pc(2) using big by simp
  then obtain d1 e1 d2 where m: "read_meta_size le v' d0 e = Some (d1, e1)" "d' = Some d2"
    and l: "inflate_loop zl sz (drop (PCK_HEADER_SZ - length (concat cs)) c) d1 e1 = Some (Some (0, d2, e'))"
    using p os inp unfolding mbed_zlibstream_decompress_process_def
    by (auto simp: Let_def pc(1) rx_def[symmetric] d0_def[symmetric] d0 pc(4) split: option.splits if_splits prod.splits simp del: of_nat_add)
  have sz: "sz = (if length (concat cs) \<le> PCK_HEADER_SZ then of_nat (length (concat cs) + length c - PCK_HEADER_SZ)
      else of_nat (length c))"
    using pi len by (auto split: if_splits)
  obtain os z1 where before: "inflate_pieces zl z0 (bodies 0 cs) = Some (z1, os)" "unpacked zl ms os d1 e1"
    "dz_strm d1 = z1" "dz_recieved d1 = rx" "dz_processed d1 + sz = of_nat (length (concat (cs @ [c])) - PCK_HEADER_SZ)"
  proof (cases "length (concat cs) \<le> PCK_HEADER_SZ")
    case True
    have "fresh_state zl z0 d0 e" using r True by (simp add: received_def fresh_state_def d0_def)
    moreover have "vf_header v' = Some (take PCK_HEADER_SZ (concat (cs @ [c])))" using seen_header[OF seen] big by simp
    ultimately have "unpacked zl ms [] d1 e1 \<and> dz_strm d1 = z0 \<and> dz_recieved d1 = rx \<and> dz_processed d1 = 0"
      using fresh_unpacked[OF _ hdr(1) _ hdr(2,3) m(1)] d0 by simp
    then show ?thesis using that[of z0 "[]"] True bodies_header[of 0 cs] sz by simp
  next
    case False
    obtain os where os: "inflate_pieces zl z0 (bodies 0 cs) = Some (dz_strm d, os)" "unpacked zl ms os d e"
      and pr: "dz_processed d = of_nat (length (concat cs) - PCK_HEADER_SZ)"
      using r False by (auto simp: received_def)
    have "dz_meta_size d0 \<noteq> 0" using os(2) u32_of_nat[OF hdr(3)] hdr(2) by (auto simp: unpacked_def d0_def)
    then have "d1 = d0" "e1 = e" using m(1) by (auto simp: read_meta_size_def)
    moreover have "unpacked zl ms os d0 e" using os(2) by (simp add: unpacked_def d0_def)
    moreover have "dz_processed d0 + sz = of_nat (length (concat (cs @ [c])) - PCK_HEADER_SZ)"
      using False by (simp add: d0 pr sz u32_add del: of_nat_add)
    ultimately show ?thesis using that[of "dz_strm d" os] os(1) by (simp add: d0_def)
  qed
  obtain o1 where "inflated zl z1 (drop (PCK_HEADER_SZ - length (concat cs)) c) = Some (dz_strm d2, o1)"
    "unpacked zl ms (os @ o1) d2 e'" "dz_recieved d2 = rx"
    "dz_processed d2 = of_nat (length (concat (cs @ [c])) - PCK_HEADER_SZ)"
    using inflate_loop_fed[OF ok l before(2)] before(3-5) by (auto simp: fed_def)
  then show ?thesis
    using m(2) seen big inflate_pieces_snoc[OF before(1)] by (auto simp: received_def bodies_snoc rx_def)
qed

section \<open>A whole package\<close>

fun unpack_all ::
  "'z zlib \<Rightarrow> bool \<Rightarrow> 'z unpacker \<Rightarrow> byte list list \<Rightarrow> (status list \<times> 'z unpacker) option option" where
  "unpack_all zl le u [] = Some (Some ([], u))"
| "unpack_all zl le u (c # cs) =
     (case duer_ota_unpack_decompress_data zl le u c (of_nat (length c)) of
        None \<Rightarrow> None
      | Some None \<Rightarrow> Some None
      | Some (Some (r, u1)) \<Rightarrow>
          map_option (map_option (\<lambda>(rs, u2). (r # rs, u2))) (unpack_all zl le u1 cs))"

definition unpacker_received :: "'z zlib \<Rightarrow> nat \<Rightarrow> 'z \<Rightarrow> byte list list \<Rightarrow> 'z unpacker \<Rightarrow> bool" where
  "unpacker_received zl ms z0 cs u \<longleftrightarrow>
     (\<exists>v d. un_verification u = Some v \<and> un_decompress u = Some d \<and> received zl ms z0 cs v d (un_env u))"

lemma hdr_meta_size_prefix:
  "PCK_HEADER_SZ \<le> length xs \<Longrightarrow> hdr_meta_size le (take PCK_HEADER_SZ (xs @ ys)) = hdr_meta_size le (take PCK_HEADER_SZ xs)"
  by simp

lemma decompress_data_received:
  assumes ok: "zlib_ok zl" and r: "unpacker_received zl ms z0 cs u"
    and len: "length (concat cs) + length c < 2 ^ 32 - PCK_HEADER_SZ" "c \<noteq> []"
    and hdr: "PCK_HEADER_SZ < length (concat (cs @ [c])) \<Longrightarrow>
      hdr_meta_size le (take PCK_HEADER_SZ (concat (cs @ [c]))) = Some (of_nat ms)" "0 < ms" "ms < 2 ^ 32"
    and p: "duer_ota_unpack_decompress_data zl le u c (of_nat (length c)) = Some (Some (DUER_OK, u'))"
  shows "unpacker_received zl ms z0 (cs @ [c]) u'"
proof -
  obtain v d where v: "un_verification u = Some v" "un_decompress u = Some d" "received zl ms z0 cs v d (un_env u)"
    using r by (auto simp: unpacker_received_def)
  have sv: "seen v (concat cs)" using v(3) by (simp add: received_def)
  obtain v' where v': "mbed_hash_update_key (Some v) c (of_nat (length c)) = Some (Some v')" "seen v' (concat (cs @ [c]))"
    using update_seen[OF sv, of c] len by auto
  obtain d' e' where p': "mbed_zlibstream_decompress_process zl le (Some v') (Some d) (Some c) (of_nat (length c)) (un_env u) =
      Some (Some (0, d', e'))" and u': "u' = u\<lparr>un_verification := Some v', un_decompress := d', un_env := e'\<rparr>"
    using p by (auto simp: duer_ota_unpack_decompress_data_def v(1,2) v'(1) split: if_splits)
  have "\<exists>d1. d' = Some d1 \<and> received zl ms z0 (cs @ [c]) v' d1 e'"
  proof (cases "length (concat cs) + length c \<le> PCK_HEADER_SZ")
    case True
    then show ?thesis using process_header_piece[OF v(3) len True v'(2) p'] by blast
  next
    case False
    then show ?thesis using process_body_piece[OF ok v(3) len _ v'(2) hdr(1) hdr(2,3) p'] by simp
  qed
  then show ?thesis by (auto simp: unpacker_received_def u')
qed

lemma unpack_all_received:
  assumes ok: "zlib_ok zl" and "unpacker_received zl ms z0 ds u" "list_all (\<lambda>c. c \<noteq> []) cs"
    and "length (concat (ds @ cs)) < 2 ^ 32 - PCK_HEADER_SZ" "PCK_HEADER_SZ \<le> length (concat (ds @ cs))"
    and hdr: "hdr_meta_size le (take PCK_HEADER_SZ (concat (ds @ cs))) = Some (of_nat ms)" "0 < ms" "ms < 2 ^ 32"
    and "unpack_all zl le u cs = Some (Some (rs, u'))" "list_all (\<lambda>r. r = DUER_OK) rs"
  shows "unpacker_received zl ms z0 (ds @ cs) u'"
  using assms(2-)
proof (induction cs arbitrary: ds u rs)
  case (Cons c cs)
  obtain r u1 rs1 where s: "duer_ota_unpack_decompress_data zl le u c (of_nat (length c)) = Some (Some (r, u1))"
    "unpack_all zl le u1 cs = Some (Some (rs1, u'))" "rs = r # rs1"
    using Cons.prems(8) by (auto split: option.splits)
  have r: "r = DUER_OK" "list_all (\<lambda>r. r = DUER_OK) rs1" using Cons.prems(9) s(3) by auto
  have h: "hdr_meta_size le (take PCK_HEADER_SZ (concat (ds @ [c]))) = Some (of_nat ms)"
    if "PCK_HEADER_SZ < length (concat (ds @ [c]))"
    using Cons.prems(5) that hdr_meta_size_prefix[of "concat (ds @ [c])" le "concat cs"] by simp
  have "unpacker_received zl ms z0 (ds @ [c]) u1"
    by (rule decompress_data_received[OF ok Cons.prems(1) _ _ h Cons.prems(6,7)])
      (use Cons.prems(2,3) s(1) r(1) in auto)
  then have "unpacker_received zl ms z0 ((ds @ [c]) @ cs) u'"
    by (rule Cons.IH) (use Cons.prems(2-7) s(2) r(2) in auto)
  then show ?case by simp
qed simp

text \<open>An unpacker as the integrator's \<^verbatim>\<open>init_updater\<close> leaves it.\<close>

definition ready_unpacker :: "'z zlib \<Rightarrow> updater_env \<Rightarrow> 'z unpacker option" where
  "ready_unpacker zl e =
     (case duer_ota_unpack_create_unpacker zl e of
        Some (Some u, e1) \<Rightarrow>
          Some (snd (duer_ota_unpack_set_private_data (snd (duer_ota_unpack_register_updater u True)) True))
      | _ \<Rightarrow> None)"

lemma ready_received:
  assumes "ready_unpacker zl e = Some u" "up_mem e = []" "up_metas e = []" "up_modules e = []"
  shows "unpacker_received zl ms (fst (zl_inflateInit zl)) [] u"
proof -
  obtain v m where v: "mbed_hash_init [] = Some (Some v, m)" by (simp add: mbed_hash_init_def)
  have m: "m = []" using v by (simp add: mbed_hash_init_def)
  show ?thesis
    using assms hash_init_seen[OF v]
    by (auto simp: ready_unpacker_def duer_ota_unpack_create_unpacker_def v m Let_def mbed_zlibstream_decompress_init_def
        duer_ota_unpack_register_updater_def duer_ota_unpack_set_private_data_def unpacker_received_def received_def
        fresh_state_def split: prod.splits option.splits if_splits)
qed

text \<open>C7: When allocations succeed, a package of less than 4 GB with a description of at least one byte that is
  accepted piece by piece reaches the integrator the same way whatever the pieces: zlib is fed exactly the
  bytes behind the header, of what it produces the first \<^verbatim>\<open>meta_size\<close> bytes are parsed and handed over as
  the description, once, and all other bytes are handed over in order as module data, at offsets that
  follow each other, in pieces of at most 128 bytes.\<close>

theorem unpack_delivers_package:
  assumes "zlib_ok zl" "ready_unpacker zl e = Some u" "up_mem e = []" "up_metas e = []" "up_modules e = []"
    and "list_all (\<lambda>c. c \<noteq> []) cs"
    and "PCK_HEADER_SZ < length (concat cs)" "length (concat cs) < 2 ^ 32 - PCK_HEADER_SZ"
    and "hdr_meta_size le (take PCK_HEADER_SZ (concat cs)) = Some (of_nat ms)" "0 < ms" "ms < 2 ^ 32"
    and "unpack_all zl le u cs = Some (Some (rs, u'))" "list_all (\<lambda>r. r = DUER_OK) rs"
  shows "concat (bodies 0 cs) = drop PCK_HEADER_SZ (concat cs) \<and>
     (\<exists>z os. inflate_pieces zl (fst (zl_inflateInit zl)) (bodies 0 cs) = Some (z, os) \<and>
       described zl ms os (up_metas (un_env u')) \<and>
       concat (map snd (up_modules (un_env u'))) = drop ms os \<and> placed 0 (up_modules (un_env u')))"
proof -
  have "concat (bodies n cs) = drop (PCK_HEADER_SZ - n) (concat cs)" for n
    by (induction cs arbitrary: n) auto
  moreover have "unpacker_received zl ms (fst (zl_inflateInit zl)) ([] @ cs) u'"
    by (rule unpack_all_received[OF assms(1) ready_received[OF assms(2-5)] assms(6) _ _ _ assms(10,11,12,13)])
      (use assms(7-9) in auto)
  ultimately show ?thesis using assms(7) by (fastforce simp: unpacker_received_def received_def unpacked_def)
qed

end
