(* ===== verification/OtaFaults.thy ===== *)
theory OtaFaults
  imports OtaStream
begin

text \<open>
  What the unpacker does after a failure. The updater goes on with the next piece when one was
  refused, and the two ways to fail leave the unpacker in different states: a refusal by the integrator
  skips the update of the counter of processed bytes, an error of zlib ends the stream.
\<close>

section \<open>A piece the integrator refuses\<close>

lemma put_module_counters:
  "put_module ctx bs e = (r, ctx', e') \<Longrightarrow> dz_processed ctx' = dz_processed ctx \<and> dz_recieved ctx' = dz_recieved ctx"
  by (auto simp: put_module_def split: if_splits prod.splits)

lemma take_meta_counters:
  "take_meta zl ctx out e = Some (n, r, ctx', e') \<Longrightarrow>
     dz_processed ctx' = dz_processed ctx \<and> dz_recieved ctx' = dz_recieved ctx"
  by (auto simp: take_meta_def store_meta_def Let_def split: if_splits option.splits)

lemma handle_output_counters:
  "handle_output zl ctx out e = Some (r, ctx', e') \<Longrightarrow>
     dz_processed ctx' = dz_processed ctx \<and> dz_recieved ctx' = dz_recieved ctx"
  by (auto simp: handle_output_def split: option.splits prod.splits if_splits
      dest!: put_module_counters take_meta_counters)

text \<open>zlib reports no error.\<close>

definition no_zlib_error :: "'z zlib \<Rightarrow> bool" where
  "no_zlib_error zl \<longleftrightarrow>
     (\<forall>z i. fst (zl_inflate zl z i) \<noteq> Z_NEED_DICT \<and> fst (zl_inflate zl z i) \<noteq> Z_DATA_ERROR \<and>
       fst (zl_inflate zl z i) \<noteq> Z_MEM_ERROR)"

lemma inflate_loop_refused:
  fixes zl :: "'z zlib"
  assumes l: "inflate_loop zl sz input ctx e = Some res"
  shows "no_zlib_error zl \<longrightarrow> (\<forall>r ctx' e'. res = Some (r, ctx', e') \<longrightarrow> r \<noteq> 0 \<longrightarrow>
     dz_processed ctx' = dz_processed ctx \<and> dz_recieved ctx' = dz_recieved ctx)"
proof (rule inflate_loop.raw_induct [where P = "\<lambda>zl sz input ctx e res. no_zlib_error zl \<longrightarrow>
    (\<forall>r ctx' e'. res = Some (r, ctx', e') \<longrightarrow> r \<noteq> 0 \<longrightarrow>
      dz_processed ctx' = dz_processed ctx \<and> dz_recieved ctx' = dz_recieved ctx)", OF _ l])
  fix f :: "'z zlib \<Rightarrow> u32 \<Rightarrow> byte list \<Rightarrow> 'z decompress_ctx \<Rightarrow> updater_env \<Rightarrow> 'z unpack_result option"
  fix zl :: "'z zlib" and sz input ctx e and res :: "'z unpack_result"
  assume IH: "\<And>zl sz input ctx e res. f zl sz input ctx e = Some res \<Longrightarrow> no_zlib_error zl \<longrightarrow>
      (\<forall>r ctx' e'. res = Some (r, ctx', e') \<longrightarrow> r \<noteq> 0 \<longrightarrow>
        dz_processed ctx' = dz_processed ctx \<and> dz_recieved ctx' = dz_recieved ctx)"
    and b: "(case zl_inflate zl (dz_strm ctx) input of
      (ret, z1, rest, out) \<Rightarrow>
        (let ctx1 = ctx\<lparr>dz_strm := z1\<rparr>
         in if ret = Z_NEED_DICT \<or> ret = Z_DATA_ERROR \<or> ret = Z_MEM_ERROR
            then Some (Some (if ret = Z_NEED_DICT then Z_DATA_ERROR else ret,
                         ctx1\<lparr>dz_strm := zl_inflateEnd zl z1, dz_processed := dz_processed ctx1 + sz\<rparr>, e))
            else
              (case handle_output zl ctx1 out e of
                 None \<Rightarrow> Some None
               | Some (r, ctx2, e2) \<Rightarrow>
                   if r \<noteq> 0 then Some (Some (r, ctx2, e2))
                   else if length out = CHUNK then f zl sz rest ctx2 e2
                   else Some (Some (0, ctx2\<lparr>dz_processed := dz_processed ctx2 + sz\<rparr>, e2))))) = Some res"
  show "no_zlib_error zl \<longrightarrow> (\<forall>r ctx' e'. res = Some (r, ctx', e') \<longrightarrow> r \<noteq> 0 \<longrightarrow>
      dz_processed ctx' = dz_processed ctx \<and> dz_recieved ctx' = dz_recieved ctx)"
  proof (intro impI allI)
    fix r ctx' e'
    assume ok: "no_zlib_error zl" and res: "res = Some (r, ctx', e')" and r0: "r \<noteq> 0"
    obtain ret z1 rest out where z: "zl_inflate zl (dz_strm ctx) input = (ret, z1, rest, out)" by (rule prod_cases4)
    have good: "ret \<noteq> Z_NEED_DICT" "ret \<noteq> Z_DATA_ERROR" "ret \<noteq> Z_MEM_ERROR"
      using ok z unfolding no_zlib_error_def by (metis fst_conv)+
    obtain r2 c2 e2 where h: "handle_output zl (ctx\<lparr>dz_strm := z1\<rparr>) out e = Some (r2, c2, e2)"
      using b res z good by (auto simp: Let_def split: option.splits)
    have c2: "dz_processed c2 = dz_processed ctx" "dz_recieved c2 = dz_recieved ctx"
      using handle_output_counters[OF h] by simp_all
    show "dz_processed ctx' = dz_processed ctx \<and> dz_recieved ctx' = dz_recieved ctx"
    proof (cases "r2 = 0 \<and> length out = CHUNK")
      case True
      then have "f zl sz rest c2 e2 = Some res" using b z good h by simp
      from IH[OF this] ok res r0 show ?thesis by (simp add: c2)
    next
      case False
      then show ?thesis using b z good h res r0 c2 by (auto split: if_splits)
    qed
  qed
qed

lemma read_meta_size_counters:
  "read_meta_size le v ctx e = Some (ctx', e') \<Longrightarrow>
     dz_processed ctx' = dz_processed ctx \<and> dz_recieved ctx' = dz_recieved ctx"
  by (auto simp: read_meta_size_def Let_def split: if_splits option.splits prod.splits)

text \<open>The first piece with data behind the header is refused: the counters.\<close>

lemma refused_counters:
  assumes ok: "no_zlib_error zl" and d: "dz_recieved d = 0" "dz_processed d = 0"
    and c: "PCK_HEADER_SZ < length c" "length c < 2 ^ 32"
    and p: "mbed_zlibstream_decompress_process zl le (Some v) (Some d) (Some c) (of_nat (length c)) e = Some (Some (r, d', e'))"
    and r: "r \<noteq> 0"
  shows "\<exists>d1. d' = Some d1 \<and> dz_processed d1 = 0 \<and> dz_recieved d1 = of_nat (length c)"
proof -
  have big: "\<not> (of_nat (length c) :: u32) \<le> of_nat PCK_HEADER_SZ" using c by (subst u32_le) (auto simp: PCK_HEADER_SZ_def)
  have nz: "(of_nat (length c) :: u32) \<noteq> 0" using u32_of_nat[OF c(2)] c(1) by auto
  define d0 where "d0 = d\<lparr>dz_recieved := of_nat (length c)\<rparr>"
  have d0: "dz_recieved d0 = of_nat (length c)" "dz_processed d0 = 0" by (simp_all add: d0_def d)
  obtain sz input d1 e1 d2 where m: "read_meta_size le v d0 e = Some (d1, e1)" "d' = Some d2"
    and l: "inflate_loop zl sz input d1 e1 = Some (Some (r, d2, e'))"
    using p big nz unfolding mbed_zlibstream_decompress_process_def
    by (auto simp: Let_def d d0_def[symmetric] d0 split: option.splits if_splits prod.splits)
  have "dz_processed d2 = dz_processed d1 \<and> dz_recieved d2 = dz_recieved d1"
    using inflate_loop_refused[OF l] ok r by blast
  then show ?thesis using read_meta_size_counters[OF m(1)] m(2) d0 by simp
qed

lemma overread:
  assumes d: "dz_recieved d = of_nat n" "dz_processed d = 0" and n: "PCK_HEADER_SZ < n" "n + length c < 2 ^ 32" "c \<noteq> []"
  shows "mbed_zlibstream_decompress_process zl le vo (Some d) (Some c) (of_nat (length c)) e = Some None"
proof -
  have nz: "(of_nat (length c) :: u32) \<noteq> 0" using u32_of_nat[of "length c"] n(2,3) by auto
  have big: "\<not> (of_nat (n + length c) :: u32) \<le> of_nat PCK_HEADER_SZ"
    using n by (subst u32_le) (auto simp: PCK_HEADER_SZ_def)
  have body: "(of_nat (n + length c) :: u32) - of_nat PCK_HEADER_SZ = of_nat (n + length c - PCK_HEADER_SZ)"
    using n(1) by (intro u32_diff) linarith
  have ub: "unat (of_nat (n + length c - PCK_HEADER_SZ) :: u32) = n + length c - PCK_HEADER_SZ"
    by (rule u32_of_nat) (use n(2) in linarith)
  have out: "memget off (n + length c - PCK_HEADER_SZ) c = None" for off
    using n(1) by (simp add: memget_def)
  have rec: "dz_recieved d + of_nat (length c) = (of_nat (n + length c) :: u32)" by (simp add: d)
  show ?thesis
    unfolding mbed_zlibstream_decompress_process_def
    using nz big by (simp add: Let_def rec d(2) body ub out del: of_nat_add split: option.splits)
qed

text \<open>When the integrator refuses data of the first piece, the next piece is read outside its buffer:
  the counter of processed bytes is still 0, so the header is skipped a second time, by an offset that
  is negative.\<close>

theorem refused_piece_overread:
  assumes "no_zlib_error zl" "ready_unpacker zl e = Some u"
    and "PCK_HEADER_SZ < length c" "c' \<noteq> []" "length c + length c' < 2 ^ 32 - PCK_HEADER_SZ"
    and "duer_ota_unpack_decompress_data zl le u c (of_nat (length c)) = Some (Some (r, u1))" "r \<noteq> DUER_OK"
  shows "duer_ota_unpack_decompress_data zl le u1 c' (of_nat (length c')) = Some None"
proof -
  obtain v d where u: "un_verification u = Some v" "un_decompress u = Some d" "seen v []" "dz_recieved d = 0" "dz_processed d = 0"
    using assms(2) hash_init_seen
    by (auto simp: ready_unpacker_def duer_ota_unpack_create_unpacker_def Let_def mbed_zlibstream_decompress_init_def
        duer_ota_unpack_register_updater_def duer_ota_unpack_set_private_data_def split: prod.splits option.splits if_splits)
  obtain v1 where v1: "mbed_hash_update_key (Some v) c (of_nat (length c)) = Some (Some v1)" "seen v1 c"
    using update_seen[OF u(3), of c] assms(5) by auto
  obtain v2 where v2: "mbed_hash_update_key (Some v1) c' (of_nat (length c')) = Some (Some v2)"
    using update_seen[OF v1(2), of c'] assms(5) by auto
  obtain r1 d' e' where p: "mbed_zlibstream_decompress_process zl le (Some v1) (Some d) (Some c) (of_nat (length c)) (un_env u) =
      Some (Some (r1, d', e'))" "r1 \<noteq> 0" and u1: "un_verification u1 = Some v1" "un_decompress u1 = d'"
    using assms(6,7) by (auto simp: duer_ota_unpack_decompress_data_def u(1,2) v1(1) split: if_splits)
  have c32: "length c < 2 ^ 32" using assms(5) by linarith
  obtain d1 where d1: "d' = Some d1" "dz_processed d1 = 0" "dz_recieved d1 = of_nat (length c)"
    using refused_counters[OF assms(1) u(4,5) assms(3) c32 p] by blast
  show ?thesis
    using overread[OF d1(3,2) assms(3), of c'] assms(4,5)
    by (simp add: duer_ota_unpack_decompress_data_def u1 d1(1) v2)
qed

section \<open>After an error of zlib\<close>

text \<open>zlib on a stream that was ended: an error and no output.\<close>

definition ended_ok :: "'z zlib \<Rightarrow> bool" where
  "ended_ok zl \<longleftrightarrow>
     (\<forall>z i. zl_inflate zl (zl_inflateEnd zl z) i = (Z_STREAM_ERROR, zl_inflateEnd zl z, i, []))"

text \<open>An unpacker that has seen \<open>xs\<close> and whose stream has ended.\<close>

definition ended_ctx :: "'z zlib \<Rightarrow> nat \<Rightarrow> 'z decompress_ctx \<Rightarrow> bool" where
  "ended_ctx zl n d \<longleftrightarrow>
     PCK_HEADER_SZ < n \<and> dz_recieved d = of_nat n \<and> dz_processed d = of_nat (n - PCK_HEADER_SZ) \<and>
     (\<exists>z. dz_strm d = zl_inflateEnd zl z) \<and> dz_meta_size d \<noteq> 0 \<and>
     (\<exists>md. dz_meta_data d = Some md \<and> unat (dz_meta_stored d) \<le> length md)"

definition ended :: "'z zlib \<Rightarrow> nat \<Rightarrow> 'z unpacker \<Rightarrow> bool" where
  "ended zl n u \<longleftrightarrow>
     (\<exists>v xs d. un_verification u = Some v \<and> seen v xs \<and> un_decompress u = Some d \<and> ended_ctx zl n d)"

lemma handle_no_output:
  assumes "dz_meta_data ctx = Some md" "unat (dz_meta_stored ctx) \<le> length md"
  shows "handle_output zl ctx [] e = Some (0, ctx, e)"
proof -
  have "store_meta ctx [] = Some ctx" using assms by (simp add: store_meta_def memput_def)
  moreover have "copy_byte ctx [] = 0 \<or> dz_meta_stored ctx \<ge> dz_meta_size ctx" by (simp add: copy_byte_def Let_def)
  ultimately show ?thesis by (auto simp: handle_output_def take_meta_def put_module_def Let_def)
qed

lemma processed_nonzero:
  assumes "PCK_HEADER_SZ < n" "n < 2 ^ 32"
  shows "(of_nat (n - PCK_HEADER_SZ) :: u32) \<noteq> 0"
proof -
  have "unat (of_nat (n - PCK_HEADER_SZ) :: u32) = n - PCK_HEADER_SZ" by (rule u32_of_nat) (use assms(2) in linarith)
  then show ?thesis using assms(1) by (metis unat_0 zero_less_diff less_irrefl)
qed

text \<open>A piece behind the header, once the first one has been processed: what is left to say is the loop.\<close>

lemma process_later:
  assumes "PCK_HEADER_SZ < n" "n + length c < 2 ^ 32" "c \<noteq> []"
    and "dz_recieved d = of_nat n" "dz_processed d = of_nat (n - PCK_HEADER_SZ)" "dz_meta_size d \<noteq> 0"
  shows "mbed_zlibstream_decompress_process zl le (Some v) (Some d) (Some c) (of_nat (length c)) e =
     map_option (map_option (\<lambda>(r, c2, e2). (r, Some c2, e2)))
       (inflate_loop zl (of_nat (length c)) c (d\<lparr>dz_recieved := of_nat (n + length c)\<rparr>) e)"
proof -
  have nz: "(of_nat (length c) :: u32) \<noteq> 0" "unat (of_nat (length c) :: u32) = length c"
    using u32_of_nat[of "length c"] assms(2,3) by auto
  have big: "\<not> (of_nat (n + length c) :: u32) \<le> of_nat PCK_HEADER_SZ"
    using assms(1,2) by (subst u32_le) (auto simp: PCK_HEADER_SZ_def)
  have "(of_nat (n - PCK_HEADER_SZ) :: u32) \<noteq> 0" using processed_nonzero assms(1,2) by simp
  then have "dz_processed d \<noteq> 0" by (simp only: assms(5) not_False_eq_True)
  then show ?thesis
    unfolding mbed_zlibstream_decompress_process_def
    using nz big by (simp add: Let_def assms(4,6) u32_add read_meta_size_def del: of_nat_add)
qed

lemma ended_step:
  assumes zl: "ended_ok zl" and u: "ended zl n u" and c: "n + length c < 2 ^ 32 - PCK_HEADER_SZ" "c \<noteq> []"
  shows "\<exists>u1. duer_ota_unpack_decompress_data zl le u c (of_nat (length c)) = Some (Some (DUER_OK, u1)) \<and>
     ended zl (n + length c) u1 \<and> un_env u1 = un_env u"
proof -
  obtain v xs d z md where h: "un_verification u = Some v" "seen v xs" "un_decompress u = Some d"
    and n: "PCK_HEADER_SZ < n" and rc: "dz_recieved d = of_nat n" and pr: "dz_processed d = of_nat (n - PCK_HEADER_SZ)"
    and z: "dz_strm d = zl_inflateEnd zl z" and ms: "dz_meta_size d \<noteq> 0"
    and md: "dz_meta_data d = Some md" "unat (dz_meta_stored d) \<le> length md"
    using u by (auto simp: ended_def ended_ctx_def)
  obtain v1 where v1: "mbed_hash_update_key (Some v) c (of_nat (length c)) = Some (Some v1)" "seen v1 (xs @ c)"
    using update_seen[OF h(2), of c] c by auto
  define d1 where "d1 = d\<lparr>dz_recieved := of_nat (n + length c)\<rparr>"
  have inf: "zl_inflate zl (dz_strm d1) c = (Z_STREAM_ERROR, zl_inflateEnd zl z, c, [])"
    using zl by (simp add: ended_ok_def d1_def z)
  have same: "d1\<lparr>dz_strm := zl_inflateEnd zl z\<rparr> = d1" by (simp add: d1_def z[symmetric])
  have ho: "handle_output zl d1 [] e = Some (0, d1, e)" for e
    using md by (intro handle_no_output[where md = md]) (simp_all add: d1_def)
  have loop: "inflate_loop zl (of_nat (length c)) c d1 e =
      Some (Some (0, d1\<lparr>dz_processed := dz_processed d1 + of_nat (length c)\<rparr>, e))" for e
    by (subst inflate_loop.simps) (simp add: inf same ho CHUNK_def)
  define d2 where "d2 = d1\<lparr>dz_processed := dz_processed d1 + of_nat (length c)\<rparr>"
  have "n + length c < 2 ^ 32" using c(1) by linarith
  then have "mbed_zlibstream_decompress_process zl le (Some v1) (Some d) (Some c) (of_nat (length c)) (un_env u) =
      Some (Some (0, Some d2, un_env u))"
    using process_later[OF n _ c(2) rc pr ms, of zl le v1 "un_env u"] loop
    unfolding d1_def[symmetric] d2_def by simp
  moreover have "ended_ctx zl (n + length c) d2"
    using n z ms md by (auto simp: ended_ctx_def d2_def d1_def pr u32_add simp del: of_nat_add)
  ultimately show ?thesis using v1 by (auto simp: duer_ota_unpack_decompress_data_def h ended_def)
qed

lemma ended_all:
  assumes "ended_ok zl" "ended zl n u" "list_all (\<lambda>c. c \<noteq> []) ds" "n + length (concat ds) < 2 ^ 32 - PCK_HEADER_SZ"
  shows "\<exists>u2. unpack_all zl le u ds = Some (Some (replicate (length ds) DUER_OK, u2)) \<and> un_env u2 = un_env u"
  using assms(2-)
proof (induction ds arbitrary: n u)
  case (Cons c ds)
  obtain u1 where u1: "duer_ota_unpack_decompress_data zl le u c (of_nat (length c)) = Some (Some (DUER_OK, u1))"
    "ended zl (n + length c) u1" "un_env u1 = un_env u"
    using ended_step[OF assms(1) Cons.prems(1), of c] Cons.prems(2,3) by auto
  obtain u2 where "unpack_all zl le u1 ds = Some (Some (replicate (length ds) DUER_OK, u2))" "un_env u2 = un_env u1"
    using Cons.IH[OF u1(2)] Cons.prems(2,3) by auto
  then show ?case using u1 by simp
qed simp

text \<open>When zlib finds a piece corrupt, that piece is refused, but every later piece of the package is
  accepted, and nothing is handed to the integrator any more: who looks at the last answers only takes
  a package for complete whose tail was thrown away.\<close>

theorem corrupt_piece_forgotten:
  assumes "ended_ok zl" "unpacker_received zl ms z0 cs u" "PCK_HEADER_SZ < length (concat cs)"
    and "un_decompress u = Some d" "zl_inflate zl (dz_strm d) c = (Z_DATA_ERROR, z1, rest, out)"
    and "c \<noteq> []" "list_all (\<lambda>c. c \<noteq> []) ds" "length (concat (cs @ c # ds)) < 2 ^ 32 - PCK_HEADER_SZ"
  shows "\<exists>u1 u2. duer_ota_unpack_decompress_data zl le u c (of_nat (length c)) = Some (Some (DUER_ERR_FAILED, u1)) \<and>
     unpack_all zl le u1 ds = Some (Some (replicate (length ds) DUER_OK, u2)) \<and> un_env u2 = un_env u"
proof -
  define n where "n = length (concat cs)"
  obtain v os where v: "un_verification u = Some v" "seen v (concat cs)" and rc: "dz_recieved d = of_nat n"
    and pr: "dz_processed d = of_nat (n - PCK_HEADER_SZ)" and un: "unpacked zl ms os d (un_env u)"
    using assms(2-4) by (auto simp: unpacker_received_def received_def n_def)
  have ms: "dz_meta_size d \<noteq> 0" "dz_meta_stored d = of_nat (min ms (length os))"
    "dz_meta_data d = Some (take ms os @ replicate (ms - length os) 0)" "ms < 2 ^ 32"
    using un u32_of_nat[of ms] by (auto simp: unpacked_def)
  have st: "unat (dz_meta_stored d) = min ms (length os)" unfolding ms(2) by (rule u32_of_nat) (use ms(4) in simp)
  obtain v1 where v1: "mbed_hash_update_key (Some v) c (of_nat (length c)) = Some (Some v1)" "seen v1 (concat cs @ c)"
    using update_seen[OF v(2), of c] assms(8) by auto
  define d1 where "d1 = d\<lparr>dz_recieved := of_nat (n + length c), dz_strm := zl_inflateEnd zl z1,
      dz_processed := of_nat (n - PCK_HEADER_SZ) + of_nat (length c)\<rparr>"
  have n: "PCK_HEADER_SZ < n" "n + length c < 2 ^ 32" using assms(3,8) by (simp_all add: n_def)
  have "inflate_loop zl (of_nat (length c)) c (d\<lparr>dz_recieved := of_nat (n + length c)\<rparr>) e =
      Some (Some (Z_DATA_ERROR, d1, e))" for e
    by (subst inflate_loop.simps) (simp add: assms(5) d1_def pr)
  then have "mbed_zlibstream_decompress_process zl le (Some v1) (Some d) (Some c) (of_nat (length c)) (un_env u) =
      Some (Some (Z_DATA_ERROR, Some d1, un_env u))"
    using process_later[OF n assms(6) rc pr ms(1)] by simp
  then have d: "duer_ota_unpack_decompress_data zl le u c (of_nat (length c)) = Some (Some (DUER_ERR_FAILED,
      u\<lparr>un_verification := Some v1, un_decompress := Some d1, un_env := un_env u\<rparr>))"
    by (simp add: duer_ota_unpack_decompress_data_def v(1) v1(1) assms(4))
  define u1 where "u1 = u\<lparr>un_verification := Some v1, un_decompress := Some d1, un_env := un_env u\<rparr>"
  note u1 = d[folded u1_def]
  have u1f: "un_env u1 = un_env u" "un_verification u1 = Some v1" "un_decompress u1 = Some d1" by (simp_all add: u1_def)
  have "ended_ctx zl (n + length c) d1"
    using n ms(1,3) st by (auto simp: ended_ctx_def d1_def u32_add simp del: of_nat_add)
  then have "ended zl (n + length c) u1" using u1f v1(2) by (auto simp: ended_def)
  from ended_all[OF assms(1) this assms(7)] show ?thesis using u1 u1f assms(8) by (auto simp: n_def)
qed

end
