(* ===== verification/OtaDownload.thy ===== *)
theory OtaDownload
  imports DuerPrelude
begin

text \<open>
  \<^verbatim>\<open>modules/OTA/Downloader\<close>: the table of downloaders, one for each protocol, and the HTTP downloader.
  The objects are in a heap, because the table and the updater share them; a freed one is \<open>None\<close>. A
  mutex is \<^verbatim>\<open>NULL\<close>, alive or destroyed; taking a destroyed one is a fault, taking \<^verbatim>\<open>NULL\<close> fails
  (\<^verbatim>\<open>platform/source-linux/baidu_ca_mutex_adp.c\<close>).

  The HTTP client is an argument: it gets the state of the updater, calls the data handler on what
  it receives and says whether the transfer succeeded; \<open>None\<close> is a transfer that does not return, and
  \<open>Some None\<close> a fault.
\<close>

section \<open>Mutexes\<close>

datatype mutex = MNull | MLive | MDead

fun mutex_lock :: "mutex \<Rightarrow> status option" where
  "mutex_lock MNull = Some DUER_ERR_FAILED"
| "mutex_lock MLive = Some DUER_OK"
| "mutex_lock MDead = None"

fun mutex_destroy :: "mutex \<Rightarrow> (status \<times> mutex) option" where
  "mutex_destroy MNull = Some (DUER_ERR_FAILED, MNull)"
| "mutex_destroy MLive = Some (DUER_OK, MDead)"
| "mutex_destroy MDead = None"

section \<open>State\<close>

definition MAX_PROTOCOL_COUNT :: nat where "MAX_PROTOCOL_COUNT = 2"
definition HTTP :: nat where "HTTP = 0"
definition DL_URL_LEN :: nat where "DL_URL_LEN = 301"

text \<open>\<open>hp_handler\<close>: a data handler is registered with the client.\<close>

record http_pdata =
  hp_handler :: bool

record downloader =
  dn_dp :: nat
  dn_pdata :: "http_pdata option"
  dn_ops :: bool
  dn_url :: string

record dl_state =
  dl_table :: "addr option list"
  dl_lock :: mutex
  dl_heap :: "addr \<Rightarrow> downloader option"
  dl_next :: addr
  dl_mem :: mem

definition dl_malloc :: "dl_state \<Rightarrow> bool \<times> dl_state" where
  "dl_malloc s = (let (ok, m) = malloc_ok (dl_mem s) in (ok, s\<lparr>dl_mem := m\<rparr>))"

section \<open>The table\<close>

definition duer_init_ota_downloader :: "dl_state \<Rightarrow> status \<times> dl_state" where
  "duer_init_ota_downloader s =
     (let s1 = s\<lparr>dl_table := replicate MAX_PROTOCOL_COUNT None\<rparr>
      in if dl_lock s1 = MNull
         then (let (ok, s2) = dl_malloc s1
               in if ok then (DUER_OK, s2\<lparr>dl_lock := MLive\<rparr>) else (DUER_ERR_FAILED, s2))
         else (DUER_OK, s1))"

definition duer_uninit_ota_downloader :: "dl_state \<Rightarrow> (status \<times> dl_state) option" where
  "duer_uninit_ota_downloader s =
     map_option (\<lambda>(r, l). (if r \<noteq> DUER_OK then DUER_ERR_FAILED else DUER_OK, s\<lparr>dl_lock := l\<rparr>))
       (mutex_destroy (dl_lock s))"

definition duer_ota_downloader_register_downloader :: "addr option \<Rightarrow> nat \<Rightarrow> dl_state \<Rightarrow> (status \<times> dl_state) option" where
  "duer_ota_downloader_register_downloader a dp s =
     (case a of
        None \<Rightarrow> Some (DUER_ERR_INVALID_PARAMETER, s)
      | Some p \<Rightarrow>
          if dp \<ge> MAX_PROTOCOL_COUNT then Some (DUER_ERR_INVALID_PARAMETER, s)
          else
            (case mutex_lock (dl_lock s) of
               None \<Rightarrow> None
             | Some r \<Rightarrow>
                 if r \<noteq> DUER_OK then Some (DUER_ERR_FAILED, s)
                 else
                   (case dl_heap s p of
                      None \<Rightarrow> None
                    | Some d \<Rightarrow> Some (DUER_OK, s\<lparr>dl_table := (dl_table s)[dp := Some p],
                                             dl_heap := (dl_heap s)(p \<mapsto> d\<lparr>dn_dp := dp\<rparr>)\<rparr>))))"

definition duer_ota_downloader_unregister_downloader :: "nat \<Rightarrow> dl_state \<Rightarrow> (status \<times> dl_state) option" where
  "duer_ota_downloader_unregister_downloader dp s =
     (if dp \<ge> MAX_PROTOCOL_COUNT then Some (DUER_ERR_INVALID_PARAMETER, s)
      else
        map_option (\<lambda>r. if r \<noteq> DUER_OK then (r, s) else (DUER_OK, s\<lparr>dl_table := (dl_table s)[dp := None]\<rparr>))
          (mutex_lock (dl_lock s)))"

definition duer_ota_downloader_get_downloader :: "nat \<Rightarrow> dl_state \<Rightarrow> addr option option" where
  "duer_ota_downloader_get_downloader dp s =
     (if dp \<ge> MAX_PROTOCOL_COUNT \<or> dl_table s ! dp = None then Some None
      else map_option (\<lambda>r. if r \<noteq> DUER_OK then None else dl_table s ! dp) (mutex_lock (dl_lock s)))"

text \<open>A failed allocation is reported and then written to.\<close>

definition duer_ota_downloader_create_downloader :: "dl_state \<Rightarrow> (addr option \<times> dl_state) option" where
  "duer_ota_downloader_create_downloader s =
     (let (ok, s1) = dl_malloc s
      in if \<not> ok then None
         else
           (let (ok2, s2) = dl_malloc s1; p = dl_next s2
            in if \<not> ok2 then Some (None, s2)
               else Some (Some p, s2\<lparr>dl_heap := (dl_heap s2)(p \<mapsto> \<lparr>dn_dp = 0, dn_pdata = None, dn_ops = False, dn_url = replicate (DL_URL_LEN + 1) (CHR 0x00)\<rparr>),
                                    dl_next := p + 1\<rparr>)))"

definition duer_ota_downloader_register_downloader_ops ::
  "addr option \<Rightarrow> dl_state \<Rightarrow> (status \<times> dl_state) option" where
  "duer_ota_downloader_register_downloader_ops a s =
     (case a of
        None \<Rightarrow> Some (DUER_ERR_INVALID_PARAMETER, s)
      | Some p \<Rightarrow>
          map_option (\<lambda>d. (DUER_OK, s\<lparr>dl_heap := (dl_heap s)(p \<mapsto> d\<lparr>dn_ops := True\<rparr>)\<rparr>)) (dl_heap s p))"

section \<open>The HTTP downloader\<close>

definition init_http_downloader :: "downloader \<Rightarrow> mem \<Rightarrow> status \<times> downloader \<times> mem" where
  "init_http_downloader d m =
     (let (ok, m1) = malloc_ok m
      in if \<not> ok then (DUER_ERR_FAILED, d, m1)
         else
           (let (ok2, m2) = malloc_ok m1
            in if \<not> ok2 then (DUER_ERR_MEMORY_OVERLOW, d, m2)
               else (DUER_OK, d\<lparr>dn_pdata := Some \<lparr>hp_handler = False\<rparr>\<rparr>, m2)))"

definition register_data_notify :: "downloader \<Rightarrow> (status \<times> downloader) option" where
  "register_data_notify d =
     map_option (\<lambda>p. (DUER_OK, d\<lparr>dn_pdata := Some \<lparr>hp_handler = True\<rparr>\<rparr>)) (dn_pdata d)"

text \<open>A missing client is reported and then used.\<close>

definition connect_http_server ::
  "(bool \<Rightarrow> 's \<Rightarrow> (bool \<times> 's) option option) \<Rightarrow> downloader \<Rightarrow> 's \<Rightarrow> (status \<times> 's) option option" where
  "connect_http_server http_get d s =
     (case dn_pdata d of
        None \<Rightarrow> Some None
      | Some p \<Rightarrow>
          map_option (map_option (\<lambda>(ok, s1). (if ok then DUER_OK else DUER_ERR_FAILED, s1))) (http_get (hp_handler p) s))"

definition destroy_http_downloader :: "downloader \<Rightarrow> (status \<times> downloader) option" where
  "destroy_http_downloader d = map_option (\<lambda>p. (DUER_OK, d\<lparr>dn_pdata := None\<rparr>)) (dn_pdata d)"

section \<open>Operations of a downloader\<close>

definition duer_ota_downloader_init_downloader :: "addr \<Rightarrow> dl_state \<Rightarrow> (status \<times> dl_state) option" where
  "duer_ota_downloader_init_downloader p s =
     (case dl_heap s p of
        None \<Rightarrow> None
      | Some d \<Rightarrow>
          if \<not> dn_ops d then Some (DUER_ERR_INVALID_PARAMETER, s)
          else (let (r, d1, m) = init_http_downloader d (dl_mem s)
                in Some (r, s\<lparr>dl_heap := (dl_heap s)(p \<mapsto> d1), dl_mem := m\<rparr>)))"

definition duer_ota_downloader_register_data_notify :: "addr \<Rightarrow> dl_state \<Rightarrow> (status \<times> dl_state) option" where
  "duer_ota_downloader_register_data_notify p s =
     (case dl_heap s p of
        None \<Rightarrow> None
      | Some d \<Rightarrow>
          if \<not> dn_ops d then Some (DUER_ERR_INVALID_PARAMETER, s)
          else map_option (\<lambda>(r, d1). (r, s\<lparr>dl_heap := (dl_heap s)(p \<mapsto> d1)\<rparr>)) (register_data_notify d))"

text \<open>The URL is copied without its end; \<open>put\<close> writes the downloader back before the transfer.\<close>

definition duer_ota_downloader_connect_server ::
  "(bool \<Rightarrow> 's \<Rightarrow> (bool \<times> 's) option option) \<Rightarrow> (downloader \<Rightarrow> 's \<Rightarrow> 's) \<Rightarrow> downloader \<Rightarrow> string \<Rightarrow> 's
     \<Rightarrow> (status \<times> 's) option option" where
  "duer_ota_downloader_connect_server http_get put d url s =
     (if \<not> dn_ops d then Some (Some (DUER_ERR_INVALID_PARAMETER, s))
      else if length url \<ge> DL_URL_LEN then Some (Some (DUER_ERR_INVALID_PARAMETER, s))
      else connect_http_server http_get d
             (put (d\<lparr>dn_url := (url @ drop (length url) (dn_url d))[length url + 1 := CHR 0x00]\<rparr>) s))"

definition duer_ota_downloader_destroy_downloader :: "addr option \<Rightarrow> dl_state \<Rightarrow> (status \<times> dl_state) option" where
  "duer_ota_downloader_destroy_downloader a s =
     (case a of
        None \<Rightarrow> Some (DUER_ERR_INVALID_PARAMETER, s)
      | Some p \<Rightarrow>
          (case dl_heap s p of
             None \<Rightarrow> None
           | Some d \<Rightarrow>
               Option.bind (if dn_ops d then destroy_http_downloader d else Some (DUER_OK, d)) (\<lambda>(r, d1).
               Option.bind (duer_ota_downloader_unregister_downloader (dn_dp d1) s) (\<lambda>(r2, s1).
                 if r2 \<noteq> DUER_OK then Some (r2, s1\<lparr>dl_heap := (dl_heap s1)(p \<mapsto> d1)\<rparr>)
                 else Some (DUER_OK, s1\<lparr>dl_heap := (dl_heap s1)(p := None)\<rparr>)))))"

text \<open>\<^verbatim>\<open>lightduer_ota_http_downloader.c\<close>: creating and registering the HTTP downloader.\<close>

definition duer_init_http_downloader :: "dl_state \<Rightarrow> (status \<times> dl_state) option" where
  "duer_init_http_downloader s =
     (case duer_ota_downloader_create_downloader s of
        None \<Rightarrow> None
      | Some (None, s1) \<Rightarrow> map_option (\<lambda>(r, s2). (DUER_OK, s2)) (duer_ota_downloader_destroy_downloader None s1)
      | Some (Some p, s1) \<Rightarrow>
          Option.bind (duer_ota_downloader_register_downloader_ops (Some p) s1) (\<lambda>(r, s2).
            if r \<noteq> DUER_OK
            then map_option (\<lambda>(r2, s3). (r, s3)) (duer_ota_downloader_destroy_downloader (Some p) s2)
            else
              Option.bind (duer_ota_downloader_register_downloader (Some p) HTTP s2) (\<lambda>(r2, s3).
                if r2 \<noteq> DUER_OK
                then map_option (\<lambda>(r3, s4). (r2, s4)) (duer_ota_downloader_destroy_downloader (Some p) s3)
                else Some (DUER_OK, s3))))"

end
