(* ===== verification/OtaUpdate.thy ===== *)
theory OtaUpdate
  imports OtaUnpack OtaDownload
begin

text \<open>
  \<^verbatim>\<open>modules/OTA/Updater/lightduer_ota_updater.c\<close> and \<^verbatim>\<open>modules/OTA/Notifier/lightduer_ota_notifier.c\<close>: the
  command that starts an update, the job that carries it out in a task of its own, and the events it
  reports to the cloud.

  What the outside answers is part of the state: the integrator's functions (\<open>ot_inits\<close>, \<open>ot_boots\<close>,
  \<open>ot_packages\<close>, the callbacks of the unpacker), the transfers of the HTTP client with the pieces they
  bring and whether the client succeeds, fails or never returns from them (\<open>ot_http\<close>), and the results of \<^verbatim>\<open>duer_data_report\<close> (\<open>ot_reports\<close>). A list that is used up
  answers with success. Each component has its own list of allocation outcomes.

  An updater is freed when it is \<open>None\<close> in the heap; the event handler is \<^verbatim>\<open>NULL\<close>, alive or freed.
\<close>

section \<open>State\<close>

definition TRANSACTION_LEN :: nat where "TRANSACTION_LEN = 65"
definition VERSION_LEN :: nat where "VERSION_LEN = 16"
definition URL_LEN :: nat where "URL_LEN = 301"
definition SIGNATURE_LEN :: nat where "SIGNATURE_LEN = 129"

abbreviation (input) ENABLE_OTA :: int where "ENABLE_OTA \<equiv> 1"
abbreviation (input) DISABLE_OTA :: int where "DISABLE_OTA \<equiv> - 1"
abbreviation (input) ENABLE_REBOOT :: int where "ENABLE_REBOOT \<equiv> 1"
abbreviation (input) DISABLE_REBOOT :: int where "DISABLE_REBOOT \<equiv> - 1"
abbreviation (input) MSG_RSP_CHANGED :: status where "MSG_RSP_CHANGED \<equiv> 68"
abbreviation (input) MSG_RSP_BAD_REQUEST :: status where "MSG_RSP_BAD_REQUEST \<equiv> 128"

definition OTA_EVENT_BEGIN :: int where "OTA_EVENT_BEGIN = 0"
definition OTA_EVENT_CONNECT_FAIL :: int where "OTA_EVENT_CONNECT_FAIL = 1"
definition OTA_EVENT_DOWNLOADING :: int where "OTA_EVENT_DOWNLOADING = 4"
definition OTA_EVENT_DOWNLOAD_COMPLETE :: int where "OTA_EVENT_DOWNLOAD_COMPLETE = 5"
definition OTA_EVENT_INSTALLING :: int where "OTA_EVENT_INSTALLING = 7"
definition OTA_EVENT_WRITE_ERROR :: int where "OTA_EVENT_WRITE_ERROR = 9"
definition OTA_EVENT_INSTALLED :: int where "OTA_EVENT_INSTALLED = 10"
definition OTA_EVENT_REJECT :: int where "OTA_EVENT_REJECT = 12"

record update_cmd =
  uc_transaction :: string
  uc_version :: string
  uc_old_version :: string
  uc_url :: string
  uc_signature :: string
  uc_size :: u32

record 'z updater =
  ut_unpacker :: "'z unpacker option"
  ut_downloader :: "addr option"
  ut_cmd :: update_cmd
  ut_received :: nat

record package_info =
  pi_product :: string
  pi_batch :: string
  pi_os_name :: string
  pi_developer :: string
  pi_os_version :: string
  pi_staged_version :: string

datatype handler_ptr = HNull | HLive | HFreed

record 'z ota =
  ot_switch :: int
  ot_reboot :: int
  ot_lock :: mutex
  ot_handler :: handler_ptr
  ot_jobs :: "addr list"
  ot_first :: bool
  ot_ops :: bool
  ot_dl :: dl_state
  ot_updaters :: "addr \<Rightarrow> 'z updater option"
  ot_next :: addr
  ot_env :: updater_env
  ot_count :: int
  ot_notifier_lock :: mutex
  ot_pkg_ops :: bool
  ot_mem :: mem
  ot_inits :: "(status \<times> bool \<times> bool) list"
  ot_boots :: "status list"
  ot_packages :: "(status \<times> package_info) list"
  ot_http :: "(byte list list \<times> bool option) list"
  ot_reports :: "status list"
  ot_reported :: "json list"
  ot_events :: "int list"
  ot_rebooted :: nat

text \<open>
  \<open>oe_tenths\<close> and \<open>oe_whole\<close>: what the floating point expressions of the progress give for the bytes
  received and the total. \<open>oe_after\<close>: the bytes behind a string in memory. \<open>oe_event\<close>: the value of the
  variable \<^verbatim>\<open>event\<close> while it is not set.
\<close>

record 'z ota_env =
  oe_zlib :: "'z zlib"
  oe_le :: bool
  oe_parse :: "string \<Rightarrow> json option"
  oe_after :: string
  oe_event :: int
  oe_tenths :: "nat \<Rightarrow> nat \<Rightarrow> int"
  oe_whole :: "nat \<Rightarrow> nat \<Rightarrow> int"

definition ot_malloc :: "'z ota \<Rightarrow> bool \<times> 'z ota" where
  "ot_malloc s = (let (ok, m) = malloc_ok (ot_mem s) in (ok, s\<lparr>ot_mem := m\<rparr>))"

section \<open>The notifier\<close>

text \<open>\<^verbatim>\<open>duer_data_report\<close> of the application interface: the answer, and what was handed to it.\<close>

definition ota_data_report :: "json \<Rightarrow> 'z ota \<Rightarrow> status \<times> 'z ota" where
  "ota_data_report j s =
     (let s1 = s\<lparr>ot_reported := ot_reported s @ [j]\<rparr>
      in case ot_reports s1 of [] \<Rightarrow> (DUER_OK, s1) | r # rs \<Rightarrow> (r, s1\<lparr>ot_reports := rs\<rparr>))"

text \<open>
  The updater is read after the checks. The event node is linked into the data before it is filled;
  the name of the link is allocated first.
\<close>

definition duer_ota_notifier_event :: "addr \<Rightarrow> int \<Rightarrow> int \<Rightarrow> 'z ota \<Rightarrow> (status \<times> 'z ota) option" where
  "duer_ota_notifier_event u event percent s =
     (if event < OTA_EVENT_BEGIN \<or> event > OTA_EVENT_REJECT then Some (DUER_ERR_INVALID_PARAMETER, s)
      else
        (case json_CreateObject (ot_mem s) of
           (None, m1) \<Rightarrow> Some (DUER_ERR_MEMORY_OVERLOW, s\<lparr>ot_mem := m1\<rparr>)
         | (Some data, m1) \<Rightarrow>
             (case json_CreateObject m1 of
                (None, m2) \<Rightarrow> Some (DUER_ERR_MEMORY_OVERLOW, s\<lparr>ot_mem := m2\<rparr>)
              | (Some ev, m2) \<Rightarrow>
                  (case ot_updaters s u of
                     None \<Rightarrow> None
                   | Some ut \<Rightarrow>
                       (let (nm, m3) = json_strdup ''ota_event'' m2;
                            (e1, m4) = json_AddStringToObject ev ''transaction'' (uc_transaction (ut_cmd ut)) m3;
                            (e2, m5) = json_AddNumberToObject e1 ''event'' event m4;
                            (e3, m6) = (if event = OTA_EVENT_DOWNLOADING \<or> event = OTA_EVENT_INSTALLING
                                        then json_AddNumberToObject e2 ''percent'' percent m5 else (e2, m5));
                            j = json_AddItemToArray data (Some (nm, e3))
                        in Some (ota_data_report j (s\<lparr>ot_mem := m6, ot_events := ot_events s @ [event]\<rparr>)))))))"

definition duer_ota_notifier_state :: "addr \<Rightarrow> int \<Rightarrow> 'z ota \<Rightarrow> (status \<times> 'z ota) option" where
  "duer_ota_notifier_state u state s =
     (if state < 0 \<or> state > 4 then Some (DUER_ERR_INVALID_PARAMETER, s)
      else
        (case json_CreateObject (ot_mem s) of
           (None, m1) \<Rightarrow> Some (DUER_ERR_MEMORY_OVERLOW, s\<lparr>ot_mem := m1\<rparr>)
         | (Some data, m1) \<Rightarrow>
             (case json_CreateObject m1 of
                (None, m2) \<Rightarrow> Some (DUER_ERR_MEMORY_OVERLOW, s\<lparr>ot_mem := m2\<rparr>)
              | (Some st, m2) \<Rightarrow>
                  (case ot_updaters s u of
                     None \<Rightarrow> None
                   | Some ut \<Rightarrow>
                       (let (s1, m3) = json_AddStringToObject st ''transaction'' (uc_transaction (ut_cmd ut)) m2;
                            (s2, m4) = json_AddNumberToObject s1 ''state'' state m3;
                            (j, m5) = json_AddItemToObject data ''ota_state'' (Some s2) m4
                        in Some (ota_data_report j (s\<lparr>ot_mem := m5\<rparr>)))))))"

definition duer_ota_register_package_info_ops :: "bool \<Rightarrow> 'z ota \<Rightarrow> status \<times> 'z ota" where
  "duer_ota_register_package_info_ops given s =
     (if \<not> given then (DUER_ERR_INVALID_PARAMETER, s)
      else if ot_notifier_lock s = MNull
      then (let (ok, s1) = ot_malloc s
            in if ok then (DUER_OK, s1\<lparr>ot_notifier_lock := MLive, ot_pkg_ops := True\<rparr>)
               else (DUER_ERR_MEMORY_OVERLOW, s1))
      else (DUER_OK, s\<lparr>ot_pkg_ops := True\<rparr>))"

definition empty_package_info :: package_info where
  "empty_package_info = \<lparr>pi_product = [], pi_batch = [], pi_os_name = [], pi_developer = [], pi_os_version = [],
     pi_staged_version = []\<rparr>"

definition duer_ota_get_package_info :: "'z ota \<Rightarrow> (status \<times> package_info \<times> 'z ota) option" where
  "duer_ota_get_package_info s =
     (case mutex_lock (ot_notifier_lock s) of
        None \<Rightarrow> None
      | Some r \<Rightarrow>
          if r \<noteq> DUER_OK then Some (r, empty_package_info, s)
          else if \<not> ot_pkg_ops s then None
          else
            (case ot_packages s of
               [] \<Rightarrow> Some (DUER_OK, empty_package_info, s)
             | (r1, p) # ps \<Rightarrow> Some (DUER_OK, p, s\<lparr>ot_packages := ps\<rparr>)))"

definition os_info_json :: "package_info \<Rightarrow> string \<Rightarrow> json \<Rightarrow> mem \<Rightarrow> json \<times> mem" where
  "os_info_json p version os m =
     (let (o1, m1) = json_AddStringToObject os ''name'' (pi_os_name p) m;
          (o2, m2) = json_AddStringToObject o1 ''developer'' (pi_developer p) m1;
          (o3, m3) = json_AddStringToObject o2 ''staged_version'' (pi_staged_version p) m2
      in json_AddStringToObject o3 ''version'' version m3)"

definition package_info_json :: "package_info \<Rightarrow> json \<Rightarrow> json \<Rightarrow> mem \<Rightarrow> json \<times> mem" where
  "package_info_json p os pkg m =
     (let (p1, m1) = json_AddItemToObject pkg ''os'' (Some os) m;
          (p2, m2) = json_AddStringToObject p1 ''version'' ''0.9'' m1;
          (p3, m3) = json_AddStringToObject p2 ''product'' (pi_product p) m2
      in json_AddStringToObject p3 ''batch'' (pi_batch p) m3)"

text \<open>\<^verbatim>\<open>notify_package_info\<close> of the updater and \<^verbatim>\<open>duer_ota_notify_package_info\<close> differ in the version they name.\<close>

definition report_package_info :: "(package_info \<Rightarrow> string) \<Rightarrow> 'z ota \<Rightarrow> (status \<times> 'z ota) option" where
  "report_package_info version s =
     (case duer_ota_get_package_info s of
        None \<Rightarrow> None
      | Some (r, p, s1) \<Rightarrow>
          if r \<noteq> DUER_OK then Some (r, s1)
          else
            (case json_CreateObject (ot_mem s1) of
               (None, m1) \<Rightarrow> Some (DUER_ERR_MEMORY_OVERLOW, s1\<lparr>ot_mem := m1\<rparr>)
             | (Some pkg, m1) \<Rightarrow>
                 (case json_CreateObject m1 of
                    (None, m2) \<Rightarrow> Some (DUER_ERR_MEMORY_OVERLOW, s1\<lparr>ot_mem := m2\<rparr>)
                  | (Some os, m2) \<Rightarrow>
                      (case json_CreateObject m2 of
                         (None, m3) \<Rightarrow> Some (DUER_ERR_MEMORY_OVERLOW, s1\<lparr>ot_mem := m3\<rparr>)
                       | (Some data, m3) \<Rightarrow>
                           (let (os1, m4) = os_info_json p (version p) os m3;
                                (pkg1, m5) = package_info_json p os1 pkg m4;
                                (j, m6) = json_AddItemToObject data ''package_info'' (Some pkg1) m5
                            in Some (ota_data_report j (s1\<lparr>ot_mem := m6\<rparr>)))))))"

definition duer_ota_notify_package_info :: "'z ota \<Rightarrow> (status \<times> 'z ota) option" where
  "duer_ota_notify_package_info s = report_package_info pi_os_version s"

definition notify_package_info :: "addr \<Rightarrow> 'z ota \<Rightarrow> (status \<times> 'z ota) option" where
  "notify_package_info u s =
     (case ot_updaters s u of
        None \<Rightarrow> None
      | Some ut \<Rightarrow> report_package_info (\<lambda>p. uc_version (ut_cmd ut)) s)"

section \<open>The switches\<close>

text \<open>No value of the enumeration equals both constants.\<close>

definition duer_ota_set_switch :: "int \<Rightarrow> 'z ota \<Rightarrow> (status \<times> 'z ota) option" where
  "duer_ota_set_switch flag s =
     (if flag \<noteq> ENABLE_OTA \<or> flag \<noteq> DISABLE_OTA then Some (DUER_ERR_INVALID_PARAMETER, s)
      else if ot_lock s = MNull then Some (DUER_ERR_FAILED, s)
      else map_option (\<lambda>r. if r \<noteq> DUER_OK then (r, s) else (DUER_OK, s\<lparr>ot_switch := flag\<rparr>))
             (mutex_lock (ot_lock s)))"

definition duer_ota_set_reboot :: "int \<Rightarrow> 'z ota \<Rightarrow> (status \<times> 'z ota) option" where
  "duer_ota_set_reboot flag s =
     (if flag \<noteq> ENABLE_REBOOT \<and> flag \<noteq> DISABLE_REBOOT then Some (DUER_ERR_INVALID_PARAMETER, s)
      else if ot_lock s = MNull then Some (DUER_ERR_FAILED, s)
      else map_option (\<lambda>r. if r \<noteq> DUER_OK then (r, s) else (DUER_OK, s\<lparr>ot_reboot := flag\<rparr>))
             (mutex_lock (ot_lock s)))"

text \<open>The value read is overwritten by the status of unlocking, which succeeds on a mutex that was taken.\<close>

definition read_switch :: "int \<Rightarrow> mutex \<Rightarrow> int option" where
  "read_switch val l =
     (if l = MNull then Some DUER_ERR_FAILED
      else map_option (\<lambda>r. if r \<noteq> DUER_OK then DUER_ERR_FAILED
                           else (let ret = val; ret2 = DUER_OK in ret2)) (mutex_lock l))"

definition duer_ota_get_switch :: "'z ota \<Rightarrow> int option" where
  "duer_ota_get_switch s = read_switch (ot_switch s) (ot_lock s)"

definition duer_ota_get_reboot :: "'z ota \<Rightarrow> int option" where
  "duer_ota_get_reboot s = read_switch (ot_reboot s) (ot_lock s)"

section \<open>The update command\<close>

text \<open>
  \<^verbatim>\<open>memmove\<close> copies as many bytes as the field holds but one, whatever the length of the string: it may
  read on behind it. The last byte of the field stays zero.
\<close>

definition copy_field :: "nat \<Rightarrow> string \<Rightarrow> string \<Rightarrow> string" where
  "copy_field n after v = takeWhile (\<lambda>c. c \<noteq> CHR 0x00) (take n (v @ CHR 0x00 # after))"

definition empty_cmd :: update_cmd where
  "empty_cmd = \<lparr>uc_transaction = [], uc_version = [], uc_old_version = [], uc_url = [], uc_signature = [], uc_size = 0\<rparr>"

definition set_cmd_field :: "string \<Rightarrow> string \<Rightarrow> json \<Rightarrow> update_cmd \<Rightarrow> update_cmd option" where
  "set_cmd_field after name c cmd =
     (if name = ''transaction'' then map_option (\<lambda>v. cmd\<lparr>uc_transaction := copy_field TRANSACTION_LEN after v\<rparr>) (valuestring c)
      else if name = ''version'' then map_option (\<lambda>v. cmd\<lparr>uc_version := copy_field VERSION_LEN after v\<rparr>) (valuestring c)
      else if name = ''old_version'' then map_option (\<lambda>v. cmd\<lparr>uc_old_version := copy_field VERSION_LEN after v\<rparr>) (valuestring c)
      else if name = ''url'' then map_option (\<lambda>v. cmd\<lparr>uc_url := copy_field URL_LEN after v\<rparr>) (valuestring c)
      else if name = ''size'' then Some (cmd\<lparr>uc_size := word_of_int (valueint c)\<rparr>)
      else if name = ''signature'' then map_option (\<lambda>v. cmd\<lparr>uc_signature := copy_field SIGNATURE_LEN after v\<rparr>) (valuestring c)
      else Some cmd)"

fun set_cmd_fields :: "string \<Rightarrow> (string option \<times> json) list \<Rightarrow> update_cmd \<Rightarrow> update_cmd option" where
  "set_cmd_fields after [] cmd = Some cmd"
| "set_cmd_fields after ((None, c) # cs) cmd = None"
| "set_cmd_fields after ((Some name, c) # cs) cmd =
     Option.bind (set_cmd_field after name c cmd) (set_cmd_fields after cs)"

text \<open>The members are those of the first child of the root.\<close>

definition duer_analyze_update_cmd :: "'z ota_env \<Rightarrow> string \<Rightarrow> 'z ota \<Rightarrow> (status \<times> update_cmd option \<times> 'z ota) option" where
  "duer_analyze_update_cmd e cmd_str s =
     (if cmd_str = [] then Some (DUER_ERR_INVALID_PARAMETER, None, s)
      else
        (let (ok, s1) = ot_malloc s
         in if \<not> ok then Some (DUER_ERR_MEMORY_OVERLOW, None, s1)
            else
              (case oe_parse e cmd_str of
                 None \<Rightarrow> Some (DUER_ERR_MEMORY_OVERLOW, None, s1)
               | Some j \<Rightarrow>
                   map_option (\<lambda>c. (DUER_OK, Some c, s1))
                     (case children j of
                        [] \<Rightarrow> Some empty_cmd
                      | (n, c) # cs \<Rightarrow> set_cmd_fields (oe_after e) (children c) empty_cmd))))"

section \<open>The data handler\<close>

text \<open>
  One piece of the download. The result of the decompression is logged and overwritten or returned to
  the HTTP client, which does not look at it.
\<close>

type_synonym 'z ota_run = "(status \<times> 'z ota) option option"

definition handler :: "'z ota_env \<Rightarrow> addr \<Rightarrow> byte list \<Rightarrow> 'z ota \<Rightarrow> 'z ota_run" where
  "handler e u buf s =
     (if buf = [] then Some (Some (DUER_OK, s))
      else
        (let (ok, s1) = ot_malloc s
         in if \<not> ok then Some (Some (DUER_ERR_FAILED, s1))
            else
              (case ot_updaters s1 u of
                 None \<Rightarrow> Some None
               | Some ut \<Rightarrow>
                   (case ut_unpacker ut of
                      None \<Rightarrow> Some None
                    | Some up \<Rightarrow>
                        (case duer_ota_unpack_decompress_data (oe_zlib e) (oe_le e) (up\<lparr>un_env := ot_env s1\<rparr>) buf (of_nat (length buf)) of
                           None \<Rightarrow> None
                         | Some None \<Rightarrow> Some None
                         | Some (Some (r, up1)) \<Rightarrow>
                             (let got = ut_received ut + length buf;
                                  total = unat (uc_size (ut_cmd ut));
                                  s2 = s1\<lparr>ot_updaters := (ot_updaters s1)(u \<mapsto> ut\<lparr>ut_unpacker := Some up1, ut_received := got\<rparr>),
                                          ot_env := un_env up1\<rparr>
                              in if oe_tenths e got total \<ge> ot_count s2
                                 then Some (duer_ota_notifier_event u OTA_EVENT_DOWNLOADING (oe_whole e got total)
                                              (s2\<lparr>ot_count := ot_count s2 + 1\<rparr>))
                                 else Some (Some (r, s2))))))))"

text \<open>The transfer: the client calls the handler on every piece and once more, with nothing, at the end.\<close>

fun feed :: "'z ota_env \<Rightarrow> addr \<Rightarrow> byte list list \<Rightarrow> 'z ota \<Rightarrow> 'z ota option option" where
  "feed e u [] s = Some (Some s)"
| "feed e u (p # ps) s =
     (case handler e u p s of
        None \<Rightarrow> None
      | Some None \<Rightarrow> Some None
      | Some (Some (r, s1)) \<Rightarrow> feed e u ps s1)"

text \<open>\<^verbatim>\<open>duer_http_client_get\<close> as the downloader sees it. From a transfer with \<open>None\<close> it does not return: the
  client asks for more for ever when a server closes the connection inside the head of a reply.\<close>

definition http_get :: "'z ota_env \<Rightarrow> addr \<Rightarrow> bool \<Rightarrow> 'z ota \<Rightarrow> (bool \<times> 'z ota) option option" where
  "http_get e u registered s =
     (let (t, ts) = (case ot_http s of [] \<Rightarrow> (([], Some True), []) | x # xs \<Rightarrow> (x, xs));
          s1 = s\<lparr>ot_http := ts\<rparr>
      in case (if registered then feed e u (fst t) s1 else Some (Some s1)) of
           None \<Rightarrow> None
         | Some None \<Rightarrow> Some None
         | Some (Some s2) \<Rightarrow> map_option (\<lambda>ok. Some (ok, s2)) (snd t))"

section \<open>The job\<close>

text \<open>One step of the job ends it, with an event to report, or goes on.\<close>

datatype 'z step = Go "'z ota" | Stop int "'z ota"

type_synonym 'z step_result = "'z step option option"

definition answer_init :: "'z ota \<Rightarrow> (status \<times> bool \<times> bool) \<times> 'z ota" where
  "answer_init s = (case ot_inits s of [] \<Rightarrow> ((DUER_OK, True, True), s) | x # xs \<Rightarrow> (x, s\<lparr>ot_inits := xs\<rparr>))"

definition put_unpacker :: "addr \<Rightarrow> 'z unpacker \<Rightarrow> 'z ota \<Rightarrow> 'z ota option" where
  "put_unpacker u up s =
     map_option (\<lambda>ut. s\<lparr>ot_updaters := (ot_updaters s)(u \<mapsto> ut\<lparr>ut_unpacker := Some up\<rparr>), ot_env := un_env up\<rparr>)
       (ot_updaters s u)"

text \<open>The unpacker, and the integrator's function that registers the callbacks and their data.\<close>

definition step_unpacker :: "'z ota_env \<Rightarrow> addr \<Rightarrow> 'z ota \<Rightarrow> 'z step_result" where
  "step_unpacker e u s =
     (case duer_ota_unpack_create_unpacker (oe_zlib e) (ot_env s) of
        None \<Rightarrow> Some None
      | Some (None, env1) \<Rightarrow> Some (Some (Stop OTA_EVENT_REJECT (s\<lparr>ot_env := env1\<rparr>)))
      | Some (Some up, env1) \<Rightarrow>
          if \<not> ot_ops s then Some None
          else
            (let ((r, all_ops, data), s1) = answer_init s;
                 up1 = snd (duer_ota_unpack_register_updater up all_ops);
                 up2 = snd (duer_ota_unpack_set_private_data up1 data)
             in Some (map_option (\<lambda>s2. if r \<noteq> DUER_OK then Stop OTA_EVENT_REJECT s2 else Go s2)
                        (put_unpacker u up2 s1))))"

definition step_call ::
  "('z unpacker \<Rightarrow> status \<times> 'z unpacker) \<Rightarrow> int \<Rightarrow> addr \<Rightarrow> 'z ota \<Rightarrow> 'z step_result" where
  "step_call f event u s =
     (case Option.bind (ot_updaters s u) ut_unpacker of
        None \<Rightarrow> Some None
      | Some up \<Rightarrow>
          (let (r, up1) = f (up\<lparr>un_env := ot_env s\<rparr>)
           in Some (map_option (\<lambda>s1. if r \<noteq> DUER_OK then Stop event s1 else Go s1) (put_unpacker u up1 s))))"

definition step_get_downloader :: "addr \<Rightarrow> 'z ota \<Rightarrow> 'z step_result" where
  "step_get_downloader u s =
     (case (duer_ota_downloader_get_downloader HTTP (ot_dl s), ot_updaters s u) of
        (Some None, Some ut) \<Rightarrow> Some (Some (Stop OTA_EVENT_REJECT s))
      | (Some (Some p), Some ut) \<Rightarrow>
          Some (Some (Go (s\<lparr>ot_updaters := (ot_updaters s)(u \<mapsto> ut\<lparr>ut_downloader := Some p\<rparr>)\<rparr>)))
      | _ \<Rightarrow> Some None)"

definition step_downloader ::
  "(addr \<Rightarrow> dl_state \<Rightarrow> (status \<times> dl_state) option) \<Rightarrow> addr \<Rightarrow> 'z ota \<Rightarrow> 'z step_result" where
  "step_downloader f u s =
     (case Option.bind (ot_updaters s u) ut_downloader of
        None \<Rightarrow> Some None
      | Some p \<Rightarrow>
          Some (map_option (\<lambda>(r, dl). if r \<noteq> DUER_OK then Stop OTA_EVENT_REJECT (s\<lparr>ot_dl := dl\<rparr>)
                                      else Go (s\<lparr>ot_dl := dl\<rparr>))
                  (f p (ot_dl s))))"

definition step_connect :: "'z ota_env \<Rightarrow> addr \<Rightarrow> 'z ota \<Rightarrow> 'z step_result" where
  "step_connect e u s =
     (case ot_updaters s u of
        None \<Rightarrow> Some None
      | Some ut \<Rightarrow>
          (case ut_downloader ut of
             None \<Rightarrow> Some None
           | Some p \<Rightarrow>
               (case dl_heap (ot_dl s) p of
                  None \<Rightarrow> Some None
                | Some d \<Rightarrow>
                    map_option (map_option (\<lambda>(r, s1). if r \<noteq> DUER_OK then Stop OTA_EVENT_CONNECT_FAIL s1 else Go s1))
                      (duer_ota_downloader_connect_server (http_get e u)
                        (\<lambda>d1 s0. s0\<lparr>ot_dl := (ot_dl s0)\<lparr>dl_heap := (dl_heap (ot_dl s0))(p \<mapsto> d1)\<rparr>\<rparr>)
                        d (uc_url (ut_cmd ut)) s))))"

text \<open>A report that fails ends the job with whatever is in \<^verbatim>\<open>event\<close>.\<close>

definition step_notify :: "'z ota_env \<Rightarrow> int \<Rightarrow> addr \<Rightarrow> 'z ota \<Rightarrow> 'z step_result" where
  "step_notify e event u s =
     Some (map_option (\<lambda>(r, s1). if r \<noteq> DUER_OK then Stop (oe_event e) s1 else Go s1)
       (duer_ota_notifier_event u event 0 s))"

definition step_reboot :: "'z ota_env \<Rightarrow> addr \<Rightarrow> 'z ota \<Rightarrow> 'z step_result" where
  "step_reboot e u s =
     (if ot_reboot s = ENABLE_REBOOT then
        (let (r, bs) = (case ot_boots s of [] \<Rightarrow> (DUER_OK, []) | b # bs \<Rightarrow> (b, bs));
             s1 = s\<lparr>ot_boots := bs, ot_rebooted := ot_rebooted s + 1\<rparr>
         in Some (Some (if r \<noteq> DUER_OK then Stop (oe_event e) s1 else Go s1)))
      else Some (Some (Go s)))"

text \<open>The steps of \<^verbatim>\<open>ota_updater\<close> in order.\<close>

definition update_steps :: "'z ota_env \<Rightarrow> (addr \<Rightarrow> 'z ota \<Rightarrow> 'z step_result) list" where
  "update_steps e =
     [step_unpacker e,
      step_call duer_ota_unpack_decompress_data_begin OTA_EVENT_REJECT,
      step_get_downloader,
      step_downloader duer_ota_downloader_init_downloader,
      step_downloader duer_ota_downloader_register_data_notify,
      step_connect e,
      step_call duer_ota_unpack_decompress_data_end OTA_EVENT_REJECT,
      step_notify e OTA_EVENT_DOWNLOAD_COMPLETE,
      step_call duer_ota_unpack_update_image_begin OTA_EVENT_WRITE_ERROR,
      step_call duer_ota_unpack_update_image OTA_EVENT_WRITE_ERROR,
      step_call duer_ota_unpack_update_image_end OTA_EVENT_WRITE_ERROR,
      step_notify e OTA_EVENT_INSTALLED,
      step_reboot e]"

fun run_steps :: "(addr \<Rightarrow> 'z ota \<Rightarrow> 'z step_result) list \<Rightarrow> addr \<Rightarrow> 'z ota \<Rightarrow> 'z step_result" where
  "run_steps [] u s = Some (Some (Go s))"
| "run_steps (f # fs) u s =
     (case f u s of
        Some (Some (Go s1)) \<Rightarrow> run_steps fs u s1
      | r \<Rightarrow> r)"

definition duer_ota_destroy_updater :: "addr \<Rightarrow> 'z ota \<Rightarrow> (status \<times> 'z ota) option" where
  "duer_ota_destroy_updater u s =
     (if \<not> ot_ops s then None
      else
        (case ot_updaters s u of
           None \<Rightarrow> None
         | Some ut \<Rightarrow>
             (case ut_downloader ut of
                None \<Rightarrow> Some (DUER_OK, s\<lparr>ot_updaters := (ot_updaters s)(u := None)\<rparr>)
              | Some p \<Rightarrow>
                  Option.bind (duer_ota_downloader_destroy_downloader (Some p) (ot_dl s)) (\<lambda>(r, dl).
                    if r \<noteq> DUER_OK then Some (r, s\<lparr>ot_dl := dl\<rparr>)
                    else
                      map_option (\<lambda>(r2, dl2). (r2, s\<lparr>ot_dl := dl2, ot_updaters := (ot_updaters s)(u := None)\<rparr>))
                        (duer_uninit_ota_downloader dl)))))"

definition ota_events_destroy :: "'z ota \<Rightarrow> 'z ota option" where
  "ota_events_destroy s =
     (case ot_handler s of
        HNull \<Rightarrow> Some s
      | HLive \<Rightarrow> Some (s\<lparr>ot_handler := HFreed, ot_jobs := []\<rparr>)
      | HFreed \<Rightarrow> None)"

definition finish_job :: "addr \<Rightarrow> 'z ota \<Rightarrow> 'z ota option" where
  "finish_job u s =
     Option.bind (duer_ota_destroy_updater u s) (\<lambda>(r, s1). ota_events_destroy s1)"

definition ota_updater :: "'z ota_env \<Rightarrow> addr \<Rightarrow> 'z ota \<Rightarrow> 'z ota option option" where
  "ota_updater e u s =
     (case run_steps (update_steps e) u s of
        None \<Rightarrow> None
      | Some None \<Rightarrow> Some None
      | Some (Some (Go s1)) \<Rightarrow>
          Some (Option.bind (notify_package_info u s1) (\<lambda>(r, s2). finish_job u s2))
      | Some (Some (Stop ev s1)) \<Rightarrow>
          Some (Option.bind (duer_ota_notifier_event u ev 0 s1) (\<lambda>(r, s2). finish_job u s2)))"

text \<open>The task of the event handler takes the oldest job.\<close>

definition run_job :: "'z ota_env \<Rightarrow> 'z ota \<Rightarrow> 'z ota option option" where
  "run_job e s =
     (case (ot_handler s, ot_jobs s) of
        (HLive, u # us) \<Rightarrow> ota_updater e u (s\<lparr>ot_jobs := us\<rparr>)
      | _ \<Rightarrow> Some (Some s))"

section \<open>The command\<close>

definition ota_events_create :: "'z ota \<Rightarrow> 'z ota" where
  "ota_events_create s =
     (let (ok, s1) = ot_malloc s in if ok then s1\<lparr>ot_handler := HLive, ot_jobs := []\<rparr> else s1\<lparr>ot_handler := HNull\<rparr>)"

text \<open>\<^verbatim>\<open>duer_events_call\<close> on a freed handler is a fault.\<close>

definition ota_events_call :: "addr \<Rightarrow> 'z ota \<Rightarrow> (status \<times> 'z ota) option" where
  "ota_events_call u s =
     (case ot_handler s of
        HNull \<Rightarrow> Some (DUER_ERR_FAILED, s)
      | HLive \<Rightarrow> (let (ok, s1) = ot_malloc s
                  in Some (if ok then (DUER_OK, s1\<lparr>ot_jobs := ot_jobs s1 @ [u]\<rparr>) else (DUER_ERR_FAILED, s1)))
      | HFreed \<Rightarrow> None)"

text \<open>The label \<^verbatim>\<open>free_updater\<close>: the rejection is reported and the updater freed, also when its job is posted.\<close>

definition reject_updater :: "addr \<Rightarrow> status \<Rightarrow> 'z ota \<Rightarrow> (status \<times> 'z ota) option" where
  "reject_updater u ret s =
     Option.bind (duer_ota_notifier_event u OTA_EVENT_REJECT 0 s) (\<lambda>(r, s1).
       map_option (\<lambda>s2. (ret, s2)) (ota_events_destroy (s1\<lparr>ot_updaters := (ot_updaters s1)(u := None)\<rparr>)))"

definition announce_updater :: "addr \<Rightarrow> 'z ota \<Rightarrow> (status \<times> 'z ota) option" where
  "announce_updater u s =
     Option.bind (duer_ota_notifier_event u OTA_EVENT_BEGIN 0 s) (\<lambda>(r, s1).
       if r \<noteq> DUER_OK then reject_updater u DUER_ERR_FAILED s1 else Some (r, s1))"

text \<open>
  \<open>early\<close>: the task runs the job before the caller goes on to announce the update.
\<close>

definition duer_ota_create_updater :: "'z ota_env \<Rightarrow> bool \<Rightarrow> update_cmd \<Rightarrow> 'z ota \<Rightarrow> 'z ota_run" where
  "duer_ota_create_updater e early cmd s =
     (let s1 = (if ot_handler s = HNull then ota_events_create s else s)
      in if ot_handler s1 = HNull then Some (map_option (\<lambda>s2. (DUER_ERR_FAILED, s2)) (ota_events_destroy s1))
         else
           (let (ok, s2) = ot_malloc s1
            in if \<not> ok then Some (map_option (\<lambda>s3. (DUER_ERR_MEMORY_OVERLOW, s3)) (ota_events_destroy s2))
               else
                 (let (ok2, s3) = ot_malloc s2; u = ot_next s3
                  in if \<not> ok2 then Some (map_option (\<lambda>s4. (DUER_ERR_MEMORY_OVERLOW, s4)) (ota_events_destroy s3))
                     else
                       (let s4 = s3\<lparr>ot_updaters := (ot_updaters s3)(u \<mapsto>
                                     \<lparr>ut_unpacker = None, ut_downloader = None, ut_cmd = cmd, ut_received = 0\<rparr>),
                                    ot_next := u + 1\<rparr>
                        in case ota_events_call u s4 of
                             None \<Rightarrow> Some None
                           | Some (r, s5) \<Rightarrow>
                               if r \<noteq> DUER_OK then Some (reject_updater u DUER_ERR_FAILED s5)
                               else
                                 (case (if early then run_job e s5 else Some (Some s5)) of
                                    None \<Rightarrow> None
                                  | Some None \<Rightarrow> Some None
                                  | Some (Some s6) \<Rightarrow> Some (announce_updater u s6))))))"

text \<open>The response code is the second component.\<close>

definition ota_update :: "'z ota_env \<Rightarrow> bool \<Rightarrow> string option \<Rightarrow> 'z ota \<Rightarrow> (status \<times> status \<times> 'z ota) option option" where
  "ota_update e early payload s =
     (let answer = (\<lambda>(ret, s1). (ret, if ret = DUER_OK then MSG_RSP_CHANGED else MSG_RSP_BAD_REQUEST, s1))
      in case duer_ota_get_switch s of
           None \<Rightarrow> Some None
         | Some sw \<Rightarrow>
             if sw = DISABLE_OTA then Some (Some (answer (DUER_ERR_FAILED, s)))
             else
               (case payload of
                  None \<Rightarrow> Some (Some (answer (DUER_ERR_FAILED, s)))
                | Some p \<Rightarrow>
                    if p = [] then Some (Some (answer (DUER_ERR_FAILED, s)))
                    else
                      (case duer_analyze_update_cmd e p s of
                         None \<Rightarrow> Some None
                       | Some (ret, None, s1) \<Rightarrow> Some (Some (answer (ret, s1)))
                       | Some (ret, Some cmd, s1) \<Rightarrow>
                           map_option (map_option answer) (duer_ota_create_updater e early cmd s1))))"

definition duer_init_ota :: "bool \<Rightarrow> 'z ota \<Rightarrow> (status \<times> 'z ota) option" where
  "duer_init_ota complete_ops s =
     (if \<not> complete_ops then Some (DUER_ERR_INVALID_PARAMETER, s)
      else if \<not> ot_first s then Some (DUER_OK, s)
      else
        (let s1 = s\<lparr>ot_first := False\<rparr>;
             (ok, s2) = (if ot_lock s1 = MNull then ot_malloc s1 else (True, s1))
         in if \<not> ok then Some (DUER_ERR_MEMORY_OVERLOW, s2)
            else
              (let s3 = s2\<lparr>ot_lock := (if ot_lock s2 = MNull then MLive else ot_lock s2), ot_ops := True\<rparr>;
                   (r, dl) = duer_init_ota_downloader (ot_dl s3)
               in map_option (\<lambda>(r2, dl2). (r2, s3\<lparr>ot_dl := dl2\<rparr>)) (duer_init_http_downloader dl))))"

end
