(* ===== verification/OtaFlow.thy ===== *)
theory OtaFlow
  imports OtaFaults OtaUpdate "HOL-Library.Sublist"
begin

text \<open>
  What the update job of \<open>OtaUpdate\<close> does over a whole run: which of the integrator's functions it calls,
  what it reports, and what it leaves behind.
\<close>

section \<open>What a piece of the package leaves alone\<close>

definition env_kept :: "updater_env \<Rightarrow> updater_env \<Rightarrow> bool" where
  "env_kept e e' \<longleftrightarrow>
     up_calls e' = up_calls e \<and> up_set e' = up_set e \<and> up_cxt e' = up_cxt e \<and> (up_answers e = [] \<longrightarrow> up_answers e' = [])"

lemma env_kept_refl: "env_kept e e"
  by (simp add: env_kept_def)

lemma env_kept_trans: "env_kept e e1 \<Longrightarrow> env_kept e1 e2 \<Longrightarrow> env_kept e e2"
  by (auto simp: env_kept_def)

lemma env_kept_mem [simp]: "env_kept e (e1\<lparr>up_mem := m\<rparr>) = env_kept e e1"
  by (simp add: env_kept_def)

lemma up_answer_kept: "up_answer e1 = (r, e') \<Longrightarrow> env_kept e e1 \<Longrightarrow> env_kept e e'"
  by (auto simp: up_answer_def env_kept_def split: list.splits)

lemma put_module_kept: "put_module ctx bs e = (r, ctx', e') \<Longrightarrow> env_kept e e'"
  by (auto simp: put_module_def notify_module_data_def env_kept_refl split: if_splits prod.splits
      elim!: up_answer_kept) (auto simp: env_kept_def)

lemma meta_complete_kept: "meta_complete zl md e = Some (r, e') \<Longrightarrow> env_kept e e'"
  by (auto simp: meta_complete_def notify_meta_data_def Let_def env_kept_refl
      split: option.splits if_splits elim!: up_answer_kept) (auto simp: env_kept_def)

lemma take_meta_kept: "take_meta zl ctx out e = Some (n, r, ctx', e') \<Longrightarrow> env_kept e e'"
  by (auto simp: take_meta_def Let_def env_kept_refl split: if_splits option.splits dest: meta_complete_kept)

lemma handle_output_kept: "handle_output zl ctx out e = Some (r, ctx', e') \<Longrightarrow> env_kept e e'"
  by (auto simp: handle_output_def split: option.splits prod.splits if_splits
      dest!: put_module_kept take_meta_kept intro: env_kept_trans)

lemma inflate_loop_kept:
  fixes zl :: "'z zlib"
  assumes l: "inflate_loop zl sz input ctx e = Some res"
  shows "\<forall>r ctx' e'. res = Some (r, ctx', e') \<longrightarrow> env_kept e e'"
proof (rule inflate_loop.raw_induct [where P = "\<lambda>zl sz input ctx e res.
    \<forall>r ctx' e'. res = Some (r, ctx', e') \<longrightarrow> env_kept e e'", OF _ l])
  fix f :: "'z zlib \<Rightarrow> u32 \<Rightarrow> byte list \<Rightarrow> 'z decompress_ctx \<Rightarrow> updater_env \<Rightarrow> 'z unpack_result option"
  fix zl :: "'z zlib" and sz input ctx e and res :: "'z unpack_result"
  assume IH: "\<And>zl sz input ctx e res. f zl sz input ctx e = Some res \<Longrightarrow>
      \<forall>r ctx' e'. res = Some (r, ctx', e') \<longrightarrow> env_kept e e'"
    and b: "(case zl_inflate zl (dz_strm ctx) input of
      (ret, z1, rest, out) \<Rightarrow>
        (let ctx1 = ctx\<lparr>dz_strm := z1\<rparr>
         in if ret = Z_NEED_DICT \<or> ret = Z_DATA_ERROR \<or> ret = Z_MEM_ERROR
            then Some (Some (if ret = Z_NEED_DICT then Z_DATA_ERROR else ret,
                         ctx1\<lparr>dz_strm := zl_inflateEnd zl z1, dz_processed := dz_processed ctx1 + sz\<rparr>, e))
            else
              (case handle_output zl ctx1 out e of
                 None \<Rightarrow> Some None
               | Some (r, ctx2, e2) \<Rightarrow>
                   if r \<noteq> 0 then Some (Some (r, ctx2, e2))
                   else if length out = CHUNK then f zl sz rest ctx2 e2
                   else Some (Some (0, ctx2\<lparr>dz_processed := dz_processed ctx2 + sz\<rparr>, e2))))) = Some res"
  obtain ret z1 rest out where z: "zl_inflate zl (dz_strm ctx) input = (ret, z1, rest, out)" by (rule prod_cases4)
  show "\<forall>r ctx' e'. res = Some (r, ctx', e') \<longrightarrow> env_kept e e'"
  proof (cases "handle_output zl (ctx\<lparr>dz_strm := z1\<rparr>) out e")
    case None
    then show ?thesis using b z env_kept_refl[of e] by (auto simp: Let_def split: if_splits)
  next
    case (Some x)
    obtain r2 c2 e2 where h: "handle_output zl (ctx\<lparr>dz_strm := z1\<rparr>) out e = Some (r2, c2, e2)"
      using Some by (metis prod_cases3)
    note k = handle_output_kept[OF h]
    show ?thesis
      using b z h k env_kept_refl[of e] IH[of zl sz rest c2 e2 res] env_kept_trans[OF k]
      by (auto simp: Let_def split: if_splits)
  qed
qed

lemma decompress_data_kept:
  assumes "duer_ota_unpack_decompress_data zl le u c n = Some (Some (r, u'))"
  shows "env_kept (un_env u) (un_env u')"
proof -
  have m: "read_meta_size le v d e = Some (d1, e1) \<Longrightarrow> env_kept e e1" for v and d d1 :: "'a decompress_ctx" and e e1
    by (auto simp: read_meta_size_def Let_def env_kept_refl split: if_splits option.splits prod.splits)
  have p: "mbed_zlibstream_decompress_process zl le v d b n e = Some (Some (r, d', e')) \<Longrightarrow> env_kept e e'" for v d b e r d' e'
    unfolding mbed_zlibstream_decompress_process_def
    by (auto simp: Let_def env_kept_refl split: option.splits if_splits prod.splits
        dest!: m inflate_loop_kept[rule_format] intro: env_kept_trans)
  show ?thesis
    using assms by (auto simp: duer_ota_unpack_decompress_data_def split: option.splits if_splits dest!: p)
qed

section \<open>What each step calls and reports\<close>

definition calls :: "'z ota \<Rightarrow> up_call list" where
  "calls s = up_calls (ot_env s)"

definition adds_events :: "int set \<Rightarrow> 'z ota \<Rightarrow> 'z ota \<Rightarrow> bool" where
  "adds_events E s s' \<longleftrightarrow> (\<exists>es. ot_events s' = ot_events s @ es \<and> set es \<subseteq> E)"

lemma adds_events_same: "ot_events s' = ot_events s \<Longrightarrow> adds_events E s s'"
  by (simp add: adds_events_def)

lemma adds_events_mono: "adds_events E s s' \<Longrightarrow> E \<subseteq> F \<Longrightarrow> adds_events F s s'"
  by (auto simp: adds_events_def)

lemma adds_events_trans: "adds_events E s s1 \<Longrightarrow> adds_events E s1 s2 \<Longrightarrow> adds_events E s s2"
  by (auto simp: adds_events_def)

text \<open>
  A step that goes on makes the calls \<open>cs\<close>; one that stops has made a prefix of them and stops with an
  event of \<open>S\<close>; it reports events of \<open>E\<close> only.
\<close>

definition step_adds :: "up_call list \<Rightarrow> int set \<Rightarrow> int set \<Rightarrow> (addr \<Rightarrow> 'z ota \<Rightarrow> 'z step_result) \<Rightarrow> bool" where
  "step_adds cs E S f \<longleftrightarrow>
     (\<forall>u s s'. f u s = Some (Some (Go s')) \<longrightarrow> calls s' = calls s @ cs \<and> adds_events E s s') \<and>
     (\<forall>u s ev s'. f u s = Some (Some (Stop ev s')) \<longrightarrow>
        (\<exists>cs1. calls s' = calls s @ cs1 \<and> prefix cs1 cs) \<and> adds_events E s s' \<and> ev \<in> S)"

lemma run_steps_adds:
  "list_all2 (\<lambda>f cs. step_adds cs E S f) fs css \<Longrightarrow> step_adds (concat css) E S (run_steps fs)"
proof (induction rule: list_all2_induct)
  case Nil
  show ?case by (simp add: step_adds_def adds_events_same)
next
  case (Cons f fs cs css)
  show ?case
    unfolding step_adds_def
  proof (intro conjI allI impI)
    fix u s s'
    assume "run_steps (f # fs) u s = Some (Some (Go s'))"
    then obtain s1 where s1: "f u s = Some (Some (Go s1))" "run_steps fs u s1 = Some (Some (Go s'))"
      by (auto split: option.splits step.splits)
    then have "calls s1 = calls s @ cs" "adds_events E s s1" "calls s' = calls s1 @ concat css" "adds_events E s1 s'"
      using Cons.hyps(1) Cons.IH by (auto simp: step_adds_def)
    then show "calls s' = calls s @ concat (cs # css)" "adds_events E s s'" by (auto intro: adds_events_trans)
  next
    fix u s ev s'
    assume r: "run_steps (f # fs) u s = Some (Some (Stop ev s'))"
    have "(\<exists>cs1. calls s' = calls s @ cs1 \<and> prefix cs1 (concat (cs # css))) \<and> adds_events E s s' \<and> ev \<in> S"
    proof (cases "f u s = Some (Some (Stop ev s'))")
      case True
      then show ?thesis using Cons.hyps(1) unfolding step_adds_def by (metis concat.simps(2) prefix_prefix)
    next
      case False
      then obtain s1 where s1: "f u s = Some (Some (Go s1))" "run_steps fs u s1 = Some (Some (Stop ev s'))"
        using r by (auto split: option.splits step.splits)
      have "calls s1 = calls s @ cs" "adds_events E s s1" using Cons.hyps(1) s1(1) by (auto simp: step_adds_def)
      moreover have "(\<exists>cs1. calls s' = calls s1 @ cs1 \<and> prefix cs1 (concat css)) \<and> adds_events E s1 s' \<and> ev \<in> S"
        using Cons.IH s1(2) by (auto simp: step_adds_def)
      ultimately show ?thesis by (auto intro: adds_events_trans)
    qed
    then show "\<exists>cs1. calls s' = calls s @ cs1 \<and> prefix cs1 (concat (cs # css))" "adds_events E s s'" "ev \<in> S" by blast+
  qed
qed

lemma notifier_adds:
  "duer_ota_notifier_event u ev p s = Some (r, s') \<Longrightarrow>
     ot_env s' = ot_env s \<and> (ot_events s' = ot_events s \<or> ot_events s' = ot_events s @ [ev])"
  by (auto simp: duer_ota_notifier_event_def ota_data_report_def Let_def split: if_splits option.splits prod.splits list.splits)

lemma malloc_frame: "ot_malloc s = (ok, s') \<Longrightarrow> \<exists>m. s' = s\<lparr>ot_mem := m\<rparr>"
  by (auto simp: ot_malloc_def split: prod.splits)

lemma handler_adds:
  assumes "handler e u buf s = Some (Some (r, s'))"
  shows "env_kept (ot_env s) (ot_env s') \<and> adds_events {OTA_EVENT_DOWNLOADING} s s'"
proof (cases "buf = []")
  case True
  then show ?thesis using assms by (simp add: handler_def env_kept_refl adds_events_same)
next
  case False
  obtain ok s1 where m: "ot_malloc s = (ok, s1)" by fastforce
  have s1: "ot_env s1 = ot_env s" "ot_events s1 = ot_events s" using malloc_frame[OF m] by auto
  show ?thesis
  proof (cases ok)
    case False
    then show ?thesis using assms \<open>buf \<noteq> []\<close> m s1 by (simp add: handler_def env_kept_refl adds_events_same)
  next
    case True
    obtain ut up r1 up1 where ut: "ot_updaters s1 u = Some ut" "ut_unpacker ut = Some up"
      and d: "duer_ota_unpack_decompress_data (oe_zlib e) (oe_le e) (up\<lparr>un_env := ot_env s1\<rparr>) buf (of_nat (length buf)) =
        Some (Some (r1, up1))"
      using assms \<open>buf \<noteq> []\<close> m True by (auto simp: handler_def split: option.splits)
    have k: "env_kept (ot_env s) (un_env up1)" using decompress_data_kept[OF d] s1 by simp
    show ?thesis
      using assms \<open>buf \<noteq> []\<close> m True ut d k s1
      by (auto simp: handler_def Let_def adds_events_def split: if_splits dest!: notifier_adds)
  qed
qed

lemma feed_adds:
  "feed e u ps s = Some (Some s') \<Longrightarrow> env_kept (ot_env s) (ot_env s') \<and> adds_events {OTA_EVENT_DOWNLOADING} s s'"
proof (induction ps arbitrary: s)
  case Nil
  then show ?case by (simp add: env_kept_refl adds_events_same)
next
  case (Cons p ps)
  obtain r s1 where "handler e u p s = Some (Some (r, s1))" "feed e u ps s1 = Some (Some s')"
    using Cons.prems by (auto split: option.splits)
  then show ?case using handler_adds Cons.IH by (blast intro: env_kept_trans adds_events_trans)
qed

lemma http_get_adds:
  "http_get e u reg s = Some (Some (ok, s')) \<Longrightarrow> calls s' = calls s \<and> adds_events {OTA_EVENT_DOWNLOADING} s s'"
  by (auto simp: http_get_def Let_def calls_def adds_events_def env_kept_def split: if_splits list.splits option.splits
      dest!: feed_adds)

text \<open>The events a job reports before it stops, and those it stops with.\<close>

definition progress_events :: "int set" where
  "progress_events = {OTA_EVENT_DOWNLOADING, OTA_EVENT_DOWNLOAD_COMPLETE}"

definition stop_events :: "'z ota_env \<Rightarrow> int set" where
  "stop_events e = {OTA_EVENT_REJECT, OTA_EVENT_CONNECT_FAIL, OTA_EVENT_WRITE_ERROR, oe_event e}"

lemma create_unpacker_calls:
  "duer_ota_unpack_create_unpacker zl env = Some (up, env') \<Longrightarrow>
     up_calls env' = up_calls env \<and> (\<forall>u. up = Some u \<longrightarrow> un_env u = env')"
  by (auto simp: duer_ota_unpack_create_unpacker_def Let_def split: prod.splits option.splits if_splits)

lemma put_unpacker_adds:
  "put_unpacker u up s = Some s' \<Longrightarrow> ot_env s' = un_env up \<and> ot_events s' = ot_events s"
  by (auto simp: put_unpacker_def)

lemma step_unpacker_adds: "step_adds [] E (stop_events e) (step_unpacker e)"
proof -
  have up: "up_calls (un_env (snd (duer_ota_unpack_register_updater v b))) = up_calls (un_env v)"
    "up_calls (un_env (snd (duer_ota_unpack_set_private_data v b))) = up_calls (un_env v)" for v :: "'a unpacker" and b
    by (simp_all add: duer_ota_unpack_register_updater_def duer_ota_unpack_set_private_data_def)
  show ?thesis
    unfolding step_adds_def step_unpacker_def
    by (auto simp: Let_def calls_def adds_events_same answer_init_def stop_events_def up
        split: option.splits prod.splits if_splits list.splits dest!: create_unpacker_calls put_unpacker_adds)
qed

lemma step_call_adds: "ev \<in> S \<Longrightarrow> step_adds [c] E S (step_call (unpack_call c) ev)"
  unfolding step_adds_def step_call_def
  by (auto simp: Let_def calls_def adds_events_same unpack_call_def up_answer_def
      split: option.splits prod.splits if_splits list.splits dest!: put_unpacker_adds)

lemma step_get_downloader_adds: "step_adds [] E (stop_events e) step_get_downloader"
  unfolding step_adds_def step_get_downloader_def
  by (auto simp: calls_def adds_events_same stop_events_def split: option.splits)

lemma step_downloader_adds: "step_adds [] E (stop_events e) (step_downloader f)"
  unfolding step_adds_def step_downloader_def
  by (auto simp: calls_def adds_events_same stop_events_def split: option.splits if_splits)

lemma step_connect_adds: "step_adds [] progress_events (stop_events e) (step_connect e)"
proof -
  have c: "calls s' = calls s \<and> adds_events {OTA_EVENT_DOWNLOADING} s s'"
    if "duer_ota_downloader_connect_server (http_get e u) put d url s = Some (Some (r, s'))"
      and "\<And>d s. ot_env (put d s) = ot_env s \<and> ot_events (put d s) = ot_events s"
    for u put d url s r s'
    using that
    by (auto simp: duer_ota_downloader_connect_server_def connect_http_server_def calls_def adds_events_def
        split: if_splits option.splits dest!: http_get_adds)
  show ?thesis
    unfolding step_adds_def step_connect_def
    by (auto simp: stop_events_def progress_events_def split: option.splits if_splits dest!: c elim!: adds_events_mono)
qed

lemma step_notify_adds: "ev \<in> E \<Longrightarrow> step_adds [] E (stop_events e) (step_notify e ev)"
  unfolding step_adds_def step_notify_def
  by (auto simp: calls_def adds_events_def stop_events_def split: option.splits if_splits dest!: notifier_adds)

lemma step_reboot_adds: "step_adds [] E (stop_events e) (step_reboot e)"
  unfolding step_adds_def step_reboot_def
  by (auto simp: Let_def calls_def adds_events_same stop_events_def split: option.splits if_splits list.splits)

section \<open>A job as a whole\<close>

definition ALL_CALLS :: "up_call list" where
  "ALL_CALLS = [DataBegin, DataEnd, ImgBegin, Img, ImgEnd]"

lemma events_in:
  "OTA_EVENT_REJECT \<in> stop_events e" "OTA_EVENT_WRITE_ERROR \<in> stop_events e"
  "OTA_EVENT_DOWNLOAD_COMPLETE \<in> progress_events"
  by (simp_all add: stop_events_def progress_events_def)

lemma install_steps_adds:
  "step_adds ALL_CALLS progress_events (stop_events e) (run_steps (take 11 (update_steps e)))"
proof -
  have "step_adds (concat [[], [DataBegin], [], [], [], [], [DataEnd], [], [ImgBegin], [Img], [ImgEnd]])
      progress_events (stop_events e) (run_steps (take 11 (update_steps e)))"
    by (rule run_steps_adds)
      (simp add: update_steps_def duer_ota_unpack_decompress_data_begin_def duer_ota_unpack_decompress_data_end_def
        duer_ota_unpack_update_image_begin_def duer_ota_unpack_update_image_def duer_ota_unpack_update_image_end_def
        step_unpacker_adds step_call_adds step_get_downloader_adds step_downloader_adds step_connect_adds
        step_notify_adds events_in)
  then show ?thesis by (simp add: ALL_CALLS_def)
qed

lemma final_steps_adds:
  "step_adds [] {OTA_EVENT_INSTALLED} (stop_events e) (run_steps (drop 11 (update_steps e)))"
proof -
  have "step_adds (concat [[], []]) {OTA_EVENT_INSTALLED} (stop_events e) (run_steps (drop 11 (update_steps e)))"
    by (rule run_steps_adds) (simp add: update_steps_def step_notify_adds step_reboot_adds)
  then show ?thesis by simp
qed

lemma run_steps_append:
  "run_steps (fs @ gs) u s =
     (case run_steps fs u s of Some (Some (Go s1)) \<Rightarrow> run_steps gs u s1 | r \<Rightarrow> r)"
  by (induction fs arbitrary: s) (auto split: option.splits step.splits)

text \<open>How a job ends: the calls made so far, and whether an installation was reported.\<close>

definition job_ok :: "'z ota_env \<Rightarrow> 'z ota \<Rightarrow> 'z ota \<Rightarrow> bool" where
  "job_ok e s s' \<longleftrightarrow>
     (\<exists>cs es. calls s' = calls s @ cs \<and> prefix cs ALL_CALLS \<and> ot_events s' = ot_events s @ es \<and>
       (OTA_EVENT_INSTALLED \<in> set es \<and> oe_event e \<noteq> OTA_EVENT_INSTALLED \<longrightarrow> cs = ALL_CALLS))"

lemma installed_not_elsewhere:
  "OTA_EVENT_INSTALLED \<notin> progress_events" "OTA_EVENT_INSTALLED \<in> stop_events e \<Longrightarrow> oe_event e = OTA_EVENT_INSTALLED"
  by (auto simp: progress_events_def stop_events_def OTA_EVENT_INSTALLED_def OTA_EVENT_DOWNLOADING_def
      OTA_EVENT_DOWNLOAD_COMPLETE_def OTA_EVENT_REJECT_def OTA_EVENT_CONNECT_FAIL_def OTA_EVENT_WRITE_ERROR_def)

lemma steps_ok:
  assumes "run_steps (update_steps e) u s = Some (Some st)"
  shows "(\<exists>s'. st = Go s' \<and> calls s' = calls s @ ALL_CALLS \<and> job_ok e s s') \<or>
     (\<exists>ev s'. st = Stop ev s' \<and> job_ok e s s' \<and> ev \<in> stop_events e)"
proof -
  have r: "(case run_steps (take 11 (update_steps e)) u s of
      Some (Some (Go s1)) \<Rightarrow> run_steps (drop 11 (update_steps e)) u s1 | r \<Rightarrow> r) = Some (Some st)"
    using assms run_steps_append[of "take 11 (update_steps e)" "drop 11 (update_steps e)" u s] by simp
  show ?thesis
  proof (cases "\<exists>s1. run_steps (take 11 (update_steps e)) u s = Some (Some (Go s1))")
    case True
    then obtain s1 where s1: "run_steps (take 11 (update_steps e)) u s = Some (Some (Go s1))" by blast
    have a: "calls s1 = calls s @ ALL_CALLS" "adds_events progress_events s s1"
      using install_steps_adds s1 unfolding step_adds_def by blast+
    have b: "run_steps (drop 11 (update_steps e)) u s1 = Some (Some st)" using r s1 by simp
    show ?thesis
    proof (cases st)
      case (Go s')
      have "calls s' = calls s1 @ []" "adds_events {OTA_EVENT_INSTALLED} s1 s'"
        using final_steps_adds b unfolding step_adds_def Go by blast+
      then show ?thesis using a Go by (auto simp: job_ok_def adds_events_def)
    next
      case (Stop ev s')
      have "calls s' = calls s1" "adds_events {OTA_EVENT_INSTALLED} s1 s'" "ev \<in> stop_events e"
        using final_steps_adds b unfolding step_adds_def Stop by fastforce+
      then show ?thesis using a Stop by (auto simp: job_ok_def adds_events_def)
    qed
  next
    case False
    then obtain ev s' where st: "st = Stop ev s'" "run_steps (take 11 (update_steps e)) u s = Some (Some (Stop ev s'))"
      using r by (auto split: option.splits step.splits)
    then obtain cs1 where "calls s' = calls s @ cs1" "prefix cs1 ALL_CALLS" "adds_events progress_events s s'" "ev \<in> stop_events e"
      using install_steps_adds unfolding step_adds_def by blast
    then show ?thesis using st(1) installed_not_elsewhere(1) by (auto simp: job_ok_def adds_events_def)
  qed
qed

lemma finish_job_frame:
  "finish_job u s = Some s' \<Longrightarrow> ot_env s' = ot_env s \<and> ot_events s' = ot_events s \<and> ot_handler s' \<noteq> HLive \<and>
     (ot_handler s = HLive \<longrightarrow> ot_handler s' = HFreed)"
  by (auto simp: finish_job_def duer_ota_destroy_updater_def ota_events_destroy_def bind_eq_Some_conv
      split: if_splits option.splits handler_ptr.splits)

lemma report_package_frame:
  "report_package_info v s = Some (r, s') \<Longrightarrow> ot_env s' = ot_env s \<and> ot_events s' = ot_events s"
  by (auto simp: report_package_info_def duer_ota_get_package_info_def ota_data_report_def Let_def
      split: option.splits if_splits prod.splits list.splits)

text \<open>C14: Whatever fails during an update, the integrator's functions are called in the order data begin,
  data end, image begin, image, image end, each at most once; and an installation is reported only after
  all of them were called, unless the variable \<^verbatim>\<open>event\<close> happens to hold that code while it is not set.\<close>

theorem update_calls_in_order:
  assumes "ota_updater e u s = Some (Some s')"
  shows "\<exists>cs es. calls s' = calls s @ cs \<and> prefix cs ALL_CALLS \<and> ot_events s' = ot_events s @ es \<and>
     (OTA_EVENT_INSTALLED \<in> set es \<and> oe_event e \<noteq> OTA_EVENT_INSTALLED \<longrightarrow> cs = ALL_CALLS)"
proof -
  obtain st where st: "run_steps (update_steps e) u s = Some (Some st)"
    using assms by (auto simp: ota_updater_def split: option.splits)
  have "job_ok e s s'"
  proof (cases st)
    case (Go s1)
    have "calls s1 = calls s @ ALL_CALLS" "job_ok e s s1" using steps_ok[OF st] Go by auto
    moreover have "ot_env s' = ot_env s1" "ot_events s' = ot_events s1"
      using assms st Go by (auto simp: ota_updater_def notify_package_info_def bind_eq_Some_conv
          split: option.splits dest!: finish_job_frame report_package_frame)
    ultimately show ?thesis by (simp add: job_ok_def calls_def)
  next
    case (Stop ev s1)
    have j: "job_ok e s s1" "ev \<in> stop_events e" using steps_ok[OF st] Stop by auto
    obtain r s2 where n: "duer_ota_notifier_event u ev 0 s1 = Some (r, s2)" "finish_job u s2 = Some s'"
      using assms st Stop by (auto simp: ota_updater_def bind_eq_Some_conv)
    have "ot_env s' = ot_env s1" "ot_events s' = ot_events s1 \<or> ot_events s' = ot_events s1 @ [ev]"
      using notifier_adds[OF n(1)] finish_job_frame[OF n(2)] by auto
    then show ?thesis using j installed_not_elsewhere(2)[of e] by (fastforce simp: job_ok_def calls_def)
  qed
  then show ?thesis by (simp add: job_ok_def)
qed

section \<open>The download is not looked at\<close>






lemma ota_malloc_Nil: "ot_mem s = [] \<Longrightarrow> ot_malloc s = (True, s)"
  by (simp add: ot_malloc_def)










section \<open>Handling a piece ends\<close>

text \<open>Every time zlib fills the output buffer, what it still has to give gets less.\<close>

definition zlib_progress :: "'z zlib \<Rightarrow> ('z \<Rightarrow> byte list \<Rightarrow> nat) \<Rightarrow> bool" where
  "zlib_progress zl todo \<longleftrightarrow>
     (\<forall>z i ret z1 rest out. zl_inflate zl z i = (ret, z1, rest, out) \<longrightarrow> length out = CHUNK \<longrightarrow> todo z1 rest < todo z i)"

lemma inflate_loop_returns:
  assumes "zlib_progress zl todo"
  shows "inflate_loop zl sz input ctx e \<noteq> None"
proof (induction "todo (dz_strm ctx) input" arbitrary: input ctx e rule: less_induct)
  case less
  obtain ret z1 rest out where z: "zl_inflate zl (dz_strm ctx) input = (ret, z1, rest, out)" by (rule prod_cases4)
  have "inflate_loop zl sz rest c2 e2 \<noteq> None"
    if "length out = CHUNK" "handle_output zl (ctx\<lparr>dz_strm := z1\<rparr>) out e = Some (r, c2, e2)" for r c2 e2
  proof -
    have "dz_strm c2 = z1"
      using that(2) by (auto simp: handle_output_def take_meta_def store_meta_def put_module_def Let_def
          split: if_splits option.splits prod.splits)
    then show ?thesis using less[of c2 rest] assms z that(1) by (auto simp: zlib_progress_def)
  qed
  then show ?case
    by (subst inflate_loop.simps) (auto simp: z Let_def split: option.splits)
qed

lemma process_returns:
  "zlib_progress zl todo \<Longrightarrow> mbed_zlibstream_decompress_process zl le v d b n e \<noteq> None"
  unfolding mbed_zlibstream_decompress_process_def
  by (auto simp: Let_def inflate_loop_returns simp del: not_None_eq split: option.splits)

lemma handler_returns: "zlib_progress (oe_zlib e) todo \<Longrightarrow> handler e u buf s \<noteq> None"
  using process_returns[of "oe_zlib e" todo]
  by (auto simp: handler_def duer_ota_unpack_decompress_data_def Let_def simp del: not_None_eq
      split: option.splits prod.splits)

lemma feed_returns: "zlib_progress (oe_zlib e) todo \<Longrightarrow> feed e u ps s \<noteq> None"
  by (induction ps arbitrary: s) (auto simp: handler_returns split: option.splits)

section \<open>The next command\<close>

lemma notifier_handler:
  "duer_ota_notifier_event u ev p s = Some (r, s') \<Longrightarrow> ot_handler s' = ot_handler s \<and> ot_jobs s' = ot_jobs s"
  by (auto simp: duer_ota_notifier_event_def ota_data_report_def Let_def split: if_splits option.splits prod.splits list.splits)

lemma handler_handler: "handler e u buf s = Some (Some (r, s')) \<Longrightarrow> ot_handler s' = ot_handler s"
  by (auto simp: handler_def Let_def split: if_splits option.splits prod.splits dest!: notifier_handler malloc_frame)

lemma feed_handler: "feed e u ps s = Some (Some s') \<Longrightarrow> ot_handler s' = ot_handler s"
proof (induction ps arbitrary: s)
  case (Cons c ps)
  then show ?case using handler_handler by (fastforce split: option.splits)
qed simp

definition keeps_handler :: "(addr \<Rightarrow> 'z ota \<Rightarrow> 'z step_result) \<Rightarrow> bool" where
  "keeps_handler f \<longleftrightarrow>
     (\<forall>u s s' ev. (f u s = Some (Some (Go s')) \<or> f u s = Some (Some (Stop ev s'))) \<longrightarrow> ot_handler s' = ot_handler s)"

lemma steps_keep_handler:
  "keeps_handler (step_unpacker e)" "keeps_handler (step_call g ev)" "keeps_handler step_get_downloader"
  "keeps_handler (step_downloader h)" "keeps_handler (step_notify e ev)" "keeps_handler (step_reboot e)"
  unfolding keeps_handler_def step_unpacker_def step_call_def step_get_downloader_def step_downloader_def
    step_notify_def step_reboot_def
  by (auto simp: Let_def put_unpacker_def answer_init_def split: option.splits prod.splits list.splits if_splits
      dest!: notifier_handler)

lemma step_connect_keeps_handler: "keeps_handler (step_connect e)"
  unfolding keeps_handler_def step_connect_def
  by (auto simp: duer_ota_downloader_connect_server_def connect_http_server_def http_get_def Let_def
      split: option.splits prod.splits list.splits if_splits dest!: feed_handler)

lemma run_steps_keep_handler: "(\<And>f. f \<in> set fs \<Longrightarrow> keeps_handler f) \<Longrightarrow> keeps_handler (run_steps fs)"
proof (induction fs)
  case Nil
  then show ?case by (simp add: keeps_handler_def)
next
  case (Cons f fs)
  have "keeps_handler f" "keeps_handler (run_steps fs)" using Cons by simp_all
  then show ?case by (fastforce simp: keeps_handler_def split: option.splits step.splits)
qed

lemma run_job_frees_handler:
  assumes "run_job e s = Some (Some s')" "ot_handler s = HLive" "ot_jobs s = u # us"
  shows "ot_handler s' = HFreed"
proof -
  let ?s = "s\<lparr>ot_jobs := us\<rparr>"
  have o: "ota_updater e u ?s = Some (Some s')" using assms by (simp add: run_job_def)
  obtain st where st: "run_steps (update_steps e) u ?s = Some (Some st)"
    using o by (auto simp: ota_updater_def split: option.splits)
  have "keeps_handler (run_steps (update_steps e))"
    by (rule run_steps_keep_handler) (auto simp: update_steps_def steps_keep_handler step_connect_keeps_handler)
  then have h: "case st of Go s1 \<Rightarrow> ot_handler s1 = HLive | Stop ev s1 \<Rightarrow> ot_handler s1 = HLive"
    using st assms(2) unfolding keeps_handler_def by (cases st) force+
  have rp: "report_package_info v t = Some (r, t') \<Longrightarrow> ot_handler t' = ot_handler t" for v t r and t' :: "'a ota"
    by (auto simp: report_package_info_def duer_ota_get_package_info_def ota_data_report_def Let_def
        split: option.splits if_splits prod.splits list.splits)
  show ?thesis
    using o st h
    by (auto simp: ota_updater_def notify_package_info_def bind_eq_Some_conv split: step.splits option.splits
        dest!: finish_job_frame rp notifier_handler)
qed

text \<open>An update can be started once: the job destroys the event handler it runs on, and the next command
  that is read successfully uses the destroyed handler.\<close>

theorem second_update_faults:
  assumes "run_job e s = Some (Some s1)" "ot_handler s = HLive" "ot_jobs s = u # us"
    and "ot_lock s1 = MLive" "p \<noteq> []" "duer_analyze_update_cmd e p s1 = Some (DUER_OK, Some cmd, s2)" "ot_mem s2 = []"
  shows "ota_update e early (Some p) s1 = Some None"
proof -
  have "ot_handler s1 = HFreed" using run_job_frees_handler[OF assms(1-3)] .
  moreover have "ot_handler s2 = ot_handler s1"
    using assms(6) by (auto simp: duer_analyze_update_cmd_def Let_def split: if_splits option.splits prod.splits dest!: malloc_frame)
  ultimately show ?thesis
    using assms(4-7)
    by (simp add: ota_update_def duer_ota_get_switch_def read_switch_def duer_ota_create_updater_def ota_malloc_Nil
        ota_events_call_def Let_def)
qed

section \<open>The switch and the command\<close>

text \<open>Updates cannot be switched off: the function that sets the switch refuses both of its values, and
  whatever the switch holds, the one that reads it answers with the status of a mutex, which is not the
  value that stops an update.\<close>

theorem ota_switch_ineffective:
  assumes "duer_init_ota True s = Some (DUER_OK, s1)" "ot_first s" "ot_lock s = MNull"
  shows "duer_ota_set_switch flag s1 = Some (DUER_ERR_INVALID_PARAMETER, s1) \<and>
     duer_ota_get_switch (s1\<lparr>ot_switch := v\<rparr>) = Some DUER_OK \<and> DUER_OK \<noteq> DISABLE_OTA"
  using assms
  by (auto simp: duer_init_ota_def duer_ota_set_switch_def duer_ota_get_switch_def read_switch_def Let_def
      split: if_splits prod.splits dest!: malloc_frame)

lemma copy_field_string: "CHR 0x00 \<notin> set v \<Longrightarrow> copy_field n after v = take n v"
proof -
  assume v: "CHR 0x00 \<notin> set v"
  have "takeWhile (\<lambda>c. c \<noteq> CHR 0x00) (take n v @ ys) = take n v @ takeWhile (\<lambda>c. c \<noteq> CHR 0x00) ys" for ys
    using v by (intro takeWhile_append2) (auto dest: in_set_takeD)
  moreover have "takeWhile (\<lambda>c. c \<noteq> CHR 0x00) (take k (CHR 0x00 # after)) = []" for k by (cases k) simp_all
  ultimately show ?thesis by (simp add: copy_field_def)
qed

text \<open>The command as the cloud sends it.\<close>

definition command_json :: "string \<Rightarrow> string \<Rightarrow> string \<Rightarrow> string \<Rightarrow> string \<Rightarrow> int \<Rightarrow> json" where
  "command_json tr ver old url sig sz =
     (let str = (\<lambda>s. Json JString (Some s) 0 [])
      in Json JObject None 0 [(Some ''ota_update'', Json JObject None 0
           [(Some ''transaction'', str tr), (Some ''version'', str ver), (Some ''old_version'', str old),
            (Some ''url'', str url), (Some ''size'', Json JNumber None sz []), (Some ''signature'', str sig)])])"

text \<open>The fields of an update command are the members of the JSON text, each cut off silently at the size of
  its field, whatever lies behind the strings in memory.\<close>

theorem update_command_fields:
  assumes "oe_parse e p = Some (command_json tr ver old url sig n)" "p \<noteq> []" "ot_mem s = []"
    and "CHR 0x00 \<notin> set (tr @ ver @ old @ url @ sig)"
  shows "duer_analyze_update_cmd e p s =
     Some (DUER_OK, Some \<lparr>uc_transaction = take TRANSACTION_LEN tr, uc_version = take VERSION_LEN ver,
       uc_old_version = take VERSION_LEN old, uc_url = take URL_LEN url, uc_signature = take SIGNATURE_LEN sig,
       uc_size = word_of_int n\<rparr>, s)"
  using assms
  by (simp add: duer_analyze_update_cmd_def ota_malloc_Nil command_json_def Let_def set_cmd_field_def copy_field_string empty_cmd_def)

end
