(* ===== verification/OtaDemo.thy ===== *)
theory OtaDemo
  imports OtaFlow
begin

text \<open>
  A small package run through the unpacker, with a stand-in for zlib: and the same
  package downloaded and installed by a whole job: the theorems of \<open>OtaStream\<close>, \<open>OtaFaults\<close> and
  \<open>OtaFlow\<close> at a concrete input.
\<close>

section \<open>The package\<close>

text \<open>A stand-in for zlib that copies its input and takes the byte 255 for a corrupt one.\<close>

definition copy_inflate :: "bool \<Rightarrow> byte list \<Rightarrow> int \<times> bool \<times> byte list \<times> byte list" where
  "copy_inflate e i =
     (if e then (Z_STREAM_ERROR, e, i, [])
      else if 255 \<in> set i then (Z_DATA_ERROR, e, i, [])
      else (0, e, drop CHUNK i, take CHUNK i))"

definition copy_zlib :: "bool zlib" where
  "copy_zlib = \<lparr>zl_inflate = copy_inflate, zl_inflateEnd = (\<lambda>z. True), zl_inflateInit = (False, 0),
     zl_parse = (\<lambda>md m. (Some (package_node ''ota'' [(''a.img'', 3, ''1'')]), m))\<rparr>"

definition demo_env :: "status list \<Rightarrow> updater_env" where
  "demo_env as = \<lparr>up_set = False, up_cxt = False, up_answers = as, up_calls = [], up_metas = [], up_modules = [], up_mem = []\<rparr>"

definition demo_header :: "byte list" where
  "demo_header = replicate 272 0 @ [2, 0, 0, 0] @ [0, 0, 0, 0]"

lemma demo_header_length: "length demo_header = 280"
  by (simp add: demo_header_def)

definition demo_unpacker :: "status list \<Rightarrow> bool unpacker" where
  "demo_unpacker as = the (ready_unpacker copy_zlib (demo_env as))"

lemma demo_ready: "ready_unpacker copy_zlib (demo_env as) = Some (demo_unpacker as)"
  by (simp add: demo_unpacker_def ready_unpacker_def duer_ota_unpack_create_unpacker_def demo_env_def mbed_hash_init_def
      mbed_zlibstream_decompress_init_def copy_zlib_def Let_def)

lemma demo_meta_size: "hdr_meta_size True (take PCK_HEADER_SZ (demo_header @ xs)) = Some (of_nat 2)"
  by (simp add: hdr_meta_size_def memget_def HDR_META_SIZE_def PCK_HEADER_SZ_def demo_header_def load32_def of_be32_def)

definition demo_pieces :: "byte list list" where
  "demo_pieces = [demo_header @ [1, 2, 3], [4, 5]]"

declare inflate_loop.simps [code] inflated.simps [code]

lemma copy_zlib_ok: "zlib_ok copy_zlib" "ended_ok copy_zlib"
  by (simp_all add: zlib_ok_def ended_ok_def copy_zlib_def copy_inflate_def)

lemma demo_run: "map_option (map_option fst) (unpack_all copy_zlib True (demo_unpacker []) demo_pieces) = Some (Some [0, 0])"
  by code_simp

definition demo_result :: "bool unpacker" where
  "demo_result = snd (the (the (unpack_all copy_zlib True (demo_unpacker []) demo_pieces)))"

lemma demo_result: "unpack_all copy_zlib True (demo_unpacker []) demo_pieces = Some (Some ([0, 0], demo_result))"
  using demo_run by (auto simp: demo_result_def)

section \<open>Witnesses\<close>

theorem unpack_delivers_package_witness:
  "\<exists>z os. inflate_pieces copy_zlib False (bodies 0 demo_pieces) = Some (z, os) \<and>
     described copy_zlib 2 os (up_metas (un_env demo_result)) \<and>
     concat (map snd (up_modules (un_env demo_result))) = drop 2 os \<and> placed 0 (up_modules (un_env demo_result))"
proof -
  have h: "hdr_meta_size True (take PCK_HEADER_SZ (concat demo_pieces)) = Some (of_nat 2)"
    using demo_meta_size[of "[1, 2, 3, 4, 5]"] by (simp add: demo_pieces_def)
  have l: "length (concat demo_pieces) = 285" by (simp add: demo_pieces_def demo_header_length)
  from unpack_delivers_package[OF copy_zlib_ok(1) demo_ready _ _ _ _ _ _ h _ _ demo_result] show ?thesis
    by (simp add: demo_env_def l PCK_HEADER_SZ_def) (simp add: demo_pieces_def demo_header_def copy_zlib_def)
qed

text \<open>The same package when the integrator refuses the first data.\<close>

definition plain_zlib :: "bool zlib" where
  "plain_zlib = copy_zlib\<lparr>zl_inflate := \<lambda>e i. (0, e, drop CHUNK i, take CHUNK i)\<rparr>"

definition refusing_unpacker :: "bool unpacker" where
  "refusing_unpacker = the (ready_unpacker plain_zlib (demo_env [0, -1]))"

lemma refusing_ready: "ready_unpacker plain_zlib (demo_env [0, -1]) = Some refusing_unpacker"
  by (simp add: refusing_unpacker_def ready_unpacker_def duer_ota_unpack_create_unpacker_def demo_env_def mbed_hash_init_def
      mbed_zlibstream_decompress_init_def copy_zlib_def plain_zlib_def Let_def)

lemma refusing_first:
  "map_option (map_option fst)
     (duer_ota_unpack_decompress_data plain_zlib True refusing_unpacker (demo_header @ [1, 2, 3]) 283) = Some (Some (- 1))"
  by code_simp

theorem refused_piece_overread_witness:
  "duer_ota_unpack_decompress_data plain_zlib True
     (snd (the (the (duer_ota_unpack_decompress_data plain_zlib True refusing_unpacker (demo_header @ [1, 2, 3]) 283))))
     [4, 5] 2 = Some None"
proof -
  obtain u1 where u1: "duer_ota_unpack_decompress_data plain_zlib True refusing_unpacker (demo_header @ [1, 2, 3]) 283 =
      Some (Some (- 1, u1))"
    using refusing_first by auto
  have "no_zlib_error plain_zlib" by (simp add: no_zlib_error_def plain_zlib_def)
  from refused_piece_overread[OF this refusing_ready, where c = "demo_header @ [1, 2, 3]" and c' = "[4, 5]" and le = True and r = "- 1" and ?u1.0 = u1] u1
  show ?thesis by (simp add: demo_header_length PCK_HEADER_SZ_def)
qed

text \<open>The same package with a corrupt byte in the second piece and two more pieces behind it.\<close>

lemma demo_received: "unpacker_received copy_zlib 2 False demo_pieces demo_result"
proof -
  have h: "hdr_meta_size True (take PCK_HEADER_SZ (concat demo_pieces)) = Some (of_nat 2)"
    using demo_meta_size[of "[1, 2, 3, 4, 5]"] by (simp add: demo_pieces_def)
  have l: "length (concat demo_pieces) = 285" by (simp add: demo_pieces_def demo_header_length)
  have r: "unpacker_received copy_zlib 2 (fst (zl_inflateInit copy_zlib)) [] (demo_unpacker [])"
    by (rule ready_received[OF demo_ready]) (simp_all add: demo_env_def)
  from unpack_all_received[OF copy_zlib_ok(1) r _ _ _ _ _ _ demo_result] h show ?thesis
    by (simp add: l PCK_HEADER_SZ_def) (simp add: demo_pieces_def demo_header_def copy_zlib_def)
qed

lemma demo_strm: "map_option dz_strm (un_decompress demo_result) = Some False"
  by code_simp

theorem corrupt_piece_forgotten_witness:
  "\<exists>u1 u2. duer_ota_unpack_decompress_data copy_zlib True demo_result [255] 1 = Some (Some (DUER_ERR_FAILED, u1)) \<and>
     unpack_all copy_zlib True u1 [[6], [7, 8]] = Some (Some ([DUER_OK, DUER_OK], u2)) \<and> un_env u2 = un_env demo_result"
proof -
  obtain d where d: "un_decompress demo_result = Some d" "dz_strm d = False" using demo_strm by auto
  have l: "length (concat demo_pieces) = 285" by (simp add: demo_pieces_def demo_header_length)
  have "zl_inflate copy_zlib (dz_strm d) [255] = (Z_DATA_ERROR, False, [255], [])"
    by (simp add: copy_zlib_def copy_inflate_def d(2))
  from corrupt_piece_forgotten[OF copy_zlib_ok(2) demo_received _ d(1) this, of "[[6], [7, 8]]" True]
  show ?thesis by (simp add: l PCK_HEADER_SZ_def del: unpack_all.simps)
qed

section \<open>A whole update\<close>

definition demo_oe :: "bool ota_env" where
  "demo_oe = \<lparr>oe_zlib = copy_zlib, oe_le = True,
     oe_parse = (\<lambda>s. Some (command_json ''tx'' ''2.0'' ''1.0'' ''http://host/p'' ''sig'' 289)),
     oe_after = [], oe_event = 3, oe_tenths = (\<lambda>got total. int (10 * got div total) mod 10),
     oe_whole = (\<lambda>got total. int (got div total))\<rparr>"

text \<open>The third piece is corrupt.\<close>

definition bad_pieces :: "byte list list" where
  "bad_pieces = demo_pieces @ [[255], [6, 7, 8]]"

definition demo_boot :: "bool ota" where
  "demo_boot = \<lparr>ot_switch = 1, ot_reboot = 1, ot_lock = MNull, ot_handler = HNull, ot_jobs = [], ot_first = True, ot_ops = False,
     ot_dl = \<lparr>dl_table = [], dl_lock = MNull, dl_heap = (\<lambda>a. None), dl_next = 1, dl_mem = []\<rparr>,
     ot_updaters = (\<lambda>a. None), ot_next = 1, ot_env = demo_env [], ot_count = 1, ot_notifier_lock = MNull, ot_pkg_ops = False,
     ot_mem = [], ot_inits = [], ot_boots = [], ot_packages = [], ot_http = [(bad_pieces, Some True)], ot_reports = [],
     ot_reported = [], ot_events = [], ot_rebooted = 0\<rparr>"

definition demo_inited :: "bool ota" where
  "demo_inited = snd (the (duer_init_ota True demo_boot))"

definition demo_posted :: "bool ota" where
  "demo_posted = snd (snd (the (the (ota_update demo_oe False (Some ''c'') demo_inited))))"

definition demo_job :: "bool ota" where
  "demo_job = demo_posted\<lparr>ot_jobs := []\<rparr>"

definition demo_done :: "bool ota" where
  "demo_done = the (the (ota_updater demo_oe 1 demo_job))"

lemma demo_inited: "duer_init_ota True demo_boot = Some (DUER_OK, demo_inited)"
proof -
  have "map_option fst (duer_init_ota True demo_boot) = Some 0" by code_simp
  then show ?thesis by (auto simp: demo_inited_def)
qed

lemma demo_posted: "ot_handler demo_posted = HLive \<and> ot_jobs demo_posted = [1] \<and> ot_lock demo_posted = MLive"
  by code_simp

lemma demo_done_run:
  "map_option (map_option (\<lambda>s. (ot_handler s, ot_lock s, ot_mem s))) (ota_updater demo_oe 1 demo_job) =
     Some (Some (HFreed, MLive, []))"
  by code_simp

lemma demo_done: "ota_updater demo_oe 1 demo_job = Some (Some demo_done)"
  using demo_done_run by (auto simp: demo_done_def)

lemma demo_done_state: "ot_lock demo_done = MLive \<and> ot_mem demo_done = []"
  using demo_done_run by (auto simp: demo_done_def)

lemma demo_run_job: "run_job demo_oe demo_posted = Some (Some demo_done)"
  using demo_done demo_posted by (simp add: run_job_def demo_job_def)

theorem update_calls_in_order_witness:
  "\<exists>cs es. calls demo_done = calls demo_job @ cs \<and> prefix cs ALL_CALLS \<and> ot_events demo_done = ot_events demo_job @ es \<and>
     (OTA_EVENT_INSTALLED \<in> set es \<and> oe_event demo_oe \<noteq> OTA_EVENT_INSTALLED \<longrightarrow> cs = ALL_CALLS)"
  by (rule update_calls_in_order[OF demo_done])


theorem ota_switch_ineffective_witness:
  "duer_ota_set_switch (- 1) demo_inited = Some (DUER_ERR_INVALID_PARAMETER, demo_inited) \<and>
     duer_ota_get_switch (demo_inited\<lparr>ot_switch := - 1\<rparr>) = Some DUER_OK"
  using ota_switch_ineffective[OF demo_inited, of "- 1" "- 1"] by (simp add: demo_boot_def)

lemma demo_command: "oe_parse demo_oe ''c'' = Some (command_json ''tx'' ''2.0'' ''1.0'' ''http://host/p'' ''sig'' 289)"
  by (simp add: demo_oe_def)

theorem update_command_fields_witness:
  "duer_analyze_update_cmd demo_oe ''c'' demo_boot =
     Some (DUER_OK, Some \<lparr>uc_transaction = ''tx'', uc_version = ''2.0'', uc_old_version = ''1.0'', uc_url = ''http://host/p'',
       uc_signature = ''sig'', uc_size = 289\<rparr>, demo_boot)"
  by (subst update_command_fields[OF demo_command])
    (simp_all add: demo_boot_def TRANSACTION_LEN_def VERSION_LEN_def URL_LEN_def SIGNATURE_LEN_def)

lemma demo_second: "\<exists>cmd. duer_analyze_update_cmd demo_oe ''c'' demo_done = Some (DUER_OK, Some cmd, demo_done)"
  using demo_done_state by (simp add: duer_analyze_update_cmd_def ota_malloc_Nil demo_command command_json_def set_cmd_field_def)

theorem second_update_faults_witness: "ota_update demo_oe False (Some ''c'') demo_done = Some None"
proof -
  obtain cmd where c: "duer_analyze_update_cmd demo_oe ''c'' demo_done = Some (DUER_OK, Some cmd, demo_done)"
    using demo_second by blast
  show ?thesis
    by (rule second_update_faults[OF demo_run_job _ _ _ _ c, where u = 1 and us = "[]"])
      (use demo_posted demo_done_state in simp_all)
qed

end
