(* ===== verification/HttpUrl.thy ===== *)
theory HttpUrl
  imports CText
begin

text \<open>
  The texts of the HTTP client (\<^verbatim>\<open>modules/HTTP/lightduer_http_client.c\<close>): the parts of an address,
  the status line, the request. A pointer into the address is the position it points at. Sizes
  (\<^verbatim>\<open>size_t\<close>) have 32 bits, as on the devices.

  The fault \<open>None\<close> is a search through \<^verbatim>\<open>NULL\<close>, a copy of more bytes than there are, or a number that
  the variable it is read into cannot hold.
\<close>

section \<open>Constants\<close>

definition HC_SCHEME_LEN_MAX :: nat where "HC_SCHEME_LEN_MAX = 8"
definition HC_HOST_LEN_MAX :: nat where "HC_HOST_LEN_MAX = 255"
definition HC_REDIRECTION_MAX :: nat where "HC_REDIRECTION_MAX = 30"
definition HC_REQUEST_CMD_STR_LEN_MAX :: nat where "HC_REQUEST_CMD_STR_LEN_MAX = 6"
definition HC_CHUNK_SIZE :: nat where "HC_CHUNK_SIZE = 1025"
definition HC_RSP_CHUNK_SIZE :: nat where "HC_RSP_CHUNK_SIZE = 100"
definition HC_HEADER_CHUNK_SIZE :: nat where "HC_HEADER_CHUNK_SIZE = 512"
definition HC_MAX_RETRY_RESUME_COUNT :: nat where "HC_MAX_RETRY_RESUME_COUNT = 10"
definition HC_MAX_RANGE_LEN :: nat where "HC_MAX_RANGE_LEN = 10"
definition HC_CONTENT_TYPE_LEN_MAX :: nat where "HC_CONTENT_TYPE_LEN_MAX = 32"

datatype e_http_result =
    HTTP_OK | HTTP_PROCESSING | HTTP_PARSE | HTTP_DNS | HTTP_PRTCL | HTTP_NOTFOUND | HTTP_REFUSED
  | HTTP_ERROR | HTTP_TIMEOUT | HTTP_CONN | HTTP_CLOSED | HTTP_NOT_SUPPORT | HTTP_REDIRECTTION | HTTP_FAILED

datatype e_http_meth = HTTP_GET | HTTP_POST | HTTP_PUT | HTTP_DELETE | HTTP_HEAD

fun http_request_cmd :: "e_http_meth \<Rightarrow> string" where
  "http_request_cmd HTTP_GET = ''GET''"
| "http_request_cmd HTTP_POST = ''POST''"
| "http_request_cmd HTTP_PUT = ''PUT''"
| "http_request_cmd HTTP_DELETE = ''DELETE''"
| "http_request_cmd HTTP_HEAD = ''HEAD''"

section \<open>Addresses\<close>

record url_parts =
  ur_scheme :: string
  ur_host :: string
  ur_port :: u16
  ur_path :: string

text \<open>
  The port, when there is a colon anywhere behind \<^verbatim>\<open>://\<close>: where the host ends and the number. The inner
  \<open>None\<close> is the result \<^verbatim>\<open>HTTP_PARSE\<close>.
\<close>

definition parse_port :: "string \<Rightarrow> (nat \<times> u16) option option" where
  "parse_port rest =
     (case strchr (CHR '':'') rest of
        None \<Rightarrow> Some (Some (0, 0))
      | Some i \<Rightarrow>
          (case scan_d (drop (i + 1) rest) of
             None \<Rightarrow> Some None
           | Some (v, _) \<Rightarrow> if fits_unsigned 16 v then Some (Some (i, word_of_int v)) else None))"

text \<open>The path, from its position to the first \<^verbatim>\<open>#\<close> behind \<^verbatim>\<open>://\<close>, with the length in 32 bits.\<close>

definition parse_path :: "nat \<Rightarrow> string \<Rightarrow> nat \<Rightarrow> string option option" where
  "parse_path path_len rest p =
     (let len = (case strchr (CHR ''#'') rest of
                   Some f \<Rightarrow> (of_nat f - of_nat p :: u32)
                 | None \<Rightarrow> of_nat (length (drop p rest)))
      in if of_nat path_len < len + 1 then Some None
         else if unat len \<le> length (drop p rest) then Some (Some (take (unat len) (drop p rest)))
         else None)"

definition http_client_parse_url :: "string \<Rightarrow> nat \<Rightarrow> bool \<Rightarrow> url_parts option option" where
  "http_client_parse_url url path_len is_relative_url =
     (if is_relative_url then None
      else
        (case strstr ''://'' url of
           None \<Rightarrow> Some None
         | Some h \<Rightarrow>
             if HC_SCHEME_LEN_MAX < h + 1 then Some None
             else
               (let rest = drop (h + 3) url
                in case parse_port rest of
                     None \<Rightarrow> None
                   | Some None \<Rightarrow> Some None
                   | Some (Some (n, port)) \<Rightarrow>
                       (case strchr (CHR ''/'') rest of
                          None \<Rightarrow> Some None
                        | Some p \<Rightarrow>
                            (let host_len = (if n = 0 then p else n)
                             in if HC_HOST_LEN_MAX < host_len then Some None
                                else map_option (map_option (\<lambda>path.
                                        \<lparr>ur_scheme = take h url, ur_host = take host_len rest,
                                         ur_port = port, ur_path = path\<rparr>))
                                       (parse_path path_len rest p))))))"

text \<open>
  The address a redirection names. The test whether the old path ends in a slash looks at its
  terminating zero, so that a slash is always inserted.
\<close>

definition redirect_path :: "string \<Rightarrow> string \<Rightarrow> string" where
  "redirect_path old loc = old @ ''/'' @ take HC_CHUNK_SIZE loc"

section \<open>The status line\<close>

text \<open>\<^verbatim>\<open>sscanf\<close> with \<^verbatim>\<open>HTTP/%*d.%*d %d\<close>.\<close>

definition scan_status :: "string \<Rightarrow> int option" where
  "scan_status s =
     (if take 5 s \<noteq> ''HTTP/'' then None
      else
        (case scan_d (drop 5 s) of
           Some (_, c # t) \<Rightarrow>
             if c \<noteq> CHR ''.'' then None
             else (case scan_d t of Some (_, t1) \<Rightarrow> map_option fst (scan_d t1) | None \<Rightarrow> None)
         | _ \<Rightarrow> None))"

section \<open>The request\<close>

definition request_text :: "e_http_meth \<Rightarrow> string \<Rightarrow> string \<Rightarrow> u32 \<Rightarrow> string" where
  "request_text meth path host recv_size =
     http_request_cmd meth @ '' '' @ path @ '' HTTP/1.1'' @ CRLF @ ''Host: '' @ host @ CRLF @
     ''Range: bytes='' @ sprintf_d (sint recv_size) @ ''-'' @ CRLF"

definition req_fmt_len :: "string \<Rightarrow> string \<Rightarrow> nat" where
  "req_fmt_len path host =
     length (''%s %s HTTP/1.1'' @ CRLF @ ''Host: %s'' @ CRLF @ ''Range: bytes=%d-'' @ CRLF) +
     HC_REQUEST_CMD_STR_LEN_MAX + length path + length host + HC_MAX_RANGE_LEN"

text \<open>What \<^verbatim>\<open>snprintf\<close> puts into a buffer of that size.\<close>

definition request_buf :: "e_http_meth \<Rightarrow> string \<Rightarrow> string \<Rightarrow> u32 \<Rightarrow> string" where
  "request_buf meth path host recv_size =
     take (req_fmt_len path host - 1) (request_text meth path host recv_size)"

definition header_line :: "string \<times> string \<Rightarrow> string" where
  "header_line = (\<lambda>(k, v). k @ '': '' @ v @ CRLF)"

section \<open>Lemmas\<close>

lemma length_sprintf_d_sint: "length (sprintf_d (sint (w :: u32))) \<le> 11"
proof -
  have b: "- (2 ^ 31) \<le> sint w" "sint w < 2 ^ 31"
    using sint_range_size[of w] by (simp_all add: size_word_def)
  have "length (dec (nat \<bar>sint w\<bar>)) \<le> 10"
    using b by (subst length_dec) auto
  then show ?thesis by (auto simp: sprintf_d_def split: if_splits)
qed

lemma length_request_cmd: "length (http_request_cmd m) \<le> 6"
  by (cases m) auto

text \<open>The request always fits its buffer: the text that is sent is the whole request.\<close>

lemma request_fits: "request_buf meth path host recv_size = request_text meth path host recv_size"
  using length_sprintf_d_sint[of recv_size] length_request_cmd[of meth]
  by (simp add: request_buf_def request_text_def req_fmt_len_def HC_REQUEST_CMD_STR_LEN_MAX_def HC_MAX_RANGE_LEN_def)

lemma request_nonempty: "request_text meth path host recv_size \<noteq> []"
  by (cases meth) (simp_all add: request_text_def)

definition url_text :: "url_parts \<Rightarrow> string" where
  "url_text u = ur_scheme u @ ''://'' @ ur_host u @
     (if ur_port u = 0 then [] else '':'' @ dec (unat (ur_port u))) @ ur_path u"

definition good_url :: "url_parts \<Rightarrow> bool" where
  "good_url u \<longleftrightarrow>
     CHR '':'' \<notin> set (ur_scheme u) \<and> length (ur_scheme u) < 8 \<and>
     ur_host u \<noteq> [] \<and> set (ur_host u) \<inter> {CHR '':'', CHR ''/'', CHR ''#''} = {} \<and> length (ur_host u) \<le> 255 \<and>
     take 1 (ur_path u) = ''/'' \<and> CHR ''#'' \<notin> set (ur_path u) \<and>
     (ur_port u = 0 \<longrightarrow> CHR '':'' \<notin> set (ur_path u))"

lemma parse_port_url:
  assumes "good_url u"
  shows "parse_port (ur_host u @ (if ur_port u = 0 then [] else '':'' @ dec (unat (ur_port u))) @ ur_path u) =
    Some (Some (if ur_port u = 0 then (0, 0) else (length (ur_host u), ur_port u)))"
proof (cases "ur_port u = 0")
  case True
  then have "CHR '':'' \<notin> set (ur_host u @ ur_path u)" using assms by (auto simp: good_url_def)
  then have "strchr (CHR '':'') (ur_host u @ ur_path u) = None" by (simp add: strchr_None)
  then show ?thesis using True by (simp add: parse_port_def)
next
  case False
  have "strchr (CHR '':'') (ur_host u @ CHR '':'' # dec (unat (ur_port u)) @ ur_path u) = Some (length (ur_host u))"
    using assms by (intro strchr_hit) (auto simp: good_url_def)
  moreover have "takeWhile is_digit (ur_path u) = []"
    using assms by (cases "ur_path u") (auto simp: good_url_def)
  moreover have "fits_unsigned 16 (uint (ur_port u))"
    using uint_lt2p[of "ur_port u"] by (simp add: fits_unsigned_def less_le_trans[OF _ uint_ge_0])
  ultimately show ?thesis using False by (simp add: parse_port_def scan_d_dec)
qed

lemma parse_path_plain:
  assumes "CHR ''#'' \<notin> set rest" "length (drop p rest) < path_len" "path_len < 2 ^ 32"
  shows "parse_path path_len rest p = Some (Some (drop p rest))"
proof -
  have "strchr (CHR ''#'') rest = None" using assms(1) by (simp add: strchr_None)
  moreover have "\<not> (of_nat path_len :: u32) < of_nat (length (drop p rest) + 1)"
    using assms(2,3) by (simp add: word_less_nat_alt u32_of_nat del: of_nat_Suc)
  moreover have "unat (of_nat (length (drop p rest)) :: u32) = length (drop p rest)"
    using assms(2,3) by (simp add: u32_of_nat)
  ultimately show ?thesis by (simp add: parse_path_def add.commute)
qed

text \<open>C29: parsing an address gives back the scheme (of less than 8 characters), the host (of at most 255), the port and the path it
  was made of, when the path has no \<^verbatim>\<open>#\<close>, and no colon unless the address has a port.\<close>

theorem url_roundtrip:
  assumes "good_url u" "length (url_text u) + 1 < 2 ^ 32"
  shows "http_client_parse_url (url_text u) (length (url_text u) + 1) False = Some (Some u)"
proof -
  define port where "port = (if ur_port u = 0 then [] else '':'' @ dec (unat (ur_port u)))"
  obtain t where t: "ur_path u = CHR ''/'' # t"
    using assms(1) by (cases "ur_path u") (auto simp: good_url_def)
  have ut: "url_text u = ur_scheme u @ ''://'' @ ur_host u @ port @ ur_path u"
    by (simp add: url_text_def port_def)
  have "strstr ''://'' (url_text u) = Some (length (ur_scheme u))"
    unfolding ut using assms(1) by (intro strstr_hit) (auto simp: good_url_def)
  moreover have "drop (length (ur_scheme u) + 3) (url_text u) = ur_host u @ port @ ur_path u"
    by (simp add: ut)
  moreover have np: "CHR ''/'' \<notin> set port" "CHR ''#'' \<notin> set port" by (auto simp: port_def is_digit_def notin_dec)
  then have "strchr (CHR ''/'') (ur_host u @ port @ ur_path u) = Some (length (ur_host u) + length port)"
    using assms(1) by (simp add: t strchr_append good_url_def)
  moreover have "parse_path (length (url_text u) + 1) (ur_host u @ port @ ur_path u) (length (ur_host u) + length port) =
    Some (Some (ur_path u))"
  proof -
    have "CHR ''#'' \<notin> set (ur_host u @ port @ ur_path u)" using assms(1) np by (auto simp: good_url_def)
    from parse_path_plain[OF this] show ?thesis using assms(2) by (simp add: ut)
  qed
  moreover have "parse_port (ur_host u @ port @ ur_path u) =
      Some (Some (if ur_port u = 0 then (0, 0) else (length (ur_host u), ur_port u)))"
    using parse_port_url[OF assms(1)] by (simp add: port_def)
  moreover have "length port = 0" if "ur_port u = 0" using that by (simp add: port_def)
  ultimately show ?thesis
    using assms(1) by (auto simp: http_client_parse_url_def Let_def good_url_def HC_SCHEME_LEN_MAX_def HC_HOST_LEN_MAX_def ut)
qed

text \<open>An address with a fragment mark right before its path is copied with a length of $2^{32} - 1$.\<close>

theorem url_fragment_overruns:
  assumes "set h \<inter> {CHR '':'', CHR ''/'', CHR ''#''} = {}" "h \<noteq> []" "length h \<le> 254" "CHR '':'' \<notin> set t"
    and "length t < 2 ^ 31"
  shows "http_client_parse_url (''http://'' @ h @ ''#/'' @ t) n False = None"
proof -
  have "strstr ''://'' (''http'' @ ''://'' @ h @ ''#/'' @ t) = Some (length ''http'')" by (rule strstr_hit) auto
  moreover have "CHR '':'' \<notin> set (h @ ''#/'' @ t)" using assms by auto
  then have "strchr (CHR '':'') (h @ ''#/'' @ t) = None" by (rule strchr_None[THEN iffD2])
  then have "parse_port (h @ ''#/'' @ t) = Some (Some (0, 0))" by (simp add: parse_port_def)
  moreover have "strchr (CHR ''/'') ((h @ ''#'') @ CHR ''/'' # t) = Some (length (h @ ''#''))"
    by (rule strchr_hit) (use assms in auto)
  moreover have "strchr (CHR ''#'') (h @ CHR ''#'' # ''/'' @ t) = Some (length h)"
    by (rule strchr_hit) (use assms in auto)
  moreover have "unat (- 1 :: u32) = 4294967295" by transfer (simp add: take_bit_minus_one_eq_mask mask_eq_exp_minus_1)
  ultimately show ?thesis
    using assms(3,5) by (simp add: http_client_parse_url_def HC_SCHEME_LEN_MAX_def HC_HOST_LEN_MAX_def parse_path_def
        Let_def)
qed

text \<open>A colon in the path is taken for the one before the port, and all before it for the host.\<close>

theorem url_colon_misread:
  assumes "set h \<inter> {CHR '':'', CHR ''/'', CHR ''#''} = {}" "set p \<inter> {CHR '':'', CHR ''#''} = {}"
    and "length h + length p < 255" "k < 2 ^ 16"
  shows "http_client_parse_url (''http://'' @ h @ ''/'' @ p @ '':'' @ dec k) 2000 False =
     Some (Some \<lparr>ur_scheme = ''http'', ur_host = h @ ''/'' @ p, ur_port = of_nat k, ur_path = ''/'' @ p @ '':'' @ dec k\<rparr>)"
proof -
  let ?r = "h @ ''/'' @ p @ '':'' @ dec k"
  have "strstr ''://'' (''http'' @ ''://'' @ ?r) = Some (length ''http'')" by (rule strstr_hit) auto
  moreover have "strchr (CHR '':'') ((h @ ''/'' @ p) @ CHR '':'' # dec k) = Some (length (h @ ''/'' @ p))"
    by (rule strchr_hit) (use assms in auto)
  then have "parse_port ?r = Some (Some (Suc (length h + length p), of_nat k))"
    using assms(4) scan_d_dec[of "[]" k] by (simp add: parse_port_def fits_unsigned_def)
  moreover have "strchr (CHR ''/'') (h @ CHR ''/'' # p @ '':'' @ dec k) = Some (length h)"
    by (rule strchr_hit) (use assms in auto)
  moreover have "CHR ''#'' \<notin> set ?r" using assms(1,2) by (auto simp: is_digit_def notin_dec)
  moreover have "length (dec k) \<le> 5" using assms(4) by (simp add: length_dec)
  ultimately show ?thesis
    using assms(3) parse_path_plain[of ?r "length h" 2000]
    by (simp add: http_client_parse_url_def HC_SCHEME_LEN_MAX_def HC_HOST_LEN_MAX_def Let_def)
qed

end
