(* ===== verification/HttpNet.thy ===== *)
theory HttpNet
  imports HttpUrl
begin

text \<open>
  The state of the HTTP client (\<^verbatim>\<open>http_client_c\<close> in \<^verbatim>\<open>modules/HTTP/lightduer_http_client.h\<close>), the socket
  behind its operations, and how it sends and receives.

  The other side of a connection is a function from the text it was sent to what it sends itself: a
  list of pieces and errors, and the end of the connection after them. Which connections succeed, how
  much a call of \<^verbatim>\<open>send\<close> takes and which sockets can be opened are lists in the state, too.
\<close>

section \<open>State\<close>

datatype e_data_pos = DATA_FIRST | DATA_MID | DATA_LAST

datatype event = Data string | Err

type_synonym peer = "string \<Rightarrow> event list"

text \<open>
  \<open>ht_live\<close>: the socket is open. \<open>ht_in\<close>: what is still to be received, once the first byte was asked for.
  \<open>ht_sent\<close>: what was sent on this connection. \<open>ht_connects\<close>, \<open>ht_out\<close>: the connections tried and the calls
  of the data handler so far. \<open>ht_stops\<close>: the answers of the callback that stops a transfer.
\<close>

record http =
  ht_headers :: "(string \<times> string) list"
  ht_code :: int
  ht_handler :: bool
  ht_content_len :: u32
  ht_content_type :: string
  ht_location :: "string option"
  ht_stops :: "bool list"
  ht_url_cb :: bool
  ht_urls :: "string list"
  ht_chunked :: bool
  ht_chunk_size :: u32
  ht_chunk_buf :: bool
  ht_recv_size :: u32
  ht_retry :: nat
  ht_buf :: string
  ht_data_pos :: e_data_pos
  ht_live :: bool
  ht_in :: "event list option"
  ht_peer :: peer
  ht_sent :: string
  ht_peers :: "peer option list"
  ht_opens :: "bool list"
  ht_sends :: "int list"
  ht_connects :: "(string \<times> u16) list"
  ht_out :: "(e_data_pos \<times> string \<times> string) list"
  ht_mem :: mem

definition ht_malloc :: "http \<Rightarrow> bool \<times> http" where
  "ht_malloc c = (let (ok, m) = malloc_ok (ht_mem c) in (ok, c\<lparr>ht_mem := m\<rparr>))"

section \<open>The socket\<close>

definition sock_open :: "http \<Rightarrow> http" where
  "sock_open c = (let (ok, os) = malloc_ok (ht_opens c) in c\<lparr>ht_live := ok, ht_opens := os\<rparr>)"

definition sock_close :: "http \<Rightarrow> http" where
  "sock_close c = c\<lparr>ht_live := False\<rparr>"

definition sock_connect :: "string \<Rightarrow> u16 \<Rightarrow> http \<Rightarrow> int \<times> http" where
  "sock_connect host port c0 =
     (let c = c0\<lparr>ht_connects := ht_connects c0 @ [(host, port)]\<rparr>
      in if \<not> ht_live c then (- 1, c)
         else
           (case ht_peers c of
              Some p # ps \<Rightarrow> (0, c\<lparr>ht_peers := ps, ht_peer := p, ht_sent := [], ht_in := None\<rparr>)
            | None # ps \<Rightarrow> (- 1, c\<lparr>ht_peers := ps\<rparr>)
            | [] \<Rightarrow> (- 1, c)))"

definition sock_send :: "string \<Rightarrow> http \<Rightarrow> int \<times> http" where
  "sock_send s c =
     (if \<not> ht_live c then (- 1, c)
      else
        (let (r, rs) = (case ht_sends c of [] \<Rightarrow> (int (length s), []) | n # ns \<Rightarrow> (min n (int (length s)), ns))
         in (r, c\<lparr>ht_sends := rs, ht_sent := ht_sent c @ take (nat r) s\<rparr>)))"

text \<open>At most \<open>n\<close> bytes: an error is \<open>None\<close>, the end of the connection the empty string.\<close>

fun read_events :: "nat \<Rightarrow> event list \<Rightarrow> string option \<times> event list" where
  "read_events n [] = (Some [], [])"
| "read_events n (Err # es) = (None, es)"
| "read_events n (Data d # es) =
     (if d = [] then read_events n es
      else (Some (take n d), if length d \<le> n then es else Data (drop n d) # es))"

definition incoming :: "http \<Rightarrow> event list" where
  "incoming c = (case ht_in c of None \<Rightarrow> ht_peer c (ht_sent c) | Some es \<Rightarrow> es)"

definition sock_recv :: "nat \<Rightarrow> http \<Rightarrow> string option \<times> http" where
  "sock_recv n c =
     (if \<not> ht_live c then (None, c)
      else (let (d, es) = read_events n (incoming c) in (d, c\<lparr>ht_in := Some es\<rparr>)))"

section \<open>Setting up the client\<close>

text \<open>
  The client as \<^verbatim>\<open>memset\<close> leaves it, with the state of the world around it kept. \<^verbatim>\<open>data_pos\<close>, which is none of
  its values then, is set before it is used.
\<close>

definition duer_http_client_init :: "http \<Rightarrow> e_http_result \<times> http" where
  "duer_http_client_init c =
     (HTTP_OK, c\<lparr>ht_headers := [], ht_code := 0, ht_handler := False, ht_content_len := 0, ht_content_type := [],
        ht_location := None, ht_stops := [], ht_url_cb := False, ht_chunked := False, ht_chunk_size := 0,
        ht_chunk_buf := False, ht_recv_size := 0, ht_retry := 0, ht_buf := [], ht_live := False\<rparr>)"

definition duer_http_client_init_socket_ops :: "http \<Rightarrow> e_http_result \<times> http" where
  "duer_http_client_init_socket_ops c =
     (let c1 = sock_open c in (if ht_live c1 then HTTP_OK else HTTP_FAILED, c1))"

definition duer_create_http_client :: "http \<Rightarrow> bool \<times> http" where
  "duer_create_http_client c =
     (let (ok, c1) = ht_malloc c
      in if \<not> ok then (False, c1)
         else
           (let (r, c2) = duer_http_client_init c1; (r2, c3) = duer_http_client_init_socket_ops c2
            in (r2 = HTTP_OK, c3)))"

text \<open>The operation \<^verbatim>\<open>destroy\<close> of the socket does nothing.\<close>

definition duer_http_client_destroy :: "http \<Rightarrow> http" where
  "duer_http_client_destroy c = c\<lparr>ht_location := None, ht_chunk_buf := False\<rparr>"

definition duer_http_client_set_cust_headers :: "(string \<times> string) list \<Rightarrow> http \<Rightarrow> http" where
  "duer_http_client_set_cust_headers hs c = c\<lparr>ht_headers := hs\<rparr>"

definition duer_http_client_reg_data_hdlr_cb :: "bool \<Rightarrow> http \<Rightarrow> http" where
  "duer_http_client_reg_data_hdlr_cb b c = c\<lparr>ht_handler := b\<rparr>"

definition duer_http_client_reg_cb_to_get_url :: "bool \<Rightarrow> http \<Rightarrow> http" where
  "duer_http_client_reg_cb_to_get_url b c = c\<lparr>ht_url_cb := b\<rparr>"

definition duer_http_client_reg_stop_notify_cb :: "bool list \<Rightarrow> http \<Rightarrow> http" where
  "duer_http_client_reg_stop_notify_cb bs c = c\<lparr>ht_stops := bs\<rparr>"

definition duer_http_client_get_resp_code :: "http \<Rightarrow> int" where
  "duer_http_client_get_resp_code c = ht_code c"

definition duer_http_client_get_download_progress :: "http \<Rightarrow> u32 \<times> u32" where
  "duer_http_client_get_download_progress c = (ht_content_len c, ht_recv_size c)"

text \<open>The answer of the callback, \<^verbatim>\<open>false\<close> when there is none.\<close>

definition check_stop :: "http \<Rightarrow> bool \<times> http" where
  "check_stop c = (case ht_stops c of [] \<Rightarrow> (False, c) | b # bs \<Rightarrow> (b, c\<lparr>ht_stops := bs\<rparr>))"

section \<open>Sending\<close>

text \<open>A call that takes a part of the text counts as success.\<close>

definition http_client_send :: "string \<Rightarrow> http \<Rightarrow> e_http_result \<times> http" where
  "http_client_send s c =
     (let (r, c1) = sock_send s c
      in (if r > 0 then HTTP_OK else if r = 0 then HTTP_CLOSED else HTTP_CONN, c1))"

definition http_client_send_request :: "e_http_meth \<Rightarrow> string \<Rightarrow> string \<Rightarrow> http \<Rightarrow> e_http_result \<times> http" where
  "http_client_send_request meth path host c0 =
     (let (ok, c) = ht_malloc c0
      in if \<not> ok then (HTTP_FAILED, c)
         else
           (let (r, c1) = http_client_send (request_buf meth path host (ht_recv_size c)) c
            in if r \<noteq> HTTP_OK then (HTTP_CONN, sock_close c1) else (HTTP_OK, c1)))"

text \<open>The headers are printed into the receive buffer.\<close>

fun send_header_lines :: "(string \<times> string) list \<Rightarrow> nat \<Rightarrow> http \<Rightarrow> (e_http_result \<times> http) option" where
  "send_header_lines [] buff_size c = Some (HTTP_OK, c)"
| "send_header_lines ((k, v) # hs) buff_size c =
     (if length ''%s: %s'' + 2 + length k + length v \<ge> buff_size then Some (HTTP_FAILED, sock_close c)
      else
        (case memput 0 (header_line (k, v) @ [NUL]) (ht_buf c) of
           None \<Rightarrow> None
         | Some b \<Rightarrow>
             (let (r, c1) = http_client_send (header_line (k, v)) (c\<lparr>ht_buf := b\<rparr>)
              in if r \<noteq> HTTP_OK then Some (HTTP_CONN, sock_close c1) else send_header_lines hs buff_size c1)))"

definition http_client_send_headers :: "nat \<Rightarrow> http \<Rightarrow> (e_http_result \<times> http) option" where
  "http_client_send_headers buff_size c =
     (case send_header_lines (ht_headers c) buff_size c of
        None \<Rightarrow> None
      | Some (r, c1) \<Rightarrow>
          if r \<noteq> HTTP_OK then Some (r, c1)
          else (let (r2, c2) = http_client_send CRLF c1
                in Some (if r2 \<noteq> HTTP_OK then (r2, sock_close c2) else (HTTP_OK, c2))))"

section \<open>Receiving\<close>

text \<open>
  The loop of \<^verbatim>\<open>http_client_recv\<close>: it asks for more until the count is reached, the connection ends or
  fails. The bytes go to position \<open>off\<close> of the receive buffer and behind.
\<close>

lemma read_events_length: "read_events n es = (Some d, es') \<Longrightarrow> length d \<le> n"
  by (induction n es rule: read_events.induct) (auto split: if_splits)

function recv_loop :: "nat \<Rightarrow> nat \<Rightarrow> nat \<Rightarrow> http \<Rightarrow> (e_http_result \<times> nat \<times> http) option" where
  "recv_loop off max_len got c =
     (if got < max_len then
        (case sock_recv (max_len - got) c of
           (None, c1) \<Rightarrow> Some (HTTP_CONN, got, c1)
         | (Some d, c1) \<Rightarrow>
             if d = [] then Some (HTTP_OK, got, c1)
             else
               (case memput (off + got) d (ht_buf c1) of
                  None \<Rightarrow> None
                | Some b \<Rightarrow> recv_loop off max_len (got + length d) (c1\<lparr>ht_buf := b\<rparr>)))
      else Some (HTTP_OK, got, c))"
  by pat_completeness auto
termination by (relation "measure (\<lambda>(off, max_len, got, c). max_len - got)") (auto simp flip: length_greater_0_conv)

declare recv_loop.simps [simp del]

definition http_client_recv :: "nat \<Rightarrow> nat \<Rightarrow> http \<Rightarrow> (e_http_result \<times> nat \<times> http) option" where
  "http_client_recv off max_len c =
     (case recv_loop off max_len 0 c of
        None \<Rightarrow> None
      | Some (r, k, c1) \<Rightarrow> map_option (\<lambda>b. (r, k, c1\<lparr>ht_buf := b\<rparr>)) (memput (off + k) [NUL] (ht_buf c1)))"

text \<open>The first \<open>n\<close> bytes from position \<open>k\<close> on move to the front.\<close>

definition buf_shift :: "nat \<Rightarrow> nat \<Rightarrow> string \<Rightarrow> string option" where
  "buf_shift k n b = Option.bind (memget k n b) (\<lambda>x. memput 0 x b)"

end
