(* ===== verification/HttpRecv.thy ===== *)
theory HttpRecv
  imports HttpNet
begin

text \<open>
  How the HTTP client reads a response: the status line, the headers, and the content, plain or in
  chunks. \<open>n\<close> is the number of bytes received and not yet used at the front of the buffer (\<^verbatim>\<open>rev_len\<close>).

  A loop that asks for more without ever getting anything does not end: the outer \<open>None\<close>. The inner
  \<open>None\<close> is a fault.
\<close>

section \<open>The status line\<close>

text \<open>\<open>old\<close> is the caller's count, which an error leaves as it is. An error closes the socket.\<close>

definition http_client_recv_rsp_and_parse :: "nat \<Rightarrow> nat \<Rightarrow> http \<Rightarrow> (e_http_result \<times> nat \<times> http) option" where
  "http_client_recv_rsp_and_parse max_len old c =
     (case http_client_recv 0 max_len c of
        None \<Rightarrow> None
      | Some (r, n, c1) \<Rightarrow>
          if r \<noteq> HTTP_OK then Some (HTTP_CONN, old, sock_close c1)
          else
            (case strstr CRLF (cstr (ht_buf c1)) of
               None \<Rightarrow> Some (HTTP_PRTCL, old, sock_close c1)
             | Some p \<Rightarrow>
                 (case memput p [NUL] (ht_buf c1) of
                    None \<Rightarrow> None
                  | Some b \<Rightarrow>
                      (case scan_status (cstr b) of
                         None \<Rightarrow> Some (HTTP_PRTCL, old, sock_close (c1\<lparr>ht_buf := b\<rparr>))
                       | Some code \<Rightarrow>
                           if \<not> fits_int code then None
                           else if code < 200 \<or> 400 \<le> code
                           then Some (HTTP_PRTCL, old, sock_close (c1\<lparr>ht_buf := b, ht_code := code\<rparr>))
                           else map_option (\<lambda>b1. (HTTP_OK, n - (p + 2), c1\<lparr>ht_buf := b1, ht_code := code\<rparr>))
                                  (buf_shift (p + 2) (n - (p + 2) + 1) b)))))"

section \<open>The headers\<close>

definition http_client_set_content_len :: "u32 \<Rightarrow> http \<Rightarrow> http" where
  "http_client_set_content_len n c = c\<lparr>ht_content_len := n\<rparr>"

definition http_client_set_content_type :: "string \<Rightarrow> http \<Rightarrow> http" where
  "http_client_set_content_type s c = c\<lparr>ht_content_type := take (HC_CONTENT_TYPE_LEN_MAX - 1) s\<rparr>"

text \<open>
  What a header does: the result, the variable \<^verbatim>\<open>http_content_len\<close> and the client. \<open>off\<close> is the position
  of the value in the buffer.
\<close>

definition take_header ::
  "nat \<Rightarrow> nat \<Rightarrow> string \<Rightarrow> string \<Rightarrow> int \<Rightarrow> http \<Rightarrow> (e_http_result \<times> int \<times> http) option" where
  "take_header max_len off key value cl c =
     (if strncmp_eq max_len key ''Content-Length'' then
        (let v = (case scan_d value of None \<Rightarrow> cl | Some (v, _) \<Rightarrow> v)
         in if \<not> fits_int v then None
            else Some (HTTP_OK, v, http_client_set_content_len (word_of_int v + ht_recv_size c) c))
      else if strncmp_eq max_len key ''Transfer-Encoding'' then
        (if strncmp_eq (max_len - off) value ''Chunked'' \<or> strncmp_eq (max_len - off) value ''chunked'' then
           (let (ok, c1) = ht_malloc (c\<lparr>ht_chunked := True\<rparr>); c2 = c1\<lparr>ht_chunk_buf := ok\<rparr>
            in Some (if ok then (HTTP_OK, cl, c2) else (HTTP_FAILED, cl, c2)))
         else Some (HTTP_OK, cl, c))
      else if strncmp_eq max_len key ''Content-Type'' then
        Some (HTTP_OK, cl, http_client_set_content_type value c)
      else if strncmp_eq max_len key ''Location'' then
        (let (ok, c1) = ht_malloc c
         in Some (if ok then (HTTP_REDIRECTTION, cl, c1\<lparr>ht_location := Some value\<rparr>)
                  else (HTTP_FAILED, cl, c1\<lparr>ht_location := None\<rparr>)))
      else Some (HTTP_OK, cl, c))"

text \<open>A line of \<open>p\<close> characters at the front of the buffer. The colon and the end become zeros.\<close>

definition parse_header_line :: "nat \<Rightarrow> nat \<Rightarrow> int \<Rightarrow> http \<Rightarrow> (e_http_result \<times> int \<times> http) option" where
  "parse_header_line max_len p cl c =
     (case memput p [NUL] (ht_buf c) of
        None \<Rightarrow> None
      | Some b \<Rightarrow>
          (case strchr (CHR '':'') (take p b) of
             None \<Rightarrow> Some (HTTP_PRTCL, cl, c\<lparr>ht_buf := b\<rparr>)
           | Some i \<Rightarrow>
               (case memput i [NUL] b of
                  None \<Rightarrow> None
                | Some b1 \<Rightarrow>
                    (let raw = cstr (drop (i + 1) b1); value = dropWhile (\<lambda>ch. ch = CHR '' '') raw
                     in take_header max_len (i + 1 + (length raw - length value)) (cstr b1) value cl (c\<lparr>ht_buf := b1\<rparr>)))))"

partial_function (option) recv_headers_loop ::
  "nat \<Rightarrow> nat \<Rightarrow> int \<Rightarrow> nat \<Rightarrow> http \<Rightarrow> (e_http_result \<times> nat \<times> http) option option" where
  "recv_headers_loop max_len old cl n c =
     (case strstr CRLF (cstr (ht_buf c)) of
        None \<Rightarrow>
          if n < max_len then
            (case http_client_recv n (max_len - n) c of
               None \<Rightarrow> Some None
             | Some (r, k, c1) \<Rightarrow>
                 if r \<noteq> HTTP_OK then Some (Some (r, old, sock_close c1))
                 else recv_headers_loop max_len old cl (n + k) c1)
          else Some (Some (HTTP_PRTCL, old, sock_close c))
      | Some p \<Rightarrow>
          if p = 0 then
            Some (map_option (\<lambda>b. (HTTP_OK, n - 2, c\<lparr>ht_buf := b\<rparr>)) (buf_shift 2 (n - 2 + 1) (ht_buf c)))
          else
            (case parse_header_line max_len p cl c of
               None \<Rightarrow> Some None
             | Some (r, cl1, c1) \<Rightarrow>
                 if r \<noteq> HTTP_OK then Some (Some (r, old, sock_close c1))
                 else
                   (case buf_shift (p + 2) (n - (p + 2) + 1) (ht_buf c1) of
                      None \<Rightarrow> Some None
                    | Some b \<Rightarrow> recv_headers_loop max_len old cl1 (n - (p + 2)) (c1\<lparr>ht_buf := b\<rparr>))))"

declare recv_headers_loop.simps [code]

definition http_client_recv_headers_and_parse ::
  "nat \<Rightarrow> nat \<Rightarrow> http \<Rightarrow> (e_http_result \<times> nat \<times> http) option option" where
  "http_client_recv_headers_and_parse max_len n c = recv_headers_loop max_len n 0 n (c\<lparr>ht_chunked := False\<rparr>)"

section \<open>The data handler\<close>

text \<open>Its result is not looked at.\<close>

definition hand_on :: "e_data_pos \<Rightarrow> string \<Rightarrow> http \<Rightarrow> http" where
  "hand_on pos s c = c\<lparr>ht_out := ht_out c @ [(pos, s, ht_content_type c)]\<rparr>"

definition hand_on_counted :: "string \<Rightarrow> http \<Rightarrow> http" where
  "hand_on_counted s c =
     (if ht_handler c then (hand_on (ht_data_pos c) s c)\<lparr>ht_recv_size := ht_recv_size c + of_nat (length s)\<rparr> else c)"

section \<open>Content in chunks\<close>

text \<open>The end of the line is only found when at least one more byte has been received.\<close>

definition chunk_line_end :: "nat \<Rightarrow> string \<Rightarrow> nat option" where
  "chunk_line_end n b = (if 2 \<le> n then strstr CRLF (take (n - 1) b) else None)"

definition read_chunk_size :: "nat \<Rightarrow> nat \<Rightarrow> http \<Rightarrow> (e_http_result \<times> nat \<times> http) option" where
  "read_chunk_size p n c =
     (case memput p [NUL] (ht_buf c) of
        None \<Rightarrow> None
      | Some b \<Rightarrow>
          (case scan_x (cstr b) of
             None \<Rightarrow> Some (HTTP_PRTCL, n, sock_close (c\<lparr>ht_buf := b\<rparr>))
           | Some v \<Rightarrow>
               if \<not> fits_unsigned 32 v then None
               else map_option (\<lambda>b1. (HTTP_OK, n - (p + 2), c\<lparr>ht_buf := b1, ht_chunk_size := word_of_int v\<rparr>))
                      (buf_shift (p + 2) (n - (p + 2) + 1) b)))"

partial_function (option) http_client_recv_chunked_size ::
  "nat \<Rightarrow> nat \<Rightarrow> http \<Rightarrow> (e_http_result \<times> nat \<times> http) option option" where
  "http_client_recv_chunked_size max_len n c =
     (case chunk_line_end n (ht_buf c) of
        Some p \<Rightarrow> Some (read_chunk_size p n c)
      | None \<Rightarrow>
          if n < max_len then
            (case http_client_recv n (max_len - n) c of
               None \<Rightarrow> Some None
             | Some (r, k, c1) \<Rightarrow>
                 if r \<noteq> HTTP_OK then Some (Some (r, n, sock_close c1))
                 else http_client_recv_chunked_size max_len (n + k) c1)
          else Some (Some (HTTP_PRTCL, n, sock_close c)))"

declare http_client_recv_chunked_size.simps [code]

text \<open>
  Data goes through the chunk buffer \<open>cb\<close>, which is handed on when it holds 1024 bytes. What is left of
  the data must fit into it.
\<close>

definition chunk_append :: "string \<Rightarrow> string \<Rightarrow> http \<Rightarrow> (string \<times> http) option" where
  "chunk_append d cb c =
     (if HC_CHUNK_SIZE - 1 \<le> length cb + length d then
        (let temp = HC_CHUNK_SIZE - 1 - length cb; c1 = hand_on_counted (cb @ take temp d) c
         in if HC_CHUNK_SIZE < length d - temp then None
            else Some (drop temp d, c1\<lparr>ht_data_pos := DATA_MID\<rparr>))
      else Some (cb @ d, c))"

text \<open>
  What a part of the code comes to: the transfer ends (\<^verbatim>\<open>goto RET\<close>) with a result and the contents of the
  chunk buffer, or it goes on with \<open>n\<close> bytes in the receive buffer.
\<close>

datatype chunk_step = Ret e_http_result string http | Go_on nat string http

text \<open>
  A chunk that fits into the receive buffer. The sum of its size and the two bytes of the line end is
  taken in 32 bits. When it wraps, fewer bytes are there than the size says, and copying that many
  leaves both buffers: the fault \<open>None\<close>, which like every fault says nothing of what was handed on before
  (the source may pass the first 1023 bytes of its chunk buffer to the handler on the way to it).
\<close>

definition small_chunk_data :: "nat \<Rightarrow> string \<Rightarrow> http \<Rightarrow> chunk_step option" where
  "small_chunk_data n cb c =
     (let sz = unat (ht_chunk_size c)
      in if of_nat n < ht_chunk_size c + 2 then Some (Ret HTTP_PRTCL cb c)
         else if n < sz then None
         else
           (case chunk_append (take sz (ht_buf c)) cb c of
              None \<Rightarrow> None
            | Some (cb1, c1) \<Rightarrow>
                if take 2 (drop sz (ht_buf c1)) \<noteq> CRLF then Some (Ret HTTP_PRTCL cb1 c1)
                else map_option (\<lambda>b. Go_on (n - (sz + 2)) cb1 (c1\<lparr>ht_buf := b\<rparr>))
                       (buf_shift (sz + 2) (n - (sz + 2) + 1) (ht_buf c1))))"

definition small_chunk :: "nat \<Rightarrow> nat \<Rightarrow> string \<Rightarrow> http \<Rightarrow> chunk_step option" where
  "small_chunk max_len n cb c =
     (if of_nat n < ht_chunk_size c + 2 then
        (let (stop, c1) = check_stop c
         in if stop then Some (Ret HTTP_OK cb c1)
            else
              (case http_client_recv n (max_len - n) c1 of
                 None \<Rightarrow> None
               | Some (r, k, c2) \<Rightarrow>
                   if r \<noteq> HTTP_OK then Some (Ret r cb c2) else small_chunk_data (n + k) cb c2))
      else small_chunk_data n cb c)"

text \<open>A large one is read piece by piece; every time all that is in the receive buffer is used.\<close>

partial_function (option) large_chunk_loop ::
  "nat \<Rightarrow> nat \<Rightarrow> nat \<Rightarrow> string \<Rightarrow> http \<Rightarrow> chunk_step option option" where
  "large_chunk_loop max_len need n cb c =
     (if need = 0 then Some (Some (Go_on n cb c))
      else
        (case check_stop c of
           (stop, c1) \<Rightarrow>
             if stop then Some (Some (Ret HTTP_OK cb c1))
             else
               (case http_client_recv n (if need < max_len - n then need else max_len - n) c1 of
                  None \<Rightarrow> Some None
                | Some (r, k, c2) \<Rightarrow>
                    if r \<noteq> HTTP_OK then Some (Some (Ret r cb c2))
                    else
                      (case chunk_append (take (n + k) (ht_buf c2)) cb c2 of
                         None \<Rightarrow> Some None
                       | Some (cb1, c3) \<Rightarrow> large_chunk_loop max_len (need - k) 0 cb1 c3))))"

declare large_chunk_loop.simps [code]

definition chunk_crlf :: "string \<Rightarrow> http \<Rightarrow> chunk_step option" where
  "chunk_crlf cb c =
     (case http_client_recv 0 2 c of
        None \<Rightarrow> None
      | Some (r, k, c1) \<Rightarrow>
          Some (if r \<noteq> HTTP_OK then Ret r cb c1
                else if k \<noteq> 2 \<or> take 2 (ht_buf c1) \<noteq> CRLF then Ret HTTP_PRTCL cb c1
                else Go_on 0 cb c1))"

definition large_chunk :: "nat \<Rightarrow> nat \<Rightarrow> string \<Rightarrow> http \<Rightarrow> chunk_step option option" where
  "large_chunk max_len n cb c =
     (if unat (ht_chunk_size c) \<le> n then Some (Some (Ret HTTP_FAILED cb c))
      else
        (case large_chunk_loop max_len (unat (ht_chunk_size c) - n) n cb c of
           Some (Some (Go_on _ cb1 c1)) \<Rightarrow> Some (chunk_crlf cb1 c1)
         | x \<Rightarrow> x))"

text \<open>One round: the size, and then the data.\<close>

definition chunk_round :: "nat \<Rightarrow> nat \<Rightarrow> string \<Rightarrow> http \<Rightarrow> chunk_step option option" where
  "chunk_round max_len n cb c =
     (case check_stop c of
        (stop, c1) \<Rightarrow>
          if stop then Some (Some (Ret HTTP_OK cb c1))
          else
            (case http_client_recv_chunked_size max_len n c1 of
               None \<Rightarrow> None
             | Some None \<Rightarrow> Some None
             | Some (Some (r, n1, c2)) \<Rightarrow>
                 if r \<noteq> HTTP_OK then Some (Some (Ret r cb c2))
                 else if ht_chunk_size c2 = 0 then Some (Some (Ret HTTP_OK cb c2))
                 else if ht_chunk_size c2 + 2 \<le> of_nat max_len then Some (small_chunk max_len n1 cb c2)
                 else large_chunk max_len n1 cb c2))"

partial_function (option) recv_chunk_loop ::
  "nat \<Rightarrow> nat \<Rightarrow> string \<Rightarrow> http \<Rightarrow> (e_http_result \<times> string \<times> http) option option" where
  "recv_chunk_loop max_len n cb c =
     (case chunk_round max_len n cb c of
        None \<Rightarrow> None
      | Some None \<Rightarrow> Some None
      | Some (Some (Ret r cb1 c1)) \<Rightarrow> Some (Some (r, cb1, c1))
      | Some (Some (Go_on n1 cb1 c1)) \<Rightarrow> recv_chunk_loop max_len n1 cb1 c1)"

declare recv_chunk_loop.simps [code]

text \<open>At the end the chunk buffer is handed on, with whatever it holds.\<close>

definition chunk_flush :: "e_http_result \<Rightarrow> string \<Rightarrow> http \<Rightarrow> http" where
  "chunk_flush r cb c = (if r = HTTP_OK then hand_on_counted cb (c\<lparr>ht_data_pos := DATA_MID\<rparr>) else c)"

definition http_client_recv_chunk :: "nat \<Rightarrow> nat \<Rightarrow> http \<Rightarrow> (e_http_result \<times> http) option option" where
  "http_client_recv_chunk max_len n c =
     (if max_len < n then Some (Some (HTTP_FAILED, sock_close c))
      else map_option (map_option (\<lambda>(r, cb, c1). (r, chunk_flush r cb c1))) (recv_chunk_loop max_len n [] c))"

section \<open>Plain content\<close>

lemma recv_loop_count: "recv_loop off m got c = Some (r, k, c') \<Longrightarrow> got \<le> m \<Longrightarrow> k \<le> m"
proof (induction off m got c arbitrary: r k c' rule: recv_loop.induct)
  case (1 off m got c)
  show ?case
  proof (cases "got < m")
    case False
    then show ?thesis using 1(2,3) by (subst (asm) recv_loop.simps) simp
  next
    case True
    obtain x c1 where x: "sock_recv (m - got) c = (x, c1)" by fastforce
    have "length d \<le> m - got" if "x = Some d" for d
      using x that by (auto simp: sock_recv_def read_events_length split: if_splits prod.splits)
    then show ?thesis
      using 1(2,3) x True 1(1)[OF True x[symmetric]]
      by (subst (asm) recv_loop.simps) (fastforce split: option.splits if_splits)
  qed
qed

lemma http_client_recv_count: "http_client_recv off m c = Some (r, k, c') \<Longrightarrow> k \<le> m"
  by (auto simp: http_client_recv_def split: option.splits dest: recv_loop_count)

text \<open>
  \<open>need\<close>: the bytes still to be received, \<open>n\<close>: those in the buffer that have not been handed on, and the
  result so far.
\<close>

function recv_content_loop ::
  "nat \<Rightarrow> e_http_result \<Rightarrow> nat \<Rightarrow> nat \<Rightarrow> http \<Rightarrow> (e_http_result \<times> http) option" where
  "recv_content_loop max_len res need n c =
     (if need = 0 \<and> n = 0 then Some (res, c)
      else
        (case check_stop c of
           (stop, c1) \<Rightarrow>
             if stop then Some (res, c1)
             else
               (case http_client_recv n (if need < max_len - n then need else max_len - n) c1 of
                  None \<Rightarrow> None
                | Some (r, k, c2) \<Rightarrow>
                    if n + k \<noteq> 0 \<and> \<not> ht_handler c2 then Some (HTTP_FAILED, c2)
                    else
                      (let c3 = (if n + k \<noteq> 0
                                 then (hand_on_counted (take (n + k) (ht_buf c2)) c2)\<lparr>ht_data_pos := DATA_MID\<rparr>
                                 else c2)
                       in if r \<noteq> HTTP_OK then Some (r, c3)
                          else if 0 < need - k \<and> n + k = 0 then Some (HTTP_FAILED, c3)
                          else recv_content_loop max_len r (need - k) 0 c3))))"
  by pat_completeness auto
termination
  by (relation "measure (\<lambda>(m, r, need, n, c). need + n)")
    (auto dest: http_client_recv_count split: if_splits)

declare recv_content_loop.simps [simp del]

definition http_client_recv_content_data :: "nat \<Rightarrow> nat \<Rightarrow> http \<Rightarrow> (e_http_result \<times> http) option" where
  "http_client_recv_content_data max_len n c =
     (let need = ht_content_len c - ht_recv_size c
      in if max_len < n \<or> need < of_nat n then Some (HTTP_FAILED, sock_close c)
         else recv_content_loop max_len HTTP_OK (unat need - n) n c)"

end
