(* ===== verification/HttpClient.thy ===== *)
theory HttpClient
  imports HttpRecv
begin

text \<open>
  A whole transfer of the HTTP client: connecting, with redirections, receiving the content, and
  resuming a transfer that broke off. The outer \<open>None\<close> is a transfer that does not return, the inner one a
  fault.
\<close>

section \<open>Redirections\<close>

text \<open>The result, and whether the new address is a relative one.\<close>

definition http_client_parse_redirect_location :: "string \<Rightarrow> http \<Rightarrow> e_http_result \<times> bool \<times> http" where
  "http_client_parse_redirect_location path c =
     (case ht_location c of
        None \<Rightarrow> (HTTP_PARSE, False, c)
      | Some loc \<Rightarrow>
          if take 1 loc = ''h'' then (HTTP_OK, False, c)
          else if take 1 loc = ''/'' then (HTTP_OK, True, c)
          else
            (let (ok, c1) = ht_malloc c
             in if ok then (HTTP_OK, True, c1\<lparr>ht_location := Some (redirect_path path loc)\<rparr>)
                else (HTTP_PARSE, True, c1)))"

section \<open>Connecting\<close>

text \<open>
  One pass of the loop: the connection stands (\<open>Done\<close> with a result and the bytes left in the buffer), or
  there is a new address to try. \<open>rv\<close> is the variable \<^verbatim>\<open>rev_len\<close>.
\<close>

datatype connect_step = Done e_http_result nat http | Redirect string bool nat http

definition exchange ::
  "e_http_meth \<Rightarrow> url_parts \<Rightarrow> nat \<Rightarrow> http \<Rightarrow> (e_http_result \<times> nat \<times> http) option option" where
  "exchange meth u rv c =
     (let (r1, c1) = http_client_send_request meth (ur_path u) (ur_host u) c
      in if r1 \<noteq> HTTP_OK then Some (Some (r1, rv, c1))
         else
           (case http_client_send_headers HC_CHUNK_SIZE c1 of
              None \<Rightarrow> Some None
            | Some (r2, c2) \<Rightarrow>
                if r2 \<noteq> HTTP_OK then Some (Some (r2, rv, c2))
                else
                  (case http_client_recv_rsp_and_parse HC_RSP_CHUNK_SIZE rv c2 of
                     None \<Rightarrow> Some None
                   | Some (r3, rv3, c3) \<Rightarrow>
                       if r3 \<noteq> HTTP_OK then Some (Some (r3, rv3, c3))
                       else http_client_recv_headers_and_parse HC_HEADER_CHUNK_SIZE rv3 c3)))"

definition open_and_connect :: "url_parts \<Rightarrow> http \<Rightarrow> int \<times> http" where
  "open_and_connect u c =
     (let c1 = (if ht_location c \<noteq> None \<or> ht_retry c \<noteq> 0 then sock_open c else c)
      in sock_connect (ur_host u) (if ur_port u = 0 then 80 else ur_port u) c1)"

definition connect_once ::
  "e_http_meth \<Rightarrow> string \<Rightarrow> bool \<Rightarrow> nat \<Rightarrow> http \<Rightarrow> connect_step option option" where
  "connect_once meth url is_relative rv c0 =
     (let (ok, c) = ht_malloc c0
      in if \<not> ok then Some (Some (Done HTTP_FAILED rv c))
         else
           (case http_client_parse_url url (length url + 1) is_relative of
              None \<Rightarrow> Some None
            | Some None \<Rightarrow> Some (Some (Done HTTP_FAILED rv c))
            | Some (Some u) \<Rightarrow>
                (let (r, c1) = open_and_connect u c
                 in if r < 0 then Some (Some (Done HTTP_CONN rv (sock_close c1)))
                    else
                      (case exchange meth u rv c1 of
                         None \<Rightarrow> None
                       | Some None \<Rightarrow> Some None
                       | Some (Some (r2, rv2, c2)) \<Rightarrow>
                           if r2 = HTTP_REDIRECTTION then
                             (let (r3, rel, c3) = http_client_parse_redirect_location (ur_path u) c2
                              in Some (Some (if r3 \<noteq> HTTP_OK then Done r3 rv2 c3
                                             else Redirect (the (ht_location c3)) rel rv2 c3)))
                           else if r2 \<noteq> HTTP_OK then Some (Some (Done r2 rv2 c2))
                           else Some (Some (Done HTTP_OK rv2
                                  (if ht_url_cb c2 then c2\<lparr>ht_urls := ht_urls c2 @ [url]\<rparr> else c2)))))))"

text \<open>
  The loop, with the number of passes left. After the last redirection the result is still that of
  parsing the new address, \<^verbatim>\<open>HTTP_OK\<close>.
\<close>

fun connect_loop ::
  "nat \<Rightarrow> e_http_meth \<Rightarrow> string \<Rightarrow> bool \<Rightarrow> nat \<Rightarrow> http \<Rightarrow> (e_http_result \<times> nat \<times> http) option option" where
  "connect_loop 0 meth url is_relative rv c = Some (Some (HTTP_OK, rv, c))"
| "connect_loop (Suc k) meth url is_relative rv c =
     (case connect_once meth url is_relative rv c of
        None \<Rightarrow> None
      | Some None \<Rightarrow> Some None
      | Some (Some (Done r rv1 c1)) \<Rightarrow> Some (Some (r, rv1, c1))
      | Some (Some (Redirect url1 rel rv1 c1)) \<Rightarrow> connect_loop k meth url1 rel rv1 c1)"

text \<open>\<open>rv\<close>: what the caller's variable holds when the host buffer cannot be allocated.\<close>

definition http_client_connect ::
  "string option \<Rightarrow> e_http_meth \<Rightarrow> nat \<Rightarrow> http \<Rightarrow> (e_http_result \<times> nat \<times> http) option option" where
  "http_client_connect url meth rv c0 =
     (let (ok, c) = ht_malloc c0
      in if \<not> ok then Some (Some (HTTP_PARSE, rv, c))
         else
           (case url of
              None \<Rightarrow> Some (Some (HTTP_FAILED, 0, c))
            | Some u \<Rightarrow> connect_loop (Suc HC_REDIRECTION_MAX) meth u False 0 c))"

section \<open>The content\<close>

definition duer_http_client_get_data :: "nat \<Rightarrow> http \<Rightarrow> (e_http_result \<times> http) option option" where
  "duer_http_client_get_data n c =
     map_option (map_option (\<lambda>(r, c1). (r, sock_close c1)))
       (if ht_chunked c then http_client_recv_chunk (HC_CHUNK_SIZE - 1) n c
        else Some (http_client_recv_content_data (HC_CHUNK_SIZE - 1) n c))"

section \<open>The transfer\<close>

text \<open>One attempt; the result says whether the code tries again (\<^verbatim>\<open>continue\<close>).\<close>

definition get_attempt ::
  "string option \<Rightarrow> e_http_result \<Rightarrow> nat \<Rightarrow> http \<Rightarrow> (bool \<times> e_http_result \<times> nat \<times> http) option option" where
  "get_attempt url ret rv c =
     (case check_stop c of
        (stop, c1) \<Rightarrow>
          if stop then Some (Some (False, ret, rv, c1))
          else
            (case http_client_connect url HTTP_GET rv c1 of
               None \<Rightarrow> None
             | Some None \<Rightarrow> Some None
             | Some (Some (r, rv1, c2)) \<Rightarrow>
                 if r = HTTP_CONN \<or> r = HTTP_TIMEOUT
                 then Some (Some (True, r, rv1, c2\<lparr>ht_retry := ht_retry c2 + 1\<rparr>))
                 else if r \<noteq> HTTP_OK then Some (Some (False, r, rv1, c2))
                 else
                   map_option (map_option (\<lambda>(r2, c3).
                       if r2 = HTTP_CONN \<or> r2 = HTTP_TIMEOUT
                       then (True, r2, rv1, c3\<lparr>ht_retry := ht_retry c3 + 1\<rparr>)
                       else (False, r2, rv1, c3)))
                     (duer_http_client_get_data rv1 c2)))"

text \<open>The loop counts \<^verbatim>\<open>resume_retry_count\<close> up from 0; \<open>k\<close> is the number of attempts left.\<close>

fun get_loop ::
  "nat \<Rightarrow> string option \<Rightarrow> e_http_result \<Rightarrow> nat \<Rightarrow> http \<Rightarrow> (e_http_result \<times> http) option option" where
  "get_loop 0 url ret rv c = Some (Some (ret, c))"
| "get_loop (Suc k) url ret rv c =
     (case get_attempt url ret rv c of
        None \<Rightarrow> None
      | Some None \<Rightarrow> Some None
      | Some (Some (again, r, rv1, c1)) \<Rightarrow> if again then get_loop k url r rv1 c1 else Some (Some (r, c1)))"

definition get_end :: "http \<Rightarrow> http" where
  "get_end c = (if ht_data_pos c \<noteq> DATA_FIRST \<and> ht_handler c then hand_on DATA_LAST [] c else c)"

text \<open>\<open>fresh\<close>: what is in the memory of the receive buffer when it is allocated.\<close>

definition duer_http_client_get ::
  "string \<Rightarrow> string option \<Rightarrow> u32 \<Rightarrow> http \<Rightarrow> (e_http_result \<times> http) option option" where
  "duer_http_client_get fresh url pos c0 =
     (let (ok, c) = ht_malloc (c0\<lparr>ht_data_pos := DATA_FIRST, ht_retry := 0, ht_recv_size := pos, ht_content_len := 0\<rparr>)
      in if \<not> ok then Some (Some (HTTP_FAILED, get_end c))
         else map_option (map_option (\<lambda>(r, c1). (r, (get_end c1)\<lparr>ht_buf := []\<rparr>)))
                (get_loop (Suc HC_MAX_RETRY_RESUME_COUNT) url HTTP_OK 0 (c\<lparr>ht_buf := fresh\<rparr>)))"

end
