(* ===== verification/HttpRead.thy ===== *)
theory HttpRead
  imports HttpClient
begin

text \<open>
  What receiving does, as seen from outside: the bytes that are still to come, in the buffer and on the
  way, stay the same, and only the buffer and the connection change.
\<close>

section \<open>What is on the way\<close>

text \<open>The bytes before the first error.\<close>

fun data_of :: "event list \<Rightarrow> string" where
  "data_of [] = []"
| "data_of (Err # es) = []"
| "data_of (Data d # es) = d @ data_of es"

definition fails :: "event list \<Rightarrow> bool" where "fails es \<longleftrightarrow> Err \<in> set es"

lemma fails_simps [simp]: "\<not> fails []" "fails (Err # es)" "fails (Data d # es) \<longleftrightarrow> fails es"
  by (auto simp: fails_def)

lemma read_events_spec:
  assumes "read_events n es = (x, es')" "0 < n"
  shows "case x of
      None \<Rightarrow> data_of es = [] \<and> fails es
    | Some d \<Rightarrow> data_of es = d @ data_of es' \<and> (fails es' \<longleftrightarrow> fails es) \<and> length d \<le> n \<and> (d = [] \<longrightarrow> es' = [] \<and> \<not> fails es)"
  using assms by (induction n es arbitrary: x es' rule: read_events.induct) (auto split: if_splits option.splits)

text \<open>
  The result of asking for \<open>m\<close> bytes when \<open>es\<close> is on the way: \<open>d\<close> has come and \<open>es'\<close> is left.
\<close>

definition recv_result :: "nat \<Rightarrow> event list \<Rightarrow> e_http_result \<Rightarrow> string \<Rightarrow> event list \<Rightarrow> bool" where
  "recv_result m es r d es' \<longleftrightarrow> length d \<le> m \<and>
     (r = HTTP_OK \<and> data_of es = d @ data_of es' \<and> (fails es' \<longleftrightarrow> fails es) \<and> (length d < m \<longrightarrow> es' = []) \<or>
      r = HTTP_CONN \<and> data_of es = d \<and> fails es)"

lemma recv_result_cons:
  "recv_result (m - length d) es1 r d' es' \<Longrightarrow> length d \<le> m \<Longrightarrow> data_of es = d @ data_of es1 \<Longrightarrow> (fails es1 \<longleftrightarrow> fails es)
   \<Longrightarrow> recv_result m es r (d @ d') es'"
  by (auto simp: recv_result_def)

lemma incoming_in [simp]: "incoming (c\<lparr>ht_in := Some es\<rparr>) = es" "incoming (c\<lparr>ht_buf := b\<rparr>) = incoming c"
  "incoming (c\<lparr>ht_in := i, ht_buf := b\<rparr>) = incoming (c\<lparr>ht_in := i\<rparr>)"
  "incoming (c\<lparr>ht_buf := b, ht_in := i\<rparr>) = incoming (c\<lparr>ht_in := i\<rparr>)"
  by (auto simp: incoming_def split: option.split)

lemma sock_recv_live:
  "ht_live c \<Longrightarrow> sock_recv m c = (fst (read_events m (incoming c)), c\<lparr>ht_in := Some (snd (read_events m (incoming c)))\<rparr>)"
  by (simp add: sock_recv_def split: prod.split)

lemma take_memput:
  "memput off d b = Some b' \<Longrightarrow> take (off + length d) b' = take off b @ d"
  by (auto simp: memput_def split: if_splits)

lemma memput_ok: "off + length d \<le> length b \<Longrightarrow> \<exists>b'. memput off d b = Some b'"
  by (simp add: memput_def)

lemma recv_loop_enough: "\<not> got < m \<Longrightarrow> recv_loop off m got c = Some (HTTP_OK, got, c)"
  by (subst recv_loop.simps) simp

lemma recv_loop_err:
  "got < m \<Longrightarrow> sock_recv (m - got) c = (None, c1) \<Longrightarrow> recv_loop off m got c = Some (HTTP_CONN, got, c1)"
  by (subst recv_loop.simps) simp

lemma recv_loop_end:
  "got < m \<Longrightarrow> sock_recv (m - got) c = (Some [], c1) \<Longrightarrow> recv_loop off m got c = Some (HTTP_OK, got, c1)"
  by (subst recv_loop.simps) simp

lemma recv_loop_data:
  "got < m \<Longrightarrow> sock_recv (m - got) c = (Some d, c1) \<Longrightarrow> d \<noteq> [] \<Longrightarrow> memput (off + got) d (ht_buf c1) = Some b \<Longrightarrow>
   recv_loop off m got c = recv_loop off m (got + length d) (c1\<lparr>ht_buf := b\<rparr>)"
  by (subst recv_loop.simps) simp

definition recv_post :: "nat \<Rightarrow> nat \<Rightarrow> nat \<Rightarrow> http \<Rightarrow> (e_http_result \<times> nat \<times> http) option \<Rightarrow> bool" where
  "recv_post off m got c y \<longleftrightarrow> (\<exists>r d i b. y = Some (r, got + length d, c\<lparr>ht_in := i, ht_buf := b\<rparr>) \<and>
     length b = 1025 \<and> take (off + got + length d) b = take (off + got) (ht_buf c) @ d \<and>
     recv_result (m - got) (incoming c) r d (incoming (c\<lparr>ht_in := i\<rparr>)))"

lemma recv_post_stop:
  assumes "length (ht_buf c) = 1025" "recv_result (m - got) (incoming c) r [] (incoming (c\<lparr>ht_in := i\<rparr>))"
  shows "recv_post off m got c (Some (r, got, c\<lparr>ht_in := i\<rparr>))"
  unfolding recv_post_def
proof (intro exI conjI)
  show "Some (r, got, c\<lparr>ht_in := i\<rparr>) = Some (r, got + length ([] :: string), c\<lparr>ht_in := i, ht_buf := ht_buf c\<rparr>)" by simp
qed (use assms in simp_all)

lemma recv_post_data:
  assumes "recv_post off m (got + length d) (c\<lparr>ht_in := Some es, ht_buf := b\<rparr>) y" "got + length d \<le> m"
    and "memput (off + got) d (ht_buf c) = Some b" "data_of (incoming c) = d @ data_of es" "fails es \<longleftrightarrow> fails (incoming c)"
  shows "recv_post off m got c y"
proof -
  let ?c = "c\<lparr>ht_in := Some es, ht_buf := b\<rparr>"
  obtain r d' i b' where y: "y = Some (r, got + length d + length d', ?c\<lparr>ht_in := i, ht_buf := b'\<rparr>)" "length b' = 1025"
    "take (off + (got + length d) + length d') b' = take (off + (got + length d)) (ht_buf ?c) @ d'"
    "recv_result (m - (got + length d)) (incoming ?c) r d' (incoming (?c\<lparr>ht_in := i\<rparr>))"
    using assms(1) unfolding recv_post_def by blast
  show ?thesis
    unfolding recv_post_def
  proof (intro exI conjI)
    show "y = Some (r, got + length (d @ d'), c\<lparr>ht_in := i, ht_buf := b'\<rparr>)" using y(1) by simp
    show "take (off + got + length (d @ d')) b' = take (off + got) (ht_buf c) @ d @ d'"
      using y(3) take_memput[OF assms(3)] by (simp add: add.assoc)
    show "recv_result (m - got) (incoming c) r (d @ d') (incoming (c\<lparr>ht_in := i\<rparr>))"
      using recv_result_cons[of "m - got" d] y(4) assms(2,4,5) by simp
  qed (rule y(2))
qed

lemma recv_loop_spec:
  assumes "ht_live c" "length (ht_buf c) = 1025" "off + m \<le> 1025" "got \<le> m"
  shows "recv_post off m got c (recv_loop off m got c)"
  using assms
proof (induction off m got c rule: recv_loop.induct)
  case (1 off m got c)
  note pr = "1.prems"
  show ?case
  proof (cases "got < m")
    case False
    have "recv_result (m - got) (incoming c) HTTP_OK [] (incoming (c\<lparr>ht_in := ht_in c\<rparr>))"
      using False by (simp add: recv_result_def)
    from recv_post_stop[OF pr(2) this] show ?thesis unfolding recv_loop_enough[OF False] by simp
  next
    case True
    obtain x es where x: "read_events (m - got) (incoming c) = (x, es)" by fastforce
    have pos: "0 < m - got" using True by simp
    have s: "sock_recv (m - got) c = (x, c\<lparr>ht_in := Some es\<rparr>)" using pr(1) x by (simp add: sock_recv_live)
    note ev = read_events_spec[OF x pos]
    consider "x = None" | "x = Some []" | d where "x = Some d" "d \<noteq> []" by (cases x) auto
    then show ?thesis
    proof cases
      case 1
      have "recv_result (m - got) (incoming c) HTTP_CONN [] (incoming (c\<lparr>ht_in := Some es\<rparr>))"
        using ev by (simp add: 1 recv_result_def)
      from recv_post_stop[OF pr(2) this] show ?thesis unfolding recv_loop_err[OF True s[unfolded 1]] .
    next
      case 2
      have "recv_result (m - got) (incoming c) HTTP_OK [] (incoming (c\<lparr>ht_in := Some es\<rparr>))"
        using ev by (simp add: 2 recv_result_def)
      from recv_post_stop[OF pr(2) this] show ?thesis unfolding recv_loop_end[OF True s[unfolded 2]] .
    next
      case (3 d)
      have e: "data_of (incoming c) = d @ data_of es" "fails es \<longleftrightarrow> fails (incoming c)" "length d \<le> m - got"
        using ev by (simp_all add: 3)
      have gm: "got + length d \<le> m" using e(3) True by linarith
      have "off + got + length d \<le> length (ht_buf c)" using gm pr(2,3) by linarith
      from memput_ok[OF this] obtain b where b: "memput (off + got) d (ht_buf c) = Some b" ..
      have b': "memput (off + got) d (ht_buf (c\<lparr>ht_in := Some es\<rparr>)) = Some b" using b by simp
      let ?c = "c\<lparr>ht_in := Some es\<rparr>\<lparr>ht_buf := b\<rparr>"
      have l: "ht_live ?c" "length (ht_buf ?c) = 1025" using pr(1,2) memput_length[OF b] by simp_all
      have ih: "recv_post off m (got + length d) ?c (recv_loop off m (got + length d) ?c)"
        by (rule "1.IH"[OF True s[symmetric] 3 b' l pr(3) gm])
      then show ?thesis
        unfolding recv_loop_data[OF True s[unfolded 3(1)] 3(2) b'] by (rule recv_post_data[OF _ gm b e(1,2)])
    qed
  qed
qed

text \<open>\<open>n\<close> bytes are in the buffer, with a zero behind them, and the socket is open.\<close>

definition holds :: "nat \<Rightarrow> http \<Rightarrow> bool" where
  "holds n c \<longleftrightarrow> ht_live c \<and> length (ht_buf c) = 1025 \<and> n \<le> 1024 \<and> ht_buf c ! n = NUL"

text \<open>Everything that is still to come.\<close>

definition ahead :: "nat \<Rightarrow> http \<Rightarrow> string" where
  "ahead n c = take n (ht_buf c) @ data_of (incoming c)"

lemma recv_spec:
  assumes "ht_live c" "length (ht_buf c) = 1025" "off + m \<le> 1024"
  obtains r d i b where
    "http_client_recv off m c = Some (r, length d, c\<lparr>ht_in := i, ht_buf := b\<rparr>)"
    "holds (off + length d) (c\<lparr>ht_in := i, ht_buf := b\<rparr>)"
    "take (off + length d) b = take off (ht_buf c) @ d"
    "recv_result m (incoming c) r d (incoming (c\<lparr>ht_in := i\<rparr>))"
proof -
  obtain r d i b where 1: "recv_loop off m 0 c = Some (r, length d, c\<lparr>ht_in := i, ht_buf := b\<rparr>)"
    "length b = 1025" "take (off + length d) b = take off (ht_buf c) @ d"
    "recv_result m (incoming c) r d (incoming (c\<lparr>ht_in := i\<rparr>))"
    using recv_loop_spec[of c off m 0] assms unfolding recv_post_def by auto
  have ld: "off + length d \<le> 1024" using 1(4) assms(3) by (simp add: recv_result_def)
  then have "memput (off + length d) [NUL] b = Some (b[off + length d := NUL])"
    using 1(2) by (simp add: memput_def upd_conv_take_nth_drop)
  then have "http_client_recv off m c = Some (r, length d, c\<lparr>ht_in := i, ht_buf := b[off + length d := NUL]\<rparr>)"
    using 1(1) by (simp add: http_client_recv_def)
  then show thesis using that 1 ld assms(1) by (simp add: holds_def)
qed

lemma recv_ahead:
  assumes "recv_result m (incoming c) HTTP_OK d (incoming (c\<lparr>ht_in := i\<rparr>))" "take (off + length d) b = take off (ht_buf c) @ d"
  shows "ahead (off + length d) (c\<lparr>ht_in := i, ht_buf := b\<rparr>) = ahead off c"
  using assms by (simp add: ahead_def recv_result_def)

section \<open>The front of the buffer\<close>

lemma shift_ok:
  assumes "length b = 1025" "n \<le> 1024" "k \<le> n" "b ! n = NUL"
  shows "\<exists>b'. buf_shift k (n - k + 1) b = Some b' \<and> length b' = 1025 \<and> take (n - k) b' = drop k (take n b) \<and> b' ! (n - k) = NUL"
proof -
  let ?x = "take (n - k + 1) (drop k b)"
  have lx: "length ?x = n - k + 1" using assms by simp
  have "memget k (n - k + 1) b = Some ?x" using assms by (simp add: memget_def)
  moreover have "memput 0 ?x b = Some (?x @ drop (length ?x) b)" using lx assms by (intro memput_0) simp
  ultimately have "buf_shift k (n - k + 1) b = Some (?x @ drop (length ?x) b)" by (simp add: buf_shift_def)
  moreover have "take (n - k) (?x @ drop (length ?x) b) = drop k (take n b)"
    using lx assms(3) by (simp add: drop_take)
  moreover have "(?x @ drop (length ?x) b) ! (n - k) = NUL" using assms by (simp add: nth_append)
  moreover have "length (?x @ drop (length ?x) b) = 1025" using assms by simp
  ultimately show ?thesis by blast
qed

lemma cstr_holds: "holds n c \<Longrightarrow> cstr (ht_buf c) = cstr (take n (ht_buf c))"
proof -
  assume h: "holds n c"
  have "ht_buf c = take n (ht_buf c) @ NUL # drop (Suc n) (ht_buf c)"
    using h id_take_nth_drop[of n "ht_buf c"] by (simp add: holds_def)
  then have "cstr (ht_buf c) = cstr (take n (ht_buf c) @ NUL # drop (Suc n) (ht_buf c))" by simp
  also have "\<dots> = cstr (take n (ht_buf c))" unfolding cstr_def by (induction "take n (ht_buf c)") (auto simp: takeWhile_tail)
  finally show ?thesis .
qed

end
