(* ===== verification/HttpHead.thy ===== *)
theory HttpHead
  imports HttpRead
begin

text \<open>
  The head of a response: whatever pieces it arrives in, the headers take effect one after the other
  and what follows them is left in place. When the connection ends inside the head, the loop does not.
\<close>

section \<open>Heads\<close>

abbreviation CL :: string where "CL \<equiv> ''Content-Length''"
abbreviation TE :: string where "TE \<equiv> ''Transfer-Encoding''"

text \<open>A header as it should be: no control characters, one space, and room for its line.\<close>

definition good_header :: "string \<times> string \<Rightarrow> bool" where
  "good_header = (\<lambda>(k, v). set k \<inter> {CHR '':'', LF, NUL} = {} \<and> set v \<inter> {LF, NUL} = {} \<and> take 1 v \<noteq> '' '' \<and>
     length k + length v \<le> 508)"

definition head_text :: "(string \<times> string) list \<Rightarrow> string" where
  "head_text hs = concat (map header_line hs) @ CRLF"

text \<open>Headers that do not redirect, and all announce the same length.\<close>

definition good_head :: "nat \<Rightarrow> (string \<times> string) list \<Rightarrow> bool" where
  "good_head len hs \<longleftrightarrow> len < 2 ^ 31 \<and>
     (\<forall>(k, v) \<in> set hs. good_header (k, v) \<and> k \<noteq> ''Location'' \<and> (k = CL \<longrightarrow> v = dec len))"

definition says_chunked :: "(string \<times> string) list \<Rightarrow> bool" where
  "says_chunked hs \<longleftrightarrow> (TE, ''chunked'') \<in> set hs \<or> (TE, ''Chunked'') \<in> set hs"

text \<open>What a head leaves alone: all but the buffer, the connection and what headers set.\<close>

definition rest :: "http \<Rightarrow> http" where
  "rest c = c\<lparr>ht_code := 0, ht_content_len := 0, ht_content_type := [], ht_chunked := False, ht_chunk_buf := False,
     ht_in := None, ht_buf := []\<rparr>"

definition after_head :: "nat \<Rightarrow> (string \<times> string) list \<Rightarrow> http \<Rightarrow> http \<Rightarrow> bool" where
  "after_head len hs c c' \<longleftrightarrow> rest c' = rest c \<and>
     ht_content_len c' = (if CL \<in> fst ` set hs then of_nat len + ht_recv_size c else ht_content_len c) \<and>
     ht_chunked c' = (ht_chunked c \<or> says_chunked hs)"

lemma rest_io [simp]: "rest (c\<lparr>ht_in := i, ht_buf := b\<rparr>) = rest c" "rest (c\<lparr>ht_buf := b\<rparr>) = rest c"
  "rest (c\<lparr>ht_in := i\<rparr>) = rest c"
  by (simp_all add: rest_def)

lemma rest_fields:
  assumes "rest c = rest d"
  shows "ht_handler c = ht_handler d" "ht_location c = ht_location d" "ht_stops c = ht_stops d"
    "ht_recv_size c = ht_recv_size d" "ht_retry c = ht_retry d" "ht_data_pos c = ht_data_pos d" "ht_live c = ht_live d"
    "ht_peer c = ht_peer d" "ht_sent c = ht_sent d" "ht_peers c = ht_peers d" "ht_opens c = ht_opens d"
    "ht_sends c = ht_sends d" "ht_out c = ht_out d" "ht_mem c = ht_mem d" "ht_headers c = ht_headers d"
    "ht_url_cb c = ht_url_cb d"
  using arg_cong[OF assms, of ht_handler]
    arg_cong[OF assms, of ht_location]
    arg_cong[OF assms, of ht_stops]
    arg_cong[OF assms, of ht_recv_size]
    arg_cong[OF assms, of ht_retry]
    arg_cong[OF assms, of ht_data_pos]
    arg_cong[OF assms, of ht_live]
    arg_cong[OF assms, of ht_peer]
    arg_cong[OF assms, of ht_sent]
    arg_cong[OF assms, of ht_peers]
    arg_cong[OF assms, of ht_opens]
    arg_cong[OF assms, of ht_sends]
    arg_cong[OF assms, of ht_out]
    arg_cong[OF assms, of ht_mem]
    arg_cong[OF assms, of ht_headers]
    arg_cong[OF assms, of ht_url_cb]
  by (simp_all add: rest_def)

lemma after_head_refl: "rest c' = rest c \<Longrightarrow> ht_content_len c' = ht_content_len c \<Longrightarrow> ht_chunked c' = ht_chunked c \<Longrightarrow>
  after_head len [] c c'"
  by (simp add: after_head_def says_chunked_def)

lemma after_head_Cons:
  "after_head len [h] c c1 \<Longrightarrow> after_head len hs c1 c2 \<Longrightarrow> after_head len (h # hs) c c2"
  by (auto simp: after_head_def says_chunked_def dest: rest_fields(4))

lemma strncmp_eq_iff: "length a < n \<Longrightarrow> length b < n \<Longrightarrow> strncmp_eq n a b \<longleftrightarrow> a = b"
  by (auto simp: strncmp_eq_def)

section \<open>One header\<close>

lemma take_header_good:
  assumes "good_head len [(k, v)]" "ht_mem c = []" "fits_int cl"
  shows "\<exists>cl' c'. take_header 512 (length k + 2) k v cl c = Some (HTTP_OK, cl', c') \<and> fits_int cl' \<and>
      after_head len [(k, v)] c c' \<and> ht_buf c' = ht_buf c \<and> incoming c' = incoming c"
proof -
  have h: "length k + length v \<le> 508" "k \<noteq> ''Location''" "k = CL \<longrightarrow> v = dec len" "len < 2 ^ 31"
    using assms(1) by (auto simp: good_head_def good_header_def)
  note d = take_header_def strncmp_eq_iff after_head_def says_chunked_def rest_def incoming_def
  consider "k = CL" | "k = TE" | "k = ''Content-Type''" | "k \<noteq> CL" "k \<noteq> TE" "k \<noteq> ''Content-Type''" by blast
  then show ?thesis
  proof cases
    case 1
    have "scan_d v = Some (int len, [])" using scan_d_dec[of "[]" len] 1 h(3) by simp
    moreover have "fits_int (int len)" using h(4) by (simp add: fits_int_def)
    ultimately show ?thesis using 1 by (simp add: d http_client_set_content_len_def split: option.split)
  next
    case 2
    then show ?thesis using assms(2,3) h(1) by (auto simp: d ht_malloc_def split: option.split)
  next
    case 3
    then show ?thesis using assms(3) by (simp add: d http_client_set_content_type_def split: option.split)
  next
    case 4
    then show ?thesis using assms(3) h(1,2) by (simp add: d)
  qed
qed

lemma take_memput_NUL: "memput p [NUL] b = Some b' \<Longrightarrow> b' = b[p := NUL]"
  by (auto simp: memput_def upd_conv_take_nth_drop split: if_splits)

lemma memput_NUL: "p < length b \<Longrightarrow> memput p [NUL] b = Some (b[p := NUL])"
  by (simp add: memput_def upd_conv_take_nth_drop)

lemma cstr_drop_update:
  assumes "length b = 1025" "take p b = x @ s" "p < length b" "NUL \<notin> set s" "q = length x"
  shows "cstr (drop q (b[p := NUL])) = s"
proof -
  have "length (x @ s) = p" using assms(2,3) by (metis length_take min.absorb4)
  then have "drop q (b[p := NUL]) = s @ NUL # drop (Suc p) b"
    using assms by (simp add: upd_conv_take_nth_drop)
  then show ?thesis using assms(4) by (simp add: cstr_append)
qed

lemma parse_good_line:
  assumes "good_head len [(k, v)]" "ht_mem c = []" "fits_int cl" "length (ht_buf c) = 1025" "p = length k + 2 + length v"
    and "take p (ht_buf c) = k @ '': '' @ v"
  shows "\<exists>cl' c'. parse_header_line 512 p cl c = Some (HTTP_OK, cl', c') \<and> fits_int cl' \<and> after_head len [(k, v)] c c' \<and>
      length (ht_buf c') = 1025 \<and> drop (Suc p) (ht_buf c') = drop (Suc p) (ht_buf c) \<and> incoming c' = incoming c"
proof -
  have g: "CHR '':'' \<notin> set k" "NUL \<notin> set k" "NUL \<notin> set v" "take 1 v \<noteq> '' ''" "length k + length v \<le> 508"
    using assms(1) by (auto simp: good_head_def good_header_def)
  have p: "p < 1025" using g(5) assms(5) by simp
  let ?b = "(ht_buf c)[p := NUL]"
  let ?b1 = "?b[length k := NUL]"
  have b: "memput p [NUL] (ht_buf c) = Some ?b" "memput (length k) [NUL] ?b = Some ?b1"
    using p assms(4,5) by (simp_all add: memput_NUL)
  have tk: "take p ?b = k @ CHR '':'' # '' '' @ v" using assms(6) by simp
  have i: "strchr (CHR '':'') (take p (ht_buf c)) = Some (length k)"
    using strchr_hit[OF g(1), of "'' '' @ v"] by (simp add: assms(6))
  have "take (length k) ?b = take (length k) (take p ?b)" using assms(5) by simp
  then have "take (length k) ?b = [] @ k" unfolding tk by simp
  then have key: "cstr ?b1 = k" using cstr_drop_update[of ?b "length k" "[]" k 0] p assms(4,5) g(2) by simp
  have sw: "?b1 = (ht_buf c)[length k := NUL, p := NUL]" using assms(5) by (simp add: list_update_swap)
  have "take p ((ht_buf c)[length k := NUL]) = (k @ '': '' @ v)[length k := NUL]" by (simp add: take_update_swap assms(6))
  also have "\<dots> = (k @ [NUL]) @ '' '' @ v" by (simp add: list_update_append)
  finally have raw: "cstr (drop (length k + 1) ?b1) = '' '' @ v"
    unfolding sw by (intro cstr_drop_update) (use p assms(4) g(3) in auto)
  have "dropWhile (\<lambda>ch. ch = CHR '' '') ('' '' @ v) = v" using g(4) by (cases v) auto
  moreover obtain cl' c' where th: "take_header 512 (length k + 2) k v cl (c\<lparr>ht_buf := ?b1\<rparr>) = Some (HTTP_OK, cl', c')"
    "fits_int cl'" "after_head len [(k, v)] (c\<lparr>ht_buf := ?b1\<rparr>) c'" "ht_buf c' = ?b1" "incoming c' = incoming (c\<lparr>ht_buf := ?b1\<rparr>)"
    using take_header_good[OF assms(1), of "c\<lparr>ht_buf := ?b1\<rparr>" cl] assms(2,3) by auto
  ultimately have "parse_header_line 512 p cl c = Some (HTTP_OK, cl', c')"
    using key raw by (simp add: parse_header_line_def b i Let_def)
  moreover have "after_head len [(k, v)] c c'" using th(3) by (simp add: after_head_def)
  moreover have "drop (Suc p) ?b1 = drop (Suc p) (ht_buf c)" using assms(5) by simp
  ultimately show ?thesis using th assms(4) by simp
qed

section \<open>One pass of the loop\<close>

lemma first_line:
  assumes "holds n c" "prefix (take n (ht_buf c)) (ln @ CRLF @ w)" "LF \<notin> set ln" "NUL \<notin> set ln"
  shows "strstr CRLF (cstr (ht_buf c)) = (if length ln + 2 \<le> n then Some (length ln) else None)"
proof (cases "length ln + 2 \<le> n")
  case True
  obtain t where t: "ln @ CRLF @ w = take n (ht_buf c) @ t" using assms(2) by (auto simp: prefix_def)
  have "n \<le> length (ht_buf c)" using assms(1) by (simp add: holds_def)
  then have "take n (ht_buf c) = take n (ln @ CRLF @ w)" unfolding t by simp
  also have "\<dots> = (ln @ CRLF) @ take (n - (length ln + 2)) w" using True by (auto simp: le_iff_add)
  finally have "cstr (ht_buf c) = ln @ CR # LF # cstr (take (n - (length ln + 2)) w)"
    unfolding cstr_holds[OF assms(1)] using assms(4) by (simp add: cstr_append)
  then show ?thesis using True by (simp add: strstr_CRLF[OF assms(3)])
next
  case False
  let ?x = "take n (ht_buf c)"
  have "length ?x \<le> length (ln @ [CR])" using False by simp
  moreover have "prefix ?x ((ln @ [CR]) @ LF # w)" using assms(2) by simp
  ultimately have "prefix ?x (ln @ [CR])" using prefix_length_prefix[of ?x "(ln @ [CR]) @ LF # w" "ln @ [CR]"] by simp
  then have "LF \<notin> set ?x" using set_mono_prefix[of ?x "ln @ [CR]"] assms(3) by auto
  then have "LF \<notin> set (cstr (ht_buf c))" using set_cstr[of ?x] by (auto simp: cstr_holds[OF assms(1)])
  then show ?thesis using False by (simp add: strstr_CRLF_None)
qed

lemma line_step:
  assumes "holds n c" "take n (ht_buf c) = header_line (k, v) @ t" "good_head len [(k, v)]" "ht_mem c = []" "fits_int cl"
  shows "\<exists>cl' c1 b. parse_header_line 512 (length k + 2 + length v) cl c = Some (HTTP_OK, cl', c1) \<and> fits_int cl' \<and>
     buf_shift (length k + 2 + length v + 2) (n - (length k + 2 + length v + 2) + 1) (ht_buf c1) = Some b \<and>
     holds (length t) (c1\<lparr>ht_buf := b\<rparr>) \<and> take (length t) b = t \<and> n - (length k + 2 + length v + 2) = length t \<and>
     after_head len [(k, v)] c (c1\<lparr>ht_buf := b\<rparr>) \<and> incoming c1 = incoming c"
proof -
  let ?p = "length k + 2 + length v"
  have l: "length (ht_buf c) = 1025" "n \<le> 1024" "ht_buf c ! n = NUL" "ht_live c" using assms(1) by (auto simp: holds_def)
  have n: "n = ?p + 2 + length t" using arg_cong[OF assms(2), of length] l(1,2) by (simp add: header_line_def)
  have "take ?p (ht_buf c) = take ?p (take n (ht_buf c))" using n by simp
  also have "\<dots> = k @ '': '' @ v" unfolding assms(2) by (simp add: header_line_def)
  finally obtain cl' c1 where c1: "parse_header_line 512 ?p cl c = Some (HTTP_OK, cl', c1)" "fits_int cl'"
    "after_head len [(k, v)] c c1" "length (ht_buf c1) = 1025" "drop (Suc ?p) (ht_buf c1) = drop (Suc ?p) (ht_buf c)"
    "incoming c1 = incoming c"
    using parse_good_line[OF assms(3-5) l(1) refl] by blast
  have eq: "drop (?p + 2) (ht_buf c1) = drop (?p + 2) (ht_buf c)"
    using arg_cong[OF c1(5), of "drop 1"] by (simp add: add.commute)
  have "ht_buf c1 ! n = ht_buf c ! n"
    using arg_cong[OF eq, of "\<lambda>x. x ! length t"] n l(1,2) c1(4) by (simp add: add.assoc)
  then obtain b where b: "buf_shift (?p + 2) (n - (?p + 2) + 1) (ht_buf c1) = Some b" "length b = 1025"
    "take (n - (?p + 2)) b = drop (?p + 2) (take n (ht_buf c1))" "b ! (n - (?p + 2)) = NUL"
    using shift_ok[of "ht_buf c1" n "?p + 2"] c1(4) l n by auto
  have "drop (?p + 2) (take n (ht_buf c1)) = take (n - (?p + 2)) (drop (?p + 2) (ht_buf c))" using eq by (simp add: drop_take)
  also have "\<dots> = drop (?p + 2) (header_line (k, v) @ t)" 
    using arg_cong[OF assms(2), of "drop (?p + 2)"] by (simp add: drop_take del: drop_append)
  also have "length (header_line (k, v)) = ?p + 2" by (simp add: header_line_def)
  then have "drop (?p + 2) (header_line (k, v) @ t) = t" by simp
  finally have t: "take (length t) b = t" using b(3) n by simp
  have live: "ht_live c1" using c1(3) rest_fields(7)[of c1 c] l(4) by (simp add: after_head_def)
  have "after_head len [(k, v)] c (c1\<lparr>ht_buf := b\<rparr>)" using c1(3) by (simp add: after_head_def)
  then show ?thesis using c1 b t n live l by (auto simp: holds_def)
qed

lemma end_step:
  assumes "holds n c" "take n (ht_buf c) = CRLF @ t"
  shows "\<exists>b. buf_shift 2 (n - 2 + 1) (ht_buf c) = Some b \<and> holds (length t) (c\<lparr>ht_buf := b\<rparr>) \<and> take (length t) b = t \<and> n - 2 = length t"
proof -
  have l: "length (ht_buf c) = 1025" "n \<le> 1024" "ht_buf c ! n = NUL" "ht_live c" using assms(1) by (auto simp: holds_def)
  have n: "n = 2 + length t" using arg_cong[OF assms(2), of length] l(1,2) by simp
  obtain b where "buf_shift 2 (n - 2 + 1) (ht_buf c) = Some b" "length b = 1025"
    "take (n - 2) b = drop 2 (take n (ht_buf c))" "b ! (n - 2) = NUL"
    using shift_ok[of "ht_buf c" n 2] l n by auto
  then show ?thesis using assms(2) l n by (simp add: holds_def)
qed

section \<open>One pass of the loop, with what is on the way\<close>

lemma recv_more:
  assumes "holds n c" "n \<le> m" "m \<le> 1024"
  obtains r and d :: string and i b where
    "http_client_recv n (m - n) c = Some (r, length d, c\<lparr>ht_in := i, ht_buf := b\<rparr>)"
    "holds (n + length d) (c\<lparr>ht_in := i, ht_buf := b\<rparr>)" "n + length d \<le> m"
    "r = HTTP_OK \<and> ahead (n + length d) (c\<lparr>ht_in := i, ht_buf := b\<rparr>) = ahead n c \<and>
       (fails (incoming (c\<lparr>ht_in := i\<rparr>)) \<longleftrightarrow> fails (incoming c)) \<and>
       (n + length d < m \<longrightarrow> incoming (c\<lparr>ht_in := i\<rparr>) = []) \<or>
     r = HTTP_CONN \<and> fails (incoming c)"
proof -
  have "ht_live c" "length (ht_buf c) = 1025" "n + (m - n) \<le> 1024" using assms by (auto simp: holds_def)
  then obtain r d i b where h: "http_client_recv n (m - n) c = Some (r, length d, c\<lparr>ht_in := i, ht_buf := b\<rparr>)"
    "holds (n + length d) (c\<lparr>ht_in := i, ht_buf := b\<rparr>)" "take (n + length d) b = take n (ht_buf c) @ d"
    "recv_result (m - n) (incoming c) r d (incoming (c\<lparr>ht_in := i\<rparr>))"
    by (rule recv_spec)
  have nd: "n + length d \<le> m" using h(4) assms(2) by (auto simp: recv_result_def)
  consider "r = HTTP_OK" | "r = HTTP_CONN" using h(4) by (auto simp: recv_result_def)
  then show thesis
  proof cases
    case 1
    have "ahead (n + length d) (c\<lparr>ht_in := i, ht_buf := b\<rparr>) = ahead n c"
      using recv_ahead[OF _ h(3)] h(4) 1 by simp
    then show thesis using that[OF h(1,2) nd] h(4) 1 by (auto simp: recv_result_def)
  next
    case 2
    then show thesis using that[OF h(1,2) nd] h(4) by (auto simp: recv_result_def)
  qed
qed

lemma finish_pass:
  assumes "holds n c" "prefix (take n (ht_buf c)) (CRLF @ body)" "2 \<le> n"
  shows "\<exists>b. strstr CRLF (cstr (ht_buf c)) = Some 0 \<and> buf_shift 2 (n - 2 + 1) (ht_buf c) = Some b \<and>
      holds (n - 2) (c\<lparr>ht_buf := b\<rparr>) \<and> ahead n c = CRLF @ ahead (n - 2) (c\<lparr>ht_buf := b\<rparr>)"
proof -
  have "length (take n (ht_buf c)) = n" using assms(1) by (simp add: holds_def)
  then have "prefix CRLF (take n (ht_buf c))"
    using assms(2,3) prefix_length_prefix[of CRLF "CRLF @ body" "take n (ht_buf c)"] by simp
  then obtain t where t: "take n (ht_buf c) = CRLF @ t" by (auto simp only: prefix_def)
  obtain b where b: "buf_shift 2 (n - 2 + 1) (ht_buf c) = Some b" "holds (length t) (c\<lparr>ht_buf := b\<rparr>)" "take (length t) b = t"
    "n - 2 = length t" using end_step[OF assms(1) t] by blast
  have "strstr CRLF (cstr (ht_buf c)) = Some 0" using first_line[OF assms(1), of "[]" body] assms(2,3) by simp
  moreover have "ahead n c = CRLF @ ahead (n - 2) (c\<lparr>ht_buf := b\<rparr>)" by (simp add: ahead_def t b(3,4))
  ultimately show ?thesis using b by auto
qed

lemma header_pass:
  assumes "holds n c" "good_head len [(k, v)]" "ht_mem c = []" "fits_int cl"
    and "prefix (take n (ht_buf c)) (header_line (k, v) @ w)" "p = length k + 2 + length v" "p + 2 \<le> n"
  shows "\<exists>cl1 c1 b. strstr CRLF (cstr (ht_buf c)) = Some p \<and> parse_header_line 512 p cl c = Some (HTTP_OK, cl1, c1) \<and>
      fits_int cl1 \<and> buf_shift (p + 2) (n - (p + 2) + 1) (ht_buf c1) = Some b \<and> holds (n - (p + 2)) (c1\<lparr>ht_buf := b\<rparr>) \<and>
      ahead n c = header_line (k, v) @ ahead (n - (p + 2)) (c1\<lparr>ht_buf := b\<rparr>) \<and>
      after_head len [(k, v)] c (c1\<lparr>ht_buf := b\<rparr>) \<and> incoming c1 = incoming c"
proof -
  have g: "LF \<notin> set (k @ '': '' @ v)" "NUL \<notin> set (k @ '': '' @ v)"
    using assms(2) by (auto simp: good_head_def good_header_def)
  have ln: "length (take n (ht_buf c)) = n" "length (header_line (k, v)) = p + 2"
    using assms(1,6) by (auto simp: holds_def header_line_def)
  then have "prefix (header_line (k, v)) (take n (ht_buf c))"
    using assms(5,7) prefix_length_prefix[of "header_line (k, v)" "header_line (k, v) @ w" "take n (ht_buf c)"] by simp
  then obtain t where t: "take n (ht_buf c) = header_line (k, v) @ t" by (auto simp only: prefix_def)
  obtain cl1 c1 b where s: "parse_header_line 512 p cl c = Some (HTTP_OK, cl1, c1)" "fits_int cl1"
      "buf_shift (p + 2) (n - (p + 2) + 1) (ht_buf c1) = Some b" "holds (length t) (c1\<lparr>ht_buf := b\<rparr>)"
      "take (length t) b = t" "n - (p + 2) = length t" "after_head len [(k, v)] c (c1\<lparr>ht_buf := b\<rparr>)" "incoming c1 = incoming c"
    using line_step[OF assms(1) t assms(2-4)] assms(6) by blast
  have pre: "prefix (take n (ht_buf c)) ((k @ '': '' @ v) @ CRLF @ w)" using assms(5) by (simp add: header_line_def)
  have "strstr CRLF (cstr (ht_buf c)) = Some p"
    using first_line[OF assms(1) pre g] assms(6,7) by simp
  moreover have "ahead n c = header_line (k, v) @ ahead (n - (p + 2)) (c1\<lparr>ht_buf := b\<rparr>)"
    by (simp only: ahead_def t s(6)) (simp add: s(5,8))
  ultimately show ?thesis using s by auto
qed

lemma incomplete_pass:
  assumes "holds n c" "prefix (take n (ht_buf c)) (ln @ CRLF @ w)" "LF \<notin> set ln" "NUL \<notin> set ln" "n < length ln + 2"
  shows "strstr CRLF (cstr (ht_buf c)) = None"
  using first_line[OF assms(1-4)] assms(5) by simp

lemma head_pass:
  assumes "holds n c" "good_head len hs" "ht_mem c = []" "fits_int cl" "prefix (ahead n c) (head_text hs @ body)"
  obtains
    (incomplete) "strstr CRLF (cstr (ht_buf c)) = None" "n < 512" "n < length (head_text hs)"
  | (finish) b where "hs = []" "strstr CRLF (cstr (ht_buf c)) = Some 0" "buf_shift 2 (n - 2 + 1) (ht_buf c) = Some b"
      "holds (n - 2) (c\<lparr>ht_buf := b\<rparr>)" "ahead n c = CRLF @ ahead (n - 2) (c\<lparr>ht_buf := b\<rparr>)" "2 \<le> n"
  | (header) k v hs1 p cl1 c1 b where "hs = (k, v) # hs1" "strstr CRLF (cstr (ht_buf c)) = Some p" "p \<noteq> 0"
      "parse_header_line 512 p cl c = Some (HTTP_OK, cl1, c1)" "fits_int cl1"
      "buf_shift (p + 2) (n - (p + 2) + 1) (ht_buf c1) = Some b" "holds (n - (p + 2)) (c1\<lparr>ht_buf := b\<rparr>)"
      "ahead n c = header_line (k, v) @ ahead (n - (p + 2)) (c1\<lparr>ht_buf := b\<rparr>)" "p + 2 \<le> n"
      "after_head len [(k, v)] c (c1\<lparr>ht_buf := b\<rparr>)" "incoming c1 = incoming c"
proof (cases hs)
  case Nil
  have pre: "prefix (take n (ht_buf c)) (CRLF @ body)"
    using assms(5) append_prefixD[of "take n (ht_buf c)"] by (simp add: ahead_def Nil head_text_def)
  show thesis
  proof (cases "2 \<le> n")
    case False
    then show thesis using incomplete incomplete_pass[OF assms(1), of "[]" body] pre by (simp add: Nil head_text_def)
  next
    case True
    from finish_pass[OF assms(1) pre True] show thesis using finish[OF Nil] True by blast
  qed
next
  case (Cons h hs1)
  obtain k v where h: "h = (k, v)" by (cases h)
  have g: "good_head len [(k, v)]" "LF \<notin> set (k @ '': '' @ v)" "NUL \<notin> set (k @ '': '' @ v)" "length k + length v \<le> 508"
    using assms(2) by (auto simp: good_head_def good_header_def Cons h)
  have pre: "prefix (take n (ht_buf c)) (header_line (k, v) @ head_text hs1 @ body)"
    using assms(5) append_prefixD[of "take n (ht_buf c)"] by (simp add: ahead_def Cons h head_text_def)
  define p where "p = length k + 2 + length v"
  show thesis
  proof (cases "p + 2 \<le> n")
    case False
    have "strstr CRLF (cstr (ht_buf c)) = None"
      by (rule incomplete_pass[OF assms(1) _ g(2,3), of "head_text hs1 @ body"])
        (use pre False in \<open>simp_all add: header_line_def p_def\<close>)
    then show thesis using incomplete False g(4) by (simp add: p_def Cons h head_text_def header_line_def)
  next
    case True
    have "p \<noteq> 0" by (simp add: p_def)
    with header_pass[OF assms(1) g(1) assms(3,4) pre p_def True] show thesis
      using header[OF Cons[unfolded h], of p] True by blast
  qed
qed

section \<open>The loop\<close>

lemma rest_close: "rest c = rest d \<Longrightarrow> rest (sock_close c) = rest (sock_close d)"
proof -
  assume a: "rest c = rest d"
  have "rest (sock_close c) = sock_close (rest c)" for c by (simp add: rest_def sock_close_def)
  then show ?thesis using a by simp
qed

text \<open>What the loop comes to: the connection failed, or the headers have taken effect.\<close>

definition head_result :: "nat \<Rightarrow> (string \<times> string) list \<Rightarrow> nat \<Rightarrow> http \<Rightarrow> (e_http_result \<times> nat \<times> http) option \<Rightarrow> bool" where
  "head_result len hs n c y \<longleftrightarrow> (\<exists>r n' c'. y = Some (r, n', c') \<and>
    (r = HTTP_CONN \<and> fails (incoming c) \<and> rest c' = rest (sock_close c) \<and> length (ht_buf c') = 1025 \<or>
     r = HTTP_OK \<and> after_head len hs c c' \<and> holds n' c' \<and> n' \<le> 512 \<and> ahead n c = head_text hs @ ahead n' c' \<and>
       (fails (incoming c') \<longleftrightarrow> fails (incoming c))))"

lemma head_result_more:
  assumes "head_result len hs n' c' y" "rest c' = rest c" "ahead n' c' = ahead n c" "fails (incoming c') \<longleftrightarrow> fails (incoming c)"
    and "ht_content_len c' = ht_content_len c" "ht_chunked c' = ht_chunked c"
  shows "head_result len hs n c y"
  using assms rest_close[OF assms(2)] rest_fields(4)[OF assms(2)] unfolding head_result_def after_head_def
  by (elim exE conjE disjE) simp_all

lemma head_result_header:
  assumes "head_result len hs n' c' y" "after_head len [h] c c'" "ahead n c = header_line h @ ahead n' c'"
    and "fails (incoming c') \<longleftrightarrow> fails (incoming c)"
  shows "head_result len (h # hs) n c y"
proof -
  have "rest c' = rest c" using assms(2) by (simp add: after_head_def)
  from rest_close[OF this] show ?thesis
    using assms after_head_Cons[OF assms(2)] unfolding head_result_def by (auto simp: head_text_def)
qed

lemma recv_headers_loop_spec:
  assumes "recv_headers_loop M old cl n c = Some y" "M = 512" "holds n c" "n \<le> 512" "ht_mem c = []" "fits_int cl"
    "good_head len hs" "prefix (ahead n c) (head_text hs @ body)"
  shows "head_result len hs n c y"
  using assms
proof (induction arbitrary: hs rule: recv_headers_loop.raw_induct[rotated, consumes 1, case_names 1])
  case (1 f M old cl n c y)
  note pr = 1(2-)
  from pr(3,7,5,6,8) show ?case
  proof (cases rule: head_pass)
    case incomplete
    obtain r and d :: string and i b where h: "http_client_recv n (512 - n) c = Some (r, length d, c\<lparr>ht_in := i, ht_buf := b\<rparr>)"
      "holds (n + length d) (c\<lparr>ht_in := i, ht_buf := b\<rparr>)" "n + length d \<le> 512"
      "r = HTTP_OK \<and> ahead (n + length d) (c\<lparr>ht_in := i, ht_buf := b\<rparr>) = ahead n c \<and>
       (fails (incoming (c\<lparr>ht_in := i\<rparr>)) \<longleftrightarrow> fails (incoming c)) \<and>
       (n + length d < 512 \<longrightarrow> incoming (c\<lparr>ht_in := i\<rparr>) = []) \<or>
       r = HTTP_CONN \<and> fails (incoming c)"
      by (rule recv_more[OF pr(3,4)]) simp
    let ?c = "c\<lparr>ht_in := i, ht_buf := b\<rparr>"
    have rc: "rest ?c = rest c" by simp
    show ?thesis
    proof (cases "r = HTTP_OK")
      case False
      then have "y = Some (r, old, sock_close ?c)" using pr(1,2) incomplete h(1) by simp
      then show ?thesis using False h(2,4) rest_close[OF rc] by (auto simp: head_result_def holds_def sock_close_def)
    next
      case True
      then have "f M old cl (n + length d) ?c = Some y" using pr(1,2) incomplete h(1) by simp
      then have "head_result len hs (n + length d) ?c y"
        by (rule 1(1)[OF _ pr(2) h(2,3) _ pr(6,7)]) (use pr(5,8) h(4) True in simp_all)
      then show ?thesis by (rule head_result_more) (use h(4) True rc in simp_all)
    qed
  next
    case (finish b)
    then have "y = Some (HTTP_OK, n - 2, c\<lparr>ht_buf := b\<rparr>)" using pr(1,2) by simp
    moreover have "after_head len [] c (c\<lparr>ht_buf := b\<rparr>)" by (rule after_head_refl) simp_all
    ultimately show ?thesis using finish pr(4) by (simp add: head_result_def head_text_def)
  next
    case (header k v hs1 p cl1 c1 b)
    let ?c = "c1\<lparr>ht_buf := b\<rparr>"
    have f: "f M old cl1 (n - (p + 2)) ?c = Some y" using pr(1,2) header by simp
    have rc: "rest ?c = rest c" using header(10) by (simp only: after_head_def)
    have pre: "prefix (ahead (n - (p + 2)) ?c) (head_text hs1 @ body)"
      using pr(8) by (simp add: header(1,8) head_text_def)
    have hs1: "good_head len hs1" using pr(7) header(1) by (auto simp: good_head_def)
    have "head_result len hs1 (n - (p + 2)) ?c y"
      by (rule 1(1)[OF f pr(2) header(7) _ _ header(5) hs1 pre]) (use pr(4,5) rest_fields(14)[OF rc] in simp_all)
    then show ?thesis unfolding header(1) by (rule head_result_header[OF _ header(10,8)]) (simp add: header(11))
  qed
qed

lemma recv_headers_loop_returns:
  assumes "holds n c" "n \<le> 512" "ht_mem c = []" "fits_int cl" "good_head len hs" "prefix (ahead n c) (head_text hs @ body)"
    and "fails (incoming c) \<or> length (head_text hs) \<le> length (ahead n c)"
  shows "recv_headers_loop 512 old cl n c \<noteq> None"
  using assms
proof (induction "length (ahead n c) + (512 - n) + length hs" arbitrary: n c cl hs rule: less_induct)
  case less
  note pr = less.prems
  from pr(1,5,3,4,6) show ?case
  proof (cases rule: head_pass)
    case incomplete
    obtain r and d :: string and i b where h: "http_client_recv n (512 - n) c = Some (r, length d, c\<lparr>ht_in := i, ht_buf := b\<rparr>)"
      "holds (n + length d) (c\<lparr>ht_in := i, ht_buf := b\<rparr>)" "n + length d \<le> 512"
      "r = HTTP_OK \<and> ahead (n + length d) (c\<lparr>ht_in := i, ht_buf := b\<rparr>) = ahead n c \<and>
       (fails (incoming (c\<lparr>ht_in := i\<rparr>)) \<longleftrightarrow> fails (incoming c)) \<and>
       (n + length d < 512 \<longrightarrow> incoming (c\<lparr>ht_in := i\<rparr>) = []) \<or>
       r = HTTP_CONN \<and> fails (incoming c)"
      by (rule recv_more[OF pr(1,2)]) simp
    show ?thesis
    proof (cases "r = HTTP_OK")
      case False
      then show ?thesis using incomplete h(1) by (subst recv_headers_loop.simps) simp
    next
      case True
      let ?c = "c\<lparr>ht_in := i, ht_buf := b\<rparr>"
      have more: "fails (incoming ?c) \<or> length (head_text hs) \<le> length (ahead (n + length d) ?c)" using h(4) True pr(7) by auto
      have "n < n + length d"
      proof (cases "n + length d = 512")
        case False
        then have "incoming ?c = []" using h(3,4) True by auto
        then have "length (head_text hs) \<le> n + length d" using more h(2) by (simp add: ahead_def holds_def)
        then show ?thesis using incomplete(3) by linarith
      qed (use incomplete(2) in simp)
      then have "512 - (n + length d) < 512 - n" using incomplete(2) by linarith
      moreover have "ahead (n + length d) ?c = ahead n c" using h(4) True by simp
      ultimately have "length (ahead (n + length d) ?c) + (512 - (n + length d)) + length hs < length (ahead n c) + (512 - n) + length hs"
        by (simp only: add_less_cancel_left add_less_cancel_right)
      then have "recv_headers_loop 512 old cl (n + length d) ?c \<noteq> None"
        by (rule less.hyps) (use h True pr more in simp_all)
      then show ?thesis using incomplete h(1) True by (subst recv_headers_loop.simps) simp
    qed
  next
    case (finish b)
    then show ?thesis by (subst recv_headers_loop.simps) simp
  next
    case (header k v hs1 p cl1 c1 b)
    let ?c = "c1\<lparr>ht_buf := b\<rparr>"
    have rc: "rest ?c = rest c" using header(10) by (simp only: after_head_def)
    have pre: "prefix (ahead (n - (p + 2)) ?c) (head_text hs1 @ body)"
      using pr(6) by (simp add: header(1,8) head_text_def)
    have hs1: "good_head len hs1" using pr(5) header(1) by (auto simp: good_head_def)
    have "length (header_line (k, v)) \<ge> p + 2"
    proof -
      have "length (ahead n c) = length (header_line (k, v)) + length (ahead (n - (p + 2)) ?c)" by (simp add: header(8))
      moreover have "length (ahead n c) = n + length (data_of (incoming c))" using pr(1) by (simp add: ahead_def holds_def)
      moreover have "length (ahead (n - (p + 2)) ?c) = n - (p + 2) + length (data_of (incoming c))"
        using header(7,11) by (simp add: ahead_def holds_def)
      ultimately show ?thesis using header(9) by linarith
    qed
    then have "length (ahead (n - (p + 2)) ?c) + (512 - (n - (p + 2))) + length hs1 < length (ahead n c) + (512 - n) + length hs"
      using pr(2) header(9) by (simp add: header(1,8))
    then have "recv_headers_loop 512 old cl1 (n - (p + 2)) ?c \<noteq> None"
      by (rule less.hyps) (use header pr rest_fields(14)[OF rc] hs1 pre in \<open>simp_all add: head_text_def\<close>)
    then show ?thesis using header(1-6) by (subst recv_headers_loop.simps) simp
  qed
qed

text \<open>An end of the connection inside the head keeps the loop running.\<close>

text \<open>When the connection is closed inside the head, the loop asks for more for ever.\<close>

lemma recv_headers_loop_stuck:
  assumes "recv_headers_loop M old cl n c = Some y" "M = 512" "holds n c" "\<not> fails (incoming c)"
    and "LF \<notin> set (ahead n c)" "length (ahead n c) < 512"
  shows False
  using assms
proof (induction rule: recv_headers_loop.raw_induct[rotated, consumes 1, case_names 1])
  case (1 f M old cl n c y)
  have "LF \<notin> set (cstr (ht_buf c))"
    using set_cstr[of "take n (ht_buf c)"] 1(6) by (auto simp: cstr_holds[OF 1(4)] ahead_def)
  then have none: "strstr CRLF (cstr (ht_buf c)) = None" by (rule strstr_CRLF_None)
  have n: "n < 512" using 1(4,7) by (simp add: ahead_def holds_def)
  have a: "ht_live c" "length (ht_buf c) = 1025" "n + (512 - n) \<le> 1024" using 1(4) n by (auto simp: holds_def)
  obtain r d i b where h: "http_client_recv n (512 - n) c = Some (r, length d, c\<lparr>ht_in := i, ht_buf := b\<rparr>)"
    "holds (n + length d) (c\<lparr>ht_in := i, ht_buf := b\<rparr>)" "take (n + length d) b = take n (ht_buf c) @ d"
    "recv_result (512 - n) (incoming c) r d (incoming (c\<lparr>ht_in := i\<rparr>))"
    by (rule recv_spec[OF a])
  have r: "r = HTTP_OK" "\<not> fails (incoming (c\<lparr>ht_in := i\<rparr>))" using h(4) 1(5) by (auto simp: recv_result_def)
  have ah: "ahead (n + length d) (c\<lparr>ht_in := i, ht_buf := b\<rparr>) = ahead n c"
    using recv_ahead[OF h(4)[unfolded r(1)] h(3)] .
  have "f M old cl (n + length d) (c\<lparr>ht_in := i, ht_buf := b\<rparr>) = Some y" using 1(2,3) n none h(1) r(1) by simp
  then show False by (rule 1(1)[OF _ 1(3) h(2)]) (use r ah 1(6,7) in simp_all)
qed

section \<open>The status line\<close>

definition good_status :: "string \<Rightarrow> bool" where
  "good_status sl \<longleftrightarrow> set sl \<inter> {LF, NUL} = {} \<and> length sl \<le> 98 \<and>
     (case scan_status sl of None \<Rightarrow> False | Some code \<Rightarrow> 200 \<le> code \<and> code < 400)"

lemma rest_code [simp]: "rest (c\<lparr>ht_code := k\<rparr>) = rest c" "incoming (c\<lparr>ht_buf := b, ht_code := k\<rparr>) = incoming c"
  by (auto simp: rest_def incoming_def split: option.split)

lemma rsp_spec:
  assumes "ht_live c" "length (ht_buf c) = 1025" "good_status sl" "prefix (data_of (incoming c)) (sl @ CRLF @ w)"
  shows "\<exists>r n c'. http_client_recv_rsp_and_parse 100 old c = Some (r, n, c') \<and>
    ((r = HTTP_CONN \<and> fails (incoming c) \<or>
       r = HTTP_PRTCL \<and> \<not> fails (incoming c) \<and> length (data_of (incoming c)) < length sl + 2) \<and> rest c' = rest (sock_close c) \<and> length (ht_buf c') = 1025 \<or>
     r = HTTP_OK \<and> rest c' = rest c \<and> ht_content_len c' = ht_content_len c \<and> ht_chunked c' = ht_chunked c \<and>
       holds n c' \<and> n \<le> 100 \<and> data_of (incoming c) = sl @ CRLF @ ahead n c' \<and> (fails (incoming c') \<longleftrightarrow> fails (incoming c)))"
proof -
  have a: "ht_live c" "length (ht_buf c) = 1025" "0 + 100 \<le> (1024 :: nat)" using assms by auto
  obtain r d i b where h: "http_client_recv 0 100 c = Some (r, length d, c\<lparr>ht_in := i, ht_buf := b\<rparr>)"
    "holds (0 + length d) (c\<lparr>ht_in := i, ht_buf := b\<rparr>)" "take (0 + length d) b = take 0 (ht_buf c) @ d"
    "recv_result 100 (incoming c) r d (incoming (c\<lparr>ht_in := i\<rparr>))"
    by (rule recv_spec[OF a])
  let ?c = "c\<lparr>ht_in := i, ht_buf := b\<rparr>"
  have rc: "rest (sock_close ?c) = rest (sock_close c)" by (rule rest_close) simp
  have hold: "holds (length d) ?c" using h(2) by simp
  have td: "take (length d) b = d" using h(3) by simp
  have lc: "length (ht_buf (sock_close ?c)) = 1025" using hold by (simp add: holds_def sock_close_def)
  show ?thesis
  proof (cases "r = HTTP_OK")
    case False
    then have "http_client_recv_rsp_and_parse 100 old c = Some (HTTP_CONN, old, sock_close ?c)"
      by (simp add: http_client_recv_rsp_and_parse_def h(1))
    then show ?thesis using False h(4) rc lc by (auto simp: recv_result_def)
  next
    case True
    then have d: "data_of (incoming c) = d @ data_of (incoming ?c)" "fails (incoming ?c) \<longleftrightarrow> fails (incoming c)"
      "length d < 100 \<Longrightarrow> incoming ?c = []" "length d \<le> 100"
      using h(4) by (auto simp: recv_result_def)
    have pre: "prefix (take (length d) (ht_buf ?c)) (sl @ CRLF @ w)"
      using assms(4) append_prefixD[of d "data_of (incoming ?c)"] td d(1) by simp
    have g: "LF \<notin> set sl" "NUL \<notin> set sl" "length sl \<le> 98" using assms(3) by (auto simp: good_status_def)
    note fl = first_line[OF hold pre g(1,2)]
    show ?thesis
    proof (cases "length sl + 2 \<le> length d")
      case short: False
      then have "http_client_recv_rsp_and_parse 100 old c = Some (HTTP_PRTCL, old, sock_close ?c)"
        using fl by (simp add: http_client_recv_rsp_and_parse_def h(1) True)
      moreover have "\<not> fails (incoming c) \<and> length (data_of (incoming c)) < length sl + 2" using d(1-3) short g(3) by simp
      ultimately show ?thesis using rc lc by auto
    next
      case long: True
      let ?p = "length sl"
      obtain code where code: "scan_status sl = Some code" "200 \<le> code" "code < 400"
        using assms(3) by (auto simp: good_status_def split: option.splits)
      have lb: "length b = 1025" "length d \<le> 1024" "b ! length d = NUL" "ht_live c" using hold by (auto simp: holds_def)
      have p: "?p < 1025" using g(3) by simp
      have pd: "prefix (sl @ CRLF) d"
        using pre td long prefix_length_prefix[of "sl @ CRLF" "sl @ CRLF @ w" d] by simp
      then obtain t where t: "d = sl @ CRLF @ t" by (auto simp only: prefix_def append_assoc)
      have "take ?p b = take ?p (take (length d) b)" using long by simp
      also have "\<dots> = take ?p d" unfolding td ..
      also have "\<dots> = sl" by (simp add: t)
      finally have ts: "take ?p b = [] @ sl" by simp
      let ?b = "b[?p := NUL]"
      have "cstr (drop 0 ?b) = sl" by (rule cstr_drop_update[OF lb(1) ts]) (use p lb g in simp_all)
      then have cs: "cstr ?b = sl" by simp
      have bn: "?b ! length d = NUL" using lb(3) long by simp
      obtain b1 where b1: "buf_shift (?p + 2) (length d - (?p + 2) + 1) ?b = Some b1" "length b1 = 1025"
        "take (length d - (?p + 2)) b1 = drop (?p + 2) (take (length d) ?b)" "b1 ! (length d - (?p + 2)) = NUL"
        using shift_ok[of ?b "length d" "?p + 2"] lb long bn by auto
      have "take (length d) ?b = d[?p := NUL]" using td by (simp add: take_update_swap)
      then have "take (length t) b1 = t" using b1(3) by (simp add: t list_update_append)
      moreover have "fits_int code" using code by (simp add: fits_int_def)
      ultimately have "http_client_recv_rsp_and_parse 100 old c =
          Some (HTTP_OK, length d - (?p + 2), ?c\<lparr>ht_buf := b1, ht_code := code\<rparr>)"
        using fl long memput_NUL[of ?p b] p lb(1) code b1(1) cs
        by (simp add: http_client_recv_rsp_and_parse_def h(1) True)
      moreover have "holds (length t) (?c\<lparr>ht_buf := b1, ht_code := code\<rparr>)"
        using b1(2,4) lb by (simp add: holds_def t)
      moreover have "incoming (c\<lparr>ht_in := i, ht_buf := b1, ht_code := code\<rparr>) = incoming ?c"
        by (simp add: incoming_def split: option.split)
      ultimately show ?thesis
        using \<open>take (length t) b1 = t\<close> d by (simp add: t ahead_def)
    qed
  qed
qed


end
