(* ===== verification/HttpBody.thy ===== *)
theory HttpBody
  imports HttpHead
begin

text \<open>
  The content of a response: plain content and chunks reach the data handler in order and without
  gaps, whatever pieces they arrive in.
\<close>

section \<open>What the handler has got\<close>

definition delivered :: "http \<Rightarrow> string" where
  "delivered c = concat (map (\<lambda>(pos, s, t). s) (ht_out c))"

lemma delivered_hand_on [simp]: "delivered (hand_on pos s c) = delivered c @ s"
  by (simp add: delivered_def hand_on_def)

text \<open>What receiving content leaves alone.\<close>

definition core :: "http \<Rightarrow> http" where
  "core c = (rest c)\<lparr>ht_out := [], ht_recv_size := 0, ht_data_pos := DATA_FIRST, ht_stops := [], ht_chunk_size := 0\<rparr>"

lemma core_rest: "rest c = rest d \<Longrightarrow> core c = core d"
  by (simp add: core_def)

lemma core_simps [simp]: "core (c\<lparr>ht_in := i, ht_buf := b\<rparr>) = core c" "core (c\<lparr>ht_buf := b\<rparr>) = core c"
  "core (hand_on pos s c) = core c" "core (c\<lparr>ht_data_pos := p\<rparr>) = core c" "core (c\<lparr>ht_recv_size := z\<rparr>) = core c"
  "core (hand_on_counted s c) = core c" "core (c\<lparr>ht_chunk_size := k\<rparr>) = core c" "core (c\<lparr>ht_in := i\<rparr>) = core c"
  by (simp_all add: core_def rest_def hand_on_def hand_on_counted_def)

lemma core_fields:
  assumes "core c = core d"
  shows "ht_handler c = ht_handler d" "ht_location c = ht_location d" "ht_retry c = ht_retry d" "ht_live c = ht_live d"
    "ht_peers c = ht_peers d" "ht_opens c = ht_opens d" "ht_sends c = ht_sends d" "ht_mem c = ht_mem d"
    "ht_headers c = ht_headers d" "ht_peer c = ht_peer d" "ht_sent c = ht_sent d"
  using arg_cong[OF assms, of ht_handler] arg_cong[OF assms, of ht_location] arg_cong[OF assms, of ht_retry]
    arg_cong[OF assms, of ht_live] arg_cong[OF assms, of ht_peers] arg_cong[OF assms, of ht_opens]
    arg_cong[OF assms, of ht_sends] arg_cong[OF assms, of ht_mem] arg_cong[OF assms, of ht_headers]
    arg_cong[OF assms, of ht_peer] arg_cong[OF assms, of ht_sent]
  by (simp_all add: core_def rest_def)

text \<open>\<open>e\<close> was handed on between two states.\<close>

definition got :: "string \<Rightarrow> http \<Rightarrow> http \<Rightarrow> bool" where
  "got e c c' \<longleftrightarrow> delivered c' = delivered c @ e \<and> ht_recv_size c' = ht_recv_size c + of_nat (length e) \<and> core c' = core c"

lemma got_trans: "got e c c1 \<Longrightarrow> got e' c1 c2 \<Longrightarrow> got (e @ e') c c2"
  by (simp add: got_def)

lemma got_Nil: "core c' = core c \<Longrightarrow> ht_out c' = ht_out c \<Longrightarrow> ht_recv_size c' = ht_recv_size c \<Longrightarrow> got [] c c'"
  by (simp add: got_def delivered_def)

lemma got_hand_on_counted: "ht_handler c \<Longrightarrow> got s c (hand_on_counted s c)"
  by (simp add: got_def hand_on_counted_def delivered_def hand_on_def core_def rest_def)

lemma got_update [simp]:
  "got e c (c'\<lparr>ht_data_pos := p\<rparr>) \<longleftrightarrow> got e c c'" "got e c (c'\<lparr>ht_in := i, ht_buf := b\<rparr>) \<longleftrightarrow> got e c c'"
  "got e (c\<lparr>ht_in := i, ht_buf := b\<rparr>) c' \<longleftrightarrow> got e c c'" "got e c (c'\<lparr>ht_buf := b\<rparr>) \<longleftrightarrow> got e c c'"
  "got e (c\<lparr>ht_buf := b\<rparr>) c' \<longleftrightarrow> got e c c'" "got e c (c'\<lparr>ht_chunk_size := k\<rparr>) \<longleftrightarrow> got e c c'"
  "got e (c\<lparr>ht_chunk_size := k\<rparr>) c' \<longleftrightarrow> got e c c'" "got e c (c'\<lparr>ht_in := i\<rparr>) \<longleftrightarrow> got e c c'"
  "got e (c\<lparr>ht_in := i\<rparr>) c' \<longleftrightarrow> got e c c'"
  by (simp_all add: got_def delivered_def)

section \<open>Plain content\<close>

definition room :: "nat \<Rightarrow> http \<Rightarrow> bool" where
  "room n c \<longleftrightarrow> ht_live c \<and> length (ht_buf c) = 1025 \<and> n \<le> 1024"

lemma holds_room: "holds n c \<Longrightarrow> room n c"
  by (simp add: holds_def room_def)

lemma recv_content_loop_spec:
  assumes "m = 1024" "res = HTTP_OK" "room n c" "ht_stops c = []" "ht_handler c" "length w = need + n" "prefix (ahead n c) w"
  shows "\<exists>r c' e. recv_content_loop m res need n c = Some (r, c') \<and> got e c c' \<and> prefix e w \<and> (r = HTTP_OK \<longrightarrow> e = w) \<and>
    r \<in> {HTTP_OK, HTTP_CONN, HTTP_FAILED} \<and> ht_stops c' = [] \<and> length (ht_buf c') = 1025 \<and> (fails (incoming c) \<longrightarrow> r \<noteq> HTTP_FAILED)"
  using assms
proof (induction m res need n c arbitrary: w rule: recv_content_loop.induct)
  case (1 m res need n c)
  note pr = "1.prems"
  show ?case
  proof (cases "need = 0 \<and> n = 0")
    case True
    then show ?thesis using pr got_Nil[of c c] by (subst recv_content_loop.simps) (auto simp: room_def)
  next
    case False
    have st: "check_stop c = (False, c)" using pr(4) by (simp add: check_stop_def)
    define q where "q = (if need < m - n then need else m - n)"
    have a: "ht_live c" "length (ht_buf c) = 1025" "n + q \<le> 1024" using pr(1,3) by (auto simp: room_def q_def)
    obtain r d i b where h: "http_client_recv n q c = Some (r, length d, c\<lparr>ht_in := i, ht_buf := b\<rparr>)"
      "holds (n + length d) (c\<lparr>ht_in := i, ht_buf := b\<rparr>)" "take (n + length d) b = take n (ht_buf c) @ d"
      "recv_result q (incoming c) r d (incoming (c\<lparr>ht_in := i\<rparr>))"
      by (rule recv_spec[OF a])
    let ?c = "c\<lparr>ht_in := i, ht_buf := b\<rparr>"
    let ?x = "take n (ht_buf c) @ d"
    have lx: "length ?x = n + length d" using a by simp
    have dq: "length d \<le> need" using h(4) by (auto simp: recv_result_def q_def split: if_splits)
    have px: "prefix ?x w"
      using pr(7) h(4) append_prefixD[of ?x] by (auto simp: ahead_def recv_result_def)
    define c3 where "c3 = (if n + length d \<noteq> 0 then (hand_on_counted ?x ?c)\<lparr>ht_data_pos := DATA_MID\<rparr> else ?c)"
    have body: "recv_content_loop m res need n c =
      (if r \<noteq> HTTP_OK then Some (r, c3)
       else if 0 < need - length d \<and> n + length d = 0 then Some (HTTP_FAILED, c3)
       else recv_content_loop m r (need - length d) 0 c3)"
      using st h(1,3) pr(5)
      by (subst recv_content_loop.simps, subst if_not_P[OF False]) (simp add: q_def c3_def Let_def)
    have g3: "got ?x c c3"
    proof (cases "n + length d = 0")
      case True
      then show ?thesis using got_Nil[of c c] by (simp add: c3_def)
    next
      case False
      then show ?thesis using got_hand_on_counted[of ?c ?x] pr(5) by (simp add: c3_def)
    qed
    have s3: "ht_stops c3 = []" "ht_handler c3" "ht_live c3" "ht_buf c3 = b" "incoming c3 = incoming ?c" "length b = 1025"
      using pr(4,5) a h(2)
      by (auto simp: c3_def hand_on_counted_def hand_on_def holds_def incoming_def split: option.split)
    show ?thesis
    proof (cases "r = HTTP_OK")
      case False
      then have "recv_content_loop m res need n c = Some (HTTP_CONN, c3)"
        using body h(4) by (simp add: recv_result_def)
      then show ?thesis using g3 px s3 by auto
    next
      case True
      show ?thesis
      proof (cases "0 < need - length d \<and> n + length d = 0")
        case stuck: True
        then have "recv_content_loop m res need n c = Some (HTTP_FAILED, c3)"
          using body True by simp
        moreover have "\<not> fails (incoming c)" using h(4) True stuck pr(1) by (auto simp: recv_result_def q_def split: if_splits)
        ultimately show ?thesis using g3 px s3 by auto
      next
        case go: False
        have eq: "recv_content_loop m res need n c = recv_content_loop m r (need - length d) 0 c3"
          unfolding body using True go by auto
        obtain w' where w': "w = ?x @ w'" using px by (auto simp: prefix_def)
        have "length w' = need - length d + 0" using arg_cong[OF w', of length] pr(6) lx dq by simp
        moreover have "prefix (ahead 0 c3) w'"
          using pr(7) h(4) True s3(5) by (simp add: w' ahead_def recv_result_def)
        moreover have "room 0 c3" using s3 by (simp add: room_def)
        moreover have "c3 = (if n + length d \<noteq> 0 then (hand_on_counted (take (n + length d) (ht_buf ?c)) ?c)\<lparr>ht_data_pos := DATA_MID\<rparr> else ?c)"
          using h(3) by (simp add: c3_def)
        note ih = "1.IH"[OF False st[symmetric] _ h(1)[unfolded q_def] refl refl _ this _ go]
        ultimately have "\<exists>r2 c2 e. recv_content_loop m r (need - length d) 0 c3 = Some (r2, c2) \<and> got e c3 c2 \<and> prefix e w' \<and>
          (r2 = HTTP_OK \<longrightarrow> e = w') \<and> r2 \<in> {HTTP_OK, HTTP_CONN, HTTP_FAILED} \<and> ht_stops c2 = [] \<and> length (ht_buf c2) = 1025 \<and>
          (fails (incoming c3) \<longrightarrow> r2 \<noteq> HTTP_FAILED)"
          using True pr(1,5) s3 by (intro ih) simp_all
        then obtain r2 c2 e where e: "recv_content_loop m r (need - length d) 0 c3 = Some (r2, c2)" "got e c3 c2" "prefix e w'"
          "r2 = HTTP_OK \<longrightarrow> e = w'" "r2 \<in> {HTTP_OK, HTTP_CONN, HTTP_FAILED}" "ht_stops c2 = []" "length (ht_buf c2) = 1025"
          "fails (incoming c3) \<longrightarrow> r2 \<noteq> HTTP_FAILED"
          by blast
        have "fails (incoming c3) \<longleftrightarrow> fails (incoming c)" using h(4) True s3(5) by (simp add: recv_result_def)
        then show ?thesis
          using eq e got_trans[OF g3 e(2)] by (intro exI[of _ r2] exI[of _ c2] exI[of _ "?x @ e"]) (simp add: w')
      qed
    qed
  qed
qed

lemma recv_content_data_spec:
  assumes "room n c" "ht_stops c = []" "ht_handler c" "ht_content_len c = of_nat (length w) + ht_recv_size c"
    and "length w < 2 ^ 31" "prefix (ahead n c) w"
  shows "\<exists>r c' e. http_client_recv_content_data 1024 n c = Some (r, c') \<and> got e c c' \<and> prefix e w \<and> (r = HTTP_OK \<longrightarrow> e = w) \<and>
    r \<in> {HTTP_OK, HTTP_CONN, HTTP_FAILED} \<and> ht_stops c' = [] \<and> length (ht_buf c') = 1025 \<and> (fails (incoming c) \<longrightarrow> r \<noteq> HTTP_FAILED)"
proof -
  have need: "ht_content_len c - ht_recv_size c = of_nat (length w)" using assms(4) by simp
  have u: "unat (of_nat (length w) :: u32) = length w" using assms(5) by (simp add: u32_of_nat)
  have "n \<le> length (ahead n c)" using assms(1) by (simp add: ahead_def room_def)
  then have n: "n \<le> length w" using prefix_length_le[OF assms(6)] by linarith
  have "\<not> (of_nat (length w) :: u32) < of_nat n"
    using n assms(5) by (simp add: word_less_nat_alt u u32_of_nat)
  then have "http_client_recv_content_data 1024 n c = recv_content_loop 1024 HTTP_OK (length w - n) n c"
    using assms(1) by (simp add: http_client_recv_content_data_def need u room_def)
  then show ?thesis using recv_content_loop_spec[OF refl refl assms(1-3) _ assms(6)] n by simp
qed

end
