(* ===== verification/HttpFlow.thy ===== *)
theory HttpFlow
  imports HttpBody
begin

text \<open>
  Whole transfers. A server that answers a request for a range of a document as it should is described
  by what it sends on every connection: a prefix of the right reply, in any pieces, after which the
  connection fails or ends.
\<close>

section \<open>Servers\<close>

definition request_all :: "(string \<times> string) list \<Rightarrow> string \<Rightarrow> string \<Rightarrow> u32 \<Rightarrow> string" where
  "request_all hdrs path host pos = request_text HTTP_GET path host pos @ concat (map header_line hdrs) @ CRLF"

text \<open>The status line and the headers of the reply to a request for the bytes from \<open>pos\<close> on.\<close>

record server =
  sv_status :: "nat \<Rightarrow> string"
  sv_headers :: "nat \<Rightarrow> (string \<times> string) list"
  sv_body :: string

definition reply :: "server \<Rightarrow> nat \<Rightarrow> string" where
  "reply sv pos = sv_status sv pos @ CRLF @ head_text (sv_headers sv pos) @ drop pos (sv_body sv)"

definition good_server :: "server \<Rightarrow> bool" where
  "good_server sv \<longleftrightarrow> length (sv_body sv) < 2 ^ 31 \<and>
     (\<forall>pos \<le> length (sv_body sv). good_status (sv_status sv pos) \<and>
        good_head (length (sv_body sv) - pos) (sv_headers sv pos) \<and> CL \<in> fst ` set (sv_headers sv pos) \<and>
        \<not> says_chunked (sv_headers sv pos))"

definition serves :: "server \<Rightarrow> (string \<times> string) list \<Rightarrow> peer \<Rightarrow> bool" where
  "serves sv hdrs p \<longleftrightarrow> (\<forall>pos \<le> length (sv_body sv). \<forall>path host.
     prefix (data_of (p (request_all hdrs path host (of_nat pos)))) (reply sv pos))"

text \<open>No connection is closed before the head of the reply is complete: each one fails at the end, or brings the
  status line and the headers before whatever follows.\<close>

definition head_arrives :: "server \<Rightarrow> (string \<times> string) list \<Rightarrow> peer \<Rightarrow> bool" where
  "head_arrives sv hdrs p \<longleftrightarrow> (\<forall>pos \<le> length (sv_body sv). \<forall>path host.
     let es = p (request_all hdrs path host (of_nat pos))
     in fails es \<or> length (sv_status sv pos @ CRLF @ head_text (sv_headers sv pos)) \<le> length (data_of es))"

section \<open>The state between attempts\<close>

definition small_headers :: "(string \<times> string) list \<Rightarrow> bool" where
  "small_headers hdrs \<longleftrightarrow> (\<forall>(k, v) \<in> set hdrs. length k + length v < 1017)"

definition quiet :: "http \<Rightarrow> bool" where
  "quiet c \<longleftrightarrow> ht_handler c \<and> ht_stops c = [] \<and> ht_mem c = [] \<and> ht_opens c = [] \<and> ht_sends c = [] \<and>
     ht_location c = None \<and> small_headers (ht_headers c) \<and> length (ht_buf c) = 1025"

definition progress :: "server \<Rightarrow> string \<Rightarrow> nat \<Rightarrow> http \<Rightarrow> bool" where
  "progress sv d0 k c \<longleftrightarrow> quiet c \<and> k \<le> length (sv_body sv) \<and> delivered c = d0 @ take k (sv_body sv) \<and>
     ht_recv_size c = of_nat k \<and> (\<forall>p. Some p \<in> set (ht_peers c) \<longrightarrow> serves sv (ht_headers c) p)"

section \<open>Sending\<close>

lemma send_ok: "ht_live c \<Longrightarrow> ht_sends c = [] \<Longrightarrow> s \<noteq> [] \<Longrightarrow> http_client_send s c = (HTTP_OK, c\<lparr>ht_sent := ht_sent c @ s\<rparr>)"
  by (simp add: http_client_send_def sock_send_def)

lemma malloc_free: "ht_mem c = [] \<Longrightarrow> ht_malloc c = (True, c)"
  by (simp add: ht_malloc_def)

lemma request_sent:
  "ht_live c \<Longrightarrow> ht_sends c = [] \<Longrightarrow> ht_mem c = [] \<Longrightarrow>
   http_client_send_request HTTP_GET path host c =
     (HTTP_OK, c\<lparr>ht_sent := ht_sent c @ request_text HTTP_GET path host (ht_recv_size c)\<rparr>)"
  by (simp add: http_client_send_request_def malloc_free request_fits send_ok request_nonempty)

lemma header_lines_sent:
  assumes "ht_live c" "ht_sends c = []" "length (ht_buf c) = 1025" "small_headers hs"
  shows "\<exists>b. send_header_lines hs 1025 c =
      Some (HTTP_OK, c\<lparr>ht_sent := ht_sent c @ concat (map header_line hs), ht_buf := b\<rparr>) \<and> length b = 1025"
  using assms
proof (induction hs arbitrary: c)
  case Nil
  then show ?case by (intro exI[of _ "ht_buf c"]) simp
next
  case (Cons h hs)
  obtain k v where h: "h = (k, v)" by (cases h)
  have kv: "length k + length v < 1017" using Cons.prems(4) by (auto simp: small_headers_def h)
  obtain b where b: "memput 0 (header_line (k, v) @ [NUL]) (ht_buf c) = Some b"
    using memput_ok[of 0 "header_line (k, v) @ [NUL]" "ht_buf c"] Cons.prems(3) kv by (auto simp: header_line_def)
  have lb: "length b = 1025" using memput_length[OF b] Cons.prems(3) by simp
  let ?c = "c\<lparr>ht_buf := b, ht_sent := ht_sent c @ header_line (k, v)\<rparr>"
  have "send_header_lines (h # hs) 1025 c = send_header_lines hs 1025 ?c"
    using kv b Cons.prems(1,2) by (simp add: h send_ok header_line_def)
  moreover obtain b' where "send_header_lines hs 1025 ?c =
      Some (HTTP_OK, ?c\<lparr>ht_sent := ht_sent ?c @ concat (map header_line hs), ht_buf := b'\<rparr>)" "length b' = 1025"
    using Cons.IH[of ?c] Cons.prems lb by (auto simp: small_headers_def)
  ultimately show ?case by (intro exI[of _ b']) (simp add: h)
qed

lemma exchange_sent:
  assumes "ht_live c" "ht_sent c = []" "quiet c"
  shows "\<exists>b. exchange HTTP_GET u rv c =
      (let c2 = c\<lparr>ht_sent := request_all (ht_headers c) (ur_path u) (ur_host u) (ht_recv_size c), ht_buf := b\<rparr>
       in case http_client_recv_rsp_and_parse 100 rv c2 of
            None \<Rightarrow> Some None
          | Some (r3, rv3, c3) \<Rightarrow>
              if r3 \<noteq> HTTP_OK then Some (Some (r3, rv3, c3)) else http_client_recv_headers_and_parse 512 rv3 c3) \<and>
      length b = 1025"
proof -
  let ?t = "request_text HTTP_GET (ur_path u) (ur_host u) (ht_recv_size c)"
  let ?c1 = "c\<lparr>ht_sent := ?t\<rparr>"
  have q: "ht_sends c = []" "ht_mem c = []" "length (ht_buf c) = 1025" "small_headers (ht_headers c)"
    using assms(3) by (auto simp: quiet_def)
  have r: "http_client_send_request HTTP_GET (ur_path u) (ur_host u) c = (HTTP_OK, ?c1)"
    using request_sent[OF assms(1) q(1,2)] assms(2) by simp
  obtain b where b: "send_header_lines (ht_headers c) 1025 ?c1 =
      Some (HTTP_OK, ?c1\<lparr>ht_sent := ?t @ concat (map header_line (ht_headers c)), ht_buf := b\<rparr>)" "length b = 1025"
    using header_lines_sent[of ?c1 "ht_headers c"] assms(1) q by auto
  have s: "http_client_send_headers 1025 ?c1 =
      Some (HTTP_OK, c\<lparr>ht_sent := request_all (ht_headers c) (ur_path u) (ur_host u) (ht_recv_size c), ht_buf := b\<rparr>)"
    using b(1) assms(1) q(1) by (simp add: http_client_send_headers_def send_ok request_all_def)
  show ?thesis
    unfolding exchange_def HC_CHUNK_SIZE_def HC_RSP_CHUNK_SIZE_def HC_HEADER_CHUNK_SIZE_def
    by (intro exI[of _ b]) (simp add: r s b(2) Let_def)
qed

section \<open>One exchange\<close>

text \<open>What is kept by everything an attempt does before the content.\<close>

definition kept :: "http \<Rightarrow> http \<Rightarrow> bool" where
  "kept c c' \<longleftrightarrow> delivered c' = delivered c \<and> ht_recv_size c' = ht_recv_size c \<and> ht_headers c' = ht_headers c \<and>
     ht_retry c' = ht_retry c \<and> (quiet c \<longrightarrow> quiet c') \<and> set (ht_peers c') \<subseteq> set (ht_peers c)"

lemma kept_trans: "kept a b \<Longrightarrow> kept b c \<Longrightarrow> kept a c"
  by (auto simp: kept_def)

lemma kept_rest: "rest c' = rest c \<Longrightarrow> length (ht_buf c') = 1025 \<Longrightarrow> kept c c'"
  using rest_fields[of c' c] by (simp add: kept_def quiet_def delivered_def)

lemma kept_close: "kept c c' \<Longrightarrow> kept c (sock_close c')"
  by (simp add: kept_def quiet_def delivered_def sock_close_def)

lemma kept_sent: "length b = 1025 \<Longrightarrow> kept c (c\<lparr>ht_sent := s, ht_buf := b\<rparr>)"
  by (simp add: kept_def quiet_def delivered_def)

definition exchange_ok :: "server \<Rightarrow> nat \<Rightarrow> http \<Rightarrow> (e_http_result \<times> nat \<times> http) option \<Rightarrow> bool" where
  "exchange_ok sv k c y \<longleftrightarrow> (\<exists>r n c'. y = Some (r, n, c') \<and> kept c c' \<and>
     (r = HTTP_CONN \<or> r = HTTP_PRTCL \<or>
      r = HTTP_OK \<and> room n c' \<and> \<not> ht_chunked c' \<and>
        ht_content_len c' = of_nat (length (sv_body sv) - k) + ht_recv_size c' \<and> prefix (ahead n c') (drop k (sv_body sv))))"

lemma exchange_head:
  assumes "ht_live c" "ht_sent c = []" "ht_in c = None" "quiet c" "good_server sv" "serves sv (ht_headers c) (ht_peer c)"
    and "ht_recv_size c = of_nat k" "k \<le> length (sv_body sv)"
  obtains
    (failed) r n c' where "exchange HTTP_GET u rv c = Some (Some (r, n, c'))" "r = HTTP_CONN \<or> r = HTTP_PRTCL" "kept c c'"
  | (head) n c1 where "exchange HTTP_GET u rv c = http_client_recv_headers_and_parse 512 n c1" "kept c c1" "holds n c1" "n \<le> 100"
      "prefix (ahead n c1) (head_text (sv_headers sv k) @ drop k (sv_body sv))"
      "fails (incoming c1) \<longleftrightarrow> fails (ht_peer c (request_all (ht_headers c) (ur_path u) (ur_host u) (ht_recv_size c)))"
      "data_of (ht_peer c (request_all (ht_headers c) (ur_path u) (ur_host u) (ht_recv_size c))) = sv_status sv k @ CRLF @ ahead n c1"
proof -
  obtain b where b: "exchange HTTP_GET u rv c =
      (let c2 = c\<lparr>ht_sent := request_all (ht_headers c) (ur_path u) (ur_host u) (ht_recv_size c), ht_buf := b\<rparr>
       in case http_client_recv_rsp_and_parse 100 rv c2 of
            None \<Rightarrow> Some None
          | Some (r3, rv3, c3) \<Rightarrow>
              if r3 \<noteq> HTTP_OK then Some (Some (r3, rv3, c3)) else http_client_recv_headers_and_parse 512 rv3 c3)" "length b = 1025"
    using exchange_sent[OF assms(1,2,4)] by blast
  let ?req = "request_all (ht_headers c) (ur_path u) (ur_host u) (ht_recv_size c)"
  let ?c2 = "c\<lparr>ht_sent := ?req, ht_buf := b\<rparr>"
  have inc: "incoming ?c2 = ht_peer c ?req" using assms(3) by (simp add: incoming_def)
  have sl: "good_status (sv_status sv k)" using assms(5,8) by (simp add: good_server_def)
  have k2: "kept c ?c2" using kept_sent[OF b(2)] by simp
  have pre: "prefix (data_of (incoming ?c2)) (sv_status sv k @ CRLF @ head_text (sv_headers sv k) @ drop k (sv_body sv))"
    unfolding inc using assms(6,7,8) by (simp add: serves_def reply_def)
  have l2: "ht_live ?c2" "length (ht_buf ?c2) = 1025" using assms(1) b(2) by simp_all
  obtain r n c1 where r: "http_client_recv_rsp_and_parse 100 rv ?c2 = Some (r, n, c1)"
    "(r = HTTP_CONN \<and> fails (incoming ?c2) \<or> r = HTTP_PRTCL \<and> \<not> fails (incoming ?c2)) \<and> rest c1 = rest (sock_close ?c2) \<and>
       length (ht_buf c1) = 1025 \<or>
     r = HTTP_OK \<and> rest c1 = rest ?c2 \<and> ht_content_len c1 = ht_content_len ?c2 \<and> ht_chunked c1 = ht_chunked ?c2 \<and>
       holds n c1 \<and> n \<le> 100 \<and> data_of (incoming ?c2) = sv_status sv k @ CRLF @ ahead n c1 \<and>
       (fails (incoming c1) \<longleftrightarrow> fails (incoming ?c2))"
    using rsp_spec[OF l2 sl pre, of rv] by blast
  show thesis
  proof (cases "r = HTTP_OK")
    case False
    have "exchange HTTP_GET u rv c = Some (Some (r, n, c1))" using b(1) r(1) False by (simp add: Let_def)
    moreover have "r = HTTP_CONN \<or> r = HTTP_PRTCL" using r(2) False by auto
    moreover have "kept (sock_close ?c2) c1" by (rule kept_rest) (use r(2) False in auto)
    then have "kept c c1" using kept_trans[OF kept_close[OF k2]] by blast
    ultimately show thesis by (rule failed)
  next
    case True
    have ok: "rest c1 = rest ?c2" "holds n c1" "n \<le> 100" "data_of (incoming ?c2) = sv_status sv k @ CRLF @ ahead n c1"
      "fails (incoming c1) \<longleftrightarrow> fails (incoming ?c2)" using r(2) True by auto
    have "exchange HTTP_GET u rv c = http_client_recv_headers_and_parse 512 n c1" using b(1) r(1) True by (simp add: Let_def)
    moreover have "kept c c1" using kept_trans[OF k2 kept_rest[OF ok(1)]] ok(2) by (simp add: holds_def)
    moreover have "prefix (ahead n c1) (head_text (sv_headers sv k) @ drop k (sv_body sv))" using pre ok(4) by simp
    moreover have "fails (incoming c1) \<longleftrightarrow> fails (ht_peer c ?req)" using ok(5) unfolding inc .
    moreover have "data_of (ht_peer c ?req) = sv_status sv k @ CRLF @ ahead n c1" using ok(4) unfolding inc .
    ultimately show thesis using head[of n c1] ok(2,3) by blast
  qed
qed

lemma holds_chunked: "holds n (c\<lparr>ht_chunked := g\<rparr>) = holds n c" "ahead n (c\<lparr>ht_chunked := g\<rparr>) = ahead n c"
  "incoming (c\<lparr>ht_chunked := g\<rparr>) = incoming c" "rest (c\<lparr>ht_chunked := g\<rparr>) = rest c"
  by (auto simp: holds_def ahead_def incoming_def rest_def split: option.split)

lemma exchange_spec:
  assumes "ht_live c" "ht_sent c = []" "ht_in c = None" "quiet c" "good_server sv" "serves sv (ht_headers c) (ht_peer c)"
    and "ht_recv_size c = of_nat k" "k \<le> length (sv_body sv)" "exchange HTTP_GET u rv c = Some y"
  shows "exchange_ok sv k c y"
  using assms(1-8)
proof (cases rule: exchange_head[where u = u and rv = rv])
  case (failed r n c')
  then show ?thesis using assms(9) by (auto simp: exchange_ok_def)
next
  case (head n c1)
  let ?c1 = "c1\<lparr>ht_chunked := False\<rparr>"
  have gh: "good_head (length (sv_body sv) - k) (sv_headers sv k)" "CL \<in> fst ` set (sv_headers sv k)" "\<not> says_chunked (sv_headers sv k)"
    using assms(5,8) by (auto simp: good_server_def)
  have mem: "ht_mem ?c1 = []" "length (ht_buf ?c1) = 1025" using head(2,3) assms(4) by (auto simp: kept_def quiet_def holds_def)
  have hy: "recv_headers_loop 512 n 0 n ?c1 = Some y"
    using assms(9) head(1) by (simp add: http_client_recv_headers_and_parse_def)
  have "head_result (length (sv_body sv) - k) (sv_headers sv k) n ?c1 y"
    by (rule recv_headers_loop_spec[OF hy refl _ _ mem(1) _ gh(1)])
      (use head(3-5) in \<open>simp_all add: holds_chunked fits_int_def\<close>)
  then obtain r n' c' where y: "y = Some (r, n', c')"
    "r = HTTP_CONN \<and> fails (incoming ?c1) \<and> rest c' = rest (sock_close ?c1) \<and> length (ht_buf c') = 1025 \<or>
     r = HTTP_OK \<and> after_head (length (sv_body sv) - k) (sv_headers sv k) ?c1 c' \<and> holds n' c' \<and> n' \<le> 512 \<and>
       ahead n ?c1 = head_text (sv_headers sv k) @ ahead n' c' \<and> (fails (incoming c') \<longleftrightarrow> fails (incoming ?c1))"
    unfolding head_result_def by blast
  have k1: "kept c ?c1" using kept_trans[OF head(2) kept_rest[of ?c1 c1]] mem(2) by (simp add: holds_chunked)
  show ?thesis
  proof (cases "r = HTTP_OK")
    case False
    then have e: "r = HTTP_CONN" "rest c' = rest (sock_close ?c1)" "length (ht_buf c') = 1025" using y(2) by auto
    have "kept c c'" using kept_trans[OF kept_close[OF k1] kept_rest[OF e(2,3)]] .
    then show ?thesis using y(1) e(1) by (simp add: exchange_ok_def)
  next
    case True
    then have o: "after_head (length (sv_body sv) - k) (sv_headers sv k) ?c1 c'" "holds n' c'"
      "ahead n ?c1 = head_text (sv_headers sv k) @ ahead n' c'" using y(2) by auto
    have r: "rest c' = rest ?c1" using o(1) by (simp only: after_head_def)
    have "kept c c'" using kept_trans[OF k1 kept_rest[OF r]] o(2) by (simp add: holds_def)
    moreover have "ht_content_len c' = of_nat (length (sv_body sv) - k) + ht_recv_size c'" "\<not> ht_chunked c'"
      using o(1) gh(2,3) rest_fields(4)[OF r] by (simp_all add: after_head_def)
    moreover have "prefix (ahead n' c') (drop k (sv_body sv))" using head(5) o(3) by (simp add: holds_chunked)
    ultimately show ?thesis using y(1) True holds_room[OF o(2)] by (simp add: exchange_ok_def)
  qed
qed

lemma exchange_returns:
  assumes "ht_live c" "ht_sent c = []" "ht_in c = None" "quiet c" "good_server sv" "serves sv (ht_headers c) (ht_peer c)"
    and "ht_recv_size c = of_nat k" "k \<le> length (sv_body sv)" "head_arrives sv (ht_headers c) (ht_peer c)"
  shows "exchange HTTP_GET u rv c \<noteq> None"
  using assms(1-8)
proof (cases rule: exchange_head[where u = u and rv = rv])
  case (head n c1)
  let ?c1 = "c1\<lparr>ht_chunked := False\<rparr>"
  have gh: "good_head (length (sv_body sv) - k) (sv_headers sv k)" using assms(5,8) by (auto simp: good_server_def)
  have "ht_mem ?c1 = []" using head(2) assms(4) by (auto simp: kept_def quiet_def)
  moreover have "fails (incoming c1) \<or> length (head_text (sv_headers sv k)) \<le> length (ahead n c1)"
    using assms(9)[unfolded head_arrives_def Let_def, rule_format, OF assms(8), of "ur_path u" "ur_host u"]
      head(6,7) assms(7) by auto
  ultimately have "recv_headers_loop 512 n 0 n ?c1 \<noteq> None"
    using head(3-5) gh by (intro recv_headers_loop_returns) (simp_all add: holds_chunked fits_int_def)
  then show ?thesis using head(1) by (simp add: http_client_recv_headers_and_parse_def)
qed simp

section \<open>One attempt\<close>

lemma open_and_connect_spec:
  assumes "quiet c" "open_and_connect u c = (r, c1)"
  shows "kept c c1 \<and> (0 \<le> r \<longrightarrow> ht_live c1 \<and> ht_sent c1 = [] \<and> ht_in c1 = None \<and> Some (ht_peer c1) \<in> set (ht_peers c))"
proof -
  define c0 where "c0 = (if ht_location c \<noteq> None \<or> ht_retry c \<noteq> 0 then sock_open c else c)"
  have k0: "kept c c0" "ht_peers c0 = ht_peers c" "quiet c0"
    using assms(1) by (auto simp: c0_def kept_def quiet_def delivered_def sock_open_def)
  have "sock_connect (ur_host u) (if ur_port u = 0 then 80 else ur_port u) c0 = (r, c1)"
    using assms(2) by (simp add: open_and_connect_def c0_def Let_def)
  then have "kept c0 c1 \<and> (0 \<le> r \<longrightarrow> ht_live c1 \<and> ht_sent c1 = [] \<and> ht_in c1 = None \<and> Some (ht_peer c1) \<in> set (ht_peers c0))"
    using k0(3) by (auto simp: sock_connect_def kept_def quiet_def delivered_def Let_def split: if_splits list.splits option.splits)
  then show ?thesis using kept_trans[OF k0(1)] k0(2) by simp
qed

definition connect_ok :: "server \<Rightarrow> nat \<Rightarrow> http \<Rightarrow> connect_step option \<Rightarrow> bool" where
  "connect_ok sv k c y \<longleftrightarrow> (\<exists>r n c'. y = Some (Done r n c') \<and> exchange_ok sv k c (Some (r, n, c')))"

lemma exchange_ok_kept: "kept c0 c \<Longrightarrow> exchange_ok sv k c y \<Longrightarrow> exchange_ok sv k c0 y"
  unfolding exchange_ok_def using kept_trans by blast

lemma exchange_ok_conn: "kept c c' \<Longrightarrow> exchange_ok sv k c (Some (HTTP_CONN, n, c'))"
  by (simp add: exchange_ok_def)

lemma connect_once_cases:
  assumes "progress sv d0 k c" "http_client_parse_url url (length url + 1) False = Some (Some u)"
  obtains
    (refused) n c' where "connect_once HTTP_GET url False rv c = Some (Some (Done HTTP_CONN n c'))" "kept c c'"
  | (connected) c1 where "kept c c1" "ht_live c1" "ht_sent c1 = []" "ht_in c1 = None" "Some (ht_peer c1) \<in> set (ht_peers c)" "quiet c1"
      "serves sv (ht_headers c1) (ht_peer c1)" "ht_recv_size c1 = of_nat k" "k \<le> length (sv_body sv)"
      "connect_once HTTP_GET url False rv c =
         (case exchange HTTP_GET u rv c1 of
            None \<Rightarrow> None
          | Some None \<Rightarrow> Some None
          | Some (Some (r2, rv2, c2)) \<Rightarrow>
              if r2 = HTTP_REDIRECTTION then
                (let (r3, rel, c3) = http_client_parse_redirect_location (ur_path u) c2
                 in Some (Some (if r3 \<noteq> HTTP_OK then Done r3 rv2 c3 else Redirect (the (ht_location c3)) rel rv2 c3)))
              else if r2 \<noteq> HTTP_OK then Some (Some (Done r2 rv2 c2))
              else Some (Some (Done HTTP_OK rv2 (if ht_url_cb c2 then c2\<lparr>ht_urls := ht_urls c2 @ [url]\<rparr> else c2))))"
proof -
  have q: "quiet c" "ht_mem c = []" using assms(1) by (auto simp: progress_def quiet_def)
  obtain r c1 where o: "open_and_connect u c = (r, c1)" by fastforce
  note sp = open_and_connect_spec[OF q(1) o]
  show thesis
  proof (cases "r < 0")
    case True
    have "connect_once HTTP_GET url False rv c = Some (Some (Done HTTP_CONN rv (sock_close c1)))"
      using assms(2) True o malloc_free[OF q(2)] by (simp add: connect_once_def)
    then show thesis using refused kept_close sp by blast
  next
    case False
    have p: "serves sv (ht_headers c) (ht_peer c1)" using assms(1) sp False by (simp add: progress_def)
    show thesis
      by (rule connected[of c1])
        (use sp False p q assms o malloc_free[OF q(2)] in \<open>auto simp: kept_def progress_def connect_once_def Let_def\<close>)
  qed
qed

lemma exchange_ok_url:
  "exchange_ok sv k c (Some (HTTP_OK, n, c2)) \<Longrightarrow> exchange_ok sv k c (Some (HTTP_OK, n, c2\<lparr>ht_urls := us\<rparr>))"
  by (simp add: exchange_ok_def kept_def quiet_def delivered_def room_def ahead_def incoming_def split: option.splits)

lemma connect_once_spec:
  assumes "progress sv d0 k c" "good_server sv" "http_client_parse_url url (length url + 1) False = Some (Some u)"
    and "connect_once HTTP_GET url False rv c = Some y"
  shows "connect_ok sv k c y"
  using assms(1,3)
proof (cases rule: connect_once_cases[where rv = rv])
  case (refused n c')
  then show ?thesis using assms(4) exchange_ok_conn by (auto simp: connect_ok_def)
next
  case (connected c1)
  obtain z where z: "exchange HTTP_GET u rv c1 = Some z" using connected(10) assms(4) by (cases "exchange HTTP_GET u rv c1") auto
  have ok: "exchange_ok sv k c1 z" by (rule exchange_spec[OF connected(2-4,6) assms(2) connected(7-9) z])
  then obtain r n c2 where zz: "z = Some (r, n, c2)" "r = HTTP_CONN \<or> r = HTTP_PRTCL \<or> r = HTTP_OK"
    by (auto simp: exchange_ok_def)
  have ok2: "exchange_ok sv k c (Some (r, n, c2))" using exchange_ok_kept[OF connected(1) ok] zz(1) by simp
  have "y = Some (Done r n (if r = HTTP_OK \<and> ht_url_cb c2 then c2\<lparr>ht_urls := ht_urls c2 @ [url]\<rparr> else c2))"
    using connected(10) assms(4) zz by (auto simp: z)
  then show ?thesis using ok2 exchange_ok_url[of sv k c n c2] by (auto simp: connect_ok_def)
qed

lemma connect_once_returns:
  assumes "progress sv d0 k c" "good_server sv" "http_client_parse_url url (length url + 1) False = Some (Some u)"
    and "\<forall>p. Some p \<in> set (ht_peers c) \<longrightarrow> head_arrives sv (ht_headers c) p"
  shows "connect_once HTTP_GET url False rv c \<noteq> None"
  using assms(1,3)
proof (cases rule: connect_once_cases[where rv = rv])
  case (connected c1)
  have "exchange HTTP_GET u rv c1 \<noteq> None"
    using exchange_returns[OF connected(2-4,6) assms(2) connected(7-9)] assms(4) connected(1,5) by (auto simp: kept_def)
  then show ?thesis using connected(10) by (auto split: option.splits prod.splits)
qed simp

lemma connect_unfold:
  "ht_mem c = [] \<Longrightarrow> http_client_connect (Some url) HTTP_GET rv c = connect_loop (Suc HC_REDIRECTION_MAX) HTTP_GET url False 0 c"
  by (simp add: http_client_connect_def malloc_free)

lemma connect_spec:
  assumes "progress sv d0 k c" "good_server sv" "http_client_parse_url url (length url + 1) False = Some (Some u)"
    and "http_client_connect (Some url) HTTP_GET rv c = Some y"
  shows "exchange_ok sv k c y"
proof -
  have m: "ht_mem c = []" using assms(1) by (simp add: progress_def quiet_def)
  obtain z where z: "connect_once HTTP_GET url False 0 c = Some z"
    using assms(4) unfolding connect_unfold[OF m] by (auto split: option.splits)
  from connect_once_spec[OF assms(1-3) z] show ?thesis
    using assms(4) unfolding connect_unfold[OF m] by (auto simp: z connect_ok_def)
qed

lemma connect_returns:
  assumes "progress sv d0 k c" "good_server sv" "http_client_parse_url url (length url + 1) False = Some (Some u)"
    and "\<forall>p. Some p \<in> set (ht_peers c) \<longrightarrow> head_arrives sv (ht_headers c) p"
  shows "http_client_connect (Some url) HTTP_GET rv c \<noteq> None"
proof -
  have m: "ht_mem c = []" using assms(1) by (simp add: progress_def quiet_def)
  obtain z where z: "connect_once HTTP_GET url False 0 c = Some z" using connect_once_returns[OF assms] by blast
  from connect_once_spec[OF assms(1-3) z] show ?thesis
    unfolding connect_unfold[OF m] by (auto simp: z connect_ok_def)
qed

text \<open>An attempt gets on by some number of bytes, and has all of them when it succeeds.\<close>

definition attempt_ok :: "server \<Rightarrow> string \<Rightarrow> nat \<Rightarrow> http \<Rightarrow> (bool \<times> e_http_result \<times> nat \<times> http) option \<Rightarrow> bool" where
  "attempt_ok sv d0 k c y \<longleftrightarrow> (\<exists>again r n c' k'. y = Some (again, r, n, c') \<and> k \<le> k' \<and> progress sv d0 k' c' \<and>
     set (ht_peers c') \<subseteq> set (ht_peers c) \<and> ht_headers c' = ht_headers c \<and> (r = HTTP_OK \<longrightarrow> k' = length (sv_body sv)) \<and> (again \<longrightarrow> r = HTTP_CONN))"

lemma progress_kept: "progress sv d0 k c \<Longrightarrow> kept c c' \<Longrightarrow> progress sv d0 k c'"
  unfolding progress_def kept_def by auto

lemma progress_got:
  assumes "progress sv d0 k c" "got e c c'" "prefix e (drop k (sv_body sv))" "ht_stops c' = []" "length (ht_buf c') = 1025"
  shows "progress sv d0 (k + length e) c'"
proof -
  have f: "core c' = core c" using assms(2) by (simp add: got_def)
  have q: "quiet c'" using assms(1,4,5) core_fields[OF f] by (simp add: progress_def quiet_def)
  have "k \<le> length (sv_body sv)" using assms(1) by (simp add: progress_def)
  moreover have "length e \<le> length (sv_body sv) - k" using prefix_length_le[OF assms(3)] by simp
  ultimately have l: "k + length e \<le> length (sv_body sv)" by linarith
  have "take (length e) (drop k (sv_body sv)) = e" using assms(3) by (auto simp: prefix_def)
  then have "take (k + length e) (sv_body sv) = take k (sv_body sv) @ e" by (simp add: take_add)
  then show ?thesis using assms(1,2) q l core_fields[OF f] by (simp add: progress_def got_def)
qed

lemma progress_update: "progress sv d0 k (sock_close c) = progress sv d0 k c" "progress sv d0 k (c\<lparr>ht_retry := x\<rparr>) = progress sv d0 k c"
  by (simp_all add: progress_def quiet_def delivered_def sock_close_def)

lemma get_attempt_spec:
  assumes "progress sv d0 k c" "good_server sv" "http_client_parse_url url (length url + 1) False = Some (Some u)"
    and "get_attempt (Some url) ret rv c = Some y"
  shows "attempt_ok sv d0 k c y"
proof -
  have st: "check_stop c = (False, c)" using assms(1) by (simp add: progress_def quiet_def check_stop_def)
  obtain z where z: "http_client_connect (Some url) HTTP_GET rv c = Some z"
    using assms(4) by (auto simp: get_attempt_def st split: option.splits)
  obtain r n c2 where c2: "z = Some (r, n, c2)" "kept c c2" "r = HTTP_CONN \<or> r = HTTP_PRTCL \<or>
      r = HTTP_OK \<and> room n c2 \<and> \<not> ht_chunked c2 \<and>
        ht_content_len c2 = of_nat (length (sv_body sv) - k) + ht_recv_size c2 \<and> prefix (ahead n c2) (drop k (sv_body sv))"
    using connect_spec[OF assms(1-3) z] by (auto simp: exchange_ok_def)
  have p2: "progress sv d0 k c2" by (rule progress_kept[OF assms(1) c2(2)])
  have sub: "set (ht_peers c2) \<subseteq> set (ht_peers c)" "ht_headers c2 = ht_headers c" using c2(2) by (simp_all add: kept_def)
  from c2(3) consider "r = HTTP_CONN" | "r = HTTP_PRTCL" | "r = HTTP_OK" by blast
  then show ?thesis
  proof cases
    case 1
    then have "y = Some (True, HTTP_CONN, n, c2\<lparr>ht_retry := ht_retry c2 + 1\<rparr>)"
      using assms(4) by (simp add: get_attempt_def st z c2(1))
    then show ?thesis using p2 sub by (auto simp: attempt_ok_def progress_update)
  next
    case 2
    then have "y = Some (False, HTTP_PRTCL, n, c2)" using assms(4) by (simp add: get_attempt_def st z c2(1))
    then show ?thesis using p2 sub by (auto simp: attempt_ok_def)
  next
    case 3
    then have o: "room n c2" "\<not> ht_chunked c2" "ht_content_len c2 = of_nat (length (drop k (sv_body sv))) + ht_recv_size c2"
      "prefix (ahead n c2) (drop k (sv_body sv))" using c2(3) by auto
    have q: "ht_stops c2 = []" "ht_handler c2" using p2 by (auto simp: progress_def quiet_def)
    have "length (sv_body sv) < 2 ^ 31" using assms(2) by (simp add: good_server_def)
    moreover have "length (drop k (sv_body sv)) \<le> length (sv_body sv)" by simp
    ultimately have "length (drop k (sv_body sv)) < 2 ^ 31" by linarith
    from recv_content_data_spec[OF o(1) q o(3) this o(4)] obtain r' c3 e where
      d: "http_client_recv_content_data 1024 n c2 = Some (r', c3)" "got e c2 c3" "prefix e (drop k (sv_body sv))"
        "r' = HTTP_OK \<longrightarrow> e = drop k (sv_body sv)" "r' \<in> {HTTP_OK, HTTP_CONN, HTTP_FAILED}" "ht_stops c3 = []" "length (ht_buf c3) = 1025"
      by blast
    have p3: "progress sv d0 (k + length e) c3" by (rule progress_got[OF p2 d(2,3,6,7)])
    have s3: "set (ht_peers c3) \<subseteq> set (ht_peers c)" "ht_headers c3 = ht_headers c" using d(2) sub core_fields(5,9)[of c3 c2] by (simp_all add: got_def)
    have k3: "k + length e = length (sv_body sv)" if "r' = HTTP_OK" using d(4) that assms(1) by (simp add: progress_def)
    have g: "duer_http_client_get_data n c2 = Some (Some (r', sock_close c3))"
      using d(1) o(2) by (simp add: duer_http_client_get_data_def HC_CHUNK_SIZE_def)
    have y: "y = Some (r' = HTTP_CONN, r', n, if r' = HTTP_CONN then (sock_close c3)\<lparr>ht_retry := ht_retry (sock_close c3) + 1\<rparr> else sock_close c3)"
    proof (cases "r' = HTTP_CONN")
      case True
      then show ?thesis using assms(4) by (simp add: get_attempt_def st z c2(1) g 3)
    next
      case False
      then have "r' \<noteq> HTTP_CONN \<and> r' \<noteq> HTTP_TIMEOUT" using d(5) by auto
      then show ?thesis using assms(4) by (simp add: get_attempt_def st z c2(1) g 3)
    qed
    have s4: "set (ht_peers (sock_close c3)) \<subseteq> set (ht_peers c)" "ht_headers (sock_close c3) = ht_headers c" using s3 by (simp_all add: sock_close_def)
    have p4: "progress sv d0 (k + length e) (sock_close c3)" using p3 by (simp only: progress_update)
    have p5: "progress sv d0 (k + length e) ((sock_close c3)\<lparr>ht_retry := x\<rparr>)" for x using p4 by (simp only: progress_update)
    show ?thesis
      unfolding attempt_ok_def y
      by (intro exI[of _ "r' = HTTP_CONN"] exI[of _ r'] exI[of _ n] exI[of _ "k + length e"]
          exI[of _ "if r' = HTTP_CONN then (sock_close c3)\<lparr>ht_retry := ht_retry (sock_close c3) + 1\<rparr> else sock_close c3"])
        (simp add: p4 p5 s4 k3)
  qed
qed

lemma get_attempt_returns:
  assumes "progress sv d0 k c" "good_server sv" "http_client_parse_url url (length url + 1) False = Some (Some u)"
    and "\<forall>p. Some p \<in> set (ht_peers c) \<longrightarrow> head_arrives sv (ht_headers c) p"
  shows "get_attempt (Some url) ret rv c \<noteq> None"
proof -
  have st: "check_stop c = (False, c)" using assms(1) by (simp add: progress_def quiet_def check_stop_def)
  obtain z where z: "http_client_connect (Some url) HTTP_GET rv c = Some z" using connect_returns[OF assms] by blast
  have "exchange_ok sv k c z" by (rule connect_spec[OF assms(1-3) z])
  then obtain r n c2 where "z = Some (r, n, c2)" "r = HTTP_CONN \<or> r = HTTP_PRTCL \<or> r = HTTP_OK \<and> \<not> ht_chunked c2"
    by (auto simp: exchange_ok_def)
  then show ?thesis by (auto simp: get_attempt_def st z duer_http_client_get_data_def)
qed

section \<open>The transfer\<close>

lemma get_loop_spec:
  assumes "progress sv d0 k c" "good_server sv" "http_client_parse_url url (length url + 1) False = Some (Some u)"
    and "get_loop m (Some url) ret rv c = Some y" "m = 0 \<longrightarrow> ret \<noteq> HTTP_OK"
  shows "\<exists>r c' k'. y = Some (r, c') \<and> progress sv d0 k' c' \<and> (r = HTTP_OK \<longrightarrow> k' = length (sv_body sv))"
  using assms(1,4,5)
proof (induction m arbitrary: k ret rv c)
  case 0
  then show ?case by auto
next
  case (Suc m)
  obtain z where z: "get_attempt (Some url) ret rv c = Some z" using Suc.prems(2) by (auto split: option.splits)
  obtain again r n c' k' where a: "z = Some (again, r, n, c')" "progress sv d0 k' c'" "r = HTTP_OK \<longrightarrow> k' = length (sv_body sv)"
    "again \<longrightarrow> r = HTTP_CONN"
    using get_attempt_spec[OF Suc.prems(1) assms(2,3) z] by (auto simp: attempt_ok_def)
  show ?case
  proof (cases again)
    case True
    then have "get_loop m (Some url) r n c' = Some y" using Suc.prems(2) z a(1) by simp
    then show ?thesis using Suc.IH[OF a(2)] a(4) True by simp
  next
    case False
    then show ?thesis using Suc.prems(2) z a by auto
  qed
qed

lemma get_loop_returns:
  assumes "progress sv d0 k c" "good_server sv" "http_client_parse_url url (length url + 1) False = Some (Some u)"
    and "\<forall>p. Some p \<in> set (ht_peers c) \<longrightarrow> head_arrives sv (ht_headers c) p"
  shows "get_loop m (Some url) ret rv c \<noteq> None"
  using assms(1,4)
proof (induction m arbitrary: k ret rv c)
  case (Suc m)
  obtain z where z: "get_attempt (Some url) ret rv c = Some z"
    using get_attempt_returns[OF Suc.prems(1) assms(2,3) Suc.prems(2)] by blast
  obtain again r n c' k' where a: "z = Some (again, r, n, c')" "progress sv d0 k' c'" "set (ht_peers c') \<subseteq> set (ht_peers c)"
    "ht_headers c' = ht_headers c"
    using get_attempt_spec[OF Suc.prems(1) assms(2,3) z] by (auto simp: attempt_ok_def)
  have "get_loop m (Some url) r n c' \<noteq> None" by (rule Suc.IH[OF a(2)]) (use a(3,4) Suc.prems(2) in auto)
  then show ?case using z a(1) by simp
qed simp

section \<open>A whole download\<close>

lemma get_end_fields: "delivered (get_end c) = delivered c"
  by (simp add: get_end_def)

text \<open>C8: whatever a server sends of the right replies with a content length (not in chunks, and without
  redirections), and however often the connection breaks, while memory lasts and nobody stops the
  download: if the download returns, the data handler has got a part of the document from its beginning,
  without gaps and without repetitions, and all of it when the result is success.\<close>

theorem download_resumes:
  assumes "good_server sv" "quiet (c\<lparr>ht_buf := fresh\<rparr>)"
    and "http_client_parse_url url (length url + 1) False = Some (Some u)"
    and "\<And>p. Some p \<in> set (ht_peers c) \<Longrightarrow> serves sv (ht_headers c) p"
    and "duer_http_client_get fresh (Some url) 0 c = Some y"
  shows "\<exists>r c' k. y = Some (r, c') \<and> delivered c' = delivered c @ take k (sv_body sv) \<and>
    (r = HTTP_OK \<longrightarrow> k = length (sv_body sv))"
proof -
  let ?c = "c\<lparr>ht_data_pos := DATA_FIRST, ht_retry := 0, ht_recv_size := 0, ht_content_len := 0, ht_buf := fresh\<rparr>"
  have p: "progress sv (delivered c) 0 ?c" using assms(2,4) by (simp add: progress_def quiet_def delivered_def)
  have m: "ht_mem c = []" using assms(2) by (simp add: quiet_def)
  obtain z where z: "get_loop (Suc HC_MAX_RETRY_RESUME_COUNT) (Some url) HTTP_OK 0 ?c = Some z"
    using assms(5) m by (auto simp: duer_http_client_get_def malloc_free)
  obtain r c' k where "z = Some (r, c')" "progress sv (delivered c) k c'" "r = HTTP_OK \<longrightarrow> k = length (sv_body sv)"
    using get_loop_spec[OF p assms(1,3) z] by auto
  moreover from this have "y = Some (r, (get_end c')\<lparr>ht_buf := []\<rparr>)"
    using assms(5) m z by (simp add: duer_http_client_get_def malloc_free del: get_loop.simps)
  moreover have "delivered ((get_end c')\<lparr>ht_buf := []\<rparr>) = delivered c'"
    using get_end_fields[of c'] by (simp add: delivered_def)
  ultimately show ?thesis
    by (intro exI[of _ r] exI[of _ "(get_end c')\<lparr>ht_buf := []\<rparr>"] exI[of _ k]) (simp add: progress_def)
qed

text \<open>C20: a download from a server that sends parts of the right replies returns with a result, not a fault, as
  long as no connection is closed before the head of its reply is complete: a connection may break with an
  error anywhere, or be closed anywhere behind the head.\<close>

theorem download_returns:
  assumes "good_server sv" "quiet (c\<lparr>ht_buf := fresh\<rparr>)"
    and "http_client_parse_url url (length url + 1) False = Some (Some u)"
    and "\<And>p. Some p \<in> set (ht_peers c) \<Longrightarrow> serves sv (ht_headers c) p \<and> head_arrives sv (ht_headers c) p"
  shows "\<exists>r c'. duer_http_client_get fresh (Some url) 0 c = Some (Some (r, c'))"
proof -
  let ?c = "c\<lparr>ht_data_pos := DATA_FIRST, ht_retry := 0, ht_recv_size := 0, ht_content_len := 0, ht_buf := fresh\<rparr>"
  have p: "progress sv (delivered c) 0 ?c" using assms(2,4) by (simp add: progress_def quiet_def delivered_def)
  have m: "ht_mem c = []" using assms(2) by (simp add: quiet_def)
  have "get_loop (Suc HC_MAX_RETRY_RESUME_COUNT) (Some url) HTTP_OK 0 ?c \<noteq> None"
    by (rule get_loop_returns[OF p assms(1,3)]) (use assms(4) in simp)
  then obtain z where z: "get_loop (Suc HC_MAX_RETRY_RESUME_COUNT) (Some url) HTTP_OK 0 ?c = Some z" by blast
  obtain r c' k where "z = Some (r, c')" using get_loop_spec[OF p assms(1,3) z] by auto
  then show ?thesis using m z by (simp add: duer_http_client_get_def malloc_free del: get_loop.simps)
qed

section \<open>A connection closed inside the head\<close>

lemma exchange_stuck:
  assumes "ht_live c" "ht_sent c = []" "ht_in c = None" "quiet c" "good_status sl" "LF \<notin> set h" "length h < 512"
    and "\<And>req. data_of (ht_peer c req) = sl @ CRLF @ h" "\<And>req. \<not> fails (ht_peer c req)"
  shows "exchange HTTP_GET u rv c = None"
proof -
  obtain b where b: "exchange HTTP_GET u rv c =
      (let c2 = c\<lparr>ht_sent := request_all (ht_headers c) (ur_path u) (ur_host u) (ht_recv_size c), ht_buf := b\<rparr>
       in case http_client_recv_rsp_and_parse 100 rv c2 of
            None \<Rightarrow> Some None
          | Some (r3, rv3, c3) \<Rightarrow>
              if r3 \<noteq> HTTP_OK then Some (Some (r3, rv3, c3)) else http_client_recv_headers_and_parse 512 rv3 c3)" "length b = 1025"
    using exchange_sent[OF assms(1,2,4)] by blast
  let ?c2 = "c\<lparr>ht_sent := request_all (ht_headers c) (ur_path u) (ur_host u) (ht_recv_size c), ht_buf := b\<rparr>"
  have inc: "data_of (incoming ?c2) = sl @ CRLF @ h" "\<not> fails (incoming ?c2)" using assms(3,8,9) by (simp_all add: incoming_def)
  have l2: "ht_live ?c2" "length (ht_buf ?c2) = 1025" using assms(1) b(2) by simp_all
  have pre: "prefix (data_of (incoming ?c2)) (sl @ CRLF @ h)" unfolding inc(1) by simp
  obtain n c1 where r: "http_client_recv_rsp_and_parse 100 rv ?c2 = Some (HTTP_OK, n, c1)" "holds n c1" "n \<le> 100"
    "data_of (incoming ?c2) = sl @ CRLF @ ahead n c1" "fails (incoming c1) \<longleftrightarrow> fails (incoming ?c2)"
    using rsp_spec[OF l2 assms(5) pre, of rv] inc by fastforce
  have "ahead n c1 = h" using r(4) inc(1) by simp
  then have "recv_headers_loop 512 n 0 n (c1\<lparr>ht_chunked := False\<rparr>) = None"
    using recv_headers_loop_stuck[of 512 n 0 n "c1\<lparr>ht_chunked := False\<rparr>"] r(2,5) inc(2) assms(6,7)
    by (cases "recv_headers_loop 512 n 0 n (c1\<lparr>ht_chunked := False\<rparr>)") (simp_all add: holds_chunked)
  then show ?thesis using b(1) r(1) by (simp add: http_client_recv_headers_and_parse_def Let_def)
qed

text \<open>C33: when a server sends a good status line and closes the connection inside the first header line (less than
  512 bytes of it, no line feed yet), the client asks for more for ever: a download does not return.\<close>

theorem head_close_spins:
  assumes "ht_live c" "quiet (c\<lparr>ht_buf := fresh\<rparr>)"
    and "http_client_parse_url url (length url + 1) False = Some (Some u)" "ht_peers c = Some p # ps"
    and "\<And>req. data_of (p req) = sl @ CRLF @ h" "\<And>req. \<not> fails (p req)"
    and "good_status sl" "LF \<notin> set h" "length h < 512"
  shows "duer_http_client_get fresh (Some url) 0 c = None"
proof -
  let ?c = "c\<lparr>ht_data_pos := DATA_FIRST, ht_retry := 0, ht_recv_size := 0, ht_content_len := 0, ht_buf := fresh\<rparr>"
  have q: "quiet ?c" "ht_mem c = []" "ht_location c = None" "ht_stops c = []" using assms(2) by (auto simp: quiet_def)
  let ?port = "if ur_port u = 0 then 80 else ur_port u"
  let ?c1 = "?c\<lparr>ht_connects := ht_connects c @ [(ur_host u, ?port)], ht_peers := ps, ht_peer := p, ht_sent := [], ht_in := None\<rparr>"
  have o: "open_and_connect u ?c = (0, ?c1)"
    using assms(1,4) q(3) by (simp add: open_and_connect_def sock_connect_def)
  have "exchange HTTP_GET u 0 ?c1 = None"
    by (rule exchange_stuck[OF _ _ _ _ assms(7-9)]) (use assms(1,5,6) q(1) in \<open>auto simp: quiet_def\<close>)
  then have "connect_once HTTP_GET url False 0 ?c = None"
    using assms(3) o q(2) by (simp add: connect_once_def malloc_free)
  then show ?thesis
    using q by (simp add: duer_http_client_get_def malloc_free get_attempt_def check_stop_def connect_unfold)
qed

end
