(* ===== verification/HttpChunk.thy ===== *)
theory HttpChunk
  imports HttpFlow
begin

text \<open>
  Content in chunks: what a peer sends as chunks of any sizes reaches the data handler as their
  concatenation, whatever pieces it arrives in. A size at the end of the range makes the code copy more
  than it has.
\<close>

section \<open>Hexadecimal numbers\<close>

lemma of_char_hex_char: "k < 16 \<Longrightarrow> of_char (hex_char k) = (if k < 10 then 48 + k else 87 + k)"
  by (simp add: hex_char_def of_char_digit)

lemma hex_digit_hex_char [simp]: "k < 16 \<Longrightarrow> hex_digit (hex_char k)"
  by (auto simp: hex_digit_def of_char_hex_char is_digit_def)

lemma hex_val_hex_char [simp]: "k < 16 \<Longrightarrow> hex_val (hex_char k) = k"
  by (auto simp: hex_val_def of_char_hex_char)

lemma hex_all: "list_all hex_digit (hex n)"
  by (induction n rule: hex.induct) (subst hex.simps, simp)

lemma hex_neq_Nil [simp]: "hex n \<noteq> []"
  by (subst hex.simps) simp

lemma hex_value: "foldl (\<lambda>n c. 16 * n + hex_val c) 0 (hex n) = n"
proof (induction n rule: hex.induct)
  case (1 n)
  then show ?case by (subst hex.simps) simp
qed

lemma length_hex: "n < 16 ^ k \<Longrightarrow> length (hex n) \<le> max 1 k"
proof (induction n arbitrary: k rule: hex.induct)
  case (1 n)
  show ?case
  proof (cases "n < 16")
    case True
    then show ?thesis by (subst hex.simps) simp
  next
    case False
    then obtain j where k: "k = Suc j" using 1(2) by (cases k) auto
    have "n div 16 < 16 ^ j" using 1(2) by (simp add: k div_less_iff_less_mult mult.commute)
    then have "length (hex (n div 16)) \<le> max 1 j" by (rule 1(1)[OF False])
    moreover have "j \<noteq> 0" using 1(2) False k by (cases j) auto
    ultimately show ?thesis using False by (subst hex.simps) (simp add: k)
  qed
qed

lemma hex_digit_not_special:
  "hex_digit c \<Longrightarrow> \<not> atoi_space c \<and> c \<noteq> CHR ''-'' \<and> c \<noteq> CHR ''+'' \<and> c \<noteq> CHR ''x'' \<and> c \<noteq> CHR ''X'' \<and> c \<noteq> LF \<and> c \<noteq> NUL"
  by (auto simp: hex_digit_def is_digit_def atoi_space_def Let_def)

lemma notin_hex: "LF \<notin> set (hex n)" "NUL \<notin> set (hex n)"
  using hex_all[of n] hex_digit_not_special by (auto simp: list_all_iff)

lemma skip_0x_hex: "list_all hex_digit s \<Longrightarrow> skip_0x s = s"
proof (cases s)
  case (Cons c t)
  moreover assume "list_all hex_digit s"
  ultimately show ?thesis using hex_digit_not_special by (cases t) (auto simp: skip_0x_def)
qed (simp add: skip_0x_def)

lemma scan_x_hex: "scan_x (hex n) = Some (int n)"
proof -
  obtain c u where c: "hex n = c # u" using hex_neq_Nil by (meson list.exhaust)
  have d: "hex_digit c" using hex_all[of n] by (simp add: c)
  have "dropWhile atoi_space (hex n) = hex n" "scan_sign (hex n) = (False, hex n)"
    using hex_digit_not_special[OF d] by (simp_all add: c)
  moreover have "takeWhile hex_digit (hex n) = hex n" using hex_all[of n] by (simp add: list_all_iff)
  ultimately show ?thesis by (simp add: scan_x_def skip_0x_hex[OF hex_all] hex_value Let_def del: takeWhile_eq_all_conv)
qed

section \<open>The reader between two steps\<close>

definition chunk_ready :: "nat \<Rightarrow> string \<Rightarrow> http \<Rightarrow> bool" where
  "chunk_ready n cb c \<longleftrightarrow> room n c \<and> ht_stops c = [] \<and> ht_handler c \<and> \<not> fails (incoming c) \<and> length cb < 1024"

lemma chunk_ready_cb: "chunk_ready n cb c \<Longrightarrow> length cb' < 1024 \<Longrightarrow> chunk_ready n cb' c"
  by (simp add: chunk_ready_def)

lemma shift_room:
  assumes "length b = 1025" "n \<le> 1024" "k \<le> n"
  shows "\<exists>b'. buf_shift k (n - k + 1) b = Some b' \<and> length b' = 1025 \<and> take (n - k) b' = drop k (take n b)"
  using shift_ok[of "b[n := NUL]" n k] assms
proof -
  let ?x = "take (n - k + 1) (drop k b)"
  have lx: "length ?x = n - k + 1" using assms by simp
  have "memget k (n - k + 1) b = Some ?x" using assms by (simp add: memget_def)
  moreover have "memput 0 ?x b = Some (?x @ drop (length ?x) b)" using lx assms by (intro memput_0) simp
  ultimately have "buf_shift k (n - k + 1) b = Some (?x @ drop (length ?x) b)" by (simp add: buf_shift_def)
  moreover have "take (n - k) (?x @ drop (length ?x) b) = drop k (take n b)"
    using lx assms(3) by (simp add: drop_take)
  moreover have "length (?x @ drop (length ?x) b) = 1025" using assms by simp
  ultimately show ?thesis by blast
qed

text \<open>Filling the buffer loses nothing, and stops early only at the end.\<close>

lemma fill:
  assumes "chunk_ready n cb c" "n + m \<le> 1024"
  shows "\<exists>k c'. http_client_recv n m c = Some (HTTP_OK, k, c') \<and> chunk_ready (n + k) cb c' \<and> ahead (n + k) c' = ahead n c \<and>
    delivered c' = delivered c \<and> ht_chunk_size c' = ht_chunk_size c \<and> k \<le> m \<and> (k < m \<longrightarrow> n + k = length (ahead n c))"
proof -
  have a: "ht_live c" "length (ht_buf c) = 1025" "n + m \<le> 1024" using assms by (auto simp: chunk_ready_def room_def)
  obtain r d i b where h: "http_client_recv n m c = Some (r, length d, c\<lparr>ht_in := i, ht_buf := b\<rparr>)"
    "holds (n + length d) (c\<lparr>ht_in := i, ht_buf := b\<rparr>)" "take (n + length d) b = take n (ht_buf c) @ d"
    "recv_result m (incoming c) r d (incoming (c\<lparr>ht_in := i\<rparr>))"
    by (rule recv_spec[OF a])
  let ?c = "c\<lparr>ht_in := i, ht_buf := b\<rparr>"
  have r: "r = HTTP_OK" "\<not> fails (incoming ?c)" "length d \<le> m" "length d < m \<longrightarrow> incoming ?c = []"
    using h(4) assms(1) by (auto simp: recv_result_def chunk_ready_def)
  have ah: "ahead (n + length d) ?c = ahead n c" by (rule recv_ahead[OF h(4)[unfolded r(1)] h(3)])
  have "n + length d = length (ahead n c)" if "length d < m"
    using r(4) that h(2) unfolding ah[symmetric] by (simp add: ahead_def holds_def)
  then show ?thesis
    using h(1) r ah assms(1) holds_room[OF h(2)] by (auto simp: chunk_ready_def delivered_def)
qed

section \<open>The size of a chunk\<close>

lemma ahead_take: "room n c \<Longrightarrow> ahead n c = s @ w \<Longrightarrow> length s \<le> n \<Longrightarrow> take (length s) (ht_buf c) = s"
proof -
  assume a: "room n c" "ahead n c = s @ w" "length s \<le> n"
  have "take (length s) (ahead n c) = take (length s) (take n (ht_buf c))"
    using a(1,3) by (simp add: ahead_def room_def)
  then show ?thesis using a(2,3) by (simp add: min_absorb1)
qed

lemma line_found:
  assumes "room n c" "ahead n c = hex v @ CRLF @ x # w" "length (hex v) + 3 \<le> n"
  shows "chunk_line_end n (ht_buf c) = Some (length (hex v))"
proof -
  have "take (length (hex v @ CRLF)) (ht_buf c) = hex v @ CRLF"
    by (rule ahead_take[OF assms(1)]) (use assms(2,3) in simp_all)
  moreover have "n - 1 = length (hex v @ CRLF) + (n - 3 - length (hex v))" using assms(3) by simp
  ultimately have "take (n - 1) (ht_buf c) = (hex v @ CRLF) @ take (n - 3 - length (hex v)) (drop (length (hex v @ CRLF)) (ht_buf c))"
    by (metis take_add)
  then have "strstr CRLF (take (n - 1) (ht_buf c)) = Some (length (hex v))" by (simp add: strstr_CRLF notin_hex(1))
  then show ?thesis using assms(3) by (simp add: chunk_line_end_def)
qed

lemma line_not_found:
  assumes "room n c" "ahead n c = hex v @ CRLF @ x # w" "n < length (hex v) + 3"
  shows "chunk_line_end n (ht_buf c) = None"
proof (cases "2 \<le> n")
  case True
  have "take (n - 1) (ht_buf c) = take (n - 1) (ahead n c)" using assms(1) True by (simp add: ahead_def room_def)
  also have "\<dots> = take (n - 1) (hex v @ [CR])" unfolding assms(2) using assms(3) by (cases "n - 1 - length (hex v)") auto
  finally have "LF \<notin> set (take (n - 1) (ht_buf c))" using notin_hex(1) by (auto dest: in_set_takeD)
  then show ?thesis using strstr_CRLF_None True by (simp add: chunk_line_end_def)
qed (simp add: chunk_line_end_def)

text \<open>What the size of a chunk leaves: the size, and what follows it.\<close>

definition sized :: "nat \<Rightarrow> string \<Rightarrow> string \<Rightarrow> http \<Rightarrow> (e_http_result \<times> nat \<times> http) option \<Rightarrow> bool" where
  "sized v w cb c y \<longleftrightarrow> (\<exists>n' c'. y = Some (HTTP_OK, n', c') \<and> chunk_ready n' cb c' \<and> 0 < n' \<and> n' \<le> 1021 \<and> ahead n' c' = w \<and>
     ht_chunk_size c' = of_nat v \<and> delivered c' = delivered c)"

lemma sized_delivered: "delivered c = delivered c0 \<Longrightarrow> sized v w cb c y \<Longrightarrow> sized v w cb c0 y"
  by (simp add: sized_def)

lemma read_size:
  assumes "chunk_ready n cb c" "ahead n c = hex v @ CRLF @ x # w" "v < 2 ^ 32" "length (hex v) + 3 \<le> n"
  shows "sized v (x # w) cb c (read_chunk_size (length (hex v)) n c)"
proof -
  let ?p = "length (hex v)"
  have rm: "room n c" "length (ht_buf c) = 1025" "n \<le> 1024" using assms(1) by (auto simp: chunk_ready_def room_def)
  have p: "?p < 1025" "?p + 2 \<le> n" using assms(4) rm(3) by simp_all
  have th: "take ?p (ht_buf c) = hex v" by (rule ahead_take[OF rm(1)]) (use assms(2,4) in simp_all)
  let ?b = "(ht_buf c)[?p := NUL]"
  have "?b = hex v @ NUL # drop (Suc ?p) (ht_buf c)" using th p rm(2) by (simp add: upd_conv_take_nth_drop)
  then have cs: "cstr ?b = hex v" using notin_hex(2) by (simp add: cstr_append)
  obtain b1 where b1: "buf_shift (?p + 2) (n - (?p + 2) + 1) ?b = Some b1" "length b1 = 1025"
    "take (n - (?p + 2)) b1 = drop (?p + 2) (take n ?b)"
    using shift_room[of ?b n "?p + 2"] rm p by auto
  let ?c = "c\<lparr>ht_buf := b1, ht_chunk_size := of_nat v\<rparr>"
  have "read_chunk_size ?p n c = Some (HTTP_OK, n - (?p + 2), ?c)"
    using memput_NUL[of ?p "ht_buf c"] p rm(2) cs scan_x_hex b1(1) assms(3) by (simp add: read_chunk_size_def fits_unsigned_def)
  moreover have "incoming ?c = incoming c" by (simp add: incoming_def split: option.split)
  moreover from this have "ahead (n - (?p + 2)) ?c = drop (?p + 2) (ahead n c)"
    using b1(3) p rm by (simp add: ahead_def take_update_swap drop_update_cancel)
  moreover have "drop (?p + 2) (ahead n c) = x # w" unfolding assms(2) by simp
  moreover have "n - (?p + 2) \<le> 1021" "0 < n - (?p + 2)" using rm(3) assms(4) by (cases "hex v"; simp)+
  ultimately show ?thesis
    using assms(1) rm b1(2) by (simp add: sized_def chunk_ready_def room_def delivered_def)
qed

lemma hex_short: "v < 2 ^ 32 \<Longrightarrow> length (hex v) \<le> 8"
  using length_hex[of v 8] by simp

lemma chunk_size_spec:
  assumes "chunk_ready n cb c" "ahead n c = hex v @ CRLF @ x # w" "v < 2 ^ 32"
  shows "\<exists>y. http_client_recv_chunked_size 1024 n c = Some y \<and> sized v (x # w) cb c y"
proof -
  have rm: "room n c" using assms(1) by (simp add: chunk_ready_def)
  show ?thesis
  proof (cases "length (hex v) + 3 \<le> n")
    case True
    show ?thesis
      using line_found[OF rm assms(2) True] read_size[OF assms True]
      by (subst http_client_recv_chunked_size.simps) simp
  next
    case False
    have n: "n < 1024" "n + (1024 - n) \<le> 1024" using False hex_short[OF assms(3)] by linarith+
    obtain k c' where f: "http_client_recv n (1024 - n) c = Some (HTTP_OK, k, c')" "chunk_ready (n + k) cb c'"
      "ahead (n + k) c' = ahead n c" "delivered c' = delivered c" "k \<le> 1024 - n" "k < 1024 - n \<longrightarrow> n + k = length (ahead n c)"
      using fill[OF assms(1) n(2)] by blast
    have ah: "ahead (n + k) c' = hex v @ CRLF @ x # w" using f(3) assms(2) by simp
    have "length (hex v) + 3 \<le> n + k"
      using f(5,6) n(1) hex_short[OF assms(3)] arg_cong[OF assms(2), of length] by (cases "k < 1024 - n") auto
    note s = read_size[OF f(2) ah assms(3) this] line_found[OF _ ah this]
    have "http_client_recv_chunked_size 1024 n c = http_client_recv_chunked_size 1024 (n + k) c'"
      using line_not_found[OF rm assms(2)] False n(1) f(1) by (subst http_client_recv_chunked_size.simps) simp
    also have "\<dots> = Some (read_chunk_size (length (hex v)) (n + k) c')"
      using s(2) f(2) by (subst http_client_recv_chunked_size.simps) (simp add: chunk_ready_def)
    finally show ?thesis using sized_delivered[OF f(4) s(1)] by blast
  qed
qed

section \<open>The chunk buffer\<close>

text \<open>What was handed on and what waits in the chunk buffer.\<close>

definition taken :: "string \<Rightarrow> http \<Rightarrow> string" where
  "taken cb c = delivered c @ cb"

lemma chunk_append_spec:
  assumes "chunk_ready n cb c" "length d \<le> 1024"
  shows "\<exists>cb' c'. chunk_append d cb c = Some (cb', c') \<and> chunk_ready n cb' c' \<and> taken cb' c' = taken cb c @ d \<and>
    ht_buf c' = ht_buf c \<and> incoming c' = incoming c \<and> ht_chunk_size c' = ht_chunk_size c"
proof (cases "1024 \<le> length cb + length d")
  case False
  then show ?thesis using assms by (simp add: chunk_append_def HC_CHUNK_SIZE_def chunk_ready_def taken_def)
next
  case True
  let ?t = "1024 - length cb"
  let ?c = "(hand_on_counted (cb @ take ?t d) c)\<lparr>ht_data_pos := DATA_MID\<rparr>"
  have l: "length cb < 1024" "ht_handler c" using assms(1) by (simp_all add: chunk_ready_def)
  have "chunk_append d cb c = Some (drop ?t d, ?c)"
    using True assms(2) by (simp add: chunk_append_def HC_CHUNK_SIZE_def Let_def)
  moreover have "incoming ?c = incoming c"
    by (simp add: hand_on_counted_def hand_on_def incoming_def split: option.split)
  moreover have "taken (drop ?t d) ?c = taken cb c @ d"
    using l(2) by (simp add: taken_def delivered_def hand_on_counted_def hand_on_def)
  ultimately show ?thesis
    using assms l by (simp add: chunk_ready_def room_def hand_on_counted_def hand_on_def)
qed

section \<open>One chunk\<close>

text \<open>What a step comes to that takes \<open>d\<close> and leaves \<open>w\<close>.\<close>

definition took :: "string \<Rightarrow> string \<Rightarrow> string \<Rightarrow> http \<Rightarrow> chunk_step option \<Rightarrow> bool" where
  "took d w cb c y \<longleftrightarrow> (\<exists>n' cb' c'. y = Some (Go_on n' cb' c') \<and> chunk_ready n' cb' c' \<and> ahead n' c' = w \<and>
     taken cb' c' = taken cb c @ d)"

lemma took_delivered: "delivered c = delivered c0 \<Longrightarrow> took d w cb c y \<Longrightarrow> took d w cb c0 y"
  by (simp add: took_def taken_def)

lemma small_data:
  assumes "chunk_ready n cb c" "ahead n c = d @ CRLF @ w" "ht_chunk_size c = of_nat (length d)" "length d + 2 \<le> n"
  shows "took d w cb c (small_chunk_data n cb c)"
proof -
  let ?s = "length d"
  have rm: "room n c" "length (ht_buf c) = 1025" "n \<le> 1024" using assms(1) by (auto simp: chunk_ready_def room_def)
  have s: "unat (of_nat ?s :: u32) = ?s" using assms(4) rm(3) by (intro u32_of_nat) simp
  have "unat (of_nat n :: u32) = n" "unat (of_nat ?s + 2 :: u32) = ?s + 2"
    using assms(4) rm(3) u32_of_nat[of n] u32_of_nat[of "?s + 2"] by (simp_all add: add.commute)
  then have fits: "\<not> (of_nat n :: u32) < of_nat ?s + 2" using assms(4) by (simp add: word_less_nat_alt)
  have td: "take ?s (ht_buf c) = d" by (rule ahead_take[OF rm(1) assms(2)]) (use assms(4) in simp)
  have "take (length (d @ CRLF)) (ht_buf c) = d @ CRLF" by (rule ahead_take[OF rm(1)]) (use assms(2,4) in simp_all)
  then have cr: "take 2 (drop ?s (ht_buf c)) = CRLF" by (simp add: take_drop add.commute) 
  obtain cb' c' where a: "chunk_append d cb c = Some (cb', c')" "chunk_ready n cb' c'" "taken cb' c' = taken cb c @ d"
    "ht_buf c' = ht_buf c" "incoming c' = incoming c"
    using chunk_append_spec[OF assms(1), of d] assms(4) rm(3) by auto
  obtain b where b: "buf_shift (?s + 2) (n - (?s + 2) + 1) (ht_buf c) = Some b" "length b = 1025"
    "take (n - (?s + 2)) b = drop (?s + 2) (take n (ht_buf c))"
    using shift_room[OF rm(2,3) assms(4)] by blast
  let ?c = "c'\<lparr>ht_buf := b\<rparr>"
  have "small_chunk_data n cb c = Some (Go_on (n - (?s + 2)) cb' ?c)"
    using fits s assms(3,4) td a(1,4) cr b(1) by (simp add: small_chunk_data_def Let_def)
  moreover have "ahead (n - (?s + 2)) ?c = drop (?s + 2) (ahead n c)"
    using b(3) assms(4) rm a(5) by (simp add: ahead_def)
  moreover have "drop (?s + 2) (ahead n c) = w" unfolding assms(2) by simp
  ultimately show ?thesis
    using a(2,3) b(2) by (simp add: took_def chunk_ready_def room_def taken_def delivered_def le_diff_conv)
qed

lemma stop_ready: "chunk_ready n cb c \<Longrightarrow> check_stop c = (False, c)"
  by (simp add: chunk_ready_def check_stop_def)

lemma small_chunk_spec:
  assumes "chunk_ready n cb c" "ahead n c = d @ CRLF @ w" "ht_chunk_size c = of_nat (length d)" "length d + 2 \<le> 1024"
  shows "took d w cb c (small_chunk 1024 n cb c)"
proof -
  have n: "n \<le> 1024" using assms(1) by (simp add: chunk_ready_def room_def)
  have "unat (of_nat n :: u32) = n" "unat (of_nat (length d) + 2 :: u32) = length d + 2"
    using assms(4) n u32_of_nat[of n] u32_of_nat[of "length d + 2"] by (simp_all add: add.commute)
  then have less: "(of_nat n :: u32) < of_nat (length d) + 2 \<longleftrightarrow> n < length d + 2" by (simp add: word_less_nat_alt)
  show ?thesis
  proof (cases "n < length d + 2")
    case False
    then show ?thesis using small_data[OF assms(1-3)] less assms(3) by (simp add: small_chunk_def)
  next
    case True
    obtain k c' where f: "http_client_recv n (1024 - n) c = Some (HTTP_OK, k, c')" "chunk_ready (n + k) cb c'"
      "ahead (n + k) c' = ahead n c" "delivered c' = delivered c" "ht_chunk_size c' = ht_chunk_size c"
      "k \<le> 1024 - n" "k < 1024 - n \<longrightarrow> n + k = length (ahead n c)"
      using fill[OF assms(1), of "1024 - n"] n by auto
    have "length d + 2 \<le> n + k"
      using f(6,7) n assms(4) arg_cong[OF assms(2), of length] by (cases "k < 1024 - n") auto
    then have "took d w cb c' (small_chunk_data (n + k) cb c')"
      using f(3,5) assms(2,3) by (intro small_data[OF f(2)]) simp_all
    moreover have "small_chunk 1024 n cb c = small_chunk_data (n + k) cb c'"
      using True less assms(3) f(1) stop_ready[OF assms(1)] by (simp add: small_chunk_def)
    ultimately show ?thesis using took_delivered[OF f(4)] by simp
  qed
qed

lemma large_loop_spec:
  assumes "chunk_ready n cb c" "ahead n c = d @ w" "length d = need + n" "need = 0 \<longrightarrow> n = 0" "n < 1024"
  shows "\<exists>y. large_chunk_loop 1024 need n cb c = Some y \<and> took d w cb c y \<and> (\<exists>cb' c'. y = Some (Go_on 0 cb' c'))"
  using assms
proof (induction need arbitrary: n cb c d rule: less_induct)
  case (less need)
  note pr = less.prems
  show ?case
  proof (cases "need = 0")
    case True
    then show ?thesis using pr by (subst large_chunk_loop.simps) (simp add: took_def)
  next
    case False
    let ?q = "if need < 1024 - n then need else 1024 - n"
    have q: "n + ?q \<le> 1024" "0 < ?q" "?q \<le> need" using pr(5) False by auto
    obtain k c1 where f: "http_client_recv n ?q c = Some (HTTP_OK, k, c1)" "chunk_ready (n + k) cb c1"
      "ahead (n + k) c1 = ahead n c" "delivered c1 = delivered c" "k \<le> ?q" "k < ?q \<longrightarrow> n + k = length (ahead n c)"
      using fill[OF pr(1) q(1)] by blast
    have k: "k = ?q" using f(5,6) q(3) pr(3) arg_cong[OF pr(2), of length] by (cases "k < ?q") auto
    have l: "n + k \<le> length d" "n + k \<le> 1024" "0 < k" using q k pr(3) by simp_all
    have rm: "room (n + k) c1" using f(2) by (simp add: chunk_ready_def)
    let ?x = "take (n + k) d"
    have lx: "length ?x = n + k" using l(1) by simp
    have ah: "ahead (n + k) c1 = ?x @ drop (n + k) d @ w" using f(3) pr(2) by simp
    have tx: "take (n + k) (ht_buf c1) = ?x" using ahead_take[OF rm ah] lx by simp
    obtain cb2 c2 where a: "chunk_append ?x cb c1 = Some (cb2, c2)" "chunk_ready (n + k) cb2 c2"
      "taken cb2 c2 = taken cb c1 @ ?x" "ht_buf c2 = ht_buf c1" "incoming c2 = incoming c1"
      using chunk_append_spec[OF f(2), of ?x] lx l(2) by auto
    have r: "chunk_ready 0 cb2 c2" using a(2) by (simp add: chunk_ready_def room_def)
    have "ahead (n + k) c1 = ?x @ ahead 0 c2" using tx a(5) by (simp add: ahead_def)
    then have ah2: "ahead 0 c2 = drop (n + k) d @ w" using ah by simp
    have eq: "large_chunk_loop 1024 need n cb c = large_chunk_loop 1024 (need - k) 0 cb2 c2"
      using False stop_ready[OF pr(1)] f(1) tx a(1) by (subst large_chunk_loop.simps) simp
    have "need - k < need" "length (drop (n + k) d) = (need - k) + 0" using False l pr(3) by simp_all
    from less.IH[OF this(1) r ah2 this(2)] obtain y where y: "large_chunk_loop 1024 (need - k) 0 cb2 c2 = Some y"
      "took (drop (n + k) d) w cb2 c2 y" "\<exists>cb' c'. y = Some (Go_on 0 cb' c')" by auto
    have "taken cb2 c2 = taken cb c @ ?x" using a(3) f(4) by (simp add: taken_def)
    then have "took d w cb c y" using y(2) by (auto simp: took_def)
    then show ?thesis using eq y by simp
  qed
qed

lemma crlf_spec:
  assumes "chunk_ready 0 cb c" "ahead 0 c = CRLF @ w"
  shows "took [] w cb c (chunk_crlf cb c)"
proof -
  obtain k c' where f: "http_client_recv 0 2 c = Some (HTTP_OK, k, c')" "chunk_ready k cb c'"
    "ahead k c' = ahead 0 c" "delivered c' = delivered c" "k \<le> 2" "k < 2 \<longrightarrow> k = length (ahead 0 c)"
    using fill[OF assms(1), of 2] by auto
  have k: "k = 2" using f(5,6) assms(2) by (cases "k < 2") auto
  have rm: "room 2 c'" using f(2) k by (simp add: chunk_ready_def)
  have ah: "ahead 2 c' = CRLF @ w" using f(3) k assms(2) by simp
  have t: "take 2 (ht_buf c') = CRLF" using ahead_take[OF rm ah] by (simp add: numeral_2_eq_2)
  have "ahead 2 c' = CRLF @ ahead 0 c'" using t by (simp add: ahead_def)
  then have "ahead 0 c' = w" using ah by simp
  moreover have "chunk_ready 0 cb c'" using f(2) by (simp add: chunk_ready_def room_def)
  ultimately show ?thesis using f(1,4) k t by (simp add: chunk_crlf_def took_def taken_def)
qed

lemma took_trans: "took d w cb c (Some (Go_on n1 cb1 c1)) \<Longrightarrow> took d' w' cb1 c1 y \<Longrightarrow> took (d @ d') w' cb c y"
  by (simp add: took_def)

lemma large_chunk_spec:
  assumes "chunk_ready n cb c" "ahead n c = d @ CRLF @ w" "ht_chunk_size c = of_nat (length d)" "n \<le> 1021" "1024 < length d + 2"
    and "length d < 2 ^ 31"
  shows "\<exists>y. large_chunk 1024 n cb c = Some y \<and> took d w cb c y"
proof -
  have s: "unat (of_nat (length d) :: u32) = length d" using assms(6) by (simp add: u32_of_nat)
  have l: "n < length d" "length d = length d - n + n" using assms(4,5) by simp_all
  obtain cb1 c1 where y: "large_chunk_loop 1024 (length d - n) n cb c = Some (Some (Go_on 0 cb1 c1))"
    "took d (CRLF @ w) cb c (Some (Go_on 0 cb1 c1))"
    using large_loop_spec[OF assms(1,2) l(2)] l assms(4) by auto
  have "chunk_ready 0 cb1 c1" "ahead 0 c1 = CRLF @ w" using y(2) by (simp_all add: took_def)
  from took_trans[OF y(2) crlf_spec[OF this]] show ?thesis
    using y(1) l(1) by (simp add: large_chunk_def assms(3) s)
qed

section \<open>All chunks\<close>

definition chunk_text :: "string \<Rightarrow> string" where
  "chunk_text d = hex (length d) @ CRLF @ d @ CRLF"

definition chunked_text :: "string list \<Rightarrow> string" where
  "chunked_text ds = concat (map chunk_text ds) @ ''0'' @ CRLF @ CRLF"

lemma round_spec:
  assumes "chunk_ready n cb c" "ahead n c = chunk_text d @ w" "d \<noteq> []" "length d < 2 ^ 31"
  shows "\<exists>y. chunk_round 1024 n cb c = Some y \<and> took d w cb c y"
proof -
  obtain x t where d: "d = x # t" using assms(3) by (cases d) auto
  have "ahead n c = hex (length d) @ CRLF @ x # (t @ CRLF @ w)" using assms(2) by (simp add: chunk_text_def d)
  from chunk_size_spec[OF assms(1) this] assms(4) obtain n1 c1 where s:
    "http_client_recv_chunked_size 1024 n c = Some (Some (HTTP_OK, n1, c1))" "chunk_ready n1 cb c1" "n1 \<le> 1021"
    "ahead n1 c1 = d @ CRLF @ w" "ht_chunk_size c1 = of_nat (length d)" "delivered c1 = delivered c"
    by (auto simp: sized_def d)
  have u: "unat (ht_chunk_size c1) = length d" using assms(4) s(5) by (simp add: u32_of_nat)
  then have nz: "ht_chunk_size c1 \<noteq> 0" using assms(3) by auto
  have "unat (ht_chunk_size c1 + 2) = length d + 2"
    using assms(4) u32_of_nat[of "length d + 2"] s(5) by (simp add: add.commute)
  then have le: "ht_chunk_size c1 + 2 \<le> of_nat 1024 \<longleftrightarrow> length d + 2 \<le> 1024" by (simp add: word_le_nat_alt)
  have eq: "chunk_round 1024 n cb c =
      (if length d + 2 \<le> 1024 then Some (small_chunk 1024 n1 cb c1) else large_chunk 1024 n1 cb c1)"
    using stop_ready[OF assms(1)] s(1) nz le by (simp add: chunk_round_def)
  show ?thesis
  proof (cases "length d + 2 \<le> 1024")
    case True
    then show ?thesis using eq took_delivered[OF s(6) small_chunk_spec[OF s(2,4,5)]] by simp
  next
    case False
    then obtain y where "large_chunk 1024 n1 cb c1 = Some y" "took d w cb c1 y"
      using large_chunk_spec[OF s(2,4,5,3) _ assms(4)] by auto
    then show ?thesis using eq False took_delivered[OF s(6)] by auto
  qed
qed

lemma last_round:
  assumes "chunk_ready n cb c" "ahead n c = ''0'' @ CRLF @ CRLF"
  shows "\<exists>c'. chunk_round 1024 n cb c = Some (Some (Ret HTTP_OK cb c')) \<and> ht_handler c' \<and> delivered c' = delivered c"
proof -
  have "hex 0 = ''0''" by code_simp
  then have "ahead n c = hex 0 @ CRLF @ CR # [LF]" using assms(2) by simp
  from chunk_size_spec[OF assms(1) this] obtain n1 c1 where
    "http_client_recv_chunked_size 1024 n c = Some (Some (HTTP_OK, n1, c1))" "ht_chunk_size c1 = 0" "delivered c1 = delivered c"
    "chunk_ready n1 cb c1"
    by (auto simp: sized_def)
  then show ?thesis using stop_ready[OF assms(1)] by (simp add: chunk_round_def chunk_ready_def)
qed

lemma recv_chunk_loop_spec:
  assumes "chunk_ready n cb c" "ahead n c = chunked_text ds" "\<forall>d \<in> set ds. d \<noteq> [] \<and> length d < 2 ^ 31"
  shows "\<exists>cb' c'. recv_chunk_loop 1024 n cb c = Some (Some (HTTP_OK, cb', c')) \<and> ht_handler c' \<and> taken cb' c' = taken cb c @ concat ds"
  using assms
proof (induction ds arbitrary: n cb c)
  case Nil
  then show ?case
    using last_round[OF Nil.prems(1)] by (subst recv_chunk_loop.simps) (auto simp: chunked_text_def taken_def)
next
  case (Cons d ds)
  have ah: "ahead n c = chunk_text d @ chunked_text ds" using Cons.prems(2) by (simp add: chunked_text_def)
  obtain n1 cb1 c1 where r: "chunk_round 1024 n cb c = Some (Some (Go_on n1 cb1 c1))" "chunk_ready n1 cb1 c1"
    "ahead n1 c1 = chunked_text ds" "taken cb1 c1 = taken cb c @ d"
    using round_spec[OF Cons.prems(1) ah] Cons.prems(3) by (auto simp: took_def)
  then show ?case
    using Cons.IH[OF r(2,3)] Cons.prems(3) by (subst recv_chunk_loop.simps) (auto simp: taken_def)
qed

text \<open>C15: what a peer sends as chunks of any sizes below 2 GB, in whatever pieces it arrives, the data handler gets as the
  chunks one after the other, and the result is success, when the connection is closed without an error
  right after the last chunk and memory lasts.\<close>

theorem chunked_roundtrip:
  assumes "chunk_ready n [] c" "ahead n c = chunked_text ds" "\<And>d. d \<in> set ds \<Longrightarrow> d \<noteq> [] \<and> length d < 2 ^ 31"
  shows "\<exists>c'. http_client_recv_chunk 1024 n c = Some (Some (HTTP_OK, c')) \<and> delivered c' = delivered c @ concat ds"
proof -
  obtain cb' c' where r: "recv_chunk_loop 1024 n [] c = Some (Some (HTTP_OK, cb', c'))" "ht_handler c'"
    "taken cb' c' = taken [] c @ concat ds"
    using recv_chunk_loop_spec[OF assms(1,2)] assms(3) by auto
  have "delivered (chunk_flush HTTP_OK cb' c') = delivered c @ concat ds"
    using r(2,3) by (simp add: chunk_flush_def hand_on_counted_def delivered_def hand_on_def taken_def)
  moreover have "\<not> 1024 < n" using assms(1) by (simp add: chunk_ready_def room_def)
  ultimately show ?thesis using r(1) by (simp add: http_client_recv_chunk_def)
qed

text \<open>C34: with a size of \<open>2 ^ 32 - 2\<close> or \<open>2 ^ 32 - 1\<close>, the size and the two bytes of the line end add up to 0 or 1 in
  32 bits; the chunk counts as one that is already there, and copying it leaves both buffers.\<close>

theorem chunk_size_wraps:
  assumes "chunk_ready n [] c" "ahead n c = hex v @ CRLF @ x # w" "2 ^ 32 - 2 \<le> v" "v < 2 ^ 32"
  shows "http_client_recv_chunk 1024 n c = Some None"
proof -
  obtain n1 c1 where s: "http_client_recv_chunked_size 1024 n c = Some (Some (HTTP_OK, n1, c1))" "0 < n1" "n1 \<le> 1021"
    "ht_chunk_size c1 = of_nat v"
    using chunk_size_spec[OF assms(1,2,4)] by (auto simp: sized_def)
  have u: "unat (ht_chunk_size c1) = v" using s(4) assms(4) by (simp add: u32_of_nat)
  have v: "v = 2 ^ 32 - 2 \<or> v = 2 ^ 32 - 1" using assms(3,4) by auto
  then have sum: "unat (ht_chunk_size c1 + 2) \<le> 1" using u by (auto simp: unat_word_ariths)
  have n1: "unat (of_nat n1 :: u32) = n1" using s(3) by (simp add: u32_of_nat)
  have no: "\<not> (of_nat n1 :: u32) < ht_chunk_size c1 + 2" using sum n1 s(2) by (simp add: word_less_nat_alt)
  have le: "ht_chunk_size c1 + 2 \<le> of_nat 1024" "ht_chunk_size c1 \<noteq> 0"
    using sum u v by (auto simp: word_le_nat_alt)
  have "n1 < v" using s(3) v by auto
  then have "chunk_round 1024 n [] c = Some None"
    using stop_ready[OF assms(1)] s(1) le no u by (simp add: chunk_round_def small_chunk_def small_chunk_data_def)
  then have "recv_chunk_loop 1024 n [] c = Some None" by (subst recv_chunk_loop.simps) simp
  moreover have "\<not> 1024 < n" using assms(1) by (simp add: chunk_ready_def room_def)
  ultimately show ?thesis by (simp add: http_client_recv_chunk_def)
qed

end
