(* ===== verification/HttpDemo.thy ===== *)
theory HttpDemo
  imports HttpChunk
begin

text \<open>
  The theorems on the HTTP client at concrete inputs: a server that reads the position from the end of
  the request, on connections that break or are closed after some bytes.
\<close>

section \<open>A server\<close>

definition range_of :: "string \<Rightarrow> nat" where
  "range_of req = digits_val (rev (takeWhile is_digit (drop 5 (rev req))))"

definition demo_server :: server where
  "demo_server = \<lparr>sv_status = \<lambda>pos. (if pos = 0 then ''HTTP/1.1 200 OK'' else ''HTTP/1.1 206 Partial Content''),
     sv_headers = \<lambda>pos. [(''Content-Type'', ''audio/mpeg''), (CL, dec (60 - pos))],
     sv_body = replicate 50 (CHR ''a'') @ replicate 10 (CHR ''b'')\<rparr>"

text \<open>A connection on which \<open>k\<close> bytes of the reply come before it ends as \<open>es\<close> says.\<close>

definition demo_peer :: "nat \<Rightarrow> event list \<Rightarrow> peer" where
  "demo_peer k es req = Data (take k (reply demo_server (range_of req))) # es"

definition demo_buf :: string where "demo_buf = replicate 1025 (CHR ''?'')"

definition demo_client :: "event list option \<Rightarrow> peer option list \<Rightarrow> http" where
  "demo_client i ps = \<lparr>ht_headers = [], ht_code = 0, ht_handler = True, ht_content_len = 0, ht_content_type = [],
     ht_location = None, ht_stops = [], ht_url_cb = False, ht_urls = [], ht_chunked = False, ht_chunk_size = 0,
     ht_chunk_buf = False, ht_recv_size = 0, ht_retry = 0, ht_buf = demo_buf, ht_data_pos = DATA_FIRST, ht_live = True,
     ht_in = i, ht_peer = (\<lambda>req. []), ht_sent = [], ht_peers = ps, ht_opens = [], ht_sends = [], ht_connects = [],
     ht_out = [], ht_mem = []\<rparr>"

lemma request_end:
  "pos < 2 ^ 31 \<Longrightarrow> \<exists>a. request_all [] path host (of_nat pos) = a @ CHR ''='' # dec pos @ CHR ''-'' # CRLF @ CRLF"
proof -
  assume p: "pos < 2 ^ 31"
  then have "sint (of_nat pos :: u32) = int pos" by (simp add: sint_uint uint_nat u32_of_nat signed_take_bit_int_eq_self)
  then show ?thesis by (simp add: request_all_def request_text_def sprintf_d_def)
qed

lemma range_of_request: "pos < 2 ^ 31 \<Longrightarrow> range_of (request_all [] path host (of_nat pos)) = pos"
proof -
  assume p: "pos < 2 ^ 31"
  obtain a where a: "request_all [] path host (of_nat pos) = a @ CHR ''='' # dec pos @ CHR ''-'' # CRLF @ CRLF"
    using request_end[OF p] by blast
  have "\<forall>x \<in> set (rev (dec pos)). is_digit x" using dec_all_digits[of pos] by (simp add: list_all_iff)
  then have "takeWhile is_digit (rev (dec pos) @ CHR ''='' # rev a) = rev (dec pos) @ takeWhile is_digit (CHR ''='' # rev a)"
    by (intro takeWhile_append2) blast
  moreover have "\<not> is_digit (CHR ''='')" by (simp add: is_digit_def)
  ultimately have "takeWhile is_digit (rev (dec pos) @ CHR ''='' # rev a) = rev (dec pos)" by simp
  then show ?thesis by (simp add: range_of_def a)
qed

lemma demo_serves: "data_of es = [] \<Longrightarrow> serves demo_server [] (demo_peer k es)"
proof -
  assume "data_of es = []"
  moreover have "range_of (request_all [] path host (of_nat pos)) = pos" if "pos \<le> length (sv_body demo_server)" for path host pos
    using that by (intro range_of_request) (simp add: demo_server_def)
  ultimately show ?thesis by (simp add: serves_def demo_peer_def take_is_prefix)
qed

lemma demo_good: "good_server demo_server"
proof -
  have s: "good_status ''HTTP/1.1 200 OK''" "good_status ''HTTP/1.1 206 Partial Content''" by code_simp+
  have d: "LF \<notin> set (dec n)" "NUL \<notin> set (dec n)" "take 1 (dec n) \<noteq> '' ''" for n
    using dec_Cons[of n] by (auto simp: notin_dec is_digit_def)
  have "length (dec (60 - pos)) \<le> 494" for pos
    using le_trans[of "length (dec (60 - pos))" 2 494] by (simp add: length_dec)
  then have h: "good_header (CL, dec (60 - pos))" for pos using d[of "60 - pos"] by (simp add: good_header_def)
  show ?thesis
    using s h by (auto simp: good_server_def demo_server_def good_head_def good_header_def says_chunked_def)
qed

lemma demo_quiet: "quiet ((demo_client i ps)\<lparr>ht_buf := demo_buf\<rparr>)"
  by (simp add: quiet_def demo_client_def demo_buf_def small_headers_def)

lemma demo_url: "http_client_parse_url ''http://h/p'' (length ''http://h/p'' + 1) False =
    Some (Some \<lparr>ur_scheme = ''http'', ur_host = ''h'', ur_port = 0, ur_path = ''/p''\<rparr>)"
  by code_simp

lemma demo_reader_ready: "\<not> fails es \<Longrightarrow> chunk_ready 0 [] (demo_client (Some es) [])"
  by (simp add: chunk_ready_def room_def demo_client_def demo_buf_def incoming_def)

section \<open>The theorems at work\<close>

text \<open>The first connection breaks after 50 bytes of the document, the second one sends the rest.\<close>

abbreviation demo_download :: http where
  "demo_download \<equiv> demo_client None [Some (demo_peer 115 [Err]), Some (demo_peer 1000 [])]"

lemma demo_progress:
  "progress demo_server [] 0 (demo_download\<lparr>ht_data_pos := DATA_FIRST, ht_retry := 0, ht_recv_size := 0, ht_content_len := 0, ht_buf := demo_buf\<rparr>)"
proof -
  have "serves demo_server [] p" if "Some p \<in> set (ht_peers demo_download)" for p
    using that demo_serves by (auto simp: demo_client_def)
  then show ?thesis by (simp add: progress_def quiet_def delivered_def demo_client_def demo_buf_def small_headers_def)
qed

lemma demo_whole: "data_of es = [] \<Longrightarrow> data_of (demo_peer 1000 es (request_all [] path host (of_nat pos))) = reply demo_server pos"
  if "pos \<le> length (sv_body demo_server)"
proof -
  have p: "pos \<le> 60" using that by (simp add: demo_server_def)
  have "length (dec (60 - pos)) \<le> 2" by (simp add: length_dec)
  moreover have "length (drop pos (sv_body demo_server)) \<le> 60" by (simp add: demo_server_def)
  moreover have "length (reply demo_server pos) \<le> 90 + length (dec (60 - pos)) + length (drop pos (sv_body demo_server))"
    by (simp add: reply_def head_text_def header_line_def) (simp add: demo_server_def)
  ultimately have "length (reply demo_server pos) \<le> 1000" by linarith
  then show "data_of es = [] \<Longrightarrow> ?thesis" using p range_of_request[of pos] by (simp add: demo_peer_def)
qed

lemma demo_arrives: "Some p \<in> set (ht_peers demo_download) \<Longrightarrow> head_arrives demo_server [] p"
  using demo_whole[of _ "[]"] by (auto simp: demo_client_def head_arrives_def demo_peer_def[of 115] Let_def reply_def)

lemma demo_terminates: "\<exists>y. duer_http_client_get demo_buf (Some ''http://h/p'') 0 demo_download = Some y"
proof -
  have "get_loop (Suc HC_MAX_RETRY_RESUME_COUNT) (Some ''http://h/p'') HTTP_OK 0
      (demo_download\<lparr>ht_data_pos := DATA_FIRST, ht_retry := 0, ht_recv_size := 0, ht_content_len := 0, ht_buf := demo_buf\<rparr>) \<noteq> None"
    by (intro get_loop_returns[OF demo_progress demo_good demo_url]) (use demo_arrives in \<open>simp add: demo_client_def\<close>)
  then show ?thesis by (simp add: duer_http_client_get_def malloc_free demo_client_def del: get_loop.simps)
qed

theorem download_resumes_witness:
  "\<exists>r c' k. duer_http_client_get demo_buf (Some ''http://h/p'') 0 demo_download = Some (Some (r, c')) \<and>
    delivered c' = take k (sv_body demo_server) \<and> (r = HTTP_OK \<longrightarrow> k = 60)"
proof -
  obtain y where y: "duer_http_client_get demo_buf (Some ''http://h/p'') 0 demo_download = Some y"
    using demo_terminates by blast
  have s: "serves demo_server (ht_headers demo_download) p" if "Some p \<in> set (ht_peers demo_download)" for p
    using that demo_serves by (auto simp: demo_client_def)
  have "delivered demo_download = []" "length (sv_body demo_server) = 60"
    by (simp_all add: delivered_def demo_client_def demo_server_def)
  then show ?thesis using download_resumes[OF demo_good demo_quiet demo_url s y] y by auto
qed

theorem download_returns_witness:
  "\<exists>r c'. duer_http_client_get demo_buf (Some ''http://h/p'') 0 demo_download = Some (Some (r, c'))"
proof -
  have "serves demo_server (ht_headers demo_download) p \<and> head_arrives demo_server (ht_headers demo_download) p"
    if "Some p \<in> set (ht_peers demo_download)" for p
    using that demo_arrives[OF that] demo_serves by (auto simp: demo_client_def)
  then show ?thesis by (rule download_returns[OF demo_good demo_quiet demo_url])
qed

theorem head_close_spins_witness:
  "duer_http_client_get demo_buf (Some ''http://h/p'') 0
    (demo_client None [Some (\<lambda>req. [Data (''HTTP/1.1 200 OK'' @ CRLF @ ''Content-Le'')])]) = None"
proof -
  have "good_status ''HTTP/1.1 200 OK''" by code_simp
  then show ?thesis
    by (intro head_close_spins[OF _ demo_quiet demo_url, where ps = "[]" and sl = "''HTTP/1.1 200 OK''" and h = "''Content-Le''"])
      (auto simp: demo_client_def)
qed

theorem chunked_roundtrip_witness:
  "\<exists>c'. http_client_recv_chunk 1024 0 (demo_client (Some [Data (chunked_text [''ab'', ''c''])]) []) = Some (Some (HTTP_OK, c')) \<and>
    delivered c' = ''abc''"
proof -
  let ?c = "demo_client (Some [Data (chunked_text [''ab'', ''c''])]) []"
  have "ahead 0 ?c = chunked_text [''ab'', ''c'']" by (simp add: ahead_def demo_client_def incoming_def)
  moreover have "d \<noteq> [] \<and> length d < 2 ^ 31" if "d \<in> set [''ab'', ''c'']" for d using that by auto
  ultimately have "\<exists>c'. http_client_recv_chunk 1024 0 ?c = Some (Some (HTTP_OK, c')) \<and> delivered c' = delivered ?c @ concat [''ab'', ''c'']"
    by (intro chunked_roundtrip demo_reader_ready) simp_all
  moreover have "delivered ?c = []" by (simp add: delivered_def demo_client_def)
  ultimately show ?thesis by simp
qed

theorem chunk_size_wraps_witness:
  "http_client_recv_chunk 1024 0 (demo_client (Some [Data (hex 4294967295 @ CRLF @ ''x'')]) []) = Some None"
proof -
  have "ahead 0 (demo_client (Some [Data (hex 4294967295 @ CRLF @ ''x'')]) []) = hex 4294967295 @ CRLF @ CHR ''x'' # []"
    by (simp add: ahead_def demo_client_def incoming_def)
  from chunk_size_wraps[OF demo_reader_ready this] show ?thesis by simp
qed

theorem url_roundtrip_witness:
  "http_client_parse_url ''http://h:80/p'' (length ''http://h:80/p'' + 1) False =
    Some (Some \<lparr>ur_scheme = ''http'', ur_host = ''h'', ur_port = 80, ur_path = ''/p''\<rparr>)"
proof -
  let ?u = "\<lparr>ur_scheme = ''http'', ur_host = ''h'', ur_port = 80, ur_path = ''/p''\<rparr>"
  have t: "url_text ?u = ''http://h:80/p''" by code_simp
  have "good_url ?u" by code_simp
  from url_roundtrip[OF this] show ?thesis unfolding t by simp
qed

theorem url_fragment_overruns_witness: "http_client_parse_url ''http://h#/x'' 13 False = None"
  using url_fragment_overruns[of "''h''" "''x''" 13] by simp

end
