(* ===== verification/VoiceEngine.thy ===== *)
theory VoiceEngine
  imports Engine
begin

text \<open>
  The voice engine (\<^verbatim>\<open>modules/voice_engine\<close>): samples are cut into frames, each frame is encoded and
  gets a header, the frames are collected in a buffer, and what is in the buffer goes to the cloud as
  a report. The Speex library and \<^verbatim>\<open>mbedtls_base64_encode\<close> are arguments: \<open>cd\<close> with the states of an
  encoder, the number of samples in a frame and what a frame is encoded to, and \<open>b64\<close>, \<open>None\<close> when it
  reports an error.

  A buffer that is filled from the front is the bytes that are in it; \<^verbatim>\<open>_size\<close> and \<^verbatim>\<open>_frame_cur\<close> are
  their number. The build is the one without \<^verbatim>\<open>DUER_VOICE_SEND_ASYNC\<close>; what the other one puts in between
  is at the end. The reports go through the model of the engine, \<open>vc_eng\<close>, whose log shows which of
  them were queued.
\<close>

section \<open>State\<close>

record 'c codec =
  cd_init :: "bool \<Rightarrow> 'c option"
  cd_frame_size :: "bool \<Rightarrow> nat"
  cd_encode :: "'c \<Rightarrow> byte list \<Rightarrow> byte list \<times> 'c"

text \<open>\<open>sx_wide\<close>: the rate is 16000.\<close>

record 'c speex =
  sx_wide :: bool
  sx_encoder :: 'c
  sx_frame_size :: nat
  sx_in :: "byte list"

datatype duer_voice_mode =
    DUER_VOICE_MODE_DEFAULT | DUER_VOICE_MODE_CHINESE_TO_ENGLISH | DUER_VOICE_MODE_ENGLISH_TO_CHINESE

datatype voice_call = VoiceStart int | VoiceSend "byte list option" | VoiceStop

record ('n, 'c) voice =
  vc_eng :: "'n eng"
  vc_data :: "byte list"
  vc_samplerate :: int
  vc_topic_id :: u32
  vc_lock :: bool
  vc_speex :: "'c speex option"
  vc_mode :: duer_voice_mode
  vc_sid :: int
  vc_random :: "u32 list"
  vc_events :: "voice_call list option"

definition O_BUFFER_LEN :: nat where "O_BUFFER_LEN = 800"
definition I_BUFFER_LEN :: nat where "I_BUFFER_LEN = (O_BUFFER_LEN - 1) div 4 * 3"

definition vc_mem :: "('n, 'c) voice \<Rightarrow> mem" where
  "vc_mem v = w_mem (e_world (vc_eng v))"

definition vc_set_mem :: "mem \<Rightarrow> ('n, 'c) voice \<Rightarrow> ('n, 'c) voice" where
  "vc_set_mem m v = v\<lparr>vc_eng := (vc_eng v)\<lparr>e_world := (e_world (vc_eng v))\<lparr>w_mem := m\<rparr>\<rparr>\<rparr>"

definition vc_malloc :: "('n, 'c) voice \<Rightarrow> bool \<times> ('n, 'c) voice" where
  "vc_malloc v = (let (ok, m) = malloc_ok (vc_mem v) in (ok, vc_set_mem m v))"

section \<open>A report\<close>

text \<open>
  The members of the report. Adding to an object that could not be created is the fault \<open>None\<close>, unless
  the member could not be created either.
\<close>

datatype voice_member = NumMember string int | StrMember string string

definition create_member :: "voice_member \<Rightarrow> mem \<Rightarrow> string \<times> json option \<times> mem" where
  "create_member x m =
     (case x of
        NumMember k n \<Rightarrow> (let (it, m1) = json_CreateNumber n m in (k, it, m1))
      | StrMember k s \<Rightarrow> (let (it, m1) = json_CreateString s m in (k, it, m1)))"

fun add_members :: "voice_member list \<Rightarrow> json option \<Rightarrow> mem \<Rightarrow> (json option \<times> mem) option" where
  "add_members [] obj m = Some (obj, m)"
| "add_members (x # xs) obj m =
     (case create_member x m of
        (k, None, m1) \<Rightarrow> add_members xs obj m1
      | (k, Some it, m1) \<Rightarrow>
          (case obj of
             None \<Rightarrow> None
           | Some o1 \<Rightarrow> (let (o2, m2) = json_AddItemToObject o1 k (Some it) m1 in add_members xs (Some o2) m2)))"

definition voice_members :: "u32 \<Rightarrow> int \<Rightarrow> int \<Rightarrow> bool \<Rightarrow> duer_voice_mode \<Rightarrow> string option \<Rightarrow> voice_member list" where
  "voice_members topic sid rate eof mode buff =
     [NumMember ''id'' (uint topic), NumMember ''segment'' sid, NumMember ''rate'' rate,
      NumMember ''channel'' 1, NumMember ''eof'' (if eof then 1 else 0)] @
     (case mode of
        DUER_VOICE_MODE_CHINESE_TO_ENGLISH \<Rightarrow> [StrMember ''translate'' ''c2e'']
      | DUER_VOICE_MODE_ENGLISH_TO_CHINESE \<Rightarrow> [StrMember ''translate'' ''e2c'']
      | DUER_VOICE_MODE_DEFAULT \<Rightarrow> []) @
     (case buff of None \<Rightarrow> [] | Some s \<Rightarrow> [StrMember ''voice_data'' s])"

definition voice_value :: "voice_member list \<Rightarrow> mem \<Rightarrow> (json option \<times> mem) option" where
  "voice_value xs m0 =
     (let (obj, m1) = json_CreateObject m0
      in case add_members xs obj m1 of
           None \<Rightarrow> None
         | Some (voice, m2) \<Rightarrow>
             (let (value, m3) = json_CreateObject m2
              in case voice of
                   None \<Rightarrow> Some (value, m3)
                 | Some vo \<Rightarrow>
                     (case value of
                        None \<Rightarrow> None
                      | Some va \<Rightarrow> (let (va1, m4) = json_AddItemToObject va ''duer_voice'' (Some vo) m3 in Some (Some va1, m4)))))"

text \<open>Data that is missing or empty makes the report the last one.\<close>

definition duer_send_content ::
  "'n sdk \<Rightarrow> bool \<Rightarrow> (nat \<Rightarrow> byte list \<Rightarrow> string option) \<Rightarrow> byte list option \<Rightarrow> bool \<Rightarrow> ('n, 'c) voice \<Rightarrow> ('n, 'c) voice option" where
  "duer_send_content d le b64 data eof0 v =
     (let eof = (eof0 \<or> data = None \<or> data = Some []); bytes = (case data of None \<Rightarrow> [] | Some x \<Rightarrow> x);
          finish = (\<lambda>v. if eof then v\<lparr>vc_sid := 0\<rparr> else v)
      in if bytes \<noteq> [] \<and> b64 O_BUFFER_LEN bytes = None then Some (finish v)
         else
           (case voice_value (voice_members (vc_topic_id v) (vc_sid v) (vc_samplerate v) eof (vc_mode v)
                    (if bytes = [] then None else b64 O_BUFFER_LEN bytes)) (vc_mem v) of
              None \<Rightarrow> None
            | Some (value, m) \<Rightarrow>
                (let v1 = (vc_set_mem m v)\<lparr>vc_sid := vc_sid v + 1\<rparr>
                 in case duer_data_report d le value (vc_eng v1) of
                      None \<Rightarrow> None
                    | Some (rs, e) \<Rightarrow>
                        Some (finish (v1\<lparr>vc_eng := e\<rparr>)))))"

section \<open>Collecting frames\<close>

definition duer_speex_encoded_callback ::
  "'n sdk \<Rightarrow> bool \<Rightarrow> (nat \<Rightarrow> byte list \<Rightarrow> string option) \<Rightarrow> byte list \<Rightarrow> ('n, 'c) voice \<Rightarrow> ('n, 'c) voice option" where
  "duer_speex_encoded_callback d le b64 data v0 =
     (case (if I_BUFFER_LEN < length (vc_data v0) + length data
            then map_option (\<lambda>v. v\<lparr>vc_data := []\<rparr>) (duer_send_content d le b64 (Some (vc_data v0)) False v0)
            else Some v0) of
        None \<Rightarrow> None
      | Some v \<Rightarrow>
          if I_BUFFER_LEN < length (vc_data v) + length data then None
          else Some (v\<lparr>vc_data := vc_data v @ data\<rparr>))"

section \<open>The encoder\<close>

definition duer_speex_create :: "'c codec \<Rightarrow> int \<Rightarrow> ('n, 'c) voice \<Rightarrow> 'c speex option \<times> ('n, 'c) voice" where
  "duer_speex_create cd rate v0 =
     (let (ok, v1) = vc_malloc v0
      in if \<not> ok then (None, v1)
         else if rate \<noteq> 8000 \<and> rate \<noteq> 16000 then (None, v1)
         else
           (case cd_init cd (rate = 16000) of
              None \<Rightarrow> (None, v1)
            | Some enc \<Rightarrow>
                (let (ok2, v2) = vc_malloc v1
                 in if \<not> ok2 then (None, v2)
                    else
                      (let (ok3, v3) = vc_malloc v2
                       in if \<not> ok3 then (None, v3)
                          else (Some \<lparr>sx_wide = (rate = 16000), sx_encoder = enc,
                                  sx_frame_size = cd_frame_size cd (rate = 16000), sx_in = []\<rparr>, v3)))))"

text \<open>The frame that is encoded is the whole input buffer. \<^verbatim>\<open>speex_bits_write\<close> writes at most as many bytes as it is told.\<close>

definition frame_header :: "bool \<Rightarrow> nat \<Rightarrow> byte list" where
  "frame_header wide n = [of_nat n, of_char (if wide then CHR ''T'' else CHR ''S''), of_char (CHR ''P''), of_char (CHR ''X'')]"

definition duer_speex_encode_frame ::
  "'n sdk \<Rightarrow> bool \<Rightarrow> (nat \<Rightarrow> byte list \<Rightarrow> string option) \<Rightarrow> 'c codec \<Rightarrow> byte list \<Rightarrow> 'c speex \<Rightarrow> ('n, 'c) voice
     \<Rightarrow> ('c speex \<times> ('n, 'c) voice) option" where
  "duer_speex_encode_frame d le b64 cd frame sx v =
     (let (bits, enc) = cd_encode cd (sx_encoder sx) frame; out = take (sx_frame_size sx) bits
      in map_option (\<lambda>v1. (sx\<lparr>sx_encoder := enc\<rparr>, v1))
           (duer_speex_encoded_callback d le b64 (frame_header (sx_wide sx) (length out) @ out) v))"

definition framesize :: "'c speex \<Rightarrow> nat" where "framesize sx = sx_frame_size sx * 2"

text \<open>
  As long as the buffer can be filled it is, and encoded; the result holds the data that is left. With
  frames of no samples the loop does not end: the outer \<open>None\<close>.
\<close>

partial_function (option) encode_loop ::
  "'n sdk \<Rightarrow> bool \<Rightarrow> (nat \<Rightarrow> byte list \<Rightarrow> string option) \<Rightarrow> 'c codec \<Rightarrow> byte list \<Rightarrow> 'c speex \<Rightarrow> ('n, 'c) voice
     \<Rightarrow> (byte list \<times> 'c speex \<times> ('n, 'c) voice) option option" where
  "encode_loop d le b64 cd data sx v =
     (if framesize sx \<le> length (sx_in sx) + length data then
        (let k = framesize sx - length (sx_in sx)
         in case duer_speex_encode_frame d le b64 cd (sx_in sx @ take k data) (sx\<lparr>sx_in := []\<rparr>) v of
              None \<Rightarrow> Some None
            | Some (sx1, v1) \<Rightarrow> encode_loop d le b64 cd (drop k data) sx1 v1)
      else Some (Some (data, sx, v)))"

declare encode_loop.simps [code]

text \<open>Data that is missing or empty flushes the buffer, filled up with zeros; its count is not reset.\<close>

definition duer_speex_encode ::
  "'n sdk \<Rightarrow> bool \<Rightarrow> (nat \<Rightarrow> byte list \<Rightarrow> string option) \<Rightarrow> 'c codec \<Rightarrow> byte list \<Rightarrow> ('n, 'c) voice
     \<Rightarrow> ('n, 'c) voice option option" where
  "duer_speex_encode d le b64 cd data v0 =
     (case vc_speex v0 of
        None \<Rightarrow> Some (Some v0)
      | Some sx0 \<Rightarrow>
          map_option (\<lambda>x. case x of
              None \<Rightarrow> None
            | Some (left, sx, v) \<Rightarrow>
                if sx_in sx \<noteq> [] \<and> data = [] then
                  map_option (\<lambda>(sx1, v1). v1\<lparr>vc_speex := Some sx1\<rparr>)
                    (duer_speex_encode_frame d le b64 cd (sx_in sx @ replicate (framesize sx - length (sx_in sx)) 0) sx v)
                else Some (v\<lparr>vc_speex := Some (sx\<lparr>sx_in := sx_in sx @ left\<rparr>)\<rparr>))
            (encode_loop d le b64 cd data sx0 v0))"

section \<open>The interface\<close>

text \<open>The number is 0 when the lock is missing.\<close>

definition duer_increase_topic_id :: "('n, 'c) voice \<Rightarrow> u32 \<times> ('n, 'c) voice" where
  "duer_increase_topic_id v =
     (if \<not> vc_lock v then (0, v)
      else
        (let (r, rs) = (case vc_random v of [] \<Rightarrow> (0, []) | r # rs \<Rightarrow> (r, rs));
             (t0, v1) = (if vc_topic_id v = 0 then (10000 + r mod 100000, v\<lparr>vc_random := rs\<rparr>) else (vc_topic_id v, v));
             t = and t0 (not 0x80000000) + 1
         in (t, v1\<lparr>vc_topic_id := t\<rparr>)))"

definition duer_voice_start_internal :: "'c codec \<Rightarrow> int \<Rightarrow> ('n, 'c) voice \<Rightarrow> ('n, 'c) voice" where
  "duer_voice_start_internal cd rate v =
     (let (sx, v1) = duer_speex_create cd rate (v\<lparr>vc_samplerate := rate, vc_speex := None\<rparr>)
      in snd (duer_increase_topic_id (v1\<lparr>vc_speex := sx\<rparr>)))"

definition duer_voice_send_internal ::
  "'n sdk \<Rightarrow> bool \<Rightarrow> (nat \<Rightarrow> byte list \<Rightarrow> string option) \<Rightarrow> 'c codec \<Rightarrow> byte list option \<Rightarrow> ('n, 'c) voice
     \<Rightarrow> ('n, 'c) voice option option" where
  "duer_voice_send_internal d le b64 cd object v =
     (case object of None \<Rightarrow> Some (Some v) | Some data \<Rightarrow> duer_speex_encode d le b64 cd data v)"

definition voice_end ::
  "'n sdk \<Rightarrow> bool \<Rightarrow> (nat \<Rightarrow> byte list \<Rightarrow> string option) \<Rightarrow> ('n, 'c) voice \<Rightarrow> ('n, 'c) voice option" where
  "voice_end d le b64 v =
     (case (if vc_data v \<noteq> [] then duer_send_content d le b64 (Some (vc_data v)) False v else Some v) of
        None \<Rightarrow> None
      | Some v1 \<Rightarrow> map_option (\<lambda>v2. v2\<lparr>vc_data := [], vc_speex := None\<rparr>) (duer_send_content d le b64 None True v1))"

definition duer_voice_stop_internal ::
  "'n sdk \<Rightarrow> bool \<Rightarrow> (nat \<Rightarrow> byte list \<Rightarrow> string option) \<Rightarrow> 'c codec \<Rightarrow> ('n, 'c) voice \<Rightarrow> ('n, 'c) voice option option" where
  "duer_voice_stop_internal d le b64 cd v =
     (if vc_speex v = None then Some (Some v)
      else map_option (\<lambda>x. Option.bind x (voice_end d le b64)) (duer_speex_encode d le b64 cd [] v))"

fun voice_do ::
  "'n sdk \<Rightarrow> bool \<Rightarrow> (nat \<Rightarrow> byte list \<Rightarrow> string option) \<Rightarrow> 'c codec \<Rightarrow> voice_call \<Rightarrow> ('n, 'c) voice
     \<Rightarrow> ('n, 'c) voice option option" where
  "voice_do d le b64 cd (VoiceStart rate) v = Some (Some (duer_voice_start_internal cd rate v))"
| "voice_do d le b64 cd (VoiceSend data) v = duer_voice_send_internal d le b64 cd data v"
| "voice_do d le b64 cd VoiceStop v = duer_voice_stop_internal d le b64 cd v"

definition duer_voice_initialize :: "bool \<Rightarrow> ('n, 'c) voice \<Rightarrow> status \<times> ('n, 'c) voice" where
  "duer_voice_initialize mutex_ok v =
     (if vc_lock v then (DUER_OK, v)
      else if mutex_ok then (DUER_OK, v\<lparr>vc_lock := True\<rparr>) else (DUER_ERR_FAILED, v))"

definition duer_voice_set_mode :: "duer_voice_mode \<Rightarrow> ('n, 'c) voice \<Rightarrow> ('n, 'c) voice" where
  "duer_voice_set_mode mode v = v\<lparr>vc_mode := mode\<rparr>"

definition duer_voice_start ::
  "'n sdk \<Rightarrow> bool \<Rightarrow> (nat \<Rightarrow> byte list \<Rightarrow> string option) \<Rightarrow> 'c codec \<Rightarrow> int \<Rightarrow> ('n, 'c) voice \<Rightarrow> ('n, 'c) voice option option" where
  "duer_voice_start d le b64 cd rate v = voice_do d le b64 cd (VoiceStart rate) v"

definition duer_voice_send ::
  "'n sdk \<Rightarrow> bool \<Rightarrow> (nat \<Rightarrow> byte list \<Rightarrow> string option) \<Rightarrow> 'c codec \<Rightarrow> byte list option \<Rightarrow> ('n, 'c) voice \<Rightarrow> ('n, 'c) voice option option" where
  "duer_voice_send d le b64 cd data v = voice_do d le b64 cd (VoiceSend data) v"

definition duer_voice_stop ::
  "'n sdk \<Rightarrow> bool \<Rightarrow> (nat \<Rightarrow> byte list \<Rightarrow> string option) \<Rightarrow> 'c codec \<Rightarrow> ('n, 'c) voice \<Rightarrow> ('n, 'c) voice option option" where
  "duer_voice_stop d le b64 cd v = voice_do d le b64 cd VoiceStop v"

section \<open>Calls through an event loop\<close>

text \<open>
  With \<^verbatim>\<open>DUER_VOICE_SEND_ASYNC\<close> the calls wait in an event loop of their own, the data in copies. \<open>ok\<close>: the
  outcome of \<^verbatim>\<open>duer_events_call\<close>.
\<close>

definition duer_events_call_internal_async :: "bool \<Rightarrow> voice_call \<Rightarrow> ('n, 'c) voice \<Rightarrow> status \<times> ('n, 'c) voice" where
  "duer_events_call_internal_async ok c v =
     (case vc_events v of
        None \<Rightarrow> (DUER_ERR_FAILED, v)
      | Some cs \<Rightarrow> if ok then (DUER_OK, v\<lparr>vc_events := Some (cs @ [c])\<rparr>) else (DUER_ERR_FAILED, v))"

definition duer_voice_send_async :: "bool \<Rightarrow> byte list \<Rightarrow> ('n, 'c) voice \<Rightarrow> status \<times> ('n, 'c) voice" where
  "duer_voice_send_async ok data v =
     (let (got, v1) = vc_malloc v
      in if got then duer_events_call_internal_async ok (VoiceSend (Some data)) v1 else (DUER_ERR_FAILED, v1))"

definition voice_task_run ::
  "'n sdk \<Rightarrow> bool \<Rightarrow> (nat \<Rightarrow> byte list \<Rightarrow> string option) \<Rightarrow> 'c codec \<Rightarrow> ('n, 'c) voice \<Rightarrow> ('n, 'c) voice option option" where
  "voice_task_run d le b64 cd v =
     (case vc_events v of
        Some (c # cs) \<Rightarrow> voice_do d le b64 cd c (v\<lparr>vc_events := Some cs\<rparr>)
      | _ \<Rightarrow> Some (Some v))"

end
