(* ===== verification/VoiceFlow.thy ===== *)
theory VoiceFlow
  imports VoiceEngine DcsFlow
begin

text \<open>
  What the voice engine sends: however the application cuts the samples into pieces, the reports of a
  recording carry the same bytes, which are the encoded frames one after the other. A piece of no
  bytes spoils that.
\<close>

fun voice_run ::
  "'n sdk \<Rightarrow> bool \<Rightarrow> (nat \<Rightarrow> byte list \<Rightarrow> string option) \<Rightarrow> 'c codec \<Rightarrow> voice_call list \<Rightarrow> ('n, 'c) voice
     \<Rightarrow> ('n, 'c) voice option option" where
  "voice_run d le b64 cd [] v = Some (Some v)"
| "voice_run d le b64 cd (c # cs) v =
     (case voice_do d le b64 cd c v of
        None \<Rightarrow> None
      | Some None \<Rightarrow> Some None
      | Some (Some v1) \<Rightarrow> voice_run d le b64 cd cs v1)"

lemma voice_run_append:
  "voice_run d le b64 cd (cs @ cs') v =
     (case voice_run d le b64 cd cs v of
        None \<Rightarrow> None | Some None \<Rightarrow> Some None | Some (Some v1) \<Rightarrow> voice_run d le b64 cd cs' v1)"
  by (induction cs arbitrary: v) (auto split: option.splits)

section \<open>Pieces\<close>

definition half_full :: "'c speex \<Rightarrow> bool" where
  "half_full sx \<longleftrightarrow> length (sx_in sx) < framesize sx"

lemma encode_frame_speex:
  "duer_speex_encode_frame d le b64 cd fr sx v = Some (sx1, v1) \<Longrightarrow>
   sx_in sx1 = sx_in sx \<and> framesize sx1 = framesize sx \<and> sx_wide sx1 = sx_wide sx \<and> sx_frame_size sx1 = sx_frame_size sx"
  by (auto simp: duer_speex_encode_frame_def framesize_def split: prod.splits)

lemma encode_frame_half_full:
  "half_full sx \<Longrightarrow> duer_speex_encode_frame d le b64 cd fr (sx\<lparr>sx_in := []\<rparr>) v = Some (sx1, v1) \<Longrightarrow> half_full sx1 \<and> sx_in sx1 = []"
  by (drule encode_frame_speex) (auto simp: half_full_def framesize_def)

lemma loop_stop: "length (sx_in sx) + length data < framesize sx \<Longrightarrow> encode_loop d le b64 cd data sx v = Some (Some (data, sx, v))"
  by (subst encode_loop.simps) simp

lemma loop_step:
  "framesize sx \<le> length (sx_in sx) + length data \<Longrightarrow> encode_loop d le b64 cd data sx v =
     (case duer_speex_encode_frame d le b64 cd (sx_in sx @ take (framesize sx - length (sx_in sx)) data) (sx\<lparr>sx_in := []\<rparr>) v of
        None \<Rightarrow> Some None
      | Some (sx1, v1) \<Rightarrow> encode_loop d le b64 cd (drop (framesize sx - length (sx_in sx)) data) sx1 v1)"
  by (subst encode_loop.simps) (simp add: Let_def)

lemma loop_done: "\<not> framesize sx \<le> length (sx_in sx) + length data \<Longrightarrow> encode_loop d le b64 cd data sx v = Some (Some (data, sx, v))"
  by (simp add: loop_stop)

text \<open>The loop with its data in one piece and in two.\<close>

lemma loop_append:
  assumes "half_full sx"
  shows "encode_loop d le b64 cd (a @ b) sx v =
    (case encode_loop d le b64 cd a sx v of
       None \<Rightarrow> None | Some None \<Rightarrow> Some None
     | Some (Some (left, sx1, v1)) \<Rightarrow> encode_loop d le b64 cd (left @ b) sx1 v1)"
  using assms
proof (induction "length a" arbitrary: a sx v rule: less_induct)
  case less
  let ?k = "framesize sx - length (sx_in sx)"
  have k: "0 < ?k" using less.prems by (simp add: half_full_def)
  show ?case
  proof (cases "framesize sx \<le> length (sx_in sx) + length a")
    case False
    then show ?thesis by (simp add: loop_done)
  next
    case True
    have t: "take ?k (a @ b) = take ?k a" "drop ?k (a @ b) = drop ?k a @ b" using True by simp_all
    have len: "length (drop ?k a) < length a" using True k by simp
    show ?thesis
    proof (cases "duer_speex_encode_frame d le b64 cd (sx_in sx @ take ?k a) (sx\<lparr>sx_in := []\<rparr>) v")
      case None
      then show ?thesis using True t by (simp add: loop_step)
    next
      case (Some x)
      obtain sx1 v1 where x: "x = (sx1, v1)" by (cases x)
      have "half_full sx1" using encode_frame_half_full[OF less.prems Some[unfolded x]] by simp
      from less.hyps[OF len this] show ?thesis using True t Some x by (simp add: loop_step)
    qed
  qed
qed

definition settle :: "byte list \<times> 'c speex \<times> ('n, 'c) voice \<Rightarrow> ('n, 'c) voice" where
  "settle = (\<lambda>(left, sx, v). v\<lparr>vc_speex := Some (sx\<lparr>sx_in := sx_in sx @ left\<rparr>)\<rparr>)"

lemma loop_shift:
  assumes "length (sx_in sx @ left) < framesize sx"
  shows "map_option (map_option settle) (encode_loop d le b64 cd (left @ b) sx v) =
    map_option (map_option settle) (encode_loop d le b64 cd b (sx\<lparr>sx_in := sx_in sx @ left\<rparr>) v)"
proof (cases "framesize sx \<le> length (sx_in sx @ left) + length b")
  case False
  then show ?thesis
    by (simp add: loop_done framesize_def settle_def)
next
  case True
  have "framesize sx - length (sx_in sx) = length left + (framesize sx - length (sx_in sx @ left))" using assms by simp
  then have "take (framesize sx - length (sx_in sx)) (left @ b) = left @ take (framesize sx - length (sx_in sx @ left)) b"
    "drop (framesize sx - length (sx_in sx)) (left @ b) = drop (framesize sx - length (sx_in sx @ left)) b"
    by (simp_all only: take_append drop_append) simp_all
  then have "encode_loop d le b64 cd (left @ b) sx v = encode_loop d le b64 cd b (sx\<lparr>sx_in := sx_in sx @ left\<rparr>) v"
    using True by (simp add: loop_step framesize_def split: option.split prod.split)
  then show ?thesis by simp
qed

text \<open>The state a loop ends in.\<close>

lemma loop_end:
  assumes "half_full sx" "encode_loop d le b64 cd a sx v = Some (Some (left, sx1, v1))"
  shows "length (sx_in sx1 @ left) < framesize sx1"
  using assms
proof (induction "length a" arbitrary: a sx v rule: less_induct)
  case less
  let ?k = "framesize sx - length (sx_in sx)"
  show ?case
  proof (cases "framesize sx \<le> length (sx_in sx) + length a")
    case False
    then show ?thesis using less.prems(2) by (simp add: loop_done)
  next
    case True
    obtain sx2 v2 where f: "duer_speex_encode_frame d le b64 cd (sx_in sx @ take ?k a) (sx\<lparr>sx_in := []\<rparr>) v = Some (sx2, v2)"
      "encode_loop d le b64 cd (drop ?k a) sx2 v2 = Some (Some (left, sx1, v1))"
      using less.prems(2) True by (auto simp: loop_step split: option.splits)
    have "length (drop ?k a) < length a" using True less.prems(1) by (simp add: half_full_def)
    then show ?thesis using less.hyps[OF _ _ f(2)] encode_frame_half_full[OF less.prems(1) f(1)] by simp
  qed
qed

text \<open>The encoder in the state is set at the end only.\<close>

definition with_speex :: "'c speex option \<Rightarrow> ('n, 'c) voice \<Rightarrow> ('n, 'c) voice" where
  "with_speex x v = v\<lparr>vc_speex := x\<rparr>"

lemma with_speex_data [simp]: "vc_data (with_speex x v) = vc_data v"
  by (simp add: with_speex_def)

lemma send_content_speex:
  "duer_send_content d le b64 data eof (with_speex x v) = map_option (with_speex x) (duer_send_content d le b64 data eof v)"
  by (auto simp: duer_send_content_def Let_def with_speex_def vc_mem_def vc_set_mem_def split: option.splits)

lemma callback_speex:
  "duer_speex_encoded_callback d le b64 data (with_speex x v) = map_option (with_speex x) (duer_speex_encoded_callback d le b64 data v)"
  by (auto simp: duer_speex_encoded_callback_def send_content_speex option.map_comp comp_def split: option.split)
    (auto simp: with_speex_def)

lemma encode_frame_speex_frame:
  "duer_speex_encode_frame d le b64 cd fr sx (with_speex x v) =
     map_option (\<lambda>(sx1, v1). (sx1, with_speex x v1)) (duer_speex_encode_frame d le b64 cd fr sx v)"
  by (simp add: duer_speex_encode_frame_def Let_def callback_speex option.map_comp comp_def split: prod.split)

lemma loop_speex:
  assumes "half_full sx"
  shows "encode_loop d le b64 cd a sx (with_speex x v) =
    map_option (map_option (\<lambda>(left, sx1, v1). (left, sx1, with_speex x v1))) (encode_loop d le b64 cd a sx v)"
  using assms
proof (induction "length a" arbitrary: a sx v rule: less_induct)
  case less
  let ?k = "framesize sx - length (sx_in sx)"
  show ?case
  proof (cases "framesize sx \<le> length (sx_in sx) + length a")
    case False
    then show ?thesis by (simp add: loop_done)
  next
    case True
    show ?thesis
    proof (cases "duer_speex_encode_frame d le b64 cd (sx_in sx @ take ?k a) (sx\<lparr>sx_in := []\<rparr>) v")
      case None
      then show ?thesis using True by (simp add: loop_step encode_frame_speex_frame)
    next
      case (Some y)
      obtain sx1 v1 where y: "y = (sx1, v1)" by (cases y)
      have "length (drop ?k a) < length a" using True less.prems by (simp add: half_full_def)
      from less.hyps[OF this] encode_frame_half_full[OF less.prems Some[unfolded y]] True Some y
      show ?thesis by (simp add: loop_step encode_frame_speex_frame)
    qed
  qed
qed

lemma settle_with: "settle (left, sx, with_speex x v) = settle (left, sx, v)"
  by (simp add: settle_def with_speex_def)

lemma send_settles:
  "data \<noteq> [] \<Longrightarrow> vc_speex v = Some sx \<Longrightarrow>
   voice_do d le b64 cd (VoiceSend (Some data)) v = map_option (map_option settle) (encode_loop d le b64 cd data sx v)"
  by (auto simp: duer_voice_send_internal_def duer_speex_encode_def settle_def option.map_comp comp_def
      intro!: option.map_cong0 split: option.splits)

lemma loop_keeps_speex: "map_option settle x = Some v \<Longrightarrow> \<exists>sx. vc_speex v = Some sx"
  by (auto simp: settle_def)

text \<open>C11: sending samples in two pieces that are not empty is the same as sending them in one, whatever happens on
  the way, when \<^verbatim>\<open>duer_voice_send\<close> runs in the caller (without \<^verbatim>\<open>DUER_VOICE_SEND_ASYNC\<close>).\<close>

theorem voice_pieces_join:
  assumes "a \<noteq> []" "b \<noteq> []" "\<And>sx. vc_speex v = Some sx \<Longrightarrow> half_full sx"
  shows "voice_run d le b64 cd [VoiceSend (Some a), VoiceSend (Some b)] v = voice_run d le b64 cd [VoiceSend (Some (a @ b))] v"
proof (cases "vc_speex v")
  case None
  then show ?thesis by (simp add: duer_voice_send_internal_def duer_speex_encode_def)
next
  case (Some sx)
  have h: "half_full sx" by (rule assms(3)[OF Some])
  have ab: "voice_run d le b64 cd [VoiceSend (Some (a @ b))] v = map_option (map_option settle) (encode_loop d le b64 cd (a @ b) sx v)"
    using assms(1) Some send_settles[of "a @ b" v sx] by (simp split: option.split)
  show ?thesis
  proof (cases "encode_loop d le b64 cd a sx v")
    case None
    then show ?thesis using ab loop_append[OF h, of d le b64 cd a b v] send_settles[OF assms(1) Some, of d le b64 cd] by simp
  next
    case (Some x)
    note sx = \<open>vc_speex v = Some sx\<close>
    show ?thesis
    proof (cases x)
      case None
      then show ?thesis using ab loop_append[OF h, of d le b64 cd a b v] send_settles[OF assms(1) sx, of d le b64 cd] Some by simp
    next
      case (Some y)
      obtain left sx1 v1 where y: "y = (left, sx1, v1)" by (cases y)
      have e: "encode_loop d le b64 cd a sx v = Some (Some (left, sx1, v1))"
        using Some \<open>encode_loop d le b64 cd a sx v = Some x\<close> y by simp
      let ?s = "sx1\<lparr>sx_in := sx_in sx1 @ left\<rparr>"
      have v: "settle (left, sx1, v1) = with_speex (Some ?s) v1" by (simp add: settle_def with_speex_def)
      have ea: "voice_do d le b64 cd (VoiceSend (Some a)) v = Some (Some (with_speex (Some ?s) v1))"
        using send_settles[OF assms(1) sx, of d le b64 cd] e v by simp
      have hs: "half_full ?s" using loop_end[OF h e] by (simp add: half_full_def framesize_def)
      have "voice_do d le b64 cd (VoiceSend (Some b)) (with_speex (Some ?s) v1) =
          map_option (map_option settle) (encode_loop d le b64 cd b ?s (with_speex (Some ?s) v1))"
        by (rule send_settles[OF assms(2)]) (simp add: with_speex_def)
      also have "\<dots> = map_option (map_option settle) (encode_loop d le b64 cd b ?s v1)"
        by (simp add: loop_speex[OF hs] option.map_comp comp_def settle_with case_prod_beta')
      also have "\<dots> = map_option (map_option settle) (encode_loop d le b64 cd (left @ b) sx1 v1)"
        by (rule loop_shift[OF loop_end[OF h e], symmetric])
      also have "\<dots> = map_option (map_option settle) (encode_loop d le b64 cd (a @ b) sx v)"
        by (simp add: loop_append[OF h] e)
      finally show ?thesis using ab ea by (simp split: option.split)
    qed
  qed
qed

section \<open>Reports with enough memory\<close>

fun member_node :: "voice_member \<Rightarrow> string option \<times> json" where
  "member_node (NumMember k n) = (Some k, Json JNumber None n [])"
| "member_node (StrMember k s) = (Some k, Json JString (Some s) 0 [])"

definition voice_tree :: "voice_member list \<Rightarrow> json" where
  "voice_tree xs = Json JObject None 0 [(Some ''duer_voice'', Json JObject None 0 (map member_node xs))]"

lemma create_member_ok: "create_member x [] = (k, it, m) \<Longrightarrow> \<exists>j. it = Some j \<and> m = [] \<and> member_node x = (Some k, j)"
  by (cases x) (auto simp: create_member_def json_CreateNumber_def json_CreateString_def json_New_Item_def json_strdup_def)

lemma add_members_ok:
  "add_members xs (Some (Json JObject None 0 cs)) [] = Some (Some (Json JObject None 0 (cs @ map member_node xs)), [])"
proof (induction xs arbitrary: cs)
  case (Cons x xs)
  obtain k it m where c: "create_member x [] = (k, it, m)" by (rule prod_cases3)
  obtain j where j: "it = Some j" "m = []" "member_node x = (Some k, j)" using create_member_ok[OF c] by blast
  have "json_AddItemToObject (Json JObject None 0 cs) k (Some j) [] = (Json JObject None 0 (cs @ [(Some k, j)]), [])"
    by (simp add: json_AddItemToObject_def json_strdup_def json_AddItemToArray_def)
  then show ?case using Cons.IH[of "cs @ [(Some k, j)]"] by (simp add: c j)
qed simp

lemma voice_value_ok: "voice_value xs [] = Some (Some (voice_tree xs), [])"
proof -
  have c: "json_CreateObject [] = (Some (Json JObject None 0 []), [])" by (simp add: json_CreateObject_def json_New_Item_def)
  show ?thesis
    by (simp add: voice_value_def c add_members_ok[of xs "[]", simplified] voice_tree_def json_AddItemToObject_def json_strdup_def
        json_AddItemToArray_def)
qed

text \<open>
  An engine that has its agent and its queue. What the cloud gets of a report is the payload of its
  message: the tree as the member \<^verbatim>\<open>data\<close> of an object, printed.
\<close>

definition eng_up :: "'n eng \<Rightarrow> bool" where
  "eng_up e \<longleftrightarrow> g_qcache_handler e \<noteq> None \<and> g_handler e \<noteq> None \<and> w_mem (e_world e) = []"

definition queued_payloads :: "'n eng \<Rightarrow> byte list option list" where
  "queued_payloads e = map m_payload (queued_msgs (e_log e))"

definition packed :: "'n sdk \<Rightarrow> json \<Rightarrow> byte list option" where
  "packed d j = Some (bytes_of (the (sd_print d (Json JObject None 0 [(Some ''data'', j)]))))"

lemma data_send_up:
  assumes "eng_up e"
  shows "eng_up (snd (duer_data_send e)) \<and> e_log (snd (duer_data_send e)) = e_log e"
  using assms
  by (simp add: duer_data_send_def duer_events_call_internal_def eng_malloc_def eng_up_def split: option.split)

lemma voice_report_queued:
  assumes "prints d" "eng_up e"
  shows "\<exists>e'. duer_data_report d le (Some j) e = Some (DUER_OK, e') \<and> eng_up e' \<and>
    queued_payloads e' = queued_payloads e @ [packed d j]"
proof -
  obtain xs ca where e: "g_qcache_handler e = Some xs" "g_handler e = Some ca" "w_mem (e_world e) = []"
    using assms(2) by (auto simp: eng_up_def)
  let ?t = "Json JObject None 0 [(Some ''data'', j)]"
  have "sd_print d ?t \<noteq> None" using assms(1) by (simp only: prints_def not_False_eq_True)
  then obtain s where s: "sd_print d ?t = Some s" by blast
  have w: "(e_world e)\<lparr>w_mem := []\<rparr> = e_world e" using e(3) by (cases "e_world e") simp
  have p: "report_payload d j e = (Some (Some s), e)"
    using s w e(3) by (simp add: report_payload_def json_CreateObject_def json_New_Item_def json_AddItemReferenceToObject_def
        json_AddItemToObject_def json_strdup_def json_AddItemToArray_def)
  obtain m e1 where q: "duer_engine_enqueue_report_data d le (Some j) e = Some (DUER_OK, e1)" "eng_up e1"
    "queued_msgs (e_log e1) = queued_msgs (e_log e) @ [m]" "m_payload m = packed d j"
    using e w s by (auto simp: duer_engine_enqueue_report_data_def p baidu_ca_build_report_message_def queue_push_def
        eng_malloc_def eng_log_def eng_up_def packed_def Let_def)
  have "eng_up (report_check DUER_OK e1) \<and> e_log (report_check DUER_OK e1) = e_log e1"
    using data_send_up[OF q(2)] q(2) by (simp add: report_check_def)
  then show ?thesis using q(1,3,4) by (auto simp: duer_data_report_def queued_payloads_def)
qed

text \<open>
  What is the same for all reports of a recording: what was queued before it, the topic, the rate and
  the mode.
\<close>

type_synonym talk_of = "byte list option list \<times> u32 \<times> int \<times> duer_voice_mode"

definition talk_start :: "('n, 'c) voice \<Rightarrow> int \<Rightarrow> talk_of" where
  "talk_start v rate =
     (queued_payloads (vc_eng v), vc_topic_id (snd (duer_increase_topic_id v)), rate, vc_mode v)"

definition voice_report :: "(nat \<Rightarrow> byte list \<Rightarrow> string option) \<Rightarrow> talk_of \<Rightarrow> nat \<Rightarrow> byte list \<Rightarrow> json" where
  "voice_report b64 h i g =
     (case h of (base, topic, rate, mode) \<Rightarrow> voice_tree (voice_members topic (int i) rate False mode (b64 O_BUFFER_LEN g)))"

definition last_report :: "talk_of \<Rightarrow> nat \<Rightarrow> json" where
  "last_report h n = (case h of (base, topic, rate, mode) \<Rightarrow> voice_tree (voice_members topic (int n) rate True mode None))"

definition segments ::
  "'n sdk \<Rightarrow> (nat \<Rightarrow> byte list \<Rightarrow> string option) \<Rightarrow> talk_of \<Rightarrow> byte list list \<Rightarrow> byte list option list" where
  "segments d b64 h gs = fst h @ map (\<lambda>(i, g). packed d (voice_report b64 h i g)) (List.enumerate 0 gs)"

lemma segments_snoc: "segments d b64 h (gs @ [g]) = segments d b64 h gs @ [packed d (voice_report b64 h (length gs) g)]"
  by (simp add: segments_def enumerate_append_eq)

text \<open>\<open>gs\<close> was queued, and with what is in the buffer that makes \<open>s\<close>.\<close>

definition talk ::
  "'n sdk \<Rightarrow> (nat \<Rightarrow> byte list \<Rightarrow> string option) \<Rightarrow> talk_of \<Rightarrow> byte list \<Rightarrow> byte list list \<Rightarrow> ('n, 'c) voice \<Rightarrow> bool" where
  "talk d b64 h s gs v \<longleftrightarrow> eng_up (vc_eng v) \<and> snd h = (vc_topic_id v, vc_samplerate v, vc_mode v) \<and>
     queued_payloads (vc_eng v) = segments d b64 h gs \<and> vc_sid v = int (length gs) \<and> concat gs @ vc_data v = s \<and>
     (\<forall>g \<in> set gs. g \<noteq> [] \<and> length g \<le> I_BUFFER_LEN) \<and> length (vc_data v) \<le> I_BUFFER_LEN"

text \<open>The base64 encoding of a full buffer fits.\<close>

definition b64_fits :: "(nat \<Rightarrow> byte list \<Rightarrow> string option) \<Rightarrow> bool" where
  "b64_fits b64 \<longleftrightarrow> (\<forall>bs. length bs \<le> I_BUFFER_LEN \<longrightarrow> b64 O_BUFFER_LEN bs \<noteq> None)"

lemma send_content_ok:
  assumes "prints d" "eng_up (vc_eng v)" "b64_fits b64" "length bs \<le> I_BUFFER_LEN" "data = (if bs = [] then None else Some bs)"
  shows "\<exists>e. duer_send_content d le b64 data eof v =
      Some (v\<lparr>vc_eng := e, vc_sid := if eof \<or> bs = [] then 0 else vc_sid v + 1\<rparr>) \<and> eng_up e \<and>
    queued_payloads e = queued_payloads (vc_eng v) @
      [packed d (voice_tree (voice_members (vc_topic_id v) (vc_sid v) (vc_samplerate v) (eof \<or> bs = []) (vc_mode v)
         (if bs = [] then None else b64 O_BUFFER_LEN bs)))]"
proof -
  have b: "b64 O_BUFFER_LEN bs \<noteq> None" using assms(3,4) by (simp add: b64_fits_def)
  let ?t = "voice_tree (voice_members (vc_topic_id v) (vc_sid v) (vc_samplerate v) (eof \<or> bs = []) (vc_mode v)
             (if bs = [] then None else b64 O_BUFFER_LEN bs))"
  have m: "vc_mem v = []" "vc_set_mem [] v = v" using assms(2) by (simp_all add: vc_set_mem_def vc_mem_def eng_up_def)
  obtain e where "duer_data_report d le (Some ?t) (vc_eng v) = Some (DUER_OK, e)" "eng_up e"
    "queued_payloads e = queued_payloads (vc_eng v) @ [packed d ?t]"
    using voice_report_queued[OF assms(1,2), of le ?t] by blast
  then show ?thesis
    using b by (intro exI[of _ e]) (auto simp: assms(5) duer_send_content_def Let_def voice_value_ok m)
qed

lemma flush_talk:
  assumes "prints d" "b64_fits b64" "talk d b64 h s gs v" "vc_data v \<noteq> []"
  shows "\<exists>v'. duer_send_content d le b64 (Some (vc_data v)) False v = Some v' \<and>
    talk d b64 h s (gs @ [vc_data v]) (v'\<lparr>vc_data := []\<rparr>) \<and> vc_speex v' = vc_speex v"
proof -
  have l: "length (vc_data v) \<le> I_BUFFER_LEN" "eng_up (vc_eng v)" using assms(3) by (simp_all add: talk_def)
  obtain e where e: "duer_send_content d le b64 (Some (vc_data v)) False v =
      Some (v\<lparr>vc_eng := e, vc_sid := vc_sid v + 1\<rparr>)" "eng_up e" "queued_payloads e = queued_payloads (vc_eng v) @
        [packed d (voice_tree (voice_members (vc_topic_id v) (vc_sid v) (vc_samplerate v) False (vc_mode v)
           (b64 O_BUFFER_LEN (vc_data v))))]"
    using send_content_ok[OF assms(1) l(2) assms(2) l(1), of "Some (vc_data v)" le False] assms(4) by auto
  obtain base where h: "h = (base, vc_topic_id v, vc_samplerate v, vc_mode v)" using assms(3) by (cases h) (simp add: talk_def)
  then show ?thesis
    using assms(3,4) e by (auto simp: talk_def segments_snoc voice_report_def)
qed

lemma callback_talk:
  assumes "prints d" "b64_fits b64" "talk d b64 h s gs v" "length x \<le> I_BUFFER_LEN"
  shows "\<exists>v' gs'. duer_speex_encoded_callback d le b64 x v = Some v' \<and> talk d b64 h (s @ x) gs' v'"
proof (cases "I_BUFFER_LEN < length (vc_data v) + length x")
  case False
  then show ?thesis using assms(3) by (auto simp: duer_speex_encoded_callback_def talk_def)
next
  case True
  then have "vc_data v \<noteq> []" using assms(4) by auto
  from flush_talk[OF assms(1-3) this, of le] obtain v1 where v1:
    "duer_send_content d le b64 (Some (vc_data v)) False v = Some v1" "talk d b64 h s (gs @ [vc_data v]) (v1\<lparr>vc_data := []\<rparr>)" by blast
  have "duer_speex_encoded_callback d le b64 x v = Some (v1\<lparr>vc_data := x\<rparr>)"
    using True v1(1) assms(4) by (simp add: duer_speex_encoded_callback_def)
  moreover have "talk d b64 h (s @ x) (gs @ [vc_data v]) (v1\<lparr>vc_data := x\<rparr>)"
    using v1(2) assms(4) by (auto simp: talk_def)
  ultimately show ?thesis by blast
qed

section \<open>Frames\<close>

fun encoded :: "'c codec \<Rightarrow> nat \<Rightarrow> bool \<Rightarrow> 'c \<Rightarrow> byte list list \<Rightarrow> byte list list \<times> 'c" where
  "encoded cd fs wide enc [] = ([], enc)"
| "encoded cd fs wide enc (f # fr) =
     (let (bits, enc1) = cd_encode cd enc f; out = take fs bits; (bs, enc2) = encoded cd fs wide enc1 fr
      in ((frame_header wide (length out) @ out) # bs, enc2))"

lemma encoded_append:
  "encoded cd fs wide enc (a @ b) =
     (let (x, e1) = encoded cd fs wide enc a; (y, e2) = encoded cd fs wide e1 b in (x @ y, e2))"
  by (induction a arbitrary: enc) (auto simp: Let_def split: prod.splits)

definition small_frames :: "nat \<Rightarrow> bool" where
  "small_frames fs \<longleftrightarrow> 0 < fs \<and> fs + 4 \<le> I_BUFFER_LEN"

lemma frame_talk:
  assumes "prints d" "b64_fits b64" "talk d b64 h s gs v" "small_frames (sx_frame_size sx)"
  shows "\<exists>v' gs'. duer_speex_encode_frame d le b64 cd f sx v =
      Some (sx\<lparr>sx_encoder := snd (encoded cd (sx_frame_size sx) (sx_wide sx) (sx_encoder sx) [f])\<rparr>, v') \<and>
    talk d b64 h (s @ concat (fst (encoded cd (sx_frame_size sx) (sx_wide sx) (sx_encoder sx) [f]))) gs' v'"
proof -
  obtain bits enc where c: "cd_encode cd (sx_encoder sx) f = (bits, enc)" by fastforce
  let ?out = "take (sx_frame_size sx) bits"
  let ?x = "frame_header (sx_wide sx) (length ?out) @ ?out"
  have "length ?x \<le> I_BUFFER_LEN" using assms(4) min.cobounded2[of "length bits" "sx_frame_size sx"]
    unfolding frame_header_def small_frames_def by (simp del: min.cobounded2)
  from callback_talk[OF assms(1-3) this, of le] show ?thesis
    by (auto simp: duer_speex_encode_frame_def c Let_def)
qed

lemma loop_talk:
  assumes "prints d" "b64_fits b64" "talk d b64 h s gs v" "small_frames fs" "sx_frame_size sx = fs" "sx_wide sx = wide"
    and "length (sx_in sx) < 2 * fs"
  shows "\<exists>left sx' v' gs' fr. encode_loop d le b64 cd a sx v = Some (Some (left, sx', v')) \<and>
    sx_in sx @ a = concat fr @ sx_in sx' @ left \<and> (\<forall>f \<in> set fr. length f = 2 * fs) \<and> length (sx_in sx' @ left) < 2 * fs \<and>
    sx_frame_size sx' = fs \<and> sx_wide sx' = wide \<and> sx_encoder sx' = snd (encoded cd fs wide (sx_encoder sx) fr) \<and>
    talk d b64 h (s @ concat (fst (encoded cd fs wide (sx_encoder sx) fr))) gs' v'"
  using assms(3,5-7)
proof (induction "length a" arbitrary: a sx v s gs rule: less_induct)
  case less
  have f: "framesize sx = 2 * fs" using less.prems(2) by (simp add: framesize_def)
  show ?case
  proof (cases "2 * fs \<le> length (sx_in sx) + length a")
    case False
    have "encode_loop d le b64 cd a sx v = Some (Some (a, sx, v))" using False f by (simp add: loop_done)
    then show ?thesis using less.prems False
      by (intro exI[of _ a] exI[of _ sx] exI[of _ v] exI[of _ gs] exI[of _ "[]"]) simp
  next
    case True
    let ?k = "2 * fs - length (sx_in sx)"
    let ?f = "sx_in sx @ take ?k a"
    let ?sx = "sx\<lparr>sx_in := []\<rparr>"
    have sm: "small_frames (sx_frame_size ?sx)" using assms(4) less.prems(2) by simp
    obtain v1 gs1 where e: "duer_speex_encode_frame d le b64 cd ?f ?sx v =
        Some (?sx\<lparr>sx_encoder := snd (encoded cd fs wide (sx_encoder sx) [?f])\<rparr>, v1)"
      "talk d b64 h (s @ concat (fst (encoded cd fs wide (sx_encoder sx) [?f]))) gs1 v1"
      using frame_talk[OF assms(1,2) less.prems(1) sm, of le cd ?f] less.prems(2,3) by auto
    let ?sx1 = "?sx\<lparr>sx_encoder := snd (encoded cd fs wide (sx_encoder sx) [?f])\<rparr>"
    have "length (drop ?k a) < length a" using True less.prems(4) by simp
    moreover have "sx_frame_size ?sx1 = fs" "sx_wide ?sx1 = wide" "length (sx_in ?sx1) < 2 * fs"
      using less.prems assms(4) by (simp_all add: small_frames_def)
    ultimately obtain left sx' v' gs' fr where r: "encode_loop d le b64 cd (drop ?k a) ?sx1 v1 = Some (Some (left, sx', v'))"
      "sx_in ?sx1 @ drop ?k a = concat fr @ sx_in sx' @ left" "\<forall>f \<in> set fr. length f = 2 * fs" "length (sx_in sx' @ left) < 2 * fs"
      "sx_frame_size sx' = fs" "sx_wide sx' = wide" "sx_encoder sx' = snd (encoded cd fs wide (sx_encoder ?sx1) fr)"
      "talk d b64 h ((s @ concat (fst (encoded cd fs wide (sx_encoder sx) [?f]))) @ concat (fst (encoded cd fs wide (sx_encoder ?sx1) fr))) gs' v'"
      using less.hyps[OF _ e(2), of "drop ?k a" ?sx1] by blast
    have loop: "encode_loop d le b64 cd a sx v = Some (Some (left, sx', v'))"
      using True f e(1) r(1) by (simp add: loop_step)
    have in_eq: "sx_in sx @ a = concat (?f # fr) @ sx_in sx' @ left"
    proof -
      have "sx_in sx @ a = ?f @ drop ?k a" by simp
      also have "\<dots> = ?f @ concat fr @ sx_in sx' @ left" using r(2) by simp
      finally show ?thesis by simp
    qed
    have enc: "encoded cd fs wide (sx_encoder sx) (?f # fr) =
        (fst (encoded cd fs wide (sx_encoder sx) [?f]) @ fst (encoded cd fs wide (sx_encoder ?sx1) fr),
         snd (encoded cd fs wide (sx_encoder ?sx1) fr))"
      using encoded_append[of cd fs wide "sx_encoder sx" "[?f]" fr] by (simp add: Let_def split: prod.split)
    show ?thesis
      using loop in_eq r(3-8) True less.prems(4)
      by (intro exI[of _ left] exI[of _ sx'] exI[of _ v'] exI[of _ gs'] exI[of _ "?f # fr"]) (simp add: enc del: encoded.simps)
  qed
qed

section \<open>A recording\<close>

definition speaking ::
  "'n sdk \<Rightarrow> (nat \<Rightarrow> byte list \<Rightarrow> string option) \<Rightarrow> 'c codec \<Rightarrow> bool \<Rightarrow> 'c \<Rightarrow> talk_of \<Rightarrow> byte list \<Rightarrow> ('n, 'c) voice \<Rightarrow> bool" where
  "speaking d b64 cd wide enc h xs v \<longleftrightarrow> (\<exists>sx fr gs. vc_speex v = Some sx \<and> sx_frame_size sx = cd_frame_size cd wide \<and>
     sx_wide sx = wide \<and> xs = concat fr @ sx_in sx \<and> (\<forall>f \<in> set fr. length f = 2 * cd_frame_size cd wide) \<and>
     length (sx_in sx) < 2 * cd_frame_size cd wide \<and> sx_encoder sx = snd (encoded cd (cd_frame_size cd wide) wide enc fr) \<and>
     talk d b64 h (concat (fst (encoded cd (cd_frame_size cd wide) wide enc fr))) gs v)"

lemma talk_speex: "talk d b64 h s gs (v\<lparr>vc_speex := x\<rparr>) = talk d b64 h s gs v"
  by (simp add: talk_def)

lemma send_speaking:
  assumes "prints d" "b64_fits b64" "small_frames (cd_frame_size cd wide)" "speaking d b64 cd wide enc h xs v" "p \<noteq> []"
  shows "\<exists>v'. voice_do d le b64 cd (VoiceSend (Some p)) v = Some (Some v') \<and> speaking d b64 cd wide enc h (xs @ p) v'"
proof -
  let ?fs = "cd_frame_size cd wide"
  obtain sx fr gs where v: "vc_speex v = Some sx" "sx_frame_size sx = ?fs" "sx_wide sx = wide" "xs = concat fr @ sx_in sx"
    "\<forall>f \<in> set fr. length f = 2 * ?fs" "length (sx_in sx) < 2 * ?fs" "sx_encoder sx = snd (encoded cd ?fs wide enc fr)"
    "talk d b64 h (concat (fst (encoded cd ?fs wide enc fr))) gs v"
    using assms(4) unfolding speaking_def by blast
  obtain left sx' v' gs' fr' where l: "encode_loop d le b64 cd p sx v = Some (Some (left, sx', v'))"
    "sx_in sx @ p = concat fr' @ sx_in sx' @ left" "\<forall>f \<in> set fr'. length f = 2 * ?fs" "length (sx_in sx' @ left) < 2 * ?fs"
    "sx_frame_size sx' = ?fs" "sx_wide sx' = wide" "sx_encoder sx' = snd (encoded cd ?fs wide (sx_encoder sx) fr')"
    "talk d b64 h (concat (fst (encoded cd ?fs wide enc fr)) @ concat (fst (encoded cd ?fs wide (sx_encoder sx) fr'))) gs' v'"
    using loop_talk[OF assms(1,2) v(8) assms(3) v(2,3,6), of le cd p] by blast
  let ?sx = "sx'\<lparr>sx_in := sx_in sx' @ left\<rparr>"
  have enc: "encoded cd ?fs wide enc (fr @ fr') = (fst (encoded cd ?fs wide enc fr) @ fst (encoded cd ?fs wide (sx_encoder sx) fr'),
      snd (encoded cd ?fs wide (sx_encoder sx) fr'))"
    using encoded_append[of cd ?fs wide enc fr fr'] v(7) by (simp add: Let_def split: prod.split)
  have "voice_do d le b64 cd (VoiceSend (Some p)) v = Some (Some (v'\<lparr>vc_speex := Some ?sx\<rparr>))"
    using send_settles[OF assms(5) v(1), of d le b64 cd] l(1) by (simp add: settle_def)
  moreover have "speaking d b64 cd wide enc h (xs @ p) (v'\<lparr>vc_speex := Some ?sx\<rparr>)"
    unfolding speaking_def
    by (intro exI[of _ ?sx] exI[of _ "fr @ fr'"] exI[of _ gs']) (use v l in \<open>auto simp: enc talk_speex\<close>)
  ultimately show ?thesis by blast
qed

lemma sends_speaking:
  assumes "prints d" "b64_fits b64" "small_frames (cd_frame_size cd wide)" "speaking d b64 cd wide enc h xs v" "[] \<notin> set ps"
  shows "\<exists>v'. voice_run d le b64 cd (map (\<lambda>p. VoiceSend (Some p)) ps) v = Some (Some v') \<and> speaking d b64 cd wide enc h (xs @ concat ps) v'"
  using assms(4,5)
proof (induction ps arbitrary: xs v)
  case (Cons p ps)
  obtain v1 where v1: "voice_do d le b64 cd (VoiceSend (Some p)) v = Some (Some v1)" "speaking d b64 cd wide enc h (xs @ p) v1"
    using send_speaking[OF assms(1-3) Cons.prems(1), of p le] Cons.prems(2) by auto
  then show ?case using Cons.IH[OF v1(2)] Cons.prems(2) by (simp del: voice_do.simps)
qed simp

text \<open>A flush encodes the frame that has begun, filled up with zeros, and keeps its samples.\<close>

lemma flush_frame:
  assumes "prints d" "b64_fits b64" "talk d b64 h s gs v" "small_frames fs" "vc_speex v = Some sx" "sx_frame_size sx = fs"
    and "sx_wide sx = wide" "sx_in sx \<noteq> []" "length (sx_in sx) < 2 * fs"
  shows "\<exists>v' gs'. duer_speex_encode d le b64 cd [] v = Some (Some v') \<and>
    vc_speex v' = Some (sx\<lparr>sx_encoder :=
      snd (encoded cd fs wide (sx_encoder sx) [sx_in sx @ replicate (2 * fs - length (sx_in sx)) 0])\<rparr>) \<and>
    talk d b64 h (s @ concat (fst (encoded cd fs wide (sx_encoder sx) [sx_in sx @ replicate (2 * fs - length (sx_in sx)) 0]))) gs' v'"
proof -
  let ?f = "sx_in sx @ replicate (2 * fs - length (sx_in sx)) 0"
  let ?sx = "sx\<lparr>sx_encoder := snd (encoded cd fs wide (sx_encoder sx) [?f])\<rparr>"
  have f: "framesize sx = 2 * fs" using assms(6) by (simp add: framesize_def)
  have loop: "encode_loop d le b64 cd [] sx v = Some (Some ([], sx, v))" using assms(9) f by (simp add: loop_done)
  have sm: "small_frames (sx_frame_size sx)" using assms(4,6) by simp
  obtain v' gs' where e: "duer_speex_encode_frame d le b64 cd ?f sx v = Some (?sx, v')"
    "talk d b64 h (s @ concat (fst (encoded cd fs wide (sx_encoder sx) [?f]))) gs' v'"
    using frame_talk[OF assms(1-3) sm, of le cd ?f] unfolding assms(6,7) by blast
  have "duer_speex_encode d le b64 cd [] v = Some (Some (v'\<lparr>vc_speex := Some ?sx\<rparr>))"
    using assms(5,8) loop e(1) f by (simp add: duer_speex_encode_def)
  then show ?thesis using e(2) by (intro exI[of _ "v'\<lparr>vc_speex := Some ?sx\<rparr>"] exI[of _ gs']) (simp add: talk_speex del: encoded.simps)
qed

text \<open>At the end the frame that has begun is filled up with zeros.\<close>

lemma flush_speaking:
  assumes "prints d" "b64_fits b64" "small_frames (cd_frame_size cd wide)" "speaking d b64 cd wide enc h xs v"
  shows "\<exists>v' fr gs k. duer_speex_encode d le b64 cd [] v = Some (Some v') \<and>
    (\<forall>f \<in> set fr. length f = 2 * cd_frame_size cd wide) \<and> k < 2 * cd_frame_size cd wide \<and> concat fr = xs @ replicate k 0 \<and>
    talk d b64 h (concat (fst (encoded cd (cd_frame_size cd wide) wide enc fr))) gs v'"
proof -
  let ?fs = "cd_frame_size cd wide"
  obtain sx fr gs where v: "vc_speex v = Some sx" "sx_frame_size sx = ?fs" "sx_wide sx = wide" "xs = concat fr @ sx_in sx"
    "\<forall>f \<in> set fr. length f = 2 * ?fs" "length (sx_in sx) < 2 * ?fs" "sx_encoder sx = snd (encoded cd ?fs wide enc fr)"
    "talk d b64 h (concat (fst (encoded cd ?fs wide enc fr))) gs v"
    using assms(4) unfolding speaking_def by blast
  have f: "framesize sx = 2 * ?fs" using v(2) by (simp add: framesize_def)
  have loop: "encode_loop d le b64 cd [] sx v = Some (Some ([], sx, v))" using v(6) f by (simp add: loop_done)
  show ?thesis
  proof (cases "sx_in sx = []")
    case True
    have "duer_speex_encode d le b64 cd [] v = Some (Some (v\<lparr>vc_speex := Some sx\<rparr>))"
      using v(1) loop True by (simp add: duer_speex_encode_def)
    moreover have "0 < 2 * ?fs" using v(6) by linarith
    ultimately show ?thesis using v True
      by (intro exI[of _ "v\<lparr>vc_speex := Some sx\<rparr>"] exI[of _ fr] exI[of _ gs] exI[of _ 0]) (simp add: talk_speex)
  next
    case False
    let ?k = "2 * ?fs - length (sx_in sx)"
    let ?f = "sx_in sx @ replicate ?k 0"
    obtain v' gs' where e: "duer_speex_encode d le b64 cd [] v = Some (Some v')"
      "talk d b64 h (concat (fst (encoded cd ?fs wide enc fr)) @ concat (fst (encoded cd ?fs wide (sx_encoder sx) [?f]))) gs' v'"
      using flush_frame[OF assms(1,2) v(8) assms(3) v(1-3) False v(6), of le] by blast
    have enc: "encoded cd ?fs wide enc (fr @ [?f]) = (fst (encoded cd ?fs wide enc fr) @ fst (encoded cd ?fs wide (sx_encoder sx) [?f]),
        snd (encoded cd ?fs wide (sx_encoder sx) [?f]))"
      using encoded_append[of cd ?fs wide enc fr "[?f]"] v(7) by (simp add: Let_def split: prod.split)
    have "?k < 2 * ?fs" using False v(6) by simp
    moreover have "talk d b64 h (concat (fst (encoded cd ?fs wide enc (fr @ [?f])))) gs' v'"
      using e(2) by (simp only: enc fst_conv concat_append)
    ultimately show ?thesis using v(4-6) e(1)
      by (intro exI[of _ v'] exI[of _ "fr @ [?f]"] exI[of _ gs'] exI[of _ ?k]) (simp add: le_less)
  qed
qed

lemma end_talk:
  assumes "prints d" "b64_fits b64" "talk d b64 h s gs v"
  shows "\<exists>v' gs'. voice_end d le b64 v = Some v' \<and>
    queued_payloads (vc_eng v') = segments d b64 h gs' @ [packed d (last_report h (length gs'))] \<and>
    concat gs' = s \<and> (\<forall>g \<in> set gs'. g \<noteq> [] \<and> length g \<le> I_BUFFER_LEN) \<and> vc_data v' = [] \<and> vc_sid v' = 0 \<and> vc_speex v' = None"
proof -
  obtain v1 gs1 where v1: "(if vc_data v \<noteq> [] then duer_send_content d le b64 (Some (vc_data v)) False v else Some v) = Some v1"
    "talk d b64 h s gs1 (v1\<lparr>vc_data := []\<rparr>)"
  proof (cases "vc_data v = []")
    case True
    have "v\<lparr>vc_data := []\<rparr> = v" using True by simp
    then have "talk d b64 h s gs (v\<lparr>vc_data := []\<rparr>)" using assms(3) by metis
    then show thesis by (intro that[of v gs]) (simp_all add: True)
  next
    case False
    then show thesis using that flush_talk[OF assms False, of le] by auto
  qed
  obtain base where h: "h = (base, vc_topic_id v1, vc_samplerate v1, vc_mode v1)" using v1(2) by (cases h) (simp add: talk_def)
  have "eng_up (vc_eng v1)" using v1(2) by (simp add: talk_def)
  from send_content_ok[OF assms(1) this assms(2), of "[]" None le True] obtain e where
    "duer_send_content d le b64 None True v1 = Some (v1\<lparr>vc_eng := e, vc_sid := 0\<rparr>)"
    "queued_payloads e = queued_payloads (vc_eng v1) @
       [packed d (voice_tree (voice_members (vc_topic_id v1) (vc_sid v1) (vc_samplerate v1) True (vc_mode v1) None))]"
    by auto
  then show ?thesis using v1 h by (auto simp: voice_end_def talk_def last_report_def)
qed

lemma start_speaking:
  fixes v :: "('n, 'c) voice"
  assumes "rate = 8000 \<or> rate = 16000" "cd_init cd (rate = 16000) = Some enc" "small_frames (cd_frame_size cd (rate = 16000))"
    and "eng_up (vc_eng v)" "vc_data v = []" "vc_sid v = 0"
  shows "speaking d b64 cd (rate = 16000) enc (talk_start v rate) []
    (duer_voice_start_internal cd rate v)"
proof -
  let ?w = "rate = 16000"
  let ?fs = "cd_frame_size cd ?w"
  let ?h = "talk_start v rate"
  define v0 where "v0 = duer_voice_start_internal cd rate v"
  let ?sx = "\<lparr>sx_wide = ?w, sx_encoder = enc, sx_frame_size = ?fs, sx_in = []\<rparr>"
  have m: "vc_malloc u = (True, u)" if "vc_mem u = []" for u :: "('n, 'c) voice"
    using that by (simp add: vc_malloc_def vc_set_mem_def vc_mem_def)
  have m1: "vc_mem (v\<lparr>vc_samplerate := rate, vc_speex := None\<rparr>) = []" using assms(4) by (simp add: vc_mem_def eng_up_def)
  have "duer_speex_create cd rate (v\<lparr>vc_samplerate := rate, vc_speex := None\<rparr>) = (Some ?sx, v\<lparr>vc_samplerate := rate, vc_speex := None\<rparr>)"
    using assms(1,2) by (auto simp: duer_speex_create_def m[OF m1])
  then have v0: "v0 = snd (duer_increase_topic_id (v\<lparr>vc_samplerate := rate, vc_speex := Some ?sx\<rparr>))"
    by (simp add: v0_def duer_voice_start_internal_def)
  have "vc_topic_id v0 = vc_topic_id (snd (duer_increase_topic_id v))" "vc_speex v0 = Some ?sx" "vc_samplerate v0 = rate"
    "vc_mode v0 = vc_mode v" "vc_eng v0 = vc_eng v" "vc_data v0 = []" "vc_sid v0 = 0"
    using assms(4-6) unfolding v0 by (auto simp: duer_increase_topic_id_def Let_def vc_mem_def split: list.splits prod.splits)
  then have "talk d b64 ?h [] [] v0" using assms(4) by (simp add: talk_def segments_def talk_start_def)
  then show "speaking d b64 cd ?w enc ?h [] (duer_voice_start_internal cd rate v)"
    unfolding speaking_def v0_def[symmetric] using \<open>vc_speex v0 = Some ?sx\<close> assms(3)
    by (intro exI[of _ ?sx] exI[of _ "[]"]) (simp add: small_frames_def)
qed

text \<open>C9: With an engine that has been created and enough memory, a recording that is sent, in the caller, in
  pieces that are not empty is queued for the cloud whole: the samples, filled up with zeros to whole frames,
  are encoded frame by frame, and the messages that enter the engine's queue are the printed reports
  that carry the encoded frames one after the other, numbered from 0, the last one marked as the end.\<close>

theorem voice_stream_delivered:
  assumes "prints d" "b64_fits b64" "rate = 8000 \<or> rate = 16000" "cd_init cd (rate = 16000) = Some enc"
    and "small_frames (cd_frame_size cd (rate = 16000))" "[] \<notin> set ps"
    and "eng_up (vc_eng v)" "vc_data v = []" "vc_sid v = 0"
  shows "\<exists>v' fr gs k. voice_run d le b64 cd (VoiceStart rate # map (\<lambda>p. VoiceSend (Some p)) ps @ [VoiceStop]) v = Some (Some v') \<and>
    (\<forall>f \<in> set fr. length f = 2 * cd_frame_size cd (rate = 16000)) \<and> k < 2 * cd_frame_size cd (rate = 16000) \<and>
    concat fr = concat ps @ replicate k 0 \<and>
    concat gs = concat (fst (encoded cd (cd_frame_size cd (rate = 16000)) (rate = 16000) enc fr)) \<and>
    (\<forall>g \<in> set gs. g \<noteq> [] \<and> length g \<le> I_BUFFER_LEN) \<and>
    (let h = talk_start v rate
     in queued_payloads (vc_eng v') = segments d b64 h gs @ [packed d (last_report h (length gs))]) \<and>
    vc_data v' = [] \<and> vc_sid v' = 0 \<and> vc_speex v' = None"
proof -
  let ?w = "rate = 16000"
  let ?fs = "cd_frame_size cd ?w"
  let ?h = "talk_start v rate"
  let ?v0 = "duer_voice_start_internal cd rate v"
  have s0: "speaking d b64 cd ?w enc ?h [] ?v0" by (rule start_speaking[OF assms(3-5,7-9)])
  obtain v1 where v1: "voice_run d le b64 cd (map (\<lambda>p. VoiceSend (Some p)) ps) ?v0 = Some (Some v1)" "speaking d b64 cd ?w enc ?h (concat ps) v1"
    using sends_speaking[OF assms(1,2,5) s0 assms(6), of le] by auto
  obtain v2 fr gs k where v2: "duer_speex_encode d le b64 cd [] v1 = Some (Some v2)" "\<forall>f \<in> set fr. length f = 2 * ?fs" "k < 2 * ?fs"
    "concat fr = concat ps @ replicate k 0" "talk d b64 ?h (concat (fst (encoded cd ?fs ?w enc fr))) gs v2"
    using flush_speaking[OF assms(1,2,5) v1(2), of le] by blast
  obtain v3 gs3 where v3: "voice_end d le b64 v2 = Some v3" "queued_payloads (vc_eng v3) = segments d b64 ?h gs3 @ [packed d (last_report ?h (length gs3))]"
    "concat gs3 = concat (fst (encoded cd ?fs ?w enc fr))" "\<forall>g \<in> set gs3. g \<noteq> [] \<and> length g \<le> I_BUFFER_LEN"
    "vc_data v3 = []" "vc_sid v3 = 0" "vc_speex v3 = None"
    using end_talk[OF assms(1,2) v2(5), of le] by blast
  obtain sx1 where "vc_speex v1 = Some sx1" using v1(2) by (auto simp: speaking_def)
  then have "voice_do d le b64 cd VoiceStop v1 = Some (Some v3)" using v2(1) v3(1) by (simp add: duer_voice_stop_internal_def)
  then have "voice_run d le b64 cd (VoiceStart rate # map (\<lambda>p. VoiceSend (Some p)) ps @ [VoiceStop]) v = Some (Some v3)"
    using v1(1) by (simp add: voice_run_append)
  then show ?thesis using v2(2-4) v3(2-7) by (intro exI[of _ v3] exI[of _ fr] exI[of _ gs3] exI[of _ k]) (simp add: Let_def)
qed

text \<open>A piece of no bytes in the middle of a frame encodes the samples that wait, filled up with zeros, and
  keeps them: they are sent again.\<close>

theorem empty_piece_repeats:
  assumes "prints d" "b64_fits b64" "rate = 8000 \<or> rate = 16000" "cd_init cd (rate = 16000) = Some enc"
    and "small_frames (cd_frame_size cd (rate = 16000))" "p \<noteq> []" "length p < 2 * cd_frame_size cd (rate = 16000)"
    and "eng_up (vc_eng v)" "vc_data v = []" "vc_sid v = 0"
  shows "\<exists>v' gs. voice_run d le b64 cd [VoiceStart rate, VoiceSend (Some p), VoiceSend (Some []), VoiceStop] v = Some (Some v') \<and>
    (let h = talk_start v rate;
         f = p @ replicate (2 * cd_frame_size cd (rate = 16000) - length p) 0
     in queued_payloads (vc_eng v') = segments d b64 h gs @ [packed d (last_report h (length gs))] \<and>
        concat gs = concat (fst (encoded cd (cd_frame_size cd (rate = 16000)) (rate = 16000) enc [f, f])))"
proof -
  let ?w = "rate = 16000"
  let ?fs = "cd_frame_size cd ?w"
  let ?h = "talk_start v rate"
  let ?f = "p @ replicate (2 * ?fs - length p) 0"
  let ?v0 = "duer_voice_start_internal cd rate v"
  have s0: "speaking d b64 cd ?w enc ?h [] ?v0" by (rule start_speaking[OF assms(3-5,8-10)])
  obtain v1 where v1: "voice_do d le b64 cd (VoiceSend (Some p)) ?v0 = Some (Some v1)" "speaking d b64 cd ?w enc ?h p v1"
    using send_speaking[OF assms(1,2,5) s0 assms(6), of le] by auto
  obtain sx fr gs where x: "vc_speex v1 = Some sx" "sx_frame_size sx = ?fs" "sx_wide sx = ?w" "p = concat fr @ sx_in sx"
    "\<forall>f \<in> set fr. length f = 2 * ?fs" "length (sx_in sx) < 2 * ?fs" "sx_encoder sx = snd (encoded cd ?fs ?w enc fr)"
    "talk d b64 ?h (concat (fst (encoded cd ?fs ?w enc fr))) gs v1"
    using v1(2) unfolding speaking_def by blast
  have "fr = []" using x(4,5) assms(7) by (cases fr) auto
  then have y: "sx_in sx = p" "sx_encoder sx = enc" "talk d b64 ?h [] gs v1" using x(4,7,8) by simp_all
  have ne: "sx_in sx \<noteq> []" using y(1) assms(6) by simp
  obtain v2 gs2 where v2: "duer_speex_encode d le b64 cd [] v1 = Some (Some v2)"
    "vc_speex v2 = Some (sx\<lparr>sx_encoder := snd (encoded cd ?fs ?w enc [?f])\<rparr>)"
    "talk d b64 ?h (concat (fst (encoded cd ?fs ?w enc [?f]))) gs2 v2"
    using flush_frame[OF assms(1,2) y(3) assms(5) x(1-3) ne x(6), of le] unfolding y(1,2) append_Nil by blast
  let ?sx = "sx\<lparr>sx_encoder := snd (encoded cd ?fs ?w enc [?f])\<rparr>"
  have "sx_frame_size ?sx = ?fs" "sx_wide ?sx = ?w" "sx_in ?sx \<noteq> []" "length (sx_in ?sx) < 2 * ?fs" "sx_in ?sx = p"
    "sx_encoder ?sx = snd (encoded cd ?fs ?w enc [?f])"
    using x(2,3,6) y(1) ne by simp_all
  note z = this
  obtain v3 gs3 where v3: "duer_speex_encode d le b64 cd [] v2 = Some (Some v3)"
    "talk d b64 ?h (concat (fst (encoded cd ?fs ?w enc [?f])) @
       concat (fst (encoded cd ?fs ?w (snd (encoded cd ?fs ?w enc [?f])) [?f]))) gs3 v3"
    using flush_frame[OF assms(1,2) v2(3) assms(5) v2(2) z(1-4), of le] unfolding z(5,6) by blast
  have two: "fst (encoded cd ?fs ?w enc [?f, ?f]) =
      fst (encoded cd ?fs ?w enc [?f]) @ fst (encoded cd ?fs ?w (snd (encoded cd ?fs ?w enc [?f])) [?f])"
    using encoded_append[of cd ?fs ?w enc "[?f]" "[?f]"] by (simp add: Let_def split: prod.split)
  obtain v4 gs4 where v4: "voice_end d le b64 v3 = Some v4" "queued_payloads (vc_eng v4) = segments d b64 ?h gs4 @ [packed d (last_report ?h (length gs4))]"
    "concat gs4 = concat (fst (encoded cd ?fs ?w enc [?f])) @
       concat (fst (encoded cd ?fs ?w (snd (encoded cd ?fs ?w enc [?f])) [?f]))"
    using end_talk[OF assms(1,2) v3(2), of le] by blast
  have "voice_do d le b64 cd (VoiceSend (Some [])) v1 = Some (Some v2)" using v2(1) by (simp add: duer_voice_send_internal_def)
  moreover have "voice_do d le b64 cd VoiceStop v2 = Some (Some v4)"
    using v2(2) v3(1) v4(1) by (simp add: duer_voice_stop_internal_def)
  ultimately have "voice_run d le b64 cd [VoiceStart rate, VoiceSend (Some p), VoiceSend (Some []), VoiceStop] v = Some (Some v4)"
    using v1(1) by simp
  moreover have "concat gs4 = concat (fst (encoded cd ?fs ?w enc [?f, ?f]))" unfolding two concat_append by (rule v4(3))
  ultimately show ?thesis using v4(2) by (intro exI[of _ v4] exI[of _ gs4]) (simp only: Let_def simp_thms)
qed

section \<open>Examples\<close>

text \<open>An encoder that keeps the first byte of a sample and counts its frames, of two samples each.\<close>

definition demo_codec :: "nat codec" where
  "demo_codec = \<lparr>cd_init = \<lambda>wide. Some 0, cd_frame_size = \<lambda>wide. 2, cd_encode = \<lambda>n f. ([f ! 0, f ! 2], n + 1)\<rparr>"

definition demo_b64 :: "nat \<Rightarrow> byte list \<Rightarrow> string option" where
  "demo_b64 n bs = (if length bs < n then Some (map (\<lambda>b. char_of (unat b)) bs) else None)"

definition demo_voice :: "nat speex option \<Rightarrow> (unit, nat) voice" where
  "demo_voice sx = \<lparr>vc_eng = ready_eng, vc_data = [], vc_samplerate = 8000, vc_topic_id = 0, vc_lock = True,
     vc_speex = sx, vc_mode = DUER_VOICE_MODE_DEFAULT, vc_sid = 0, vc_random = [7], vc_events = None\<rparr>"

lemma demo_voice_facts: "eng_up (vc_eng (demo_voice sx))" "vc_data (demo_voice sx) = []" "vc_sid (demo_voice sx) = 0"
  "cd_init demo_codec w = Some 0" "small_frames (cd_frame_size demo_codec w)" "b64_fits demo_b64" "cd_frame_size demo_codec w = 2"
  by (simp_all add: demo_voice_def eng_up_def demo_codec_def small_frames_def b64_fits_def demo_b64_def I_BUFFER_LEN_def
      O_BUFFER_LEN_def ready_eng_def fresh_eng_def quiet_world_def)

theorem voice_pieces_join_witness:
  "voice_run strict_sdk True demo_b64 demo_codec [VoiceSend (Some [1, 2, 3]), VoiceSend (Some [4, 5])]
     (demo_voice (Some \<lparr>sx_wide = False, sx_encoder = 0, sx_frame_size = 2, sx_in = []\<rparr>)) =
   voice_run strict_sdk True demo_b64 demo_codec [VoiceSend (Some [1, 2, 3, 4, 5])]
     (demo_voice (Some \<lparr>sx_wide = False, sx_encoder = 0, sx_frame_size = 2, sx_in = []\<rparr>))"
  using voice_pieces_join[of "[1, 2, 3]" "[4, 5]" "demo_voice (Some \<lparr>sx_wide = False, sx_encoder = 0, sx_frame_size = 2, sx_in = []\<rparr>)"
      strict_sdk True demo_b64 demo_codec]
  by (simp add: demo_voice_def half_full_def framesize_def)

theorem voice_stream_delivered_witness:
  "\<exists>v' fr gs k. voice_run strict_sdk True demo_b64 demo_codec
      [VoiceStart 16000, VoiceSend (Some [1, 2, 3]), VoiceSend (Some [4, 5]), VoiceStop] (demo_voice None) = Some (Some v') \<and>
    (\<forall>f \<in> set fr. length f = 4) \<and> k < 4 \<and> concat fr = [1, 2, 3, 4, 5] @ replicate k 0 \<and>
    concat gs = concat (fst (encoded demo_codec 2 True 0 fr)) \<and> length (queued_payloads (vc_eng v')) = length gs + 1"
proof -
  have "[] \<notin> set [[1, 2, 3], [4, 5 :: byte]]" by simp
  from voice_stream_delivered[OF strict_prints(1) demo_voice_facts(6) _ demo_voice_facts(4,5) this demo_voice_facts(1-3), of 16000 True None]
  obtain v' fr gs k where r: "voice_run strict_sdk True demo_b64 demo_codec
      [VoiceStart 16000, VoiceSend (Some [1, 2, 3]), VoiceSend (Some [4, 5]), VoiceStop] (demo_voice None) = Some (Some v')"
    "\<forall>f \<in> set fr. length f = 2 * 2" "k < 2 * 2" "concat fr = concat [[1, 2, 3], [4, 5]] @ replicate k 0"
    "concat gs = concat (fst (encoded demo_codec 2 True 0 fr))"
    "let h = talk_start (demo_voice None) 16000
     in queued_payloads (vc_eng v') = segments strict_sdk demo_b64 h gs @ [packed strict_sdk (last_report h (length gs))]"
    by (auto simp: demo_voice_facts(7) simp del: voice_run.simps encoded.simps)
  then show ?thesis
    by (intro exI[of _ v'] exI[of _ fr] exI[of _ gs] exI[of _ k])
      (simp add: Let_def segments_def talk_start_def queued_payloads_def demo_voice_def ready_eng_def fresh_eng_def del: voice_run.simps encoded.simps)
qed

theorem empty_piece_repeats_witness:
  "\<exists>v' gs. voice_run strict_sdk True demo_b64 demo_codec
      [VoiceStart 8000, VoiceSend (Some [1]), VoiceSend (Some []), VoiceStop] (demo_voice None) = Some (Some v') \<and>
    concat gs = [2 :: byte, 83, 80, 88, 1, 0, 2, 83, 80, 88, 1, 0] \<and> length (queued_payloads (vc_eng v')) = length gs + 1"
proof -
  have "[1 :: byte] \<noteq> []" "length [1 :: byte] < 2 * cd_frame_size demo_codec ((8000 :: int) = 16000)"
    by (simp_all add: demo_voice_facts(7))
  from empty_piece_repeats[OF strict_prints(1) demo_voice_facts(6) _ demo_voice_facts(4,5) this demo_voice_facts(1-3), of True None]
  obtain v' gs where r: "voice_run strict_sdk True demo_b64 demo_codec
      [VoiceStart 8000, VoiceSend (Some [1]), VoiceSend (Some []), VoiceStop] (demo_voice None) = Some (Some v')"
    "let h = talk_start (demo_voice None) 8000;
         f = [1] @ replicate (2 * cd_frame_size demo_codec False - length [1 :: byte]) 0
     in queued_payloads (vc_eng v') = segments strict_sdk demo_b64 h gs @ [packed strict_sdk (last_report h (length gs))] \<and>
        concat gs = concat (fst (encoded demo_codec (cd_frame_size demo_codec False) False 0 [f, f]))"
    by (auto simp: Let_def simp del: voice_run.simps encoded.simps)
  have "concat gs = [2 :: byte, 83, 80, 88, 1, 0, 2, 83, 80, 88, 1, 0]"
    using r(2) by (simp add: Let_def demo_codec_def frame_header_def)
  moreover have "length (queued_payloads (vc_eng v')) = length gs + 1" using r(2) by (simp add: Let_def segments_def talk_start_def queued_payloads_def demo_voice_def ready_eng_def fresh_eng_def)
  ultimately show ?thesis using r(1) by blast
qed

end
