(* ===== verification/Ntp.thy ===== *)
theory Ntp
  imports CaAgent Complex_Main
begin

unbundle bit_operations_syntax

text \<open>
  The NTP client (\<^verbatim>\<open>modules/ntp/lightduer_net_ntp.c\<close>): one request over UDP, and the time from the reply.
  The reply is the words of a buffer in network byte order.

  Arithmetic with \<^verbatim>\<open>double\<close> is that of rational numbers with a rounding \<open>rnd\<close> after every operation. Waiting
  (\<^verbatim>\<open>duer_sleep\<close>) has no effect here but for its count. \<open>None\<close> is a fault: the conversion of a number that is out of
  range.
\<close>

record ntp_time =
  coarse :: u32
  fine :: u32

record duer_time =
  dt_sec :: u32
  dt_usec :: u32

definition JAN_1970 :: u32 where "JAN_1970 = 0x83aa7e80"

definition NTPFRAC :: "u32 \<Rightarrow> u32" where
  "NTPFRAC x = 4294 * x + drop_bit 11 (1981 * x)"

definition USEC :: "u32 \<Rightarrow> u32" where
  "USEC x = drop_bit 12 x - 759 * drop_bit 16 (drop_bit 10 x + 32768)"

definition ntp_diff :: "(rat \<Rightarrow> rat) \<Rightarrow> ntp_time \<Rightarrow> ntp_time \<Rightarrow> rat" where
  "ntp_diff rnd start stop =
     (let a = sint (coarse stop - coarse start);
          (b, a1) = (if fine start \<le> fine stop then (fine stop - fine start, a)
                     else (NOT (fine start - fine stop), a - 1))
      in rnd (rnd (of_int a1 * 1000000) + rnd (of_int (uint b) * (1000000 / 4294967296))))"

definition ntp_get_current_time :: "world \<Rightarrow> ntp_time \<times> world" where
  "ntp_get_current_time w =
     (let (ts, w1) = duer_timestamp w
      in (\<lparr>coarse = ts div 1000, fine = NTPFRAC (ts mod 1000 * 1000)\<rparr>, w1))"

text \<open>Storing a \<^verbatim>\<open>double\<close> in 32 bits cuts off the fraction.\<close>

definition to_u32 :: "rat \<Rightarrow> u32 option" where
  "to_u32 q = (if - 1 < q \<and> q < 4294967296 then Some (if q < 0 then 0 else of_int \<lfloor>q\<rfloor>) else None)"

definition ntp_set_time :: "(rat \<Rightarrow> rat) \<Rightarrow> ntp_time \<Rightarrow> rat \<Rightarrow> duer_time option" where
  "ntp_set_time rnd new_time adjust =
     (case to_u32 (rnd (of_int (uint (USEC (fine new_time))) + adjust)) of
        None \<Rightarrow> None
      | Some usec \<Rightarrow>
          (let sec = coarse new_time - JAN_1970
           in if 999999 < usec
              then map_option (\<lambda>u. \<lparr>dt_sec = sec + 1, dt_usec = u\<rparr>) (to_u32 (rnd (of_int (uint usec) - 1000000)))
              else Some \<lparr>dt_sec = sec, dt_usec = usec\<rparr>))"

text \<open>Word \<open>i\<close> of the reply.\<close>

definition ntp_word :: "bool \<Rightarrow> byte list \<Rightarrow> nat \<Rightarrow> u32" where
  "ntp_word le data i = duer_ntohl le (load32 le (drop (4 * i) data))"

definition ntp_stamp :: "bool \<Rightarrow> byte list \<Rightarrow> nat \<Rightarrow> ntp_time" where
  "ntp_stamp le data i = \<lparr>coarse = ntp_word le data i, fine = ntp_word le data (i + 1)\<rparr>"

definition ntp_rfc1305_calc_set :: "(rat \<Rightarrow> rat) \<Rightarrow> bool \<Rightarrow> byte list \<Rightarrow> ntp_time \<Rightarrow> duer_time option" where
  "ntp_rfc1305_calc_set rnd le data arrival =
     (let orgtime = ntp_stamp le data 6; rectime = ntp_stamp le data 8; xmttime = ntp_stamp le data 10;
          el = ntp_diff rnd orgtime arrival; st = ntp_diff rnd rectime xmttime
      in ntp_set_time rnd xmttime (rnd (rnd (el - st) / 2)))"

definition ntp_packet :: "bool \<Rightarrow> ntp_time \<Rightarrow> byte list" where
  "ntp_packet le t =
     concat (map (store32 le) ([duer_htonl le 0x1b0004fa, duer_htonl le 0x10000, duer_htonl le 0x10000] @ replicate 7 0 @
       [duer_htonl le (coarse t), duer_htonl le (fine t)]))"

definition ntp_send_packet :: "bool \<Rightarrow> crypt \<Rightarrow> trans option \<Rightarrow> world \<Rightarrow> (status \<times> world) option" where
  "ntp_send_packet le cr hdlr w =
     (let (t, w1) = ntp_get_current_time w in duer_trans_send le cr hdlr (ntp_packet le t) w1)"

text \<open>
  Receiving, with the milliseconds waited so far; the length of what was received is not looked at. The
  buffer keeps what an earlier datagram left.
\<close>

function ntp_recv_loop ::
  "(rat \<Rightarrow> rat) \<Rightarrow> bool \<Rightarrow> crypt \<Rightarrow> int \<Rightarrow> int \<Rightarrow> byte list \<Rightarrow> trans option \<Rightarrow> world
     \<Rightarrow> (status \<times> duer_time option \<times> trans option \<times> world) option" where
  "ntp_recv_loop rnd le cr timeout wait_time buf hdlr w =
     (case duer_trans_recv le cr hdlr buf w of
        None \<Rightarrow> None
      | Some (ret, buf1, hdlr1, w1) \<Rightarrow>
          if ret < 0 then
            (if timeout < wait_time + 500 then Some (ret, None, hdlr1, w1)
             else ntp_recv_loop rnd le cr timeout (wait_time + 500) buf1 hdlr1 w1)
          else
            (let (t, w2) = ntp_get_current_time w1
             in map_option (\<lambda>r. (0, Some r, hdlr1, w2)) (ntp_rfc1305_calc_set rnd le buf1 t)))"
  by pat_completeness auto
termination by (relation "measure (\<lambda>(rnd, le, cr, timeout, wait, buf, h, w). nat (timeout + 1 - wait))") auto

definition NTP_SERVER :: "byte list" where "NTP_SERVER = map (\<lambda>c. of_nat (of_char c)) ''s2c.time.edu.cn''"

text \<open>The transport is closed and never released.\<close>

definition duer_ntp_client ::
  "(rat \<Rightarrow> rat) \<Rightarrow> bool \<Rightarrow> crypt \<Rightarrow> byte list option \<Rightarrow> int \<Rightarrow> world \<Rightarrow> (status \<times> duer_time option \<times> world) option" where
  "duer_ntp_client rnd le cr host timeout w0 =
     (let hs = (case host of None \<Rightarrow> NTP_SERVER | Some h \<Rightarrow> h);
          addr = \<lparr>na_type = PROTO_UDP, na_port = 123, na_host = Some hs, na_host_size = length hs\<rparr>;
          (hdlr, w) = duer_trans_acquire None w0
      in case duer_trans_connect hdlr addr w of
           None \<Rightarrow> None
         | Some (rs, hdlr1, w1) \<Rightarrow>
             (case ntp_send_packet le cr hdlr1 w1 of
                None \<Rightarrow> None
              | Some (ret, w2) \<Rightarrow>
                  if ret \<noteq> 48 then (let (rs2, h2, w3) = duer_trans_close hdlr1 w2 in Some (- 1, None, w3))
                  else
                    (case ntp_recv_loop rnd le cr (if timeout = 0 then 2000 else timeout) 0 (replicate 1300 0) hdlr1 w2 of
                       None \<Rightarrow> None
                     | Some (ret2, t, h2, w3) \<Rightarrow> (let (rs3, h3, w4) = duer_trans_close h2 w3 in Some (ret2, t, w4)))))"

section \<open>Properties\<close>

lemma unat_USEC:
  fixes x :: u32
  defines "q \<equiv> unat x div 4096" and "r \<equiv> (unat x div 1024 + 32768) div 65536"
  shows "unat (USEC x) = q - 759 * r" "16384 * r \<le> q + 8192" "q \<le> 16384 * r + 8191" "r \<le> 64" "759 * r \<le> q" "q - 759 * r < 1000000"
proof -
  have x: "unat x < 4294967296" using unsigned_less[of x, where 'a = nat] by simp
  let ?y = "unat x div 1024"
  have y: "?y < 4194304" using x by (simp add: div_less_iff_less_mult)
  have q: "q = ?y div 4" by (simp add: q_def div_mult2_eq[symmetric])
  show 1: "16384 * r \<le> q + 8192" "q \<le> 16384 * r + 8191" "r \<le> 64" using y unfolding q r_def by linarith+
  show 2: "759 * r \<le> q" using 1 by (cases r) auto
  have "q < 1048576" using y unfolding q by linarith
  then show "q - 759 * r < 1000000" using 1 by (cases "r = 64") auto
  have a: "unat (drop_bit 12 x) = q" by (simp add: drop_bit_eq_div unat_div q_def)
  have "unat (drop_bit 10 x) = ?y" by (simp add: drop_bit_eq_div unat_div)
  then have "unat (drop_bit 10 x + 32768) = ?y + 32768" using y by (simp add: unat_word_ariths)
  then have b: "unat (drop_bit 16 (drop_bit 10 x + 32768)) = r" by (simp add: drop_bit_eq_div unat_div r_def)
  have "unat (759 * drop_bit 16 (drop_bit 10 x + 32768)) = 759 * r" using 1(3) by (simp add: unat_word_ariths b)
  then show "unat (USEC x) = q - 759 * r" using 2 by (simp add: USEC_def unat_sub word_le_nat_alt a)
qed

lemma USEC_bounds:
  "unat (USEC x) < 1000000" "\<bar>int (unat (USEC x)) * 2 ^ 32 - int (unat x) * 10 ^ 6\<bar> \<le> 381 * 2 ^ 32"
proof -
  define n where "n = unat x"
  define q where "q = unat x div 4096"
  define r where "r = (unat x div 1024 + 32768) div 65536"
  note f = unat_USEC[of x, folded q_def r_def]
  show "unat (USEC x) < 1000000" using f(1,6) by simp
  have "unat x = 4096 * q + unat x mod 4096" by (simp add: q_def)
  moreover have "unat x mod 4096 < 4096" by simp
  ultimately have x: "4096 * q \<le> n" "n < 4096 * q + 4096" unfolding n_def by linarith+
  have "uint x = int n" by (simp add: n_def)
  moreover have "int (unat (USEC x)) = int q - 759 * int r" using f(1,5) by simp
  ultimately show "\<bar>int (unat (USEC x)) * 2 ^ 32 - int (unat x) * 10 ^ 6\<bar> \<le> 381 * 2 ^ 32" using f(2,3) x by simp
qed

text \<open>With exact arithmetic and a delay of less than a second, the result is the server's time and the delay.\<close>

theorem ntp_set_time_exact:
  assumes "0 \<le> adjust" "adjust < 1000000"
  shows "\<exists>t. ntp_set_time (\<lambda>x. x) new_time adjust = Some t \<and> unat (dt_usec t) < 1000000 \<and>
    (dt_sec t = coarse new_time - JAN_1970 \<and> int (unat (dt_usec t)) = int (unat (USEC (fine new_time))) + \<lfloor>adjust\<rfloor> \<or>
     dt_sec t = coarse new_time - JAN_1970 + 1 \<and>
       int (unat (dt_usec t)) = int (unat (USEC (fine new_time))) + \<lfloor>adjust\<rfloor> - 1000000)"
proof -
  define u where "u = unat (USEC (fine new_time))"
  define k where "k = nat \<lfloor>adjust\<rfloor>"
  have u: "u < 1000000" "uint (USEC (fine new_time)) = int u" using USEC_bounds(1) by (simp_all add: u_def)
  have "\<lfloor>adjust\<rfloor> < 1000000" "0 \<le> \<lfloor>adjust\<rfloor>" using assms by (simp_all add: floor_less_iff)
  then have k: "k < 1000000" "\<lfloor>adjust\<rfloor> = int k" by (simp_all add: k_def nat_less_iff)
  have fl: "\<lfloor>of_int (int u) + adjust\<rfloor> = int (u + k)" using k(2) by simp
  have 1: "to_u32 (of_int (uint (USEC (fine new_time))) + adjust) = Some (of_nat (u + k))"
    using assms u k(1) fl unfolding u(2) by (simp add: to_u32_def)
  have uk: "unat (of_nat (u + k) :: u32) = u + k" using u(1) k(1) by (intro unat_of_nat_u32) simp
  have ik: "uint (of_nat (u + k) :: u32) = int (u + k)" using uk by (simp add: uint_nat del: of_nat_add)
  show ?thesis
  proof (cases "999999 < u + k")
    case False
    then have "\<not> (999999 :: u32) < of_nat (u + k)" using uk by (simp add: word_less_nat_alt)
    then have "ntp_set_time (\<lambda>x. x) new_time adjust = Some \<lparr>dt_sec = coarse new_time - JAN_1970, dt_usec = of_nat (u + k)\<rparr>"
      using 1 by (simp add: ntp_set_time_def Let_def)
    moreover have "unat (of_nat (u + k) :: u32) < 1000000" using uk False by linarith
    ultimately show ?thesis using uk unfolding k(2) u_def[symmetric] by (simp only: option.inject) (auto simp: ik[simplified])
  next
    case True
    then have "(999999 :: u32) < of_nat (u + k)" using uk by (simp add: word_less_nat_alt)
    moreover have "to_u32 (of_int (uint (of_nat (u + k) :: u32)) - 1000000) = Some (of_nat (u + k - 1000000))"
    proof -
      have "uint (of_nat (u + k) :: u32) = int (u + k)" using uk by (simp add: uint_nat)
      then show ?thesis using True u(1) k(1) by (simp add: to_u32_def of_nat_diff)
    qed
    moreover have "unat (of_nat (u + k - 1000000) :: u32) = u + k - 1000000" using u(1) k(1) by (intro unat_of_nat_u32) simp
    ultimately have "ntp_set_time (\<lambda>x. x) new_time adjust =
        Some \<lparr>dt_sec = coarse new_time - JAN_1970 + 1, dt_usec = of_nat (u + k - 1000000)\<rparr>"
      using 1 by (simp add: ntp_set_time_def Let_def)
    moreover obtain w :: u32 where w: "w = of_nat (u + k - 1000000)" by blast
    moreover have uw: "unat w = u + k - 1000000" using u(1) k(1) unfolding w by (intro unat_of_nat_u32) simp
    moreover have "uint w = int u + int k - 1000000" using uw True by (simp add: uint_nat of_nat_diff)
    moreover have "unat w < 1000000" using uw u(1) k(1) by linarith
    ultimately show ?thesis unfolding k(2) u_def[symmetric] by auto
  qed
qed

text \<open>C31: The microseconds computed from the 32 bits of a fraction of a second are below a million, and off by at most 381.\<close>

theorem ntp_usec_error:
  "unat (USEC x) < 1000000 \<and> \<bar>int (unat (USEC x)) * 2 ^ 32 - int (unat x) * 10 ^ 6\<bar> \<le> 381 * 2 ^ 32"
  using USEC_bounds by blast

end
