(* ===== verification/DevInfo.thy ===== *)
theory DevInfo
  imports Engine
begin

text \<open>
  Device information (\<^verbatim>\<open>modules/Device_Info/lightduer_dev_info.c\<close>): the integrator registers functions that
  tell versions and the network, and a report with them goes into the engine's queue. What a function
  of the integrator does is its status and what it leaves in the buffer.
\<close>

record dev_info_ops =
  op_firmware_version :: "(status \<times> string) option"
  op_chip_version :: "(status \<times> string) option"
  op_sdk_version :: "(status \<times> string) option"
  op_network_info :: "(status \<times> nat \<times> string \<times> string) option"

record 'n devinfo =
  dv_eng :: "'n eng"
  dv_reports :: "json list"
  dv_ops :: "dev_info_ops option"
  dv_lock :: bool

text \<open>\<open>mutex_ok\<close>: the mutex can be created.\<close>

definition duer_register_device_info_ops :: "bool \<Rightarrow> dev_info_ops option \<Rightarrow> 'n devinfo \<Rightarrow> status \<times> 'n devinfo" where
  "duer_register_device_info_ops mutex_ok ops v =
     (case ops of
        None \<Rightarrow> (DUER_ERR_INVALID_PARAMETER, v)
      | Some p \<Rightarrow>
          if op_firmware_version p = None \<or> op_chip_version p = None \<or> op_sdk_version p = None \<or> op_network_info p = None
          then (DUER_ERR_INVALID_PARAMETER, v)
          else if \<not> dv_lock v \<and> \<not> mutex_ok then (DUER_ERR_MEMORY_OVERLOW, v)
          else (DUER_OK, v\<lparr>dv_lock := True, dv_ops := Some p\<rparr>))"

text \<open>
  The four functions that ask are alike. The result of unlocking overwrites that of the integrator's function.
  Without registered functions a \<^verbatim>\<open>NULL\<close> is followed: the fault \<open>None\<close>. The buffer is \<open>None\<close> when nothing was written.
\<close>

definition ask :: "(dev_info_ops \<Rightarrow> (status \<times> 'b) option) \<Rightarrow> 'n devinfo \<Rightarrow> (status \<times> 'b option) option" where
  "ask op v =
     (if \<not> dv_lock v then Some (DUER_ERR_FAILED, None)
      else
        (case dv_ops v of
           None \<Rightarrow> None
         | Some p \<Rightarrow> (case op p of Some (rs, x) \<Rightarrow> Some (DUER_OK, Some x) | None \<Rightarrow> Some (DUER_OK, None))))"

definition duer_get_firmware_version :: "'n devinfo \<Rightarrow> (status \<times> string option) option" where
  "duer_get_firmware_version v = ask op_firmware_version v"

definition duer_get_chip_version :: "'n devinfo \<Rightarrow> (status \<times> string option) option" where
  "duer_get_chip_version v = ask op_chip_version v"

definition duer_get_sdk_version :: "'n devinfo \<Rightarrow> (status \<times> string option) option" where
  "duer_get_sdk_version v = ask op_sdk_version v"

definition duer_get_network_info :: "'n devinfo \<Rightarrow> (status \<times> (nat \<times> string \<times> string) option) option" where
  "duer_get_network_info v = ask op_network_info v"

definition network_name :: "nat \<Rightarrow> string" where
  "network_name t = (if t = 1 then ''WiFi'' else if t = 2 then ''ETHERNET'' else if t = 3 then ''BLUETOOTH''
     else if t = 4 then ''USB'' else ''Unknow'')"

definition device_members :: "string \<Rightarrow> string \<Rightarrow> string \<Rightarrow> nat \<times> string \<times> string \<Rightarrow> (string \<times> string) list" where
  "device_members fw chip sdk net =
     (case net of (t, mac, ssid) \<Rightarrow>
        [(''firmware_version'', fw), (''chip_version'', chip), (''sdk_version'', sdk), (''network_type'', network_name t),
         (''mac'', mac), (''ssid'', ssid)])"

definition device_tree :: "(string \<times> string) list \<Rightarrow> mem \<Rightarrow> json option \<times> mem" where
  "device_tree xs m0 =
     (case json_CreateObject m0 of
        (None, m1) \<Rightarrow> (None, m1)
      | (Some data, m1) \<Rightarrow>
          (case json_CreateObject m1 of
             (None, m2) \<Rightarrow> (None, m2)
           | (Some info, m2) \<Rightarrow>
               (let (info1, m3) = foldl (\<lambda>(j, m) (k, s). json_AddStringToObject j k s m) (info, m2) xs;
                    (data1, m4) = json_AddItemToObject data ''device_info'' (Some info1) m3
                in (Some data1, m4))))"

text \<open>\<open>junk\<close>: what is in a buffer nothing was written to.\<close>

definition duer_report_device_info ::
  "'n sdk \<Rightarrow> bool \<Rightarrow> string \<Rightarrow> nat \<times> string \<times> string \<Rightarrow> 'n devinfo \<Rightarrow> (status \<times> 'n devinfo) option" where
  "duer_report_device_info d le junk net_junk v =
     (if dv_ops v = None then Some (DUER_ERR_INVALID_PARAMETER, v)
      else
        (case (duer_get_firmware_version v, duer_get_chip_version v, duer_get_sdk_version v, duer_get_network_info v) of
           (Some (r1, fw), Some (r2, chip), Some (r3, sdk), Some (r4, net)) \<Rightarrow>
             if r1 \<noteq> DUER_OK then Some (r1, v)
             else if r2 \<noteq> DUER_OK then Some (r2, v)
             else if r3 \<noteq> DUER_OK then Some (r3, v)
             else if r4 \<noteq> DUER_OK then Some (r4, v)
             else
               (let (tree, m) = device_tree (device_members (case fw of None \<Rightarrow> junk | Some s \<Rightarrow> s)
                        (case chip of None \<Rightarrow> junk | Some s \<Rightarrow> s) (case sdk of None \<Rightarrow> junk | Some s \<Rightarrow> s)
                        (case net of None \<Rightarrow> net_junk | Some n \<Rightarrow> n)) (w_mem (e_world (dv_eng v)));
                    v1 = v\<lparr>dv_eng := (dv_eng v)\<lparr>e_world := (e_world (dv_eng v))\<lparr>w_mem := m\<rparr>\<rparr>\<rparr>
                in case tree of
                     None \<Rightarrow> Some (DUER_ERR_MEMORY_OVERLOW, v1)
                   | Some j \<Rightarrow>
                       (case duer_data_report d le (Some j) (dv_eng v1) of
                          None \<Rightarrow> None
                        | Some (rs, e) \<Rightarrow> Some (rs, v1\<lparr>dv_eng := e, dv_reports := dv_reports v @ [j]\<rparr>)))
         | _ \<Rightarrow> None))"

section \<open>Properties\<close>

text \<open>Whatever the integrator's functions answer, once they are registered the report does not fail because of them.\<close>

theorem device_info_hides_errors:
  assumes "dv_lock v" "dv_ops v = Some p" "w_mem (e_world (dv_eng v)) = []"
    and "op_firmware_version p = Some (r1, fw)" "op_chip_version p = Some (r2, chip)" "op_sdk_version p = Some (r3, sdk)"
    and "op_network_info p = Some (r4, net)"
  shows "duer_report_device_info d le junk nj v =
    (case duer_data_report d le (fst (device_tree (device_members fw chip sdk net) [])) (dv_eng v) of
       None \<Rightarrow> None
     | Some (rs, e) \<Rightarrow> Some (rs, v\<lparr>dv_eng := e, dv_reports := dv_reports v @ [the (fst (device_tree (device_members fw chip sdk net) []))]\<rparr>))"
proof -
  obtain t mac ssid where net: "net = (t, mac, ssid)" by (rule prod_cases3)
  let ?xs = "device_members fw chip sdk net"
  have c: "json_CreateObject [] = (Some (Json JObject None 0 []), [])" by (simp add: json_CreateObject_def json_New_Item_def)
  have s: "json_AddStringToObject j k x [] = (json_AddItemToArray j (Some (Some k, Json JString (Some x) 0 [])), [])" for j k x
    by (simp add: json_AddStringToObject_def json_CreateString_def json_New_Item_def json_strdup_def json_AddItemToObject_def)
  have "\<exists>j. device_tree ?xs [] = (Some j, [])"
    by (simp add: device_tree_def device_members_def net c s json_AddItemToObject_def json_strdup_def)
  then obtain j where j: "device_tree ?xs [] = (Some j, [])" ..
  have m: "v\<lparr>dv_eng := (dv_eng v)\<lparr>e_world := (e_world (dv_eng v))\<lparr>w_mem := []\<rparr>\<rparr>\<rparr> = v" using assms(3) by simp
  have a: "duer_get_firmware_version v = Some (DUER_OK, Some fw)" "duer_get_chip_version v = Some (DUER_OK, Some chip)"
    "duer_get_sdk_version v = Some (DUER_OK, Some sdk)" "duer_get_network_info v = Some (DUER_OK, Some net)"
    using assms by (simp_all add: duer_get_firmware_version_def duer_get_chip_version_def duer_get_sdk_version_def
        duer_get_network_info_def ask_def)
  have "dv_ops v \<noteq> None" using assms(2) by simp
  then show ?thesis
    unfolding duer_report_device_info_def a assms(3)
    by (simp only: a prod.case option.case if_False simp_thms refl assms(3) j Let_def m fst_conv option.sel)
qed

end
