(* ===== verification/Tls.thy ===== *)
theory Tls
  imports CaAgent
begin

text \<open>
  The transport of the builds without \<^verbatim>\<open>NET_TRANS_ENCRYPTED_BY_AES_CBC\<close>
  (\<^verbatim>\<open>framework/core/lightduer_net_trans_encrypted.c\<close>): TLS, or DTLS over UDP, with mbed TLS.

  The library is an argument. While it runs it calls back: it sends and receives through the transport, sets and
  reads a timer and asks for entropy. A run of it is a tree \<open>io\<close>, whose nodes are the calls back and whose branches
  are what it does with the answers; a leaf has the result, the bytes read, and the state it leaves.
  The state is that of the whole context: session, configuration, certificate and random generator.
\<close>

datatype tls_call =
    EntropyAddSource | DrbgSeed "byte list" | X509CrtParse "byte list" | ConfigDefaults bool | ConfCaChain
  | SslSetup | SetHostname string | SetBio bool | ConfReadTimeout u32 | ConfHandshakeTimeout u32 u32
  | SslHandshake | SslWrite "byte list" | SslRead nat | CloseNotify | SessionReset

datatype 's io =
    Done int "byte list" 's
  | BioSend "byte list" "int \<Rightarrow> 's io"
  | BioRecv nat "int \<Rightarrow> byte list \<Rightarrow> 's io"
  | BioRecvTimeout nat u32 "int \<Rightarrow> byte list \<Rightarrow> 's io"
  | SetDelay u32 u32 "'s io"
  | GetDelay "int \<Rightarrow> 's io"
  | EntropyPoll nat "byte list \<Rightarrow> 's io"

record 's tls_lib =
  lib_init :: 's
  lib_call :: "tls_call \<Rightarrow> 's \<Rightarrow> 's io"

text \<open>The timer of a context, and the outside world with the numbers that \<^verbatim>\<open>duer_random\<close> will give (zeros at the end).\<close>

record timing =
  tm_timer :: u32
  tm_int_ms :: u32
  tm_fin_ms :: u32

record net =
  n_world :: world
  n_random :: "u32 list"

datatype tls_status = ST_DISCONNECTED | ST_CONNECTED | ST_HANDSHAKED

record 's tls_ctx =
  te_lib :: 's
  te_timer :: timing
  te_status :: tls_status

text \<open>\<open>trans->secure\<close>: \<^verbatim>\<open>NULL\<close>, a context, or a context that was freed.\<close>

datatype 's secure = SecNull | SecLive "'s tls_ctx" | SecFreed

record 's tls_trans =
  tt_trans :: trans
  tt_secure :: "'s secure"

section \<open>What the library calls back\<close>

abbreviation (input) MBEDTLS_ERR_SSL_TIMEOUT :: int where "MBEDTLS_ERR_SSL_TIMEOUT \<equiv> - 26624"
abbreviation (input) MBEDTLS_ERR_SSL_WANT_READ :: int where "MBEDTLS_ERR_SSL_WANT_READ \<equiv> - 26880"
abbreviation (input) MBEDTLS_ERR_SSL_WANT_WRITE :: int where "MBEDTLS_ERR_SSL_WANT_WRITE \<equiv> - 26752"
abbreviation (input) MBEDTLS_ERR_NET_SEND_FAILED :: int where "MBEDTLS_ERR_NET_SEND_FAILED \<equiv> - 78"
abbreviation (input) MBEDTLS_ERR_NET_RECV_FAILED :: int where "MBEDTLS_ERR_NET_RECV_FAILED \<equiv> - 76"

definition duer_trans_mbedtls2status :: "int \<Rightarrow> status" where
  "duer_trans_mbedtls2status s =
     (if s = MBEDTLS_ERR_SSL_TIMEOUT then DUER_ERR_TRANS_TIMEOUT
      else if s = MBEDTLS_ERR_SSL_WANT_READ \<or> s = MBEDTLS_ERR_SSL_WANT_WRITE then DUER_ERR_TRANS_WOULD_BLOCK
      else if s < 0 then DUER_ERR_TRANS_INTERNAL_ERROR
      else s)"

definition duer_trans_encrypted_wrap_send :: "trans \<Rightarrow> byte list \<Rightarrow> world \<Rightarrow> int \<times> world" where
  "duer_trans_encrypted_wrap_send t buf w =
     (let (rs, w1) = duer_trans_wrapper_send (Some t) buf w
      in (if rs = DUER_ERR_TRANS_WOULD_BLOCK then MBEDTLS_ERR_SSL_WANT_WRITE
          else if rs < DUER_OK then MBEDTLS_ERR_NET_SEND_FAILED else rs, w1))"

definition duer_trans_encrypted_wrap_recv :: "trans \<Rightarrow> nat \<Rightarrow> world \<Rightarrow> int \<times> byte list \<times> world" where
  "duer_trans_encrypted_wrap_recv t len w =
     (let (rs, bs, w1) = duer_trans_wrapper_recv (Some t) len w
      in (if rs = DUER_ERR_TRANS_WOULD_BLOCK then MBEDTLS_ERR_SSL_WANT_READ
          else if rs < DUER_OK then MBEDTLS_ERR_NET_RECV_FAILED else rs, bs, w1))"

definition duer_trans_encrypted_wrap_recv_timeout :: "trans \<Rightarrow> nat \<Rightarrow> u32 \<Rightarrow> world \<Rightarrow> int \<times> byte list \<times> world" where
  "duer_trans_encrypted_wrap_recv_timeout t len timeout w =
     (let (rs, bs, w1) = duer_trans_wrapper_recv_timeout (Some t) len timeout w
      in (if rs = DUER_ERR_TRANS_WOULD_BLOCK then MBEDTLS_ERR_SSL_WANT_READ
          else if rs = DUER_ERR_TRANS_TIMEOUT then MBEDTLS_ERR_SSL_TIMEOUT
          else if rs < DUER_OK then MBEDTLS_ERR_NET_RECV_FAILED else rs, bs, w1))"

definition next_random :: "net \<Rightarrow> u32 \<times> net" where
  "next_random n = (case n_random n of [] \<Rightarrow> (0, n) | x # xs \<Rightarrow> (x, n\<lparr>n_random := xs\<rparr>))"

fun poll_bytes :: "nat \<Rightarrow> net \<Rightarrow> byte list \<times> net" where
  "poll_bytes 0 n = ([], n)"
| "poll_bytes (Suc k) n = (let (x, n1) = next_random n; (bs, n2) = poll_bytes k n1 in (ucast (x AND 0xFF) # bs, n2))"

text \<open>The index has 16 bits: with a larger length the loop does not end (and leaves the buffer).\<close>

definition duer_trans_encrypted_poll :: "nat \<Rightarrow> net \<Rightarrow> (byte list \<times> net) option" where
  "duer_trans_encrypted_poll len n = (if len < 65536 then Some (poll_bytes len n) else None)"

definition duer_trans_encrypted_get_timer :: "bool \<Rightarrow> timing \<Rightarrow> world \<Rightarrow> u32 \<times> timing \<times> world" where
  "duer_trans_encrypted_get_timer reset t w =
     (let (offset, w1) = duer_timestamp w
      in if reset then (0, t\<lparr>tm_timer := offset\<rparr>, w1) else (offset - tm_timer t, t, w1))"

definition duer_trans_encrypted_set_delay :: "u32 \<Rightarrow> u32 \<Rightarrow> timing \<Rightarrow> world \<Rightarrow> timing \<times> world" where
  "duer_trans_encrypted_set_delay int_ms fin_ms t w =
     (let t1 = t\<lparr>tm_int_ms := int_ms, tm_fin_ms := fin_ms\<rparr>
      in if fin_ms \<noteq> 0 then (let (d, t2, w1) = duer_trans_encrypted_get_timer True t1 w in (t2, w1)) else (t1, w))"

definition duer_trans_encrypted_get_delay :: "timing \<Rightarrow> world \<Rightarrow> int \<times> world" where
  "duer_trans_encrypted_get_delay t w =
     (if tm_fin_ms t = 0 then (- 1, w)
      else
        (let (elapsed_ms, t1, w1) = duer_trans_encrypted_get_timer False t w
         in (if tm_fin_ms t \<le> elapsed_ms then 2 else if tm_int_ms t \<le> elapsed_ms then 1 else 0, w1)))"

text \<open>A run of the library.\<close>

primrec run_io :: "trans \<Rightarrow> 's io \<Rightarrow> timing \<Rightarrow> net \<Rightarrow> (int \<times> byte list \<times> 's \<times> timing \<times> net) option" where
  "run_io t (Done r bs s) tm n = Some (r, bs, s, tm, n)"
| "run_io t (BioSend bs k) tm n =
     (let (rs, w) = duer_trans_encrypted_wrap_send t bs (n_world n) in run_io t (k rs) tm (n\<lparr>n_world := w\<rparr>))"
| "run_io t (BioRecv len k) tm n =
     (let (rs, bs, w) = duer_trans_encrypted_wrap_recv t len (n_world n) in run_io t (k rs bs) tm (n\<lparr>n_world := w\<rparr>))"
| "run_io t (BioRecvTimeout len timeout k) tm n =
     (let (rs, bs, w) = duer_trans_encrypted_wrap_recv_timeout t len timeout (n_world n)
      in run_io t (k rs bs) tm (n\<lparr>n_world := w\<rparr>))"
| "run_io t (SetDelay int_ms fin_ms k) tm n =
     (let (tm1, w) = duer_trans_encrypted_set_delay int_ms fin_ms tm (n_world n) in run_io t k tm1 (n\<lparr>n_world := w\<rparr>))"
| "run_io t (GetDelay k) tm n =
     (let (rs, w) = duer_trans_encrypted_get_delay tm (n_world n) in run_io t (k rs) tm (n\<lparr>n_world := w\<rparr>))"
| "run_io t (EntropyPoll len k) tm n =
     (case duer_trans_encrypted_poll len n of None \<Rightarrow> None | Some (bs, n1) \<Rightarrow> run_io t (k bs) tm n1)"

text \<open>A call of the library on a context.\<close>

definition tls_do :: "'s tls_lib \<Rightarrow> trans \<Rightarrow> tls_call \<Rightarrow> 's tls_ctx \<Rightarrow> net \<Rightarrow> (int \<times> byte list \<times> 's tls_ctx \<times> net) option" where
  "tls_do lib t c p n =
     map_option (\<lambda>(r, bs, s, tm, n1). (r, bs, p\<lparr>te_lib := s, te_timer := tm\<rparr>, n1))
       (run_io t (lib_call lib c (te_lib p)) (te_timer p) n)"

section \<open>The context\<close>

definition DRBG_PERS_CLIENT :: "byte list" where "DRBG_PERS_CLIENT = map of_char ''BCA DTLS CLIENT'' @ [0]"
definition COMMON_NAME :: string where "COMMON_NAME = ''*.iot.baidu.com''"

text \<open>The calls that set a context up, with whether their result is looked at.\<close>

definition context_calls :: "trans \<Rightarrow> (bool \<times> tls_call) list" where
  "context_calls t =
     [(True, EntropyAddSource), (True, DrbgSeed DRBG_PERS_CLIENT),
      (True, X509CrtParse (case tr_cert t of None \<Rightarrow> [] | Some c \<Rightarrow> take (tr_cert_len t) c)),
      (True, ConfigDefaults (tr_addr_type t = PROTO_UDP)), (False, ConfCaChain),
      (True, SslSetup), (True, SetHostname COMMON_NAME),
      (False, SetBio (tr_read_timeout t \<noteq> READ_FOREVER))] @
     (if tr_read_timeout t \<noteq> READ_FOREVER then [(False, ConfReadTimeout (tr_read_timeout t))] else []) @
     [(False, ConfHandshakeTimeout 1000 4000)]"

fun run_calls :: "'s tls_lib \<Rightarrow> trans \<Rightarrow> (bool \<times> tls_call) list \<Rightarrow> 's tls_ctx \<Rightarrow> net \<Rightarrow> ('s tls_ctx option \<times> net) option" where
  "run_calls lib t [] p n = Some (Some p, n)"
| "run_calls lib t ((chk, c) # cs) p n =
     (case tls_do lib t c p n of
        None \<Rightarrow> None
      | Some (r, bs, p1, n1) \<Rightarrow> if chk \<and> r \<noteq> 0 then Some (None, n1) else run_calls lib t cs p1 n1)"

text \<open>What it returns is \<open>tt_secure\<close> of the result.\<close>

definition duer_trans_get_context :: "'s tls_lib \<Rightarrow> 's tls_trans \<Rightarrow> net \<Rightarrow> ('s tls_trans \<times> net) option" where
  "duer_trans_get_context lib t n =
     (if tt_secure t \<noteq> SecNull then Some (t, n)
      else
        (let (ok, w) = w_malloc (n_world n); n1 = n\<lparr>n_world := w\<rparr>
         in if \<not> ok then Some (t, n1)
            else
              (case run_calls lib (tt_trans t) (context_calls (tt_trans t))
                      \<lparr>te_lib = lib_init lib, te_timer = \<lparr>tm_timer = 0, tm_int_ms = 0, tm_fin_ms = 0\<rparr>,
                       te_status = ST_DISCONNECTED\<rparr> n1 of
                 None \<Rightarrow> None
               | Some (None, n2) \<Rightarrow> Some (t, n2)
               | Some (Some p, n2) \<Rightarrow> Some (t\<lparr>tt_secure := SecLive (p\<lparr>te_status := ST_DISCONNECTED\<rparr>)\<rparr>, n2))))"

section \<open>Connecting\<close>

definition duer_trans_encrypted_handshake :: "'s tls_lib \<Rightarrow> 's tls_trans \<Rightarrow> net \<Rightarrow> (status \<times> 's tls_trans \<times> net) option" where
  "duer_trans_encrypted_handshake lib t n =
     (case tt_secure t of
        SecNull \<Rightarrow> Some (DUER_ERR_FAILED, t, n)
      | SecFreed \<Rightarrow> None
      | SecLive p \<Rightarrow>
          (case tls_do lib (tt_trans t) SslHandshake p n of
             None \<Rightarrow> None
           | Some (r, bs, p1, n1) \<Rightarrow>
               (let rs = duer_trans_mbedtls2status r;
                    p2 = (if rs = DUER_OK then p1\<lparr>te_status := ST_HANDSHAKED\<rparr> else p1)
                in Some (rs, t\<lparr>tt_secure := SecLive p2\<rparr>, n1))))"

definition duer_trans_encrypted_do_connect ::
  "'s tls_lib \<Rightarrow> 's tls_trans \<Rightarrow> netaddr \<Rightarrow> net \<Rightarrow> (status \<times> 's tls_trans \<times> net) option" where
  "duer_trans_encrypted_do_connect lib t0 addr n0 =
     (case duer_trans_get_context lib t0 n0 of
        None \<Rightarrow> None
      | Some (t, n) \<Rightarrow>
          if tt_secure t = SecNull then Some (DUER_ERR_FAILED, t, n)
          else
            (let (rs, w) = duer_trans_wrapper_connect (Some (tt_trans t)) addr (n_world n); n1 = n\<lparr>n_world := w\<rparr>
             in if rs = DUER_OK
                then (case tt_secure t of
                        SecLive p \<Rightarrow> Some (rs, t\<lparr>tt_secure := SecLive (p\<lparr>te_status := ST_CONNECTED\<rparr>)\<rparr>, n1)
                      | _ \<Rightarrow> None)
                else Some (rs, t, n1)))"

text \<open>\<open>trans->addr\<close>: of it only the type is ever set.\<close>

definition trans_addr :: "trans \<Rightarrow> netaddr" where
  "trans_addr t = \<lparr>na_type = tr_addr_type t, na_port = 0, na_host = None, na_host_size = 0\<rparr>"

definition duer_trans_encrypted_do_prepare :: "'s tls_lib \<Rightarrow> 's tls_trans \<Rightarrow> net \<Rightarrow> (status \<times> 's tls_trans \<times> net) option" where
  "duer_trans_encrypted_do_prepare lib t0 n0 =
     (case duer_trans_get_context lib t0 n0 of
        None \<Rightarrow> None
      | Some (t, n) \<Rightarrow>
          (case tt_secure t of
             SecNull \<Rightarrow> Some (DUER_ERR_FAILED, t, n)
           | SecFreed \<Rightarrow> None
           | SecLive p \<Rightarrow>
               (case te_status p of
                  ST_DISCONNECTED \<Rightarrow> duer_trans_encrypted_do_connect lib t (trans_addr (tt_trans t)) n
                | ST_CONNECTED \<Rightarrow> duer_trans_encrypted_handshake lib t n
                | ST_HANDSHAKED \<Rightarrow> Some (DUER_OK, t, n))))"

definition stage :: "tls_status \<Rightarrow> nat" where
  "stage s = (case s of ST_DISCONNECTED \<Rightarrow> 0 | ST_CONNECTED \<Rightarrow> 1 | ST_HANDSHAKED \<Rightarrow> 2)"

lemma get_context_live [simp]: "tt_secure t \<noteq> SecNull \<Longrightarrow> duer_trans_get_context lib t n = Some (t, n)"
  by (simp add: duer_trans_get_context_def)

lemma do_prepare_progress:
  assumes "duer_trans_encrypted_do_prepare lib t n = Some (rs, t1, n1)" "tt_secure t = SecLive p" "te_status p \<noteq> ST_HANDSHAKED"
  shows "\<exists>p1. tt_secure t1 = SecLive p1 \<and> (rs = DUER_OK \<longrightarrow> stage (te_status p1) = Suc (stage (te_status p)))
    \<and> (rs \<noteq> DUER_OK \<longrightarrow> te_status p1 = te_status p)"
  using assms
  by (cases "te_status p")
    (auto simp: duer_trans_encrypted_do_prepare_def duer_trans_encrypted_do_connect_def duer_trans_encrypted_handshake_def
      stage_def tls_do_def Let_def split: option.splits prod.splits if_splits)

text \<open>Every step either fails or goes on one status: the loop ends.\<close>

function tls_prepare_loop :: "'s tls_lib \<Rightarrow> 's tls_trans \<Rightarrow> status \<Rightarrow> net \<Rightarrow> (status \<times> 's tls_trans \<times> net) option" where
  "tls_prepare_loop lib t rs n =
     (case tt_secure t of
        SecLive p \<Rightarrow>
          (if te_status p \<noteq> ST_HANDSHAKED \<and> rs = DUER_OK
           then (case duer_trans_encrypted_do_prepare lib t n of
                   None \<Rightarrow> None
                 | Some (rs1, t1, n1) \<Rightarrow> tls_prepare_loop lib t1 rs1 n1)
           else Some (rs, t, n))
      | _ \<Rightarrow> None)"
  by pat_completeness auto
termination
proof (relation "measure (\<lambda>(lib, t, rs, n). if rs = DUER_OK then (case tt_secure t of SecLive p \<Rightarrow> 3 - stage (te_status p) | _ \<Rightarrow> 0) else 0)", goal_cases)
  case (2 lib t rs n p a rs1 b t1 n1)
  then have "duer_trans_encrypted_do_prepare lib t n = Some (rs1, t1, n1)" by simp
  from do_prepare_progress[OF this] 2 show ?case by (cases "te_status p") (auto simp: stage_def)
qed simp

declare tls_prepare_loop.simps [simp del]

definition duer_trans_encrypted_prepare :: "'s tls_lib \<Rightarrow> 's tls_trans \<Rightarrow> net \<Rightarrow> (status \<times> 's tls_trans \<times> net) option" where
  "duer_trans_encrypted_prepare lib t0 n0 =
     (case duer_trans_get_context lib t0 n0 of
        None \<Rightarrow> None
      | Some (t, n) \<Rightarrow>
          if tt_secure t = SecNull then Some (DUER_ERR_FAILED, t, n) else tls_prepare_loop lib t DUER_OK n)"

definition duer_trans_encrypted_connect ::
  "'s tls_lib \<Rightarrow> 's tls_trans \<Rightarrow> netaddr \<Rightarrow> net \<Rightarrow> (status \<times> 's tls_trans \<times> net) option" where
  "duer_trans_encrypted_connect lib t0 addr n0 =
     (case duer_trans_get_context lib t0 n0 of
        None \<Rightarrow> None
      | Some (t, n) \<Rightarrow>
          (case tt_secure t of
             SecNull \<Rightarrow> Some (DUER_ERR_FAILED, t, n)
           | SecFreed \<Rightarrow> None
           | SecLive p \<Rightarrow>
               if te_status p = ST_DISCONNECTED
               then (case duer_trans_encrypted_do_connect lib t addr n of
                       None \<Rightarrow> None
                     | Some (rs, t1, n1) \<Rightarrow>
                         if rs < DUER_OK then Some (rs, t1, n1) else duer_trans_encrypted_prepare lib t1 n1)
               else duer_trans_encrypted_prepare lib t n))"

section \<open>Sending, receiving and closing\<close>

text \<open>
  The pointer to the context is read before the context is prepared: when it was \<^verbatim>\<open>NULL\<close> then, it is followed
  although there is a context now.
\<close>

definition tls_data_call ::
  "'s tls_lib \<Rightarrow> 's tls_trans \<Rightarrow> tls_call \<Rightarrow> net \<Rightarrow> (status \<times> byte list \<times> 's tls_trans \<times> net) option" where
  "tls_data_call lib t c n =
     (case duer_trans_encrypted_prepare lib t n of
        None \<Rightarrow> None
      | Some (rs, t1, n1) \<Rightarrow>
          if rs < DUER_OK then Some (rs, [], t1, n1)
          else
            (case (tt_secure t, tt_secure t1) of
               (SecLive p0, SecLive p) \<Rightarrow>
                 map_option (\<lambda>(r, bs, p1, n2). (duer_trans_mbedtls2status r, bs, t1\<lparr>tt_secure := SecLive p1\<rparr>, n2))
                   (tls_do lib (tt_trans t1) c p n1)
             | _ \<Rightarrow> None))"

definition duer_trans_encrypted_send ::
  "'s tls_lib \<Rightarrow> 's tls_trans \<Rightarrow> byte list \<Rightarrow> net \<Rightarrow> (status \<times> 's tls_trans \<times> net) option" where
  "duer_trans_encrypted_send lib t data n =
     map_option (\<lambda>(rs, bs, t1, n1). (rs, t1, n1)) (tls_data_call lib t (SslWrite data) n)"

definition duer_trans_encrypted_recv ::
  "'s tls_lib \<Rightarrow> 's tls_trans \<Rightarrow> nat \<Rightarrow> net \<Rightarrow> (status \<times> byte list \<times> 's tls_trans \<times> net) option" where
  "duer_trans_encrypted_recv lib t len n = tls_data_call lib t (SslRead len) n"

text \<open>The context is freed, and the pointer to it stays.\<close>

definition duer_trans_encrypted_close :: "'s tls_lib \<Rightarrow> 's tls_trans \<Rightarrow> net \<Rightarrow> (status \<times> 's tls_trans \<times> net) option" where
  "duer_trans_encrypted_close lib t n =
     (case tt_secure t of
        SecNull \<Rightarrow> Some (DUER_OK, t, n)
      | SecFreed \<Rightarrow> None
      | SecLive p \<Rightarrow>
          (case run_calls lib (tt_trans t) [(False, CloseNotify), (False, SessionReset)] p n of
             None \<Rightarrow> None
           | Some (p1, n1) \<Rightarrow>
               (let (rs, w) = duer_trans_wrapper_close (Some (tt_trans t)) (n_world n1)
                in Some (DUER_OK, t\<lparr>tt_secure := SecFreed\<rparr>, n1\<lparr>n_world := w\<rparr>))))"

definition duer_trans_encrypted_set_read_timeout ::
  "'s tls_lib \<Rightarrow> 's tls_trans \<Rightarrow> u32 \<Rightarrow> net \<Rightarrow> (status \<times> 's tls_trans \<times> net) option" where
  "duer_trans_encrypted_set_read_timeout lib t timeout n =
     (case tt_secure t of
        SecNull \<Rightarrow> Some (DUER_ERR_FAILED, t, n)
      | SecFreed \<Rightarrow> if timeout = READ_FOREVER then Some (DUER_OK, t, n) else None
      | SecLive p \<Rightarrow>
          if timeout = READ_FOREVER then Some (DUER_OK, t, n)
          else
            map_option (\<lambda>(r, bs, p1, n1). (DUER_OK, t\<lparr>tt_secure := SecLive p1\<rparr>, n1))
              (tls_do lib (tt_trans t) (ConfReadTimeout timeout) p n))"

text \<open>The handle's functions in this build: the plain functions without a certificate, and these with one.\<close>

definition tls_trans_close :: "'s tls_lib \<Rightarrow> 's tls_trans \<Rightarrow> net \<Rightarrow> (status \<times> 's tls_trans \<times> net) option" where
  "tls_trans_close lib t n =
     (if duer_trans_is_encrypted (Some (tt_trans t)) then duer_trans_encrypted_close lib t n
      else (let (rs, w) = duer_trans_wrapper_close (Some (tt_trans t)) (n_world n) in Some (rs, t, n\<lparr>n_world := w\<rparr>)))"

definition tls_trans_release :: "'s tls_lib \<Rightarrow> 's tls_trans \<Rightarrow> net \<Rightarrow> (status \<times> net) option" where
  "tls_trans_release lib t n =
     (case tls_trans_close lib t n of
        None \<Rightarrow> None
      | Some (rs, t1, n1) \<Rightarrow>
          (let (rs2, w) = duer_trans_wrapper_destroy (Some ((tt_trans t1)\<lparr>tr_cert := None, tr_cert_len := 0\<rparr>)) (n_world n1)
           in Some (DUER_OK, n1\<lparr>n_world := w\<rparr>)))"

section \<open>Properties\<close>

text \<open>The library's documentation: a handshake returns 0 or a negative error.\<close>

definition handshake_documented :: "'s tls_lib \<Rightarrow> bool" where
  "handshake_documented lib \<longleftrightarrow>
     (\<forall>t s tm n r bs s1 tm1 n1. run_io t (lib_call lib SslHandshake s) tm n = Some (r, bs, s1, tm1, n1) \<longrightarrow> r \<le> 0)"

lemma mbedtls2status_sign [simp]:
  "0 \<le> duer_trans_mbedtls2status r \<longleftrightarrow> 0 \<le> r" "duer_trans_mbedtls2status r < 0 \<longleftrightarrow> r < 0" "duer_trans_mbedtls2status r = 0 \<longleftrightarrow> r = 0"
  by (auto simp: duer_trans_mbedtls2status_def)

text \<open>Once a context is connected, preparing it is the handshake.\<close>

lemma prepare_connected:
  assumes "tt_secure t = SecLive p" "te_status p = ST_CONNECTED"
  shows "duer_trans_encrypted_prepare lib t n = duer_trans_encrypted_handshake lib t n"
proof -
  have d: "duer_trans_encrypted_do_prepare lib t n = duer_trans_encrypted_handshake lib t n"
    using assms by (simp add: duer_trans_encrypted_do_prepare_def)
  show ?thesis
    using assms
    by (auto simp: duer_trans_encrypted_prepare_def tls_prepare_loop.simps d duer_trans_encrypted_handshake_def Let_def
        split: option.splits prod.splits)
qed

lemma prepare_handshaked:
  assumes "tt_secure t = SecLive p" "te_status p = ST_HANDSHAKED"
  shows "duer_trans_encrypted_prepare lib t n = Some (DUER_OK, t, n)"
  using assms by (simp add: duer_trans_encrypted_prepare_def tls_prepare_loop.simps)

lemma prepare_disconnected:
  assumes "tt_secure t = SecLive p" "te_status p = ST_DISCONNECTED"
    and "duer_trans_wrapper_connect (Some (tt_trans t)) (trans_addr (tt_trans t)) (n_world n) = (rs, w)"
  shows "duer_trans_encrypted_prepare lib t n =
    (if rs = DUER_OK then duer_trans_encrypted_handshake lib (t\<lparr>tt_secure := SecLive (p\<lparr>te_status := ST_CONNECTED\<rparr>)\<rparr>) (n\<lparr>n_world := w\<rparr>)
     else Some (rs, t, n\<lparr>n_world := w\<rparr>))"
proof -
  let ?t = "t\<lparr>tt_secure := SecLive (p\<lparr>te_status := ST_CONNECTED\<rparr>)\<rparr>"
  have d: "duer_trans_encrypted_do_prepare lib t n =
      Some (rs, if rs = DUER_OK then ?t else t, n\<lparr>n_world := w\<rparr>)"
    using assms by (simp add: duer_trans_encrypted_do_prepare_def duer_trans_encrypted_do_connect_def Let_def)
  have "duer_trans_encrypted_prepare lib t n = tls_prepare_loop lib t DUER_OK n"
    using assms(1) by (simp add: duer_trans_encrypted_prepare_def)
  also have "\<dots> = tls_prepare_loop lib (if rs = DUER_OK then ?t else t) rs (n\<lparr>n_world := w\<rparr>)"
    using assms(1,2) d by (simp add: tls_prepare_loop.simps[of lib t DUER_OK])
  also have "\<dots> = (if rs = DUER_OK then duer_trans_encrypted_prepare lib ?t (n\<lparr>n_world := w\<rparr>) else Some (rs, t, n\<lparr>n_world := w\<rparr>))"
    using assms(1) by (simp add: duer_trans_encrypted_prepare_def tls_prepare_loop.simps)
  finally show ?thesis by (simp add: prepare_connected)
qed

lemma handshake_status:
  assumes "duer_trans_encrypted_handshake lib t n = Some (rs, t1, n1)" "tt_secure t = SecLive p" "te_status p = ST_CONNECTED"
    and "handshake_documented lib"
  shows "\<exists>p1. tt_secure t1 = SecLive p1 \<and> (te_status p1 = ST_HANDSHAKED \<longleftrightarrow> 0 \<le> rs)"
  using assms
  by (auto simp: duer_trans_encrypted_handshake_def tls_do_def Let_def handshake_documented_def split: option.splits prod.splits)
    (metis mbedtls2status_sign(1) order_antisym)+

text \<open>A context is prepared without an error exactly when it has shaken hands.\<close>

lemma prepare_status:
  assumes "duer_trans_encrypted_prepare lib t n = Some (rs, t1, n1)" "tt_secure t = SecLive p"
    and "handshake_documented lib" "fst (duer_trans_wrapper_connect (Some (tt_trans t)) (trans_addr (tt_trans t)) (n_world n)) \<le> 0"
  shows "\<exists>p1. tt_secure t1 = SecLive p1 \<and> (te_status p1 = ST_HANDSHAKED \<longleftrightarrow> 0 \<le> rs)"
proof (cases "te_status p")
  case ST_HANDSHAKED
  then show ?thesis using assms prepare_handshaked by fastforce
next
  case ST_CONNECTED
  then show ?thesis using assms prepare_connected handshake_status by metis
next
  case ST_DISCONNECTED
  obtain r w where r: "duer_trans_wrapper_connect (Some (tt_trans t)) (trans_addr (tt_trans t)) (n_world n) = (r, w)" by fastforce
  note e = prepare_disconnected[OF assms(2) ST_DISCONNECTED r, of lib]
  show ?thesis
  proof (cases "r = DUER_OK")
    case True
    then show ?thesis using handshake_status[of lib _ _ rs t1 n1] e assms(1,3) by fastforce
  next
    case False
    then show ?thesis using e assms r ST_DISCONNECTED by auto
  qed
qed

text \<open>A library whose handshake is one message, and a connected handle.\<close>

definition one_step_tls :: "nat tls_lib" where
  "one_step_tls =
     \<lparr>lib_init = 0,
      lib_call = \<lambda>c s. case c of
          SslHandshake \<Rightarrow> BioSend [22] (\<lambda>r. if r < 0 then Done r [] s else Done 0 [] 1)
        | SslWrite d \<Rightarrow> BioSend d (\<lambda>r. Done r [] s)
        | SslRead k \<Rightarrow> BioRecv k (\<lambda>r bs. Done r bs s)
        | _ \<Rightarrow> Done 0 [] s\<rparr>"

lemma one_step_documented: "handshake_documented one_step_tls"
  by (auto simp: handshake_documented_def one_step_tls_def Let_def split: prod.splits if_splits)

definition connected_tls :: "nat tls_trans" where
  "connected_tls =
     \<lparr>tt_trans = trans_zero\<lparr>tr_ctx := True, tr_cert := Some [1], tr_cert_len := 1, tr_read_timeout := READ_FOREVER\<rparr>,
      tt_secure = SecLive \<lparr>te_lib = 0, te_timer = \<lparr>tm_timer = 0, tm_int_ms = 0, tm_fin_ms = 0\<rparr>, te_status = ST_CONNECTED\<rparr>\<rparr>"

definition tls_net :: net where
  "tls_net = \<lparr>n_world = quiet_world\<lparr>w_soc := all_soc_ops, w_connect := [0], w_send := [1, 2]\<rparr>, n_random = []\<rparr>"

text \<open>C21: Data is handed to the TLS library exactly when the context has shaken hands after it was prepared; otherwise the
  error of preparing it is the result, and nothing else has happened.\<close>

theorem tls_send_after_handshake:
  assumes "tt_secure t = SecLive p" "handshake_documented lib"
    and "fst (duer_trans_wrapper_connect (Some (tt_trans t)) (trans_addr (tt_trans t)) (n_world n)) \<le> 0"
    and "duer_trans_encrypted_prepare lib t n = Some (rs, t1, n1)"
  shows "\<exists>p1. tt_secure t1 = SecLive p1 \<and>
    duer_trans_encrypted_send lib t data n =
      (if te_status p1 = ST_HANDSHAKED
       then map_option (\<lambda>(r, bs, p2, n2). (duer_trans_mbedtls2status r, t1\<lparr>tt_secure := SecLive p2\<rparr>, n2))
              (tls_do lib (tt_trans t1) (SslWrite data) p1 n1)
       else Some (rs, t1, n1))"
proof -
  from prepare_status[OF assms(4,1,2,3)]
  obtain p1 where p1: "tt_secure t1 = SecLive p1" "te_status p1 = ST_HANDSHAKED \<longleftrightarrow> 0 \<le> rs" by blast
  show ?thesis
    using p1 assms(1,4)
    by (cases "tls_do lib (tt_trans t1) (SslWrite data) p1 n1") (auto simp: duer_trans_encrypted_send_def tls_data_call_def)
qed

theorem tls_send_after_handshake_witness:
  "map_option (\<lambda>(r, t1, n1). (r, w_trace (n_world n1)))
      (duer_trans_encrypted_send one_step_tls connected_tls [7, 8] tls_net) = Some (2, [NetSend [22] 1, NetSend [7, 8] 2])"
proof -
  let ?t = "connected_tls"
  let ?p = "\<lparr>te_lib = 1 :: nat, te_timer = \<lparr>tm_timer = 0, tm_int_ms = 0, tm_fin_ms = 0\<rparr>, te_status = ST_HANDSHAKED\<rparr>"
  let ?n = "tls_net\<lparr>n_world := w_log (NetSend [22] 1) ((n_world tls_net)\<lparr>w_send := [2]\<rparr>)\<rparr>"
  note d = one_step_tls_def connected_tls_def tls_net_def quiet_world_def all_soc_ops_def tls_do_def Let_def
    duer_trans_encrypted_wrap_send_def duer_trans_wrapper_send_def soc_send_def w_log_def
  have 1: "tt_secure ?t = SecLive \<lparr>te_lib = 0, te_timer = \<lparr>tm_timer = 0, tm_int_ms = 0, tm_fin_ms = 0\<rparr>, te_status = ST_CONNECTED\<rparr>"
    by (simp add: connected_tls_def)
  have 2: "fst (duer_trans_wrapper_connect (Some (tt_trans ?t)) (trans_addr (tt_trans ?t)) (n_world tls_net)) \<le> 0"
    by (simp add: duer_trans_wrapper_connect_def soc_connect_def d)
  have "duer_trans_encrypted_prepare one_step_tls ?t tls_net = duer_trans_encrypted_handshake one_step_tls ?t tls_net"
    by (rule prepare_connected[OF 1]) simp
  also have "\<dots> = Some (DUER_OK, ?t\<lparr>tt_secure := SecLive ?p\<rparr>, ?n)"
    by (simp add: duer_trans_encrypted_handshake_def duer_trans_mbedtls2status_def d)
  finally have 3: "duer_trans_encrypted_prepare one_step_tls ?t tls_net = Some (DUER_OK, ?t\<lparr>tt_secure := SecLive ?p\<rparr>, ?n)" .
  show ?thesis
    using tls_send_after_handshake[OF 1 one_step_documented 2 3, of "[7, 8]"]
    by (simp add: duer_trans_mbedtls2status_def d)
qed

text \<open>C32: Closing a transport frees its context and leaves the handle pointing to it: the next connect, send, receive and
  close, a read timeout other than "for ever", and the release of a handle whose certificate is set, follow the pointer to
  the freed context. The timeout "for ever" does not.\<close>

theorem tls_closed_handle_faults:
  assumes "tt_secure t = SecLive p" "duer_trans_encrypted_close lib t n = Some (rs, t1, n1)"
  shows "duer_trans_encrypted_connect lib t1 addr n2 = None \<and> duer_trans_encrypted_send lib t1 data n2 = None \<and>
    duer_trans_encrypted_recv lib t1 len n2 = None \<and> duer_trans_encrypted_close lib t1 n2 = None \<and>
    (timeout \<noteq> READ_FOREVER \<longrightarrow> duer_trans_encrypted_set_read_timeout lib t1 timeout n2 = None) \<and>
    duer_trans_encrypted_set_read_timeout lib t1 READ_FOREVER n2 = Some (DUER_OK, t1, n2) \<and>
    (duer_trans_is_encrypted (Some (tt_trans t1)) \<longrightarrow> tls_trans_release lib t1 n2 = None)"
proof -
  have f: "tt_secure t1 = SecFreed"
    using assms by (auto simp: duer_trans_encrypted_close_def Let_def split: option.splits prod.splits)
  have p: "duer_trans_encrypted_prepare lib t1 n2 = None"
    using f by (simp add: duer_trans_encrypted_prepare_def tls_prepare_loop.simps)
  show ?thesis
    using f p by (simp add: duer_trans_encrypted_connect_def duer_trans_encrypted_send_def duer_trans_encrypted_recv_def
        tls_data_call_def duer_trans_encrypted_close_def tls_trans_release_def tls_trans_close_def
        duer_trans_encrypted_set_read_timeout_def)
qed

theorem tls_closed_handle_faults_witness:
  "\<exists>t1 n1. duer_trans_encrypted_close one_step_tls connected_tls tls_net = Some (DUER_OK, t1, n1) \<and>
     tls_trans_release one_step_tls t1 n1 = None"
proof -
  let ?t1 = "connected_tls\<lparr>tt_secure := SecFreed\<rparr>"
  have "\<exists>n1. duer_trans_encrypted_close one_step_tls connected_tls tls_net = Some (DUER_OK, ?t1, n1)"
    by (simp add: duer_trans_encrypted_close_def tls_do_def one_step_tls_def connected_tls_def Let_def split: prod.split)
  then obtain n1 where n1: "duer_trans_encrypted_close one_step_tls connected_tls tls_net = Some (DUER_OK, ?t1, n1)" ..
  have e: "duer_trans_is_encrypted (Some (tt_trans ?t1))" by (simp add: connected_tls_def duer_trans_is_encrypted_def)
  have "tls_trans_release one_step_tls ?t1 n1 = None"
    using tls_closed_handle_faults[OF _ n1, of _ undefined n1 "[]" 0] e by (simp add: connected_tls_def)
  with n1 show ?thesis by blast
qed

text \<open>A connection that would block, or failed, is tried again without the name of the host.\<close>

theorem tls_retry_forgets_host:
  assumes "tt_secure t = SecLive p" "te_status p = ST_DISCONNECTED" "f_connect (w_soc (n_world n))" "w_connect (n_world n) = s # r" "s < 0"
  shows "duer_trans_encrypted_send lib t data n =
    Some (s, t, n\<lparr>n_world := w_log (NetConnect \<lparr>na_type = tr_addr_type (tt_trans t), na_port = 0, na_host = None, na_host_size = 0\<rparr>)
      ((n_world n)\<lparr>w_connect := r\<rparr>)\<rparr>)"
proof -
  have c: "duer_trans_wrapper_connect (Some (tt_trans t)) (trans_addr (tt_trans t)) (n_world n) =
      (s, w_log (NetConnect (trans_addr (tt_trans t))) ((n_world n)\<lparr>w_connect := r\<rparr>))"
    using assms(3,4) by (simp add: duer_trans_wrapper_connect_def soc_connect_def)
  show ?thesis
    using prepare_disconnected[OF assms(1,2) c, of lib] assms(5)
    by (simp add: duer_trans_encrypted_send_def tls_data_call_def trans_addr_def)
qed

text \<open>The timer counts modulo $2^{32}$: what it reports depends on the time that has passed, also when the clock wraps between.\<close>

theorem tls_timer_wraps:
  assumes "duer_trans_encrypted_set_delay int_ms fin_ms tm w = (tm1, w1)" "w_clock w = now # later" "fin_ms \<noteq> 0"
    and "w_clock w2 = (now + d) # later2"
  shows "fst (duer_trans_encrypted_get_delay tm1 w2) = (if fin_ms \<le> d then 2 else if int_ms \<le> d then 1 else 0)"
  using assms
  by (auto simp: duer_trans_encrypted_set_delay_def duer_trans_encrypted_get_delay_def duer_trans_encrypted_get_timer_def
      duer_timestamp_def Let_def)

end
