(* ===== verification/OtaPackage.thy ===== *)
theory OtaPackage
  imports OtaMeta
begin

text \<open>
  Access to the modules of a package (\<^verbatim>\<open>modules/OTA/Unpacker/datacollector.c\<close>, \<^verbatim>\<open>package_api.c\<close>): the
  integrator asks for the modules of a type one by one and gets their names, versions, sizes and places.

  The tree of the description is that of \<open>OtaMeta\<close>; its parser is an argument. A buffer has a size and the text written to it.
  Following \<^verbatim>\<open>NULL\<close> and writing past the end of a buffer are the fault \<open>None\<close>.
\<close>

section \<open>Data\<close>

datatype module_type = ModuleTypeALL | ModuleTypeJS | ModuleTypeSO | ModuleTypeBIN | ModuleTypeJSON | ModuleTypeIMG

datatype package_type = PackageTypeApp | PackageTypeOS | PackageTypeProfile | PackageTypeUnknown

definition support_file_type :: "(string \<times> module_type) list" where
  "support_file_type =
     [(''js'', ModuleTypeJS), (''bin'', ModuleTypeBIN), (''so'', ModuleTypeSO), (''json'', ModuleTypeJSON), (''img'', ModuleTypeIMG)]"

record cbuf =
  cb_size :: nat
  cb_text :: "string option"

record pkg_module =
  md_name :: "cbuf option"
  md_type :: module_type
  md_size :: u32
  md_update :: byte
  md_version :: "cbuf option"
  md_hw_version :: "cbuf option"
  md_offset :: u32

definition module_zero :: pkg_module where
  "module_zero = \<lparr>md_name = None, md_type = ModuleTypeALL, md_size = 0, md_update = 0, md_version = None,
     md_hw_version = None, md_offset = 0\<rparr>"

record meta_info =
  mt_data_size :: u32
  mt_data_offset :: u32
  mt_data :: "byte list"
  mt_object :: "cjson option"

section \<open>Looking up\<close>

definition mbed_str_case_cmp :: "string option \<Rightarrow> string option \<Rightarrow> int" where
  "mbed_str_case_cmp s t = baidu_json_strcasecmp s t"

definition named :: "cjson \<Rightarrow> string \<Rightarrow> bool" where
  "named c key \<longleftrightarrow> mbed_str_case_cmp (cj_string c) (Some key) = 0"

text \<open>The first node of that name in the tree below, a child before its descendants and these before the next child.\<close>

fun find_below :: "cjson list \<Rightarrow> string \<Rightarrow> cjson option" where
  "find_below [] key = None"
| "find_below (CJ t s v i d ks # cs) key =
     (if named (CJ t s v i d ks) key then Some (CJ t s v i d ks)
      else (case find_below ks key of Some x \<Rightarrow> Some x | None \<Rightarrow> find_below cs key))"

definition mbed_find_cjson_object :: "cjson \<Rightarrow> string \<Rightarrow> cjson option" where
  "mbed_find_cjson_object obj key = find_below (cj_child obj) key"

definition cJSON_GetArrayItem :: "cjson \<Rightarrow> nat \<Rightarrow> cjson option" where
  "cJSON_GetArrayItem arr n = (if n < length (cj_child arr) then Some (cj_child arr ! n) else None)"

section \<open>Counting\<close>

definition is_type :: "module_type \<Rightarrow> cjson \<Rightarrow> bool" where
  "is_type ty c \<longleftrightarrow>
     list_ex (\<lambda>(s, t). ty = t \<and> named c ''type'' \<and> mbed_str_case_cmp (cj_valuestring c) (Some s) = 0) support_file_type"

definition mbed_get_module_num :: "cjson option \<Rightarrow> module_type \<Rightarrow> byte" where
  "mbed_get_module_num obj ty =
     (case Option.bind obj (\<lambda>j. mbed_find_cjson_object j ''module_list'') of
        None \<Rightarrow> 0
      | Some ml \<Rightarrow>
          (let total_count = of_nat (length (cj_child ml)) :: byte
           in if ty = ModuleTypeALL then total_count
              else of_nat (sum_list (map (\<lambda>md. length (filter (is_type ty) (cj_child md))) (take (unat total_count) (cj_child ml))))))"

text \<open>What a module adds to the offset of those behind it: the first of its members named \<^verbatim>\<open>size\<close>.\<close>

fun first_size :: "cjson list \<Rightarrow> u32" where
  "first_size [] = 0"
| "first_size (c # cs) = (if named c ''size'' then word_of_int (cj_valueint c) else first_size cs)"

definition mbed_get_module_offset :: "cjson option \<Rightarrow> byte \<Rightarrow> u32" where
  "mbed_get_module_offset obj target_index =
     (case Option.bind obj (\<lambda>j. mbed_find_cjson_object j ''module_list'') of
        None \<Rightarrow> 0
      | Some ml \<Rightarrow>
          if (of_nat (length (cj_child ml)) :: byte) \<le> target_index then 0
          else sum_list (map (\<lambda>md. first_size (cj_child md)) (take (unat target_index) (cj_child ml))))"

section \<open>A module\<close>

definition alloc_for :: "cjson \<Rightarrow> mem \<Rightarrow> (cbuf option \<times> mem) option" where
  "alloc_for c m =
     (case cj_valuestring c of
        None \<Rightarrow> None
      | Some s \<Rightarrow> (let (ok, m1) = malloc_ok m in Some (if ok then Some \<lparr>cb_size = length s + 1, cb_text = None\<rparr> else None, m1)))"

text \<open>The buffers for the texts of a module; \<open>Some (None, m)\<close> when one cannot be allocated and all are freed.\<close>

fun prebuild_members :: "cjson list \<Rightarrow> pkg_module \<Rightarrow> mem \<Rightarrow> (pkg_module option \<times> mem) option" where
  "prebuild_members [] mi m = Some (Some mi, m)"
| "prebuild_members (c # cs) mi m =
     (if named c ''name'' then
        (case alloc_for c m of
           None \<Rightarrow> None
         | Some (None, m1) \<Rightarrow> Some (None, m1)
         | Some (Some b, m1) \<Rightarrow> prebuild_members cs (mi\<lparr>md_name := Some b\<rparr>) m1)
      else if named c ''version'' then
        (case alloc_for c m of
           None \<Rightarrow> None
         | Some (None, m1) \<Rightarrow> Some (None, m1)
         | Some (Some b, m1) \<Rightarrow> prebuild_members cs (mi\<lparr>md_version := Some b\<rparr>) m1)
      else if named c ''hw_version'' then
        (case alloc_for c m of
           None \<Rightarrow> None
         | Some (None, m1) \<Rightarrow> Some (None, m1)
         | Some (Some b, m1) \<Rightarrow> prebuild_members cs (mi\<lparr>md_hw_version := Some b\<rparr>) m1)
      else prebuild_members cs mi m)"

definition mbed_prebuild_module :: "cjson option \<Rightarrow> byte \<Rightarrow> mem \<Rightarrow> (pkg_module option \<times> mem) option" where
  "mbed_prebuild_module obj index m =
     (case obj of
        None \<Rightarrow> Some (None, m)
      | Some j \<Rightarrow>
          if mbed_get_module_num obj ModuleTypeALL < index then Some (None, m)
          else
            (case mbed_find_cjson_object j ''module_list'' of
               None \<Rightarrow> Some (None, m)
             | Some ml \<Rightarrow>
                 (case cJSON_GetArrayItem ml (unat index) of
                    None \<Rightarrow> None
                  | Some item \<Rightarrow> prebuild_members (cj_child item) module_zero m)))"

text \<open>Copying a text with its terminating zero; \<open>Some None\<close>: there is no buffer.\<close>

definition copy_text :: "cjson \<Rightarrow> cbuf option \<Rightarrow> cbuf option option" where
  "copy_text c b =
     (case cj_valuestring c of
        None \<Rightarrow> None
      | Some s \<Rightarrow>
          (case b of
             None \<Rightarrow> Some None
           | Some b \<Rightarrow> if length s + 1 \<le> cb_size b then Some (Some (b\<lparr>cb_text := Some s\<rparr>)) else None))"

definition type_of_text :: "string option \<Rightarrow> module_type \<Rightarrow> module_type" where
  "type_of_text v old =
     (case find (\<lambda>(s, t). mbed_str_case_cmp v (Some s) = 0) support_file_type of None \<Rightarrow> old | Some (s, t) \<Rightarrow> t)"

fun info_members :: "cjson list \<Rightarrow> pkg_module \<Rightarrow> (status \<times> pkg_module) option" where
  "info_members [] mi = Some (0, mi)"
| "info_members (c # cs) mi =
     (if named c ''name'' then
        (case copy_text c (md_name mi) of
           None \<Rightarrow> None
         | Some None \<Rightarrow> Some (- 1, mi)
         | Some (Some b) \<Rightarrow> info_members cs (mi\<lparr>md_name := Some b\<rparr>))
      else if named c ''type'' then info_members cs (mi\<lparr>md_type := type_of_text (cj_valuestring c) (md_type mi)\<rparr>)
      else if named c ''size'' then info_members cs (mi\<lparr>md_size := word_of_int (cj_valueint c)\<rparr>)
      else if named c ''update'' then info_members cs (mi\<lparr>md_update := word_of_int (cj_valueint c)\<rparr>)
      else if named c ''version'' then
        (case copy_text c (md_version mi) of
           None \<Rightarrow> None
         | Some None \<Rightarrow> Some (- 1, mi)
         | Some (Some b) \<Rightarrow> info_members cs (mi\<lparr>md_version := Some b\<rparr>))
      else if named c ''hw_version'' then
        (case copy_text c (md_hw_version mi) of
           None \<Rightarrow> None
         | Some None \<Rightarrow> Some (- 1, mi)
         | Some (Some b) \<Rightarrow> info_members cs (mi\<lparr>md_hw_version := Some b\<rparr>))
      else info_members cs mi)"

definition mbed_get_module_info :: "cjson option \<Rightarrow> u32 \<Rightarrow> pkg_module \<Rightarrow> byte \<Rightarrow> (status \<times> pkg_module) option" where
  "mbed_get_module_info obj module_begin_offset mi index =
     (case obj of
        None \<Rightarrow> Some (- 1, mi)
      | Some j \<Rightarrow>
          if mbed_get_module_num obj ModuleTypeALL < index then Some (- 1, mi)
          else
            (case mbed_find_cjson_object j ''module_list'' of
               None \<Rightarrow> Some (- 1, mi)
             | Some ml \<Rightarrow>
                 (case cJSON_GetArrayItem ml (unat index) of
                    None \<Rightarrow> None
                  | Some item \<Rightarrow>
                      (case info_members (cj_child item) mi of
                         None \<Rightarrow> None
                       | Some (rs, mi1) \<Rightarrow>
                           if rs \<noteq> 0 then Some (rs, mi1)
                           else Some (0, mi1\<lparr>md_offset := module_begin_offset + mbed_get_module_offset obj index\<rparr>)))))"

section \<open>The interface\<close>

text \<open>
  In this configuration (\<^verbatim>\<open>_DEBUG_\<close> is defined in \<^verbatim>\<open>pack_include.h\<close>) the file is not read: the header and the description
  are those of a sample in the code, here arguments.
\<close>

definition mbed_build_pck_config_block ::
  "(byte list \<Rightarrow> mem \<Rightarrow> cjson option \<times> mem) \<Rightarrow> u32 \<Rightarrow> u32 \<Rightarrow> byte list \<Rightarrow> mem \<Rightarrow> (meta_info option \<times> mem) option" where
  "mbed_build_pck_config_block cjson_parse header_size meta_size meta_json m =
     (let (ok1, m1) = malloc_ok m
      in if \<not> ok1 then Some (None, m1)
         else
           (let (ok2, m2) = malloc_ok m1
            in if \<not> ok2 then Some (None, m2)
               else
                 (let (ok3, m3) = malloc_ok m2
                  in if \<not> ok3 then Some (None, m3)
                     else
                       (case memget 0 (unat meta_size) meta_json of
                          None \<Rightarrow> None
                        | Some data \<Rightarrow>
                            (let (obj, m4) = cjson_parse data m3
                             in Some (Some \<lparr>mt_data_size = meta_size, mt_data_offset = header_size + meta_size, mt_data = data,
                                  mt_object = obj\<rparr>, m4))))))"

definition pkg_get_module_count :: "meta_info \<Rightarrow> module_type \<Rightarrow> byte" where
  "pkg_get_module_count meta ty = (if mt_object meta = None then 0 else mbed_get_module_num (mt_object meta) ty)"

text \<open>The search for the module \<open>index\<close> among those of the type: \<open>left\<close> are still to be looked at.\<close>

fun acquire_loop :: "meta_info \<Rightarrow> module_type \<Rightarrow> int \<Rightarrow> nat \<Rightarrow> byte \<Rightarrow> byte \<Rightarrow> mem \<Rightarrow> (pkg_module option \<times> mem) option" where
  "acquire_loop meta ty index 0 tmp_index local_index m = Some (None, m)"
| "acquire_loop meta ty index (Suc left) tmp_index local_index m =
     (case mbed_prebuild_module (mt_object meta) tmp_index m of
        None \<Rightarrow> None
      | Some (None, m1) \<Rightarrow> Some (None, m1)
      | Some (Some mi, m1) \<Rightarrow>
          (case mbed_get_module_info (mt_object meta) (mt_data_offset meta) mi tmp_index of
             None \<Rightarrow> None
           | Some (rs, mi1) \<Rightarrow>
               if md_type mi1 = ty \<and> uint local_index = index then Some (Some mi1, m1)
               else acquire_loop meta ty index left (tmp_index + 1) (if md_type mi1 = ty then local_index + 1 else local_index) m1))"

text \<open>For all types the buffers are those of the first module, whatever the index.\<close>

definition pkg_acquire_module :: "meta_info option \<Rightarrow> module_type \<Rightarrow> int \<Rightarrow> mem \<Rightarrow> (pkg_module option \<times> mem) option" where
  "pkg_acquire_module ctx ty index m =
     (case ctx of
        None \<Rightarrow> Some (None, m)
      | Some meta \<Rightarrow>
          if mt_object meta = None then Some (None, m)
          else
            (let (ok, m1) = malloc_ok m
             in if \<not> ok then Some (None, m1)
                else if ty = ModuleTypeALL then
                  (case mbed_prebuild_module (mt_object meta) 0 m1 of
                     None \<Rightarrow> None
                   | Some (None, m2) \<Rightarrow> Some (None, m2)
                   | Some (Some mi, m2) \<Rightarrow>
                       map_option (\<lambda>(rs, mi1). (Some mi1, m2))
                         (mbed_get_module_info (mt_object meta) (mt_data_offset meta) mi (word_of_int index)))
                else if uint (mbed_get_module_num (mt_object meta) ModuleTypeALL) < index then Some (None, m1)
                else acquire_loop meta ty index (unat (mbed_get_module_num (mt_object meta) ModuleTypeALL)) 0 0 m1))"

definition pkg_get_module_name :: "pkg_module option \<Rightarrow> cbuf option" where
  "pkg_get_module_name md = Option.bind md md_name"

definition pkg_get_module_version :: "pkg_module option \<Rightarrow> bool \<Rightarrow> cbuf option" where
  "pkg_get_module_version md hardware_version = Option.bind md (\<lambda>d. if hardware_version then md_hw_version d else md_version d)"

text \<open>The status, the offset and the size, for a caller that asks for both.\<close>

definition pkg_locate_module_data :: "pkg_module option \<Rightarrow> status \<times> u32 \<times> u32" where
  "pkg_locate_module_data md = (case md of None \<Rightarrow> (- 1, 0, 0) | Some d \<Rightarrow> (0, md_offset d, md_size d))"

text \<open>
  The name of the package: the status, what is written to the buffer, and the length. \<open>name\<close> is the caller's buffer,
  which is as long as it says.
\<close>

definition mbed_get_pkg_name :: "cjson option \<Rightarrow> bool \<Rightarrow> byte option \<Rightarrow> (status \<times> string option \<times> byte option) option" where
  "mbed_get_pkg_name obj name name_len =
     (case obj of
        None \<Rightarrow> Some (- 1, None, name_len)
      | Some j \<Rightarrow>
          (case name_len of
             None \<Rightarrow> if name then Some (- 1, None, None) else None
           | Some n \<Rightarrow>
               if \<not> name \<and> n \<noteq> 0 then Some (- 1, None, name_len)
               else
                 (case mbed_find_cjson_object j ''basic_info'' of
                    None \<Rightarrow> Some (- 1, None, name_len)
                  | Some bi \<Rightarrow>
                      (case Option.bind (mbed_find_cjson_object bi ''app_name'') cj_valuestring of
                         None \<Rightarrow> None
                       | Some s \<Rightarrow>
                           if s = [] then Some (0, None, Some 0)
                           else if unat n < length s then Some (1, None, Some (of_nat (length s)))
                           else Some (0, Some s, name_len)))))"

definition mbed_get_pkg_type :: "cjson option \<Rightarrow> (status \<times> package_type option) option" where
  "mbed_get_pkg_type obj =
     (case Option.bind obj (\<lambda>j. mbed_find_cjson_object j ''basic_info'') of
        None \<Rightarrow> Some (- 1, None)
      | Some bi \<Rightarrow>
          (case mbed_find_cjson_object bi ''package_type'' of
             None \<Rightarrow> None
           | Some p \<Rightarrow>
               let v = cj_valuestring p
               in Some (0, Some (if mbed_str_case_cmp v (Some ''App'') = 0 then PackageTypeApp
                   else if mbed_str_case_cmp v (Some ''OS'') = 0 then PackageTypeOS
                   else if mbed_str_case_cmp v (Some ''Profile'') = 0 then PackageTypeProfile
                   else PackageTypeUnknown))))"

definition pkg_get_pkg_name :: "meta_info option \<Rightarrow> bool \<Rightarrow> byte option \<Rightarrow> (status \<times> string option \<times> byte option) option" where
  "pkg_get_pkg_name ctx name name_len =
     (case ctx of None \<Rightarrow> Some (- 1, None, name_len) | Some meta \<Rightarrow> mbed_get_pkg_name (mt_object meta) name name_len)"

definition pkg_get_pkg_type :: "meta_info option \<Rightarrow> (status \<times> package_type option) option" where
  "pkg_get_pkg_type ctx = (case ctx of None \<Rightarrow> Some (- 1, None) | Some meta \<Rightarrow> mbed_get_pkg_type (mt_object meta))"

section \<open>Descriptions of packages\<close>

text \<open>A module: name, type, size, whether it is to be updated, version and hardware version; the tree the packaging tool writes.\<close>

type_synonym entry = "string \<times> module_type \<times> nat \<times> bool \<times> string \<times> string"

definition e_name :: "entry \<Rightarrow> string" where "e_name = (\<lambda>(nm, ty, sz, up, vs, hw). nm)"
definition e_type :: "entry \<Rightarrow> module_type" where "e_type = (\<lambda>(nm, ty, sz, up, vs, hw). ty)"
definition e_size :: "entry \<Rightarrow> nat" where "e_size = (\<lambda>(nm, ty, sz, up, vs, hw). sz)"

definition type_text :: "module_type \<Rightarrow> string" where
  "type_text ty = (case ty of ModuleTypeJS \<Rightarrow> ''js'' | ModuleTypeSO \<Rightarrow> ''so'' | ModuleTypeBIN \<Rightarrow> ''bin'' | ModuleTypeJSON \<Rightarrow> ''json''
     | ModuleTypeIMG \<Rightarrow> ''img'' | ModuleTypeALL \<Rightarrow> ''other'')"

definition entry_node :: "entry \<Rightarrow> cjson" where
  "entry_node = (\<lambda>(nm, ty, sz, up, vs, hw).
     CJ JObject None None 0 0
       [str_node ''name'' nm, str_node ''type'' (type_text ty), int_node ''size'' sz,
        CJ (if up then JTrue else JFalse) (Some ''update'') None (if up then 1 else 0) 0 [],
        str_node ''signature'' [], str_node ''version'' vs, str_node ''hw_version'' hw])"

definition pkg_tree :: "string \<Rightarrow> entry list \<Rightarrow> cjson" where
  "pkg_tree app es =
     CJ JObject None None 0 0
       [CJ JObject (Some ''basic_info'') None 0 0
          [str_node ''app_name'' app, CJ JFalse (Some ''update'') None 0 0 [], str_node ''package_type'' ''App''],
        CJ JObject (Some ''inst_and_uninst_info'') None 0 0
          [str_node ''package_install_path'' [], CJ JArray (Some ''module_list'') None 0 0 (map entry_node es)]]"

text \<open>These are descriptions in the sense of the unpacker too.\<close>

lemma pkg_tree_describes: "describes (pkg_tree app es) app (map (\<lambda>(nm, ty, sz, up, vs, hw). (nm, sz, vs)) es)"
proof -
  have "list_all2 describes_module (map entry_node es) (map (\<lambda>(nm, ty, sz, up, vs, hw). (nm, sz, vs)) es)"
    by (simp add: list_all2_map1 list_all2_map2 entry_node_def describes_module_def text_member_def int_member_def
        str_node_def int_node_def list_all2_same split: prod.split)
  then show ?thesis by (simp add: describes_def pkg_tree_def text_member_def str_node_def)
qed

text \<open>What is to be known of the module \<open>i\<close> of a package whose modules begin at \<open>off\<close>.\<close>

definition full :: "string \<Rightarrow> cbuf" where "full s = \<lparr>cb_size = length s + 1, cb_text = Some s\<rparr>"

definition entry_module :: "u32 \<Rightarrow> entry list \<Rightarrow> nat \<Rightarrow> pkg_module" where
  "entry_module off es i =
     (case es ! i of (nm, ty, sz, up, vs, hw) \<Rightarrow>
        \<lparr>md_name = Some (full nm), md_type = ty, md_size = of_nat sz, md_update = (if up then 1 else 0),
         md_version = Some (full vs), md_hw_version = Some (full hw),
         md_offset = off + of_nat (sum_list (map e_size (take i es)))\<rparr>)"

definition pkg_meta :: "string \<Rightarrow> entry list \<Rightarrow> u32 \<Rightarrow> meta_info" where
  "pkg_meta app es off = \<lparr>mt_data_size = 0, mt_data_offset = off, mt_data = [], mt_object = Some (pkg_tree app es)\<rparr>"

lemma named_CJ [simp]: "named (CJ t (Some s) v i d ks) key \<longleftrightarrow> strcasecmp_chars s key = 0" "\<not> named (CJ t None v i d ks) key"
  by (simp_all add: named_def mbed_str_case_cmp_def)

lemma named_nodes [simp]:
  "named (str_node k s) key \<longleftrightarrow> strcasecmp_chars k key = 0" "named (int_node k n) key \<longleftrightarrow> strcasecmp_chars k key = 0"
  by (simp_all add: str_node_def int_node_def)

lemma find_below_node [simp]:
  "find_below (str_node k s # cs) key = (if strcasecmp_chars k key = 0 then Some (str_node k s) else find_below cs key)"
  by (simp add: str_node_def)

lemma find_module_list [simp]:
  "mbed_find_cjson_object (pkg_tree app es) ''module_list'' = Some (CJ JArray (Some ''module_list'') None 0 0 (map entry_node es))"
  by (simp add: mbed_find_cjson_object_def pkg_tree_def tolower_code_def)

lemma module_num_all [simp]: "mbed_get_module_num (Some (pkg_tree app es)) ModuleTypeALL = of_nat (length es)"
  by (simp add: mbed_get_module_num_def)

lemma array_item [simp]:
  "cJSON_GetArrayItem (CJ t s v i d (map entry_node es)) n = (if n < length es then Some (entry_node (es ! n)) else None)"
  by (simp add: cJSON_GetArrayItem_def)

lemma type_of_type_text [simp]: "type_of_text (Some (type_text ty)) ModuleTypeALL = ty"
  by (cases ty) (simp_all add: type_of_text_def support_file_type_def type_text_def mbed_str_case_cmp_def tolower_code_def)

lemma prebuild_entry:
  assumes "es ! i = (nm, ty, sz, up, vs, hw)"
  shows "prebuild_members (cj_child (entry_node (es ! i))) module_zero [] =
    Some (Some (module_zero\<lparr>md_name := Some \<lparr>cb_size = length nm + 1, cb_text = None\<rparr>,
       md_version := Some \<lparr>cb_size = length vs + 1, cb_text = None\<rparr>,
       md_hw_version := Some \<lparr>cb_size = length hw + 1, cb_text = None\<rparr>\<rparr>), [])"
  by (simp add: assms entry_node_def alloc_for_def str_node_def int_node_def tolower_code_def)

lemma info_entry:
  assumes "es ! i = (nm, ty, sz, up, vs, hw)" "mi = module_zero\<lparr>md_name := Some b1, md_version := Some b2, md_hw_version := Some b3\<rparr>"
    and "length nm < cb_size b1" "length vs < cb_size b2" "length hw < cb_size b3"
  shows "info_members (cj_child (entry_node (es ! i))) mi =
    Some (0, mi\<lparr>md_name := Some (b1\<lparr>cb_text := Some nm\<rparr>), md_type := ty, md_size := of_nat sz, md_update := (if up then 1 else 0),
       md_version := Some (b2\<lparr>cb_text := Some vs\<rparr>), md_hw_version := Some (b3\<lparr>cb_text := Some hw\<rparr>)\<rparr>)"
  using assms(3-5)
  by (simp add: assms(1,2) entry_node_def copy_text_def str_node_def int_node_def tolower_code_def module_zero_def)

lemma first_size_entry: "first_size (cj_child (entry_node e)) = of_nat (e_size e)"
  by (cases e) (simp add: entry_node_def e_size_def tolower_code_def int_node_def)

lemma offset_entries:
  assumes "i < length es" "length es < 256"
  shows "mbed_get_module_offset (Some (pkg_tree app es)) (of_nat i) = of_nat (sum_list (map e_size (take i es)))"
proof -
  have u: "unat (of_nat i :: byte) = i" "unat (of_nat (length es) :: byte) = length es"
    using assms by (simp_all add: unat_of_nat)
  have "(\<Sum>md\<leftarrow>map entry_node xs. first_size (cj_child md)) = of_nat (sum_list (map e_size xs))" for xs
    by (induction xs) (simp_all add: first_size_entry)
  moreover have "\<not> (of_nat (length es) :: byte) \<le> of_nat i" using u assms(1) by (simp add: word_le_nat_alt)
  ultimately show ?thesis by (simp add: mbed_get_module_offset_def u take_map)
qed

text \<open>Building and filling the entry \<open>i\<close>.\<close>

lemma module_entry:
  assumes "i < length es" "length es < 256"
  shows "\<exists>mi. mbed_prebuild_module (Some (pkg_tree app es)) (of_nat i) [] = Some (Some mi, []) \<and>
    mbed_get_module_info (Some (pkg_tree app es)) off mi (of_nat i) = Some (0, entry_module off es i)"
proof -
  obtain nm ty sz up vs hw where e: "es ! i = (nm, ty, sz, up, vs, hw)" by (metis prod_cases6)
  let ?mi = "module_zero\<lparr>md_name := Some \<lparr>cb_size = length nm + 1, cb_text = None\<rparr>,
       md_version := Some \<lparr>cb_size = length vs + 1, cb_text = None\<rparr>, md_hw_version := Some \<lparr>cb_size = length hw + 1, cb_text = None\<rparr>\<rparr>"
  have u: "unat (of_nat i :: byte) = i" using assms by (simp add: unat_of_nat)
  have l: "\<not> (of_nat (length es) :: byte) < of_nat i"
    using assms by (simp add: word_less_nat_alt unat_of_nat)
  have 1: "mbed_prebuild_module (Some (pkg_tree app es)) (of_nat i) [] = Some (Some ?mi, [])"
    using prebuild_entry[OF e] assms(1) l by (simp add: mbed_prebuild_module_def u)
  have 2: "mbed_get_module_info (Some (pkg_tree app es)) off ?mi (of_nat i) = Some (0, entry_module off es i)"
    using info_entry[OF e refl, of "\<lparr>cb_size = length nm + 1, cb_text = None\<rparr>" "\<lparr>cb_size = length vs + 1, cb_text = None\<rparr>"
        "\<lparr>cb_size = length hw + 1, cb_text = None\<rparr>"] assms l
    by (simp add: mbed_get_module_info_def u offset_entries entry_module_def e full_def module_zero_def)
  show ?thesis using 1 2 by blast
qed

lemma entry_module_type: "i < length es \<Longrightarrow> md_type (entry_module off es i) = e_type (es ! i)"
  by (simp add: entry_module_def e_type_def split: prod.splits)

definition of_type :: "module_type \<Rightarrow> entry list \<Rightarrow> nat list" where
  "of_type ty es = filter (\<lambda>i. e_type (es ! i) = ty) [0..<length es]"

lemma acquire_loop_entries:
  assumes "i + left = length es" "length es < 256" "local = length (filter (\<lambda>j. e_type (es ! j) = ty) [0..<i])" "local \<le> k"
  shows "acquire_loop (pkg_meta app es off) ty (int k) left (of_nat i) (of_nat local) [] =
    Some (if k < length (of_type ty es) then Some (entry_module off es (of_type ty es ! k)) else None, [])"
  using assms
proof (induction left arbitrary: i local)
  case 0
  then show ?case by (auto simp: of_type_def)
next
  case (Suc left)
  then have i: "i < length es" by simp
  from module_entry[OF i Suc.prems(2), of app off] obtain mi where
    mi: "mbed_prebuild_module (Some (pkg_tree app es)) (of_nat i) [] = Some (Some mi, [])"
      "mbed_get_module_info (Some (pkg_tree app es)) off mi (of_nat i) = Some (0, entry_module off es i)" by blast
  let ?P = "\<lambda>j. e_type (es ! j) = ty"
  have "local \<le> i" using Suc.prems(3) length_filter_le[of ?P "[0..<i]"] by simp
  then have u: "uint (of_nat local :: byte) = int local" using i Suc.prems(2) by (simp add: uint_nat unat_of_nat)
  have split: "[0..<length es] = [0..<i] @ i # [Suc i..<length es]"
    using i upt_add_eq_append[of 0 i "length es - i"] by (simp add: upt_conv_Cons)
  show ?case
  proof (cases "?P i")
    case False
    then show ?thesis
      using Suc.IH[of "Suc i" local] Suc.prems mi i
      by (simp add: pkg_meta_def entry_module_type add.commute)
  next
    case True
    show ?thesis
    proof (cases "local = k")
      case True
      have o: "of_type ty es = filter ?P [0..<i] @ i # filter ?P [Suc i..<length es]"
        using \<open>?P i\<close> by (simp add: of_type_def split)
      have "k < length (of_type ty es)" "of_type ty es ! k = i"
        using Suc.prems(3) \<open>local = k\<close> by (simp_all add: o nth_append)
      then show ?thesis using mi i \<open>?P i\<close> \<open>local = k\<close> u by (simp add: pkg_meta_def entry_module_type)
    next
      case False
      then show ?thesis
        using Suc.IH[of "Suc i" "Suc local"] Suc.prems mi i \<open>?P i\<close> u
        by (simp add: pkg_meta_def entry_module_type add.commute)
    qed
  qed
qed

lemma is_type_entry: "ty \<noteq> ModuleTypeALL \<Longrightarrow> length (filter (is_type ty) (cj_child (entry_node e))) = (if e_type e = ty then 1 else 0)"
proof -
  assume ty: "ty \<noteq> ModuleTypeALL"
  obtain nm t sz up vs hw where e: "e = (nm, t, sz, up, vs, hw)" by (metis prod_cases6)
  have n: "\<not> is_type ty (str_node k s)" if "strcasecmp_chars k ''type'' \<noteq> 0" for k s
    using that by (auto simp: is_type_def list_ex_iff)
  have "is_type ty (str_node ''type'' (type_text t)) \<longleftrightarrow> t = ty"
    using ty by (cases t; cases ty)
      (simp_all add: is_type_def support_file_type_def type_text_def str_node_def mbed_str_case_cmp_def tolower_code_def)
  moreover have "\<not> is_type ty (int_node ''size'' sz)" "\<not> is_type ty (CJ a (Some ''update'') b c d [])" for a b c d
    by (auto simp: is_type_def list_ex_iff tolower_code_def)
  ultimately show ?thesis by (simp add: e entry_node_def e_type_def n tolower_code_def)
qed

lemma module_num_type:
  assumes "ty \<noteq> ModuleTypeALL" "length es < 256"
  shows "mbed_get_module_num (Some (pkg_tree app es)) ty = of_nat (length (of_type ty es))"
proof -
  have "(\<Sum>md\<leftarrow>map entry_node xs. length (filter (is_type ty) (cj_child md))) = length (filter (\<lambda>e. e_type e = ty) xs)" for xs
    by (induction xs) (simp_all add: is_type_entry[OF assms(1)])
  moreover have "length (filter (\<lambda>e. e_type e = ty) es) = length (of_type ty es)"
    using arg_cong[OF filter_map[of "\<lambda>e. e_type e = ty" "(!) es" "[0..<length es]"], of length]
    by (simp add: of_type_def map_nth o_def)
  ultimately show ?thesis using assms by (simp add: mbed_get_module_num_def unat_of_nat)
qed

section \<open>Properties\<close>

text \<open>C28: In a package of fewer than 256 modules, while memory lasts, the modules of a type other than
  \<^verbatim>\<open>ModuleTypeALL\<close> are those of the description, in its order: asking for the k-th gives its name, versions
  and size and the place of its data, which is behind the data of all modules before it; there are as many as
  the count says, and asking for more gives nothing.\<close>

theorem package_modules_enumerated:
  assumes "ty \<noteq> ModuleTypeALL" "length es < 256"
  shows "unat (pkg_get_module_count (pkg_meta app es off) ty) = length (of_type ty es) \<and>
    pkg_acquire_module (Some (pkg_meta app es off)) ty (int k) [] =
      Some (if k < length (of_type ty es) then Some (entry_module off es (of_type ty es ! k)) else None, [])"
proof -
  have "length (of_type ty es) \<le> length es" using length_filter_le[of _ "[0..<length es]"] by (simp add: of_type_def)
  then have n: "unat (of_nat (length (of_type ty es)) :: byte) = length (of_type ty es)" "unat (of_nat (length es) :: byte) = length es"
    using assms(2) by (simp_all add: unat_of_nat)
  have c: "mbed_get_module_num (mt_object (pkg_meta app es off)) ModuleTypeALL = of_nat (length es)"
    "mt_object (pkg_meta app es off) = Some (pkg_tree app es)" by (simp_all add: pkg_meta_def)
  have 1: "unat (pkg_get_module_count (pkg_meta app es off) ty) = length (of_type ty es)"
    using assms n(1) by (simp add: pkg_get_module_count_def pkg_meta_def module_num_type)
  show ?thesis
  proof (cases "length es < k")
    case True
    have "uint (of_nat (length es) :: byte) = int (length es)" using n(2) by (simp add: uint_nat)
    then have "pkg_acquire_module (Some (pkg_meta app es off)) ty (int k) [] = Some (None, [])"
      using True assms(1) c by (simp add: pkg_acquire_module_def)
    then show ?thesis using 1 True \<open>length (of_type ty es) \<le> length es\<close> by simp
  next
    case False
    have "uint (of_nat (length es) :: byte) = int (length es)" using n(2) by (simp add: uint_nat)
    then have "pkg_acquire_module (Some (pkg_meta app es off)) ty (int k) [] =
        acquire_loop (pkg_meta app es off) ty (int k) (length es) 0 0 []"
      using False assms(1) c n(2) by (simp add: pkg_acquire_module_def)
    then show ?thesis using 1 acquire_loop_entries[of 0 "length es" es 0 ty k app off] assms(2) by simp
  qed
qed

definition sample_entries :: "entry list" where
  "sample_entries = [(''debug.bin'', ModuleTypeBIN, 9776, True, ''1.0.0.1'', ''1.0.0.1''),
     (''ota.img'', ModuleTypeIMG, 46160, True, ''1.0.0.2'', ''1.0.0.2''), (''module1.so'', ModuleTypeSO, 3353, False, ''1'', ''1''),
     (''module2.bin'', ModuleTypeBIN, 4404, False, ''1.0.0.5'', ''1.0.0.5'')]"

theorem package_modules_enumerated_witness:
  "map_option (\<lambda>(md, m). map_option (\<lambda>d. (md_size d, md_offset d)) md)
      (pkg_acquire_module (Some (pkg_meta ''hello'' sample_entries 1385)) ModuleTypeBIN 1 []) = Some (Some (4404, 60674))"
proof -
  have o: "of_type ModuleTypeBIN sample_entries = [0, 3]"
    by (simp add: of_type_def sample_entries_def e_type_def upt_rec)
  have l: "length sample_entries < 256" by (simp add: sample_entries_def)
  have "pkg_acquire_module (Some (pkg_meta ''hello'' sample_entries 1385)) ModuleTypeBIN (int 1) [] =
      Some (Some (entry_module 1385 sample_entries 3), [])"
    using package_modules_enumerated[of ModuleTypeBIN sample_entries "''hello''" 1385 1] l by (simp add: o)
  then show ?thesis by (simp add: entry_module_def sample_entries_def e_size_def)
qed

text \<open>Asking for the module \<open>i\<close> of all types allocates for the first one: when the name of the other is longer its
  copy runs over the end of the buffer.\<close>

theorem acquire_all_overruns:
  assumes "i < length es" "length es < 256" "length (e_name (es ! 0)) < length (e_name (es ! i))"
  shows "pkg_acquire_module (Some (pkg_meta app es off)) ModuleTypeALL (int i) [] = None"
proof -
  obtain nm0 ty0 sz0 up0 vs0 hw0 where e0: "es ! 0 = (nm0, ty0, sz0, up0, vs0, hw0)" by (metis prod_cases6)
  obtain nm ty sz up vs hw where e: "es ! i = (nm, ty, sz, up, vs, hw)" by (metis prod_cases6)
  have long: "length nm0 < length nm" using assms(3) by (simp add: e0 e e_name_def)
  have pos: "es \<noteq> []" using assms(1) by auto
  have pre: "\<exists>mi. mbed_prebuild_module (Some (pkg_tree app es)) 0 [] = Some (Some mi, []) \<and>
      md_name mi = Some \<lparr>cb_size = length nm0 + 1, cb_text = None\<rparr>"
    using prebuild_entry[OF e0] pos by (simp add: mbed_prebuild_module_def)
  then obtain mi where mi: "mbed_prebuild_module (Some (pkg_tree app es)) 0 [] = Some (Some mi, [])"
    "md_name mi = Some \<lparr>cb_size = length nm0 + 1, cb_text = None\<rparr>" by blast
  have u: "unat (of_nat i :: byte) = i" "\<not> (of_nat (length es) :: byte) < of_nat i"
    using assms(1,2) by (simp_all add: unat_of_nat word_less_nat_alt)
  have "info_members (cj_child (entry_node (es ! i))) mi = None"
    using long by (simp add: e entry_node_def copy_text_def mi(2) str_node_def tolower_code_def)
  then have "mbed_get_module_info (Some (pkg_tree app es)) off mi (of_nat i) = None"
    using u assms(1) by (simp add: mbed_get_module_info_def)
  then show ?thesis using mi(1) by (simp add: pkg_acquire_module_def pkg_meta_def)
qed

theorem acquire_all_overruns_witness:
  "pkg_acquire_module (Some (pkg_meta ''hello'' sample_entries 1385)) ModuleTypeALL 3 [] = None"
  using acquire_all_overruns[of 3 sample_entries "''hello''" 1385] by (simp add: sample_entries_def e_name_def)

text \<open>The index behind the last module passes the check, and \<^verbatim>\<open>NULL\<close> is followed.\<close>

theorem acquire_all_off_by_one:
  assumes "es \<noteq> []" "length es < 256"
  shows "pkg_acquire_module (Some (pkg_meta app es off)) ModuleTypeALL (int (length es)) [] = None"
proof -
  obtain mi where mi: "mbed_prebuild_module (Some (pkg_tree app es)) 0 [] = Some (Some mi, [])"
    using module_entry[of 0 es app off] assms by auto
  have "unat (of_nat (length es) :: byte) = length es" using assms(2) by (simp add: unat_of_nat)
  then have "mbed_get_module_info (Some (pkg_tree app es)) off mi (of_nat (length es)) = None"
    by (simp add: mbed_get_module_info_def)
  then show ?thesis using mi by (simp add: pkg_acquire_module_def pkg_meta_def)
qed

end
