(* ===== verification/JsonText.thy ===== *)
theory JsonText
  imports Json CText
begin

unbundle bit_operations_syntax

text \<open>
  Printing and parsing of \<^verbatim>\<open>external/baidu_json/baidu_json.c\<close>: \<^verbatim>\<open>baidu_json_PrintUnformatted\<close>, the printer all callers
  use (no buffer, no formatting), and \<^verbatim>\<open>baidu_json_Parse\<close>. A text is the characters before its terminating zero.

  A node holds an integer (\<open>Json\<close>): the branch of \<^verbatim>\<open>print_number\<close> for a number with a fraction is left out, and what the
  floating point arithmetic of \<^verbatim>\<open>parse_number\<close> makes of a numeral that has a fraction, an exponent or a value that does
  not fit an \<^verbatim>\<open>int\<close> is the argument \<open>fp\<close>. The pointer to the place of an error is left out, as is the limit of the
  stack for nested values.
\<close>

section \<open>Printing\<close>

definition print_number :: "int \<Rightarrow> mem \<Rightarrow> string option \<times> mem" where
  "print_number v m = (let (ok, m1) = malloc_ok m in (if ok then Some (if v = 0 then ''0'' else sprintf_d v) else None, m1))"

definition escape :: "char \<Rightarrow> string" where
  "escape c =
     (let n = of_char c :: nat
      in if 31 < n \<and> c \<noteq> CHR 0x22 \<and> c \<noteq> CHR 0x5C then [c]
         else CHR 0x5C #
           (if c = CHR 0x5C then [CHR 0x5C] else if c = CHR 0x22 then [CHR 0x22] else if n = 8 then ''b'' else if n = 12 then ''f''
            else if n = 10 then ''n'' else if n = 13 then ''r'' else if n = 9 then ''t''
            else [CHR ''u'', CHR ''0'', CHR ''0'', hex_char (n div 16), hex_char (n mod 16)]))"

definition print_string_ptr :: "string option \<Rightarrow> mem \<Rightarrow> string option \<times> mem" where
  "print_string_ptr s m =
     (let (ok, m1) = malloc_ok m
      in (if ok then Some (CHR 0x22 # concat (map escape (case s of None \<Rightarrow> [] | Some s \<Rightarrow> s)) @ [CHR 0x22]) else None, m1))"

text \<open>The bytes that are allocated for a text: its length is counted by a test of its own.\<close>

definition escaped_length :: "char \<Rightarrow> nat" where
  "escaped_length c =
     (let n = of_char c :: nat
      in if c = CHR 0x22 \<or> c = CHR 0x5C \<or> n = 8 \<or> n = 12 \<or> n = 10 \<or> n = 13 \<or> n = 9 then 2 else if n < 32 then 6 else 1)"

fun join_comma :: "string list \<Rightarrow> string" where
  "join_comma [] = []"
| "join_comma [t] = t"
| "join_comma (t # u # ts) = t @ CHR '','' # join_comma (u # ts)"

text \<open>
  The printed children and their names are collected in arrays first; the first that cannot be printed ends the
  printing. \<open>Some\<close> holds the texts.
\<close>

fun print_value :: "json \<Rightarrow> mem \<Rightarrow> string option \<times> mem"
  and print_elements :: "(string option \<times> json) list \<Rightarrow> mem \<Rightarrow> string list option \<times> mem"
  and print_members :: "(string option \<times> json) list \<Rightarrow> mem \<Rightarrow> (string \<times> string) list option \<times> mem" where
  "print_value (Json JNULL s v cs) m = json_strdup ''null'' m"
| "print_value (Json JFalse s v cs) m = json_strdup ''false'' m"
| "print_value (Json JTrue s v cs) m = json_strdup ''true'' m"
| "print_value (Json JNumber s v cs) m = print_number v m"
| "print_value (Json JString s v cs) m = print_string_ptr s m"
| "print_value (Json JArray s v cs) m =
     (let (ok, m1) = malloc_ok m
      in if \<not> ok then (None, m1)
         else if cs = [] then (Some ''[]'', m1)
         else
           (case print_elements cs m1 of
              (None, m2) \<Rightarrow> (None, m2)
            | (Some ts, m2) \<Rightarrow>
                (let (ok, m3) = malloc_ok m2
                 in (if ok then Some (CHR ''['' # join_comma ts @ '']'') else None, m3))))"
| "print_value (Json JObject s v cs) m =
     (let (ok, m1) = malloc_ok m
      in if \<not> ok then (None, m1)
         else if cs = [] then (Some ''{}'', m1)
         else
           (let (ok, m2) = malloc_ok m1
            in if \<not> ok then (None, m2)
               else
                 (case print_members cs m2 of
                    (None, m3) \<Rightarrow> (None, m3)
                  | (Some ts, m3) \<Rightarrow>
                      (let (ok, m4) = malloc_ok m3
                       in (if ok then Some (CHR ''{'' # join_comma (map (\<lambda>(k, t). k @ CHR '':'' # t) ts) @ ''}'')
                           else None, m4)))))"
| "print_elements [] m = (Some [], m)"
| "print_elements ((k, c) # cs) m =
     (case print_value c m of
        (None, m1) \<Rightarrow> (None, m1)
      | (Some t, m1) \<Rightarrow> (case print_elements cs m1 of (ts, m2) \<Rightarrow> (map_option ((#) t) ts, m2)))"
| "print_members [] m = (Some [], m)"
| "print_members ((k, c) # cs) m =
     (case print_string_ptr k m of
        (name, m1) \<Rightarrow>
          (case print_value c m1 of
             (entry, m2) \<Rightarrow>
               (case (name, entry) of
                  (Some n, Some t) \<Rightarrow> (case print_members cs m2 of (ts, m3) \<Rightarrow> (map_option ((#) (n, t)) ts, m3))
                | _ \<Rightarrow> (None, m2))))"

definition baidu_json_PrintUnformatted :: "json option \<Rightarrow> mem \<Rightarrow> string option \<times> mem" where
  "baidu_json_PrintUnformatted item m = (case item of None \<Rightarrow> (None, m) | Some j \<Rightarrow> print_value j m)"

section \<open>Parsing\<close>

definition skip :: "string \<Rightarrow> string" where
  "skip s = dropWhile (\<lambda>c. (of_char c :: nat) \<le> 32) s"

text \<open>A numeral: sign, one zero, digits that do not begin with zero, a fraction and an exponent; the text behind it.\<close>

definition int_part :: "string \<Rightarrow> string \<times> string" where
  "int_part s =
     (let s1 = (case s of c # t \<Rightarrow> if c = CHR ''0'' then t else s | [] \<Rightarrow> s)
      in case s1 of
           c # t \<Rightarrow> if is_digit c \<and> c \<noteq> CHR ''0'' then (takeWhile is_digit s1, dropWhile is_digit s1) else ([], s1)
         | [] \<Rightarrow> ([], s1))"

definition skip_fraction :: "string \<Rightarrow> string" where
  "skip_fraction s =
     (case s of
        c # d # t \<Rightarrow> if c = CHR ''.'' \<and> is_digit d then dropWhile is_digit (d # t) else s
      | _ \<Rightarrow> s)"

definition skip_exponent :: "string \<Rightarrow> string" where
  "skip_exponent s =
     (case s of
        c # t \<Rightarrow>
          if c = CHR ''e'' \<or> c = CHR ''E''
          then dropWhile is_digit (case t of d # u \<Rightarrow> if d = CHR ''+'' \<or> d = CHR ''-'' then u else t | [] \<Rightarrow> t)
          else s
      | [] \<Rightarrow> s)"

definition parse_number :: "(string \<Rightarrow> int) \<Rightarrow> string \<Rightarrow> int \<times> string" where
  "parse_number fp s =
     (let (neg, s1) = (case s of c # t \<Rightarrow> if c = CHR ''-'' then (True, t) else (False, s) | [] \<Rightarrow> (False, s));
          (ds, s2) = int_part s1;
          s3 = skip_exponent (skip_fraction s2);
          n = (if neg then - int (digits_val ds) else int (digits_val ds))
      in (if s3 = s2 \<and> - 2147483648 \<le> n \<and> n < 2147483648 then n else fp (take (length s - length s3) s), s3))"

text \<open>Four hexadecimal digits, or 0.\<close>

definition hex4_digit :: "char \<Rightarrow> u32 option" where
  "hex4_digit c =
     (let n = of_char c :: nat
      in if 48 \<le> n \<and> n \<le> 57 then Some (of_nat (n - 48))
         else if 65 \<le> n \<and> n \<le> 70 then Some (10 + of_nat (n - 65))
         else if 97 \<le> n \<and> n \<le> 102 then Some (10 + of_nat (n - 97))
         else None)"

fun hex4_loop :: "nat \<Rightarrow> u32 \<Rightarrow> string \<Rightarrow> u32" where
  "hex4_loop 0 h s = h"
| "hex4_loop (Suc k) h [] = 0"
| "hex4_loop (Suc k) h (c # s) = (case hex4_digit c of None \<Rightarrow> 0 | Some v \<Rightarrow> hex4_loop k (push_bit 4 h + v) s)"

definition parse_hex4 :: "string \<Rightarrow> u32" where "parse_hex4 s = hex4_loop 4 0 s"

definition byte_char :: "u32 \<Rightarrow> char" where "byte_char u = char_of (unat u mod 256)"

definition cont_byte :: "u32 \<Rightarrow> char" where "cont_byte uc = byte_char ((uc OR 0x80) AND 0xBF)"

definition utf8 :: "u32 \<Rightarrow> string" where
  "utf8 uc =
     (if uc < 0x80 then [byte_char uc]
      else if uc < 0x800 then [byte_char (drop_bit 6 uc OR 0xC0), cont_byte uc]
      else if uc < 0x10000 then [byte_char (drop_bit 12 uc OR 0xE0), cont_byte (drop_bit 6 uc), cont_byte uc]
      else [byte_char (drop_bit 18 uc OR 0xF0), cont_byte (drop_bit 12 uc), cont_byte (drop_bit 6 uc), cont_byte uc])"

text \<open>The literal up to its closing quote, or to the end of the text when it has none; what follows.\<close>

fun scan_literal :: "string \<Rightarrow> (string \<times> string) option" where
  "scan_literal [] = Some ([], [])"
| "scan_literal (c # cs) =
     (if c = CHR 0x22 then Some ([], c # cs)
      else if c = CHR 0x5C
      then (case cs of [] \<Rightarrow> None | d # ds \<Rightarrow> map_option (\<lambda>(a, b). (c # d # a, b)) (scan_literal ds))
      else map_option (\<lambda>(a, b). (c # a, b)) (scan_literal cs))"

text \<open>What \<open>len\<close> counts: an escape is one.\<close>

fun literal_length :: "string \<Rightarrow> nat" where
  "literal_length [] = 0"
| "literal_length (c # cs) = Suc (if c = CHR 0x5C then (case cs of [] \<Rightarrow> 0 | d # ds \<Rightarrow> literal_length ds) else literal_length cs)"

text \<open>
  The escapes of a literal. \<open>None\<close>: invalid. A literal that ends in a single backslash, the third equation from the end,
  does not occur: the scan above takes an escape as a whole.
\<close>

function unescape :: "string \<Rightarrow> string option" where
  "unescape [] = Some []"
| "unescape (c # cs) =
     (if c \<noteq> CHR 0x5C then map_option ((#) c) (unescape cs)
      else
        (case cs of
           [] \<Rightarrow> None
         | d # ds \<Rightarrow>
             if d = CHR ''b'' then map_option ((#) (CHR 0x08)) (unescape ds)
             else if d = CHR ''f'' then map_option ((#) (CHR 0x0C)) (unescape ds)
             else if d = CHR ''n'' then map_option ((#) (CHR 0x0A)) (unescape ds)
             else if d = CHR ''r'' then map_option ((#) (CHR 0x0D)) (unescape ds)
             else if d = CHR ''t'' then map_option ((#) (CHR 0x09)) (unescape ds)
             else if d = CHR ''u'' then
               (let uc = parse_hex4 ds
                in if length ds < 4 \<or> 0xDC00 \<le> uc \<and> uc \<le> 0xDFFF \<or> uc = 0 then None
                   else if 0xD800 \<le> uc \<and> uc \<le> 0xDBFF then
                     (let es = drop 4 ds; uc2 = parse_hex4 (drop 2 es)
                      in if length es < 5 \<or> take 2 es \<noteq> [CHR 0x5C, CHR ''u''] \<or> uc2 < 0xDC00 \<or> 0xDFFF < uc2 then None
                         else map_option ((@) (utf8 (0x10000 + (push_bit 10 (uc AND 0x3FF) OR (uc2 AND 0x3FF))))) (unescape (drop 6 es)))
                   else map_option ((@) (utf8 uc)) (unescape (drop 4 ds)))
             else map_option ((#) d) (unescape ds)))"
  by pat_completeness auto
termination by (relation "measure length") auto

definition parse_string :: "string \<Rightarrow> mem \<Rightarrow> (string \<times> string) option \<times> mem" where
  "parse_string s m =
     (case s of
        [] \<Rightarrow> (None, m)
      | c # t \<Rightarrow>
          if c \<noteq> CHR 0x22 then (None, m)
          else
            (case scan_literal t of
               None \<Rightarrow> (None, m)
             | Some (body, rest) \<Rightarrow>
                 (let (ok, m1) = malloc_ok m
                  in if \<not> ok then (None, m1)
                     else (map_option (\<lambda>v. (v, case rest of [] \<Rightarrow> [] | q # r \<Rightarrow> r)) (unescape body), m1))))"

text \<open>
  The parser. The first argument bounds the depth of the calls: the outer \<open>None\<close> is that it was used up, and twice the
  length of the text and one is always enough (\<open>json_parser_returns\<close>). The inner \<open>None\<close> is a failure.
\<close>

fun parse_value :: "nat \<Rightarrow> (string \<Rightarrow> int) \<Rightarrow> string \<Rightarrow> mem \<Rightarrow> ((json \<times> string) option \<times> mem) option"
  and parse_elements :: "nat \<Rightarrow> (string \<Rightarrow> int) \<Rightarrow> string \<Rightarrow> mem \<Rightarrow> (((string option \<times> json) list \<times> string) option \<times> mem) option"
  and parse_members :: "nat \<Rightarrow> (string \<Rightarrow> int) \<Rightarrow> string \<Rightarrow> mem \<Rightarrow> (((string option \<times> json) list \<times> string) option \<times> mem) option" where
  "parse_value 0 fp s m = None"
| "parse_value (Suc n) fp s m =
     (if take 4 s = ''null'' then Some (Some (Json JNULL None 0 [], drop 4 s), m)
      else if take 5 s = ''false'' then Some (Some (Json JFalse None 0 [], drop 5 s), m)
      else if take 4 s = ''true'' then Some (Some (Json JTrue None 1 [], drop 4 s), m)
      else
        (case s of
           [] \<Rightarrow> Some (None, m)
         | c # t \<Rightarrow>
             if c = CHR 0x22 then
               (case parse_string s m of (r, m1) \<Rightarrow> Some (map_option (\<lambda>(v, rest). (Json JString (Some v) 0 [], rest)) r, m1))
             else if c = CHR ''-'' \<or> is_digit c then
               (case parse_number fp s of (v, rest) \<Rightarrow> Some (Some (Json JNumber None v [], rest), m))
             else if c = CHR ''['' then
               (if take 1 (skip t) = '']'' then Some (Some (Json JArray None 0 [], drop 1 (skip t)), m)
                else map_option (\<lambda>(r, m1). (map_option (\<lambda>(cs, rest). (Json JArray None 0 cs, rest)) r, m1)) (parse_elements n fp (skip t) m))
             else if c = CHR ''{'' then
               (if take 1 (skip t) = ''}'' then Some (Some (Json JObject None 0 [], drop 1 (skip t)), m)
                else map_option (\<lambda>(r, m1). (map_option (\<lambda>(cs, rest). (Json JObject None 0 cs, rest)) r, m1)) (parse_members n fp (skip t) m))
             else Some (None, m)))"
| "parse_elements 0 fp s m = None"
| "parse_elements (Suc n) fp s m =
     (let (ok, m1) = malloc_ok m
      in if \<not> ok then Some (None, m1)
         else
           (case parse_value n fp (skip s) m1 of
              None \<Rightarrow> None
            | Some (None, m2) \<Rightarrow> Some (None, m2)
            | Some (Some (j, rest), m2) \<Rightarrow>
                (case skip rest of
                   [] \<Rightarrow> Some (None, m2)
                 | c # t \<Rightarrow>
                     if c = CHR '','' then
                       map_option (\<lambda>(r, m3). (map_option (\<lambda>(cs, u). ((None, j) # cs, u)) r, m3)) (parse_elements n fp t m2)
                     else if c = CHR '']'' then Some (Some ([(None, j)], t), m2)
                     else Some (None, m2))))"
| "parse_members 0 fp s m = None"
| "parse_members (Suc n) fp s m =
     (let (ok, m1) = malloc_ok m
      in if \<not> ok then Some (None, m1)
         else
           (case parse_string (skip s) m1 of
              (None, m2) \<Rightarrow> Some (None, m2)
            | (Some (key, rest1), m2) \<Rightarrow>
                (case skip rest1 of
                   [] \<Rightarrow> Some (None, m2)
                 | c1 # t1 \<Rightarrow>
                     if c1 \<noteq> CHR '':'' then Some (None, m2)
                     else
                       (case parse_value n fp (skip t1) m2 of
                          None \<Rightarrow> None
                        | Some (None, m3) \<Rightarrow> Some (None, m3)
                        | Some (Some (j, rest), m3) \<Rightarrow>
                            (case skip rest of
                               [] \<Rightarrow> Some (None, m3)
                             | c # t \<Rightarrow>
                                 if c = CHR '','' then
                                   map_option (\<lambda>(r, m4). (map_option (\<lambda>(cs, u). ((Some key, j) # cs, u)) r, m4)) (parse_members n fp t m3)
                                 else if c = CHR ''}'' then Some (Some ([(Some key, j)], t), m3)
                                 else Some (None, m3))))))"

text \<open>The root is allocated first; what follows the value is not looked at.\<close>

definition baidu_json_Parse :: "(string \<Rightarrow> int) \<Rightarrow> string \<Rightarrow> mem \<Rightarrow> (json option \<times> mem) option" where
  "baidu_json_Parse fp s m =
     (let (ok, m1) = malloc_ok m
      in if \<not> ok then Some (None, m1)
         else map_option (\<lambda>(r, m2). (map_option fst r, m2)) (parse_value (2 * length s + 1) fp (skip s) m1))"

section \<open>What is printed\<close>

definition quote :: "string \<Rightarrow> string" where "quote s = CHR 0x22 # concat (map escape s) @ [CHR 0x22]"

fun text_of :: "json \<Rightarrow> string" where
  "text_of (Json t s v cs) =
     (case t of
        JNULL \<Rightarrow> ''null'' | JFalse \<Rightarrow> ''false'' | JTrue \<Rightarrow> ''true'' | JNumber \<Rightarrow> if v = 0 then ''0'' else sprintf_d v
      | JString \<Rightarrow> quote (case s of None \<Rightarrow> [] | Some s \<Rightarrow> s)
      | JArray \<Rightarrow> CHR ''['' # join_comma (map (\<lambda>(k, c). text_of c) cs) @ '']''
      | JObject \<Rightarrow> CHR ''{'' # join_comma (map (\<lambda>(k, c). quote (case k of None \<Rightarrow> [] | Some k \<Rightarrow> k) @ CHR '':'' # text_of c) cs) @ ''}'')"

lemma print_string_Nil [simp]: "print_string_ptr s [] = (Some (quote (case s of None \<Rightarrow> [] | Some s \<Rightarrow> s)), [])"
  by (simp add: print_string_ptr_def quote_def)

lemma print_value_Nil:
  "print_value j [] = (Some (text_of j), [])"
  "print_elements cs [] = (Some (map (\<lambda>(k, c). text_of c) cs), [])"
  "print_members cs [] = (Some (map (\<lambda>(k, c). (quote (case k of None \<Rightarrow> [] | Some k \<Rightarrow> k), text_of c)) cs), [])"
proof (induction j "[] :: mem" and cs "[] :: mem" and cs "[] :: mem" rule: print_value_print_elements_print_members.induct)
qed (auto simp: json_strdup_def print_number_def o_def split_def Let_def)

lemma escape_length: "length (escape c) = escaped_length c"
proof (cases "(of_char c :: nat) < 32")
  case True
  then show ?thesis by (simp add: escape_def escaped_length_def Let_def)
qed (simp add: escape_def escaped_length_def Let_def)

section \<open>Reading back a string\<close>

declare unescape.simps(2) [simp del]

lemma unescape_plain [simp]: "c \<noteq> CHR 0x5C \<Longrightarrow> unescape (c # cs) = map_option ((#) c) (unescape cs)"
  by (simp add: unescape.simps)

lemma unescape_pair [simp]:
  "unescape (CHR 0x5C # CHR 0x5C # s) = map_option ((#) (CHR 0x5C)) (unescape s)"
  "unescape (CHR 0x5C # CHR 0x22 # s) = map_option ((#) (CHR 0x22)) (unescape s)"
  "unescape (CHR 0x5C # CHR ''b'' # s) = map_option ((#) (CHR 0x08)) (unescape s)"
  "unescape (CHR 0x5C # CHR ''f'' # s) = map_option ((#) (CHR 0x0C)) (unescape s)"
  "unescape (CHR 0x5C # CHR ''n'' # s) = map_option ((#) (CHR 0x0A)) (unescape s)"
  "unescape (CHR 0x5C # CHR ''r'' # s) = map_option ((#) (CHR 0x0D)) (unescape s)"
  "unescape (CHR 0x5C # CHR ''t'' # s) = map_option ((#) (CHR 0x09)) (unescape s)"
  by (simp_all add: unescape.simps)

lemma unescape_u:
  assumes "4 \<le> length ds" "uc = parse_hex4 ds" "uc \<noteq> 0" "uc < 0xD800"
  shows "unescape (CHR 0x5C # CHR ''u'' # ds) = map_option ((@) (utf8 uc)) (unescape (drop 4 ds))"
proof -
  have "\<not> 0xDC00 \<le> uc" "\<not> 0xD800 \<le> uc" "\<not> length ds < 4"
    using assms(1,4) by (simp_all add: word_le_nat_alt word_less_nat_alt)
  then show ?thesis using assms(2,3) by (simp add: unescape.simps)
qed

lemma escape_plain: "31 < (of_char c :: nat) \<Longrightarrow> c \<noteq> CHR 0x22 \<Longrightarrow> c \<noteq> CHR 0x5C \<Longrightarrow> escape c = [c]"
  by (simp add: escape_def Let_def)

lemma control_hex:
  assumes "0 < n" "n < 32"
  shows "utf8 (parse_hex4 (CHR ''0'' # CHR ''0'' # hex_char (n div 16) # hex_char (n mod 16) # s)) = [char_of n]"
    "parse_hex4 (CHR ''0'' # CHR ''0'' # hex_char (n div 16) # hex_char (n mod 16) # s) = of_nat n"
proof -
  have v: "hex4_digit (hex_char k) = Some (of_nat k)" if "k < 16" for k
    using that by (cases "k < 10") (auto simp: hex4_digit_def hex_char_def of_char_digit Let_def of_nat_diff)
  have d: "n div 16 < 16" using assms(2) by (simp add: div_less_iff_less_mult)
  have four: "(4 :: nat) = Suc (Suc (Suc (Suc 0)))" by simp
  have z: "hex4_digit (CHR ''0'') = Some 0" by (simp add: hex4_digit_def)
  have n: "n = 16 * (n div 16) + n mod 16" by simp
  have "(of_nat (n div 16) :: u32) * 16 + of_nat (n mod 16) = of_nat (n div 16 * 16 + n mod 16)"
    by (simp only: of_nat_add of_nat_mult of_nat_numeral)
  then have s: "push_bit 4 (of_nat (n div 16) :: u32) + of_nat (n mod 16) = of_nat n"
    by (simp add: push_bit_eq_mult)
  show e: "parse_hex4 (CHR ''0'' # CHR ''0'' # hex_char (n div 16) # hex_char (n mod 16) # s) = of_nat n"
    using v[of "n div 16"] v[of "n mod 16"] d s unfolding parse_hex4_def four
    by (simp add: z push_bit_eq_mult)
  have "unat (of_nat n :: u32) = n" using assms(2) by (simp add: unat_of_nat)
  then show "utf8 (parse_hex4 (CHR ''0'' # CHR ''0'' # hex_char (n div 16) # hex_char (n mod 16) # s)) = [char_of n]"
    using assms(2) unfolding e by (simp add: utf8_def byte_char_def word_less_nat_alt)
qed

lemma scan_escape:
  "scan_literal (escape c @ s) = map_option (\<lambda>(a, b). (escape c @ a, b)) (scan_literal s)"
proof (cases "31 < (of_char c :: nat) \<and> c \<noteq> CHR 0x22 \<and> c \<noteq> CHR 0x5C")
  case True
  then show ?thesis by (simp add: escape_plain)
next
  case False
  have h: "hex_char k \<noteq> CHR 0x22 \<and> hex_char k \<noteq> CHR 0x5C" if "k < 16" for k
    using that by (cases "k < 10") (auto simp: hex_char_def digit_def dest!: arg_cong[where f = "of_char :: char \<Rightarrow> nat"])
  have code: "(of_char c :: nat) div 16 < 16"
  proof (rule less_mult_imp_div_less)
    show "(of_char c :: nat) < 16 * 16"
      using of_char_mod_256[of c, where 'a = nat] mod_less_divisor[of 256 "of_char c :: nat"] by linarith
  qed
  have o: "option.map_option (\<lambda>(a, b). (x # a, b)) r = map_option (\<lambda>(a, b). ([x] @ a, b)) r" for x r by simp
  show ?thesis
    using False h[of "of_char c div 16"] h[of "of_char c mod 16"] code
    by (auto simp: escape_def Let_def option.map_comp o_def split_def)
qed

lemma same_code: "(of_char c :: nat) = of_char d \<Longrightarrow> c = d"
  by (simp only: of_char_eq_iff)

lemma unescape_escape:
  assumes "(of_char c :: nat) \<noteq> 0"
  shows "unescape (escape c @ s) = map_option ((#) c) (unescape s)"
proof (cases "31 < (of_char c :: nat) \<and> c \<noteq> CHR 0x22 \<and> c \<noteq> CHR 0x5C")
  case True
  then show ?thesis by (simp add: escape_plain)
next
  case False
  let ?n = "of_char c :: nat"
  have c: "char_of k = c" if "?n = k" for k using that char_of_char[of c] by metis
  show ?thesis
  proof (cases "c = CHR 0x22 \<or> c = CHR 0x5C \<or> ?n \<in> {8, 9, 10, 12, 13}")
    case True
    moreover have "c = CHR 0x08" if "?n = 8" using that by (intro same_code) simp
    moreover have "c = CHR 0x09" if "?n = 9" using that by (intro same_code) simp
    moreover have "c = CHR 0x0A" if "?n = 10" using that by (intro same_code) simp
    moreover have "c = CHR 0x0C" if "?n = 12" using that by (intro same_code) simp
    moreover have "c = CHR 0x0D" if "?n = 13" using that by (intro same_code) simp
    ultimately consider "c = CHR 0x22" | "c = CHR 0x5C" | "c = CHR 0x08" | "c = CHR 0x09" | "c = CHR 0x0A" | "c = CHR 0x0C" | "c = CHR 0x0D"
      by blast
    then show ?thesis by cases (simp_all add: escape_def Let_def)
  next
    case special: False
    then have n: "0 < ?n" "?n < 32" using False assms by auto
    have e: "escape c = [CHR 0x5C, CHR ''u'', CHR ''0'', CHR ''0'', hex_char (?n div 16), hex_char (?n mod 16)]"
      using special n by (auto simp: escape_def Let_def)
    have w: "(of_nat ?n :: u32) \<noteq> 0" "(of_nat ?n :: u32) < 0xD800"
      using n by (simp_all add: word_less_nat_alt unat_of_nat word_unat_eq_iff)
    let ?ds = "CHR ''0'' # CHR ''0'' # hex_char (?n div 16) # hex_char (?n mod 16) # s"
    have "unescape (CHR 0x5C # CHR ''u'' # ?ds) = map_option ((@) (utf8 (of_nat ?n))) (unescape (drop 4 ?ds))"
      using w control_hex(2)[OF n, of s] by (intro unescape_u) simp_all
    moreover have "(@) [c] = (#) c" by (rule ext) simp
    ultimately show ?thesis
      using control_hex[OF n, of s] c[OF refl] by (simp add: e)
  qed
qed

lemma scan_escapes: "scan_literal (concat (map escape s) @ CHR 0x22 # rest) = Some (concat (map escape s), CHR 0x22 # rest)"
  by (induction s) (simp_all add: scan_escape)

lemma unescape_escapes: "no_nul s \<Longrightarrow> unescape (concat (map escape s)) = Some s"
proof (induction s)
  case (Cons c s)
  then have "(of_char c :: nat) \<noteq> 0" by (auto simp: no_nul_def tolower_code_def Let_def split: if_splits)
  then show ?case using Cons by (simp add: unescape_escape no_nul_def)
qed simp

lemma parse_quoted: "no_nul s \<Longrightarrow> parse_string (quote s @ rest) [] = (Some (s, rest), [])"
  by (simp add: parse_string_def quote_def scan_escapes unescape_escapes)

text \<open>The text that is written fits the memory that was allocated for it.\<close>

lemma hex4_literal: "hex4_loop k h s \<noteq> 0 \<Longrightarrow> k \<le> length s \<and> literal_length s = k + literal_length (drop k s)"
proof (induction k h s rule: hex4_loop.induct)
  case (3 k h c s)
  then obtain v where v: "hex4_digit c = Some v" by (auto split: option.splits)
  have "c \<noteq> CHR 0x5C" using v by (auto simp: hex4_digit_def)
  then show ?case using 3 v by auto
qed simp_all

lemma utf8_length: "length (utf8 uc) \<le> 4"
  by (simp add: utf8_def)

lemma unescape_u_cases:
  assumes "unescape (CHR 0x5C # CHR ''u'' # ds) = Some v"
  obtains (one) w where "v = utf8 (parse_hex4 ds) @ w" "unescape (drop 4 ds) = Some w" "parse_hex4 ds \<noteq> 0"
    | (two) x w where "v = utf8 x @ w" "unescape (drop 6 (drop 4 ds)) = Some w" "parse_hex4 ds \<noteq> 0"
        "take 2 (drop 4 ds) = [CHR 0x5C, CHR ''u'']" "parse_hex4 (drop 2 (drop 4 ds)) \<noteq> 0"
proof -
  define uc where "uc = parse_hex4 ds"
  define es where "es = drop 4 ds"
  define uc2 where "uc2 = parse_hex4 (drop 2 es)"
  define bad where "bad \<longleftrightarrow> length ds < 4 \<or> 0xDC00 \<le> uc \<and> uc \<le> 0xDFFF \<or> uc = 0"
  define high where "high \<longleftrightarrow> 0xD800 \<le> uc \<and> uc \<le> 0xDBFF"
  define bad2 where "bad2 \<longleftrightarrow> length es < 5 \<or> take 2 es \<noteq> [CHR 0x5C, CHR ''u''] \<or> uc2 < 0xDC00 \<or> 0xDFFF < uc2"
  define y where "y = 0x10000 + (push_bit 10 (uc AND 0x3FF) OR (uc2 AND 0x3FF))"
  have e: "unescape (CHR 0x5C # CHR ''u'' # ds) =
      (if bad then None
       else if high then (if bad2 then None else map_option ((@) (utf8 y)) (unescape (drop 6 es)))
       else map_option ((@) (utf8 uc)) (unescape (drop 4 ds)))"
    unfolding bad_def high_def bad2_def y_def uc2_def es_def uc_def by (simp add: unescape.simps Let_def)
  have z: "uc = 0 \<Longrightarrow> bad" "take 2 es \<noteq> [CHR 0x5C, CHR ''u''] \<Longrightarrow> bad2" "uc2 = 0 \<Longrightarrow> bad2"
    by (simp_all add: bad_def bad2_def)
  show ?thesis
    using assms z one two[of y] unfolding e uc_def[symmetric] es_def[symmetric] uc2_def[symmetric]
    by (auto simp: es_def split: if_splits)
qed

lemma unescape_letter:
  assumes "unescape (CHR 0x5C # d # ds) = Some v" "d \<noteq> CHR ''u''"
  shows "\<exists>e w. v = e # w \<and> unescape ds = Some w"
proof -
  have "\<exists>e. unescape (CHR 0x5C # d # ds) = map_option ((#) e) (unescape ds)"
    using assms(2) by (simp add: unescape.simps) metis
  then show ?thesis using assms(1) by (cases "unescape ds") auto
qed

theorem unescaped_fits: "unescape s = Some v \<Longrightarrow> length v \<le> literal_length s"
proof (induction "length s" arbitrary: s v rule: less_induct)
  case less
  have IH: "length w \<le> literal_length t" if "length t < length s" "unescape t = Some w" for t w using less.hyps that by blast
  show ?case
  proof (cases s)
    case Nil
    then show ?thesis using less.prems by simp
  next
    case (Cons c cs)
    show ?thesis
    proof (cases "c = CHR 0x5C \<and> cs \<noteq> []")
      case False
      then have "c \<noteq> CHR 0x5C" using less.prems by (auto simp: Cons unescape.simps)
      then show ?thesis using less.prems IH[of cs] by (auto simp: Cons)
    next
      case True
      then obtain d ds where cs: "c = CHR 0x5C" "cs = d # ds" by (cases cs) auto
      have u: "unescape (CHR 0x5C # d # ds) = Some v" using less.prems by (simp only: Cons cs)
      show ?thesis
      proof (cases "d = CHR ''u''")
        case False
        then have "\<exists>e w. v = e # w \<and> unescape ds = Some w" using unescape_letter u by blast
        then show ?thesis using IH[of ds] by (auto simp: Cons cs)
      next
        case True
        from u[unfolded True] show ?thesis
        proof (cases rule: unescape_u_cases)
          case (one w)
          have "literal_length ds = 4 + literal_length (drop 4 ds)" using hex4_literal one(3) by (simp add: parse_hex4_def)
          moreover have "length w \<le> literal_length (drop 4 ds)" using one(2) by (intro IH) (simp_all add: Cons cs)
          ultimately show ?thesis using one(1) utf8_length[of "parse_hex4 ds"] by (simp add: Cons cs)
        next
          case (two x w)
          obtain fs where fs: "drop 4 ds = CHR 0x5C # CHR ''u'' # fs" using two(4) by (cases "drop 4 ds"; cases "tl (drop 4 ds)") auto
          have "literal_length ds = 4 + literal_length (drop 4 ds)" "literal_length fs = 4 + literal_length (drop 4 fs)"
            using hex4_literal two(3,5) by (simp_all add: parse_hex4_def fs)
          moreover have "unescape (drop 4 fs) = Some w" using two(2) unfolding fs by simp
          moreover have "length (drop 4 fs) < length s" using arg_cong[OF fs, of length] by (simp add: Cons cs)
          ultimately have "length w \<le> literal_length (drop 4 fs)" "literal_length ds = 4 + literal_length (drop 4 ds)"
            "literal_length fs = 4 + literal_length (drop 4 fs)" by (auto intro: IH)
          then show ?thesis using two(1) utf8_length[of x] by (simp add: Cons cs fs)
        qed
      qed
    qed
  qed
qed

section \<open>Reading back a number\<close>

lemma bracket_no_digit [simp]: "\<not> is_digit CHR ''{''" "\<not> is_digit CHR ''[''"
  by (simp_all add: is_digit_def)

definition no_numeral :: "string \<Rightarrow> bool" where
  "no_numeral s \<longleftrightarrow> (case s of [] \<Rightarrow> True | c # t \<Rightarrow> c \<in> {CHR '','', CHR '']'', CHR ''}''})"

lemma no_numeral_simps [simp]:
  "no_numeral []" "no_numeral (CHR '','' # s)" "no_numeral (CHR '']'' # s)" "no_numeral (CHR ''}'' # s)"
  by (simp_all add: no_numeral_def)

lemma no_numeral_ends:
  assumes "no_numeral s"
  shows "takeWhile is_digit s = []" "skip_fraction s = s" "skip_exponent s = s"
  using assms by (auto simp: no_numeral_def skip_fraction_def skip_exponent_def is_digit_def split: list.splits)

lemma dec_first: "0 < n \<Longrightarrow> \<exists>c t. dec n = c # t \<and> is_digit c \<and> c \<noteq> CHR ''0''"
proof (induction n rule: dec.induct)
  case (1 n)
  show ?case
  proof (cases "n < 10")
    case True
    then have "digit n \<noteq> CHR ''0''"
      using 1(2) of_char_digit[OF True] by (auto dest: arg_cong[where f = "of_char :: char \<Rightarrow> nat"])
    then show ?thesis using True by (subst dec.simps) simp
  next
    case False
    then have "0 < n div 10" by (simp add: div_greater_zero_iff)
    then obtain c t where "dec (n div 10) = c # t" "is_digit c" "c \<noteq> CHR ''0''" using 1(1)[OF False] by blast
    then show ?thesis using False by (subst dec.simps) simp
  qed
qed

lemma int_part_dec:
  assumes "0 < n" "no_numeral rest"
  shows "int_part (dec n @ rest) = (dec n, rest)"
proof -
  obtain c t where ct: "dec n = c # t" "is_digit c" "c \<noteq> CHR ''0''" using dec_first[OF assms(1)] by blast
  note e = takeWhile_dec_append[OF no_numeral_ends(1)[OF assms(2)], of n] dropWhile_dec_append[OF no_numeral_ends(1)[OF assms(2)], of n]
  show ?thesis using e ct by (simp add: int_part_def)
qed

lemma parse_number_text:
  assumes "- 2147483648 \<le> v" "v < 2147483648" "no_numeral rest"
  shows "parse_number fp ((if v = 0 then ''0'' else sprintf_d v) @ rest) = (v, rest)"
proof (cases "v = 0")
  case True
  have "int_part (CHR ''0'' # rest) = ([], rest)"
    using assms(3) by (auto simp: int_part_def no_numeral_def is_digit_def split: list.splits)
  then show ?thesis using True no_numeral_ends[OF assms(3)] by (simp add: parse_number_def digits_val_def)
next
  case False
  let ?n = "nat \<bar>v\<bar>"
  have i: "int_part (dec ?n @ rest) = (dec ?n, rest)" using False assms(3) by (intro int_part_dec) simp_all
  obtain c t where ct: "dec ?n = c # t" "is_digit c" using dec_first[of ?n] False by auto
  then have m: "c \<noteq> CHR ''-''" using digit_not_special by blast
  show ?thesis
  proof (cases "v < 0")
    case True
    then have "sprintf_d v = CHR ''-'' # dec ?n" by (simp add: sprintf_d_def)
    moreover have "nat (- v) \<le> 2147483648" using assms(1) by simp
    ultimately show ?thesis using False True i no_numeral_ends[OF assms(3)] assms by (simp add: parse_number_def)
  next
    case pos: False
    then have a: "\<bar>v\<bar> = v" by simp
    have "sprintf_d v = dec ?n" using pos by (simp add: sprintf_d_def)
    moreover have "(case dec ?n @ rest of c # t \<Rightarrow> if c = CHR ''-'' then (True, t) else (False, dec ?n @ rest) | [] \<Rightarrow> (False, dec ?n @ rest))
        = (False, dec ?n @ rest)" using ct m by simp
    moreover have "nat v < 2147483648" using assms(2) by simp
    ultimately show ?thesis using False pos i no_numeral_ends[OF assms(3)] assms unfolding a by (simp add: parse_number_def)
  qed
qed

section \<open>Reading back a tree\<close>

text \<open>The trees the SDK builds: a node has what its type says, and text without a zero character.\<close>

fun text_ok :: "json \<Rightarrow> bool" where
  "text_ok (Json t s v cs) =
     (case t of
        JNumber \<Rightarrow> s = None \<and> cs = [] \<and> - 2147483648 \<le> v \<and> v < 2147483648
      | JString \<Rightarrow> v = 0 \<and> cs = [] \<and> (case s of None \<Rightarrow> False | Some x \<Rightarrow> no_nul x)
      | JArray \<Rightarrow> s = None \<and> v = 0 \<and> (\<forall>(k, c) \<in> set cs. k = None \<and> text_ok c)
      | JObject \<Rightarrow> s = None \<and> v = 0 \<and> (\<forall>(k, c) \<in> set cs. (case k of None \<Rightarrow> False | Some x \<Rightarrow> no_nul x) \<and> text_ok c)
      | JTrue \<Rightarrow> s = None \<and> cs = []
      | _ \<Rightarrow> s = None \<and> v = 0 \<and> cs = [])"

text \<open>The parser gives a true value the integer 1, the constructor leaves it 0.\<close>

fun canon :: "json \<Rightarrow> json" where
  "canon (Json t s v cs) = Json t s (if t = JTrue then 1 else v) (map (\<lambda>(k, c). (k, canon c)) cs)"

lemma text_first: "text_ok j \<Longrightarrow> \<exists>c t. text_of j = c # t \<and> 32 < (of_char c :: nat) \<and> c \<noteq> CHR '']'' \<and> c \<noteq> CHR ''}''"
proof (cases j)
  case (Json t s v cs)
  have d: "\<exists>c t. sprintf_d v = c # t \<and> 32 < (of_char c :: nat) \<and> c \<noteq> CHR '']'' \<and> c \<noteq> CHR ''}''"
    using dec_Cons[of "nat v"] by (auto simp: sprintf_d_def is_digit_def)
  show ?thesis using d by (cases t) (simp_all add: Json quote_def)
qed

lemma skip_text [simp]: "text_ok j \<Longrightarrow> skip (text_of j @ rest) = text_of j @ rest"
  using text_first[of j] by (auto simp: skip_def)

lemma skip_plain [simp]: "32 < (of_char c :: nat) \<Longrightarrow> skip (c # s) = c # s"
  by (simp add: skip_def)

lemma skip_quote [simp]: "skip (quote s @ rest) = quote s @ rest"
  by (simp add: quote_def skip_def)

lemma join_Cons: "cs \<noteq> [] \<Longrightarrow> join_comma (t # cs) = t @ CHR '','' # join_comma cs"
  by (cases cs) simp_all

definition reads :: "(string \<Rightarrow> int) \<Rightarrow> json \<Rightarrow> bool" where
  "reads fp j \<longleftrightarrow> (\<forall>n rest. length (text_of j) \<le> n \<longrightarrow> no_numeral rest \<longrightarrow>
     parse_value n fp (text_of j @ rest) [] = Some (Some (canon j, rest), []))"

lemma parse_elements_text:
  assumes "cs \<noteq> []" "\<forall>(k, c) \<in> set cs. k = None \<and> text_ok c \<and> reads fp c"
    and "length (join_comma (map (\<lambda>(k, c). text_of c) cs)) < n"
  shows "parse_elements n fp (join_comma (map (\<lambda>(k, c). text_of c) cs) @ CHR '']'' # rest) [] =
    Some (Some (map (\<lambda>(k, c). (k, canon c)) cs, rest), [])"
  using assms
proof (induction cs arbitrary: n)
  case (Cons p cs)
  obtain k c where p: "p = (k, c)" by fastforce
  then have c: "k = None" "text_ok c" "reads fp c" using Cons.prems(2) by auto
  obtain m where n: "n = Suc m" using Cons.prems(3) by (cases n) simp_all
  show ?case
  proof (cases "cs = []")
    case True
    have "parse_value m fp (text_of c @ CHR '']'' # rest) [] = Some (Some (canon c, CHR '']'' # rest), [])"
      using c(3) Cons.prems(3) True by (simp add: reads_def p n)
    then show ?thesis using True c by (simp add: p n)
  next
    case False
    let ?ts = "join_comma (map (\<lambda>(k, c). text_of c) cs)"
    have j: "join_comma (map (\<lambda>(k, c). text_of c) (p # cs)) = text_of c @ CHR '','' # ?ts"
      using False by (simp add: p join_Cons)
    have "parse_value m fp (text_of c @ CHR '','' # ?ts @ CHR '']'' # rest) [] = Some (Some (canon c, CHR '','' # ?ts @ CHR '']'' # rest), [])"
      using c(3) Cons.prems(3)[unfolded j] by (simp add: reads_def n)
    moreover have "parse_elements m fp (?ts @ CHR '']'' # rest) [] = Some (Some (map (\<lambda>(k, c). (k, canon c)) cs, rest), [])"
      using Cons.IH[OF False, of m] Cons.prems(2) Cons.prems(3)[unfolded j] by (simp add: n)
    ultimately show ?thesis using c unfolding n j by (simp add: p)
  qed
qed simp

lemma parse_members_text:
  fixes cs :: "(string option \<times> json) list"
  defines "mt \<equiv> \<lambda>(k, c). quote (case k of None \<Rightarrow> [] | Some k \<Rightarrow> k) @ CHR '':'' # text_of c"
  assumes "cs \<noteq> []" "\<forall>(k, c) \<in> set cs. (case k of None \<Rightarrow> False | Some x \<Rightarrow> no_nul x) \<and> text_ok c \<and> reads fp c"
    and "length (join_comma (map mt cs)) < n"
  shows "parse_members n fp (join_comma (map mt cs) @ CHR ''}'' # rest) [] =
    Some (Some (map (\<lambda>(k, c). (k, canon c)) cs, rest), [])"
  using assms(2-)
proof (induction cs arbitrary: n)
  case (Cons p cs)
  obtain k c where p: "p = (Some k, c)" using Cons.prems(2) by (cases p) (auto split: option.splits)
  then have c: "no_nul k" "text_ok c" "reads fp c" using Cons.prems(2) by auto
  obtain m where n: "n = Suc m" using Cons.prems(3) by (cases n) simp_all
  have mp: "mt p = quote k @ CHR '':'' # text_of c" by (simp add: mt_def p)
  note q = parse_quoted[OF c(1)]
  show ?case
  proof (cases "cs = []")
    case True
    have "parse_value m fp (text_of c @ CHR ''}'' # rest) [] = Some (Some (canon c, CHR ''}'' # rest), [])"
      using c(3) Cons.prems(3) True by (simp add: reads_def mp n)
    then show ?thesis using True c q by (simp add: p[symmetric] mp n) (simp add: p)
  next
    case False
    let ?ts = "join_comma (map mt cs)"
    have j: "join_comma (map mt (p # cs)) = quote k @ CHR '':'' # text_of c @ CHR '','' # ?ts"
      using False by (simp add: mp join_Cons)
    have "parse_value m fp (text_of c @ CHR '','' # ?ts @ CHR ''}'' # rest) [] = Some (Some (canon c, CHR '','' # ?ts @ CHR ''}'' # rest), [])"
      using c(3) Cons.prems(3)[unfolded j] by (simp add: reads_def n)
    moreover have "parse_members m fp (?ts @ CHR ''}'' # rest) [] = Some (Some (map (\<lambda>(k, c). (k, canon c)) cs, rest), [])"
      using Cons.IH[OF False, of m] Cons.prems(2) Cons.prems(3)[unfolded j] by (simp add: n)
    ultimately show ?thesis using c q unfolding n j by (simp add: p)
  qed
qed simp

lemma take_first_text: "text_ok j \<Longrightarrow> take 1 (text_of j @ s) \<noteq> '']'' \<and> take 1 (text_of j @ s) \<noteq> ''}''"
  using text_first[of j] by auto

lemma readsI:
  assumes "text_ok j" "\<And>n rest. length (text_of j) \<le> Suc n \<Longrightarrow> no_numeral rest \<Longrightarrow>
      parse_value (Suc n) fp (text_of j @ rest) [] = Some (Some (canon j, rest), [])"
  shows "reads fp j"
  unfolding reads_def
proof (intro allI impI)
  fix n rest
  assume len: "length (text_of j) \<le> n" and rest: "no_numeral rest"
  have "text_of j \<noteq> []" using text_first[OF assms(1)] by (metis list.discI)
  then obtain m where n: "n = Suc m" using len by (cases n) simp_all
  show "parse_value n fp (text_of j @ rest) [] = Some (Some (canon j, rest), [])"
    using assms(2)[of m rest] len rest unfolding n by blast
qed

lemma reads_number:
  assumes "text_ok (Json JNumber s v cs)"
  shows "reads fp (Json JNumber s v cs)"
proof (rule readsI[OF assms])
  fix n rest
  assume rest: "no_numeral rest"
  let ?x = "(if v = 0 then ''0'' else sprintf_d v) @ rest"
  have r: "parse_number fp ?x = (v, rest)" using assms rest by (intro parse_number_text) simp_all
  have "\<exists>c u. (if v = 0 then ''0'' else sprintf_d v) = c # u \<and> (c = CHR ''-'' \<or> is_digit c)"
    using dec_Cons[of "nat v"] by (cases "v < 0") (auto simp: sprintf_d_def is_digit_def)
  then obtain c u where cu: "?x = c # u" "c = CHR ''-'' \<or> is_digit c" by auto
  have ne: "c \<noteq> CHR ''n''" "c \<noteq> CHR ''f''" "c \<noteq> CHR ''t''" "c \<noteq> CHR 0x22" using cu(2) by (auto simp: is_digit_def)
  have "parse_value (Suc n) fp (c # u) [] = (case parse_number fp (c # u) of (v, rest) \<Rightarrow> Some (Some (Json JNumber None v [], rest), []))"
    using cu(2) ne by simp
  then show "parse_value (Suc n) fp (text_of (Json JNumber s v cs) @ rest) [] = Some (Some (canon (Json JNumber s v cs), rest), [])"
    using r assms cu(1) by simp
qed

lemma reads_string:
  assumes "text_ok (Json JString s v cs)"
  shows "reads fp (Json JString s v cs)"
proof (rule readsI[OF assms])
  fix n rest
  obtain x where x: "s = Some x" "no_nul x" "v = 0" "cs = []" using assms by (auto split: option.splits)
  have "parse_value (Suc n) fp (quote x @ rest) [] = Some (map_option (\<lambda>(v, rest). (Json JString (Some v) 0 [], rest)) (Some (x, rest)), [])"
    using parse_quoted[OF x(2), of rest] by (simp add: quote_def)
  then show "parse_value (Suc n) fp (text_of (Json JString s v cs) @ rest) [] = Some (Some (canon (Json JString s v cs), rest), [])"
    using x by simp
qed

lemma reads_array:
  assumes "text_ok (Json JArray s v cs)" "\<forall>(k, c) \<in> set cs. k = None \<and> text_ok c \<and> reads fp c"
  shows "reads fp (Json JArray s v cs)"
proof (rule readsI[OF assms(1)])
  fix n rest
  assume len: "length (text_of (Json JArray s v cs)) \<le> Suc n"
  show "parse_value (Suc n) fp (text_of (Json JArray s v cs) @ rest) [] = Some (Some (canon (Json JArray s v cs), rest), [])"
  proof (cases "cs = []")
    case False
    let ?ts = "join_comma (map (\<lambda>(k, c). text_of c) cs)"
    obtain k c cs' where cs: "cs = (k, c) # cs'" using False by (cases cs) auto
    have c: "text_ok c" using assms(2) by (simp add: cs)
    obtain w where w: "?ts = text_of c @ w" by (cases cs') (auto simp: cs)
    have "skip (?ts @ CHR '']'' # rest) = ?ts @ CHR '']'' # rest" "take 1 (?ts @ CHR '']'' # rest) \<noteq> '']''"
      using skip_text[OF c, of "w @ CHR '']'' # rest"] take_first_text[OF c, of "w @ CHR '']'' # rest"] by (simp_all only: w append_assoc not_False_eq_True)
    moreover have "parse_elements n fp (?ts @ CHR '']'' # rest) [] = Some (Some (map (\<lambda>(k, c). (k, canon c)) cs, rest), [])"
      using len by (intro parse_elements_text[OF False assms(2)]) simp
    ultimately show ?thesis using assms(1) by simp
  qed (use assms(1) in simp)
qed

lemma reads_object:
  assumes "text_ok (Json JObject s v cs)"
    and "\<forall>(k, c) \<in> set cs. (case k of None \<Rightarrow> False | Some x \<Rightarrow> no_nul x) \<and> text_ok c \<and> reads fp c"
  shows "reads fp (Json JObject s v cs)"
proof (rule readsI[OF assms(1)])
  fix n rest
  assume len: "length (text_of (Json JObject s v cs)) \<le> Suc n"
  show "parse_value (Suc n) fp (text_of (Json JObject s v cs) @ rest) [] = Some (Some (canon (Json JObject s v cs), rest), [])"
  proof (cases "cs = []")
    case False
    let ?ts = "join_comma (map (\<lambda>(k, c). quote (case k of None \<Rightarrow> [] | Some k \<Rightarrow> k) @ CHR '':'' # text_of c) cs)"
    obtain k c cs' where cs: "cs = (k, c) # cs'" using False by (cases cs) auto
    obtain w where w: "?ts = quote (case k of None \<Rightarrow> [] | Some k \<Rightarrow> k) @ w" by (cases cs') (auto simp: cs)
    have "skip (?ts @ CHR ''}'' # rest) = ?ts @ CHR ''}'' # rest" "take 1 (?ts @ CHR ''}'' # rest) \<noteq> ''}''"
      unfolding w by simp_all (simp add: quote_def)
    moreover have "parse_members n fp (?ts @ CHR ''}'' # rest) [] = Some (Some (map (\<lambda>(k, c). (k, canon c)) cs, rest), [])"
      using len by (intro parse_members_text[OF False assms(2)]) simp
    ultimately show ?thesis using assms(1) by simp
  qed (use assms(1) in simp)
qed

lemma reads_text: "text_ok j \<Longrightarrow> reads fp j"
proof (induction j)
  case (Json t s v cs)
  have IH: "reads fp c" if "(k, c) \<in> set cs" "text_ok c" for k c
    using Json.IH[of "(k, c)" c] that by (simp add: snds.simps)
  show ?case
  proof (cases t)
    case JNumber
    then show ?thesis using reads_number Json.prems by blast
  next
    case JString
    then show ?thesis using reads_string Json.prems by blast
  next
    case JArray
    have "\<forall>(k, c) \<in> set cs. k = None \<and> text_ok c \<and> reads fp c" using Json.prems JArray IH by auto
    then show ?thesis using reads_array Json.prems JArray by blast
  next
    case JObject
    have "\<forall>(k, c) \<in> set cs. (case k of None \<Rightarrow> False | Some x \<Rightarrow> no_nul x) \<and> text_ok c \<and> reads fp c" using Json.prems JObject IH by auto
    then show ?thesis using reads_object Json.prems JObject by blast
  qed (rule readsI[OF Json.prems], use Json.prems in simp)+
qed

section \<open>Properties\<close>

text \<open>C19: While memory lasts, what the printer writes the parser reads: a tree of null, true, false, integers of 32
  bits, strings, arrays and named members comes back from its text, whatever characters but zero its strings and names
  have and however deep it is nested; a true value has the integer 1 then.\<close>

theorem json_text_roundtrip:
  assumes "text_ok j"
  shows "\<exists>s. baidu_json_PrintUnformatted (Some j) [] = (Some s, []) \<and> baidu_json_Parse fp s [] = Some (Some (canon j), [])"
proof -
  have "skip (text_of j) = text_of j" using skip_text[OF assms, of "[]"] by simp
  moreover have "parse_value (2 * length (text_of j) + 1) fp (text_of j @ []) [] = Some (Some (canon j, []), [])"
    by (intro reads_text[OF assms, unfolded reads_def, rule_format]) simp_all
  ultimately show ?thesis by (simp add: baidu_json_PrintUnformatted_def baidu_json_Parse_def print_value_Nil del: parse_value.simps)
qed

definition sample_tree :: json where
  "sample_tree = Json JObject None 0 [(Some ''a'', Json JArray None 0 [(None, Json JNumber None (- 12) []), (None, Json JTrue None 0 [])]),
     (Some [CHR 0x22, CHR 0x0A], Json JString (Some [CHR 0x5C, CHR 0x01]) 0 [])]"

theorem json_text_roundtrip_witness:
  "\<exists>s. baidu_json_PrintUnformatted (Some sample_tree) [] = (Some s, []) \<and>
     baidu_json_Parse (\<lambda>s. 0) s [] = Some (Some (canon sample_tree), [])"
  by (rule json_text_roundtrip) (simp add: sample_tree_def no_nul_def tolower_code_def)

text \<open>A run that returns, and has taken at least one character when it succeeds.\<close>

definition returns :: "string \<Rightarrow> (('a \<times> string) option \<times> mem) option \<Rightarrow> bool" where
  "returns s r \<longleftrightarrow> (case r of None \<Rightarrow> False | Some (None, m) \<Rightarrow> True | Some (Some (x, rest), m) \<Rightarrow> length rest < length s)"

lemma returns_simps [simp]:
  "\<not> returns s None" "returns s (Some (None, m))" "returns s (Some (Some (x, rest), m)) \<longleftrightarrow> length rest < length s"
  by (simp_all add: returns_def)

lemma returnsE:
  assumes "returns s r"
  obtains (fail) m where "r = Some (None, m)" | (ok) x rest m where "r = Some (Some (x, rest), m)" "length rest < length s"
  using assms by (auto simp: returns_def split: option.splits)

lemma returns_map:
  "returns t r \<Longrightarrow> length t \<le> length s \<Longrightarrow> returns s (map_option (\<lambda>(r, m). (map_option (\<lambda>(x, u). (f x, u)) r, m)) r)"
  by (auto elim!: returnsE)

lemma skip_length: "length (skip s) \<le> length s"
  by (simp add: skip_def length_dropWhile_le)

lemma scan_literal_length: "scan_literal s = Some (a, b) \<Longrightarrow> length b \<le> length s"
  by (induction s arbitrary: a b rule: scan_literal.induct) (auto split: if_splits list.splits, fastforce+)

lemma parse_string_length:
  assumes "parse_string s m = (Some (v, rest), m1)"
  shows "length rest < length s"
proof -
  obtain t body r where t: "s = CHR 0x22 # t" "scan_literal t = Some (body, r)" "rest = (case r of [] \<Rightarrow> [] | q # r \<Rightarrow> r)"
    using assms by (auto simp: parse_string_def split: list.splits if_splits option.splits prod.splits)
  show ?thesis using scan_literal_length[OF t(2)] t(1,3) by (cases r) simp_all
qed

lemma int_part_length:
  "length (snd (int_part u)) \<le> length u" "is_digit c \<Longrightarrow> length (snd (int_part (c # t))) < length (c # t)"
  by (auto simp: int_part_def length_dropWhile_le le_SucI Let_def less_Suc_eq_le split: list.split)

lemma skip_parts_length: "length (skip_exponent (skip_fraction u)) \<le> length u"
proof -
  have f: "length (skip_fraction u) \<le> length u"
    by (auto simp: skip_fraction_def length_dropWhile_le le_SucI split: list.split)
  have "length (skip_exponent v) \<le> length v" for v
    by (auto simp: skip_exponent_def length_dropWhile_le le_SucI split: list.split)
  from order_trans[OF this f] show ?thesis .
qed

lemma parse_number_length:
  assumes "c = CHR ''-'' \<or> is_digit c"
  shows "length (snd (parse_number fp (c # t))) < length (c # t)"
proof (cases "c = CHR ''-''")
  case True
  have "snd (parse_number fp (c # t)) = skip_exponent (skip_fraction (snd (int_part t)))"
    using True by (simp add: parse_number_def Let_def split_def)
  then show ?thesis using order_trans[OF skip_parts_length int_part_length(1), of t] by simp
next
  case False
  have "snd (parse_number fp (c # t)) = skip_exponent (skip_fraction (snd (int_part (c # t))))"
    using False by (simp add: parse_number_def Let_def split_def)
  then show ?thesis using le_less_trans[OF skip_parts_length int_part_length(2), of c t] False assms by simp
qed

lemma value_returns:
  assumes E: "\<And>s m. 2 * length s + 1 < n \<Longrightarrow> returns s (parse_elements n fp s m)"
    and M: "\<And>s m. 2 * length s + 1 < n \<Longrightarrow> returns s (parse_members n fp s m)"
    and len: "2 * length s < Suc n"
  shows "returns s (parse_value (Suc n) fp s m)"
proof -
  have k: "length s - i < length s" if "take i s = w" "w \<noteq> []" for i w
    using that by (cases s; cases i) auto
  show ?thesis
  proof (cases "take 4 s = ''null'' \<or> take 5 s = ''false'' \<or> take 4 s = ''true''")
    case True
    then show ?thesis using k[of 4 "''null''"] k[of 5 "''false''"] k[of 4 "''true''"] by auto
  next
    case no: False
    show ?thesis
    proof (cases s)
      case Nil
      then show ?thesis using no by simp
    next
      case (Cons c t)
      have t: "length (skip t) \<le> length s" "length (drop 1 (skip t)) < length s" "2 * length (skip t) + 1 < n"
        using skip_length[of t] len by (simp_all add: Cons)
      consider "c = CHR 0x22" | "c = CHR ''-'' \<or> is_digit c" "c \<noteq> CHR 0x22" | "c = CHR ''[''" | "c = CHR ''{''"
        | "c \<noteq> CHR 0x22" "\<not> (c = CHR ''-'' \<or> is_digit c)" "c \<noteq> CHR ''[''" "c \<noteq> CHR ''{''" by blast
      then show ?thesis
      proof cases
        case 1
        obtain r m1 where r: "parse_string s m = (r, m1)" by fastforce
        have "parse_value (Suc n) fp s m = Some (map_option (\<lambda>(v, rest). (Json JString (Some v) 0 [], rest)) r, m1)"
          using no r 1 unfolding Cons by simp
        then show ?thesis using parse_string_length r by (cases r) auto
      next
        case 2
        have "parse_value (Suc n) fp s m = Some (Some (Json JNumber None (fst (parse_number fp s)) [], snd (parse_number fp s)), m)"
          using no 2 unfolding Cons by (simp add: split_def)
        then show ?thesis using parse_number_length[OF 2(1), of fp t] by (simp add: Cons)
      next
        case 3
        have "parse_value (Suc n) fp s m =
            (if take 1 (skip t) = '']'' then Some (Some (Json JArray None 0 [], drop 1 (skip t)), m)
             else map_option (\<lambda>(r, m1). (map_option (\<lambda>(cs, rest). (Json JArray None 0 cs, rest)) r, m1)) (parse_elements n fp (skip t) m))"
          using no 3 unfolding Cons by simp
        then show ?thesis using returns_map[OF E[OF t(3)] t(1), of "Json JArray None 0" m] t(2) by (simp del: parse_value.simps)
      next
        case 4
        have "parse_value (Suc n) fp s m =
            (if take 1 (skip t) = ''}'' then Some (Some (Json JObject None 0 [], drop 1 (skip t)), m)
             else map_option (\<lambda>(r, m1). (map_option (\<lambda>(cs, rest). (Json JObject None 0 cs, rest)) r, m1)) (parse_members n fp (skip t) m))"
          using no 4 unfolding Cons by simp
        then show ?thesis using returns_map[OF M[OF t(3)] t(1), of "Json JObject None 0" m] t(2) by (simp del: parse_value.simps)
      next
        case 5
        then have "parse_value (Suc n) fp s m = Some (None, m)" using no unfolding Cons by simp
        then show ?thesis by simp
      qed
    qed
  qed
qed

text \<open>What follows a value: a comma and the rest of the list, or its end.\<close>

lemma rest_returns:
  assumes "length rest \<le> k" "k \<le> length s" "\<And>t. length t < k \<Longrightarrow> returns t (f t)" "close \<noteq> CHR '',''" "0 < k"
  shows "returns s (case skip rest of [] \<Rightarrow> Some (None, m)
      | c # t \<Rightarrow> if c = CHR '','' then map_option (\<lambda>(r, m). (map_option (\<lambda>(x, u). (g x, u)) r, m)) (f t)
                 else if c = close then Some (Some (y, t), m) else Some (None, m))"
proof (cases "skip rest")
  case (Cons c t)
  have t: "length t < k" using skip_length[of rest] assms(1) by (simp add: Cons)
  then show ?thesis using returns_map[OF assms(3)[OF t], of s g] assms(2) by (auto simp: Cons)
qed simp

lemma parser_returns:
  "(2 * length s < n \<longrightarrow> returns s (parse_value n fp s m)) \<and> (2 * length s + 1 < n \<longrightarrow> returns s (parse_elements n fp s m)) \<and>
   (2 * length s + 1 < n \<longrightarrow> returns s (parse_members n fp s m))"
proof (induction n arbitrary: s m)
  case (Suc n)
  have V: "returns s (parse_value n fp s m)" if "2 * length s < n" for s m using Suc that by blast
  have E: "returns s (parse_elements n fp s m)" if "2 * length s + 1 < n" for s m using Suc that by blast
  have M: "returns s (parse_members n fp s m)" if "2 * length s + 1 < n" for s m using Suc that by blast
  have 1: "returns s (parse_value (Suc n) fp s m)" if "2 * length s < Suc n"
    by (rule value_returns[OF E M that])
  have 2: "returns s (parse_elements (Suc n) fp s m)" if len: "2 * length s + 1 < Suc n"
  proof -
    obtain b m1 where b: "malloc_ok m = (b, m1)" by fastforce
    have "2 * length (skip s) < n" using skip_length[of s] len by simp
    from V[OF this, of m1] show ?thesis
    proof (cases rule: returnsE)
      case (ok j rest m2)
      have l: "length rest \<le> length s" "0 < length s" using ok(2) skip_length[of s] by auto
      have f: "returns t (parse_elements n fp t m2)" if "length t < length s" for t using that E len by simp
      show ?thesis
        using ok(1) b rest_returns[OF l(1) order_refl f _ l(2), of "CHR '']''" m2 "\<lambda>cs. (None, j) # cs" "[(None, j)]"] by simp
    qed (simp add: b)
  qed
  have 3: "returns s (parse_members (Suc n) fp s m)" if len: "2 * length s + 1 < Suc n"
  proof -
    obtain b m1 where b: "malloc_ok m = (b, m1)" by fastforce
    obtain q m2 where q: "parse_string (skip s) m1 = (q, m2)" by fastforce
    show ?thesis
    proof (cases "\<exists>key rest1 t1. q = Some (key, rest1) \<and> skip rest1 = CHR '':'' # t1")
      case False
      then show ?thesis using b q by (auto split: option.split list.split)
    next
      case True
      then obtain key rest1 t1 where k: "q = Some (key, rest1)" "skip rest1 = CHR '':'' # t1" by blast
      have t1: "length (skip t1) < length s"
        using parse_string_length[of "skip s" m1 key rest1 m2] q k skip_length[of s] skip_length[of rest1] skip_length[of t1] by simp
      then have "2 * length (skip t1) < n" using len by simp
      from V[OF this, of m2] show ?thesis
      proof (cases rule: returnsE)
        case (ok j rest m3)
        have l: "length rest \<le> length s" "0 < length s" using ok(2) t1 by auto
        have f: "returns t (parse_members n fp t m3)" if "length t < length s" for t using that M len by simp
        show ?thesis
          using ok(1) b q k rest_returns[OF l(1) order_refl f _ l(2), of "CHR ''}''" m3 "\<lambda>cs. (Some key, j) # cs" "[(Some key, j)]"] by simp
      qed (simp add: b q k)
    qed
  qed
  show ?case using 1 2 3 by blast
qed simp

text \<open>The parser returns on every text, whatever allocations fail.\<close>

theorem json_parser_returns: "baidu_json_Parse fp s m \<noteq> None"
proof -
  obtain b m1 where b: "malloc_ok m = (b, m1)" by fastforce
  have "returns (skip s) (parse_value (2 * length s + 1) fp (skip s) m1)"
    using parser_returns[of "skip s" "2 * length s + 1" fp m1] skip_length[of s] by simp
  then show ?thesis using b by (auto simp: baidu_json_Parse_def elim!: returnsE simp del: parse_value.simps)
qed

end
