(* ===== verification/Spec2Isabelle.thy ===== *)
theory Spec2Isabelle
  imports DcsRoute EngineStart HashCode OtaDemo HttpDemo VoiceFlow Ntp DevInfo Tls OtaPackage JsonText
begin

text \<open>
  A model of the DuerOS device SDK (\<^verbatim>\<open>src/libduer-device\<close>), the C library with which a device talks
  to Baidu's cloud, and what is proved of it.

  \<^bold>\<open>The program.\<close> The application calls the interface of \<^verbatim>\<open>modules/connagent\<close> and registers the
  directives of \<^verbatim>\<open>modules/dcs\<close>. The interface posts calls to an event loop, whose one task runs the
  engine; the engine owns the queue of outgoing messages, a timer and the connection agent. The
  agent reads the device's profile, connects through the CoAP layer and sends one message at a time;
  the CoAP layer frames the datagrams of the CoAP library and dispatches requests; the transport
  below encrypts the frames with AES in CBC mode and calls the integrator's socket functions. A
  directive from the cloud comes up the same way, through the CoAP layer's table of resources to the
  router of the device control service, which runs a handler: speech, audio player, speaker, alerts,
  voice input. The voice engine encodes what the microphone delivers and reports it. What a handler has to say goes back as a JSON event into the engine's queue. A
  request for the resource \<^verbatim>\<open>newfirmware\<close> starts an update: a second event loop runs a job that downloads
  the package with the HTTP client, checks its signature while unpacking it piece by piece, and hands the image to the
  integrator.

  \<^bold>\<open>Theories, from the bottom.\<close>
  \<^item> \<open>DuerPrelude\<close>: status codes, byte and word types, allocation outcomes, buffers.
  \<^item> \<open>FifoSpec\<close>, \<open>KeyTable\<close>: the contracts (locales) of a queue and of a table, with the
    theorems about whole runs. \<open>QueueCache\<close> and \<open>EventQueue\<close> interpret the first, \<open>Coap\<close> the second.
  \<^item> \<open>QueueCache\<close> (\<^verbatim>\<open>framework/utils/lightduer_queue_cache.c\<close>) on a heap of nodes, and the list-level queue
    \<open>lqueue\<close> it refines, which the engine and the audio player use.
  \<^item> \<open>EventQueue\<close> (\<^verbatim>\<open>platform/source-linux/lightduer_events.c\<close>), \<open>Timers\<close> (\<^verbatim>\<open>lightduer_timers.c\<close> there),
    \<open>NetUtil\<close> and \<open>HashCode\<close> (\<^verbatim>\<open>framework/utils\<close>), \<open>Json\<close> (\<^verbatim>\<open>external/baidu_json\<close>, the tree);
    \<open>JsonText\<close> prints and parses it.
  \<^item> \<open>Transport\<close> (\<^verbatim>\<open>framework/core/lightduer_net_transport*.c\<close>, \<^verbatim>\<open>lightduer_net_trans_aes_cbc_encrypted.c\<close>,
    \<^verbatim>\<open>utils/lightduer_aes.c\<close>): sockets as scripts of answers, the secure frame, the cipher. \<open>Tls\<close>
    (\<^verbatim>\<open>lightduer_net_trans_encrypted.c\<close>): the transport of the other build, with TLS.
  \<^item> \<open>Coap\<close> (\<^verbatim>\<open>modules/coap\<close>): framing, dynamic resources, life cycle.
  \<^item> \<open>CaAgent\<close> (\<^verbatim>\<open>modules/connagent/lightduer_ca.c\<close>, \<^verbatim>\<open>lightduer_ca_conf.c\<close>) and \<open>CaStart\<close>, what its start does.
  \<^item> \<open>Engine\<close> (\<^verbatim>\<open>lightduer_engine.c\<close>, \<^verbatim>\<open>lightduer_connagent.c\<close>), and about it \<open>EngineFlow\<close> (messages
    and wake-ups over sequences of operations), \<open>EngineStall\<close> (how the queue stops) and
    \<open>EngineStart\<close> (retries).
  \<^item> \<open>DcsState\<close>, \<open>Dcs\<close>, \<open>DcsRouter\<close> (\<^verbatim>\<open>modules/dcs\<close>): state and events, the operations, the router; about
    them \<open>DcsMedia\<close> (what each operation does to speech and player), \<open>DcsFlow\<close> (what holds of every
    state that is reached) and \<open>DcsRoute\<close> (the list of directives and exception reports).
  \<^item> \<open>VoiceEngine\<close> (\<^verbatim>\<open>modules/voice_engine\<close>): cutting samples into frames, collecting and reporting them; about
    whole recordings \<open>VoiceFlow\<close>. \<open>DevInfo\<close> (\<^verbatim>\<open>modules/Device_Info\<close>) reports versions and the network,
    \<open>Ntp\<close> (\<^verbatim>\<open>modules/ntp\<close>) asks a server for the time.
  \<^item> \<open>CText\<close>: the string functions of the C library that the code uses (\<^verbatim>\<open>strstr\<close>, \<^verbatim>\<open>sscanf\<close>, \<^verbatim>\<open>atoi\<close> and so on).
  \<^item> \<open>HttpUrl\<close>, \<open>HttpNet\<close>, \<open>HttpRecv\<close>, \<open>HttpClient\<close> (\<^verbatim>\<open>modules/HTTP\<close>): addresses and requests; the state, the
    socket and sending; the status line, the headers and the content, plain and in chunks; connecting,
    redirections and resuming. About them \<open>HttpRead\<close> (receiving keeps what is still to come),
    \<open>HttpHead\<close> (heads that arrive in any pieces), \<open>HttpBody\<close> and \<open>HttpChunk\<close> (content) and \<open>HttpFlow\<close> (whole
    downloads from a server that may break off at any byte). \<open>HttpDemo\<close> applies the theorems to a small server.
  \<^item> \<open>OtaVerify\<close> (\<^verbatim>\<open>modules/OTA/Unpacker/verification.c\<close>), \<open>OtaMeta\<close> and \<open>OtaUnpack\<close> (\<^verbatim>\<open>decompress.c\<close> and
    \<^verbatim>\<open>lightduer_ota_unpack.c\<close> there): the signature, the description of a package, the stream of its
    modules; \<open>OtaPackage\<close> (\<^verbatim>\<open>datacollector.c\<close>, \<^verbatim>\<open>package_api.c\<close>): the modules of a
    description one by one; \<open>OtaStream\<close> says what is delivered and \<open>OtaFaults\<close> what goes wrong. \<open>OtaDownload\<close>
    (\<^verbatim>\<open>modules/OTA/Downloader\<close>), \<open>OtaUpdate\<close> (\<^verbatim>\<open>Updater\<close>, \<^verbatim>\<open>Notifier\<close>) and, about the whole update,
    \<open>OtaFlow\<close>. \<open>OtaDemo\<close> applies the theorems to a small package.

  A definition has the name of the C function it translates. A static variable or a field of a C
  structure is a field of a record with its name, possibly with the module's prefix.

  \<^bold>\<open>Conventions.\<close> A status is an \<open>int\<close>. Reading or writing through \<^verbatim>\<open>NULL\<close>, freed memory or past the end of
  a buffer is the result \<open>None\<close>. Which allocations succeed is a list of booleans in the state, and an
  empty list means that all do; the theorems that need memory say so. The integers of the wire
  formats, counters that wrap and sizes that are cut are words of their width. Sections of code
  under a mutex are single steps; so are the entry points of the device control service, which the code does not
  protect by a common lock, so that what is proved of it holds when they do not overlap. What the application or the integrator answers is part of the
  state or an argument. The other arguments are the CoAP library (\<open>e_nsdl\<close>), the block cipher
  (\<open>crypt\<close>), the JSON parser and printer (\<open>sd_parse\<close>, \<open>sd_print\<close>) and the byte order of the target; for
  updates, zlib (its initial state and \<^verbatim>\<open>inflate\<close> as a function of state and input), the cJSON parser,
  the RSA check, the hash, Speex and base64, mbed TLS as a tree of the calls it makes back (\<open>tls_lib\<close>), the pieces the HTTP client delivers and the progress computed in floating point.
  For the HTTP client they are the socket calls: a peer is a function from the request it is sent to what it sends,
  in pieces and with errors. There sizes have 32 bits, as on the devices. Arithmetic with
  \<^verbatim>\<open>double\<close> in the NTP client is that of rational numbers, with the rounding as an argument.

  \<^bold>\<open>What is proved.\<close>
  \<^item> Queue and event loop: the pointer structures answer as lists do, under any interleaving and any
    outcome of the allocations; events run once, in order, and all of them when the task is left to run.
    A JSON tree comes back from its text, the parser returns on every text, and what it makes of a string
    fits the memory it allocates.
  \<^item> Transport and CoAP: what is framed, padded and encrypted on one side is delivered unchanged on
    the other, up to the size of the receive buffer; a connection with a certificate sends nothing in the clear; in the build
    with TLS nothing is written before the handshake; the table of resources is
    a map, also when allocations fail; contexts are acquired and released in pairs.
  \<^item> Agent: its start does not run for ever while the peer keeps the connection open; \<open>STARTED\<close> means that the
    service router answered; a profile is loaded or refused as a whole; tokens are distinct until
    they wrap; a response carries the token of its request.
  \<^item> Engine: messages leave the queue in the order they entered; with memory, and as long as reports
    do not interleave and no send fails, a queued message has a send posted; start delays double up to
    a bound.
  \<^item> Device control service: speech and audio never play together; the player plays the head of its
    queue; playlists are played in order; the list of directives is a map; a refused directive is
    reported once.
  \<^item> Voice: a recording enters the queue of the engine as the printed reports of its encoded frames in order, however it was cut into pieces.
  \<^item> Updates: the verdict on the signature and what the integrator receives depend on the bytes of
    the package and not on how they are cut into pieces; its description is read back and its modules are found; whatever
    fails, the integrator's functions are called in their order.
  \<^item> HTTP client: whatever part of the right replies a server sends on each connection, the data handler
    gets a beginning of the document without gaps and repetitions, and all of it when the download
    succeeds; such a download returns unless a connection is closed inside a head; what is sent in
    chunks arrives as their concatenation; addresses are read back.
  \<^item> Where the code fails: theorems of the kind \<open>error\<close> or \<open>liveness\<close> exhibit it. The event loop reads a
    freed message when it is destroyed after work; a bad frame header sticks; an inner length is
    trusted; the start loop spins on a closed connection; a profile that fails to load leaves dangling
    pointers; two reports can stall the queue for good; a started event can be sent without a start; a
    \<^verbatim>\<open>NULL\<close> item wedges the player; a failed registration breaks the router; whatever was downloaded is
    installed, and only one update can be started; a refused piece of a package makes the next one
    read outside its buffer, and a corrupt one is forgotten; a connection closed inside the head of a reply makes
    the HTTP client ask for more for ever, the largest chunk sizes make it copy 4 GB, and so does an
    address with a fragment mark before its path; an empty piece of a recording repeats samples; a TLS
    handle that was closed is followed again when it is released.

  \<^bold>\<open>Bounds and fuel.\<close> The loops that may not end are each a \<open>partial_function (option)\<close>: not returning is the
  outer \<open>None\<close>, and the inner \<open>None\<close> is the access outside memory. These are \<open>ca_start_loop\<close>, \<open>ca_add_loop\<close> with
  the 8 bits of its index, \<open>inflate_loop\<close>, and in the HTTP client \<open>recv_headers_loop\<close> and the
  loops over chunks. For the agent, both cases are theorems; \<open>inflate_loop\<close> ends when zlib makes progress
  on every call that fills its buffer (\<open>handler_returns\<close>), but an update job does not return when its transfer does not,
  which is part of \<open>ot_http\<close>; for the HTTP client
  \<open>download_returns\<close> and \<open>chunked_roundtrip\<close> give results, and \<open>head_close_spins\<close> shows the other case. The parser of
  JSON texts has fuel for the depth of its calls, and \<open>json_parser_returns\<close> shows that twice the length of the text
  and one is enough. All other loops
  are structural or have a measure. The length of a piece of a package, of a document and of a chunk are bounded
  by the 32 bits of the counters (31 where an \<^verbatim>\<open>int\<close> holds them). Message sizes are bounded where the code has
  a buffer: the 2056 bytes of a secure frame, the 1024 bytes of the HTTP client, the 512 bytes of a header.

  \<^bold>\<open>Not modelled.\<close> Vendored libraries (mbed TLS, mbed-client-c, mbed-trace, speex, zlib) and the code that
  only wraps them or the operating system (threads, mutexes, sleep, logging, sockets, the FreeRTOS,
  mbed and Android ports); formatted and buffered printing of JSON; the LWM2M registration that the default build leaves out; examples and tests. The times
  at which things happen are not modelled, only their order.
\<close>

end
